(* ===== verification/Prelude.thy ===== *)
theory Prelude
  imports Main "HOL-Library.Word"
begin

text \<open>
  What every theory of the development shares: the representation of Python values
  and the small library of facts about options, sums and lists.

  \<^item> A Python \<open>str\<close> is a list of code points (type \<open>pystr\<close>), because the program
    tests code points (unpaired surrogates, characters beyond Latin-1). Closed
    vocabularies and identifiers (statuses, error classes, row ids), which the program
    only stores and compares, are HOL strings.
  \<^item> A Python \<open>bytes\<close> is a list of 8-bit words.
  \<^item> A function that can raise returns a sum: \<open>Inl\<close> the exception, \<open>Inr\<close> the value.
\<close>

type_synonym pystr = "nat list"
type_synonym byte = "8 word"
type_synonym bytes = "byte list"

text \<open>Literals: \<open>ord\<close> is Python's function on one character; \<open>u\<close> and \<open>b\<close> read a HOL
  string literal as a \<open>str\<close> and as a \<open>bytes\<close>.\<close>

abbreviation ord :: "char \<Rightarrow> nat" where
  "ord c \<equiv> of_char c"

definition u :: "string \<Rightarrow> pystr" where
  "u s = map of_char s"

definition b :: "string \<Rightarrow> bytes" where
  "b s = map of_char s"

named_theorems literals \<open>unfold string literals to code points and bytes\<close>

lemmas [literals] = u_def b_def

text \<open>The bind of the exception monad.\<close>

fun rbind :: "'e + 'a \<Rightarrow> ('a \<Rightarrow> 'e + 'b) \<Rightarrow> 'e + 'b" where
  "rbind (Inl e) f = Inl e"
| "rbind (Inr x) f = f x"

lemma rbind_Inr_iff: "rbind m f = Inr y \<longleftrightarrow> (\<exists>x. m = Inr x \<and> f x = Inr y)"
  by (cases m) auto

lemma rbind_split: "P (rbind m f) \<longleftrightarrow>
    (\<forall>e. m = Inl e \<longrightarrow> P (Inl e)) \<and> (\<forall>x. m = Inr x \<longrightarrow> P (f x))"
  by (cases m) auto

lemma rbind_split_asm: "P (rbind m f) \<longleftrightarrow>
    \<not> ((\<exists>e. m = Inl e \<and> \<not> P (Inl e)) \<or> (\<exists>x. m = Inr x \<and> \<not> P (f x)))"
  by (cases m) auto

text \<open>\<open>mapM\<close>: a loop that stops at the first exception.\<close>

fun rmap :: "('a \<Rightarrow> 'e + 'b) \<Rightarrow> 'a list \<Rightarrow> 'e + 'b list" where
  "rmap f [] = Inr []"
| "rmap f (x # xs) = rbind (f x) (\<lambda>y. rbind (rmap f xs) (\<lambda>ys. Inr (y # ys)))"

lemma rmap_Inr_length: "rmap f xs = Inr ys \<Longrightarrow> length ys = length xs"
  by (induction xs arbitrary: ys) (auto simp: rbind_Inr_iff)

lemma rmap_map: "(\<And>x. x \<in> set xs \<Longrightarrow> f x = Inr (g x)) \<Longrightarrow> rmap f xs = Inr (map g xs)"
  by (induction xs) auto

lemma rmap_Inr_all: "rmap f xs = Inr ys \<Longrightarrow> \<forall>y \<in> set ys. \<exists>x \<in> set xs. f x = Inr y"
  by (induction xs arbitrary: ys) (fastforce simp: rbind_Inr_iff)+

lemma isl_rbind: "isl (rbind x f) \<longleftrightarrow> isl x \<or> isl (f (projr x))"
  by (cases x) simp_all

lemma rmap_isl: "isl (rmap f xs) \<longleftrightarrow> (\<exists>x \<in> set xs. isl (f x))"
  by (induction xs) (auto simp: isl_rbind)

text \<open>A list without its last element and the last element, as an append.\<close>

lemma takeWhile_append_stop:
  "\<forall>x \<in> set xs. P x \<Longrightarrow> \<not> P y \<Longrightarrow> takeWhile P (xs @ y # ys) = xs"
  by (induction xs) auto

lemma dropWhile_append_stop:
  "\<forall>x \<in> set xs. P x \<Longrightarrow> \<not> P y \<Longrightarrow> dropWhile P (xs @ y # ys) = y # ys"
  by (induction xs) auto

lemma dropWhile_Cons_length: "dropWhile P s = c # rest \<Longrightarrow> length rest < length s"
  by (metis length_Cons length_dropWhile_le less_eq_Suc_le)

lemma word8_less: "unat (w :: 8 word) < 256"
  by (rule order_less_le_trans [OF unsigned_less]) simp

lemma filter_key_unique:
  "distinct (map key rows) \<Longrightarrow> x \<in> set rows \<Longrightarrow> filter (\<lambda>r. key r = key x) rows = [x]"
proof (induction rows)
  case (Cons r rows)
  have none: "filter (\<lambda>y. key y = key r) rows = []"
    using Cons.prems(1) by (simp add: filter_empty_conv) (metis image_eqI)
  show ?case
  proof (cases "x = r")
    case True
    with none show ?thesis by simp
  next
    case False
    with Cons have "x \<in> set rows" "key r \<noteq> key x" by auto
    with Cons show ?thesis by simp
  qed
qed simp

text \<open>Programs that change a state and may raise: an exception leaves the changes made before it in
  place, as in the source. \<open>sbind\<close> sequences two of them, \<open>smap\<close> is a \<open>for\<close> loop.\<close>

type_synonym ('s, 'e, 'a) prog = "'s \<Rightarrow> ('e + 'a) \<times> 's"

definition sret :: "'a \<Rightarrow> ('s, 'e, 'a) prog" where
  "sret x s = (Inr x, s)"

definition sraise :: "'e \<Rightarrow> ('s, 'e, 'a) prog" where
  "sraise e s = (Inl e, s)"

definition sbind :: "('s, 'e, 'a) prog \<Rightarrow> ('a \<Rightarrow> ('s, 'e, 'c) prog) \<Rightarrow> ('s, 'e, 'c) prog" where
  "sbind m f s = (case m s of (Inl e, s') \<Rightarrow> (Inl e, s') | (Inr x, s') \<Rightarrow> f x s')"

fun sfor :: "('a \<Rightarrow> ('s, 'e, unit) prog) \<Rightarrow> 'a list \<Rightarrow> ('s, 'e, unit) prog" where
  "sfor f [] = sret ()"
| "sfor f (x # xs) = sbind (f x) (\<lambda>_. sfor f xs)"

lemma sret_app [simp]: "sret x s = (Inr x, s)"
  by (simp add: sret_def)

lemma sraise_app [simp]: "sraise e s = (Inl e, s)"
  by (simp add: sraise_def)

lemma sbind_Inl [simp]: "m s = (Inl e, s') \<Longrightarrow> sbind m f s = (Inl e, s')"
  by (simp add: sbind_def)

lemma sbind_Inr [simp]: "m s = (Inr x, s') \<Longrightarrow> sbind m f s = f x s'"
  by (simp add: sbind_def)

lemma sbind_InrE:
  assumes "sbind m f s = (Inr y, s'')"
  obtains x s' where "m s = (Inr x, s')" "f x s' = (Inr y, s'')"
  using assms by (auto simp: sbind_def split: prod.splits sum.splits)

lemma sbind_InlE:
  assumes "sbind m f s = (Inl e, s'')"
  obtains "m s = (Inl e, s'')" | x s' where "m s = (Inr x, s')" "f x s' = (Inl e, s'')"
  using assms by (auto simp: sbind_def split: prod.splits sum.splits)

text \<open>A property of states that a program keeps, whether it returns or raises.\<close>

definition keeps :: "('s \<Rightarrow> bool) \<Rightarrow> ('s, 'e, 'a) prog \<Rightarrow> bool" where
  "keeps P m \<longleftrightarrow> (\<forall>s. P s \<longrightarrow> P (snd (m s)))"

named_theorems keeps_intros \<open>programs that keep a property\<close>

lemma keeps_sret [keeps_intros]: "keeps P (sret x)"
  by (simp add: keeps_def)

lemma keeps_sraise [keeps_intros]: "keeps P (sraise e)"
  by (simp add: keeps_def)

lemma keeps_sbind [keeps_intros]: "keeps P m \<Longrightarrow> (\<And>x. keeps P (f x)) \<Longrightarrow> keeps P (sbind m f)"
  by (fastforce simp: keeps_def sbind_def split: prod.splits sum.splits)

lemma keeps_if [keeps_intros]: "(c \<Longrightarrow> keeps P m) \<Longrightarrow> (\<not> c \<Longrightarrow> keeps P n) \<Longrightarrow> keeps P (if c then m else n)"
  by simp

lemma keepsD: "keeps P m \<Longrightarrow> P s \<Longrightarrow> m s = (r, s') \<Longrightarrow> P s'"
  by (metis keeps_def snd_conv)

text \<open>A property that holds after every exception a program raises.\<close>

definition keeps_raising :: "('s \<Rightarrow> bool) \<Rightarrow> ('s, 'e, 'a) prog \<Rightarrow> bool" where
  "keeps_raising P m \<longleftrightarrow> (\<forall>s e s'. P s \<longrightarrow> m s = (Inl e, s') \<longrightarrow> P s')"

lemma keeps_raising_sbind: "keeps P m \<Longrightarrow> (\<And>x. keeps_raising P (f x)) \<Longrightarrow> keeps_raising P (sbind m f)"
  unfolding keeps_raising_def by (blast elim: sbind_InlE dest: keepsD)

lemma keeps_raising_last: "keeps_raising P m \<Longrightarrow> keeps_raising P (sbind m (\<lambda>x. sret (f x)))"
  unfolding keeps_raising_def by (auto elim: sbind_InlE)

end
