(* ===== verification/Py_Text.thy ===== *)
theory Py_Text
  imports Prelude
begin

text \<open>
  The operations of Python's \<open>str\<close> and \<open>bytes\<close> the program calls: searching,
  splitting, joining, stripping, lower-casing, and the UTF-8 and Latin-1 codecs. Each is a total
  function on lists; where Python raises, the result is an option.
\<close>

section \<open>Searching and splitting\<close>

definition startswith :: "'a list \<Rightarrow> 'a list \<Rightarrow> bool" where
  "startswith p s \<longleftrightarrow> take (length p) s = p"

definition endswith :: "'a list \<Rightarrow> 'a list \<Rightarrow> bool" where
  "endswith p s \<longleftrightarrow> length p \<le> length s \<and> drop (length s - length p) s = p"

text \<open>\<open>s.find(p)\<close>, with \<open>None\<close> for Python's -1.\<close>

fun py_find :: "'a list \<Rightarrow> 'a list \<Rightarrow> nat option" where
  "py_find p [] = (if p = [] then Some 0 else None)"
| "py_find p (x # xs) =
     (if startswith p (x # xs) then Some 0 else map_option Suc (py_find p xs))"

definition contains :: "'a list \<Rightarrow> 'a list \<Rightarrow> bool" where
  "contains p s \<longleftrightarrow> py_find p s \<noteq> None"

text \<open>\<open>s.split(c)\<close> on a one-character separator: never empty.\<close>

fun split1 :: "'a \<Rightarrow> 'a list \<Rightarrow> 'a list list" where
  "split1 c [] = [[]]"
| "split1 c (x # xs) =
     (if x = c then [] # split1 c xs
      else (x # hd (split1 c xs)) # tl (split1 c xs))"

text \<open>\<open>sep.join(xs)\<close>.\<close>

fun join :: "'a list \<Rightarrow> 'a list list \<Rightarrow> 'a list" where
  "join sep [] = []"
| "join sep [x] = x"
| "join sep (x # y # zs) = x @ sep @ join sep (y # zs)"

text \<open>\<open>s.partition(c)\<close> and \<open>s.rpartition(c)\<close> on a one-character separator; the middle
  component says whether the separator was found.\<close>

definition partition1 :: "'a \<Rightarrow> 'a list \<Rightarrow> 'a list \<times> bool \<times> 'a list" where
  "partition1 c s =
     (if c \<in> set s then (takeWhile (\<lambda>x. x \<noteq> c) s, True, tl (dropWhile (\<lambda>x. x \<noteq> c) s))
      else (s, False, []))"

definition rpartition1 :: "'a \<Rightarrow> 'a list \<Rightarrow> 'a list \<times> bool \<times> 'a list" where
  "rpartition1 c s =
     (if c \<in> set s then
        (rev (tl (dropWhile (\<lambda>x. x \<noteq> c) (rev s))), True, rev (takeWhile (\<lambda>x. x \<noteq> c) (rev s)))
      else ([], False, s))"

lemma split1_not_Nil [simp]: "split1 c s \<noteq> []"
  by (induction s) auto

text \<open>The tail is split once when the function is evaluated.\<close>

lemma split1_code [code]:
  "split1 c [] = [[]]"
  "split1 c (x # xs) =
     (let ys = split1 c xs in if x = c then [] # ys else (x # hd ys) # tl ys)"
  by (simp_all add: Let_def)

lemma join_Cons_ne: "xs \<noteq> [] \<Longrightarrow> join sep (x # xs) = x @ sep @ join sep xs"
  by (cases xs) auto

lemma join_Cons_front: "xs \<noteq> [] \<Longrightarrow> join sep ((y # hd xs) # tl xs) = y # join sep xs"
  by (cases xs rule: list.exhaust; cases "tl xs") auto

lemma join_split1: "join [c] (split1 c s) = s"
  by (induction s) (auto simp: join_Cons_ne join_Cons_front)

lemma split1_notin: "c \<notin> set s \<Longrightarrow> split1 c s = [s]"
  by (induction s) auto

lemma split1_append: "c \<notin> set s \<Longrightarrow> split1 c (s @ c # t) = s # split1 c t"
  by (induction s) auto

lemma split1_chars: "c \<in> set x \<Longrightarrow> x \<in> set (split1 d s) \<Longrightarrow> c \<in> set s"
proof (induction s arbitrary: x)
  case (Cons y s)
  have "split1 d s \<noteq> []" by simp
  with Cons show ?case by (cases "split1 d s") (fastforce split: if_splits)+
qed simp

lemma join_chars: "c \<in> set (join sep xs) \<Longrightarrow> c \<in> set sep \<or> (\<exists>x \<in> set xs. c \<in> set x)"
  by (induction xs rule: induct_list012) auto

lemma split1_free: "s \<in> set (split1 c t) \<Longrightarrow> c \<notin> set s"
proof (induction t arbitrary: s)
  case (Cons x t)
  then have IH: "\<forall>s \<in> set (split1 c t). c \<notin> set s" by blast
  obtain h r where hr: "split1 c t = h # r" by (cases "split1 c t") auto
  with IH Cons.prems show ?case by (auto split: if_splits)
qed simp

lemma split1_join: "xs \<noteq> [] \<Longrightarrow> \<forall>x \<in> set xs. c \<notin> set x \<Longrightarrow> split1 c (join [c] xs) = xs"
  by (induction xs rule: induct_list012) (auto simp: split1_notin split1_append)

lemma partition1_append: "c \<notin> set s \<Longrightarrow> partition1 c (s @ c # t) = (s, True, t)"
  by (auto simp: partition1_def takeWhile_append dropWhile_append)

lemma partition1_notin: "c \<notin> set s \<Longrightarrow> partition1 c s = (s, False, [])"
  by (simp add: partition1_def)

lemma startswith_append [simp]: "startswith p (p @ s)"
  by (simp add: startswith_def)

lemma startswith_Nil [simp]: "startswith [] s"
  by (simp add: startswith_def)

lemma startswithE: "startswith p s \<Longrightarrow> (\<And>t. s = p @ t \<Longrightarrow> P) \<Longrightarrow> P"
  unfolding startswith_def by (metis append_take_drop_id)

lemma py_find_Some: "py_find p s = Some i \<Longrightarrow> i \<le> length s \<and> startswith p (drop i s)"
  by (induction s arbitrary: i) (auto split: if_splits)

lemma py_find_take: "py_find p s = Some i \<Longrightarrow> s = take i s @ p @ drop (i + length p) s"
  using py_find_Some [of p s i]
  by (auto elim!: startswithE) (metis append_eq_conv_conj append_take_drop_id drop_drop add.commute)

lemma py_find_least: "py_find p s = Some i \<Longrightarrow> j < i \<Longrightarrow> \<not> startswith p (drop j s)"
proof (induction s arbitrary: i j)
  case (Cons x s)
  then show ?case by (cases j) (auto split: if_splits)
qed (auto split: if_splits)

lemma py_find_None: "py_find p s = None \<Longrightarrow> \<not> startswith p (drop j s)"
proof (induction s arbitrary: j)
  case (Cons x s)
  then show ?case by (cases j) (auto split: if_splits)
qed (auto split: if_splits simp: startswith_def)

lemma py_find_single: "py_find [c] s = (if c \<in> set s then Some (length (takeWhile (\<lambda>x. x \<noteq> c) s)) else None)"
  by (induction s) (auto simp: startswith_def)

lemma py_find_stop: "c \<notin> set s \<Longrightarrow> py_find [c] (s @ c # t) = Some (length s)"
  by (induction s) (auto simp: startswith_def)

section \<open>Whitespace and case\<close>

text \<open>\<open>str.isspace\<close> on one code point, and the six characters \<open>bytes.strip\<close> removes.\<close>

definition is_space :: "nat \<Rightarrow> bool" where
  "is_space c \<longleftrightarrow> 9 \<le> c \<and> c \<le> 13 \<or> 28 \<le> c \<and> c \<le> 32 \<or> c = 133 \<or> c = 160 \<or> c = 5760 \<or>
     8192 \<le> c \<and> c \<le> 8202 \<or> c = 8232 \<or> c = 8233 \<or> c = 8239 \<or> c = 8287 \<or> c = 12288"

definition lstrip :: "pystr \<Rightarrow> pystr" where
  "lstrip s = dropWhile is_space s"

definition rstrip :: "pystr \<Rightarrow> pystr" where
  "rstrip s = rev (dropWhile is_space (rev s))"

definition strip :: "pystr \<Rightarrow> pystr" where
  "strip s = rstrip (lstrip s)"

text \<open>\<open>str.lower\<close> on Latin-1, which is all the program applies it to when it reads HTTP text
  (the text comes out of a Latin-1 decoding). Code points above U+00FF are left alone.\<close>

definition lower1 :: "nat \<Rightarrow> nat" where
  "lower1 c = (if 65 \<le> c \<and> c \<le> 90 \<or> 192 \<le> c \<and> c \<le> 222 \<and> c \<noteq> 215 then c + 32 else c)"

definition lower :: "pystr \<Rightarrow> pystr" where
  "lower s = map lower1 s"

text \<open>\<open>str.lower\<close> where only its ASCII characters matter: beyond Latin-1 only U+212A and U+0130 fold to ASCII letters.\<close>

definition fold_name :: "pystr \<Rightarrow> pystr" where
  "fold_name s = concat (map (\<lambda>c. if c = 0x212A then [107] else if c = 0x130 then [105, 0x307] else [lower1 c]) s)"

definition is_digit :: "nat \<Rightarrow> bool" where
  "is_digit c \<longleftrightarrow> 48 \<le> c \<and> c \<le> 57"

definition is_alpha :: "nat \<Rightarrow> bool" where
  "is_alpha c \<longleftrightarrow> 65 \<le> c \<and> c \<le> 90 \<or> 97 \<le> c \<and> c \<le> 122"

lemma lower1_idem: "lower1 (lower1 c) = lower1 c"
  by (auto simp: lower1_def)

lemma lower_idem [simp]: "lower (lower s) = lower s"
  by (simp add: lower_def lower1_idem)

lemma lower_append [simp]: "lower (s @ t) = lower s @ lower t"
  by (simp add: lower_def)

lemma lower_length [simp]: "length (lower s) = length s"
  by (simp add: lower_def)

lemma strip_subset: "set (strip s) \<subseteq> set s"
  by (auto simp: strip_def rstrip_def lstrip_def dest!: set_dropWhileD)

lemma strip_Nil [simp]: "strip [] = []"
  by (simp add: strip_def rstrip_def lstrip_def)

lemma strip_idem [simp]: "strip (strip s) = strip s"
proof (cases "strip s = []")
  case False
  have d: "dropWhile is_space (dropWhile is_space s) = dropWhile is_space s" by (induction s) auto
  obtain l where l: "l = dropWhile is_space s" "strip s = rev (dropWhile is_space (rev l))"
    by (simp add: strip_def rstrip_def lstrip_def)
  then have "rev (strip s) = dropWhile is_space (rev l)" by simp
  then have last: "dropWhile is_space (rev (strip s)) = rev (strip s)" by (simp add: dropWhile_idem)
  obtain sfx where "rev l = takeWhile is_space (rev l) @ rev (strip s)"
    using l by (metis rev_rev_ident takeWhile_dropWhile_id)
  then have "l = strip s @ rev (takeWhile is_space (rev l))" by (metis rev_append rev_rev_ident)
  then have "hd (strip s) = hd l" "l \<noteq> []" using False by (metis hd_append2, metis append_is_Nil_conv)
  then have "\<not> is_space (hd (strip s))" using l(1) by (metis hd_dropWhile)
  then have "lstrip (strip s) = strip s" using False by (cases "strip s") (auto simp: lstrip_def)
  then show ?thesis using last by (simp add: strip_def [of "strip s"] rstrip_def)
qed simp

section \<open>Latin-1 and UTF-8\<close>

definition latin1_decode :: "bytes \<Rightarrow> pystr" where
  "latin1_decode bs = map unat bs"

definition latin1_encode :: "pystr \<Rightarrow> bytes option" where
  "latin1_encode s = (if \<forall>c \<in> set s. c < 256 then Some (map of_nat s) else None)"

definition is_surrogate :: "nat \<Rightarrow> bool" where
  "is_surrogate c \<longleftrightarrow> 0xD800 \<le> c \<and> c \<le> 0xDFFF"

text \<open>One code point in UTF-8: \<open>None\<close> is UnicodeEncodeError, raised for a surrogate (a code
  point beyond 0x10FFFF is no \<open>str\<close> element at all).\<close>

definition utf8_char :: "nat \<Rightarrow> bytes option" where
  "utf8_char c =
     (if c < 0x80 then Some [of_nat c]
      else if c < 0x800 then Some [of_nat (0xC0 + c div 64), of_nat (0x80 + c mod 64)]
      else if is_surrogate c then None
      else if c < 0x10000 then
        Some [of_nat (0xE0 + c div 4096), of_nat (0x80 + c div 64 mod 64), of_nat (0x80 + c mod 64)]
      else if c < 0x110000 then
        Some [of_nat (0xF0 + c div 262144), of_nat (0x80 + c div 4096 mod 64),
              of_nat (0x80 + c div 64 mod 64), of_nat (0x80 + c mod 64)]
      else None)"

fun utf8_encode :: "pystr \<Rightarrow> bytes option" where
  "utf8_encode [] = Some []"
| "utf8_encode (c # cs) =
     (case utf8_char c of None \<Rightarrow> None
      | Some x \<Rightarrow> (case utf8_encode cs of None \<Rightarrow> None | Some y \<Rightarrow> Some (x @ y)))"

definition cont :: "byte \<Rightarrow> bool" where
  "cont x \<longleftrightarrow> 0x80 \<le> unat x \<and> unat x < 0xC0"

text \<open>One step of the strict decoder: the lead byte fixes the length, the continuation bytes
  are checked, and overlong forms, surrogates and values beyond 0x10FFFF are refused.\<close>

fun utf8_step :: "bytes \<Rightarrow> (nat \<times> bytes) option" where
  "utf8_step [] = None"
| "utf8_step (x # xs) =
     (let a = unat x in
      if a < 0x80 then Some (a, xs)
      else if a < 0xC2 then None
      else if a < 0xE0 then
        (case xs of y # r \<Rightarrow>
           if cont y then Some ((a - 0xC0) * 64 + (unat y - 0x80), r) else None
         | _ \<Rightarrow> None)
      else if a < 0xF0 then
        (case xs of y # z # r \<Rightarrow>
           (let c = (a - 0xE0) * 4096 + (unat y - 0x80) * 64 + (unat z - 0x80) in
            if cont y \<and> cont z \<and> 0x800 \<le> c \<and> \<not> is_surrogate c then Some (c, r) else None)
         | _ \<Rightarrow> None)
      else if a < 0xF5 then
        (case xs of y # z # w # r \<Rightarrow>
           (let c = (a - 0xF0) * 262144 + (unat y - 0x80) * 4096 + (unat z - 0x80) * 64
                    + (unat w - 0x80) in
            if cont y \<and> cont z \<and> cont w \<and> 0x10000 \<le> c \<and> c < 0x110000
            then Some (c, r) else None)
         | _ \<Rightarrow> None)
      else None)"

lemma utf8_step_length: "utf8_step bs = Some (c, r) \<Longrightarrow> length r < length bs"
  by (cases bs) (auto simp: Let_def split: if_splits list.splits)

function utf8_decode :: "bytes \<Rightarrow> pystr option" where
  "utf8_decode bs =
     (if bs = [] then Some []
      else case utf8_step bs of None \<Rightarrow> None
           | Some (c, r) \<Rightarrow> map_option (Cons c) (utf8_decode r))"
  by pat_completeness auto
termination
  by (relation "measure length") (auto dest: utf8_step_length)

declare utf8_decode.simps [simp del]

lemma unat_of_nat8: "n < 256 \<Longrightarrow> unat (of_nat n :: byte) = n"
  by (simp add: unat_of_nat take_bit_nat_eq_self)

lemma cont_of_nat: "q < 64 \<Longrightarrow> cont (of_nat (0x80 + q))"
  by (simp add: cont_def unat_of_nat8 del: of_nat_add)

lemma utf8_step_2: "2 \<le> p \<Longrightarrow> p < 32 \<Longrightarrow> q < 64 \<Longrightarrow>
    utf8_step (of_nat (0xC0 + p) # of_nat (0x80 + q) # r) = Some (p * 64 + q, r)"
  by (simp add: cont_of_nat unat_of_nat8 Let_def del: of_nat_add)

lemma utf8_step_3: "p < 16 \<Longrightarrow> q < 64 \<Longrightarrow> s < 64 \<Longrightarrow>
    0x800 \<le> p * 4096 + q * 64 + s \<Longrightarrow> \<not> is_surrogate (p * 4096 + q * 64 + s) \<Longrightarrow>
    utf8_step (of_nat (0xE0 + p) # of_nat (0x80 + q) # of_nat (0x80 + s) # r) =
      Some (p * 4096 + q * 64 + s, r)"
  by (simp add: cont_of_nat unat_of_nat8 Let_def del: of_nat_add)

lemma utf8_step_4: "p < 5 \<Longrightarrow> q < 64 \<Longrightarrow> s < 64 \<Longrightarrow> t < 64 \<Longrightarrow>
    0x10000 \<le> p * 262144 + q * 4096 + s * 64 + t \<Longrightarrow>
    p * 262144 + q * 4096 + s * 64 + t < 0x110000 \<Longrightarrow>
    utf8_step (of_nat (0xF0 + p) # of_nat (0x80 + q) # of_nat (0x80 + s) # of_nat (0x80 + t) # r) =
      Some (p * 262144 + q * 4096 + s * 64 + t, r)"
  by (simp add: cont_of_nat unat_of_nat8 Let_def del: of_nat_add)

lemma utf8_step_char: "utf8_char c = Some x \<Longrightarrow> utf8_step (x @ r) = Some (c, r)"
proof -
  assume a: "utf8_char c = Some x"
  have c2: "c = c div 64 * 64 + c mod 64" by simp
  have d: "c div 64 div 64 = c div 4096" "c div 4096 div 64 = c div 262144"
    by (simp_all flip: div_mult2_eq)
  have c3: "c = c div 4096 * 4096 + c div 64 mod 64 * 64 + c mod 64"
    using div_mult_mod_eq [of c 64] div_mult_mod_eq [of "c div 64" 64] d by linarith
  have c4: "c = c div 262144 * 262144 + c div 4096 mod 64 * 4096 + c div 64 mod 64 * 64 + c mod 64"
    using c3 div_mult_mod_eq [of "c div 4096" 64] d by linarith
  consider "c < 0x80" | "0x80 \<le> c" "c < 0x800" | "0x800 \<le> c" "c < 0x10000" "\<not> is_surrogate c"
    | "0x10000 \<le> c" "c < 0x110000"
    using a by (fastforce simp: utf8_char_def split: if_splits)
  then show ?thesis
  proof cases
    case 1
    with a show ?thesis by (auto simp: utf8_char_def unat_of_nat8)
  next
    case 2
    then have "c div 64 < 32" "2 \<le> c div 64" by auto
    with 2 a utf8_step_2 [of "c div 64" "c mod 64" r] c2 show ?thesis
      by (auto simp: utf8_char_def)
  next
    case 3
    then have "c div 4096 < 16" by auto
    with 3 a utf8_step_3 [of "c div 4096" "c div 64 mod 64" "c mod 64" r] show ?thesis
      by (simp add: utf8_char_def flip: c3) auto
  next
    case 4
    then have "c div 262144 < 5" by auto
    moreover have "\<not> is_surrogate c" using 4 by (simp add: is_surrogate_def)
    ultimately show ?thesis
      using 4 a utf8_step_4 [of "c div 262144" "c div 4096 mod 64" "c div 64 mod 64" "c mod 64" r]
      by (simp add: utf8_char_def flip: c4) auto
  qed
qed

lemma utf8_char_not_Nil: "utf8_char c = Some x \<Longrightarrow> x \<noteq> []"
  by (auto simp: utf8_char_def split: if_splits)

lemma utf8_roundtrip: "utf8_encode s = Some bs \<Longrightarrow> utf8_decode bs = Some s"
proof (induction s arbitrary: bs)
  case Nil
  then show ?case by (simp add: utf8_decode.simps)
next
  case (Cons c s)
  from Cons.prems obtain x y where xy: "utf8_char c = Some x" "utf8_encode s = Some y" "bs = x @ y"
    by (auto split: option.splits)
  with Cons.IH [of y] utf8_step_char [of c x y] utf8_char_not_Nil [of c x] show ?case
    by (subst utf8_decode.simps) simp
qed

lemma utf8_encode_append:
  "utf8_encode (s @ t) = (case utf8_encode s of None \<Rightarrow> None
     | Some x \<Rightarrow> (case utf8_encode t of None \<Rightarrow> None | Some y \<Rightarrow> Some (x @ y)))"
  by (induction s) (auto split: option.splits)

text \<open>A byte below 0x80 occurs in the encoding only where its character occurs: what makes a
  search for a newline in the bytes the same as a search in the text.\<close>

lemma utf8_char_ascii: "utf8_char c = Some x \<Longrightarrow> y \<in> set x \<Longrightarrow> unat y < 128 \<Longrightarrow> unat y = c"
proof -
  have big: "unat (of_nat (k + m) :: byte) = k + m" if "k + m < 256" for k m
    using that by (rule unat_of_nat8)
  assume a: "utf8_char c = Some x" "y \<in> set x" "unat y < 128"
  consider "c < 128" | "128 \<le> c" "c < 0x800" | "0x800 \<le> c" "c < 0x10000"
    | "0x10000 \<le> c" "c < 0x110000"
    using a(1) by (fastforce simp: utf8_char_def split: if_splits)
  then show ?thesis
  proof cases
    case 1
    with a show ?thesis by (auto simp: utf8_char_def unat_of_nat8)
  next
    case 2
    then have "c div 64 < 32" by auto
    with 2 a show ?thesis by (auto simp: utf8_char_def big simp del: of_nat_add)
  next
    case 3
    then have "c div 4096 < 16" by auto
    with 3 a show ?thesis
      by (auto simp: utf8_char_def big simp del: of_nat_add split: if_splits)
  next
    case 4
    then have "c div 262144 < 5" by auto
    with 4 a show ?thesis
      by (auto simp: utf8_char_def big simp del: of_nat_add split: if_splits)
  qed
qed

lemma utf8_encode_ascii: "utf8_encode s = Some x \<Longrightarrow> y \<in> set x \<Longrightarrow> unat y < 128 \<Longrightarrow> unat y \<in> set s"
  by (induction s arbitrary: x) (auto split: option.splits dest: utf8_char_ascii)

lemma utf8_encode_total:
  "\<forall>c \<in> set s. c < 0x110000 \<and> \<not> is_surrogate c \<Longrightarrow> \<exists>x. utf8_encode s = Some x"
  by (induction s) (auto simp: utf8_char_def split: option.splits)

lemma latin1_roundtrip: "latin1_encode s = Some bs \<Longrightarrow> latin1_decode bs = s"
  by (auto simp: latin1_encode_def latin1_decode_def intro!: map_idI unat_of_nat8 split: if_splits)

lemma latin1_decode_bound: "c \<in> set (latin1_decode bs) \<Longrightarrow> c < 256"
  by (auto simp: latin1_decode_def intro: word8_less)

end
