(* ===== verification/Json.thy ===== *)
theory Json
  imports Py_Text
begin

text \<open>
  Python's \<open>json.dumps\<close> (\<open>separators=(",",":")\<close>, \<open>ensure_ascii=False\<close>) and \<open>json.loads\<close>, as the
  bridge codec, the tool layer and the insertion-point derivation use them. A float keeps its
  source text: the program only ever asks whether a value is one. The reader
  is recursive descent over the code points; its fuel is the nesting depth plus the number of
  members, \<open>loads_never_out_of_fuel\<close> shows that the fuel \<open>loads\<close> starts with always suffices.
\<close>

datatype json = JNull | JBool bool | JInt int | JFloat pystr | JStr pystr
  | JArr "json list" | JObj "(pystr \<times> json) list"

text \<open>A Python dict as an association list in insertion order with one entry per key.\<close>

fun dict_set :: "'k \<Rightarrow> 'v \<Rightarrow> ('k \<times> 'v) list \<Rightarrow> ('k \<times> 'v) list" where
  "dict_set k v [] = [(k, v)]"
| "dict_set k v ((k', v') # xs) =
     (if k' = k then (k, v) # xs else (k', v') # dict_set k v xs)"

lemma map_of_dict_set: "map_of (dict_set k v xs) = (map_of xs)(k \<mapsto> v)"
  by (induction xs) auto

lemma dict_set_keys: "fst ` set (dict_set k v xs) = insert k (fst ` set xs)"
  by (induction k v xs rule: dict_set.induct) auto

lemma dict_set_distinct: "distinct (map fst xs) \<Longrightarrow> distinct (map fst (dict_set k v xs))"
  by (induction k v xs rule: dict_set.induct) (auto simp: dict_set_keys)

lemma dict_set_fresh: "k \<notin> fst ` set xs \<Longrightarrow> dict_set k v xs = xs @ [(k, v)]"
  by (induction xs) auto

section \<open>Writing\<close>

fun dec_nat :: "nat \<Rightarrow> pystr" where
  "dec_nat n = (if n < 10 then [48 + n] else dec_nat (n div 10) @ [48 + n mod 10])"

declare dec_nat.simps [simp del]

definition dump_int :: "int \<Rightarrow> pystr" where
  "dump_int i = (if i < 0 then 45 # dec_nat (nat (- i)) else dec_nat (nat i))"

definition hex_digit :: "nat \<Rightarrow> nat" where
  "hex_digit n = (if n < 10 then 48 + n else 87 + n)"

definition esc1 :: "nat \<Rightarrow> pystr" where
  "esc1 c =
     (if c = 92 then [92, 92] else if c = 34 then [92, 34]
      else if c = 8 then [92, ord CHR ''b''] else if c = 12 then [92, ord CHR ''f'']
      else if c = 10 then [92, ord CHR ''n''] else if c = 13 then [92, ord CHR ''r'']
      else if c = 9 then [92, ord CHR ''t'']
      else if c < 32 then [92, ord CHR ''u'', 48, 48, hex_digit (c div 16), hex_digit (c mod 16)]
      else [c])"

definition dump_str :: "pystr \<Rightarrow> pystr" where
  "dump_str s = 34 # concat (map esc1 s) @ [34]"

fun dumps :: "json \<Rightarrow> pystr" where
  "dumps JNull = u ''null''"
| "dumps (JBool x) = (if x then u ''true'' else u ''false'')"
| "dumps (JInt i) = dump_int i"
| "dumps (JFloat t) = t"
| "dumps (JStr s) = dump_str s"
| "dumps (JArr xs) = 91 # join [44] (map dumps xs) @ [93]"
| "dumps (JObj kvs) = 123 # join [44] (map (\<lambda>(k, v). dump_str k @ 58 # dumps v) kvs) @ [125]"

section \<open>Reading\<close>

datatype json_error = OutOfFuel | BadJson

definition ws :: "nat \<Rightarrow> bool" where
  "ws c \<longleftrightarrow> c = 32 \<or> c = 9 \<or> c = 10 \<or> c = 13"

definition skip_ws :: "pystr \<Rightarrow> pystr" where
  "skip_ws s = dropWhile ws s"

definition hex_val :: "nat \<Rightarrow> nat option" where
  "hex_val c =
     (if is_digit c then Some (c - 48)
      else if 97 \<le> c \<and> c \<le> 102 then Some (c - 87)
      else if 65 \<le> c \<and> c \<le> 70 then Some (c - 55) else None)"

fun hex4 :: "pystr \<Rightarrow> (nat \<times> pystr) option" where
  "hex4 (c1 # c2 # c3 # c4 # r) =
     (case (hex_val c1, hex_val c2, hex_val c3, hex_val c4) of
        (Some a1, Some a2, Some a3, Some a4) \<Rightarrow> Some (a1 * 4096 + a2 * 256 + a3 * 16 + a4, r)
      | _ \<Rightarrow> None)"
| "hex4 _ = None"

definition simple_escape :: "nat \<Rightarrow> nat option" where
  "simple_escape e =
     (if e = 34 \<or> e = 92 \<or> e = 47 then Some e
      else if e = ord CHR ''b'' then Some 8 else if e = ord CHR ''f'' then Some 12
      else if e = ord CHR ''n'' then Some 10 else if e = ord CHR ''r'' then Some 13
      else if e = ord CHR ''t'' then Some 9 else None)"

text \<open>A \<open>\u\<close> escape: a high surrogate directly followed by an escaped low one is one code point.\<close>

definition unicode_escape :: "pystr \<Rightarrow> (nat \<times> pystr) option" where
  "unicode_escape s =
     (case hex4 s of None \<Rightarrow> None
      | Some (n, r) \<Rightarrow>
          (case r of x # y # r1 \<Rightarrow>
             (if 0xD800 \<le> n \<and> n \<le> 0xDBFF \<and> x = 92 \<and> y = ord CHR ''u'' then
                (case hex4 r1 of
                   Some (m, r2) \<Rightarrow>
                     if 0xDC00 \<le> m \<and> m \<le> 0xDFFF
                     then Some (0x10000 + (n - 0xD800) * 1024 + (m - 0xDC00), r2)
                     else Some (n, r)
                 | None \<Rightarrow> Some (n, r))
              else Some (n, r))
           | _ \<Rightarrow> Some (n, r)))"

lemma hex4_length: "hex4 s = Some (n, r) \<Longrightarrow> length r < length s"
  by (cases s rule: hex4.cases) (auto split: option.splits)

lemma unicode_escape_length: "unicode_escape s = Some (n, r) \<Longrightarrow> length r < length s"
  by (auto simp: unicode_escape_def split: option.splits list.splits if_splits dest!: hex4_length)

function scan_string :: "pystr \<Rightarrow> (pystr \<times> pystr) option" where
  "scan_string [] = None"
| "scan_string (c # r) =
     (if c = 34 then Some ([], r)
      else if c = 92 then
        (case r of [] \<Rightarrow> None
         | e # r1 \<Rightarrow>
             if e = ord CHR ''u'' then
               (case unicode_escape r1 of None \<Rightarrow> None
                | Some (n, r2) \<Rightarrow> map_option (\<lambda>(t, q). (n # t, q)) (scan_string r2))
             else (case simple_escape e of None \<Rightarrow> None
                   | Some n \<Rightarrow> map_option (\<lambda>(t, q). (n # t, q)) (scan_string r1)))
      else if c < 32 then None
      else map_option (\<lambda>(t, q). (c # t, q)) (scan_string r))"
  by pat_completeness auto
termination
  by (relation "measure length") (auto dest: unicode_escape_length)

text \<open>A number; \<open>int()\<close> refuses more than 4300 digits, which is a ValueError like any other
  malformed JSON.\<close>

definition digits_val :: "pystr \<Rightarrow> nat" where
  "digits_val ds = foldl (\<lambda>a d. a * 10 + (d - 48)) 0 ds"

definition max_str_digits :: nat where
  "max_str_digits = 4300"

definition scan_frac :: "pystr \<Rightarrow> pystr \<times> pystr" where
  "scan_frac s =
     (case s of c # r \<Rightarrow>
        if c = 46 \<and> takeWhile is_digit r \<noteq> []
        then (c # takeWhile is_digit r, dropWhile is_digit r) else ([], s)
      | [] \<Rightarrow> ([], s))"

definition scan_exp :: "pystr \<Rightarrow> pystr \<times> pystr" where
  "scan_exp s =
     (case s of c # r \<Rightarrow>
        if c = ord CHR ''e'' \<or> c = ord CHR ''E'' then
          (let sg = (case r of d # _ \<Rightarrow> if d = 43 \<or> d = 45 then [d] else [] | [] \<Rightarrow> []);
               r1 = drop (length sg) r; ds = takeWhile is_digit r1 in
           if ds \<noteq> [] then (c # sg @ ds, dropWhile is_digit r1) else ([], s))
        else ([], s)
      | [] \<Rightarrow> ([], s))"

definition num_sign :: "pystr \<Rightarrow> pystr" where
  "num_sign s = (if startswith [45] s then [45] else [])"

definition int_digits :: "pystr \<Rightarrow> pystr" where
  "int_digits s = (if startswith [48] s then [48] else takeWhile is_digit s)"

definition scan_number :: "pystr \<Rightarrow> (json \<times> pystr) option" where
  "scan_number s =
     (let sg = num_sign s;
          q = drop (length sg) s;
          ds = int_digits q;
          r = drop (length ds) q;
          fr = scan_frac r;
          ex = scan_exp (snd fr)
      in if ds = [] then None
         else if fst fr = [] \<and> fst ex = [] then
           (if length ds \<le> max_str_digits
            then Some (JInt (if sg = [] then int (digits_val ds) else - int (digits_val ds)), r)
            else None)
         else Some (JFloat (sg @ ds @ fst fr @ fst ex), snd ex))"

definition scan_word :: "pystr \<Rightarrow> (json \<times> pystr) option" where
  "scan_word s =
     (if startswith (u ''null'') s then Some (JNull, drop 4 s)
      else if startswith (u ''true'') s then Some (JBool True, drop 4 s)
      else if startswith (u ''false'') s then Some (JBool False, drop 5 s)
      else if startswith (u ''NaN'') s then Some (JFloat (u ''NaN''), drop 3 s)
      else if startswith (u ''Infinity'') s then Some (JFloat (u ''Infinity''), drop 8 s)
      else if startswith (u ''-Infinity'') s then Some (JFloat (u ''-Infinity''), drop 9 s)
      else None)"

definition of_opt :: "'a option \<Rightarrow> json_error + 'a" where
  "of_opt x = (case x of None \<Rightarrow> Inl BadJson | Some y \<Rightarrow> Inr y)"

text \<open>The next character that is not whitespace, and what follows it; the key of an object
  member with its colon.\<close>

definition next_tok :: "pystr \<Rightarrow> (nat \<times> pystr) option" where
  "next_tok s = (case skip_ws s of [] \<Rightarrow> None | c # r \<Rightarrow> Some (c, r))"

definition member_key :: "pystr \<Rightarrow> (pystr \<times> pystr) option" where
  "member_key s =
     (if startswith [34] s then
        (case scan_string (tl s) of None \<Rightarrow> None
         | Some (k, r) \<Rightarrow>
             (case next_tok r of None \<Rightarrow> None
              | Some (c, q) \<Rightarrow> if c = 58 then Some (k, skip_ws q) else None))
      else None)"

fun parse_value :: "nat \<Rightarrow> pystr \<Rightarrow> json_error + (json \<times> pystr)"
  and parse_members :: "nat \<Rightarrow> pystr \<Rightarrow> (pystr \<times> json) list \<Rightarrow> json_error + (json \<times> pystr)"
  and parse_elems :: "nat \<Rightarrow> pystr \<Rightarrow> json list \<Rightarrow> json_error + (json \<times> pystr)" where
  "parse_value 0 s = Inl OutOfFuel"
| "parse_value (Suc n) s =
     (if startswith [34] s then of_opt (map_option (\<lambda>(t, q). (JStr t, q)) (scan_string (tl s)))
      else if startswith [123] s then
        (case next_tok (tl s) of None \<Rightarrow> Inl BadJson
         | Some (d, r) \<Rightarrow>
             if d = 125 then Inr (JObj [], r) else parse_members n (skip_ws (tl s)) [])
      else if startswith [91] s then
        (case next_tok (tl s) of None \<Rightarrow> Inl BadJson
         | Some (d, r) \<Rightarrow>
             if d = 93 then Inr (JArr [], r) else parse_elems n (skip_ws (tl s)) [])
      else (case scan_word s of Some x \<Rightarrow> Inr x | None \<Rightarrow> of_opt (scan_number s)))"
| "parse_members 0 s acc = Inl OutOfFuel"
| "parse_members (Suc n) s acc =
     (case member_key s of None \<Rightarrow> Inl BadJson
      | Some (k, q) \<Rightarrow>
          rbind (parse_value n q) (\<lambda>(v, q').
            (case next_tok q' of None \<Rightarrow> Inl BadJson
             | Some (e, r) \<Rightarrow>
                 if e = 125 then Inr (JObj (dict_set k v acc), r)
                 else if e = 44 then parse_members n (skip_ws r) (dict_set k v acc)
                 else Inl BadJson)))"
| "parse_elems 0 s acc = Inl OutOfFuel"
| "parse_elems (Suc n) s acc =
     rbind (parse_value n s) (\<lambda>(v, q).
       (case next_tok q of None \<Rightarrow> Inl BadJson
        | Some (e, r) \<Rightarrow>
            if e = 93 then Inr (JArr (acc @ [v]), r)
            else if e = 44 then parse_elems n (skip_ws r) (acc @ [v])
            else Inl BadJson))"

definition loads :: "pystr \<Rightarrow> json_error + json" where
  "loads s =
     (if startswith [0xFEFF] s then Inl BadJson
      else rbind (parse_value (2 * length s + 2) (skip_ws s)) (\<lambda>(v, r).
        if skip_ws r = [] then Inr v else Inl BadJson))"

section \<open>The fuel suffices\<close>

lemma scan_string_length: "scan_string s = Some (t, r) \<Longrightarrow> length r < length s"
proof (induction s arbitrary: t r rule: scan_string.induct)
  case (2 c s)
  then show ?case
    by (fastforce split: if_splits list.splits option.splits dest: unicode_escape_length)
qed simp

lemma scan_frac_length: "length (snd (scan_frac s)) \<le> length s"
  by (auto simp: scan_frac_def split: list.split intro: le_SucI [OF length_dropWhile_le])

lemma scan_exp_length: "length (snd (scan_exp s)) \<le> length s"
proof -
  have "length (dropWhile is_digit (drop k r)) \<le> Suc (length r)" for k r
    using length_dropWhile_le [of is_digit "drop k r"] by simp
  then show ?thesis by (auto simp: scan_exp_def Let_def split: list.split)
qed

lemma int_digits_length: "length (int_digits s) \<le> length s"
  by (cases s) (auto simp: int_digits_def startswith_def intro: le_SucI length_takeWhile_le)

lemma scan_number_length: "scan_number s = Some (v, r) \<Longrightarrow> length r < length s"
proof -
  assume a: "scan_number s = Some (v, r)"
  define q where "q = drop (length (num_sign s)) s"
  define ds where "ds = int_digits q"
  define r1 where "r1 = drop (length ds) q"
  from a have "ds \<noteq> []" "r = r1 \<or> r = snd (scan_exp (snd (scan_frac r1)))"
    by (auto simp: scan_number_def Let_def q_def ds_def r1_def split: if_splits)
  moreover have "length (snd (scan_exp (snd (scan_frac r1)))) \<le> length r1"
    using scan_exp_length scan_frac_length le_trans by blast
  moreover have "length ds \<le> length q" by (simp add: ds_def int_digits_length)
  moreover have "length q \<le> length s" by (simp add: q_def)
  ultimately show ?thesis by (cases ds) (auto simp: r1_def)
qed

lemma scan_word_length: "scan_word s = Some (v, r) \<Longrightarrow> length r < length s"
  by (cases s) (auto simp: scan_word_def startswith_def u_def split: if_splits)

lemma skip_ws_length: "length (skip_ws s) \<le> length s"
  by (simp add: skip_ws_def length_dropWhile_le)

lemma next_tok_length: "next_tok s = Some (c, r) \<Longrightarrow> length r < length s"
  using skip_ws_length [of s] by (auto simp: next_tok_def split: list.splits)

lemma startswith_single: "startswith [c] s \<longleftrightarrow> (\<exists>r. s = c # r)"
  by (cases s) (auto simp: startswith_def)

lemma member_key_length: "member_key s = Some (k, q) \<Longrightarrow> length q < length s"
  by (auto simp: member_key_def startswith_single split: if_splits option.splits
      dest!: scan_string_length next_tok_length)
    (meson skip_ws_length le_less_trans less_trans less_SucI)

lemma of_opt_simps [simp]:
  "of_opt x = Inr y \<longleftrightarrow> x = Some y"
  "of_opt x \<noteq> Inl OutOfFuel"
  by (auto simp: of_opt_def split: option.splits)

text \<open>Every parser that succeeds has consumed at least one character.\<close>

lemma parse_length_step:
  assumes V: "\<And>s v r. parse_value n s = Inr (v, r) \<Longrightarrow> length r < length s"
    and M: "\<And>s acc v r. parse_members n s acc = Inr (v, r) \<Longrightarrow> length r < length s"
    and E: "\<And>s acc v r. parse_elems n s acc = Inr (v, r) \<Longrightarrow> length r < length s"
  shows "parse_value (Suc n) s = Inr (v, r) \<Longrightarrow> length r < length s"
    and "parse_members (Suc n) s acc = Inr (v, r) \<Longrightarrow> length r < length s"
    and "parse_elems (Suc n) s acc' = Inr (v, r) \<Longrightarrow> length r < length s"
proof -
  have ws: "length q < length (skip_ws t) \<Longrightarrow> length q < length t" for q t :: pystr
    using skip_ws_length [of t] by simp
  show "length r < length s" if "parse_value (Suc n) s = Inr (v, r)"
    using that by (auto simp: startswith_single split: if_splits option.splits
        dest!: scan_string_length scan_word_length scan_number_length next_tok_length M E ws)
  show "length r < length s" if a: "parse_members (Suc n) s acc = Inr (v, r)"
  proof -
    from a obtain k q w q' e t where
      "member_key s = Some (k, q)" "parse_value n q = Inr (w, q')" "next_tok q' = Some (e, t)"
      "t = r \<or> parse_members n (skip_ws t) (dict_set k w acc) = Inr (v, r)"
      by (auto split: rbind_split_asm option.split_asm if_split_asm)
    then show ?thesis
      by (auto dest!: member_key_length V next_tok_length M ws)
  qed
  show "length r < length s" if a: "parse_elems (Suc n) s acc' = Inr (v, r)"
  proof -
    from a obtain q w e t where
      "parse_value n s = Inr (w, q)" "next_tok q = Some (e, t)"
      "t = r \<or> parse_elems n (skip_ws t) (acc' @ [w]) = Inr (v, r)"
      by (auto split: rbind_split_asm option.split_asm if_split_asm)
    then show ?thesis
      by (auto dest!: V next_tok_length E ws)
  qed
qed

lemma parse_length:
  "parse_value n s = Inr (v, r) \<Longrightarrow> length r < length s"
  "parse_members n s acc = Inr (v, r) \<Longrightarrow> length r < length s"
  "parse_elems n s acc' = Inr (v, r) \<Longrightarrow> length r < length s"
proof (induction n arbitrary: s v r acc acc')
  case (Suc n)
  { case 1 then show ?case by (rule parse_length_step(1) [rotated 3]) (fact Suc.IH)+ }
  { case 2 then show ?case by (rule parse_length_step(2) [rotated 3]) (fact Suc.IH)+ }
  { case 3 then show ?case by (rule parse_length_step(3) [rotated 3]) (fact Suc.IH)+ }
qed auto

text \<open>Fuel proportional to the input is enough.\<close>

lemma parse_fuel_step:
  assumes V: "\<And>s. 2 * length s + 1 \<le> n \<Longrightarrow> parse_value n s \<noteq> Inl OutOfFuel"
    and M: "\<And>s acc. 2 * length s + 1 \<le> n \<Longrightarrow> parse_members n s acc \<noteq> Inl OutOfFuel"
    and E: "\<And>s acc. 2 * length s + 2 \<le> n \<Longrightarrow> parse_elems n s acc \<noteq> Inl OutOfFuel"
  shows "2 * length s \<le> n \<Longrightarrow> parse_value (Suc n) s \<noteq> Inl OutOfFuel"
    and "2 * length s \<le> n \<Longrightarrow> parse_members (Suc n) s acc \<noteq> Inl OutOfFuel"
    and "2 * length s + 1 \<le> n \<Longrightarrow> parse_elems (Suc n) s acc' \<noteq> Inl OutOfFuel"
proof -
  have ws: "length (skip_ws t) \<le> length t" for t by (rule skip_ws_length)
  show "parse_value (Suc n) s \<noteq> Inl OutOfFuel" if le: "2 * length s \<le> n"
  proof -
    have "parse_members n (skip_ws t) [] \<noteq> Inl OutOfFuel \<and> parse_elems n (skip_ws t) [] \<noteq> Inl OutOfFuel"
      if "s = c # t" for c t
      using that le ws [of t] by (intro conjI M E) auto
    then show ?thesis by (auto simp: startswith_single split: option.split)
  qed
  show "parse_members (Suc n) s acc \<noteq> Inl OutOfFuel" if le: "2 * length s \<le> n"
  proof -
    have "parse_value n q \<noteq> Inl OutOfFuel" if "member_key s = Some (k, q)" for k q
      using member_key_length [OF that] le by (intro V) simp
    moreover have "parse_members n (skip_ws t) a \<noteq> Inl OutOfFuel"
      if "member_key s = Some (k, q)" "parse_value n q = Inr (w, q')" "next_tok q' = Some (e, t)"
      for k q w q' e t a
      using member_key_length [OF that(1)] parse_length(1) [OF that(2)] next_tok_length [OF that(3)]
        ws [of t] le by (intro M) simp
    ultimately show ?thesis by (auto split: rbind_split option.split)
  qed
  show "parse_elems (Suc n) s acc' \<noteq> Inl OutOfFuel" if le: "2 * length s + 1 \<le> n"
  proof -
    have "parse_value n s \<noteq> Inl OutOfFuel" using le by (rule V)
    moreover have "parse_elems n (skip_ws t) a \<noteq> Inl OutOfFuel"
      if "parse_value n s = Inr (w, q)" "next_tok q = Some (e, t)" for w q e t a
      using parse_length(1) [OF that(1)] next_tok_length [OF that(2)] ws [of t] le
      by (intro E) simp
    ultimately show ?thesis by (auto split: rbind_split option.split)
  qed
qed

lemma parse_fuel:
  "2 * length s + 1 \<le> n \<Longrightarrow> parse_value n s \<noteq> Inl OutOfFuel"
  "2 * length s + 1 \<le> n \<Longrightarrow> parse_members n s acc \<noteq> Inl OutOfFuel"
  "2 * length s + 2 \<le> n \<Longrightarrow> parse_elems n s acc' \<noteq> Inl OutOfFuel"
proof (induction n arbitrary: s acc acc')
  case (Suc n)
  { case 1 then show ?case by (intro parse_fuel_step(1) Suc.IH) auto }
  { case 2 then show ?case by (intro parse_fuel_step(2) Suc.IH) auto }
  { case 3 then show ?case by (intro parse_fuel_step(3) Suc.IH) auto }
qed auto

lemma loads_never_out_of_fuel: "loads s \<noteq> Inl OutOfFuel"
proof -
  have "parse_value (2 * length s + 2) (skip_ws s) \<noteq> Inl OutOfFuel"
    using skip_ws_length [of s] by (intro parse_fuel(1)) simp
  then show ?thesis by (auto simp: loads_def split: rbind_split)
qed

section \<open>Reading what was written\<close>

lemma is_digit_dec_nat: "c \<in> set (dec_nat n) \<Longrightarrow> is_digit c"
proof (induction n rule: dec_nat.induct)
  case (1 n)
  then show ?case
    by (subst (asm) dec_nat.simps) (auto simp: is_digit_def split: if_splits)
qed

lemma dec_nat_not_Nil [simp]: "dec_nat n \<noteq> []"
  by (subst dec_nat.simps) simp

lemma dec_nat_leading: "hd (dec_nat n) = 48 \<longleftrightarrow> n = 0"
proof (induction n rule: dec_nat.induct)
  case (1 n)
  then show ?case
    by (subst dec_nat.simps) (auto simp: hd_append div_eq_0_iff)
qed

lemma digits_val_snoc: "digits_val (ds @ [48 + d]) = digits_val ds * 10 + d"
  by (simp add: digits_val_def)

lemma digits_val_dec_nat: "digits_val (dec_nat n) = n"
proof (induction n rule: dec_nat.induct)
  case (1 n)
  then show ?case
    by (subst dec_nat.simps) (auto simp: digits_val_snoc, simp add: digits_val_def)
qed

lemma dec_nat_length: "n < 10 ^ Suc k \<Longrightarrow> length (dec_nat n) \<le> Suc k"
proof (induction k arbitrary: n)
  case 0
  then show ?case by (subst dec_nat.simps) simp
next
  case (Suc k)
  show ?case
  proof (cases "n < 10")
    case False
    have "n div 10 < 10 ^ Suc k" using Suc.prems by (intro less_mult_imp_div_less) (simp add: mult.commute)
    with Suc.IH [of "n div 10"] False show ?thesis by (subst dec_nat.simps) simp
  qed (subst dec_nat.simps, simp)
qed

definition num_stop :: "pystr \<Rightarrow> bool" where
  "num_stop r \<longleftrightarrow> (r = [] \<or> \<not> is_digit (hd r) \<and> hd r \<notin> {46, 69, 101})"

lemma int_digits_dec_nat: "num_stop r \<Longrightarrow> int_digits (dec_nat n @ r) = dec_nat n"
proof (cases "n = 0")
  case True
  then show ?thesis by (simp add: int_digits_def startswith_def dec_nat.simps)
next
  case False
  assume r: "num_stop r"
  have "takeWhile is_digit (dec_nat n @ r) = dec_nat n"
    using r is_digit_dec_nat by (cases r) (auto simp: takeWhile_append num_stop_def)
  moreover have "\<not> startswith [48] (dec_nat n @ r)"
    using dec_nat_leading [of n] False by (cases "dec_nat n") (auto simp: startswith_def)
  ultimately show ?thesis by (simp add: int_digits_def)
qed

lemma scan_frac_stop: "num_stop r \<Longrightarrow> scan_frac r = ([], r)"
  by (cases r) (auto simp: scan_frac_def num_stop_def)

lemma scan_exp_stop: "num_stop r \<Longrightarrow> scan_exp r = ([], r)"
  by (cases r) (auto simp: scan_exp_def num_stop_def)

lemma num_sign_dec_nat: "num_sign (dec_nat n @ r) = []"
  using is_digit_dec_nat [of "hd (dec_nat n)" n]
  by (cases "dec_nat n") (auto simp: num_sign_def startswith_def is_digit_def)

lemma scan_number_dump_int:
  "num_stop r \<Longrightarrow> length (dec_nat (nat \<bar>i\<bar>)) \<le> max_str_digits \<Longrightarrow>
   scan_number (dump_int i @ r) = Some (JInt i, r)"
  using num_sign_dec_nat [of "nat i" r]
  by (auto simp: scan_number_def dump_int_def num_sign_def startswith_def Let_def
      int_digits_dec_nat scan_frac_stop scan_exp_stop digits_val_dec_nat abs_if split: if_splits)

lemma hex_val_digit: "n < 16 \<Longrightarrow> hex_val (hex_digit n) = Some n"
  by (auto simp: hex_val_def hex_digit_def is_digit_def)

lemma unicode_escape_control:
  "c < 32 \<Longrightarrow> unicode_escape (48 # 48 # hex_digit (c div 16) # hex_digit (c mod 16) # r) = Some (c, r)"
proof -
  assume c: "c < 32"
  then have "c div 16 < 16" by simp
  moreover have "hex_val 48 = Some 0" by (simp add: hex_val_def is_digit_def)
  ultimately have "hex4 (48 # 48 # hex_digit (c div 16) # hex_digit (c mod 16) # r) = Some (c, r)"
    by (simp add: hex_val_digit)
  with c show ?thesis by (auto simp: unicode_escape_def split: list.split)
qed

lemma scan_string_esc1: "scan_string (esc1 c @ r) = map_option (\<lambda>(t, q). (c # t, q)) (scan_string r)"
  by (auto simp: esc1_def simple_escape_def unicode_escape_control)

lemma scan_string_escaped: "scan_string (concat (map esc1 s) @ 34 # r) = Some (s, r)"
  by (induction s) (simp_all add: scan_string_esc1)

lemma not_ws_skip: "\<not> ws c \<Longrightarrow> skip_ws (c # r) = c # r"
  by (simp add: skip_ws_def)

lemma not_ws_tok: "\<not> ws c \<Longrightarrow> next_tok (c # r) = Some (c, r)"
  by (simp add: next_tok_def not_ws_skip)

text \<open>The values that survive: no float, no integer beyond the reader's digit limit, and objects
  with one entry per key.\<close>

fun dumpable :: "json \<Rightarrow> bool" where
  "dumpable (JInt i) = (length (dec_nat (nat \<bar>i\<bar>)) \<le> max_str_digits)"
| "dumpable (JFloat t) = False"
| "dumpable (JArr xs) = (\<forall>x \<in> set xs. dumpable x)"
| "dumpable (JObj kvs) = (distinct (map fst kvs) \<and> (\<forall>p \<in> set kvs. dumpable (snd p)))"
| "dumpable _ = True"

lemma dumps_head: "dumpable v \<Longrightarrow> \<exists>c t. dumps v = c # t \<and> \<not> ws c \<and> c \<notin> {93, 125, 0xFEFF}"
proof (cases v)
  case (JInt i)
  have "\<exists>c t. dec_nat n = c # t \<and> is_digit c" for n
    using is_digit_dec_nat [of "hd (dec_nat n)" n] by (cases "dec_nat n") auto
  with JInt show ?thesis by (force simp: dump_int_def is_digit_def ws_def)
qed (auto simp: u_def ws_def dump_str_def)

lemma skip_ws_dumps: "dumpable v \<Longrightarrow> skip_ws (dumps v @ r) = dumps v @ r"
  using dumps_head [of v] by (auto simp: not_ws_skip)

lemma member_key_dump: "member_key (dump_str k @ 58 # q) = Some (k, skip_ws q)"
  by (simp add: member_key_def dump_str_def scan_string_escaped not_ws_tok ws_def startswith_single)

definition parses_back :: "json \<Rightarrow> bool" where
  "parses_back v \<longleftrightarrow> (\<forall>n r. num_stop r \<longrightarrow> parse_value n (dumps v @ r) \<in> {Inr (v, r), Inl OutOfFuel})"

lemma parses_backE:
  assumes "parses_back v" "num_stop r"
  obtains "parse_value n (dumps v @ r) = Inr (v, r)" | "parse_value n (dumps v @ r) = Inl OutOfFuel"
  using assms by (auto simp: parses_back_def)

lemma num_stop_simps [simp]: "num_stop []" "num_stop (44 # r)" "num_stop (93 # r)" "num_stop (125 # r)"
  by (simp_all add: num_stop_def is_digit_def)

lemma next_tok_simps [simp]:
  "next_tok (44 # r) = Some (44, r)" "next_tok (93 # r) = Some (93, r)"
  "next_tok (125 # r) = Some (125, r)"
  by (simp_all add: not_ws_tok ws_def)

lemma parse_elems_one:
  assumes "parses_back v" "num_stop (e # r)" "\<not> ws e"
  shows "parse_elems (Suc n) (dumps v @ e # r) acc = Inl OutOfFuel \<or>
    parse_elems (Suc n) (dumps v @ e # r) acc =
      (if e = 93 then Inr (JArr (acc @ [v]), r)
       else if e = 44 then parse_elems n (skip_ws r) (acc @ [v]) else Inl BadJson)"
  by (rule parses_backE [OF assms(1,2), of n]) (use assms(3) in \<open>simp_all add: not_ws_tok\<close>)

lemma parse_members_one:
  assumes "dumpable v" "parses_back v" "num_stop (e # r)" "\<not> ws e"
  shows "parse_members (Suc n) (dump_str k @ 58 # dumps v @ e # r) acc = Inl OutOfFuel \<or>
    parse_members (Suc n) (dump_str k @ 58 # dumps v @ e # r) acc =
      (if e = 125 then Inr (JObj (dict_set k v acc), r)
       else if e = 44 then parse_members n (skip_ws r) (dict_set k v acc) else Inl BadJson)"
  by (rule parses_backE [OF assms(2,3), of n])
    (use assms(1,4) in \<open>simp_all add: not_ws_tok member_key_dump skip_ws_dumps\<close>)

lemma not_ws_simps [simp]: "\<not> ws 44" "\<not> ws 93" "\<not> ws 125" "\<not> ws 34"
  by (simp_all add: ws_def)

lemma parse_elems_dumps:
  "vs \<noteq> [] \<Longrightarrow> \<forall>v \<in> set vs. dumpable v \<and> parses_back v \<Longrightarrow>
   parse_elems n (join [44] (map dumps vs) @ 93 # r) acc \<in> {Inr (JArr (acc @ vs), r), Inl OutOfFuel}"
proof (induction vs arbitrary: n acc rule: induct_list012)
  case (2 v)
  then show ?case
    using parse_elems_one [of v 93 r _ acc] by (cases n) auto
next
  case (3 v w vs)
  let ?rest = "join [44] (map dumps (w # vs)) @ 93 # r"
  show ?case
  proof (cases n)
    case (Suc m)
    have "skip_ws ?rest = ?rest"
      using dumps_head [of w] 3(4) by (cases vs) (auto simp: not_ws_skip)
    with Suc 3(2) [of m "acc @ [v]"] 3(4) parse_elems_one [of v 44 ?rest m acc] show ?thesis
      by auto
  qed simp
qed simp

lemma parse_members_dumps:
  "kvs \<noteq> [] \<Longrightarrow> \<forall>p \<in> set kvs. dumpable (snd p) \<and> parses_back (snd p) \<Longrightarrow>
   distinct (map fst (acc @ kvs)) \<Longrightarrow>
   parse_members n (join [44] (map (\<lambda>(k, v). dump_str k @ 58 # dumps v) kvs) @ 125 # r) acc
     \<in> {Inr (JObj (acc @ kvs), r), Inl OutOfFuel}"
proof (induction kvs arbitrary: n acc rule: induct_list012)
  case (2 kv)
  obtain k v where kv: "kv = (k, v)" by (cases kv)
  have "dict_set k v acc = acc @ [kv]" using 2 kv by (simp add: dict_set_fresh)
  with 2 kv parse_members_one [of v 125 r _ k acc] show ?case by (cases n) auto
next
  case (3 kv kw kvs)
  let ?rest = "join [44] (map (\<lambda>(k, v). dump_str k @ 58 # dumps v) (kw # kvs)) @ 125 # r"
  show ?case
  proof (cases n)
    case (Suc m)
    obtain k v where kv: "kv = (k, v)" by (cases kv)
    have "skip_ws ?rest = ?rest"
      by (cases kvs; cases kw) (auto simp: dump_str_def not_ws_skip)
    moreover have "parse_members m ?rest (acc @ [kv]) \<in> {Inr (JObj (acc @ kv # kw # kvs), r), Inl OutOfFuel}"
      using 3(2) [of "acc @ [kv]" m] 3(4,5) by auto
    moreover have "dict_set k v acc = acc @ [kv]" using 3(5) kv by (simp add: dict_set_fresh)
    ultimately show ?thesis
      using Suc kv 3(4) parse_members_one [of v 44 ?rest m k acc] by auto
  qed simp
qed simp

lemma parses_backI: "(\<And>n r. num_stop r \<Longrightarrow> parse_value (Suc n) (dumps v @ r) \<in> {Inr (v, r), Inl OutOfFuel})
    \<Longrightarrow> parses_back v"
  unfolding parses_back_def
proof (intro allI impI)
  fix n r
  assume "\<And>n r. num_stop r \<Longrightarrow> parse_value (Suc n) (dumps v @ r) \<in> {Inr (v, r), Inl OutOfFuel}"
    and "num_stop r"
  then show "parse_value n (dumps v @ r) \<in> {Inr (v, r), Inl OutOfFuel}" by (cases n) simp_all
qed

lemma dump_int_head: "\<exists>c t. dump_int i = c # t \<and> (c = 45 \<and> (\<exists>d t'. t = d # t' \<and> is_digit d) \<or> is_digit c)"
proof -
  have "\<exists>c t. dec_nat n = c # t \<and> is_digit c" for n
    using is_digit_dec_nat [of "hd (dec_nat n)" n] by (cases "dec_nat n") auto
  from this [of "nat (- i)"] this [of "nat i"] show ?thesis
    by (cases "i < 0") (auto simp: dump_int_def)
qed

lemma scan_word_dump_int: "scan_word (dump_int i @ r) = None"
  using dump_int_head [of i] by (auto simp: scan_word_def u_def startswith_def is_digit_def)

lemma parses_back_int: "dumpable (JInt i) \<Longrightarrow> parses_back (JInt i)"
proof (rule parses_backI)
  fix n r
  assume "dumpable (JInt i)" "num_stop r"
  then show "parse_value (Suc n) (dumps (JInt i) @ r) \<in> {Inr (JInt i, r), Inl OutOfFuel}"
    using dump_int_head [of i]
    by (auto simp: startswith_single scan_word_dump_int scan_number_dump_int is_digit_def)
qed

lemma parses_back_str: "parses_back (JStr s)"
  by (rule parses_backI) (simp add: dump_str_def startswith_single scan_string_escaped)

lemma parses_back_word: "parses_back JNull" "parses_back (JBool x)"
  by (rule parses_backI, auto simp: startswith_def scan_word_def u_def)+

lemma parses_back_arr:
  assumes "dumpable (JArr vs)" "\<forall>v \<in> set vs. parses_back v"
  shows "parses_back (JArr vs)"
proof (rule parses_backI)
  fix n r
  assume "num_stop r"
  show "parse_value (Suc n) (dumps (JArr vs) @ r) \<in> {Inr (JArr vs, r), Inl OutOfFuel}"
  proof (cases vs)
    case (Cons w us)
    let ?body = "join [44] (map dumps vs) @ 93 # r"
    obtain c t where c: "?body = c # t" "\<not> ws c" "c \<noteq> 93"
      using dumps_head [of w] assms(1) Cons by (cases us) auto
    then show ?thesis
      using parse_elems_dumps [of vs n r "[]"] assms Cons
      by (auto simp: startswith_single not_ws_tok not_ws_skip)
  qed (simp add: startswith_single)
qed

lemma parses_back_obj:
  assumes "dumpable (JObj kvs)" "\<forall>p \<in> set kvs. parses_back (snd p)"
  shows "parses_back (JObj kvs)"
proof (rule parses_backI)
  fix n r
  assume "num_stop r"
  show "parse_value (Suc n) (dumps (JObj kvs) @ r) \<in> {Inr (JObj kvs, r), Inl OutOfFuel}"
  proof (cases kvs)
    case (Cons kv us)
    let ?body = "join [44] (map (\<lambda>(k, v). dump_str k @ 58 # dumps v) kvs) @ 125 # r"
    obtain t where c: "?body = 34 # t"
      using Cons by (cases us; cases kv) (auto simp: dump_str_def)
    then show ?thesis
      using parse_members_dumps [of kvs "[]" n r] assms Cons
      by (auto simp: startswith_single not_ws_tok not_ws_skip ws_def)
  qed (simp add: startswith_single)
qed

lemma parse_value_dumps: "dumpable v \<Longrightarrow> parses_back v"
proof (induction v)
  case (JArr vs)
  then show ?case by (intro parses_back_arr) auto
next
  case (JObj kvs)
  then show ?case by (intro parses_back_obj) (auto simp: snds.simps)
qed (auto simp: parses_back_int parses_back_str parses_back_word)

theorem loads_dumps: "dumpable v \<Longrightarrow> loads (dumps v) = Inr v"
proof -
  assume d: "dumpable v"
  obtain c t where "dumps v = c # t" "c \<noteq> 0xFEFF" using dumps_head [OF d] by auto
  then have bom: "\<not> startswith [0xFEFF] (dumps v)" by (simp add: startswith_single)
  have "parse_value (2 * length (dumps v) + 2) (dumps v) \<noteq> Inl OutOfFuel"
    by (rule parse_fuel(1)) simp
  then have "parse_value (2 * length (dumps v) + 2) (dumps v) = Inr (v, [])"
    using parse_value_dumps [OF d] unfolding parses_back_def
    by (metis append_Nil2 insert_iff num_stop_simps(1) singletonD)
  then show ?thesis
    using bom skip_ws_dumps [OF d, of "[]"] by (simp add: loads_def skip_ws_def)
qed

text \<open>The written text: no control character, and no code point that was not in the value or is
  ASCII.\<close>

lemma esc1_chars: "c \<in> set (esc1 x) \<Longrightarrow> 32 \<le> c \<and> (c = x \<or> c < 128)"
  by (auto simp: esc1_def hex_digit_def split: if_splits)

lemma dump_str_chars: "c \<in> set (dump_str s) \<Longrightarrow> 32 \<le> c \<and> (c \<in> set s \<or> c < 128)"
  using esc1_chars by (force simp: dump_str_def)

lemma dump_int_chars: "c \<in> set (dump_int i) \<Longrightarrow> 32 \<le> c \<and> c < 128"
  using is_digit_dec_nat by (fastforce simp: dump_int_def is_digit_def split: if_splits)

end
