(* ===== verification/Codec.thy ===== *)
theory Codec
  imports Json
begin

text \<open>
  The wire format of \<open>src/hx/bridge/codec.py\<close>: a frame is a 4-byte big-endian length, a JSON
  header of one flat object, a newline and a body. A body may itself hold two length-prefixed
  bodies; a \<open>configure\<close> body is tab-separated lines and an \<open>identity\<close> body is JSON. A header dict is an
  association list in insertion order with one entry per key.

  The lemmas show that each reader inverts its writer, that a
  frame is never longer than \<open>MAX_FRAME\<close>, and that \<open>FrameReader\<close> delivers the same frames however
  the socket cuts the byte stream into chunks.
\<close>

section \<open>Constants, headers and errors\<close>

type_synonym header = "(pystr \<times> json) list"

definition PROTOCOL_VERSION :: int where
  "PROTOCOL_VERSION = 1"

definition MAX_FRAME :: nat where
  "MAX_FRAME = 64 * 1024 * 1024"

definition BODIES_KEY :: pystr where
  "BODIES_KEY = u ''bodies''"

definition CONFIG_KEYS :: "pystr list" where
  "CONFIG_KEYS = [u ''scope.include'', u ''scope.exclude'', u ''dangerous.path'', u ''method.allow'',
     u ''limit.rate_rps'', u ''limit.rate_burst'', u ''limit.concurrency'', u ''limit.max_requests'',
     u ''render.allow'']"

datatype frame_fault =
    MissingField pystr | NotFlat pystr | UnpairedSurrogate pystr | IntRange pystr int
  | FrameTooLarge nat | NoNewline | BadHeaderJson | HeaderNotObject
  | BadBodies json | NoFirstPrefix | ShortFirstBody nat | BodiesDoNotFill nat nat | NotTwoBodies
  | UnknownConfigKey pystr | TabOrNewline pystr | NoTab pystr
  | NeedsIdentityId | BadGeneration | NeedsHeader | NeedsValue | Unwritable pystr | NeedsOrigin
  | BadIdentityJson | IdentityNotObject | NeedsInject

datatype codec_exc =
    FrameError frame_fault | Incomplete nat | PeerClosed bool
  | UnicodeEncodeError | UnicodeDecodeError | IntTooLong

text \<open>\<open>struct.Struct(">I")\<close>: four bytes, most significant first.\<close>

definition pack_len :: "nat \<Rightarrow> bytes" where
  "pack_len n = [of_nat (n div 16777216), of_nat (n div 65536 mod 256), of_nat (n div 256 mod 256),
                 of_nat (n mod 256)]"

definition unpack_len :: "bytes \<Rightarrow> nat" where
  "unpack_len bs =
     (case bs of w # x # y # z # _ \<Rightarrow>
        unat w * 16777216 + unat x * 65536 + unat y * 256 + unat z | _ \<Rightarrow> 0)"

lemma length_pack_len [simp]: "length (pack_len n) = 4"
  by (simp add: pack_len_def)

lemma unpack_pack: "n < 4294967296 \<Longrightarrow> unpack_len (pack_len n @ r) = n"
proof -
  assume "n < 4294967296"
  then have "n div 16777216 < 256" by auto
  moreover have "n div 65536 div 256 = n div 16777216" "n div 256 div 256 = n div 65536"
    by (simp_all flip: div_mult2_eq)
  ultimately have "unpack_len (pack_len n @ r) =
      n div 16777216 * 16777216 + n div 65536 mod 256 * 65536 + n div 256 mod 256 * 256 + n mod 256"
    and "n div 16777216 * 256 + n div 65536 mod 256 = n div 65536"
    and "n div 65536 * 256 + n div 256 mod 256 = n div 256"
    using div_mult_mod_eq [of "n div 256" 256] div_mult_mod_eq [of "n div 65536" 256]
    by (simp_all add: pack_len_def unpack_len_def unat_of_nat8)
  then show ?thesis using div_mult_mod_eq [of n 256] by linarith
qed

section \<open>One frame\<close>

definition is_flat :: "json \<Rightarrow> bool" where
  "is_flat v = (case v of JStr _ \<Rightarrow> True | JInt _ \<Rightarrow> True | JBool _ \<Rightarrow> True | JNull \<Rightarrow> True | _ \<Rightarrow> False)"

definition check_item :: "pystr \<Rightarrow> json \<Rightarrow> codec_exc + unit" where
  "check_item k v =
     (if \<not> is_flat v then Inl (FrameError (NotFlat k))
      else case v of
        JStr s \<Rightarrow> if \<exists>c \<in> set s. is_surrogate c then Inl (FrameError (UnpairedSurrogate k)) else Inr ()
      | JInt i \<Rightarrow> if - (2 ^ 63) \<le> i \<and> i \<le> 2 ^ 63 - 1 then Inr () else Inl (FrameError (IntRange k i))
      | _ \<Rightarrow> Inr ())"

fun check_items :: "header \<Rightarrow> codec_exc + unit" where
  "check_items [] = Inr ()"
| "check_items ((k, v) # h) = rbind (check_item k v) (\<lambda>_. check_items h)"

definition check_header :: "header \<Rightarrow> codec_exc + unit" where
  "check_header h =
     (if map_of h (u ''v'') = None then Inl (FrameError (MissingField (u ''v'')))
      else if map_of h (u ''t'') = None then Inl (FrameError (MissingField (u ''t'')))
      else check_items h)"

definition encode :: "header \<Rightarrow> bytes \<Rightarrow> codec_exc + bytes" where
  "encode header body =
     rbind (check_header header) (\<lambda>_.
       (case utf8_encode (dumps (JObj header)) of
          None \<Rightarrow> Inl UnicodeEncodeError
        | Some head \<Rightarrow>
            (let payload = head @ 10 # body in
             if length payload > MAX_FRAME then Inl (FrameError (FrameTooLarge (length payload)))
             else Inr (pack_len (length payload) @ payload))))"

definition decode :: "bytes \<Rightarrow> codec_exc + (header \<times> bytes \<times> nat)" where
  "decode buf =
     (if length buf < 4 then Inl (Incomplete 4)
      else let len = unpack_len buf; fin = 4 + len in
        if len > MAX_FRAME then Inl (FrameError (FrameTooLarge len))
        else if length buf < fin then Inl (Incomplete fin)
        else let payload = take len (drop 4 buf) in
          (case py_find [10] payload of
             None \<Rightarrow> Inl (FrameError NoNewline)
           | Some nl \<Rightarrow>
               (case utf8_decode (take nl payload) of
                  None \<Rightarrow> Inl (FrameError BadHeaderJson)
                | Some text \<Rightarrow>
                    (case loads text of
                       Inl _ \<Rightarrow> Inl (FrameError BadHeaderJson)
                     | Inr (JObj header) \<Rightarrow>
                         rbind (check_header header) (\<lambda>_. Inr (header, drop (nl + 1) payload, fin))
                     | Inr _ \<Rightarrow> Inl (FrameError HeaderNotObject)))))"

text \<open>What the checks of a header guarantee of its text.\<close>

lemma check_items_Inr: "check_items h = Inr () \<longleftrightarrow> (\<forall>(k, v) \<in> set h. check_item k v = Inr ())"
  by (induction h) (auto simp: rbind_Inr_iff)

lemma int64_digits: "- (2 ^ 63) \<le> i \<Longrightarrow> i \<le> 2 ^ 63 - 1 \<Longrightarrow> length (dec_nat (nat \<bar>i\<bar>)) \<le> max_str_digits"
proof -
  assume "- (2 ^ 63) \<le> i" "i \<le> 2 ^ 63 - 1"
  then have "nat \<bar>i\<bar> < 10 ^ Suc 19" by simp
  from dec_nat_length [OF this] show ?thesis by (simp add: max_str_digits_def)
qed

lemma check_item_dumpable: "check_item k v = Inr () \<Longrightarrow> dumpable v"
  by (cases v) (auto simp: check_item_def is_flat_def int64_digits simp del: power_numeral split: if_splits)

lemma header_dumpable: "check_header h = Inr () \<Longrightarrow> distinct (map fst h) \<Longrightarrow> dumpable (JObj h)"
  by (auto simp: check_header_def check_items_Inr split: if_splits) (blast dest: check_item_dumpable)

lemma flat_chars: "check_item k v = Inr () \<Longrightarrow> c \<in> set (dumps v) \<Longrightarrow> 32 \<le> c"
  by (cases v) (auto simp: check_item_def is_flat_def u_def
      dest: dump_str_chars dump_int_chars split: if_splits)

lemma header_no_newline: "check_header h = Inr () \<Longrightarrow> 10 \<notin> set (dumps (JObj h))"
  by (auto simp: check_header_def check_items_Inr split: if_splits dest!: join_chars dump_str_chars)
    (fastforce dest: flat_chars)+

text \<open>Writing a frame and reading it back, whatever follows it in the buffer.\<close>

lemma encode_InrE:
  assumes "encode h body = Inr bs"
  obtains head where "check_header h = Inr ()" "utf8_encode (dumps (JObj h)) = Some head"
    "10 \<notin> set head" "length head + 1 + length body \<le> MAX_FRAME"
    "bs = pack_len (length head + 1 + length body) @ head @ 10 # body"
proof -
  from assms obtain head where h: "check_header h = Inr ()" "utf8_encode (dumps (JObj h)) = Some head"
    "length head + 1 + length body \<le> MAX_FRAME"
    "bs = pack_len (length head + 1 + length body) @ head @ 10 # body"
    by (auto simp: encode_def rbind_Inr_iff Let_def split: option.splits if_splits)
  moreover have "10 \<notin> set head"
    using utf8_encode_ascii [OF h(2), of 10] header_no_newline [OF h(1)] by auto
  ultimately show thesis using that by blast
qed

lemma encode_length: "encode h body = Inr bs \<Longrightarrow> length bs = 4 + unpack_len bs \<and> unpack_len bs \<le> MAX_FRAME"
  by (elim encode_InrE) (simp add: unpack_pack MAX_FRAME_def)

lemma decode_encode:
  assumes "encode h body = Inr bs" and "distinct (map fst h)"
  shows "decode (bs @ rest) = Inr (h, body, length bs)"
  using assms(1)
proof (rule encode_InrE)
  fix head
  assume h: "check_header h = Inr ()" "utf8_encode (dumps (JObj h)) = Some head" "10 \<notin> set head"
    "length head + 1 + length body \<le> MAX_FRAME"
    "bs = pack_len (length head + 1 + length body) @ head @ 10 # body"
  have "py_find [10] (head @ 10 # body) = Some (length head)"
    using h(3) by (rule py_find_stop)
  moreover have "utf8_decode head = Some (dumps (JObj h))" using h(2) by (rule utf8_roundtrip)
  moreover have "loads (dumps (JObj h)) = Inr (JObj h)"
    using h(1) assms(2) by (intro loads_dumps header_dumpable)
  ultimately show ?thesis using h
    by (simp add: decode_def unpack_pack MAX_FRAME_def Let_def)
qed

section \<open>Two bodies in one frame\<close>

definition encode_two :: "header \<Rightarrow> bytes \<Rightarrow> bytes \<Rightarrow> codec_exc + bytes" where
  "encode_two header first second =
     (let total = 4 + length first + 4 + length second in
      if total > MAX_FRAME then Inl (FrameError (FrameTooLarge total))
      else encode (dict_set BODIES_KEY (JInt 2) header)
             (pack_len (length first) @ first @ pack_len (length second) @ second))"

definition declares_two_bodies :: "header \<Rightarrow> codec_exc + bool" where
  "declares_two_bodies header =
     (case map_of header BODIES_KEY of
        None \<Rightarrow> Inr False
      | Some v \<Rightarrow> if v = JInt 2 then Inr True else Inl (FrameError (BadBodies v)))"

definition body_spans :: "bytes \<Rightarrow> codec_exc + (nat \<times> nat \<times> nat \<times> nat)" where
  "body_spans payload =
     (if length payload < 4 then Inl (FrameError NoFirstPrefix)
      else let n1 = unpack_len payload in
        if length payload < 4 + n1 + 4 then Inl (FrameError (ShortFirstBody n1))
        else let n2 = unpack_len (drop (4 + n1) payload) in
          if length payload \<noteq> 2 * 4 + n1 + n2 then Inl (FrameError (BodiesDoNotFill n1 n2))
          else let first = 4; second = 2 * 4 + n1 in
            Inr (first, first + n1, second, second + n2))"

definition split_bodies :: "header \<Rightarrow> bytes \<Rightarrow> codec_exc + (bytes \<times> bytes)" where
  "split_bodies header payload =
     rbind (declares_two_bodies header) (\<lambda>two.
       if \<not> two then Inl (FrameError NotTwoBodies)
       else rbind (body_spans payload) (\<lambda>(i, j, k, l).
         Inr (take (j - i) (drop i payload), take (l - k) (drop k payload))))"

lemma body_spans_packed:
  assumes "length f < 4294967296" "length s < 4294967296"
  shows "body_spans (pack_len (length f) @ f @ pack_len (length s) @ s) =
    Inr (4, 4 + length f, 8 + length f, 8 + length f + length s)"
proof -
  have "drop (4 + length f) (pack_len (length f) @ f @ pack_len (length s) @ s) = pack_len (length s) @ s"
    by simp
  with assms show ?thesis by (simp add: body_spans_def unpack_pack Let_def)
qed

lemma body_spans_bounds:
  assumes "body_spans p = Inr (i, j, k, l)"
  shows "4 \<le> i \<and> i \<le> j \<and> j + 4 = k \<and> k \<le> l \<and> l = length p"
proof -
  define n1 n2 where "n1 = unpack_len p" and "n2 = unpack_len (drop (4 + n1) p)"
  have "body_spans p = (if length p < 4 then Inl (FrameError NoFirstPrefix)
    else if length p < 4 + n1 + 4 then Inl (FrameError (ShortFirstBody n1))
    else if length p \<noteq> 2 * 4 + n1 + n2 then Inl (FrameError (BodiesDoNotFill n1 n2))
    else Inr (4, 4 + n1, 2 * 4 + n1, 2 * 4 + n1 + n2))"
    unfolding body_spans_def n1_def n2_def Let_def ..
  with assms show ?thesis by (auto split: if_split_asm)
qed

lemma split_bodies_packed:
  assumes "map_of h BODIES_KEY = Some (JInt 2)" "length f < 4294967296" "length s < 4294967296"
  shows "split_bodies h (pack_len (length f) @ f @ pack_len (length s) @ s) = Inr (f, s)"
proof -
  have "drop 4 (pack_len (length f) @ f @ pack_len (length s) @ s) = f @ pack_len (length s) @ s"
    by simp
  moreover have "drop (8 + length f) (pack_len (length f) @ f @ pack_len (length s) @ s) = s"
    by simp
  ultimately show ?thesis
    using assms by (simp add: split_bodies_def declares_two_bodies_def body_spans_packed)
qed

section \<open>FrameReader\<close>

text \<open>The test at the head of the loop of \<open>FrameReader.read\<close>: the frame at the front of the
  buffer with what follows it, or \<open>None\<close> when more bytes are needed.\<close>

type_synonym frame = "header \<times> bytes"

definition reader_front :: "bytes \<Rightarrow> codec_exc + (frame \<times> bytes) option" where
  "reader_front buf =
     (if 4 \<le> length buf then
        (let len = unpack_len buf in
         if len > MAX_FRAME then Inl (FrameError (FrameTooLarge len))
         else if 4 + len \<le> length buf then
           rbind (decode (take (4 + len) buf)) (\<lambda>(header, body, consumed).
             Inr (Some ((header, body), drop consumed buf)))
         else Inr None)
      else Inr None)"

text \<open>\<open>FrameReader.read\<close>: the socket is the list of chunks its \<open>recv\<close> calls return; an empty
  chunk, or none at all, is the end of the stream.\<close>

fun reader_read :: "bytes \<Rightarrow> bytes list \<Rightarrow> codec_exc + (frame \<times> bytes \<times> bytes list)" where
  "reader_read buf chunks =
     rbind (reader_front buf) (\<lambda>r.
       (case r of
          Some (f, buf') \<Rightarrow> Inr (f, buf', chunks)
        | None \<Rightarrow>
            (case chunks of
               [] \<Rightarrow> Inl (PeerClosed (buf \<noteq> []))
             | chunk # cs \<Rightarrow>
                 if chunk = [] then Inl (PeerClosed (buf \<noteq> []))
                 else reader_read (buf @ chunk) cs)))"

declare reader_read.simps [simp del]

text \<open>The loop of \<open>_serve\<close> over \<open>n\<close> frames.\<close>

fun reader_frames :: "nat \<Rightarrow> bytes \<Rightarrow> bytes list \<Rightarrow> codec_exc + frame list" where
  "reader_frames 0 buf cs = Inr []"
| "reader_frames (Suc n) buf cs =
     rbind (reader_read buf cs) (\<lambda>(f, buf', cs').
       rbind (reader_frames n buf' cs') (\<lambda>fs. Inr (f # fs)))"

text \<open>The interface between the reader and the framing: a front test that, once it has decided,
  decides the same when more bytes arrive, and a loop that calls it on the
  accumulated buffer.\<close>

locale chunked_reader =
  fixes front :: "bytes \<Rightarrow> 'e + ('f \<times> bytes) option"
    and read :: "bytes \<Rightarrow> bytes list \<Rightarrow> 'e + ('f \<times> bytes \<times> bytes list)"
  assumes front_more: "front buf = Inr (Some (f, rest)) \<Longrightarrow> front (buf @ more) = Inr (Some (f, rest @ more))"
    and front_error: "front buf = Inl e \<Longrightarrow> front (buf @ more) = Inl e"
    and read_done: "front buf = Inr (Some (f, rest)) \<Longrightarrow> read buf cs = Inr (f, rest, cs)"
    and read_error: "front buf = Inl e \<Longrightarrow> read buf cs = Inl e"
    and read_more: "front buf = Inr None \<Longrightarrow> c \<noteq> [] \<Longrightarrow> read buf (c # cs) = read (buf @ c) cs"
begin

lemma read_concat:
  assumes "[] \<notin> set cs" and "front (buf @ concat cs) = Inr (Some (f, rest))"
  shows "\<exists>buf' cs'. read buf cs = Inr (f, buf', cs') \<and> buf' @ concat cs' = rest \<and> set cs' \<subseteq> set cs"
  using assms
proof (induction cs arbitrary: buf)
  case Nil
  then show ?case by (auto dest: read_done)
next
  case (Cons c cs)
  consider e where "front buf = Inl e" | f' r where "front buf = Inr (Some (f', r))" | "front buf = Inr None"
    by (cases "front buf") (auto, metis not_None_eq old.prod.exhaust)
  then show ?case
  proof cases
    case 1
    from front_error [OF this, of "concat (c # cs)"] Cons.prems show ?thesis by simp
  next
    case 2
    from front_more [OF this, of "concat (c # cs)"] read_done [OF this, of "c # cs"] Cons.prems
    show ?thesis by auto
  next
    case 3
    have "\<exists>buf' cs'. read (buf @ c) cs = Inr (f, buf', cs') \<and> buf' @ concat cs' = rest \<and> set cs' \<subseteq> set cs"
      using Cons.prems by (intro Cons.IH) auto
    with read_more [OF 3, of c cs] Cons.prems show ?thesis by auto
  qed
qed

end

lemma unpack_len_append: "4 \<le> length bs \<Longrightarrow> unpack_len (bs @ more) = unpack_len bs"
proof -
  assume "4 \<le> length bs"
  then obtain w x y z r where "bs = w # x # y # z # r"
    by (cases bs; cases "tl bs"; cases "tl (tl bs)"; cases "tl (tl (tl bs))") auto
  then show ?thesis by (simp add: unpack_len_def)
qed

lemma decode_consumed:
  "decode buf = Inr (h, body, n) \<Longrightarrow> n = 4 + unpack_len buf \<and> n \<le> length buf \<and> 4 \<le> length buf"
  by (auto simp: decode_def Let_def rbind_Inr_iff split: if_splits option.splits sum.splits json.splits)

lemma reader_front_Some:
  assumes "reader_front buf = Inr (Some (f, rest))"
  shows "4 + unpack_len buf \<le> length buf \<and> decode (take (4 + unpack_len buf) buf) = Inr (fst f, snd f, 4 + unpack_len buf)
    \<and> rest = drop (4 + unpack_len buf) buf \<and> unpack_len buf \<le> MAX_FRAME"
proof -
  from assms obtain n where le: "4 + unpack_len buf \<le> length buf"
    and d: "decode (take (4 + unpack_len buf) buf) = Inr (fst f, snd f, n)"
    and r: "rest = drop n buf" "unpack_len buf \<le> MAX_FRAME"
    by (auto simp: reader_front_def Let_def rbind_Inr_iff split: if_splits)
  have "unpack_len (take (4 + unpack_len buf) buf) = unpack_len buf"
    using unpack_len_append [of "take (4 + unpack_len buf) buf" "drop (4 + unpack_len buf) buf"] le
    by simp
  with decode_consumed [OF d] d le r show ?thesis by simp
qed

lemma reader_front_more: "reader_front buf = Inr (Some (f, rest)) \<Longrightarrow> reader_front (buf @ more) = Inr (Some (f, rest @ more))"
  using reader_front_Some [of buf f rest] unpack_len_append [of buf more]
  by (simp add: reader_front_def)

lemma reader_front_error: "reader_front buf = Inl e \<Longrightarrow> reader_front (buf @ more) = Inl e"
  using unpack_len_append [of buf more]
  by (auto simp: reader_front_def Let_def split: if_splits rbind_split_asm)

interpretation wire: chunked_reader reader_front reader_read
proof unfold_locales
  fix buf f rest more and e :: codec_exc and cs c
  show "reader_front buf = Inr (Some (f, rest)) \<Longrightarrow> reader_front (buf @ more) = Inr (Some (f, rest @ more))"
    by (rule reader_front_more)
  show "reader_front buf = Inl e \<Longrightarrow> reader_front (buf @ more) = Inl e"
    by (rule reader_front_error)
  show "reader_front buf = Inr (Some (f, rest)) \<Longrightarrow> reader_read buf cs = Inr (f, rest, cs)"
    by (simp add: reader_read.simps [of buf cs])
  show "reader_front buf = Inl e \<Longrightarrow> reader_read buf cs = Inl e"
    by (simp add: reader_read.simps [of buf cs])
  show "reader_front buf = Inr None \<Longrightarrow> c \<noteq> [] \<Longrightarrow> reader_read buf (c # cs) = reader_read (buf @ c) cs"
    by (simp add: reader_read.simps [of buf "c # cs"])
qed

lemma reader_front_encode:
  assumes "encode h body = Inr bs" "distinct (map fst h)"
  shows "reader_front (bs @ more) = Inr (Some ((h, body), more))"
proof -
  have len: "length bs = 4 + unpack_len bs" "unpack_len bs \<le> MAX_FRAME"
    using encode_length [OF assms(1)] by auto
  then have "unpack_len (bs @ more) = unpack_len bs" by (intro unpack_len_append) simp
  moreover have "decode bs = Inr (h, body, length bs)" using decode_encode [OF assms, of "[]"] by simp
  ultimately show ?thesis using len by (simp add: reader_front_def)
qed

text \<open>A stream of frames, cut into chunks anywhere.\<close>

definition encoded :: "frame list \<Rightarrow> bytes list \<Rightarrow> bool" where
  "encoded fs bss \<longleftrightarrow> list_all2 (\<lambda>f bs. encode (fst f) (snd f) = Inr bs \<and> distinct (map fst (fst f))) fs bss"

lemma reader_frames_encoded:
  assumes "encoded fs bss" "[] \<notin> set cs" "buf @ concat cs = concat bss"
  shows "reader_frames (length fs) buf cs = Inr fs"
  using assms unfolding encoded_def
proof (induction fs bss arbitrary: buf cs rule: list_all2_induct)
  case (Cons f fs bs bss)
  have "reader_front (buf @ concat cs) = Inr (Some (f, concat bss))"
    using Cons.hyps(1) Cons.prems(2) reader_front_encode [of "fst f" "snd f" bs "concat bss"] by simp
  from wire.read_concat [OF Cons.prems(1) this] obtain buf' cs' where
    r: "reader_read buf cs = Inr (f, buf', cs')" "buf' @ concat cs' = concat bss" "set cs' \<subseteq> set cs"
    by blast
  then have "[] \<notin> set cs'" using Cons.prems(1) by auto
  with r Cons.IH [of cs' buf'] show ?case by simp
qed simp

end
