(* ===== verification/Codec_Bodies.thy ===== *)
theory Codec_Bodies
  imports Codec
begin

text \<open>
  The two bodies \<open>src/hx/bridge/codec.py\<close> writes besides traffic: the tab-separated lines of
  \<open>configure\<close> and the JSON object of \<open>identity\<close>, each with its reader. Both writers refuse a
  value they would have to escape, and both readers invert their writers.
\<close>

section \<open>The configure body\<close>

fun config_values :: "pystr \<Rightarrow> pystr list \<Rightarrow> codec_exc + bytes" where
  "config_values key [] = Inr []"
| "config_values key (v # vs) =
     (if 9 \<in> set v \<or> 10 \<in> set v then Inl (FrameError (TabOrNewline key))
      else case (utf8_encode key, utf8_encode v) of
        (Some k, Some x) \<Rightarrow> rbind (config_values key vs) (\<lambda>out. Inr (k @ 9 # x @ 10 # out))
      | _ \<Rightarrow> Inl UnicodeEncodeError)"

fun build_config_body :: "(pystr \<times> pystr list) list \<Rightarrow> codec_exc + bytes" where
  "build_config_body [] = Inr []"
| "build_config_body ((key, values) # pairs) =
     (if key \<notin> set CONFIG_KEYS then Inl (FrameError (UnknownConfigKey key))
      else rbind (config_values key values) (\<lambda>out.
        rbind (build_config_body pairs) (\<lambda>rest. Inr (out @ rest))))"

text \<open>\<open>pairs.setdefault(key, []).append(value)\<close>.\<close>

definition dict_append :: "'k \<Rightarrow> 'v \<Rightarrow> ('k \<times> 'v list) list \<Rightarrow> ('k \<times> 'v list) list" where
  "dict_append k v m =
     dict_set k ((case map_of m k of None \<Rightarrow> [] | Some vs \<Rightarrow> vs) @ [v]) m"

fun parse_config_lines :: "pystr list \<Rightarrow> (pystr \<times> pystr list) list
    \<Rightarrow> codec_exc + (pystr \<times> pystr list) list" where
  "parse_config_lines [] pairs = Inr pairs"
| "parse_config_lines (raw # lines) pairs =
     (if raw = [] then parse_config_lines lines pairs
      else case partition1 9 raw of
        (key, found, value) \<Rightarrow>
          if \<not> found then Inl (FrameError (NoTab raw))
          else if key \<notin> set CONFIG_KEYS then Inl (FrameError (UnknownConfigKey key))
          else parse_config_lines lines (dict_append key value pairs))"

definition parse_config_body :: "bytes \<Rightarrow> codec_exc + (pystr \<times> pystr list) list" where
  "parse_config_body body =
     (case utf8_decode body of
        None \<Rightarrow> Inl UnicodeDecodeError
      | Some text \<Rightarrow> parse_config_lines (split1 10 text) [])"

text \<open>The lines a dict of lists is written as, and what reading them adds up to.\<close>

definition config_lines :: "pystr \<Rightarrow> pystr list \<Rightarrow> pystr list" where
  "config_lines key vs = map (\<lambda>v. key @ 9 # v) vs"

definition all_lines :: "(pystr \<times> pystr list) list \<Rightarrow> pystr list" where
  "all_lines pairs = concat (map (\<lambda>(k, vs). config_lines k vs) pairs)"

definition text_of_lines :: "pystr list \<Rightarrow> pystr" where
  "text_of_lines ls = concat (map (\<lambda>l. l @ [10]) ls)"

lemma utf8_encode_single: "n < 128 \<Longrightarrow> utf8_encode (n # s) = map_option ((#) (of_nat n)) (utf8_encode s)"
  by (auto simp: utf8_char_def split: option.splits)

lemma utf8_encode_appendI:
  "utf8_encode s = Some x \<Longrightarrow> utf8_encode t = Some y \<Longrightarrow> utf8_encode (s @ t) = Some (x @ y)"
  by (simp add: utf8_encode_append)

lemma config_values_Inr:
  "config_values key vs = Inr bs \<Longrightarrow>
    utf8_encode (text_of_lines (config_lines key vs)) = Some bs \<and> (\<forall>v \<in> set vs. 9 \<notin> set v \<and> 10 \<notin> set v)"
  by (induction vs arbitrary: bs)
    (auto simp: text_of_lines_def config_lines_def rbind_Inr_iff utf8_encode_single
      simp del: utf8_encode.simps(2) split: if_splits option.splits intro!: utf8_encode_appendI)

lemma build_config_body_Inr:
  "build_config_body pairs = Inr bs \<Longrightarrow>
    utf8_encode (text_of_lines (all_lines pairs)) = Some bs \<and>
    (\<forall>p \<in> set pairs. fst p \<in> set CONFIG_KEYS \<and> (\<forall>v \<in> set (snd p). 9 \<notin> set v \<and> 10 \<notin> set v))"
  by (induction pairs arbitrary: bs)
    (auto simp: all_lines_def text_of_lines_def rbind_Inr_iff split: if_splits
      dest!: config_values_Inr intro!: utf8_encode_appendI, force)

lemma split_text_of_lines: "\<forall>l \<in> set ls. 10 \<notin> set l \<Longrightarrow> split1 10 (text_of_lines ls) = ls @ [[]]"
  by (induction ls) (auto simp: text_of_lines_def split1_append)

lemma CONFIG_KEYS_plain: "k \<in> set CONFIG_KEYS \<Longrightarrow> 9 \<notin> set k \<and> 10 \<notin> set k"
  by (auto simp: CONFIG_KEYS_def u_def)

lemma dict_append_fresh: "k \<notin> fst ` set m \<Longrightarrow> dict_append k v m = m @ [(k, [v])]"
  by (simp add: dict_append_def dict_set_fresh map_of_eq_None_iff [THEN iffD2] split: option.split)

lemma dict_append_last: "k \<notin> fst ` set m \<Longrightarrow> dict_append k v (m @ [(k, vs)]) = m @ [(k, vs @ [v])]"
proof -
  assume k: "k \<notin> fst ` set m"
  then have "dict_set k w (m @ [(k, vs)]) = m @ [(k, w)]" for w
    by (induction m) auto
  moreover have "map_of (m @ [(k, vs)]) k = Some vs"
    using k by (simp add: map_add_def map_of_eq_None_iff [THEN iffD2] split: option.split)
  ultimately show ?thesis by (simp add: dict_append_def)
qed

lemma parse_config_lines_one:
  assumes "k \<in> set CONFIG_KEYS" "\<forall>v \<in> set vs. 9 \<notin> set v" "k \<notin> fst ` set m" "us \<noteq> []"
  shows "parse_config_lines (config_lines k vs @ rest) (m @ [(k, us)]) =
    parse_config_lines rest (m @ [(k, us @ vs)])"
  using assms
proof (induction vs arbitrary: us)
  case (Cons v vs)
  have "partition1 9 (k @ 9 # v) = (k, True, v)"
    using CONFIG_KEYS_plain [OF Cons.prems(1)] by (intro partition1_append) simp
  with Cons show ?case by (simp add: config_lines_def dict_append_last)
qed (simp add: config_lines_def)

lemma parse_config_lines_all:
  assumes "\<forall>p \<in> set pairs. fst p \<in> set CONFIG_KEYS \<and> (\<forall>v \<in> set (snd p). 9 \<notin> set v)"
    "distinct (map fst (m @ pairs))"
  shows "parse_config_lines (all_lines pairs @ [[]]) m = Inr (m @ filter (\<lambda>(k, vs). vs \<noteq> []) pairs)"
  using assms
proof (induction pairs arbitrary: m)
  case (Cons p pairs)
  obtain k vs where p: "p = (k, vs)" by (cases p)
  show ?case
  proof (cases vs)
    case Nil
    with Cons.IH [of m] Cons.prems p show ?thesis by (simp add: all_lines_def config_lines_def)
  next
    case (Cons v us)
    have k: "k \<in> set CONFIG_KEYS" "k \<notin> fst ` set m" "\<forall>v \<in> set vs. 9 \<notin> set v"
      using Cons.prems p by auto
    then have "partition1 9 (k @ 9 # v) = (k, True, v)"
      using CONFIG_KEYS_plain by (intro partition1_append) simp
    with k Cons p parse_config_lines_one [of k us m "[v]" "all_lines pairs @ [[]]"]
      Cons.IH [of "m @ [p]"] Cons.prems
    show ?thesis by (simp add: all_lines_def config_lines_def dict_append_fresh)
  qed
qed (simp add: all_lines_def)

lemma config_roundtrip:
  assumes "build_config_body pairs = Inr bs" "distinct (map fst pairs)"
  shows "parse_config_body bs = Inr (filter (\<lambda>(k, vs). vs \<noteq> []) pairs)"
proof -
  have e: "utf8_encode (text_of_lines (all_lines pairs)) = Some bs"
    and p: "\<forall>p \<in> set pairs. fst p \<in> set CONFIG_KEYS \<and> (\<forall>v \<in> set (snd p). 9 \<notin> set v \<and> 10 \<notin> set v)"
    using build_config_body_Inr [OF assms(1)] by auto
  have "\<forall>l \<in> set (all_lines pairs). 10 \<notin> set l"
    using p CONFIG_KEYS_plain by (fastforce simp: all_lines_def config_lines_def)
  then have "split1 10 (text_of_lines (all_lines pairs)) = all_lines pairs @ [[]]"
    by (rule split_text_of_lines)
  with utf8_roundtrip [OF e] parse_config_lines_all [of pairs "[]"] p assms(2) show ?thesis
    by (auto simp: parse_config_body_def)
qed

section \<open>The identity body\<close>

text \<open>The character a refused credential contains, in the order the loop tests it.\<close>

fun refuse_unwritable :: "pystr \<Rightarrow> pystr \<Rightarrow> codec_exc + unit" where
  "refuse_unwritable what [] = Inr ()"
| "refuse_unwritable what (ch # cs) =
     (if ch = 13 \<or> ch = 10 then Inl (FrameError (Unwritable what))
      else if ch = 0 then Inl (FrameError (Unwritable what))
      else if ch > 0xFF then Inl (FrameError (Unwritable what))
      else refuse_unwritable what cs)"

definition good_generation :: "json option \<Rightarrow> bool" where
  "good_generation g = (case g of Some (JInt n) \<Rightarrow> 1 \<le> n | _ \<Rightarrow> False)"

definition truthy_str :: "json option \<Rightarrow> pystr option" where
  "truthy_str x = (case x of Some (JStr s) \<Rightarrow> if s = [] then None else Some s | _ \<Rightarrow> None)"

definition identity_json :: "pystr \<Rightarrow> json \<Rightarrow> pystr \<Rightarrow> pystr \<Rightarrow> pystr list \<Rightarrow> json" where
  "identity_json identity_id generation header value origins =
     JObj [(u ''identity_id'', JStr identity_id), (u ''generation'', generation),
           (u ''inject'', JObj [(u ''header'', JStr header), (u ''value'', JStr value)]),
           (u ''origins'', JArr (map JStr origins))]"

definition identity_body :: "pystr \<Rightarrow> json \<Rightarrow> pystr \<Rightarrow> pystr \<Rightarrow> pystr list \<Rightarrow> codec_exc + bytes" where
  "identity_body identity_id generation header value origins =
     (if identity_id = [] then Inl (FrameError NeedsIdentityId)
      else if \<not> good_generation (Some generation) then Inl (FrameError BadGeneration)
      else if header = [] then Inl (FrameError NeedsHeader)
      else if value = [] then Inl (FrameError NeedsValue)
      else rbind (refuse_unwritable (u ''id'') identity_id) (\<lambda>_.
        rbind (refuse_unwritable (u ''header name'') header) (\<lambda>_.
        rbind (refuse_unwritable (u ''value'') value) (\<lambda>_.
          if origins = [] \<or> (\<exists>x \<in> set origins. strip x = []) then Inl (FrameError NeedsOrigin)
          else if \<not> dumpable generation then Inl IntTooLong
          else case utf8_encode (dumps (identity_json identity_id generation header value origins)) of
            None \<Rightarrow> Inl UnicodeEncodeError | Some bs \<Rightarrow> Inr bs))))"

record identity_frame =
  if_identity_id :: pystr
  if_generation :: json
  if_header :: pystr
  if_value :: pystr
  if_origins :: "pystr list"

fun str_items :: "json list \<Rightarrow> pystr list option" where
  "str_items [] = Some []"
| "str_items (JStr s # vs) = (if strip s = [] then None else map_option (Cons s) (str_items vs))"
| "str_items (_ # vs) = None"

definition parse_identity :: "bytes \<Rightarrow> codec_exc + identity_frame" where
  "parse_identity body =
     (case utf8_decode body of
        None \<Rightarrow> Inl (FrameError BadIdentityJson)
      | Some text \<Rightarrow>
          (case loads text of
             Inl _ \<Rightarrow> Inl (FrameError BadIdentityJson)
           | Inr (JObj payload) \<Rightarrow>
               (case truthy_str (map_of payload (u ''identity_id'')) of
                  None \<Rightarrow> Inl (FrameError NeedsIdentityId)
                | Some identity_id \<Rightarrow>
                    if \<not> good_generation (map_of payload (u ''generation'')) then Inl (FrameError BadGeneration)
                    else case map_of payload (u ''inject'') of
                      Some (JObj inject) \<Rightarrow>
                        (case truthy_str (map_of inject (u ''header'')) of
                           None \<Rightarrow> Inl (FrameError NeedsHeader)
                         | Some header \<Rightarrow>
                             (case truthy_str (map_of inject (u ''value'')) of
                                None \<Rightarrow> Inl (FrameError NeedsValue)
                              | Some value \<Rightarrow>
                                  (case map_of payload (u ''origins'') of
                                     Some (JArr origins) \<Rightarrow>
                                       (case (origins, str_items origins) of
                                          (_ # _, Some os) \<Rightarrow>
                                            Inr \<lparr>if_identity_id = identity_id,
                                                 if_generation = the (map_of payload (u ''generation'')),
                                                 if_header = header, if_value = value, if_origins = os\<rparr>
                                        | _ \<Rightarrow> Inl (FrameError NeedsOrigin))
                                   | _ \<Rightarrow> Inl (FrameError NeedsOrigin))))
                    | _ \<Rightarrow> Inl (FrameError NeedsInject))
           | Inr _ \<Rightarrow> Inl (FrameError IdentityNotObject)))"

lemma refuse_unwritable_Inr:
  "refuse_unwritable what s = Inr () \<longleftrightarrow> (\<forall>c \<in> set s. c \<notin> {0, 10, 13} \<and> c \<le> 0xFF)"
  by (induction s) auto

lemma str_items_map: "\<forall>x \<in> set xs. strip x \<noteq> [] \<Longrightarrow> str_items (map JStr xs) = Some xs"
  by (induction xs) auto

lemma identity_body_InrE:
  assumes "identity_body i g h v os = Inr bs"
  obtains "i \<noteq> []" "good_generation (Some g)" "h \<noteq> []" "v \<noteq> []" "os \<noteq> []" "\<forall>x \<in> set os. strip x \<noteq> []"
    "\<forall>c \<in> set i \<union> set h \<union> set v. c \<notin> {0, 10, 13} \<and> c \<le> 0xFF" "dumpable g"
    "utf8_encode (dumps (identity_json i g h v os)) = Some bs"
  using assms
  by (auto simp: identity_body_def rbind_Inr_iff refuse_unwritable_Inr split: if_splits option.splits)

lemma identity_json_dumpable: "dumpable g \<Longrightarrow> dumpable (identity_json i g h v os)"
  by (auto simp: identity_json_def u_def)

lemma identity_roundtrip:
  assumes "identity_body i g h v os = Inr bs"
  shows "parse_identity bs = Inr \<lparr>if_identity_id = i, if_generation = g, if_header = h, if_value = v,
           if_origins = os\<rparr>"
  using assms
proof (rule identity_body_InrE)
  assume *: "i \<noteq> []" "good_generation (Some g)" "h \<noteq> []" "v \<noteq> []" "os \<noteq> []" "\<forall>x \<in> set os. strip x \<noteq> []"
    "dumpable g" "utf8_encode (dumps (identity_json i g h v os)) = Some bs"
  then have "utf8_decode bs = Some (dumps (identity_json i g h v os))"
    by (intro utf8_roundtrip)
  moreover have "loads (dumps (identity_json i g h v os)) = Inr (identity_json i g h v os)"
    using * by (intro loads_dumps identity_json_dumpable)
  moreover have "str_items (map JStr os) = Some os" using * by (intro str_items_map)
  ultimately show ?thesis
    using * by (cases os) (simp_all add: parse_identity_def identity_json_def truthy_str_def u_def)
qed

end
