(* ===== verification/Wire_Props.thy ===== *)
theory Wire_Props
  imports Codec_Bodies Redact
begin

text \<open>
  The properties of the wire format (\<open>src/hx/bridge/codec.py\<close>) and of the URL redaction of
  \<open>src/hx/store/records.py\<close>, each with a witness that applies it to concrete bytes.
\<close>

section \<open>Frames\<close>

lemma pack_unpack: "4 \<le> length bs \<Longrightarrow> pack_len (unpack_len bs) = take 4 bs"
proof -
  assume "4 \<le> length bs"
  then obtain w x y z r where bs: "bs = w # x # y # z # r"
    by (cases bs; cases "tl bs"; cases "tl (tl bs)"; cases "tl (tl (tl bs))") auto
  have lt: "unat v < 256" for v :: byte by (rule word8_less)
  have dm: "c < 256 \<Longrightarrow> (k * 256 + c) div 256 = k \<and> (k * 256 + c) mod 256 = c" for k c :: nat by simp
  define l m n where "l = unat w * 256 + unat x" and "m = l * 256 + unat y" and "n = m * 256 + unat z"
  have "l div 256 = unat w" "l mod 256 = unat x" "m div 256 = l" "m mod 256 = unat y" "n div 256 = m" "n mod 256 = unat z"
    using dm [OF lt, of "unat w" x] dm [OF lt, of l y] dm [OF lt, of m z] unfolding l_def m_def n_def by simp_all
  moreover have "n div 65536 = n div 256 div 256" "n div 16777216 = n div 256 div 256 div 256"
    by (simp_all flip: div_mult2_eq)
  moreover have "unpack_len bs = n"
    by (simp add: bs unpack_len_def l_def m_def n_def)
  ultimately show ?thesis by (simp add: bs pack_len_def)
qed

lemma split_bodies_InrE:
  assumes "split_bodies h p = Inr (f, s)"
  shows "map_of h BODIES_KEY = Some (JInt 2) \<and> p = pack_len (length f) @ f @ pack_len (length s) @ s"
proof -
  obtain i j k l where bs: "body_spans p = Inr (i, j, k, l)"
    and two: "map_of h BODIES_KEY = Some (JInt 2)"
    and fs: "f = take (j - i) (drop i p)" "s = take (l - k) (drop k p)"
    using assms by (auto simp: split_bodies_def declares_two_bodies_def rbind_Inr_iff split: if_splits option.splits)
  define n1 n2 where "n1 = unpack_len p" and "n2 = unpack_len (drop (4 + n1) p)"
  have "body_spans p = (if length p < 4 then Inl (FrameError NoFirstPrefix)
    else if length p < 4 + n1 + 4 then Inl (FrameError (ShortFirstBody n1))
    else if length p \<noteq> 2 * 4 + n1 + n2 then Inl (FrameError (BodiesDoNotFill n1 n2))
    else Inr (4, 4 + n1, 2 * 4 + n1, 2 * 4 + n1 + n2))"
    unfolding body_spans_def n1_def n2_def Let_def ..
  with bs have len: "length p = 8 + n1 + n2" and ix: "i = 4" "j = 4 + n1" "k = 8 + n1" "l = 8 + n1 + n2"
    by (auto split: if_split_asm)
  then have f: "f = take n1 (drop 4 p)" "s = drop (8 + n1) p" using fs by auto
  have "take 4 p = pack_len n1" "take 4 (drop (4 + n1) p) = pack_len n2"
    unfolding n1_def n2_def using len by (simp_all add: pack_unpack n1_def)
  moreover have "p = take 4 p @ take n1 (drop 4 p) @ take 4 (drop (4 + n1) p) @ drop (8 + n1) p"
  proof -
    have "p = take 4 p @ drop 4 p" by simp
    also have "drop 4 p = take n1 (drop 4 p) @ drop (4 + n1) p" by (metis add.commute append_take_drop_id drop_drop)
    also have "drop (4 + n1) p = take 4 (drop (4 + n1) p) @ drop (8 + n1) p"
      using append_take_drop_id [of 4 "drop (4 + n1) p"] by (simp add: add.commute)
    finally show ?thesis by simp
  qed
  moreover have "length f = n1" "length s = n2" using f len by auto
  ultimately show ?thesis using two f by metis
qed

text \<open>C1. A frame the encoder accepts is read back by the decoder, whatever bytes follow it in the
  buffer: the same header entries in the same order, the same body, and exactly its own length
  consumed.\<close>

theorem frame_roundtrip:
  "encode header body = Inr bs \<Longrightarrow> distinct (map fst header) \<Longrightarrow>
    decode (bs @ rest) = Inr (header, body, length bs)"
  by (rule decode_encode)

lemma utf8_encode_plain: "\<forall>c \<in> set s. c < 128 \<Longrightarrow> utf8_encode s = Some (map of_nat s)"
  by (induction s) (simp_all add: utf8_char_def)

definition sample_header :: header where
  "sample_header = [(u ''v'', JInt 1), (u ''t'', JStr (u ''log'')), (u ''ok'', JBool True), (u ''e'', JNull)]"

definition sample_text :: pystr where
  "sample_text = [123, 34, 118, 34, 58, 49, 44, 34, 116, 34, 58, 34, 108, 111, 103, 34, 44, 34, 111, 107, 34,
     58, 116, 114, 117, 101, 44, 34, 101, 34, 58, 110, 117, 108, 108, 125]"

definition sample_frame :: bytes where
  "sample_frame = [0, 0, 0, 39, 123, 34, 118, 34, 58, 49, 44, 34, 116, 34, 58, 34, 108, 111, 103, 34, 44,
     34, 111, 107, 34, 58, 116, 114, 117, 101, 44, 34, 101, 34, 58, 110, 117, 108, 108, 125, 10, 1, 2]"

lemma sample_dumps: "dumps (JObj sample_header) = sample_text"
  by (simp add: sample_header_def sample_text_def literals dump_str_def esc1_def dump_int_def dec_nat.simps)

lemma sample_encodes: "encode sample_header [1, 2] = Inr sample_frame"
proof -
  have "utf8_encode sample_text = Some (map of_nat sample_text)"
    by (rule utf8_encode_plain) (simp add: sample_text_def)
  moreover have "check_header sample_header = Inr ()"
    by (simp add: sample_header_def literals check_header_def check_item_def is_flat_def is_surrogate_def)
  ultimately show ?thesis
    by (simp only: encode_def sample_dumps rbind.simps option.case)
      (simp add: sample_text_def sample_frame_def MAX_FRAME_def pack_len_def)
qed

theorem frame_roundtrip_witness:
  "decode (sample_frame @ [0, 0]) = Inr (sample_header, [1, 2], length sample_frame)"
  by (rule frame_roundtrip [OF sample_encodes]) (simp add: sample_header_def literals)

text \<open>C2. The stream reader does not depend on how the socket cut the stream: from any cutting of the
  bytes of a sequence of frames into non-empty chunks, \<open>FrameReader\<close> delivers exactly those frames, in
  order.\<close>

theorem reader_any_chunking:
  "encoded fs bss \<Longrightarrow> concat cs = concat bss \<Longrightarrow> [] \<notin> set cs \<Longrightarrow>
    reader_frames (length fs) [] cs = Inr fs"
  by (rule reader_frames_encoded) simp_all

theorem reader_any_chunking_witness:
  "reader_frames (length [(sample_header, [1 :: byte, 2]), (sample_header, [1, 2])]) []
      [take 3 sample_frame, drop 3 sample_frame @ take 9 sample_frame, drop 9 sample_frame]
    = Inr [(sample_header, [1, 2]), (sample_header, [1, 2])]"
proof (rule reader_any_chunking)
  show "encoded [(sample_header, [1, 2]), (sample_header, [1, 2])] [sample_frame, sample_frame]"
    by (simp add: encoded_def sample_encodes) (simp add: sample_header_def literals)
qed (simp_all add: sample_frame_def)

text \<open>A two-body frame is split exactly: whatever \<open>split_bodies\<close> accepts is the two length-prefixed
  bodies, back to back, with no byte before, between or after them, so no two readings of a payload
  are possible and nothing rides along unread.\<close>

theorem split_bodies_exact:
  "split_bodies header payload = Inr (first, second) \<Longrightarrow>
    payload = pack_len (length first) @ first @ pack_len (length second) @ second"
  using split_bodies_InrE by blast

lemma two_bodies_sample: "split_bodies [(BODIES_KEY, JInt 2)] [0, 0, 0, 1, 7, 0, 0, 0, 2, 8, 9] = Inr ([7], [8, 9])"
  by (simp add: split_bodies_def declares_two_bodies_def body_spans_def unpack_len_def)

text \<open>What \<open>encode_two\<close> writes, \<open>decode\<close> and \<open>split_bodies\<close> read back: the header with the \<open>bodies\<close>
  marker set, and the two bodies.\<close>

theorem two_body_roundtrip:
  assumes "encode_two header first second = Inr bs" "distinct (map fst header)"
  shows "\<exists>payload. decode bs = Inr (dict_set BODIES_KEY (JInt 2) header, payload, length bs)
    \<and> split_bodies (dict_set BODIES_KEY (JInt 2) header) payload = Inr (first, second)"
proof -
  let ?h = "dict_set BODIES_KEY (JInt 2) header"
    and ?p = "pack_len (length first) @ first @ pack_len (length second) @ second"
  have "4 + length first + 4 + length second \<le> MAX_FRAME" "encode ?h ?p = Inr bs"
    using assms(1) by (auto simp: encode_two_def Let_def split: if_splits)
  moreover have "distinct (map fst ?h)" using assms(2) by (rule dict_set_distinct)
  ultimately have "decode bs = Inr (?h, ?p, length bs)" "length first < 4294967296" "length second < 4294967296"
    using decode_encode [of ?h ?p bs "[]"] by (simp_all add: MAX_FRAME_def)
  moreover have "map_of ?h BODIES_KEY = Some (JInt 2)" by (simp add: map_of_dict_set)
  ultimately show ?thesis using split_bodies_packed [of ?h first second] by blast
qed

definition exchange_header :: header where
  "exchange_header = [(u ''v'', JInt 1), (u ''t'', JStr (u ''exchange''))]"

definition exchange_frame :: bytes where
  "exchange_frame = [0, 0, 0, 46] @ map of_nat (
     [123, 34, 118, 34, 58, 49, 44, 34, 116, 34, 58, 34, 101, 120, 99, 104, 97, 110, 103, 101, 34, 44, 34,
      98, 111, 100, 105, 101, 115, 34, 58, 50, 125]) @ [10, 0, 0, 0, 2, 71, 72, 0, 0, 0, 2, 1, 2]"

lemma exchange_encodes: "encode_two exchange_header [71, 72] [1, 2] = Inr exchange_frame"
proof -
  let ?h = "dict_set BODIES_KEY (JInt 2) exchange_header"
  let ?t = "[123, 34, 118, 34, 58, 49, 44, 34, 116, 34, 58, 34, 101, 120, 99, 104, 97, 110, 103, 101, 34, 44, 34,
      98, 111, 100, 105, 101, 115, 34, 58, 50, 125]"
  have "dumps (JObj ?h) = ?t"
    by (simp add: exchange_header_def literals dump_str_def esc1_def dump_int_def dec_nat.simps BODIES_KEY_def)
  moreover have "utf8_encode ?t = Some (map of_nat ?t)"
    by (rule utf8_encode_plain) simp
  moreover have "check_header ?h = Inr ()"
    by (simp add: exchange_header_def literals check_header_def check_item_def is_flat_def is_surrogate_def BODIES_KEY_def)
  ultimately have "encode ?h (pack_len (length [71 :: byte, 72]) @ [71, 72] @ pack_len (length [1 :: byte, 2]) @ [1, 2])
      = Inr exchange_frame"
    by (simp only: encode_def rbind.simps option.case) (simp add: exchange_frame_def MAX_FRAME_def pack_len_def)
  then show ?thesis by (simp add: encode_two_def MAX_FRAME_def)
qed

section \<open>Bodies of the control frames\<close>

text \<open>The configuration body, which is what arms the far side's scope, method and rate guards, is
  read back as it was written: every key that has a value, in order, with all its values; nothing
  is added, and no value can pose as another key.\<close>

theorem config_body_roundtrip:
  "build_config_body pairs = Inr body \<Longrightarrow> distinct (map fst pairs) \<Longrightarrow>
    parse_config_body body = Inr (filter (\<lambda>(k, vs). vs \<noteq> []) pairs)"
  by (rule config_roundtrip)

definition sample_config :: "(pystr \<times> pystr list) list" where
  "sample_config = [(u ''method.allow'', [u ''GET'', u ''HEAD'']), (u ''render.allow'', []), (u ''limit.rate_rps'', [u ''2''])]"

lemma sample_config_body:
  "build_config_body sample_config
     = Inr (b ''method.allow'' @ [9] @ b ''GET'' @ [10] @ b ''method.allow'' @ [9] @ b ''HEAD'' @ [10]
            @ b ''limit.rate_rps'' @ [9] @ b ''2'' @ [10])"
  by code_simp

text \<open>An identity frame is read back field for field, and the header name and value that the far
  side will write into a request hold no CR, LF or NUL and nothing outside Latin-1, so a credential can never
  inject a second header or split a request.\<close>

theorem identity_body_safe_roundtrip:
  "identity_body identity_id generation header value origins = Inr body \<Longrightarrow>
    parse_identity body = Inr \<lparr>if_identity_id = identity_id, if_generation = generation,
      if_header = header, if_value = value, if_origins = origins\<rparr>
    \<and> (\<forall>c \<in> set header \<union> set value. c \<notin> {0, 10, 13} \<and> c \<le> 0xFF)"
  using identity_roundtrip by (blast elim: identity_body_InrE)

lemma sample_identity_body:
  "\<exists>body. identity_body (u ''u1'') (JInt 1) (u ''X-Auth'') (u ''t'') [u ''http://a''] = Inr body"
proof -
  have "utf8_encode (dumps (identity_json (u ''u1'') (JInt 1) (u ''X-Auth'') (u ''t'') [u ''http://a''])) =
    Some (map of_nat (dumps (identity_json (u ''u1'') (JInt 1) (u ''X-Auth'') (u ''t'') [u ''http://a''])))"
    by (rule utf8_encode_plain)
      (simp add: identity_json_def literals dump_str_def esc1_def dump_int_def dec_nat.simps)
  then show ?thesis
    by (simp add: identity_body_def good_generation_def literals strip_def lstrip_def rstrip_def is_space_def
        max_str_digits_def dec_nat.simps del: dumps.simps)
qed

section \<open>Redaction\<close>

text \<open>C3. When the first scheme separator of a URL stands before its query (or there is none), the
  offset-based redaction is the structural one: the userinfo of the authority and the value of every
  credential parameter of the query are replaced, and every other character is kept in place; after it no credential parameter of the query
  shows a value.\<close>

theorem redact_url_is_structural:
  "scheme_first url \<Longrightarrow> redact_url url = redact_reference url \<and> \<not> shows_credential (redact_url url)"
  using redact_url_hides_credentials redact_url_reference by blast

theorem redact_url_is_structural_witness:
  "redact_url (u ''http://me:pw@h/p?a=1&token=s&b=2#f'')
     = redact_reference (u ''http://me:pw@h/p?a=1&token=s&b=2#f'')
   \<and> \<not> shows_credential (redact_url (u ''http://me:pw@h/p?a=1&token=s&b=2#f''))"
  by (rule redact_url_is_structural) code_simp

end
