(* ===== verification/Py_Num.thy ===== *)
theory Py_Num
  imports Json
begin

text \<open>
  Python's reading of a JSON value as a number or a truth value: the value of a float's text (a 64-bit binary
  float, rounded half to even), \<open>int()\<close> of a value, and \<open>bool()\<close> of one.
\<close>

fun bit_len :: "nat \<Rightarrow> nat" where
  "bit_len n = (if n = 0 then 0 else Suc (bit_len (n div 2)))"

declare bit_len.simps [simp del]

definition round_quot :: "nat \<Rightarrow> nat \<Rightarrow> nat" where
  "round_quot n d =
     (let q = n div d; r = n mod d in if 2 * r > d \<or> 2 * r = d \<and> odd q then q + 1 else q)"

text \<open>The float nearest to \<open>n / d\<close> is \<open>q * 2 ^ k\<close>; \<open>None\<close> is infinity.\<close>

definition nearest_float :: "nat \<Rightarrow> nat \<Rightarrow> (nat \<times> int) option" where
  "nearest_float n d =
     (if n = 0 then Some (0, 0)
      else
        let scaled = (\<lambda>k. if k \<ge> 0 then (n, d * 2 ^ nat k) else (n * 2 ^ nat (- k), d));
            k0 = int (bit_len n) - int (bit_len d) - 53;
            k1 = (if fst (scaled k0) div snd (scaled k0) \<ge> 2 ^ 53 then k0 + 1 else k0);
            k = max k1 (-1074);
            q = round_quot (fst (scaled k)) (snd (scaled k))
        in if k \<ge> 0 \<and> q * 2 ^ nat k \<ge> 2 ^ 1024 then None else Some (q, k))"

text \<open>The text of a finite float: sign, digits before and after the point, exponent.\<close>

definition float_of :: "pystr \<Rightarrow> (bool \<times> nat \<times> int) option" where
  "float_of t =
     (let neg = startswith [45] t;
          q = (if neg then tl t else t);
          whole = takeWhile is_digit q;
          (frac, r) = scan_frac (dropWhile is_digit q);
          (ex, _) = scan_exp r;
          sg = (if 2 \<le> length ex \<and> ex ! 1 = 45 then - 1 else 1);
          e = sg * int (digits_val (filter is_digit ex)) - int (length frac - 1);
          m = digits_val (whole @ filter is_digit frac)
      in if whole = [] then None
         else map_option (Pair neg) (if e \<ge> 0 then nearest_float (m * 10 ^ nat e) 1 else nearest_float m (10 ^ nat (- e))))"

definition float_trunc :: "pystr \<Rightarrow> int option" where
  "float_trunc t =
     map_option (\<lambda>(neg, q, k).
         let v = int (if k \<ge> 0 then q * 2 ^ nat k else q div 2 ^ nat (- k)) in if neg then - v else v)
       (float_of t)"

definition float_integral :: "pystr \<Rightarrow> bool" where
  "float_integral t =
     (case float_of t of None \<Rightarrow> False | Some (_, q, k) \<Rightarrow> k \<ge> 0 \<or> q mod 2 ^ nat (- k) = 0)"

definition float_zero :: "pystr \<Rightarrow> bool" where
  "float_zero t = (case float_of t of None \<Rightarrow> False | Some (_, q, _) \<Rightarrow> q = 0)"

text \<open>The integer a value equals: \<open>True == 1\<close> and \<open>1.0 == 1\<close>.\<close>

definition eq_int :: "json \<Rightarrow> int option" where
  "eq_int v =
     (case v of
        JInt n \<Rightarrow> Some n
      | JBool q \<Rightarrow> Some (if q then 1 else 0)
      | JFloat t \<Rightarrow> if float_integral t then float_trunc t else None
      | _ \<Rightarrow> None)"

text \<open>\<open>int()\<close>; \<open>None\<close> is an exception. A string is ASCII digits, single underscores between them, with an
  optional sign and blanks around it.\<close>

definition int_text :: "pystr \<Rightarrow> int option" where
  "int_text s =
     (let t = strip s; neg = startswith [45] t; body = (if t \<noteq> [] \<and> hd t \<in> {43, 45} then tl t else t);
          groups = split1 95 body; ds = concat groups in
      if (\<forall>g \<in> set groups. g \<noteq> [] \<and> (\<forall>c \<in> set g. is_digit c)) \<and> length ds \<le> max_str_digits
      then Some (if neg then - int (digits_val ds) else int (digits_val ds)) else None)"

definition py_int :: "json \<Rightarrow> int option" where
  "py_int v =
     (case v of
        JInt n \<Rightarrow> Some n
      | JBool q \<Rightarrow> Some (if q then 1 else 0)
      | JFloat t \<Rightarrow> float_trunc t
      | JStr s \<Rightarrow> int_text s
      | _ \<Rightarrow> None)"

definition truthy :: "json \<Rightarrow> bool" where
  "truthy v =
     (case v of
        JNull \<Rightarrow> False
      | JBool q \<Rightarrow> q
      | JInt n \<Rightarrow> n \<noteq> 0
      | JFloat t \<Rightarrow> \<not> float_zero t
      | JStr s \<Rightarrow> s \<noteq> []
      | JArr xs \<Rightarrow> xs \<noteq> []
      | JObj kvs \<Rightarrow> kvs \<noteq> [])"

end
