(* ===== verification/Halt.thy ===== *)
theory Halt
  imports Py_Text Json
begin

text \<open>
  The durable operator halt of \<open>src/hx/halt.py\<close>. The disk is the engagement directory and the
  \<open>agent_action\<close> rows, the object is \<open>OperatorHalt\<close>. A halt lives in two places, the sentinel file and
  the latest halt/resume row; the lemmas show that \<open>halt\<close> is in force once the file has been renamed
  into place, whatever fails after that, that it survives a restart, and that only \<open>resume\<close> lifts it.
\<close>

section \<open>The disk and the object\<close>

text \<open>\<open>str.split()\<close> with no argument: the non-empty pieces between space characters.\<close>

definition words :: "pystr \<Rightarrow> pystr list" where
  "words s = filter (\<lambda>w. w \<noteq> []) (split1 32 (map (\<lambda>c. if is_space c then 32 else c) s))"

text \<open>Reading a file in text mode: every line ending becomes a newline.\<close>

fun universal_newlines :: "pystr \<Rightarrow> pystr" where
  "universal_newlines [] = []"
| "universal_newlines (c # s) =
     (if c \<noteq> 13 then c # universal_newlines s
      else case s of
        [] \<Rightarrow> [10]
      | d # s' \<Rightarrow> if d = 10 then 10 # universal_newlines s' else 10 # universal_newlines s)"

datatype halt_tool = HALT_TOOL | RESUME_TOOL

record agent_action =
  aa_engagement :: string
  aa_ts_us :: int
  aa_tool :: "halt_tool option"
  aa_why :: pystr

text \<open>The sentinel is its decoded text, or nothing; \<open>dir_stat_ok\<close> and \<open>dir_read_ok\<close> say whether the
  file can be looked up and read. \<open>dir_tmp\<close> is the temporary file of a write in progress.\<close>

record halt_disk =
  dir_path :: pystr
  dir_sentinel :: "pystr option"
  dir_stat_ok :: bool
  dir_read_ok :: bool
  dir_tmp :: "pystr option"
  dir_actions :: "agent_action list"

record operator_halt =
  oh_engagement :: string
  oh_armed :: bool
  oh_reason :: "pystr option"

datatype halt_exc = HaltError | OSError | SqliteError | EncodeError

text \<open>\<open>ORDER BY ts_us DESC, rowid DESC LIMIT 1\<close> over the halt and resume rows of one engagement; the
  list is in rowid order, so the last of the greatest timestamps wins.\<close>

fun latest :: "agent_action option \<Rightarrow> agent_action list \<Rightarrow> agent_action option" where
  "latest r [] = r"
| "latest r (a # as) =
     latest (case r of None \<Rightarrow> Some a | Some a' \<Rightarrow> if aa_ts_us a' \<le> aa_ts_us a then Some a else r) as"

definition halt_rows :: "string \<Rightarrow> agent_action list \<Rightarrow> agent_action list" where
  "halt_rows eng rows = filter (\<lambda>a. aa_engagement a = eng \<and> aa_tool a \<noteq> None) rows"

definition open_operator_halt :: "string list \<Rightarrow> halt_disk \<Rightarrow> halt_exc + operator_halt" where
  "open_operator_halt engagements d =
     (case engagements of
        [eng] \<Rightarrow>
          (let row = latest None (halt_rows eng (dir_actions d));
               armed = (case row of None \<Rightarrow> False | Some a \<Rightarrow> aa_tool a = Some HALT_TOOL)
           in Inr \<lparr>oh_engagement = eng, oh_armed = armed,
                   oh_reason = (if armed then map_option aa_why row else None)\<rparr>)
      | _ \<Rightarrow> Inl HaltError)"

definition sentinel_present :: "halt_disk \<Rightarrow> bool" where
  "sentinel_present d = (if dir_stat_ok d then dir_sentinel d \<noteq> None else True)"

definition halted :: "operator_halt \<Rightarrow> halt_disk \<Rightarrow> bool" where
  "halted h d = (oh_armed h \<or> sentinel_present d)"

definition halt_reason :: "operator_halt \<Rightarrow> halt_disk \<Rightarrow> pystr option" where
  "halt_reason h d =
     (if oh_armed h then oh_reason h
      else if \<not> sentinel_present d then None
      else if \<not> dir_read_ok d then Some (dir_path d @ u '' exists but cannot be read'')
      else case dir_sentinel d of
        None \<Rightarrow> Some (dir_path d @ u '' exists but cannot be read'')
      | Some text \<Rightarrow>
          (let line = strip (hd (split1 10 (universal_newlines text))) in
           Some (if line = [] then dir_path d @ u '' exists'' else line)))"

section \<open>halt and resume\<close>

text \<open>Where a write of the sentinel fails: at the exclusive create, at \<open>fdopen\<close>, while writing, flushing
  or renaming, or at the \<open>fsync\<close> of the directory after the rename.\<close>

datatype write_fault = NoFault | AtOpen | AtFdopen | AtWrite | AtReplace | AtDirSync

type_synonym halt_world = "operator_halt \<times> halt_disk"

definition write_sentinel :: "write_fault \<Rightarrow> int \<Rightarrow> pystr \<Rightarrow> (halt_disk, halt_exc, unit) prog" where
  "write_sentinel fault now reason d =
     (if fault = AtOpen then (Inl OSError, d)
      else
        let d1 = d\<lparr>dir_tmp := Some []\<rparr>; text = reason @ 10 # dump_int now @ [10] in
        if fault = AtFdopen then (Inl OSError, d1\<lparr>dir_tmp := None\<rparr>)
        else if utf8_encode text = None then (Inl EncodeError, d1\<lparr>dir_tmp := None\<rparr>)
        else if fault = AtWrite then (Inl OSError, d1\<lparr>dir_tmp := None\<rparr>)
        else
          let d2 = d1\<lparr>dir_tmp := Some text\<rparr> in
          if fault = AtReplace then (Inl OSError, d2\<lparr>dir_tmp := None\<rparr>)
          else
            let d3 = d2\<lparr>dir_sentinel := dir_tmp d2, dir_tmp := None\<rparr> in
            if fault = AtDirSync then (Inl OSError, d3) else (Inr (), d3))"

definition insert_action :: "bool \<Rightarrow> int \<Rightarrow> halt_tool \<Rightarrow> pystr \<Rightarrow> (halt_world, halt_exc, unit) prog" where
  "insert_action db_ok now tool why w =
     (if db_ok
      then (Inr (), (fst w, (snd w)\<lparr>dir_actions := dir_actions (snd w) @
             [\<lparr>aa_engagement = oh_engagement (fst w), aa_ts_us = now, aa_tool = Some tool, aa_why = why\<rparr>]\<rparr>))
      else (Inl SqliteError, w))"

definition one_line :: "pystr \<Rightarrow> pystr" where
  "one_line reason = join [32] (words reason)"

definition oh_halt :: "write_fault \<Rightarrow> bool \<Rightarrow> int \<Rightarrow> int \<Rightarrow> pystr \<Rightarrow> (halt_world, halt_exc, unit) prog" where
  "oh_halt fault db_ok now now' reason w =
     (case write_sentinel fault now (one_line reason) (snd w) of
        (Inl e, d) \<Rightarrow> (Inl e, (fst w, d))
      | (Inr _, d) \<Rightarrow>
          insert_action db_ok now' HALT_TOOL (one_line reason)
            ((fst w)\<lparr>oh_armed := True, oh_reason := Some (one_line reason)\<rparr>, d))"

definition oh_resume :: "bool \<Rightarrow> bool \<Rightarrow> int \<Rightarrow> (halt_world, halt_exc, unit) prog" where
  "oh_resume db_ok unlink_ok now =
     sbind (insert_action db_ok now RESUME_TOOL (u ''operator resumed issuance'')) (\<lambda>_ (h, d).
       (let h' = h\<lparr>oh_armed := False, oh_reason := None\<rparr> in
        if dir_sentinel d = None \<and> dir_stat_ok d then (Inr (), (h', d))
        else if unlink_ok then (Inr (), (h', d\<lparr>dir_sentinel := None\<rparr>))
        else (Inl OSError, (h', d))))"

section \<open>What a halt guarantees\<close>

lemma words_edges: "w \<in> set (words s) \<Longrightarrow> w \<noteq> [] \<and> (\<forall>c \<in> set w. \<not> is_space c)"
  using split1_free [of w 32] split1_chars [of _ w 32]
  by (fastforce simp: words_def split: if_splits)

lemma one_line_chars: "c \<in> set (one_line reason) \<Longrightarrow> c = 32 \<or> \<not> is_space c"
  by (auto simp: one_line_def dest!: join_chars dest: words_edges)

text \<open>Wherever the write fails, the sentinel is either untouched or says the reason: never missing, never
  half written, and no temporary file stays behind.\<close>

lemma write_sentinel_atomic:
  "write_sentinel f now reason d = (r, d') \<Longrightarrow> dir_tmp d = None \<Longrightarrow>
     dir_tmp d' = None \<and> (dir_sentinel d' = dir_sentinel d \<and> r \<noteq> Inr ()
       \<or> dir_sentinel d' = Some (reason @ 10 # dump_int now @ [10]))
     \<and> dir_stat_ok d' = dir_stat_ok d \<and> dir_actions d' = dir_actions d"
  by (auto simp: write_sentinel_def Let_def split: if_splits)

lemma oh_halt_in_force:
  assumes "oh_halt f db_ok now now' reason (h, d) = (r, (h', d'))"
    and "r = Inr () \<or> r = Inl SqliteError \<or> f = AtDirSync \<and> utf8_encode (one_line reason @ 10 # dump_int now @ [10]) \<noteq> None"
  shows "halted h' d'" "sentinel_present d'"
  using assms
  by (auto simp: oh_halt_def write_sentinel_def insert_action_def halted_def sentinel_present_def Let_def
      split: if_splits)

lemma oh_halt_keeps_halted:
  "halted h d \<Longrightarrow> oh_halt f db_ok now now' reason (h, d) = (r, (h', d')) \<Longrightarrow> halted h' d'"
  by (auto simp: oh_halt_def write_sentinel_def insert_action_def halted_def sentinel_present_def Let_def
      split: if_splits)

lemma oh_resume_failure_stays_halted:
  "halted h d \<Longrightarrow> oh_resume db_ok unlink_ok now (h, d) = (Inl e, (h', d')) \<Longrightarrow> halted h' d'"
  by (auto simp: oh_resume_def insert_action_def halted_def sentinel_present_def sbind_def Let_def
      split: if_splits)

lemma latest_append: "latest r (as @ bs) = latest (latest r as) bs"
  by (induction as arbitrary: r) simp_all

lemma latest_time:
  "latest r as = Some a \<Longrightarrow> (\<forall>x \<in> set as. aa_ts_us x \<le> aa_ts_us a) \<and> (\<forall>x. r = Some x \<longrightarrow> aa_ts_us x \<le> aa_ts_us a)"
proof (induction as arbitrary: r)
  case (Cons y as)
  show ?case
  proof (cases "r = None \<or> aa_ts_us (the r) \<le> aa_ts_us y")
    case True
    with Cons.IH [of "Some y"] Cons.prems show ?thesis by (fastforce split: option.splits if_splits)
  next
    case False
    with Cons.IH [of r] Cons.prems show ?thesis by (fastforce split: option.splits if_splits)
  qed
qed simp

lemma latest_Nil_iff: "latest r as = None \<longleftrightarrow> r = None \<and> as = []"
  by (induction as arbitrary: r) (auto split: option.splits)

lemma latest_last:
  assumes "\<forall>x \<in> set as. aa_ts_us x \<le> aa_ts_us a"
  shows "latest None (as @ [a]) = Some a"
proof (cases "latest None as")
  case (Some y)
  then have "y \<in> set as \<or> False"
  proof -
    have "latest r as = Some y \<Longrightarrow> y \<in> set as \<or> r = Some y" for r
      by (induction as arbitrary: r) (auto split: option.splits if_splits)
    with Some show ?thesis by auto
  qed
  with assms Some show ?thesis by (simp add: latest_append)
qed (simp add: latest_append)

text \<open>A halt survives a restart: a fresh object over the same disk is halted even if the operator has
  deleted the sentinel, provided the clock did not run backwards.\<close>

lemma halt_survives_restart:
  assumes "oh_halt f True now now' reason (h, d) = (Inr (), (h', d'))"
    and "\<forall>x \<in> set (halt_rows (oh_engagement h) (dir_actions d)). aa_ts_us x \<le> now'"
    and "dir_actions d'' = dir_actions d'"
  shows "\<exists>h''. open_operator_halt [oh_engagement h] d'' = Inr h'' \<and> oh_armed h''
    \<and> halt_reason h'' d'' = Some (one_line reason)"
proof -
  let ?a = "\<lparr>aa_engagement = oh_engagement h, aa_ts_us = now', aa_tool = Some HALT_TOOL, aa_why = one_line reason\<rparr>"
  have "dir_actions d' = dir_actions d @ [?a]"
    using assms(1) by (auto simp: oh_halt_def write_sentinel_def insert_action_def Let_def split: if_splits)
  then have "halt_rows (oh_engagement h) (dir_actions d'') = halt_rows (oh_engagement h) (dir_actions d) @ [?a]"
    using assms(3) by (simp add: halt_rows_def)
  with latest_last [of "halt_rows (oh_engagement h) (dir_actions d)" ?a] assms(2) show ?thesis
    by (simp add: open_operator_halt_def Let_def halt_reason_def)
qed

text \<open>The other copy says the same: the file, read by an object that has seen no row, gives the reason
  that was written.\<close>

lemma strip_edges: "xs \<noteq> [] \<Longrightarrow> \<not> is_space (hd xs) \<Longrightarrow> \<not> is_space (last xs) \<Longrightarrow> strip xs = xs"
proof -
  assume a: "xs \<noteq> []" "\<not> is_space (hd xs)" "\<not> is_space (last xs)"
  then have "lstrip xs = xs" by (cases xs) (simp_all add: lstrip_def)
  moreover have "dropWhile is_space (rev xs) = rev xs"
    using a by (cases xs rule: rev_cases) simp_all
  ultimately show ?thesis by (simp add: strip_def rstrip_def)
qed

lemma join_edges:
  "xs \<noteq> [] \<Longrightarrow> \<forall>w \<in> set xs. w \<noteq> [] \<and> (\<forall>c \<in> set w. \<not> is_space c) \<Longrightarrow>
    join [32] xs \<noteq> [] \<and> \<not> is_space (hd (join [32] xs)) \<and> \<not> is_space (last (join [32] xs))"
  by (induction xs rule: induct_list012) (auto simp: hd_append)

lemma strip_one_line: "strip (one_line reason) = one_line reason"
proof (cases "words reason = []")
  case True
  then show ?thesis by (simp add: one_line_def strip_def lstrip_def rstrip_def)
next
  case False
  with join_edges [OF False] words_edges show ?thesis
    unfolding one_line_def by (intro strip_edges) blast+
qed

lemma universal_newlines_plain: "13 \<notin> set s \<Longrightarrow> universal_newlines s = s"
  by (induction s) auto

lemma dump_int_plain: "13 \<notin> set (dump_int n)"
  using dump_int_chars [of 13 n] by auto

lemma sentinel_reason:
  assumes "dir_sentinel d = Some (one_line reason @ 10 # dump_int now @ [10])" "\<not> oh_armed h"
    "dir_stat_ok d" "dir_read_ok d" "one_line reason \<noteq> []"
  shows "halt_reason h d = Some (one_line reason)"
proof -
  have n: "13 \<notin> set (one_line reason)" "10 \<notin> set (one_line reason)"
    using one_line_chars [of 13 reason] one_line_chars [of 10 reason] by (auto simp: is_space_def)
  then have "universal_newlines (one_line reason @ 10 # dump_int now @ [10]) = one_line reason @ 10 # dump_int now @ [10]"
    using dump_int_plain by (intro universal_newlines_plain) auto
  moreover have "hd (split1 10 (one_line reason @ 10 # dump_int now @ [10])) = one_line reason"
    using n by (simp add: split1_append)
  ultimately show ?thesis
    using assms by (simp add: halt_reason_def sentinel_present_def strip_one_line)
qed

end
