(* ===== verification/Bridge.thy ===== *)
theory Bridge
  imports Codec_Bodies Py_Num Halt
begin

text \<open>
  The harness end of the bridge, \<open>src/hx/bridge/server.py\<close>. The read thread and the callers share one
  object; every stretch of code between two points where another thread can run is one function here,
  and an \<open>event\<close> says which stretch runs next and how the outside world answers (an I/O error, a reply,
  a timeout, a frame from the peer). Frames written to the socket are logged in \<open>br_wire\<close> with the
  generation of the connection that carried them.
\<close>

section \<open>State\<close>

datatype bridge_state = Waiting | Connected | Configured | Halted

datatype bridge_exc = BridgeError json | CodecError codec_exc | HaltFailed halt_exc | ValueErr

type_synonym reply = "header \<times> bytes"

record 's bridge =
  br_engagement :: pystr
  br_state :: bridge_state
  br_epoch :: int
  br_conn :: "nat option"
  br_gen :: nat
  br_pending :: "nat list"
  br_woken :: "nat list"
  br_replies :: "(nat \<times> reply) list"
  br_next_id :: nat
  br_hello :: "header option"
  br_rejected_hellos :: nat
  br_rejected_peers :: nat
  br_last_halted :: "header option"
  br_halted_callback_error :: bool
  br_exchange_errors :: nat
  br_wire :: "(nat \<times> header \<times> bytes) list"
  br_halt :: halt_world
  br_sink :: 's

text \<open>The callbacks are code outside this module: each says whether it raised and how it changed the
  state it owns.\<close>

record 's callbacks =
  cb_hello :: "(header \<Rightarrow> 's \<Rightarrow> bool \<times> 's) option"
  cb_halted :: "(header \<Rightarrow> 's \<Rightarrow> bool \<times> 's) option"
  cb_exchange :: "(header \<Rightarrow> bytes \<Rightarrow> bytes \<Rightarrow> 's \<Rightarrow> bool \<times> 's) option"

definition DENYING_CONFIGURE_ERRORS :: "json list" where
  "DENYING_CONFIGURE_ERRORS = [JStr (u ''bad_config''), JStr (u ''protocol_mismatch'')]"

definition RESERVED_SEND_KEYS :: "pystr list" where
  "RESERVED_SEND_KEYS = [u ''v'', u ''t'', u ''id'', u ''deadline_us'', u ''engagement_id'']"

definition init_bridge :: "pystr \<Rightarrow> halt_world \<Rightarrow> 's \<Rightarrow> 's bridge" where
  "init_bridge engagement hw s =
     \<lparr>br_engagement = engagement, br_state = Waiting, br_epoch = 0, br_conn = None, br_gen = 0,
      br_pending = [], br_woken = [], br_replies = [], br_next_id = 0, br_hello = None,
      br_rejected_hellos = 0, br_rejected_peers = 0, br_last_halted = None,
      br_halted_callback_error = False, br_exchange_errors = 0, br_wire = [], br_halt = hw, br_sink = s\<rparr>"

text \<open>A header value as a dictionary key or against the number 1: \<open>True\<close> and \<open>1.0\<close> are 1 in Python.\<close>

definition as_id :: "json option \<Rightarrow> int option" where
  "as_id v = (case v of None \<Rightarrow> None | Some j \<Rightarrow> eq_int j)"

definition is_type :: "header \<Rightarrow> string \<Rightarrow> bool" where
  "is_type h t = (map_of h (u ''t'') = Some (JStr (u t)))"

definition get_json :: "header \<Rightarrow> string \<Rightarrow> json" where
  "get_json h k = (case map_of h (u k) of None \<Rightarrow> JNull | Some v \<Rightarrow> v)"

section \<open>Writing\<close>

definition br_send :: "bool \<Rightarrow> header \<Rightarrow> bytes \<Rightarrow> ('s bridge, bridge_exc, unit) prog" where
  "br_send io_ok header body w =
     (case br_conn w of
        None \<Rightarrow> (Inl (BridgeError (JStr (u ''bridge_lost''))), w)
      | Some c \<Rightarrow>
          (case encode header body of
             Inl e \<Rightarrow> (Inl (CodecError e), w)
           | Inr _ \<Rightarrow>
               if io_ok then (Inr (), w\<lparr>br_wire := br_wire w @ [(c, header, body)]\<rparr>)
               else (Inl (BridgeError (JStr (u ''bridge_lost''))), w)))"

definition halt_frame :: "pystr \<Rightarrow> header" where
  "halt_frame reason = [(u ''v'', JInt PROTOCOL_VERSION), (u ''t'', JStr (u ''halt'')), (u ''reason'', JStr reason)]"

definition resume_frame :: header where
  "resume_frame = [(u ''v'', JInt PROTOCOL_VERSION), (u ''t'', JStr (u ''resume''))]"

section \<open>The read thread\<close>

definition br_reset :: "nat option \<Rightarrow> 's bridge \<Rightarrow> 's bridge" where
  "br_reset gen w =
     (if gen \<noteq> None \<and> gen \<noteq> Some (br_gen w) then w
      else w\<lparr>br_gen := br_gen w + 1, br_state := Waiting, br_epoch := 0, br_conn := None,
             br_woken := br_woken w @ br_pending w, br_pending := [], br_replies := []\<rparr>)"

definition drop_header :: "header \<Rightarrow> header" where
  "drop_header header =
     (let drop = [(u ''v'', JInt PROTOCOL_VERSION), (u ''t'', JStr (u ''dropped'')), (u ''n'', JInt 1)] in
      case map_of header (u ''source'') of Some (JStr s) \<Rightarrow> dict_set (u ''source'') (JStr s) drop | _ \<Rightarrow> drop)"

definition count_as_dropped :: "'s callbacks \<Rightarrow> header \<Rightarrow> 's bridge \<Rightarrow> 's bridge" where
  "count_as_dropped cb header w =
     (if is_type header ''dropped'' then w
      else case cb_exchange cb of
             None \<Rightarrow> w
           | Some f \<Rightarrow>
               (case f (drop_header header) [] [] (br_sink w) of
                  (raised, s) \<Rightarrow>
                    w\<lparr>br_sink := s, br_exchange_errors := br_exchange_errors w + (if raised then 1 else 0)\<rparr>))"

lemma drop_header_fields: "is_type (drop_header h) ''dropped''" "map_of (drop_header h) (u ''n'') = Some (JInt 1)"
  by (simp_all add: drop_header_def is_type_def map_of_dict_set literals Let_def split: option.split json.split)

definition capture_frame :: "'s callbacks \<Rightarrow> header \<Rightarrow> bytes \<Rightarrow> 's bridge \<Rightarrow> 's bridge" where
  "capture_frame cb header body w =
     (case cb_exchange cb of
        None \<Rightarrow> w
      | Some f \<Rightarrow>
          (case (if is_type header ''exchange'' then split_bodies header body else Inr ([], [])) of
             Inl _ \<Rightarrow> count_as_dropped cb header (w\<lparr>br_exchange_errors := br_exchange_errors w + 1\<rparr>)
           | Inr (request, response) \<Rightarrow>
               (case f header request response (br_sink w) of
                  (False, s) \<Rightarrow> w\<lparr>br_sink := s\<rparr>
                | (True, s) \<Rightarrow>
                    count_as_dropped cb header
                      (w\<lparr>br_sink := s, br_exchange_errors := br_exchange_errors w + 1\<rparr>))))"

definition reassert_halt :: "bool \<Rightarrow> 's bridge \<Rightarrow> bool \<times> 's bridge" where
  "reassert_halt io_ok w =
     (if \<not> halted (fst (br_halt w)) (snd (br_halt w)) then (True, w)
      else
        let reason = (case halt_reason (fst (br_halt w)) (snd (br_halt w)) of
                        None \<Rightarrow> u ''halted, no reason recorded''
                      | Some r \<Rightarrow> if r = [] then u ''halted, no reason recorded'' else r)
        in case br_send io_ok (halt_frame reason) [] w of
             (Inl _, w') \<Rightarrow> (False, w')
           | (Inr _, w') \<Rightarrow> (True, w'\<lparr>br_state := Halted\<rparr>))"

definition deliver :: "header \<Rightarrow> bytes \<Rightarrow> 's bridge \<Rightarrow> 's bridge" where
  "deliver header body w =
     (case as_id (map_of header (u ''id'')) of
        None \<Rightarrow> w
      | Some i \<Rightarrow>
          if 0 \<le> i \<and> nat i \<in> set (br_pending w)
          then w\<lparr>br_replies := dict_set (nat i) (header, body) (br_replies w), br_woken := br_woken w @ [nat i]\<rparr>
          else w)"

text \<open>False, or an exception that leaves the handler, closes the connection.\<close>

definition handle :: "'s callbacks \<Rightarrow> bool \<Rightarrow> header \<Rightarrow> bytes \<Rightarrow> 's bridge \<Rightarrow> bool \<times> 's bridge" where
  "handle cb io_ok header body w =
     (if as_id (map_of header (u ''v'')) \<noteq> Some PROTOCOL_VERSION then (False, w)
      else if is_type header ''hello'' then
        (if map_of header (u ''engagement_id'') \<noteq> Some (JStr (br_engagement w))
         then (False, w\<lparr>br_rejected_hellos := br_rejected_hellos w + 1\<rparr>)
         else
           (case reassert_halt io_ok (w\<lparr>br_hello := Some header, br_state := Connected, br_epoch := 0\<rparr>) of
              (False, w') \<Rightarrow> (False, w')
            | (True, w') \<Rightarrow>
                (case cb_hello cb of
                   None \<Rightarrow> (True, w')
                 | Some f \<Rightarrow> (case f header (br_sink w') of (raised, s) \<Rightarrow> (\<not> raised, w'\<lparr>br_sink := s\<rparr>)))))
      else if is_type header ''halted'' then
        (let w' = w\<lparr>br_last_halted := Some header, br_state := Halted\<rparr> in
         case cb_halted cb of
           None \<Rightarrow> (True, w')
         | Some f \<Rightarrow>
             (case f header (br_sink w') of
                (False, s) \<Rightarrow> (True, w'\<lparr>br_sink := s\<rparr>)
              | (True, s) \<Rightarrow> (False, w'\<lparr>br_sink := s, br_halted_callback_error := True\<rparr>)))
      else if is_type header ''exchange'' \<or> is_type header ''denial'' \<or> is_type header ''dropped'' then
        (True, capture_frame cb header body w)
      else if is_type header ''configured'' then (True, deliver header body w)
      else if is_type header ''result'' \<or> is_type header ''error'' \<or> is_type header ''identity_registered'' then
        (True, deliver header body w)
      else (False, w))"

text \<open>\<open>_serve\<close>: a new connection, a frame on it, and its end. The generation of the connection being
  served is the one its \<open>_serve\<close> call took.\<close>

definition serve_begin :: "bool \<Rightarrow> 's bridge \<Rightarrow> 's bridge" where
  "serve_begin own_uid w =
     (let gen = br_gen w + 1; w' = w\<lparr>br_gen := gen, br_conn := Some gen\<rparr> in
      if own_uid then w'
      else br_reset (Some gen) (w'\<lparr>br_rejected_peers := br_rejected_peers w + 1\<rparr>))"

definition serve_frame :: "'s callbacks \<Rightarrow> bool \<Rightarrow> bytes \<Rightarrow> 's bridge \<Rightarrow> 's bridge" where
  "serve_frame cb io_ok frame w =
     (case br_conn w of
        None \<Rightarrow> w
      | Some gen \<Rightarrow>
          (case decode frame of
             Inl _ \<Rightarrow> br_reset (Some gen) w
           | Inr (header, body, _) \<Rightarrow>
               (case handle cb io_ok header body w of
                  (True, w') \<Rightarrow> w'
                | (False, w') \<Rightarrow> br_reset (Some gen) w')))"

section \<open>Requests\<close>

text \<open>\<open>_request\<close> in three stretches: take an id and register the waiter, put the frame on the wire, and
  collect the reply. A waiter whose event is not set can only time out; one woken by \<open>_reset\<close> finds no
  reply. A frame that cannot be sent leaves its waiter registered, as in the source.\<close>

definition request_register :: "'s bridge \<Rightarrow> nat \<times> 's bridge" where
  "request_register w =
     (let rid = br_next_id w + 1 in
      (rid, w\<lparr>br_next_id := rid, br_pending := br_pending w @ [rid]\<rparr>))"

definition stamp :: "nat \<Rightarrow> int \<Rightarrow> header \<Rightarrow> header" where
  "stamp rid deadline header =
     dict_set (u ''deadline_us'') (JInt deadline) (dict_set (u ''id'') (JInt (int rid)) header)"

definition request_collect :: "nat \<Rightarrow> ('s bridge, bridge_exc, reply) prog" where
  "request_collect rid w =
     (let w' = w\<lparr>br_pending := filter (\<lambda>r. r \<noteq> rid) (br_pending w)\<rparr> in
      if rid \<notin> set (br_woken w) then (Inl (BridgeError (JStr (u ''timeout''))), w')
      else case map_of (br_replies w) rid of
        None \<Rightarrow> (Inl (BridgeError (JStr (u ''bridge_lost''))), w')
      | Some reply \<Rightarrow> (Inr reply, w'\<lparr>br_replies := filter (\<lambda>(r, _). r \<noteq> rid) (br_replies w)\<rparr>))"

definition merge_header :: "header \<Rightarrow> header \<Rightarrow> header" where
  "merge_header base extra = fold (\<lambda>(k, v). dict_set k v) extra base"

definition configure_header :: "pystr \<Rightarrow> pystr \<Rightarrow> pystr \<Rightarrow> header" where
  "configure_header engagement scope_sha256 profile =
     [(u ''v'', JInt PROTOCOL_VERSION), (u ''t'', JStr (u ''configure'')), (u ''engagement_id'', JStr engagement),
      (u ''scope_sha256'', JStr scope_sha256), (u ''profile'', JStr profile)]"

definition identity_header :: "pystr \<Rightarrow> header" where
  "identity_header engagement =
     [(u ''v'', JInt PROTOCOL_VERSION), (u ''t'', JStr (u ''identity'')), (u ''engagement_id'', JStr engagement)]"

definition send_header :: "pystr \<Rightarrow> header \<Rightarrow> header" where
  "send_header engagement req =
     merge_header [(u ''v'', JInt PROTOCOL_VERSION), (u ''t'', JStr (u ''send'')),
       (u ''engagement_id'', JStr engagement)] req"

text \<open>What each caller checks before it registers, and what it makes of the reply.\<close>

definition configure_gate :: "'s bridge \<Rightarrow> bridge_exc + unit" where
  "configure_gate w =
     (if br_state w \<in> {Connected, Configured, Halted} then Inr () else Inl (BridgeError JNull))"

definition send_gate :: "bool \<Rightarrow> header \<Rightarrow> 's bridge \<Rightarrow> bridge_exc + unit" where
  "send_gate enforce_locally req w =
     (if \<exists>k \<in> set RESERVED_SEND_KEYS. map_of req k \<noteq> None then Inl (BridgeError JNull)
      else if enforce_locally \<and> halted (fst (br_halt w)) (snd (br_halt w)) then Inl (BridgeError (JStr (u ''halted'')))
      else if enforce_locally \<and> br_state w = Halted then Inl (BridgeError (JStr (u ''halted'')))
      else if enforce_locally \<and> br_state w \<noteq> Configured then Inl (BridgeError (JStr (u ''not_configured'')))
      else Inr ())"

definition same_connection :: "nat \<Rightarrow> 's bridge \<Rightarrow> bool" where
  "same_connection gen w \<longleftrightarrow> gen = br_gen w \<and> br_conn w \<noteq> None"

definition configure_finish :: "nat \<Rightarrow> reply \<Rightarrow> ('s bridge, bridge_exc, int) prog" where
  "configure_finish gen reply w =
     (if is_type (fst reply) ''error'' then
        (Inl (BridgeError JNull),
         if get_json (fst reply) ''class'' \<in> set DENYING_CONFIGURE_ERRORS \<and> same_connection gen w
         then w\<lparr>br_state := Connected, br_epoch := 0\<rparr> else w)
      else case map_of (fst reply) (u ''config_epoch'') of
        None \<Rightarrow> (Inl (BridgeError JNull), w)
      | Some v \<Rightarrow>
          if \<not> same_connection gen w then (Inl (BridgeError JNull), w)
          else case py_int v of
            None \<Rightarrow> (Inl ValueErr, w)
          | Some n \<Rightarrow>
              (Inr n, w\<lparr>br_epoch := n, br_state := (if br_state w = Halted then Halted else Configured)\<rparr>))"

definition identity_finish :: "reply \<Rightarrow> bridge_exc + unit" where
  "identity_finish reply =
     (if is_type (fst reply) ''identity_registered'' then Inr ()
      else if is_type (fst reply) ''error'' then Inl (BridgeError (get_json (fst reply) ''class''))
      else Inl (BridgeError JNull))"

definition send_finish :: "reply \<Rightarrow> bridge_exc + reply" where
  "send_finish reply =
     (if is_type (fst reply) ''result'' then Inr reply
      else if is_type (fst reply) ''error'' then Inl (BridgeError (get_json (fst reply) ''class''))
      else Inl (BridgeError JNull))"

text \<open>\<open>halt\<close> and \<open>resume\<close>: the durable record, the frame, and the commit under the lock.\<close>

definition halt_commit :: "nat \<Rightarrow> ('s bridge, bridge_exc, unit) prog" where
  "halt_commit gen w =
     (if \<not> same_connection gen w then (Inl (BridgeError JNull), w) else (Inr (), w\<lparr>br_state := Halted\<rparr>))"

definition resume_commit :: "nat \<Rightarrow> ('s bridge, bridge_exc, unit) prog" where
  "resume_commit gen w =
     (if \<not> same_connection gen w then (Inl (BridgeError JNull), w)
      else (Inr (), w\<lparr>br_state := (if br_epoch w \<noteq> 0 then Configured else Connected)\<rparr>))"

definition br_oh_halt :: "write_fault \<Rightarrow> bool \<Rightarrow> int \<Rightarrow> int \<Rightarrow> pystr \<Rightarrow> ('s bridge, bridge_exc, unit) prog" where
  "br_oh_halt fault db_ok now now' reason w =
     (case oh_halt fault db_ok now now' reason (br_halt w) of
        (Inl e, hw) \<Rightarrow> (Inl (HaltFailed e), w\<lparr>br_halt := hw\<rparr>)
      | (Inr _, hw) \<Rightarrow> (Inr (), w\<lparr>br_halt := hw\<rparr>))"

definition br_oh_resume :: "bool \<Rightarrow> bool \<Rightarrow> int \<Rightarrow> ('s bridge, bridge_exc, unit) prog" where
  "br_oh_resume db_ok unlink_ok now w =
     (case oh_resume db_ok unlink_ok now (br_halt w) of
        (Inl e, hw) \<Rightarrow> (Inl (HaltFailed e), w\<lparr>br_halt := hw\<rparr>)
      | (Inr _, hw) \<Rightarrow> (Inr (), w\<lparr>br_halt := hw\<rparr>))"

text \<open>The two methods run without another thread in between.\<close>

definition br_halt_op :: "write_fault \<Rightarrow> bool \<Rightarrow> int \<Rightarrow> int \<Rightarrow> bool \<Rightarrow> pystr \<Rightarrow> ('s bridge, bridge_exc, unit) prog" where
  "br_halt_op fault db_ok now now' io_ok reason =
     sbind (br_oh_halt fault db_ok now now' reason) (\<lambda>_ w.
       sbind (br_send io_ok (halt_frame reason) []) (\<lambda>_. halt_commit (br_gen w)) w)"

definition br_resume_op :: "bool \<Rightarrow> bool \<Rightarrow> bool \<Rightarrow> int \<Rightarrow> ('s bridge, bridge_exc, unit) prog" where
  "br_resume_op io_ok db_ok unlink_ok now w =
     sbind (br_send io_ok resume_frame []) (\<lambda>_.
       sbind (resume_commit (br_gen w)) (\<lambda>_. br_oh_resume db_ok unlink_ok now)) w"

section \<open>The interleaved system\<close>

datatype call_kind =
    CConfigure | CIdentity | CSend bool
  | CHaltFrame pystr | CHaltCommit | CResumeCommit | CResumeDisarm

text \<open>A call in flight: the generation it captured, its waiter's id, its frame, and whether that frame
  has been handed to the socket.\<close>

record call =
  c_kind :: call_kind
  c_gen :: nat
  c_rid :: nat
  c_header :: header
  c_body :: bytes
  c_sent :: bool

record 's system =
  sys_bridge :: "'s bridge"
  sys_calls :: "call list"

datatype event =
    EvAccept bool
  | EvFrame bool bytes
  | EvPeerGone
  | EvSend bool header bytes int
  | EvConfigure pystr pystr bytes int
  | EvIdentity bytes int
  | EvTransmit bool nat
  | EvCollect nat
  | EvHalt write_fault bool int int pystr
  | EvHaltFrame bool nat
  | EvHaltCommit nat
  | EvResumeFrame bool
  | EvResumeCommit nat
  | EvResumeDisarm bool bool int nat
  | EvSentinel "pystr option" bool bool

definition drop_call :: "nat \<Rightarrow> call list \<Rightarrow> call list" where
  "drop_call i cs = take i cs @ drop (Suc i) cs"

definition start_request :: "call_kind \<Rightarrow> header \<Rightarrow> bytes \<Rightarrow> int \<Rightarrow> 's system \<Rightarrow> 's system" where
  "start_request kind header body deadline \<sigma> =
     (case request_register (sys_bridge \<sigma>) of
        (rid, w) \<Rightarrow>
          \<sigma>\<lparr>sys_bridge := w,
            sys_calls := sys_calls \<sigma> @ [\<lparr>c_kind = kind, c_gen = br_gen w, c_rid = rid,
              c_header = stamp rid deadline header, c_body = body, c_sent = False\<rparr>]\<rparr>)"

definition finish_call :: "call \<Rightarrow> 's bridge \<Rightarrow> 's bridge" where
  "finish_call c w =
     (case request_collect (c_rid c) w of
        (Inl _, w') \<Rightarrow> w'
      | (Inr reply, w') \<Rightarrow>
          (case c_kind c of CConfigure \<Rightarrow> snd (configure_finish (c_gen c) reply w') | _ \<Rightarrow> w'))"

definition is_request :: "call_kind \<Rightarrow> bool" where
  "is_request k = (case k of CConfigure \<Rightarrow> True | CIdentity \<Rightarrow> True | CSend _ \<Rightarrow> True | _ \<Rightarrow> False)"

definition frame_call :: "call_kind \<Rightarrow> nat \<Rightarrow> call" where
  "frame_call kind gen = \<lparr>c_kind = kind, c_gen = gen, c_rid = 0, c_header = [], c_body = [], c_sent = True\<rparr>"

fun step :: "'s callbacks \<Rightarrow> event \<Rightarrow> 's system \<Rightarrow> 's system" where
  "step cb (EvAccept own_uid) \<sigma> =
     (if br_conn (sys_bridge \<sigma>) = None then \<sigma>\<lparr>sys_bridge := serve_begin own_uid (sys_bridge \<sigma>)\<rparr> else \<sigma>)"
| "step cb (EvFrame io_ok frame) \<sigma> = \<sigma>\<lparr>sys_bridge := serve_frame cb io_ok frame (sys_bridge \<sigma>)\<rparr>"
| "step cb EvPeerGone \<sigma> =
     (if br_conn (sys_bridge \<sigma>) = None then \<sigma>
      else \<sigma>\<lparr>sys_bridge := br_reset (br_conn (sys_bridge \<sigma>)) (sys_bridge \<sigma>)\<rparr>)"
| "step cb (EvSend enforce_locally req body deadline) \<sigma> =
     (case send_gate enforce_locally req (sys_bridge \<sigma>) of
        Inl _ \<Rightarrow> \<sigma>
      | Inr _ \<Rightarrow> start_request (CSend enforce_locally) (send_header (br_engagement (sys_bridge \<sigma>)) req) body deadline \<sigma>)"
| "step cb (EvConfigure scope_sha256 profile body deadline) \<sigma> =
     (case configure_gate (sys_bridge \<sigma>) of
        Inl _ \<Rightarrow> \<sigma>
      | Inr _ \<Rightarrow> start_request CConfigure (configure_header (br_engagement (sys_bridge \<sigma>)) scope_sha256 profile) body deadline \<sigma>)"
| "step cb (EvIdentity body deadline) \<sigma> =
     start_request CIdentity (identity_header (br_engagement (sys_bridge \<sigma>))) body deadline \<sigma>"
| "step cb (EvTransmit io_ok i) \<sigma> =
     (if i < length (sys_calls \<sigma>) \<and> is_request (c_kind (sys_calls \<sigma> ! i)) \<and> \<not> c_sent (sys_calls \<sigma> ! i) then
        (let c = sys_calls \<sigma> ! i in
         case br_send io_ok (c_header c) (c_body c) (sys_bridge \<sigma>) of
           (Inl _, w) \<Rightarrow> \<sigma>\<lparr>sys_bridge := w, sys_calls := drop_call i (sys_calls \<sigma>)\<rparr>
         | (Inr _, w) \<Rightarrow> \<sigma>\<lparr>sys_bridge := w, sys_calls := (sys_calls \<sigma>)[i := c\<lparr>c_sent := True\<rparr>]\<rparr>)
      else \<sigma>)"
| "step cb (EvCollect i) \<sigma> =
     (if i < length (sys_calls \<sigma>) \<and> is_request (c_kind (sys_calls \<sigma> ! i)) \<and> c_sent (sys_calls \<sigma> ! i) then
        \<sigma>\<lparr>sys_bridge := finish_call (sys_calls \<sigma> ! i) (sys_bridge \<sigma>), sys_calls := drop_call i (sys_calls \<sigma>)\<rparr>
      else \<sigma>)"
| "step cb (EvHalt fault db_ok now now' reason) \<sigma> =
     (case br_oh_halt fault db_ok now now' reason (sys_bridge \<sigma>) of
        (Inl _, w) \<Rightarrow> \<sigma>\<lparr>sys_bridge := w\<rparr>
      | (Inr _, w) \<Rightarrow> \<sigma>\<lparr>sys_bridge := w, sys_calls := sys_calls \<sigma> @ [frame_call (CHaltFrame reason) (br_gen w)]\<rparr>)"
| "step cb (EvHaltFrame io_ok i) \<sigma> =
     (if i < length (sys_calls \<sigma>) then
        (case c_kind (sys_calls \<sigma> ! i) of
           CHaltFrame reason \<Rightarrow>
             (case br_send io_ok (halt_frame reason) [] (sys_bridge \<sigma>) of
                (Inl _, w) \<Rightarrow> \<sigma>\<lparr>sys_bridge := w, sys_calls := drop_call i (sys_calls \<sigma>)\<rparr>
              | (Inr _, w) \<Rightarrow> \<sigma>\<lparr>sys_bridge := w,
                  sys_calls := (sys_calls \<sigma>)[i := frame_call CHaltCommit (c_gen (sys_calls \<sigma> ! i))]\<rparr>)
         | _ \<Rightarrow> \<sigma>)
      else \<sigma>)"
| "step cb (EvHaltCommit i) \<sigma> =
     (if i < length (sys_calls \<sigma>) \<and> c_kind (sys_calls \<sigma> ! i) = CHaltCommit then
        \<sigma>\<lparr>sys_bridge := snd (halt_commit (c_gen (sys_calls \<sigma> ! i)) (sys_bridge \<sigma>)),
          sys_calls := drop_call i (sys_calls \<sigma>)\<rparr>
      else \<sigma>)"
| "step cb (EvResumeFrame io_ok) \<sigma> =
     (case br_send io_ok resume_frame [] (sys_bridge \<sigma>) of
        (Inl _, w) \<Rightarrow> \<sigma>\<lparr>sys_bridge := w\<rparr>
      | (Inr _, w) \<Rightarrow> \<sigma>\<lparr>sys_bridge := w,
          sys_calls := sys_calls \<sigma> @ [frame_call CResumeCommit (br_gen (sys_bridge \<sigma>))]\<rparr>)"
| "step cb (EvResumeCommit i) \<sigma> =
     (if i < length (sys_calls \<sigma>) \<and> c_kind (sys_calls \<sigma> ! i) = CResumeCommit then
        (case resume_commit (c_gen (sys_calls \<sigma> ! i)) (sys_bridge \<sigma>) of
           (Inl _, w) \<Rightarrow> \<sigma>\<lparr>sys_bridge := w, sys_calls := drop_call i (sys_calls \<sigma>)\<rparr>
         | (Inr _, w) \<Rightarrow> \<sigma>\<lparr>sys_bridge := w, sys_calls := (sys_calls \<sigma>)[i := frame_call CResumeDisarm 0]\<rparr>)
      else \<sigma>)"
| "step cb (EvResumeDisarm db_ok unlink_ok now i) \<sigma> =
     (if i < length (sys_calls \<sigma>) \<and> c_kind (sys_calls \<sigma> ! i) = CResumeDisarm then
        \<sigma>\<lparr>sys_bridge := snd (br_oh_resume db_ok unlink_ok now (sys_bridge \<sigma>)),
          sys_calls := drop_call i (sys_calls \<sigma>)\<rparr>
      else \<sigma>)"
| "step cb (EvSentinel text stat_ok read_ok) \<sigma> =
     \<sigma>\<lparr>sys_bridge := (sys_bridge \<sigma>)\<lparr>br_halt := (fst (br_halt (sys_bridge \<sigma>)),
         (snd (br_halt (sys_bridge \<sigma>)))\<lparr>dir_sentinel := text, dir_stat_ok := stat_ok, dir_read_ok := read_ok\<rparr>)\<rparr>\<rparr>"

definition run_events :: "'s callbacks \<Rightarrow> event list \<Rightarrow> 's system \<Rightarrow> 's system" where
  "run_events cb evs = fold (step cb) evs"

text \<open>The states the system can reach, as an inductive predicate.\<close>

inductive reachable :: "'s callbacks \<Rightarrow> 's system \<Rightarrow> 's system \<Rightarrow> bool" for cb where
  here: "reachable cb \<sigma> \<sigma>"
| step: "reachable cb \<sigma> \<sigma>' \<Longrightarrow> reachable cb \<sigma> (step cb e \<sigma>')"

end
