(* ===== verification/Bridge_Safety.thy ===== *)
theory Bridge_Safety
  imports Bridge
begin

text \<open>
  What the bridge guarantees under every interleaving of its threads with the peer: the shape of a
  disconnected bridge, the reach of an operator halt, the order of halt and configuration after a
  hello, commits that do not cross a reconnect, and capture frames that are recorded or counted.
\<close>

section \<open>The connection invariant\<close>

definition bridge_inv :: "'s bridge \<Rightarrow> bool" where
  "bridge_inv w \<longleftrightarrow>
     (br_conn w = None \<longrightarrow> br_state w = Waiting \<and> br_epoch w = 0) \<and>
     (\<forall>g. br_conn w = Some g \<longrightarrow> g = br_gen w)"

named_theorems bridge_steps \<open>the fields the stretches of the bridge change\<close>

lemma br_send_frame [bridge_steps]:
  assumes "br_send io_ok h body w = (r, w')"
  shows "w' = w\<lparr>br_wire := br_wire w'\<rparr>" "r = Inr () \<Longrightarrow> br_conn w \<noteq> None"
  using assms by (auto simp: br_send_def split: option.splits sum.splits if_splits)

lemma br_send_wire:
  "br_send io_ok h body w = (r, w') \<Longrightarrow>
    br_wire w' = br_wire w @ (if r = Inr () then [(the (br_conn w), h, body)] else [])"
  by (auto simp: br_send_def split: option.splits sum.splits if_splits)

lemma bridge_inv_br_send: "bridge_inv w \<Longrightarrow> br_send io_ok h body w = (r, w') \<Longrightarrow> bridge_inv w'"
  by (auto simp: br_send_def bridge_inv_def split: option.splits sum.splits if_splits)

lemma bridge_inv_reset: "bridge_inv w \<Longrightarrow> bridge_inv (br_reset g w)"
  by (auto simp: bridge_inv_def br_reset_def)

lemma count_as_dropped_fields [simp]:
  "br_conn (count_as_dropped cb h w) = br_conn w" "br_state (count_as_dropped cb h w) = br_state w"
  "br_epoch (count_as_dropped cb h w) = br_epoch w" "br_gen (count_as_dropped cb h w) = br_gen w"
  "br_wire (count_as_dropped cb h w) = br_wire w" "br_halt (count_as_dropped cb h w) = br_halt w"
  "br_pending (count_as_dropped cb h w) = br_pending w" "br_next_id (count_as_dropped cb h w) = br_next_id w"
  by (simp_all add: count_as_dropped_def Let_def split: option.split prod.split)

lemma capture_frame_fields [simp]:
  "br_conn (capture_frame cb h body w) = br_conn w" "br_state (capture_frame cb h body w) = br_state w"
  "br_epoch (capture_frame cb h body w) = br_epoch w" "br_gen (capture_frame cb h body w) = br_gen w"
  "br_wire (capture_frame cb h body w) = br_wire w" "br_halt (capture_frame cb h body w) = br_halt w"
  "br_pending (capture_frame cb h body w) = br_pending w" "br_next_id (capture_frame cb h body w) = br_next_id w"
  by (simp_all add: capture_frame_def split: option.split prod.split sum.split bool.split)

lemma deliver_fields [simp]:
  "br_conn (deliver h body w) = br_conn w" "br_state (deliver h body w) = br_state w"
  "br_epoch (deliver h body w) = br_epoch w" "br_gen (deliver h body w) = br_gen w"
  "br_wire (deliver h body w) = br_wire w" "br_halt (deliver h body w) = br_halt w"
  by (simp_all add: deliver_def split: option.split)

lemma reassert_halt_fields:
  assumes "reassert_halt io_ok w = (ok, w')"
  shows "br_conn w' = br_conn w" "br_epoch w' = br_epoch w" "br_gen w' = br_gen w" "br_halt w' = br_halt w"
    "br_sink w' = br_sink w" "br_state w' = br_state w \<or> br_state w' = Halted \<and> br_conn w \<noteq> None"
  using assms
  by (auto simp: reassert_halt_def Let_def br_send_def split: if_splits option.splits sum.splits prod.splits)

text \<open>The handler runs on an open connection and leaves it open; only the durable halt is beyond it.\<close>

lemma handle_fields:
  assumes "handle cb io_ok h body w = (ok, w')"
  shows "br_conn w' = br_conn w" "br_gen w' = br_gen w" "br_halt w' = br_halt w"
proof -
  obtain ok1 w1 where r: "reassert_halt io_ok (w\<lparr>br_hello := Some h, br_state := Connected, br_epoch := 0\<rparr>) = (ok1, w1)"
    by fastforce
  show "br_conn w' = br_conn w" "br_gen w' = br_gen w" "br_halt w' = br_halt w"
    using assms reassert_halt_fields(1,3,4) [OF r]
    by (auto simp: handle_def Let_def r split: if_splits option.splits prod.splits bool.splits)
qed

lemma bridge_inv_handle:
  "bridge_inv w \<Longrightarrow> br_conn w \<noteq> None \<Longrightarrow> handle cb io_ok h body w = (ok, w') \<Longrightarrow> bridge_inv w'"
  using handle_fields [of cb io_ok h body w ok w'] by (auto simp: bridge_inv_def)

lemma bridge_inv_serve_frame: "bridge_inv w \<Longrightarrow> bridge_inv (serve_frame cb io_ok frame w)"
  using bridge_inv_handle
  by (fastforce simp: serve_frame_def intro: bridge_inv_reset split: option.split sum.split prod.split bool.split)

lemma bridge_inv_serve_begin: "br_conn w = None \<Longrightarrow> bridge_inv w \<Longrightarrow> bridge_inv (serve_begin own w)"
  by (auto simp: serve_begin_def Let_def bridge_inv_def br_reset_def)

lemma request_collect_fields:
  assumes "request_collect rid w = (r, w')"
  shows "br_conn w' = br_conn w" "br_state w' = br_state w" "br_epoch w' = br_epoch w" "br_gen w' = br_gen w"
    "br_wire w' = br_wire w" "br_halt w' = br_halt w"
  using assms by (auto simp: request_collect_def Let_def split: if_splits option.splits)

lemma configure_finish_fields:
  assumes "configure_finish gen reply w = (r, w')"
  shows "br_conn w' = br_conn w" "br_gen w' = br_gen w" "br_wire w' = br_wire w" "br_halt w' = br_halt w"
    "br_state w' \<noteq> br_state w \<or> br_epoch w' \<noteq> br_epoch w \<Longrightarrow> same_connection gen w"
  using assms by (auto simp: configure_finish_def split: if_splits option.splits)

lemma finish_call_fields:
  "br_conn (finish_call c w) = br_conn w" "br_gen (finish_call c w) = br_gen w"
  "br_wire (finish_call c w) = br_wire w" "br_halt (finish_call c w) = br_halt w"
  "br_state (finish_call c w) \<noteq> br_state w \<or> br_epoch (finish_call c w) \<noteq> br_epoch w \<Longrightarrow> same_connection (c_gen c) w"
proof -
  obtain r w1 where r: "request_collect (c_rid c) w = (r, w1)" by fastforce
  note f = request_collect_fields [OF r]
  obtain r2 w2 where r2: "configure_finish (c_gen c) (projr r) w1 = (r2, w2)" by fastforce
  note g = configure_finish_fields [OF r2]
  have eq: "finish_call c w = (if isl r then w1 else if c_kind c = CConfigure then w2 else w1)"
    using r r2 by (cases r; cases "c_kind c") (simp_all add: finish_call_def)
  show "br_conn (finish_call c w) = br_conn w" "br_gen (finish_call c w) = br_gen w"
    "br_wire (finish_call c w) = br_wire w" "br_halt (finish_call c w) = br_halt w"
    using f g by (simp_all add: eq)
  show "br_state (finish_call c w) \<noteq> br_state w \<or> br_epoch (finish_call c w) \<noteq> br_epoch w
      \<Longrightarrow> same_connection (c_gen c) w"
    using f g by (auto simp: eq same_connection_def split: if_splits)
qed

lemma bridge_inv_finish_call: "bridge_inv w \<Longrightarrow> bridge_inv (finish_call c w)"
  using finish_call_fields(1,2) [of c w] finish_call_fields(5) [of c w]
  by (cases "br_conn w") (auto simp: bridge_inv_def same_connection_def)

lemma commit_fields:
  "br_conn (snd (halt_commit g w)) = br_conn w" "br_gen (snd (halt_commit g w)) = br_gen w"
  "br_wire (snd (halt_commit g w)) = br_wire w" "br_halt (snd (halt_commit g w)) = br_halt w"
  "br_conn (snd (resume_commit g w)) = br_conn w" "br_gen (snd (resume_commit g w)) = br_gen w"
  "br_wire (snd (resume_commit g w)) = br_wire w" "br_halt (snd (resume_commit g w)) = br_halt w"
  by (simp_all add: halt_commit_def resume_commit_def)

lemma bridge_inv_commit:
  "bridge_inv w \<Longrightarrow> bridge_inv (snd (halt_commit g w))" "bridge_inv w \<Longrightarrow> bridge_inv (snd (resume_commit g w))"
  by (cases "br_conn w"; simp add: bridge_inv_def halt_commit_def resume_commit_def same_connection_def)+

lemma durable_halt_fields:
  assumes "br_oh_halt f d n n' reason w = (r, w')"
  shows "br_conn w' = br_conn w" "br_gen w' = br_gen w" "br_wire w' = br_wire w" "br_state w' = br_state w"
    "br_epoch w' = br_epoch w"
  using assms
  by (cases "oh_halt f d n n' reason (br_halt w)"; cases "fst (oh_halt f d n n' reason (br_halt w))",
      auto simp: br_oh_halt_def)+

lemma durable_resume_fields [simp]:
  "br_conn (snd (br_oh_resume d ul n w)) = br_conn w" "br_gen (snd (br_oh_resume d ul n w)) = br_gen w"
  "br_wire (snd (br_oh_resume d ul n w)) = br_wire w" "br_state (snd (br_oh_resume d ul n w)) = br_state w"
  "br_epoch (snd (br_oh_resume d ul n w)) = br_epoch w"
  by (simp_all add: br_oh_resume_def split: prod.split sum.split)

lemma bridge_inv_same:
  "bridge_inv w \<Longrightarrow> br_conn w' = br_conn w \<Longrightarrow> br_gen w' = br_gen w \<Longrightarrow> br_state w' = br_state w
    \<Longrightarrow> br_epoch w' = br_epoch w \<Longrightarrow> bridge_inv w'"
  by (simp add: bridge_inv_def)

lemma start_request_fields:
  "br_conn (sys_bridge (start_request k h body d \<sigma>)) = br_conn (sys_bridge \<sigma>)"
  "br_gen (sys_bridge (start_request k h body d \<sigma>)) = br_gen (sys_bridge \<sigma>)"
  "br_state (sys_bridge (start_request k h body d \<sigma>)) = br_state (sys_bridge \<sigma>)"
  "br_epoch (sys_bridge (start_request k h body d \<sigma>)) = br_epoch (sys_bridge \<sigma>)"
  "br_wire (sys_bridge (start_request k h body d \<sigma>)) = br_wire (sys_bridge \<sigma>)"
  "br_halt (sys_bridge (start_request k h body d \<sigma>)) = br_halt (sys_bridge \<sigma>)"
  by (simp_all add: start_request_def request_register_def Let_def)

lemma bridge_inv_start_request:
  "bridge_inv (sys_bridge \<sigma>) \<Longrightarrow> bridge_inv (sys_bridge (start_request k h body d \<sigma>))"
  by (erule bridge_inv_same) (simp_all add: start_request_fields)

lemma bridge_inv_step: 
  assumes "bridge_inv (sys_bridge \<sigma>)"
  shows "bridge_inv (sys_bridge (step cb e \<sigma>))"
proof (cases e)
  case (EvHalt f d n n' r)
  obtain q w where "br_oh_halt f d n n' r (sys_bridge \<sigma>) = (q, w)" by fastforce
  with EvHalt assms bridge_inv_same [OF assms, of w] durable_halt_fields [OF this] show ?thesis
    by (cases q) auto
next
  case (EvResumeDisarm d ul n i)
  then show ?thesis using assms bridge_inv_same [OF assms, of "snd (br_oh_resume d ul n (sys_bridge \<sigma>))"] by auto
next
  case (EvHaltFrame io i)
  show ?thesis
  proof (cases "c_kind (sys_calls \<sigma> ! i)")
    case (CHaltFrame r)
    obtain q w where "br_send io (halt_frame r) [] (sys_bridge \<sigma>) = (q, w)" by fastforce
    with EvHaltFrame CHaltFrame assms bridge_inv_br_send [OF assms this] show ?thesis
      by (cases q) auto
  qed (use EvHaltFrame assms in simp_all)
next
  case (EvResumeFrame io)
  obtain q w where "br_send io resume_frame [] (sys_bridge \<sigma>) = (q, w)" by fastforce
  with EvResumeFrame assms bridge_inv_br_send [OF assms this] show ?thesis
    by (cases q) auto
next
  case (EvTransmit io i)
  obtain q w where "br_send io (c_header (sys_calls \<sigma> ! i)) (c_body (sys_calls \<sigma> ! i)) (sys_bridge \<sigma>) = (q, w)" by fastforce
  with EvTransmit assms bridge_inv_br_send [OF assms this] show ?thesis
    by (cases q) (auto simp: Let_def)
next
  case (EvResumeCommit i)
  obtain q w where "resume_commit (c_gen (sys_calls \<sigma> ! i)) (sys_bridge \<sigma>) = (q, w)" by fastforce
  with EvResumeCommit assms bridge_inv_commit(2) [OF assms, of "c_gen (sys_calls \<sigma> ! i)"] show ?thesis
    by (cases q) auto
qed (use assms in \<open>auto simp: bridge_inv_commit bridge_inv_finish_call bridge_inv_serve_frame
    bridge_inv_serve_begin bridge_inv_reset bridge_inv_start_request bridge_inv_same split: sum.split\<close>)

lemma bridge_inv_init: "bridge_inv (init_bridge e hw s)"
  by (simp add: bridge_inv_def init_bridge_def)

lemma bridge_inv_reachable: "reachable cb \<sigma> \<sigma>' \<Longrightarrow> bridge_inv (sys_bridge \<sigma>) \<Longrightarrow> bridge_inv (sys_bridge \<sigma>')"
  by (induction rule: reachable.induct) (auto intro: bridge_inv_step)

lemma run_events_reachable: "reachable cb \<sigma> (run_events cb evs \<sigma>)"
proof (induction evs rule: rev_induct)
  case Nil
  show ?case by (simp add: run_events_def reachable.here)
next
  case (snoc e evs)
  then show ?case using reachable.step [of cb \<sigma> "run_events cb evs \<sigma>" e] by (simp add: run_events_def)
qed

section \<open>The reach of an operator halt\<close>

definition armed :: "'s system \<Rightarrow> bool" where
  "armed \<sigma> = oh_armed (fst (br_halt (sys_bridge \<sigma>)))"

fun changes_halt :: "event \<Rightarrow> bool" where
  "changes_halt (EvHalt _ _ _ _ _) = True"
| "changes_halt (EvResumeDisarm _ _ _ _) = True"
| "changes_halt (EvSentinel _ _ _) = True"
| "changes_halt _ = False"

fun disarms :: "event \<Rightarrow> bool" where
  "disarms (EvResumeDisarm _ _ _ _) = True"
| "disarms _ = False"

fun unenforced :: "event \<Rightarrow> bool" where
  "unenforced (EvSend enforce_locally _ _ _) = (\<not> enforce_locally)"
| "unenforced _ = False"

lemma br_send_halt: "br_send io_ok h body w = (r, w') \<Longrightarrow> br_halt w' = br_halt w"
  by (auto simp: br_send_def split: option.splits sum.splits if_splits)

lemma br_reset_fields [simp]: "br_halt (br_reset g w) = br_halt w" "br_wire (br_reset g w) = br_wire w"
  by (simp_all add: br_reset_def)

lemma serve_fields [simp]:
  "br_halt (serve_begin own w) = br_halt w" "br_wire (serve_begin own w) = br_wire w"
  by (simp_all add: serve_begin_def Let_def)

lemma serve_frame_halt [simp]: "br_halt (serve_frame cb io_ok frame w) = br_halt w"
  by (auto simp: serve_frame_def split: option.split sum.split prod.split bool.split dest!: handle_fields(3))

lemma step_keeps_halt: "\<not> changes_halt e \<Longrightarrow> br_halt (sys_bridge (step cb e \<sigma>)) = br_halt (sys_bridge \<sigma>)"
  by (cases e)
    (auto simp: Let_def start_request_fields finish_call_fields commit_fields resume_commit_def
      split: prod.split sum.split call_kind.split dest!: br_send_halt)

lemma oh_halt_armed: "oh_halt f d n n' reason hw = (r, hw') \<Longrightarrow> oh_armed (fst hw) \<Longrightarrow> oh_armed (fst hw')"
  by (auto simp: oh_halt_def insert_action_def split: prod.splits sum.splits if_splits)

lemma armed_step: "armed \<sigma> \<Longrightarrow> \<not> disarms e \<Longrightarrow> armed (step cb e \<sigma>)"
proof (cases "changes_halt e")
  case True
  assume a: "armed \<sigma>" "\<not> disarms e"
  from True a(2) consider f d n n' r where "e = EvHalt f d n n' r" | t so ro where "e = EvSentinel t so ro"
    by (cases e) auto
  then show ?thesis
  proof cases
    case 1
    obtain q hw where h: "oh_halt f d n n' r (br_halt (sys_bridge \<sigma>)) = (q, hw)"
      by (cases "oh_halt f d n n' r (br_halt (sys_bridge \<sigma>))")
    with a oh_halt_armed [OF h] 1 show ?thesis by (cases q) (auto simp: armed_def br_oh_halt_def)
  qed (use a in \<open>simp add: armed_def\<close>)
qed (simp add: armed_def step_keeps_halt)

text \<open>No frame but a call's own can be a \<open>send\<close> frame, and a send call started under local enforcement
  has passed the gate.\<close>

lemma stamp_type [simp]: "is_type (stamp rid d h) t = is_type h t"
  by (simp add: is_type_def stamp_def map_of_dict_set literals)

lemma not_send [simp]:
  "\<not> is_type (configure_header e sc pr) ''send''" "\<not> is_type (identity_header e) ''send''"
  "\<not> is_type (halt_frame r) ''send''" "\<not> is_type resume_frame ''send''" "\<not> is_type [] ''send''"
  by (simp_all add: is_type_def configure_header_def identity_header_def halt_frame_def resume_frame_def literals)

definition send_frames :: "'s bridge \<Rightarrow> header set" where
  "send_frames w = {h. \<exists>c body. (c, h, body) \<in> set (br_wire w) \<and> is_type h ''send''}"

definition send_calls :: "'s system \<Rightarrow> header set" where
  "send_calls \<sigma> = {c_header c | c. c \<in> set (sys_calls \<sigma>) \<and> is_type (c_header c) ''send''}"

lemma send_frames_cong: "br_wire w' = br_wire w \<Longrightarrow> send_frames w' = send_frames w"
  by (simp add: send_frames_def)

lemma send_frames_br_send:
  "br_send io_ok h body w = (r, w') \<Longrightarrow> send_frames w' \<subseteq> send_frames w \<union> (if is_type h ''send'' then {h} else {})"
  by (frule br_send_wire) (auto simp: send_frames_def split: if_splits)

lemma send_frames_handle: "handle cb io_ok h body w = (ok, w') \<Longrightarrow> send_frames w' \<subseteq> send_frames w"
proof -
  assume a: "handle cb io_ok h body w = (ok, w')"
  let ?w = "w\<lparr>br_hello := Some h, br_state := Connected, br_epoch := 0\<rparr>"
  obtain ok1 w1 where r: "reassert_halt io_ok ?w = (ok1, w1)" by fastforce
  have "send_frames w1 \<subseteq> send_frames w"
  proof (cases "halted (fst (br_halt w)) (snd (br_halt w))")
    case True
    define reason where "reason = (case halt_reason (fst (br_halt w)) (snd (br_halt w)) of
        None \<Rightarrow> u ''halted, no reason recorded''
      | Some r \<Rightarrow> if r = [] then u ''halted, no reason recorded'' else r)"
    obtain q w2 where s: "br_send io_ok (halt_frame reason) [] ?w = (q, w2)" by fastforce
    have "send_frames w2 \<subseteq> send_frames w" using send_frames_br_send [OF s] by (simp add: send_frames_def)
    moreover have "br_wire w1 = br_wire w2"
      using r s True by (cases q) (auto simp: reassert_halt_def Let_def simp flip: reason_def)
    ultimately show ?thesis by (simp add: send_frames_def)
  next
    case False
    with r have "br_wire w1 = br_wire w" by (auto simp: reassert_halt_def)
    then show ?thesis by (simp add: send_frames_def)
  qed
  moreover have "br_wire w' = br_wire w \<or> br_wire w' = br_wire w1"
    using a by (auto simp: handle_def Let_def r split: if_splits option.splits prod.splits bool.splits)
  ultimately show ?thesis using send_frames_cong [of w' w] send_frames_cong [of w' w1] by auto
qed

lemma send_frames_serve: "send_frames (serve_frame cb io_ok frame w) \<subseteq> send_frames w"
proof -
  have r: "send_frames (br_reset g v) = send_frames v" for g and v :: "'a bridge" by (simp add: send_frames_def)
  show ?thesis
  proof (cases "br_conn w = None \<or> (\<exists>x. decode frame = Inl x)")
    case True
    then show ?thesis by (auto simp: serve_frame_def r split: option.split)
  next
    case False
    then obtain g h body n where f: "br_conn w = Some g" "decode frame = Inr (h, body, n)"
      by (cases "decode frame") auto
    obtain ok w' where "handle cb io_ok h body w = (ok, w')" by fastforce
    with f send_frames_handle [OF this] show ?thesis by (cases ok) (simp_all add: serve_frame_def r)
  qed
qed

lemma set_drop_call: "c \<in> set (drop_call i cs) \<Longrightarrow> c \<in> set cs"
  by (auto simp: drop_call_def dest: in_set_takeD in_set_dropD)

lemma send_calls_drop: "sys_calls \<sigma>' = drop_call i (sys_calls \<sigma>) \<Longrightarrow> send_calls \<sigma>' \<subseteq> send_calls \<sigma>"
  by (auto simp: send_calls_def dest!: set_drop_call)

lemma send_calls_update:
  "sys_calls \<sigma>' = (sys_calls \<sigma>)[i := c] \<Longrightarrow> \<not> is_type (c_header c) ''send'' \<or> c_header c \<in> send_calls \<sigma>
    \<Longrightarrow> send_calls \<sigma>' \<subseteq> send_calls \<sigma>"
  by (auto simp: send_calls_def dest!: set_update_subset_insert [THEN subsetD])

lemma frame_call_header [simp]: "c_header (frame_call k g) = []"
  by (simp add: frame_call_def)

lemma gate_closed: "armed \<sigma> \<Longrightarrow> \<exists>e. send_gate True req (sys_bridge \<sigma>) = Inl e"
  by (auto simp: send_gate_def armed_def halted_def)

lemma sends_step:
  assumes "armed \<sigma>" "\<not> unenforced e"
  shows "send_calls (step cb e \<sigma>) \<subseteq> send_calls \<sigma>
    \<and> send_frames (sys_bridge (step cb e \<sigma>)) \<subseteq> send_frames (sys_bridge \<sigma>) \<union> send_calls \<sigma>"
proof (cases e)
  case (EvSend enforce req body d)
  with assms gate_closed [OF assms(1), of req] show ?thesis by auto
next
  case (EvTransmit io i)
  show ?thesis
  proof (cases "i < length (sys_calls \<sigma>) \<and> is_request (c_kind (sys_calls \<sigma> ! i)) \<and> \<not> c_sent (sys_calls \<sigma> ! i)")
    case True
    define c where "c = sys_calls \<sigma> ! i"
    obtain q w where s: "br_send io (c_header c) (c_body c) (sys_bridge \<sigma>) = (q, w)" by fastforce
    have c: "c \<in> set (sys_calls \<sigma>)" using True by (simp add: c_def)
    then have "is_type (c_header c) ''send'' \<Longrightarrow> c_header c \<in> send_calls \<sigma>" by (auto simp: send_calls_def)
    with send_frames_br_send [OF s] have "send_frames w \<subseteq> send_frames (sys_bridge \<sigma>) \<union> send_calls \<sigma>"
      by (auto split: if_splits)
    moreover have "send_calls (step cb e \<sigma>) \<subseteq> send_calls \<sigma>"
    proof (cases q)
      case (Inl x)
      with EvTransmit True s show ?thesis by (intro send_calls_drop [of _ i]) (simp add: Let_def flip: c_def)
    next
      case (Inr x)
      with EvTransmit True s c show ?thesis
        by (intro send_calls_update [of _ _ i "c\<lparr>c_sent := True\<rparr>"])
          (auto simp: Let_def send_calls_def simp flip: c_def)
    qed
    ultimately show ?thesis using EvTransmit True s by (cases q) (simp_all add: Let_def flip: c_def)
  qed (auto simp: EvTransmit)
next
  case (EvHaltFrame io i)
  show ?thesis
  proof (cases "i < length (sys_calls \<sigma>)")
    case True
    show ?thesis
    proof (cases "c_kind (sys_calls \<sigma> ! i)")
      case (CHaltFrame r)
      obtain q w where s: "br_send io (halt_frame r) [] (sys_bridge \<sigma>) = (q, w)" by fastforce
      have "send_calls (step cb e \<sigma>) \<subseteq> send_calls \<sigma>"
        using EvHaltFrame CHaltFrame True s
        by (cases q)
          (simp_all add: send_calls_drop [of _ i] send_calls_update [of _ _ i "frame_call CHaltCommit (c_gen (sys_calls \<sigma> ! i))"])
      with EvHaltFrame CHaltFrame True s send_frames_br_send [OF s] show ?thesis by (cases q) auto
    qed (use EvHaltFrame in auto)
  qed (simp add: EvHaltFrame)
next
  case (EvResumeFrame io)
  obtain q w where s: "br_send io resume_frame [] (sys_bridge \<sigma>) = (q, w)" by fastforce
  with EvResumeFrame send_frames_br_send [OF s] show ?thesis
    by (cases q) (auto simp: send_calls_def frame_call_def)
next
  case (EvFrame io frame)
  with send_frames_serve [of cb io frame "sys_bridge \<sigma>"] show ?thesis by (auto simp: send_calls_def)
next
  case (EvHalt f d n n' r)
  obtain q w where s: "br_oh_halt f d n n' r (sys_bridge \<sigma>) = (q, w)" by fastforce
  with EvHalt durable_halt_fields(3) [OF s] show ?thesis
    by (cases q) (auto simp: send_calls_def frame_call_def send_frames_def)
next
  case (EvResumeCommit i)
  have "send_calls (step cb e \<sigma>) \<subseteq> send_calls \<sigma>"
  proof (cases "i < length (sys_calls \<sigma>) \<and> c_kind (sys_calls \<sigma> ! i) = CResumeCommit")
    case True
    with EvResumeCommit show ?thesis
      by (cases "same_connection (c_gen (sys_calls \<sigma> ! i)) (sys_bridge \<sigma>)")
        (simp_all add: resume_commit_def send_calls_drop [of _ i] send_calls_update [of _ _ i "frame_call CResumeDisarm 0"])
  qed (auto simp: EvResumeCommit)
  moreover have "br_wire (sys_bridge (step cb e \<sigma>)) = br_wire (sys_bridge \<sigma>)"
    using EvResumeCommit by (simp add: resume_commit_def)
  ultimately show ?thesis by (auto simp: send_frames_def)
next
  case (EvConfigure sc pr body d)
  then show ?thesis
    by (auto simp: send_calls_def send_frames_def start_request_def request_register_def Let_def split: sum.split)
next
  case (EvIdentity body d)
  then show ?thesis
    by (auto simp: send_calls_def send_frames_def start_request_def request_register_def Let_def)
qed (auto simp: send_frames_def send_calls_def finish_call_fields commit_fields dest: set_drop_call)

text \<open>After a halt, no send frame reaches the wire but those of the calls that were already past the gate.\<close>

lemma sends_after_halt:
  assumes "armed \<sigma>" "\<forall>e \<in> set evs. \<not> disarms e \<and> \<not> unenforced e"
  shows "armed (run_events cb evs \<sigma>) \<and> send_calls (run_events cb evs \<sigma>) \<subseteq> send_calls \<sigma>
    \<and> send_frames (sys_bridge (run_events cb evs \<sigma>)) \<subseteq> send_frames (sys_bridge \<sigma>) \<union> send_calls \<sigma>"
  using assms(2)
proof (induction evs rule: rev_induct)
  case Nil
  with assms(1) show ?case by (simp add: run_events_def)
next
  case (snoc e evs)
  then have "armed (run_events cb evs \<sigma>)" by simp
  from armed_step [OF this, of e cb] sends_step [OF this, of e cb] snoc show ?case
    by (auto simp: run_events_def)
qed

section \<open>Commits do not cross a reconnect\<close>

lemma step_gen_mono: "br_gen (sys_bridge \<sigma>) \<le> br_gen (sys_bridge (step cb e \<sigma>))"
proof (cases e)
  case (EvFrame io frame)
  have "br_gen w \<le> br_gen (serve_frame cb io frame w)" for w
    using handle_fields(2) by (fastforce simp: serve_frame_def br_reset_def split: option.split sum.split prod.split bool.split)
  with EvFrame show ?thesis by simp
next
  case (EvHalt f d n n' r)
  obtain q w where s: "br_oh_halt f d n n' r (sys_bridge \<sigma>) = (q, w)" by fastforce
  with EvHalt durable_halt_fields(2) [OF s] show ?thesis by (cases q) auto
next
  case (EvTransmit io i)
  obtain q w where s: "br_send io (c_header (sys_calls \<sigma> ! i)) (c_body (sys_calls \<sigma> ! i)) (sys_bridge \<sigma>) = (q, w)" by fastforce
  then have "br_gen w = br_gen (sys_bridge \<sigma>)" by (auto simp: br_send_def split: option.splits sum.splits if_splits)
  with EvTransmit s show ?thesis by (cases q) (auto simp: Let_def)
next
  case (EvHaltFrame io i)
  have "br_gen w = br_gen (sys_bridge \<sigma>)" if "br_send io h [] (sys_bridge \<sigma>) = (q, w)" for h q w
    using that by (auto simp: br_send_def split: option.splits sum.splits if_splits)
  with EvHaltFrame show ?thesis by (auto split: call_kind.split prod.split sum.split)
next
  case (EvResumeFrame io)
  have "br_gen w = br_gen (sys_bridge \<sigma>)" if "br_send io h [] (sys_bridge \<sigma>) = (q, w)" for h q w
    using that by (auto simp: br_send_def split: option.splits sum.splits if_splits)
  with EvResumeFrame show ?thesis by (auto split: prod.split sum.split)
qed (auto simp: start_request_fields finish_call_fields commit_fields resume_commit_def serve_begin_def
    br_reset_def Let_def split: sum.split)

lemma run_events_gen_mono: "br_gen (sys_bridge \<sigma>) \<le> br_gen (sys_bridge (run_events cb evs \<sigma>))"
proof (induction evs rule: rev_induct)
  case (snoc e evs)
  then show ?case using step_gen_mono [of "run_events cb evs \<sigma>" cb e] by (simp add: run_events_def)
qed (simp add: run_events_def)

lemma disconnect_raises_gen:
  "bridge_inv (sys_bridge \<sigma>) \<Longrightarrow> br_conn (sys_bridge \<sigma>) \<noteq> None \<Longrightarrow>
    br_gen (sys_bridge \<sigma>) < br_gen (sys_bridge (step cb EvPeerGone \<sigma>))"
  by (cases "br_conn (sys_bridge \<sigma>)") (simp_all add: bridge_inv_def br_reset_def)

section \<open>Properties\<close>

text \<open>C4. A disconnected bridge is in DENY-ALL: in every state reachable from a fresh server, under any
  interleaving of its threads, the peer and the operator, no connection means state \<open>waiting\<close> and
  configuration epoch 0, and an open connection is the one the current generation names.\<close>

theorem disconnected_is_deny_all:
  assumes "reachable cb \<lparr>sys_bridge = init_bridge engagement hw s, sys_calls = []\<rparr> \<sigma>"
  shows "(br_conn (sys_bridge \<sigma>) = None \<longrightarrow> br_state (sys_bridge \<sigma>) = Waiting \<and> br_epoch (sys_bridge \<sigma>) = 0)
    \<and> (\<forall>g. br_conn (sys_bridge \<sigma>) = Some g \<longrightarrow> g = br_gen (sys_bridge \<sigma>))"
  using bridge_inv_reachable [OF assms] by (simp add: bridge_inv_init flip: bridge_inv_def)

definition plain_callbacks :: "unit callbacks" where
  "plain_callbacks = \<lparr>cb_hello = None, cb_halted = None, cb_exchange = None\<rparr>"

definition sample_halt_world :: halt_world where
  "sample_halt_world =
     (\<lparr>oh_engagement = ''e1'', oh_armed = False, oh_reason = None\<rparr>,
      \<lparr>dir_path = u ''/e1/HALTED'', dir_sentinel = None, dir_stat_ok = True, dir_read_ok = True, dir_tmp = None,
       dir_actions = []\<rparr>)"

definition sample_system :: "unit system" where
  "sample_system = \<lparr>sys_bridge = init_bridge (u ''e1'') sample_halt_world (), sys_calls = []\<rparr>"

theorem disconnected_is_deny_all_witness:
  "let \<sigma> = run_events plain_callbacks [EvAccept True, EvPeerGone] sample_system in
   br_conn (sys_bridge \<sigma>) = None \<and> br_state (sys_bridge \<sigma>) = Waiting \<and> br_epoch (sys_bridge \<sigma>) = 0"
proof -
  let ?\<sigma> = "run_events plain_callbacks [EvAccept True, EvPeerGone] sample_system"
  have "reachable plain_callbacks \<lparr>sys_bridge = init_bridge (u ''e1'') sample_halt_world (), sys_calls = []\<rparr> ?\<sigma>"
    unfolding sample_system_def by (rule run_events_reachable)
  from disconnected_is_deny_all [OF this] have "br_conn (sys_bridge ?\<sigma>) = None \<longrightarrow>
      br_state (sys_bridge ?\<sigma>) = Waiting \<and> br_epoch (sys_bridge ?\<sigma>) = 0" by blast
  moreover have "br_conn (sys_bridge ?\<sigma>) = None"
    by (simp add: run_events_def sample_system_def init_bridge_def serve_begin_def br_reset_def)
  ultimately show ?thesis by (simp add: Let_def)
qed


definition halted_events :: "event list" where
  "halted_events = [EvSentinel None True True, EvAccept True, EvSend True [] [] 5, EvTransmit True 0, EvPeerGone]"

definition halted_system :: "unit system" where
  "halted_system =
     \<lparr>sys_bridge = init_bridge (u ''e1'')
        ((fst sample_halt_world)\<lparr>oh_armed := True, oh_reason := Some (u ''stop'')\<rparr>, snd sample_halt_world) (),
      sys_calls = []\<rparr>"


text \<open>The gate of \<open>send\<close>: with local enforcement a request is let through exactly when it sets none
  of the keys the bridge stamps itself, no halt is in force in the store or on the disk, and the
  peer has acknowledged a configuration; otherwise nothing is written and the error class is
  \<open>halted\<close>, \<open>not_configured\<close> or none.\<close>

lemma send_gate_iff:
  "(send_gate True req w = Inr ()) =
     ((\<forall>k \<in> set RESERVED_SEND_KEYS. map_of req k = None) \<and> \<not> halted (fst (br_halt w)) (snd (br_halt w))
      \<and> br_state w = Configured)
   \<and> (send_gate True req w \<noteq> Inr () \<longrightarrow> (\<forall>body deadline \<sigma>. sys_bridge \<sigma> = w \<longrightarrow>
        step cb (EvSend True req body deadline) \<sigma> = \<sigma>))"
  by (auto simp: send_gate_def split: sum.splits)

text \<open>A hello never lifts a halt: with a durable halt in force the halt frame is on the wire before
  the hello callback runs, and if that frame cannot be written the callback does not run and the
  connection is closed.\<close>

theorem hello_reasserts_halt:
  assumes "halted (fst (br_halt w)) (snd (br_halt w))" "is_type h ''hello''"
    and "handle cb io_ok h body w = (ok, w')"
  shows "br_wire w' = br_wire w \<and> br_sink w' = br_sink w \<and> \<not> ok
    \<or> (\<exists>c r. br_wire w' = br_wire w @ [(c, halt_frame r, [])]) \<and> br_state w' = Halted"
proof -
  let ?w = "w\<lparr>br_hello := Some h, br_state := Connected, br_epoch := 0\<rparr>"
  obtain ok1 w1 where r: "reassert_halt io_ok ?w = (ok1, w1)" by fastforce
  have w1: "\<not> ok1 \<and> br_wire w1 = br_wire w \<and> br_sink w1 = br_sink w
      \<or> ok1 \<and> (\<exists>c r. br_wire w1 = br_wire w @ [(c, halt_frame r, [])]) \<and> br_state w1 = Halted"
  proof -
    define reason where "reason = (case halt_reason (fst (br_halt w)) (snd (br_halt w)) of
        None \<Rightarrow> u ''halted, no reason recorded''
      | Some r \<Rightarrow> if r = [] then u ''halted, no reason recorded'' else r)"
    obtain q w2 where s: "br_send io_ok (halt_frame reason) [] ?w = (q, w2)" by fastforce
    have "(ok1, w1) = (case q of Inl _ \<Rightarrow> (False, w2) | Inr _ \<Rightarrow> (True, w2\<lparr>br_state := Halted\<rparr>))"
      using r s assms(1) by (cases q) (simp_all add: reassert_halt_def Let_def flip: reason_def)
    moreover have "br_sink w2 = br_sink w"
      using s by (auto simp: br_send_def split: option.splits sum.splits if_splits)
    moreover note br_send_wire [OF s]
    ultimately show ?thesis by (cases q) auto
  qed
  show ?thesis
  proof (cases "as_id (map_of h (u ''v'')) = Some PROTOCOL_VERSION
      \<and> map_of h (u ''engagement_id'') = Some (JStr (br_engagement w))")
    case True
    then have "(ok, w') = (if \<not> ok1 then (False, w1) else case cb_hello cb of None \<Rightarrow> (True, w1)
        | Some f \<Rightarrow> (case f h (br_sink w1) of (raised, s) \<Rightarrow> (\<not> raised, w1\<lparr>br_sink := s\<rparr>)))"
      using assms(2,3) by (cases ok1) (simp_all add: handle_def r)
    with w1 show ?thesis by (cases ok1) (auto split: option.splits prod.splits)
  next
    case False
    with assms(2,3) show ?thesis by (auto simp: handle_def split: if_splits)
  qed
qed

definition sample_hello :: header where
  "sample_hello = [(u ''v'', JInt 1), (u ''t'', JStr (u ''hello'')), (u ''engagement_id'', JStr (u ''e1''))]"

text \<open>A configure never gives issuance back: an acknowledged configure leaves a halted bridge
  halted, and only on the connection whose generation it captured does it change anything.\<close>

theorem configure_keeps_halt:
  assumes "configure_finish gen reply w = (Inr n, w')"
  shows "same_connection gen w \<and> br_epoch w' = n
    \<and> br_state w' = (if br_state w = Halted then Halted else Configured) \<and> br_halt w' = br_halt w"
  using assms by (auto simp: configure_finish_def split: if_splits option.splits)

definition configured_reply :: reply where
  "configured_reply = ([(u ''v'', JInt 1), (u ''t'', JStr (u ''configured'')), (u ''config_epoch'', JInt 3)], [])"

definition refused_reply :: reply where
  "refused_reply = ([(u ''v'', JInt 1), (u ''t'', JStr (u ''error'')), (u ''class'', JStr (u ''bad_config''))], [])"

definition auto_halted :: "unit bridge" where
  "auto_halted = (sys_bridge sample_system)\<lparr>br_conn := Some 1, br_gen := 1, br_state := Halted\<rparr>"

text \<open>A REFUSED configure does: a bridge halted by the extension (an auto-halt, with no operator halt
  in force) whose configure is refused as \<open>bad_config\<close> becomes \<open>connected\<close>, and the next acknowledged
  configure makes it \<open>configured\<close>, so its gate opens with no resume.\<close>

theorem refused_configure_lifts_halt:
  assumes "br_state w = Halted" "same_connection gen w" "\<not> halted (fst (br_halt w)) (snd (br_halt w))"
  shows "let w1 = snd (configure_finish gen refused_reply w); w2 = snd (configure_finish gen configured_reply w1) in
    br_state w1 = Connected \<and> br_state w2 = Configured \<and> send_gate True [] w2 = Inr ()"
  using assms
  by (simp add: configure_finish_def refused_reply_def configured_reply_def is_type_def get_json_def literals
      DENYING_CONFIGURE_ERRORS_def py_int_def same_connection_def send_gate_def)

text \<open>Capture frames never cost the control channel and are never lost silently: an exchange, denial
  or dropped frame leaves the connection, the state, the wire and the halt alone, and either the sink
  took it without raising, or the error is counted and (unless the frame was itself a drop
  report) the sink was handed a drop report of one record in its place.\<close>

theorem capture_recorded_or_counted:
  assumes "cb_exchange cb = Some f" "as_id (map_of h (u ''v'')) = Some PROTOCOL_VERSION"
    and "is_type h ''exchange'' \<or> is_type h ''denial'' \<or> is_type h ''dropped''"
    and "handle cb io_ok h body w = (ok, w')"
  shows "ok \<and> br_conn w' = br_conn w \<and> br_state w' = br_state w \<and> br_wire w' = br_wire w \<and> br_halt w' = br_halt w
    \<and> (br_exchange_errors w' = br_exchange_errors w \<and> (\<exists>rq rs. f h rq rs (br_sink w) = (False, br_sink w'))
      \<or> br_exchange_errors w < br_exchange_errors w'
        \<and> (is_type h ''dropped'' \<or>
          (\<exists>d s. is_type d ''dropped'' \<and> map_of d (u ''n'') = Some (JInt 1) \<and> br_sink w' = snd (f d [] [] s))))"
proof -
  have ok: "ok" and w': "w' = capture_frame cb h body w"
    using assms by (auto simp: handle_def is_type_def literals)
  have drop: "br_exchange_errors v \<le> br_exchange_errors (count_as_dropped cb h v) \<and> (is_type h ''dropped'' \<or>
      (\<exists>d s. is_type d ''dropped'' \<and> map_of d (u ''n'') = Some (JInt 1) \<and>
        br_sink (count_as_dropped cb h v) = snd (f d [] [] s)))" for v
  proof (cases "is_type h ''dropped''")
    case False
    obtain raised s where "f (drop_header h) [] [] (br_sink v) = (raised, s)" by fastforce
    then have "count_as_dropped cb h v
        = v\<lparr>br_sink := snd (f (drop_header h) [] [] (br_sink v)),
            br_exchange_errors := br_exchange_errors v + (if raised then 1 else 0)\<rparr>"
      using assms(1) False by (simp add: count_as_dropped_def)
    with drop_header_fields [of h] show ?thesis by auto
  qed (simp add: count_as_dropped_def)
  show ?thesis
  proof (cases "if is_type h ''exchange'' then split_bodies h body else Inr ([], [])")
    case (Inl x)
    then have "w' = count_as_dropped cb h (w\<lparr>br_exchange_errors := br_exchange_errors w + 1\<rparr>)"
      using assms(1) by (simp add: w' capture_frame_def)
    with ok drop [of "w\<lparr>br_exchange_errors := br_exchange_errors w + 1\<rparr>"] show ?thesis by auto
  next
    case (Inr p)
    obtain raised s where f: "f h (fst p) (snd p) (br_sink w) = (raised, s)" by fastforce
    show ?thesis
    proof (cases raised)
      case True
      then have "w' = count_as_dropped cb h (w\<lparr>br_sink := s, br_exchange_errors := br_exchange_errors w + 1\<rparr>)"
        using assms(1) Inr f by (cases p) (simp add: w' capture_frame_def)
      with ok drop [of "w\<lparr>br_sink := s, br_exchange_errors := br_exchange_errors w + 1\<rparr>"] show ?thesis by auto
    next
      case False
      then have "w' = w\<lparr>br_sink := s\<rparr>"
        using assms(1) Inr f by (cases p) (simp add: w' capture_frame_def)
      with ok f False show ?thesis by auto
    qed
  qed
qed

definition counting_callbacks :: "nat callbacks" where
  "counting_callbacks = \<lparr>cb_hello = None, cb_halted = None,
     cb_exchange = Some (\<lambda>h _ _ n. if is_type h ''dropped'' then (False, n + 1) else (True, n))\<rparr>"

definition denial_header :: header where
  "denial_header = [(u ''v'', JInt 1), (u ''t'', JStr (u ''denial''))]"

text \<open>A commit does not cross a reconnect: once a connection has gone, no later state accepts the
  generation captured on it, so an acknowledgement or halt or resume of the old peer changes
  nothing on the new one.\<close>

theorem stale_commit_refused:
  assumes "reachable cb \<lparr>sys_bridge = init_bridge engagement hw s, sys_calls = []\<rparr> \<sigma>"
    and "br_conn (sys_bridge \<sigma>) \<noteq> None"
  shows "let w = sys_bridge (run_events cb (EvPeerGone # evs) \<sigma>); gen = br_gen (sys_bridge \<sigma>) in
    \<not> same_connection gen w \<and> snd (halt_commit gen w) = w \<and> snd (resume_commit gen w) = w
    \<and> snd (configure_finish gen reply w) = w"
proof -
  define w gen where "w = sys_bridge (run_events cb (EvPeerGone # evs) \<sigma>)" and "gen = br_gen (sys_bridge \<sigma>)"
  have "bridge_inv (sys_bridge \<sigma>)" using bridge_inv_reachable [OF assms(1)] by (simp add: bridge_inv_init)
  from disconnect_raises_gen [OF this assms(2), of cb] run_events_gen_mono [of "step cb EvPeerGone \<sigma>" cb evs]
  have "gen < br_gen w" unfolding gen_def w_def by (simp add: run_events_def)
  then have "\<not> same_connection gen w" by (simp add: same_connection_def)
  then have "\<not> same_connection gen w \<and> snd (halt_commit gen w) = w \<and> snd (resume_commit gen w) = w
    \<and> snd (configure_finish gen reply w) = w"
    by (auto simp: halt_commit_def resume_commit_def configure_finish_def split: option.split)
  then show ?thesis by (simp add: Let_def w_def gen_def)
qed

section \<open>The durable halt\<close>

text \<open>C6. A failure to explain is not a failure to stop, and a failure to lift leaves the stop: a halt
  that returned, or that raised after the sentinel was renamed into place, is in force on the disk;
  no halt ever lifts one; and a resume that raised leaves it standing.\<close>

theorem halt_and_resume_fail_closed:
  "(oh_halt f db_ok now now' reason (h, d) = (r, (h', d')) \<longrightarrow>
      (r = Inr () \<or> r = Inl SqliteError \<longrightarrow> sentinel_present d' \<and> halted h' d') \<and> (halted h d \<longrightarrow> halted h' d'))
   \<and> (oh_resume db_ok unlink_ok now (h, d) = (Inl e, (h', d')) \<longrightarrow> halted h d \<longrightarrow> halted h' d')"
  using oh_halt_in_force [of f db_ok now now' reason h d r h' d'] oh_halt_keeps_halted [of h d f db_ok now now' reason r h' d']
    oh_resume_failure_stays_halted [of h d db_ok unlink_ok now e h' d'] by blast

lemma one_line_stop: "one_line (u ''stop'') = u ''stop''"
  by (simp add: one_line_def words_def is_space_def literals)

theorem halt_and_resume_fail_closed_witness:
  "\<exists>h d. oh_halt NoFault False 1 2 (u ''stop'') sample_halt_world = (Inl SqliteError, (h, d))
    \<and> sentinel_present d \<and> halted h d"
proof -
  note one_line_stop
  moreover have "utf8_encode (u ''stop'' @ 10 # dump_int 1 @ [10]) \<noteq> None" by code_simp
  ultimately obtain h d where
    w: "oh_halt NoFault False 1 2 (u ''stop'') (fst sample_halt_world, snd sample_halt_world) = (Inl SqliteError, (h, d))"
    by (simp add: oh_halt_def write_sentinel_def insert_action_def sample_halt_world_def Let_def)
  with halt_and_resume_fail_closed [of NoFault False 1 2 "u ''stop''" "fst sample_halt_world" "snd sample_halt_world"
      "Inl SqliteError" h d]
  show ?thesis by auto
qed

text \<open>A halt survives a restart in both of its copies: an object opened later over the same rows is
  armed with the same reason, even if the sentinel has been deleted, when the clock did not run
  backwards; and an object that has seen no row reads the reason out of the file.\<close>

theorem halt_is_durable:
  assumes "oh_halt f True now now' reason (h, d) = (Inr (), (h', d'))"
    and "\<forall>x \<in> set (halt_rows (oh_engagement h) (dir_actions d)). aa_ts_us x \<le> now'"
    and "dir_stat_ok d" "dir_read_ok d" "one_line reason \<noteq> []"
  shows "(\<exists>h''. open_operator_halt [oh_engagement h] (d'\<lparr>dir_sentinel := None\<rparr>) = Inr h'' \<and> oh_armed h''
      \<and> halt_reason h'' (d'\<lparr>dir_sentinel := None\<rparr>) = Some (one_line reason))
    \<and> (\<not> oh_armed h0 \<longrightarrow> halted h0 d' \<and> halt_reason h0 d' = Some (one_line reason))"
proof -
  have d': "dir_sentinel d' = Some (one_line reason @ 10 # dump_int now @ [10])" "dir_stat_ok d'" "dir_read_ok d'"
    using assms by (auto simp: oh_halt_def write_sentinel_def insert_action_def Let_def split: if_splits)
  with halt_survives_restart [OF assms(1,2), of "d'\<lparr>dir_sentinel := None\<rparr>"] sentinel_reason [of d' reason now h0] assms(5)
  show ?thesis by (auto simp: halted_def sentinel_present_def)
qed

lemma sample_halt_succeeds: "\<exists>w. oh_halt NoFault True 1 2 (u ''stop'') sample_halt_world = (Inr (), w)"
proof -
  note one_line_stop
  moreover have "utf8_encode (u ''stop'' @ 10 # dump_int 1 @ [10]) \<noteq> None" by code_simp
  ultimately show ?thesis
    by (simp add: oh_halt_def write_sentinel_def insert_action_def sample_halt_world_def Let_def)
qed

theorem halt_is_durable_witness:
  "\<exists>d'. (\<exists>h''. open_operator_halt [''e1''] (d'\<lparr>dir_sentinel := None\<rparr>) = Inr h'' \<and> oh_armed h''
      \<and> halt_reason h'' (d'\<lparr>dir_sentinel := None\<rparr>) = Some (one_line (u ''stop'')))
    \<and> halted (fst sample_halt_world) d' \<and> halt_reason (fst sample_halt_world) d' = Some (one_line (u ''stop''))"
proof -
  obtain h' d' where w: "oh_halt NoFault True 1 2 (u ''stop'') (fst sample_halt_world, snd sample_halt_world) = (Inr (), (h', d'))"
    using sample_halt_succeeds by (metis prod.collapse)
  have "one_line (u ''stop'') \<noteq> []" unfolding one_line_stop by (simp add: literals)
  with halt_is_durable [OF w, of "fst sample_halt_world"] show ?thesis
    by (intro exI [of _ d']) (simp add: sample_halt_world_def halt_rows_def)
qed

end
