(* ===== verification/Store.thy ===== *)
theory Store
  imports Redact Py_Num
begin

text \<open>
  The evidence store: the rows of \<open>src/hx/store/schema.sql\<close> that the Python code writes, the statements of
  \<open>src/hx/store/records.py\<close> and the lifecycle of a run in \<open>src/hx/run.py\<close>. A table is the list of its rows
  in insertion order, a statement is a program over the store that raises \<open>IntegrityError\<close> where a
  PRIMARY KEY, FOREIGN KEY, UNIQUE or CHECK constraint refuses it, and the fresh id that \<open>new_id\<close> draws
  is an argument.
\<close>

section \<open>Rows\<close>

datatype store_exc = ValueError | TypeError | IntegrityError

record run_row =
  run_id :: pystr
  run_engagement :: pystr
  run_kind :: pystr
  run_profile :: pystr
  run_started_us :: int
  run_ended_us :: "int option"
  run_status :: pystr
  run_stop_reason :: "pystr option"
  run_heartbeat_us :: "int option"
  run_requests_issued :: int
  run_dropped_total :: int
  run_identity :: "pystr option"
  run_identity_generation :: "int option"
  run_identity_state :: "pystr option"

record surface_row =
  sf_id :: pystr
  sf_engagement :: pystr
  sf_method :: pystr
  sf_scheme :: pystr
  sf_host :: pystr
  sf_port :: int
  sf_path_template :: pystr
  sf_query_key_set :: pystr
  sf_kind :: pystr
  sf_discovered_by :: pystr
  sf_normaliser_version :: int
  sf_first_seen_run :: pystr
  sf_last_seen_run :: pystr
  sf_exemplar :: pystr

record exchange_row =
  ex_id :: pystr
  ex_run :: "pystr option"
  ex_surface :: "pystr option"
  ex_via :: pystr
  ex_outcome :: pystr
  ex_sent_us :: int
  ex_recv_us :: int
  ex_method :: pystr
  ex_url :: pystr
  ex_status :: "int option"
  ex_req_blob :: "pystr option"
  ex_resp_blob :: "pystr option"
  ex_resp_len :: "nat option"
  ex_scope_version :: "pystr option"
  ex_seq :: "int option"
  ex_identity :: "pystr option"
  ex_identity_generation :: "int option"
  ex_identity_state :: "pystr option"

record denial_row =
  dn_id :: pystr
  dn_run :: "pystr option"
  dn_ts_us :: int
  dn_kind :: pystr
  dn_method :: pystr
  dn_url :: pystr
  dn_resolved_ip :: "pystr option"
  dn_reason :: pystr
  dn_via :: pystr
  dn_scope_version :: "pystr option"

record finding_row =
  fi_id :: pystr
  fi_engagement :: pystr
  fi_dedupe_key :: pystr
  fi_issue_type :: pystr
  fi_title :: pystr
  fi_description :: "pystr option"
  fi_impact :: "pystr option"
  fi_remediation :: "pystr option"
  fi_cwe :: "pystr option"
  fi_severity :: pystr
  fi_confidence :: pystr
  fi_created_by :: pystr
  fi_status :: pystr
  fi_insertion_name :: "pystr option"
  fi_insertion_kind :: "pystr option"
  fi_scope_level :: pystr
  fi_payload :: "pystr option"
  fi_surface :: "pystr option"
  fi_host :: "pystr option"
  fi_check :: "pystr option"
  fi_first_seen_run :: pystr
  fi_last_seen_run :: pystr

record observation_row =
  ob_finding :: pystr
  ob_run :: pystr
  ob_observed :: bool
  ob_exchange :: "pystr option"
  ob_severity :: "pystr option"
  ob_confidence :: "pystr option"
  ob_ts_us :: int

record evidence_row =
  ev_id :: pystr
  ev_finding :: pystr
  ev_seq :: nat
  ev_role :: pystr
  ev_exchange :: pystr
  ev_note :: "pystr option"
  ev_captured_us :: int

record status_event =
  se_id :: pystr
  se_finding :: pystr
  se_from :: pystr
  se_to :: pystr
  se_actor :: pystr
  se_note :: "pystr option"
  se_ts_us :: int

record check_run_row =
  cr_id :: pystr
  cr_run :: pystr
  cr_surface :: "pystr option"
  cr_insertion :: "pystr option"
  cr_check :: pystr
  cr_version :: pystr
  cr_started_us :: int
  cr_ended_us :: "int option"
  cr_verdict :: pystr
  cr_reason :: "pystr option"
  cr_requests_sent :: int

record store =
  st_engagements :: "pystr list"
  st_scopes :: "pystr list"
  st_runs :: "run_row list"
  st_surfaces :: "surface_row list"
  st_exchanges :: "exchange_row list"
  st_denials :: "denial_row list"
  st_findings :: "finding_row list"
  st_observations :: "observation_row list"
  st_evidence :: "evidence_row list"
  st_events :: "status_event list"
  st_check_runs :: "check_run_row list"

definition empty_store :: "pystr \<Rightarrow> store" where
  "empty_store engagement =
     \<lparr>st_engagements = [engagement], st_scopes = [], st_runs = [], st_surfaces = [], st_exchanges = [],
      st_denials = [], st_findings = [], st_observations = [], st_evidence = [], st_events = [], st_check_runs = []\<rparr>"

section \<open>Statements\<close>

text \<open>A foreign key may be NULL; anything else must name a row.\<close>

definition fk :: "pystr option \<Rightarrow> pystr list \<Rightarrow> bool" where
  "fk x ids = (case x of None \<Rightarrow> True | Some i \<Rightarrow> i \<in> set ids)"

definition run_ids :: "store \<Rightarrow> pystr list" where
  "run_ids s = map run_id (st_runs s)"

definition exchange_ids :: "store \<Rightarrow> pystr list" where
  "exchange_ids s = map ex_id (st_exchanges s)"

text \<open>\<open>UPDATE run SET ... WHERE id = ?\<close> with a further condition.\<close>

definition update_runs :: "(run_row \<Rightarrow> bool) \<Rightarrow> (run_row \<Rightarrow> run_row) \<Rightarrow> store \<Rightarrow> store" where
  "update_runs sel f s = s\<lparr>st_runs := map (\<lambda>r. if sel r then f r else r) (st_runs s)\<rparr>"

text \<open>\<open>INSERT ... ON CONFLICT(key) DO UPDATE\<close>: the row that holds the key is refreshed from the one that
  was to be inserted, and a new key is appended.\<close>

definition upsert_by :: "('r \<Rightarrow> 'k) \<Rightarrow> ('r \<Rightarrow> 'r \<Rightarrow> 'r) \<Rightarrow> 'r \<Rightarrow> 'r list \<Rightarrow> 'r list" where
  "upsert_by key refresh row rows =
     (if \<exists>r \<in> set rows. key r = key row
      then map (\<lambda>r. if key r = key row then refresh r row else r) rows
      else rows @ [row])"

text \<open>\<open>db.transaction\<close>, which nests: whatever the block raises, its statements are rolled back.\<close>

definition transaction :: "('s, 'e, 'a) prog \<Rightarrow> ('s, 'e, 'a) prog" where
  "transaction m s = (case m s of (Inl e, _) \<Rightarrow> (Inl e, s) | (Inr x, s') \<Rightarrow> (Inr x, s'))"

section \<open>Runs\<close>

definition IDLE_CLOSE_US :: int where
  "IDLE_CLOSE_US = 15 * 60 * 1000000"

definition RUN_KINDS :: "pystr list" where
  "RUN_KINDS = [u ''browse'', u ''crawl'', u ''manual'', u ''scan'']"

definition IDENTITY_STATES :: "pystr list" where
  "IDENTITY_STATES = [u ''proven'', u ''assumed'', u ''dead'']"

definition PROFILES :: "pystr list" where
  "PROFILES = [u ''production'', u ''staging'']"

definition open_run :: "pystr \<Rightarrow> pystr \<Rightarrow> pystr \<Rightarrow> pystr \<Rightarrow> int \<Rightarrow> (store, store_exc, pystr) prog" where
  "open_run nid engagement kind profile at s =
     (if kind \<notin> set RUN_KINDS then (Inl ValueError, s)
      else if nid \<in> set (run_ids s) \<or> engagement \<notin> set (st_engagements s) \<or> profile \<notin> set PROFILES
      then (Inl IntegrityError, s)
      else (Inr nid, s\<lparr>st_runs := st_runs s @
        [\<lparr>run_id = nid, run_engagement = engagement, run_kind = kind, run_profile = profile, run_started_us = at,
          run_ended_us = None, run_status = u ''running'', run_stop_reason = None, run_heartbeat_us = Some at,
          run_requests_issued = 0, run_dropped_total = 0, run_identity = None, run_identity_generation = None,
          run_identity_state = None\<rparr>]\<rparr>))"

definition running :: "run_row \<Rightarrow> bool" where
  "running r \<longleftrightarrow> run_status r = u ''running''"

definition heartbeat :: "pystr \<Rightarrow> int \<Rightarrow> store \<Rightarrow> store" where
  "heartbeat rid at = update_runs (\<lambda>r. run_id r = rid \<and> running r) (\<lambda>r. r\<lparr>run_heartbeat_us := Some at\<rparr>)"

definition RUN_STATUSES :: "pystr list" where
  "RUN_STATUSES = [u ''running'', u ''completed'', u ''aborted'', u ''killed'', u ''error'']"

definition end_run :: "pystr \<Rightarrow> int \<Rightarrow> pystr \<Rightarrow> pystr option \<Rightarrow> store \<Rightarrow> store" where
  "end_run rid at status stop_reason =
     update_runs (\<lambda>r. run_id r = rid \<and> running r)
       (\<lambda>r. r\<lparr>run_status := status, run_ended_us := Some at, run_stop_reason := stop_reason\<rparr>)"

definition close_run :: "pystr \<Rightarrow> int \<Rightarrow> pystr \<Rightarrow> pystr option \<Rightarrow> (store, store_exc, unit) prog" where
  "close_run rid at status stop_reason s =
     (if status \<notin> set RUN_STATUSES \<and> (\<exists>r \<in> set (st_runs s). run_id r = rid \<and> running r)
      then (Inl IntegrityError, s)
      else (Inr (), end_run rid at status stop_reason s))"

definition record_identity :: "pystr \<Rightarrow> pystr \<Rightarrow> int \<Rightarrow> pystr \<Rightarrow> (store, store_exc, unit) prog" where
  "record_identity rid identity_id generation state s =
     (if state \<notin> set IDENTITY_STATES then (Inl ValueError, s)
      else (Inr (), update_runs (\<lambda>r. run_id r = rid)
        (\<lambda>r. r\<lparr>run_identity := Some identity_id, run_identity_generation := Some generation,
               run_identity_state := Some state\<rparr>) s))"

definition open_runs :: "pystr \<Rightarrow> store \<Rightarrow> (pystr \<times> pystr) list" where
  "open_runs engagement s =
     map (\<lambda>r. (run_id r, run_kind r))
       (sort_key run_started_us (filter (\<lambda>r. run_engagement r = engagement \<and> running r) (st_runs s)))"

text \<open>\<open>ORDER BY started_us DESC LIMIT 1\<close>; between equal timestamps the earlier row, one of the answers SQLite
  may give.\<close>

fun newest :: "run_row list \<Rightarrow> run_row option" where
  "newest [] = None"
| "newest (r # rs) =
     (case newest rs of
        None \<Rightarrow> Some r
      | Some r' \<Rightarrow> if run_started_us r' > run_started_us r then Some r' else Some r)"

definition last_seen_us :: "run_row \<Rightarrow> int" where
  "last_seen_us r = (case run_heartbeat_us r of None \<Rightarrow> run_started_us r | Some t \<Rightarrow> t)"

definition current_run :: "pystr \<Rightarrow> pystr \<Rightarrow> pystr \<Rightarrow> pystr \<Rightarrow> int \<Rightarrow> (store, store_exc, pystr) prog" where
  "current_run nid engagement kind profile at s =
     (case newest (filter (\<lambda>r. run_engagement r = engagement \<and> run_kind r = kind \<and> running r) (st_runs s)) of
        None \<Rightarrow> open_run nid engagement kind profile at s
      | Some r \<Rightarrow>
          if at - last_seen_us r \<le> IDLE_CLOSE_US then (Inr (run_id r), s)
          else sbind (close_run (run_id r) (last_seen_us r) (u ''completed'') (Some (u ''idle'')))
                 (\<lambda>_. open_run nid engagement kind profile at) s)"

definition stale_before_us :: "int \<Rightarrow> int option \<Rightarrow> int" where
  "stale_before_us at stale_after_us =
     at - (case stale_after_us of None \<Rightarrow> IDLE_CLOSE_US * 2 | Some w \<Rightarrow> w)"

definition is_stale :: "int \<Rightarrow> run_row \<Rightarrow> bool" where
  "is_stale before r = (if \<not> running r then False else last_seen_us r < before)"

definition STALE_REASON :: pystr where
  "STALE_REASON = u ''heartbeat went stale: the harness stopped without closing this run, so its coverage is incomplete''"

definition reap_stale :: "int \<Rightarrow> int option \<Rightarrow> store \<Rightarrow> pystr list \<times> store" where
  "reap_stale at stale_after_us s =
     (let before = stale_before_us at stale_after_us;
          ids = map run_id (filter (is_stale before) (filter running (st_runs s)))
      in (ids, fold (\<lambda>rid. end_run rid at (u ''error'') (Some STALE_REASON)) ids s))"

definition count_drop :: "pystr \<Rightarrow> int \<Rightarrow> (store, store_exc, unit) prog" where
  "count_drop rid n s =
     (if n < 1 then (Inl ValueError, s)
      else (Inr (), update_runs (\<lambda>r. run_id r = rid)
             (\<lambda>r. r\<lparr>run_dropped_total := run_dropped_total r + n\<rparr>) s))"

text \<open>\<open>records.abort_run\<close>: True when this call stopped the run, False when it had ended already.\<close>

definition abort_run :: "pystr \<Rightarrow> pystr \<Rightarrow> int \<Rightarrow> (store, store_exc, bool) prog" where
  "abort_run rid stop_reason at s =
     (if length (filter (\<lambda>r. run_id r = rid \<and> running r) (st_runs s)) = 1
      then (Inr True, end_run rid at (u ''aborted'') (Some stop_reason) s)
      else if rid \<notin> set (run_ids s) then (Inl ValueError, s)
      else (Inr False, s))"

section \<open>Where an error class is recorded\<close>

definition DENIAL_KIND :: "(pystr \<times> pystr) list" where
  "DENIAL_KIND =
     [(u ''scope_denied'', u ''scope''), (u ''method_denied'', u ''method''), (u ''dangerous_denied'', u ''dangerous''),
      (u ''rate_limited'', u ''rate''), (u ''budget_exhausted'', u ''budget''), (u ''not_configured'', u ''not_configured''),
      (u ''unmanaged_credential'', u ''credential''), (u ''unknown_identity'', u ''credential''),
      (u ''identity_origin'', u ''credential'')]"

definition DENIAL_KINDS :: "pystr list" where
  "DENIAL_KINDS = map snd DENIAL_KIND"

definition EXCHANGE_OUTCOME :: "(pystr \<times> pystr) list" where
  "EXCHANGE_OUTCOME =
     [(u ''timeout'', u ''timeout''), (u ''bridge_lost'', u ''bridge_lost''), (u ''rate_limited'', u ''rate_limited''),
      (u ''scope_denied'', u ''scope_denied'')]"

definition AMBIGUOUS_ISSUANCE :: "pystr list" where
  "AMBIGUOUS_ISSUANCE = [u ''timeout'', u ''bridge_lost'']"

definition EXCHANGE_OUTCOMES :: "pystr list" where
  "EXCHANGE_OUTCOMES =
     [u ''ok'', u ''timeout'', u ''conn_refused'', u ''dns_error'', u ''tls_error'', u ''scope_denied'', u ''rate_limited'',
      u ''bridge_lost'', u ''truncated'', u ''status_unreadable'']"

definition STATUS_UNREADABLE :: int where
  "STATUS_UNREADABLE = 599"

definition NO_STATUS_OUTCOMES :: "pystr list" where
  "NO_STATUS_OUTCOMES = [u ''timeout'', u ''conn_refused'', u ''dns_error'', u ''tls_error'', u ''bridge_lost'']"

definition VIA_VALUES :: "pystr list" where
  "VIA_VALUES = [u ''proxy'', u ''send'', u ''crawl'']"

definition UNRECORDABLE :: "pystr list" where
  "UNRECORDABLE =
     [u ''transport_error'', u ''halted'', u ''bad_frame'', u ''engagement_mismatch'', u ''protocol_mismatch'',
      u ''bad_config'', u ''unknown_frame'', u ''bad_identity'', u ''stale_generation'']"

datatype row_table = DenialTable | ExchangeTable

definition row_for :: "pystr \<Rightarrow> bool option \<Rightarrow> store_exc + (row_table \<times> pystr) option" where
  "row_for error_class issued =
     (case map_of DENIAL_KIND error_class of
        Some kind \<Rightarrow> Inr (Some (DenialTable, kind))
      | None \<Rightarrow>
          if error_class \<in> set AMBIGUOUS_ISSUANCE then
            (case issued of
               None \<Rightarrow> Inl ValueError
             | Some q \<Rightarrow> Inr (if q then map_option (Pair ExchangeTable) (map_of EXCHANGE_OUTCOME error_class) else None))
          else case map_of EXCHANGE_OUTCOME error_class of
            Some outcome \<Rightarrow> Inr (Some (ExchangeTable, outcome))
          | None \<Rightarrow> if error_class \<in> set UNRECORDABLE then Inr None else Inl ValueError)"

section \<open>Denials and exchanges\<close>

definition record_denial :: "pystr \<Rightarrow> pystr option \<Rightarrow> pystr \<Rightarrow> pystr \<Rightarrow> pystr \<Rightarrow> pystr \<Rightarrow> int \<Rightarrow> pystr
    \<Rightarrow> pystr option \<Rightarrow> pystr option \<Rightarrow> (store, store_exc, pystr) prog" where
  "record_denial nid rid kind method url detail at via resolved_ip scope_version s =
     (if via \<notin> set VIA_VALUES then (Inl ValueError, s)
      else if kind \<notin> set DENIAL_KINDS then (Inl ValueError, s)
      else if nid \<in> set (map dn_id (st_denials s)) \<or> \<not> fk rid (run_ids s) \<or> \<not> fk scope_version (st_scopes s)
      then (Inl IntegrityError, s)
      else (Inr nid, s\<lparr>st_denials := st_denials s @
        [\<lparr>dn_id = nid, dn_run = rid, dn_ts_us = at, dn_kind = kind, dn_method = method, dn_url = redact_url url,
          dn_resolved_ip = resolved_ip, dn_reason = detail, dn_via = via, dn_scope_version = scope_version\<rparr>]\<rparr>))"

text \<open>The coherence guards on status and outcome.\<close>

definition coherent :: "pystr \<Rightarrow> int option \<Rightarrow> bool" where
  "coherent outcome status \<longleftrightarrow>
     \<not> (status = None \<and> (outcome = u ''ok'' \<or> outcome = u ''truncated'')) \<and>
     \<not> (outcome = u ''status_unreadable'' \<and> status \<noteq> Some STATUS_UNREADABLE) \<and>
     \<not> (outcome \<in> set NO_STATUS_OUTCOMES \<and> status \<noteq> None)"

record exchange_args =
  xa_run :: "pystr option"
  xa_method :: pystr
  xa_url :: pystr
  xa_status :: "int option"
  xa_req_blob :: "pystr option"
  xa_resp_blob :: "pystr option"
  xa_ms :: int
  xa_at_us :: int
  xa_outcome :: pystr
  xa_via :: pystr
  xa_resp_len :: "nat option"
  xa_surface :: "pystr option"
  xa_scope_version :: "pystr option"
  xa_seq :: "int option"
  xa_identity :: "pystr option"
  xa_identity_generation :: "int option"
  xa_identity_state :: "pystr option"

definition exchange_of :: "pystr \<Rightarrow> exchange_args \<Rightarrow> exchange_row" where
  "exchange_of nid a =
     \<lparr>ex_id = nid, ex_run = xa_run a, ex_surface = xa_surface a, ex_via = xa_via a, ex_outcome = xa_outcome a,
      ex_sent_us = xa_at_us a, ex_recv_us = xa_at_us a + xa_ms a * 1000, ex_method = xa_method a,
      ex_url = redact_url (xa_url a), ex_status = xa_status a, ex_req_blob = xa_req_blob a,
      ex_resp_blob = xa_resp_blob a, ex_resp_len = xa_resp_len a, ex_scope_version = xa_scope_version a,
      ex_seq = xa_seq a, ex_identity = xa_identity a, ex_identity_generation = xa_identity_generation a,
      ex_identity_state = xa_identity_state a\<rparr>"

definition record_exchange :: "pystr \<Rightarrow> exchange_args \<Rightarrow> (store, store_exc, pystr) prog" where
  "record_exchange nid a s =
     (if xa_via a \<notin> set VIA_VALUES then (Inl ValueError, s)
      else if xa_outcome a \<notin> set EXCHANGE_OUTCOMES then (Inl ValueError, s)
      else if \<not> coherent (xa_outcome a) (xa_status a) then (Inl ValueError, s)
      else if nid \<in> set (exchange_ids s) \<or> \<not> fk (xa_run a) (run_ids s)
        \<or> \<not> fk (xa_surface a) (map sf_id (st_surfaces s)) \<or> \<not> fk (xa_scope_version a) (st_scopes s)
        \<or> \<not> fk (xa_identity_state a) IDENTITY_STATES
      then (Inl IntegrityError, s)
      else (Inr nid, s\<lparr>st_exchanges := st_exchanges s @ [exchange_of nid a]\<rparr>))"

section \<open>Findings\<close>

record insertion_point =
  ins_name :: pystr
  ins_kind :: pystr

record candidate =
  ca_issue_type_id :: pystr
  ca_title :: pystr
  ca_description :: "pystr option"
  ca_impact :: "pystr option"
  ca_remediation :: "pystr option"
  ca_cwe :: "pystr option"
  ca_severity :: pystr
  ca_confidence :: pystr
  ca_scope_level :: pystr
  ca_payload :: "pystr option"
  ca_insertion :: "insertion_point option"

definition SEVERITIES :: "pystr list" where
  "SEVERITIES = [u ''Critical'', u ''High'', u ''Medium'', u ''Low'', u ''Info'']"

definition CONFIDENCES :: "pystr list" where
  "CONFIDENCES = [u ''Certain'', u ''Firm'', u ''Tentative'']"

datatype key_part =
    PType | PIssueType | PScheme | PHost | PPort | PMethod | PPath | PInsertionKind | PInsertionName

definition SCOPE_BLANKS :: "(pystr \<times> key_part list) list" where
  "SCOPE_BLANKS =
     [(u ''engagement'', [PScheme, PHost, PPort, PMethod, PPath]), (u ''host'', [PMethod, PPath]),
      (u ''surface'', []), (u ''insertion'', [])]"

record key_args =
  ka_type :: pystr
  ka_issue_type_id :: pystr
  ka_scheme :: pystr
  ka_host :: pystr
  ka_port :: "int option"
  ka_method :: pystr
  ka_path_template :: pystr
  ka_insertion_kind :: "pystr option"
  ka_insertion_name :: "pystr option"

definition key_parts :: "key_args \<Rightarrow> (key_part \<times> pystr option) list" where
  "key_parts a =
     [(PType, Some (ka_type a)), (PIssueType, Some (ka_issue_type_id a)), (PScheme, Some (ka_scheme a)),
      (PHost, Some (ka_host a)), (PPort, map_option dump_int (ka_port a)), (PMethod, Some (ka_method a)),
      (PPath, Some (ka_path_template a)), (PInsertionKind, ka_insertion_kind a),
      (PInsertionName, ka_insertion_name a)]"

definition part_text :: "key_part list \<Rightarrow> key_part \<times> pystr option \<Rightarrow> pystr" where
  "part_text blanks p =
     (if fst p \<in> set blanks then [45]
      else case snd p of None \<Rightarrow> [45] | Some v \<Rightarrow> if v = [] then [45] else v)"

definition dedupe_key :: "key_args \<Rightarrow> pystr \<Rightarrow> store_exc + pystr" where
  "dedupe_key a scope_level =
     (case map_of SCOPE_BLANKS scope_level of
        None \<Rightarrow> Inl ValueError
      | Some blanks \<Rightarrow> Inr (join [124] (map (part_text blanks) (key_parts a))))"

text \<open>The columns the \<open>DO UPDATE\<close> clause moves; the others are the row's identity or its history.\<close>

definition refresh_finding :: "finding_row \<Rightarrow> finding_row \<Rightarrow> finding_row" where
  "refresh_finding old new =
     old\<lparr>fi_last_seen_run := fi_last_seen_run new, fi_title := fi_title new, fi_description := fi_description new,
         fi_impact := fi_impact new, fi_remediation := fi_remediation new, fi_cwe := fi_cwe new,
         fi_severity := fi_severity new, fi_confidence := fi_confidence new, fi_surface := fi_surface new,
         fi_host := fi_host new, fi_payload := fi_payload new, fi_check := fi_check new\<rparr>"

definition finding_key :: "finding_row \<Rightarrow> pystr \<times> pystr" where
  "finding_key r = (fi_engagement r, fi_dedupe_key r)"

definition finding_of :: "pystr \<Rightarrow> pystr \<Rightarrow> candidate \<Rightarrow> pystr \<Rightarrow> pystr \<Rightarrow> pystr option \<Rightarrow> pystr option
    \<Rightarrow> pystr option \<Rightarrow> pystr \<Rightarrow> finding_row" where
  "finding_of nid engagement c key rid surface host check_id created_by =
     \<lparr>fi_id = nid, fi_engagement = engagement, fi_dedupe_key = key, fi_issue_type = ca_issue_type_id c,
      fi_title = ca_title c, fi_description = ca_description c, fi_impact = ca_impact c,
      fi_remediation = ca_remediation c, fi_cwe = ca_cwe c, fi_severity = ca_severity c,
      fi_confidence = ca_confidence c, fi_created_by = created_by, fi_status = u ''new'',
      fi_insertion_name = map_option ins_name (ca_insertion c), fi_insertion_kind = map_option ins_kind (ca_insertion c),
      fi_scope_level = ca_scope_level c, fi_payload = ca_payload c, fi_surface = surface, fi_host = host,
      fi_check = check_id, fi_first_seen_run = rid, fi_last_seen_run = rid\<rparr>"

definition upsert_finding :: "pystr \<Rightarrow> pystr \<Rightarrow> candidate \<Rightarrow> pystr \<Rightarrow> pystr \<Rightarrow> pystr option \<Rightarrow> pystr option
    \<Rightarrow> pystr option \<Rightarrow> pystr \<Rightarrow> (store, store_exc, pystr) prog" where
  "upsert_finding nid engagement c key rid surface host check_id created_by s =
     (if created_by \<notin> {u ''check'', u ''agent''} then (Inl ValueError, s)
      else if ca_severity c \<notin> set SEVERITIES \<or> ca_confidence c \<notin> set CONFIDENCES
        \<or> map_of SCOPE_BLANKS (ca_scope_level c) = None \<or> engagement \<notin> set (st_engagements s)
        \<or> rid \<notin> set (run_ids s) \<or> \<not> fk surface (map sf_id (st_surfaces s))
        \<or> nid \<in> set (map fi_id (st_findings s))
      then (Inl IntegrityError, s)
      else
        let s' = s\<lparr>st_findings := upsert_by finding_key refresh_finding
                    (finding_of nid engagement c key rid surface host check_id created_by) (st_findings s)\<rparr>
        in case filter (\<lambda>r. finding_key r = (engagement, key)) (st_findings s') of
             r # _ \<Rightarrow> (Inr (fi_id r), s')
           | [] \<Rightarrow> (Inl IntegrityError, s'))"

definition observation_key :: "observation_row \<Rightarrow> pystr \<times> pystr" where
  "observation_key r = (ob_finding r, ob_run r)"

definition record_observation :: "observation_row \<Rightarrow> (store, store_exc, unit) prog" where
  "record_observation r s =
     (if ob_finding r \<notin> set (map fi_id (st_findings s)) \<or> ob_run r \<notin> set (run_ids s)
        \<or> \<not> fk (ob_exchange r) (exchange_ids s)
      then (Inl IntegrityError, s)
      else (Inr (), s\<lparr>st_observations := upsert_by observation_key (\<lambda>_ new. new) r (st_observations s)\<rparr>))"

text \<open>\<open>record_evidence\<close>: one row per exchange and role that the finding does not cite yet, numbered from
  the end of its chain.\<close>

definition next_seq :: "pystr \<Rightarrow> store \<Rightarrow> nat" where
  "next_seq finding s =
     fold (\<lambda>r m. max (ev_seq r + 1) m) (filter (\<lambda>r. ev_finding r = finding) (st_evidence s)) 0"

definition cited :: "pystr \<Rightarrow> store \<Rightarrow> (pystr \<times> pystr) list" where
  "cited finding s = map (\<lambda>r. (ev_exchange r, ev_role r)) (filter (\<lambda>r. ev_finding r = finding) (st_evidence s))"

definition insert_evidence :: "evidence_row \<Rightarrow> (store, store_exc, unit) prog" where
  "insert_evidence r s =
     (if ev_id r \<in> set (map ev_id (st_evidence s)) \<or> ev_finding r \<notin> set (map fi_id (st_findings s))
        \<or> ev_exchange r \<notin> set (exchange_ids s)
      then (Inl IntegrityError, s)
      else (Inr (), s\<lparr>st_evidence := st_evidence s @ [r]\<rparr>))"

fun evidence_loop :: "pystr \<Rightarrow> pystr \<Rightarrow> pystr option \<Rightarrow> int \<Rightarrow> (pystr \<times> pystr) list \<Rightarrow> (pystr \<times> pystr) list \<Rightarrow> nat
    \<Rightarrow> (store, store_exc, unit) prog" where
  "evidence_loop finding role note at [] known n = sret ()"
| "evidence_loop finding role note at ((nid, exchange) # xs) known n =
     (if (exchange, role) \<in> set known then evidence_loop finding role note at xs known n
      else sbind (insert_evidence \<lparr>ev_id = nid, ev_finding = finding, ev_seq = n, ev_role = role, ev_exchange = exchange,
                    ev_note = note, ev_captured_us = at\<rparr>)
        (\<lambda>_. evidence_loop finding role note at xs ((exchange, role) # known) (n + 1)))"

definition record_evidence :: "pystr \<Rightarrow> (pystr \<times> pystr) list \<Rightarrow> int \<Rightarrow> pystr \<Rightarrow> pystr option
    \<Rightarrow> (store, store_exc, unit) prog" where
  "record_evidence finding exchanges at role note =
     transaction (\<lambda>s. evidence_loop finding role note at exchanges (cited finding s) (next_seq finding s) s)"

end
