(* ===== verification/Store_Laws.thy ===== *)
theory Store_Laws
  imports Store
begin

text \<open>
  What the statements of the store guarantee. The locale \<open>keyed_table\<close> states what an upsert needs of a
  key and a refresh function; it is interpreted on the findings and the observations here and on the surfaces
  in the theory of \<open>capture.py\<close>. The properties cover the routing of error classes, the coherence of
  exchange rows, the identity of findings, the evidence chain and the lifecycle of a run.
\<close>

section \<open>Keyed tables\<close>

locale keyed_table =
  fixes key :: "'r \<Rightarrow> 'k" and refresh :: "'r \<Rightarrow> 'r \<Rightarrow> 'r"
  assumes key_refresh: "key old = key new \<Longrightarrow> key (refresh old new) = key new"
begin

lemma key_in: "key row \<in> set (map key rows) \<longleftrightarrow> (\<exists>r \<in> set rows. key r = key row)"
  by (simp add: image_iff) metis

lemma upsert_keys: "map key (upsert_by key refresh row rows) =
    (if key row \<in> set (map key rows) then map key rows else map key rows @ [key row])"
proof (cases "key row \<in> set (map key rows)")
  case True
  then have "\<exists>r \<in> set rows. key r = key row" unfolding key_in .
  then show ?thesis using True by (simp add: upsert_by_def key_refresh o_def cong: map_cong)
next
  case False
  then have "\<not> (\<exists>r \<in> set rows. key r = key row)" unfolding key_in .
  then show ?thesis using False by (simp add: upsert_by_def)
qed

lemma upsert_distinct: "distinct (map key rows) \<Longrightarrow> distinct (map key (upsert_by key refresh row rows))"
  by (auto simp: upsert_keys)

lemma upsert_others:
  "filter (\<lambda>r. key r \<noteq> key row) (upsert_by key refresh row rows) = filter (\<lambda>r. key r \<noteq> key row) rows"
proof -
  have "filter (\<lambda>r. key r \<noteq> key row) (map (\<lambda>r. if key r = key row then refresh r row else r) rows)
      = filter (\<lambda>r. key r \<noteq> key row) rows"
    by (induction rows) (auto simp: key_refresh)
  then show ?thesis by (simp add: upsert_by_def)
qed

lemma upsert_new: "key row \<notin> set (map key rows) \<Longrightarrow> upsert_by key refresh row rows = rows @ [row]"
  unfolding key_in upsert_by_def by simp

lemma upsert_row:
  "distinct (map key rows) \<Longrightarrow> filter (\<lambda>r. key r = key row) (upsert_by key refresh row rows) =
    [case filter (\<lambda>r. key r = key row) rows of [] \<Rightarrow> row | old # _ \<Rightarrow> refresh old row]"
proof (induction rows)
  case Nil
  then show ?case by (simp add: upsert_by_def)
next
  case (Cons r rows)
  show ?case
  proof (cases "key r = key row")
    case True
    with Cons.prems have "key row \<notin> set (map key rows)" by simp
    then have "filter (\<lambda>r. key r = key row) (map (\<lambda>r. if key r = key row then refresh r row else r) rows) = []"
      unfolding key_in by (auto simp: filter_empty_conv)
    with True show ?thesis by (simp add: upsert_by_def key_refresh)
  next
    case False
    with Cons show ?thesis by (cases "\<exists>r \<in> set rows. key r = key row") (simp_all add: upsert_by_def)
  qed
qed

end

interpretation finding_table: keyed_table finding_key refresh_finding
  by unfold_locales (simp add: finding_key_def refresh_finding_def)

interpretation observation_table: keyed_table observation_key "\<lambda>_ new. new"
  by unfold_locales simp

section \<open>Findings\<close>

lemma finding_key_of [simp]: "finding_key (finding_of nid e c k rid sf h ch cb) = (e, k)"
  by (simp add: finding_key_def finding_of_def)

lemma upsert_finding_cases:
  assumes "upsert_finding nid e c k rid sf h ch cb s = (Inr fid, s')" "distinct (map finding_key (st_findings s))"
  defines "row \<equiv> finding_of nid e c k rid sf h ch cb"
  shows "s' = s\<lparr>st_findings := upsert_by finding_key refresh_finding row (st_findings s)\<rparr>"
    "filter (\<lambda>r. finding_key r = (e, k)) (st_findings s') =
       [case filter (\<lambda>r. finding_key r = (e, k)) (st_findings s) of [] \<Rightarrow> row | old # _ \<Rightarrow> refresh_finding old row]"
    "fid = (case filter (\<lambda>r. finding_key r = (e, k)) (st_findings s) of [] \<Rightarrow> nid | old # _ \<Rightarrow> fi_id old)"
proof -
  define t where "t = s\<lparr>st_findings := upsert_by finding_key refresh_finding row (st_findings s)\<rparr>"
  note u = finding_table.upsert_row [OF assms(2), of row, unfolded row_def finding_key_of]
  have f: "filter (\<lambda>r. finding_key r = (e, k)) (st_findings t) =
      [case filter (\<lambda>r. finding_key r = (e, k)) (st_findings s) of [] \<Rightarrow> row | old # _ \<Rightarrow> refresh_finding old row]"
    using u unfolding t_def row_def by simp
  then have "(Inr fid, s') = (Inr (fi_id (case filter (\<lambda>r. finding_key r = (e, k)) (st_findings s) of
      [] \<Rightarrow> row | old # _ \<Rightarrow> refresh_finding old row)), t)"
    using assms(1) unfolding t_def row_def by (auto simp: upsert_finding_def Let_def split: if_splits)
  then show "s' = s\<lparr>st_findings := upsert_by finding_key refresh_finding row (st_findings s)\<rparr>"
    "filter (\<lambda>r. finding_key r = (e, k)) (st_findings s') =
       [case filter (\<lambda>r. finding_key r = (e, k)) (st_findings s) of [] \<Rightarrow> row | old # _ \<Rightarrow> refresh_finding old row]"
    "fid = (case filter (\<lambda>r. finding_key r = (e, k)) (st_findings s) of [] \<Rightarrow> nid | old # _ \<Rightarrow> fi_id old)"
    using f unfolding t_def row_def by (auto simp: finding_of_def refresh_finding_def split: list.splits)
qed

text \<open>A key is as wide as its scope level: two keys of one level are equal exactly when every part the
  level keeps is equal, where an absent and an empty part are the same.\<close>

definition key_view :: "key_part list \<Rightarrow> key_args \<Rightarrow> (key_part \<times> pystr option) list" where
  "key_view blanks a =
     map (\<lambda>(p, v). (p, if p \<in> set blanks \<or> v = Some [] then None else v)) (key_parts a)"

definition plain_parts :: "key_args \<Rightarrow> bool" where
  "plain_parts a \<longleftrightarrow> (\<forall>p \<in> set (key_parts a). \<forall>v. snd p = Some v \<longrightarrow> 124 \<notin> set v \<and> v \<noteq> [45])"

lemma part_text_view:
  assumes "\<forall>v. snd p = Some v \<longrightarrow> v \<noteq> [45]" "\<forall>v. snd q = Some v \<longrightarrow> v \<noteq> [45]" "fst p = fst q"
  shows "part_text blanks p = part_text blanks q \<longleftrightarrow>
    (\<lambda>(p, v). (p, if p \<in> set blanks \<or> v = Some [] then None else v)) p =
    (\<lambda>(p, v). (p, if p \<in> set blanks \<or> v = Some [] then None else v)) q"
  using assms by (cases p; cases q) (auto simp: part_text_def split: option.splits)

lemma dedupe_key_view:
  assumes "plain_parts a" "plain_parts a'" "map_of SCOPE_BLANKS level = Some blanks"
  shows "dedupe_key a level = dedupe_key a' level \<longleftrightarrow> key_view blanks a = key_view blanks a'"
proof -
  have free: "\<forall>x \<in> set (map (part_text blanks) (key_parts c)). 124 \<notin> set x" if "plain_parts c" for c
    using that by (fastforce simp: plain_parts_def part_text_def split: option.splits if_splits)
  have "join [124] (map (part_text blanks) (key_parts a)) = join [124] (map (part_text blanks) (key_parts a'))
      \<longleftrightarrow> map (part_text blanks) (key_parts a) = map (part_text blanks) (key_parts a')"
    using split1_join [OF _ free [OF assms(1)]] split1_join [OF _ free [OF assms(2)]]
    by (metis (no_types) key_parts_def list.discI list.map_disc_iff)
  also have "\<dots> \<longleftrightarrow> list_all2 (\<lambda>p q. part_text blanks p = part_text blanks q) (key_parts a) (key_parts a')"
    by (simp add: key_parts_def)
  also have "\<dots> \<longleftrightarrow> key_view blanks a = key_view blanks a'"
    using assms(1,2) part_text_view [of _ _ blanks] unfolding plain_parts_def key_view_def
    by (simp add: key_parts_def)
  finally show ?thesis using assms(3) by (simp add: dedupe_key_def)
qed

section \<open>Evidence\<close>

definition chain :: "pystr \<Rightarrow> store \<Rightarrow> evidence_row list" where
  "chain finding s = filter (\<lambda>r. ev_finding r = finding) (st_evidence s)"

definition chains_ok :: "store \<Rightarrow> bool" where
  "chains_ok s \<longleftrightarrow> (\<forall>f. map ev_seq (chain f s) = [0..<length (chain f s)]
     \<and> distinct (map (\<lambda>r. (ev_exchange r, ev_role r)) (chain f s)))"

lemma next_seq_chain: "chains_ok s \<Longrightarrow> next_seq f s = length (chain f s)"
proof -
  have fold: "fold (\<lambda>r m. max (ev_seq r + 1) m) rows k = max k (length rows + j)"
    if "map ev_seq rows = [j..<j + length rows]" "rows \<noteq> [] \<or> j \<le> k" for rows k j
    using that
  proof (induction rows arbitrary: k j)
    case (Cons r rows)
    then have "ev_seq r = j" "map ev_seq rows = [Suc j..<Suc j + length rows]"
      by (auto simp: upt_conv_Cons simp del: upt_Suc)
    with Cons.IH [of "Suc j" "max (Suc j) k"] show ?case by auto
  qed simp
  assume "chains_ok s"
  then have "map ev_seq (chain f s) = [0..<0 + length (chain f s)]" by (simp add: chains_ok_def)
  from fold [OF this, of 0] show ?thesis unfolding next_seq_def chain_def by simp
qed

lemma evidence_loop_ok:
  assumes "chains_ok s" "set known = set (cited f s)" "n = length (chain f s)"
    and "evidence_loop f role note at xs known n s = (Inr (), s')"
  shows "chains_ok s' \<and> (\<exists>new. chain f s' = chain f s @ new \<and> (\<forall>r \<in> set new. ev_role r = role))
    \<and> (\<forall>(_, x) \<in> set xs. (x, role) \<in> set (cited f s'))"
  using assms
proof (induction xs arbitrary: known n s)
  case (Cons p xs)
  obtain nid x where p: "p = (nid, x)" by (cases p)
  show ?case
  proof (cases "(x, role) \<in> set known")
    case True
    with Cons.IH [of s known n] Cons.prems p obtain new where
      IH: "chains_ok s'" "chain f s' = chain f s @ new" "\<forall>r \<in> set new. ev_role r = role"
        "\<forall>(_, x) \<in> set xs. (x, role) \<in> set (cited f s')" by auto
    have "(x, role) \<in> set (cited f s')"
      using True Cons.prems(2) IH(2) by (auto simp: cited_def chain_def)
    with IH p show ?thesis by auto
  next
    case False
    define row where "row = \<lparr>ev_id = nid, ev_finding = f, ev_seq = n, ev_role = role, ev_exchange = x,
      ev_note = note, ev_captured_us = at\<rparr>"
    define t where "t = s\<lparr>st_evidence := st_evidence s @ [row]\<rparr>"
    have ins: "insert_evidence row s = (Inr (), t)" and
      rest: "evidence_loop f role note at xs ((x, role) # known) (n + 1) t = (Inr (), s')"
      using Cons.prems(4) False p
      by (auto simp: row_def t_def insert_evidence_def sbind_def split: if_splits)
    have chain: "chain g t = (if g = f then chain f s @ [row] else chain g s)" for g
      by (simp add: chain_def t_def row_def)
    have "(x, role) \<notin> set (cited f s)" using False Cons.prems(2) by simp
    then have "(x, role) \<notin> (\<lambda>r. (ev_exchange r, ev_role r)) ` set (chain f s)"
      by (simp add: cited_def chain_def)
    then have "chains_ok t"
      using Cons.prems(1,3) by (simp add: chains_ok_def chain row_def)
    moreover have "set ((x, role) # known) = set (cited f t)"
      using Cons.prems(2) by (auto simp: cited_def t_def row_def)
    moreover have "n + 1 = length (chain f t)" using Cons.prems(3) chain by simp
    ultimately obtain new where
      IH: "chains_ok s'" "chain f s' = chain f t @ new" "\<forall>r \<in> set new. ev_role r = role"
        "\<forall>(_, x) \<in> set xs. (x, role) \<in> set (cited f s')" using Cons.IH [OF _ _ _ rest] by auto
    have "(x, role) \<in> set (cited f s')"
    proof -
      have "row \<in> set (chain f s')" using IH(2) chain [of f] by simp
      then have "(ev_exchange row, ev_role row) \<in> set (cited f s')" by (auto simp: cited_def chain_def)
      then show ?thesis by (simp add: row_def)
    qed
    with IH chain p show ?thesis by (auto simp: row_def)
  qed
qed simp

section \<open>The lifecycle of a run\<close>

datatype run_call =
    OpenRun pystr pystr pystr pystr int
  | Heartbeat pystr int
  | CloseRun pystr int pystr "pystr option"
  | RecordIdentity pystr pystr int pystr
  | CurrentRun pystr pystr pystr pystr int
  | ReapStale int "int option"
  | CountDrop pystr int
  | AbortRun pystr pystr int

fun run_step :: "run_call \<Rightarrow> store \<Rightarrow> store" where
  "run_step (OpenRun nid e k p at) s = snd (open_run nid e k p at s)"
| "run_step (Heartbeat r at) s = heartbeat r at s"
| "run_step (CloseRun r at st why) s = snd (close_run r at st why s)"
| "run_step (RecordIdentity r i g st) s = snd (record_identity r i g st s)"
| "run_step (CurrentRun nid e k p at) s = snd (current_run nid e k p at s)"
| "run_step (ReapStale at w) s = snd (reap_stale at w s)"
| "run_step (CountDrop r n) s = snd (count_drop r n s)"
| "run_step (AbortRun r why at) s = snd (abort_run r why at s)"

definition keeps_run :: "run_row \<Rightarrow> run_row \<Rightarrow> bool" where
  "keeps_run r r' \<longleftrightarrow> run_id r' = run_id r \<and> run_engagement r' = run_engagement r \<and> run_kind r' = run_kind r
     \<and> run_started_us r' = run_started_us r \<and> run_dropped_total r \<le> run_dropped_total r'
     \<and> (\<not> running r \<longrightarrow> run_status r' = run_status r \<and> run_ended_us r' = run_ended_us r
          \<and> run_stop_reason r' = run_stop_reason r \<and> run_heartbeat_us r' = run_heartbeat_us r)"

definition history_kept :: "store \<Rightarrow> store \<Rightarrow> bool" where
  "history_kept s s' \<longleftrightarrow> length (st_runs s) \<le> length (st_runs s')
     \<and> (\<forall>i < length (st_runs s). keeps_run (st_runs s ! i) (st_runs s' ! i))"

lemma keeps_run_refl [simp]: "keeps_run r r"
  by (simp add: keeps_run_def)

lemma keeps_run_trans: "keeps_run r r' \<Longrightarrow> keeps_run r' r'' \<Longrightarrow> keeps_run r r''"
  by (auto simp: keeps_run_def running_def)

lemma history_refl [simp]: "history_kept s s"
  by (simp add: history_kept_def)

lemma history_trans: "history_kept s s' \<Longrightarrow> history_kept s' s'' \<Longrightarrow> history_kept s s''"
  unfolding history_kept_def by (meson keeps_run_trans order_less_le_trans order_trans)

lemma history_update: "(\<And>r. sel r \<Longrightarrow> keeps_run r (f r)) \<Longrightarrow> history_kept s (update_runs sel f s)"
  by (simp add: history_kept_def update_runs_def)

lemma history_append: "st_runs s' = st_runs s @ rs \<Longrightarrow> history_kept s s'"
  by (simp add: history_kept_def nth_append)

lemma history_open: "history_kept s (snd (open_run nid e k p at s))"
  by (auto simp: open_run_def intro!: history_append)

lemma history_end: "history_kept s (end_run rid at st why s)"
  unfolding end_run_def by (rule history_update) (simp add: keeps_run_def)

lemma history_close: "history_kept s (snd (close_run rid at st why s))"
  by (simp add: close_run_def history_end)

lemma history_fold: "(\<And>x s. history_kept s (f x s)) \<Longrightarrow> history_kept s (fold f xs s)"
  by (induction xs arbitrary: s) (auto intro: history_trans)

lemma history_current: "history_kept s (snd (current_run nid e k p at s))"
proof (cases "newest (filter (\<lambda>r. run_engagement r = e \<and> run_kind r = k \<and> running r) (st_runs s))")
  case (Some r)
  obtain q t where c: "close_run (run_id r) (last_seen_us r) (u ''completed'') (Some (u ''idle'')) s = (q, t)" by fastforce
  have "history_kept s t" using history_close [of s "run_id r" "last_seen_us r" "u ''completed''" "Some (u ''idle'')"] c by simp
  with Some c history_open [of t nid e k p at] show ?thesis
    by (cases q) (auto simp: current_run_def intro: history_trans)
qed (simp add: current_run_def history_open)

lemma history_step: "history_kept s (run_step c s)"
proof (cases c)
  case (Heartbeat r at)
  then show ?thesis by (auto simp: heartbeat_def keeps_run_def intro!: history_update)
next
  case (RecordIdentity r i g st)
  then show ?thesis by (auto simp: record_identity_def keeps_run_def running_def intro!: history_update)
next
  case (CountDrop r n)
  then show ?thesis by (auto simp: count_drop_def keeps_run_def running_def intro!: history_update)
next
  case (ReapStale at w)
  then show ?thesis by (simp add: reap_stale_def Let_def history_fold history_end)
next
  case (AbortRun r why at)
  then show ?thesis by (simp add: abort_run_def history_end)
qed (simp_all add: history_open history_close history_current)

text \<open>\<open>reap_stale\<close> in one pass.\<close>

lemma end_runs_fold:
  "st_runs (fold (\<lambda>rid. end_run rid at st why) ids s) =
    map (\<lambda>r. if run_id r \<in> set ids \<and> running r \<and> st \<noteq> u ''running''
             then r\<lparr>run_status := st, run_ended_us := Some at, run_stop_reason := why\<rparr> else r) (st_runs s)"
  if "st \<noteq> u ''running''"
  using that
proof (induction ids arbitrary: s)
  case (Cons i ids)
  show ?case
    unfolding fold.simps o_apply Cons.IH [OF Cons.prems]
    using Cons.prems by (auto simp: end_run_def update_runs_def running_def)
qed simp

lemma is_stale_iff: "is_stale before r \<longleftrightarrow> running r \<and> last_seen_us r < before"
  by (simp add: is_stale_def)

lemma newest_mem: "newest rs = Some r \<Longrightarrow> r \<in> set rs"
  by (induction rs arbitrary: r) (auto split: option.splits if_splits)

section \<open>Properties\<close>

text \<open>A finding's key is exactly as wide as its scope level: when no part contains the separator or
  is a lone dash, two candidates of one level share a key if and only if they agree on every part that
  level keeps, an absent part being the same as an empty one.\<close>

theorem dedupe_key_identity:
  assumes "plain_parts a" "plain_parts a'" "map_of SCOPE_BLANKS level = Some blanks"
  shows "dedupe_key a level = dedupe_key a' level \<longleftrightarrow> key_view blanks a = key_view blanks a'"
  using assms by (rule dedupe_key_view)

definition sample_key :: "pystr \<Rightarrow> key_args" where
  "sample_key path = \<lparr>ka_type = u ''cors'', ka_issue_type_id = u ''cors-wildcard'', ka_scheme = u ''https'', ka_host = u ''h'',
     ka_port = None, ka_method = u ''GET'', ka_path_template = path, ka_insertion_kind = None, ka_insertion_name = None\<rparr>"

text \<open>Without that condition two different findings can share a key: a path that contains the separator
  reads like a path and an insertion point.\<close>

lemma dedupe_key_collision:
  "dedupe_key ((sample_key (u ''/a|query''))\<lparr>ka_insertion_kind := Some (u ''x'')\<rparr>) (u ''insertion'')
    = dedupe_key ((sample_key (u ''/a''))\<lparr>ka_insertion_kind := Some (u ''query''), ka_insertion_name := Some (u ''x|-'')\<rparr>)
        (u ''insertion'')"
  by (simp add: dedupe_key_def SCOPE_BLANKS_def key_parts_def part_text_def sample_key_def literals)

text \<open>Re-finding refreshes and never rewrites: when the upsert succeeds the store holds one row for the
  key, every other finding is untouched, and if the key was known the row keeps its id, status,
  creator, first run and everything its key is built from, while its description, severity, confidence
  and last run are the new ones.\<close>

theorem upsert_finding_refreshes:
  assumes "upsert_finding nid e c k rid sf h ch cb s = (Inr fid, s')" "distinct (map finding_key (st_findings s))"
    and "old \<in> set (st_findings s)" "finding_key old = (e, k)"
  shows "fid = fi_id old \<and> distinct (map finding_key (st_findings s'))
    \<and> filter (\<lambda>r. finding_key r \<noteq> (e, k)) (st_findings s') = filter (\<lambda>r. finding_key r \<noteq> (e, k)) (st_findings s)
    \<and> (\<exists>r. filter (\<lambda>r. finding_key r = (e, k)) (st_findings s') = [r]
        \<and> fi_id r = fi_id old \<and> fi_status r = fi_status old \<and> fi_created_by r = fi_created_by old
        \<and> fi_first_seen_run r = fi_first_seen_run old \<and> fi_issue_type r = fi_issue_type old
        \<and> fi_insertion_name r = fi_insertion_name old \<and> fi_insertion_kind r = fi_insertion_kind old
        \<and> fi_scope_level r = fi_scope_level old \<and> fi_title r = ca_title c \<and> fi_description r = ca_description c
        \<and> fi_severity r = ca_severity c \<and> fi_confidence r = ca_confidence c \<and> fi_cwe r = ca_cwe c
        \<and> fi_last_seen_run r = rid \<and> fi_check r = ch)"
proof -
  define row where "row = finding_of nid e c k rid sf h ch cb"
  have row: "finding_key row = (e, k)" by (simp add: row_def)
  have "filter (\<lambda>r. finding_key r = (e, k)) (st_findings s) = [old]"
    using filter_key_unique [OF assms(2,3)] by (simp add: assms(4))
  with upsert_finding_cases [OF assms(1,2)] finding_table.upsert_distinct [OF assms(2), of row]
    finding_table.upsert_others [of row "st_findings s"]
  show ?thesis by (simp add: row row_def [symmetric]) (simp add: row_def finding_of_def refresh_finding_def)
qed

definition sample_candidate :: "pystr \<Rightarrow> candidate" where
  "sample_candidate title = \<lparr>ca_issue_type_id = u ''cors-wildcard'', ca_title = title, ca_description = Some (u ''d''), ca_impact = None,
     ca_remediation = None, ca_cwe = None, ca_severity = u ''Low'', ca_confidence = u ''Firm'', ca_scope_level = u ''host'',
     ca_payload = None, ca_insertion = None\<rparr>"

definition sample_finding :: finding_row where
  "sample_finding =
     (finding_of (u ''f1'') (u ''e1'') (sample_candidate (u ''old'')) (u ''k'') (u ''r1'') None None None (u ''check''))
       \<lparr>fi_status := u ''false_positive''\<rparr>"

definition sample_store :: store where
  "sample_store = (empty_store (u ''e1''))\<lparr>
     st_runs := [\<lparr>run_id = u ''r1'', run_engagement = u ''e1'', run_kind = u ''scan'', run_profile = u ''production'',
       run_started_us = 1, run_ended_us = None, run_status = u ''running'', run_stop_reason = None, run_heartbeat_us = Some 1,
       run_requests_issued = 0, run_dropped_total = 0, run_identity = None, run_identity_generation = None,
       run_identity_state = None\<rparr>],
     st_findings := [sample_finding]\<rparr>"

definition refound_store :: store where
  "refound_store = sample_store\<lparr>st_findings := [sample_finding\<lparr>fi_title := u ''new''\<rparr>]\<rparr>"

lemma sample_upsert:
  "upsert_finding (u ''f2'') (u ''e1'') (sample_candidate (u ''new'')) (u ''k'') (u ''r1'') None None None (u ''check'') sample_store
    = (Inr (u ''f1''), refound_store)"
  by code_simp

text \<open>The evidence chain only grows and never repeats itself: recording exchanges either raises and
  leaves the store as it was, or appends to this finding's chain, numbered from its end with no
  gap, rows that cite each exchange once per role, every requested exchange being cited afterwards.\<close>

theorem record_evidence_chain:
  assumes "chains_ok s" "record_evidence f xs tm role nt s = (r, s')"
  shows "(\<forall>e. r = Inl e \<longrightarrow> s' = s) \<and> (r = Inr () \<longrightarrow> chains_ok s' \<and> (\<exists>new. chain f s' = chain f s @ new)
    \<and> (\<forall>(_, x) \<in> set xs. (x, role) \<in> set (cited f s')))"
proof (cases "evidence_loop f role nt tm xs (cited f s) (next_seq f s) s")
  case (Pair q t)
  with assms evidence_loop_ok [OF assms(1) refl next_seq_chain [OF assms(1)], of f role nt tm xs] show ?thesis
    by (cases q) (fastforce simp: record_evidence_def transaction_def)+
qed

definition evidence_store :: store where
  "evidence_store = sample_store\<lparr>st_exchanges := [exchange_of (u ''x1'') undefined]\<rparr>"

text \<open>An error class is never filed as something that did not happen: a request that never left is
  routed to a denial or to no row, never to an exchange; the two ambiguous classes are refused until
  the caller says; and every class the maps name is routed.\<close>

theorem row_for_routing:
  "row_for c (Some False) \<noteq> Inr (Some (ExchangeTable, outcome))
   \<and> (c \<in> set AMBIGUOUS_ISSUANCE \<longrightarrow> row_for c None = Inl ValueError)
   \<and> (c \<in> set (map fst DENIAL_KIND) \<union> set (map fst EXCHANGE_OUTCOME) \<union> set UNRECORDABLE
        \<longrightarrow> (\<exists>r. row_for c (Some issued) = Inr r))"
  by (auto simp: row_for_def DENIAL_KIND_def EXCHANGE_OUTCOME_def AMBIGUOUS_ISSUANCE_def UNRECORDABLE_def literals
      split: option.splits bool.splits)

theorem row_for_routing_witness:
  "row_for (u ''timeout'') (Some False) \<noteq> Inr (Some (ExchangeTable, u ''timeout''))
   \<and> row_for (u ''timeout'') None = Inl ValueError \<and> (\<exists>r. row_for (u ''timeout'') (Some True) = Inr r)"
  using row_for_routing [of "u ''timeout''" "u ''timeout''" True]
  by (simp add: AMBIGUOUS_ISSUANCE_def EXCHANGE_OUTCOME_def)

text \<open>No exchange row can lie about its status: a row is written exactly when its path and outcome are in
  the vocabulary, status and outcome belong together and every reference names a row; the row is
  appended, and its URL is the redacted one.\<close>

theorem record_exchange_coherent:
  "(\<exists>i s'. record_exchange nid a s = (Inr i, s')) \<longleftrightarrow>
     xa_via a \<in> set VIA_VALUES \<and> xa_outcome a \<in> set EXCHANGE_OUTCOMES
     \<and> (xa_status a = None \<longrightarrow> xa_outcome a \<notin> {u ''ok'', u ''truncated''})
     \<and> (xa_outcome a = u ''status_unreadable'' \<longrightarrow> xa_status a = Some 599)
     \<and> (xa_outcome a \<in> set NO_STATUS_OUTCOMES \<longrightarrow> xa_status a = None)
     \<and> nid \<notin> set (exchange_ids s) \<and> fk (xa_run a) (run_ids s) \<and> fk (xa_surface a) (map sf_id (st_surfaces s))
     \<and> fk (xa_scope_version a) (st_scopes s) \<and> fk (xa_identity_state a) IDENTITY_STATES"
  by (auto simp: record_exchange_def coherent_def STATUS_UNREADABLE_def)

text \<open>A run that has ended stays as it ended: after any sequence of calls of the run module, every
  run that existed is still there with its id, kind and start; one that was not running keeps its
  status, end, reason and heartbeat; and no run's dropped count has gone down.\<close>

theorem ended_runs_stay_ended:
  assumes "i < length (st_runs s)"
  shows "i < length (st_runs (fold run_step calls s))
    \<and> keeps_run (st_runs s ! i) (st_runs (fold run_step calls s) ! i)"
proof -
  have "history_kept s (fold run_step calls s)"
    by (induction calls arbitrary: s) (auto intro: history_trans history_step)
  with assms show ?thesis by (simp add: history_kept_def)
qed

text \<open>Reaping is exact: with unique run ids it reports the running runs whose last sign of life is older than the
  window, ends exactly those as \<open>error\<close>, and leaves every other run as it was.\<close>

theorem reap_stale_exact:
  assumes "distinct (run_ids s)"
  shows "fst (reap_stale at w s) = map run_id (filter (is_stale (stale_before_us at w)) (st_runs s))
    \<and> st_runs (snd (reap_stale at w s)) =
        map (\<lambda>r. if is_stale (stale_before_us at w) r
                 then r\<lparr>run_status := u ''error'', run_ended_us := Some at, run_stop_reason := Some STALE_REASON\<rparr> else r)
          (st_runs s)"
proof -
  let ?b = "stale_before_us at w"
  let ?ids = "map run_id (filter (is_stale ?b) (filter running (st_runs s)))"
  have ids: "filter (is_stale ?b) (filter running (st_runs s)) = filter (is_stale ?b) (st_runs s)"
    by (simp, rule filter_cong) (auto simp: is_stale_iff)
  have "st_runs (snd (reap_stale at w s)) =
      map (\<lambda>r. if run_id r \<in> set ?ids \<and> running r
               then r\<lparr>run_status := u ''error'', run_ended_us := Some at, run_stop_reason := Some STALE_REASON\<rparr> else r) (st_runs s)"
    using end_runs_fold [of "u ''error''" at "Some STALE_REASON" ?ids s]
    by (simp add: reap_stale_def Let_def literals)
  moreover have "run_id r \<in> set ?ids \<and> running r \<longleftrightarrow> is_stale ?b r" if "r \<in> set (st_runs s)" for r
    using that assms unfolding ids run_ids_def
    by (auto simp: distinct_map dest: inj_onD) (auto simp: is_stale_iff)
  moreover have "fst (reap_stale at w s) = ?ids" unfolding reap_stale_def Let_def by simp
  ultimately show ?thesis by (simp only: ids cong: map_cong)
qed

text \<open>Traffic lands on a live run of the right kind: the run \<open>current_run\<close> names exists, is running,
  belongs to the engagement and the kind asked for, and was heard of within the idle window; a run
  it gave up on was closed as \<open>completed\<close> at its last sign of life.\<close>

theorem current_run_is_live:
  assumes "current_run nid e k p at s = (Inr i, s')"
  shows "\<exists>r \<in> set (st_runs s'). run_id r = i \<and> running r \<and> run_engagement r = e \<and> run_kind r = k
    \<and> at - last_seen_us r \<le> IDLE_CLOSE_US"
proof (cases "newest (filter (\<lambda>r. run_engagement r = e \<and> run_kind r = k \<and> running r) (st_runs s))")
  case None
  with assms show ?thesis
    by (auto simp: current_run_def open_run_def last_seen_us_def running_def IDLE_CLOSE_US_def split: if_splits)
next
  case (Some r)
  then have r: "r \<in> set (st_runs s)" "run_engagement r = e" "run_kind r = k" "running r"
    using newest_mem [OF Some] by auto
  show ?thesis
  proof (cases "at - last_seen_us r \<le> IDLE_CLOSE_US")
    case True
    with assms Some r show ?thesis by (auto simp: current_run_def)
  next
    case False
    then obtain t where "open_run nid e k p at t = (Inr i, s')"
      using assms Some by (auto simp: current_run_def elim!: sbind_InrE)
    then show ?thesis
      by (auto simp: open_run_def last_seen_us_def running_def IDLE_CLOSE_US_def split: if_splits)
  qed
qed

theorem current_run_is_live_witness:
  "\<exists>r \<in> set (st_runs sample_store). run_id r = u ''r1'' \<and> running r \<and> run_engagement r = u ''e1'' \<and> run_kind r = u ''scan''
    \<and> 5 - last_seen_us r \<le> IDLE_CLOSE_US"
  by (rule current_run_is_live [where nid = "u ''r2''" and p = "u ''production''" and s = sample_store])
    (simp add: current_run_def sample_store_def running_def last_seen_us_def IDLE_CLOSE_US_def)

end
