(* ===== verification/Surface.thy ===== *)
theory Surface
  imports Store "HOL-Library.List_Lexorder"
begin

text \<open>
  The surface normaliser of \<open>src/hx/surface.py\<close>: a request's method and URL become the key of one surface.
  \<open>urlsplit\<close>, \<open>unquote\<close>, \<open>parse_qsl\<close> and \<open>quote\<close> of the standard library are modelled on code points; the
  checks \<open>urlsplit\<close> makes of an authority through \<open>unicodedata\<close> and \<open>ipaddress\<close> are the argument
  \<open>netloc_ok\<close>.
\<close>

section \<open>Percent encoding\<close>

definition hexd :: "nat \<Rightarrow> nat option" where
  "hexd c =
     (if 48 \<le> c \<and> c \<le> 57 then Some (c - 48)
      else if 65 \<le> c \<and> c \<le> 70 then Some (c - 55)
      else if 97 \<le> c \<and> c \<le> 102 then Some (c - 87)
      else None)"

text \<open>\<open>unquote_to_bytes\<close> on a run of ASCII characters.\<close>

fun unquote_bytes :: "pystr \<Rightarrow> bytes" where
  "unquote_bytes [] = []"
| "unquote_bytes (c # s) =
     (if c \<noteq> 37 then of_nat c # unquote_bytes s
      else case s of
        x # y # s' \<Rightarrow>
          (case (hexd x, hexd y) of
             (Some h, Some l) \<Rightarrow> of_nat (16 * h + l) # unquote_bytes s'
           | _ \<Rightarrow> 37 # unquote_bytes s)
      | _ \<Rightarrow> 37 # unquote_bytes s)"

text \<open>\<open>bytes.decode(errors="replace")\<close>: a maximal invalid prefix becomes one U+FFFD.\<close>

definition bad_prefix :: "bytes \<Rightarrow> nat" where
  "bad_prefix bs =
     (let second = (\<lambda>lo hi. 2 \<le> length bs \<and> lo \<le> unat (bs ! 1) \<and> unat (bs ! 1) \<le> hi);
          lead = unat (hd bs);
          ok2 = (if lead = 0xE0 then second 0xA0 0xBF
                 else if lead = 0xED then second 0x80 0x9F
                 else if 0xE1 \<le> lead \<and> lead \<le> 0xEF then second 0x80 0xBF
                 else if lead = 0xF0 then second 0x90 0xBF
                 else if 0xF1 \<le> lead \<and> lead \<le> 0xF3 then second 0x80 0xBF
                 else if lead = 0xF4 then second 0x80 0x8F
                 else False)
      in if \<not> ok2 then 1
         else if lead \<ge> 0xF0 \<and> 3 \<le> length bs \<and> cont (bs ! 2) then 3
         else 2)"

lemma bad_prefix_pos: "0 < bad_prefix bs"
  by (simp add: bad_prefix_def Let_def)

function utf8_decode_replace :: "bytes \<Rightarrow> pystr" where
  "utf8_decode_replace bs =
     (if bs = [] then []
      else case utf8_step bs of
        Some (c, rest) \<Rightarrow>
          if length rest < length bs then c # utf8_decode_replace rest else []
      | None \<Rightarrow> 0xFFFD # utf8_decode_replace (drop (bad_prefix bs) bs))"
  by auto

termination
  by (relation "measure length") (auto simp: bad_prefix_pos)

declare utf8_decode_replace.simps [simp del]

text \<open>\<open>unquote\<close>: each run of ASCII characters is decoded on its own, and under \<open>strict\<close> one undecodable run
  raises.\<close>

function unquote_strict :: "pystr \<Rightarrow> pystr option" where
  "unquote_strict s =
     (case s of
        [] \<Rightarrow> Some []
      | c # t \<Rightarrow>
          if c \<ge> 128 then map_option (Cons c) (unquote_strict t)
          else
            (case utf8_decode (unquote_bytes (takeWhile (\<lambda>c. c < 128) s)) of
               None \<Rightarrow> None
             | Some r \<Rightarrow> map_option ((@) r) (unquote_strict (dropWhile (\<lambda>c. c < 128) t))))"
  by auto

termination
  by (relation "measure length") (auto simp: le_imp_less_Suc length_dropWhile_le)

declare unquote_strict.simps [simp del]

function unquote_replace :: "pystr \<Rightarrow> pystr" where
  "unquote_replace s =
     (case s of
        [] \<Rightarrow> []
      | c # t \<Rightarrow>
          if c \<ge> 128 then c # unquote_replace t
          else utf8_decode_replace (unquote_bytes (takeWhile (\<lambda>c. c < 128) s))
               @ unquote_replace (dropWhile (\<lambda>c. c < 128) t))"
  by auto

termination
  by (relation "measure length") (auto simp: le_imp_less_Suc length_dropWhile_le)

declare unquote_replace.simps [simp del]

definition HEX_UPPER :: pystr where
  "HEX_UPPER = u ''0123456789ABCDEF''"

definition quote_byte :: "byte \<Rightarrow> pystr" where
  "quote_byte w =
     (let c = unat w in
      if is_alpha c \<or> is_digit c \<or> c \<in> {95, 46, 45, 126} then [c]
      else [37, HEX_UPPER ! (c div 16), HEX_UPPER ! (c mod 16)])"

definition quote :: "pystr \<Rightarrow> pystr option" where
  "quote s = map_option (\<lambda>bs. concat (map quote_byte bs)) (utf8_encode s)"

section \<open>urlsplit\<close>

record split_result =
  us_scheme :: pystr
  us_netloc :: pystr
  us_path :: pystr
  us_query :: pystr
  us_fragment :: pystr

definition scheme_char :: "nat \<Rightarrow> bool" where
  "scheme_char c \<longleftrightarrow> is_alpha c \<or> is_digit c \<or> c \<in> {43, 45, 46}"

definition split_scheme :: "pystr \<Rightarrow> pystr \<times> pystr" where
  "split_scheme url =
     (case py_find [58] url of
        None \<Rightarrow> ([], url)
      | Some i \<Rightarrow>
          if 0 < i \<and> is_alpha (hd url) \<and> (\<forall>c \<in> set (take i url). scheme_char c)
          then (lower (take i url), drop (i + 1) url) else ([], url))"

definition split_netloc :: "pystr \<Rightarrow> pystr \<times> pystr" where
  "split_netloc url =
     (if take 2 url = [47, 47]
      then (takeWhile (\<lambda>c. c \<notin> {47, 63, 35}) (drop 2 url), dropWhile (\<lambda>c. c \<notin> {47, 63, 35}) (drop 2 url))
      else ([], url))"

definition urlsplit :: "(pystr \<Rightarrow> bool) \<Rightarrow> pystr \<Rightarrow> store_exc + split_result" where
  "urlsplit netloc_ok url0 =
     (let url = filter (\<lambda>c. c \<notin> {9, 10, 13}) (dropWhile (\<lambda>c. c \<le> 32) url0);
          (scheme, rest) = split_scheme url;
          (netloc, rest) = split_netloc rest
      in if (91 \<in> set netloc) \<noteq> (93 \<in> set netloc) \<or> \<not> netloc_ok netloc then Inl ValueError
         else
           let (rest, _, fragment) = partition1 35 rest; (path, _, query) = partition1 63 rest in
           Inr \<lparr>us_scheme = scheme, us_netloc = netloc, us_path = path, us_query = query, us_fragment = fragment\<rparr>)"

definition hostinfo :: "pystr \<Rightarrow> pystr \<times> pystr option" where
  "hostinfo netloc =
     (let (_, _, info) = rpartition1 64 netloc;
          (_, have_open, bracketed) = partition1 91 info;
          (hostname, port) =
            (if have_open then
               (let (h, _, p) = partition1 93 bracketed; (_, _, q) = partition1 58 p in (h, q))
             else (let (h, _, p) = partition1 58 info in (h, p)))
      in (hostname, if port = [] then None else Some port))"

definition us_hostname :: "split_result \<Rightarrow> pystr option" where
  "us_hostname r =
     (let h = fst (hostinfo (us_netloc r)) in
      if h = [] then None
      else let (name, percent, zone) = partition1 37 h in Some (lower name @ (if percent then [37] else []) @ zone))"

definition us_port :: "split_result \<Rightarrow> store_exc + int option" where
  "us_port r =
     (case snd (hostinfo (us_netloc r)) of
        None \<Rightarrow> Inr None
      | Some p \<Rightarrow>
          if (\<forall>c \<in> set p. is_digit c) \<and> length p \<le> max_str_digits \<and> digits_val p \<le> 65535
          then Inr (Some (int (digits_val p))) else Inl ValueError)"

section \<open>Path templates\<close>

definition MAX_DECODE_ROUNDS :: nat where
  "MAX_DECODE_ROUNDS = 16"

definition decode_once :: "pystr \<Rightarrow> pystr" where
  "decode_once seg = (case unquote_strict seg of None \<Rightarrow> seg | Some s \<Rightarrow> s)"

fun decode_rounds :: "nat \<Rightarrow> pystr \<Rightarrow> pystr" where
  "decode_rounds 0 s = s"
| "decode_rounds (Suc n) s = (let nxt = decode_once s in if nxt = s then s else decode_rounds n nxt)"

definition decode_segment :: "pystr \<Rightarrow> pystr" where
  "decode_segment seg =
     (let decoded = decode_rounds MAX_DECODE_ROUNDS seg in if 47 \<in> set decoded then seg else decoded)"

definition kept_segment :: "pystr \<Rightarrow> pystr" where
  "kept_segment seg =
     concat (map (\<lambda>c. if c = 123 then u ''%7B'' else if c = 125 then u ''%7D'' else [c]) seg)"

definition PLACEHOLDERS :: "pystr list" where
  "PLACEHOLDERS = [u ''{id}'', u ''{uuid}'', u ''{hex}'', u ''{slug}'']"

definition is_digits :: "pystr \<Rightarrow> bool" where
  "is_digits s \<longleftrightarrow> s \<noteq> [] \<and> (\<forall>c \<in> set s. is_digit c)"

definition is_hex :: "pystr \<Rightarrow> bool" where
  "is_hex s \<longleftrightarrow> 32 \<le> length s \<and> (\<forall>c \<in> set s. hexd c \<noteq> None)"

definition is_uuid :: "pystr \<Rightarrow> bool" where
  "is_uuid s \<longleftrightarrow> length s = 36
     \<and> (\<forall>i < 36. if i \<in> {8, 13, 18, 23} then s ! i = 45 else hexd (s ! i) \<noteq> None)"

definition template_segment :: "pystr list \<Rightarrow> int \<Rightarrow> pystr \<Rightarrow> pystr" where
  "template_segment preserve slug_threshold seg =
     (let decoded = decode_segment seg in
      if decoded \<in> set preserve then kept_segment decoded
      else if is_digits decoded then u ''{id}''
      else if is_uuid decoded then u ''{uuid}''
      else if is_hex decoded then u ''{hex}''
      else if int (length decoded) \<ge> slug_threshold \<and> (\<exists>c \<in> set decoded. is_digit c) then u ''{slug}''
      else kept_segment decoded)"

definition path_template :: "pystr list \<Rightarrow> int \<Rightarrow> pystr \<Rightarrow> pystr" where
  "path_template preserve slug_threshold path =
     (if path = [] then [47]
      else
        let segments = split1 47 path in
        join [47] (hd segments # map (template_segment preserve slug_threshold) (tl segments)))"

section \<open>Query key sets and the key of a surface\<close>

definition encoded_key :: "pystr \<Rightarrow> pystr option" where
  "encoded_key key = (if key = [] then Some (u ''(empty)'') else quote key)"

definition query_keys :: "pystr \<Rightarrow> pystr list" where
  "query_keys query =
     map (\<lambda>nv. unquote_replace (map (\<lambda>c. if c = 43 then 32 else c) (fst (partition1 61 nv))))
       (filter (\<lambda>nv. nv \<noteq> []) (split1 38 query))"

definition query_key_set :: "pystr \<Rightarrow> store_exc + pystr" where
  "query_key_set query =
     (let keys = map encoded_key (sort (remdups (query_keys query))) in
      if None \<in> set keys then Inl ValueError else Inr (join [44] (map the keys)))"

definition SAFE_METHODS :: "pystr list" where
  "SAFE_METHODS = [u ''GET'', u ''HEAD'', u ''OPTIONS'']"

definition STATE_CHANGING :: "pystr list" where
  "STATE_CHANGING = [u ''POST'', u ''PUT'', u ''PATCH'', u ''DELETE'']"

definition kind_for :: "pystr \<Rightarrow> pystr" where
  "kind_for method =
     (if method \<in> set SAFE_METHODS then u ''idempotent_read''
      else if method \<in> set STATE_CHANGING then u ''state_changing''
      else u ''unknown'')"

definition default_port :: "pystr \<Rightarrow> int" where
  "default_port scheme = (if scheme = u ''http'' then 80 else if scheme = u ''https'' then 443 else 0)"

record normalised =
  nm_method :: pystr
  nm_scheme :: pystr
  nm_host :: pystr
  nm_port :: int
  nm_path_template :: pystr
  nm_query_key_set :: pystr
  nm_kind :: pystr
  nm_version :: int

definition NORMALISER_VERSION :: int where
  "NORMALISER_VERSION = 2"

definition normalise :: "(pystr \<Rightarrow> bool) \<Rightarrow> pystr list \<Rightarrow> int \<Rightarrow> pystr \<Rightarrow> pystr \<Rightarrow> store_exc + normalised" where
  "normalise netloc_ok preserve slug_threshold method url =
     rbind (urlsplit netloc_ok url) (\<lambda>parts.
     rbind (us_port parts) (\<lambda>port.
     rbind (query_key_set (us_query parts)) (\<lambda>keys.
       Inr \<lparr>nm_method = method, nm_scheme = us_scheme parts,
            nm_host = (case us_hostname parts of None \<Rightarrow> [] | Some h \<Rightarrow> h),
            nm_port = (case port of None \<Rightarrow> default_port (us_scheme parts) | Some p \<Rightarrow> p),
            nm_path_template = path_template preserve slug_threshold (us_path parts),
            nm_query_key_set = keys, nm_kind = kind_for method, nm_version = NORMALISER_VERSION\<rparr>)))"

end
