(* ===== verification/Surface_Laws.thy ===== *)
theory Surface_Laws
  imports Surface
begin

text \<open>
  What a surface key means: no path can forge a placeholder, templating keeps the shape of a path, two
  percent-spellings of a segment template alike, and the query field names a set of keys without
  ambiguity.
\<close>

section \<open>Percent encoding\<close>

lemma hexd_upper: "k < 16 \<Longrightarrow> hexd (HEX_UPPER ! k) = Some k"
proof -
  have "\<forall>k < 16. hexd (HEX_UPPER ! k) = Some k" by code_simp
  then show "k < 16 \<Longrightarrow> hexd (HEX_UPPER ! k) = Some k" by blast
qed

lemma hex_upper_ascii: "k < 16 \<Longrightarrow> HEX_UPPER ! k < 128 \<and> HEX_UPPER ! k \<noteq> 44"
proof -
  have "\<forall>k < 16. HEX_UPPER ! k < 128 \<and> HEX_UPPER ! k \<noteq> 44" by code_simp
  then show "k < 16 \<Longrightarrow> HEX_UPPER ! k < 128 \<and> HEX_UPPER ! k \<noteq> 44" by blast
qed

definition escape_of :: "nat \<Rightarrow> pystr" where
  "escape_of c = [37, HEX_UPPER ! (c div 16), HEX_UPPER ! (c mod 16)]"

lemma unquote_escape: "c < 256 \<Longrightarrow> unquote_bytes (escape_of c @ s) = of_nat c # unquote_bytes s"
proof -
  assume "c < 256"
  then have "c div 16 < 16" "c mod 16 < 16" "16 * (c div 16) + c mod 16 = c" by auto
  then show ?thesis by (simp add: escape_of_def hexd_upper)
qed

lemma unquote_quote_byte: "unquote_bytes (quote_byte w @ s) = w # unquote_bytes s"
proof (cases "is_alpha (unat w) \<or> is_digit (unat w) \<or> unat w \<in> {95, 46, 45, 126}")
  case True
  then have "unat w \<noteq> 37" by (auto simp: is_alpha_def is_digit_def)
  with True show ?thesis by (simp add: quote_byte_def)
next
  case False
  then have "quote_byte w = escape_of (unat w)" by (auto simp: quote_byte_def escape_of_def Let_def)
  with unquote_escape [of "unat w" s] word8_less [of w] show ?thesis by simp
qed

lemma unquote_quote: "unquote_bytes (concat (map quote_byte bs)) = bs"
  by (induction bs) (simp_all add: unquote_quote_byte)

lemma quote_chars: "quote s = Some q \<Longrightarrow> c \<in> set q \<Longrightarrow> is_alpha c \<or> is_digit c \<or> c \<in> {37, 45, 46, 95, 126}"
proof -
  have h: "is_digit (HEX_UPPER ! k) \<or> is_alpha (HEX_UPPER ! k)" if "k < 16" for k
  proof -
    have "\<forall>k < 16. is_digit (HEX_UPPER ! k) \<or> is_alpha (HEX_UPPER ! k)" by code_simp
    with that show ?thesis by blast
  qed
  have "c \<in> set (quote_byte w) \<Longrightarrow> is_alpha c \<or> is_digit c \<or> c \<in> {37, 45, 46, 95, 126}" for w
  proof -
    have "unat w div 16 < 16" "unat w mod 16 < 16" using word8_less [of w] by auto
    with h have "is_digit (HEX_UPPER ! (unat w div 16)) \<or> is_alpha (HEX_UPPER ! (unat w div 16))"
      "is_digit (HEX_UPPER ! (unat w mod 16)) \<or> is_alpha (HEX_UPPER ! (unat w mod 16))" by blast+
    then show "c \<in> set (quote_byte w) \<Longrightarrow> ?thesis" by (auto simp: quote_byte_def Let_def split: if_splits)
  qed
  then show "quote s = Some q \<Longrightarrow> c \<in> set q \<Longrightarrow> is_alpha c \<or> is_digit c \<or> c \<in> {37, 45, 46, 95, 126}"
    by (auto simp: quote_def)
qed

lemma quote_inj: "quote s = Some q \<Longrightarrow> quote t = Some q \<Longrightarrow> s = t"
proof -
  assume "quote s = Some q" "quote t = Some q"
  then obtain x y where e: "utf8_encode s = Some x" "utf8_encode t = Some y"
    and "concat (map quote_byte x) = concat (map quote_byte y)"
    by (auto simp: quote_def)
  then have "x = y" using unquote_quote by metis
  with e utf8_roundtrip [of s x] utf8_roundtrip [of t y] show ?thesis by simp
qed

lemma encoded_key_inj: "encoded_key s = Some q \<Longrightarrow> encoded_key t = Some q \<Longrightarrow> s = t"
proof -
  have p: "40 \<in> set (u ''(empty)'')" by (simp add: literals)
  have "quote s \<noteq> Some (u ''(empty)'')" for s
    using p quote_chars [of s "u ''(empty)''" 40] by (auto simp: is_alpha_def is_digit_def)
  then show "encoded_key s = Some q \<Longrightarrow> encoded_key t = Some q \<Longrightarrow> s = t"
    using quote_inj by (auto simp: encoded_key_def split: if_splits)
qed

lemma encoded_key_plain: "encoded_key s = Some q \<Longrightarrow> 44 \<notin> set q \<and> q \<noteq> []"
proof -
  assume e: "encoded_key s = Some q"
  have "44 \<notin> set q"
  proof (cases "s = []")
    case True
    with e have "q = u ''(empty)''" by (simp add: encoded_key_def)
    then show ?thesis by (simp add: literals)
  next
    case False
    with e quote_chars [of s q 44] show ?thesis by (auto simp: encoded_key_def is_alpha_def is_digit_def)
  qed
  moreover have "q \<noteq> []"
  proof
    assume "q = []"
    moreover have "s \<noteq> []" using e \<open>q = []\<close> by (auto simp: encoded_key_def literals)
    moreover have "quote [] = Some []" by (simp add: quote_def)
    ultimately show False using e quote_inj [of s "[]" "[]"] by (simp add: encoded_key_def)
  qed
  ultimately show ?thesis by simp
qed

section \<open>Templates\<close>

lemma kept_segment_chars: "c \<in> set (kept_segment s) \<Longrightarrow> c \<noteq> 123 \<and> c \<noteq> 125 \<and> (c \<in> set s \<or> c \<in> {37, 55, 66, 68})"
  by (auto simp: kept_segment_def literals split: if_splits)

lemma kept_not_placeholder: "kept_segment s \<notin> set PLACEHOLDERS"
proof
  assume "kept_segment s \<in> set PLACEHOLDERS"
  then have "123 \<in> set (kept_segment s)" by (auto simp: PLACEHOLDERS_def literals)
  then show False using kept_segment_chars by blast
qed

lemma decode_segment_no_slash: "47 \<notin> set s \<Longrightarrow> 47 \<notin> set (decode_segment s)"
  by (simp add: decode_segment_def Let_def)

lemma template_no_slash: "47 \<notin> set s \<Longrightarrow> 47 \<notin> set (template_segment p t s)"
proof -
  assume "47 \<notin> set s"
  then have "47 \<notin> set (decode_segment s)" by (rule decode_segment_no_slash)
  then have "47 \<notin> set (kept_segment (decode_segment s))"
    using kept_segment_chars [of 47 "decode_segment s"] by auto
  moreover have "47 \<notin> set (u ''{id}'')" "47 \<notin> set (u ''{uuid}'')" "47 \<notin> set (u ''{hex}'')" "47 \<notin> set (u ''{slug}'')"
    by (simp_all add: literals)
  ultimately show ?thesis by (simp add: template_segment_def Let_def)
qed

lemma path_template_split:
  assumes "path \<noteq> []"
  shows "split1 47 (path_template p t path) = hd (split1 47 path) # map (template_segment p t) (tl (split1 47 path))"
proof -
  obtain x xs where sp: "split1 47 path = x # xs" by (cases "split1 47 path") simp_all
  then have "\<forall>y \<in> set (x # xs). 47 \<notin> set y" using split1_free [of _ 47 path] by simp
  then have "\<forall>y \<in> set (x # map (template_segment p t) xs). 47 \<notin> set y" using template_no_slash by auto
  then have "split1 47 (join [47] (x # map (template_segment p t) xs)) = x # map (template_segment p t) xs"
    by (intro split1_join) simp_all
  with assms sp show ?thesis by (simp add: path_template_def)
qed

text \<open>Any spelling of a segment in which some of its characters are percent-encoded.\<close>

fun spelling :: "bool list \<Rightarrow> pystr \<Rightarrow> pystr" where
  "spelling (True # fs) (c # s) = escape_of c @ spelling fs s"
| "spelling (False # fs) (c # s) = c # spelling fs s"
| "spelling _ s = s"

lemma spelling_ascii: "\<forall>c \<in> set s. c < 128 \<and> c \<noteq> 37 \<Longrightarrow> c \<in> set (spelling fs s) \<Longrightarrow> c < 128"
proof (induction fs s rule: spelling.induct)
  case (1 fs d s)
  then have "d div 16 < 16" "d mod 16 < 16" by auto
  with 1 hex_upper_ascii [of "d div 16"] hex_upper_ascii [of "d mod 16"] show ?case by (auto simp: escape_of_def)
qed auto

lemma unquote_plain: "37 \<notin> set s \<Longrightarrow> unquote_bytes s = map of_nat s"
  by (induction s) auto

lemma unquote_spelling:
  "\<forall>c \<in> set s. c < 128 \<and> c \<noteq> 37 \<Longrightarrow> unquote_bytes (spelling fs s) = map of_nat s"
proof (induction fs s rule: spelling.induct)
  case (1 fs c s)
  then show ?case by (simp add: unquote_escape)
qed (auto simp: unquote_plain)

lemma utf8_decode_ascii: "\<forall>c \<in> set s. c < 128 \<Longrightarrow> utf8_decode (map of_nat s) = Some s"
proof -
  assume a: "\<forall>c \<in> set s. c < 128"
  then have "utf8_encode s = Some (map of_nat s)"
    by (induction s) (simp_all add: utf8_char_def)
  then show ?thesis by (rule utf8_roundtrip)
qed

lemma decode_once_spelling: "\<forall>c \<in> set s. c < 128 \<and> c \<noteq> 37 \<Longrightarrow> decode_once (spelling fs s) = s"
proof -
  assume a: "\<forall>c \<in> set s. c < 128 \<and> c \<noteq> 37"
  let ?t = "spelling fs s"
  have all: "\<forall>c \<in> set ?t. c < 128" using spelling_ascii [OF a] by blast
  have "unquote_strict ?t = Some s"
  proof (cases ?t)
    case Nil
    then have "s = []" using unquote_spelling [OF a, of fs] by simp
    then show ?thesis by (simp add: Nil unquote_strict.simps)
  next
    case (Cons d t)
    have tw: "takeWhile (\<lambda>c. c < 128) ?t = ?t" and dw: "dropWhile (\<lambda>c. c < 128) t = []"
      using all Cons by (auto simp: takeWhile_eq_all_conv)
    have "utf8_decode (unquote_bytes ?t) = Some s"
      using unquote_spelling [OF a, of fs] utf8_decode_ascii [of s] a by simp
    moreover have "unquote_strict ?t = (case utf8_decode (unquote_bytes (takeWhile (\<lambda>c. c < 128) ?t)) of
        None \<Rightarrow> None | Some r \<Rightarrow> map_option ((@) r) (unquote_strict (dropWhile (\<lambda>c. c < 128) t)))"
      using all by (subst unquote_strict.simps) (simp add: Cons)
    ultimately show ?thesis by (simp only: tw dw option.case) (simp add: unquote_strict.simps [of "[]"])
  qed
  then show ?thesis by (simp add: decode_once_def)
qed

lemma decode_segment_spelling:
  assumes "\<forall>c \<in> set s. c < 128 \<and> c \<noteq> 37 \<and> c \<noteq> 47"
  shows "decode_segment (spelling fs s) = s"
proof -
  have a: "\<forall>c \<in> set s. c < 128 \<and> c \<noteq> 37" using assms by blast
  have one: "decode_once s = s" using decode_once_spelling [OF a, of "[]"] by (cases s) simp_all
  have "decode_rounds (Suc (Suc n)) (spelling fs s) = s" for n
    using decode_once_spelling [OF a, of fs] one by (simp add: Let_def)
  from this [of 14] assms show ?thesis by (auto simp: decode_segment_def MAX_DECODE_ROUNDS_def Let_def)
qed

section \<open>Properties\<close>


text \<open>Templating keeps the shape of a path: the template of a path has its segments one for one, the
  first as it was and each of the others templated on its own, so no encoded slash moves a
  segment boundary and a trailing slash stays.\<close>

theorem path_template_shape:
  "path \<noteq> [] \<Longrightarrow> split1 47 (path_template preserve threshold path) =
    hd (split1 47 path) # map (template_segment preserve threshold) (tl (split1 47 path))"
  by (rule path_template_split)

text \<open>One segment, one template, however it is spelt: for a segment of ASCII characters other than the
  percent sign and the slash, every spelling with some of its characters percent-encoded templates like
  the plain one.\<close>

theorem spelling_invariance:
  "\<forall>c \<in> set s. c < 128 \<and> c \<noteq> 37 \<and> c \<noteq> 47 \<Longrightarrow>
    template_segment preserve threshold (spelling fs s) = template_segment preserve threshold s"
  using decode_segment_spelling [of s fs] decode_segment_spelling [of s "[]"]
  by (cases s) (simp_all add: template_segment_def)

theorem spelling_invariance_witness:
  "template_segment [] 20 (spelling [True, False] (u ''2024'')) = template_segment [] 20 (u ''2024'')"
  by (rule spelling_invariance) (simp add: literals)

text \<open>The query field names a set of keys without ambiguity: two queries get the same field exactly
  when they carry the same set of parameter names, whatever the names contain.\<close>

theorem query_key_set_faithful:
  assumes "query_key_set q = Inr r" "query_key_set q' = Inr r'"
  shows "r = r' \<longleftrightarrow> set (query_keys q) = set (query_keys q')"
proof
  have ok: "\<forall>k \<in> set (query_keys q0). encoded_key k \<noteq> None"
    and r0: "x = join [44] (map (\<lambda>k. the (encoded_key k)) (sort (remdups (query_keys q0))))"
    if "query_key_set q0 = Inr x" for q0 x
  proof -
    have n: "None \<notin> set (map encoded_key (sort (remdups (query_keys q0))))"
      and x: "x = join [44] (map the (map encoded_key (sort (remdups (query_keys q0)))))"
      using that by (auto simp: query_key_set_def Let_def split: if_splits)
    from n show "\<forall>k \<in> set (query_keys q0). encoded_key k \<noteq> None"
      by (auto simp: image_iff) (metis not_None_eq)
    from x show "x = join [44] (map (\<lambda>k. the (encoded_key k)) (sort (remdups (query_keys q0))))"
      by (simp add: o_def)
  qed
  show "set (query_keys q) = set (query_keys q') \<Longrightarrow> r = r'"
    using r0 [OF assms(1)] r0 [OF assms(2)] by (metis sorted_list_of_set_sort_remdups)
  assume "r = r'"
  let ?e = "\<lambda>k. the (encoded_key k)"
  let ?K = "sort (remdups (query_keys q))" and ?K' = "sort (remdups (query_keys q'))"
  have free: "\<forall>x \<in> set (map ?e K). 44 \<notin> set x \<and> x \<noteq> []"
    if "\<forall>k \<in> set K. encoded_key k \<noteq> None" for K
    using that encoded_key_plain by (auto simp: image_iff)
  have okK: "\<forall>k \<in> set ?K. encoded_key k \<noteq> None" "\<forall>k \<in> set ?K'. encoded_key k \<noteq> None"
    using ok [OF assms(1)] ok [OF assms(2)] by auto
  have eq: "join [44] (map ?e ?K) = join [44] (map ?e ?K')"
    using r0 [OF assms(1)] r0 [OF assms(2)] \<open>r = r'\<close> by simp
  have "map ?e ?K = map ?e ?K'"
  proof (cases "?K = [] \<or> ?K' = []")
    case True
    have "K = []" if "join [44] (map ?e K) = []" "\<forall>k \<in> set K. encoded_key k \<noteq> None" for K
      using that free [of K] by (cases K; cases "tl K") auto
    from this [of ?K] this [of ?K'] True eq okK show ?thesis by auto
  next
    case False
    have sj: "split1 44 (join [44] (map ?e K)) = map ?e K" if "K \<noteq> []" "\<forall>k \<in> set K. encoded_key k \<noteq> None" for K
    proof (rule split1_join)
      show "\<forall>x \<in> set (map ?e K). 44 \<notin> set x" using free [OF that(2)] by blast
    qed (use that(1) in simp)
    have "map ?e ?K = split1 44 (join [44] (map ?e ?K))" using sj [OF _ okK(1)] False by (metis (no_types))
    also have "\<dots> = split1 44 (join [44] (map ?e ?K'))" by (simp only: eq)
    also have "\<dots> = map ?e ?K'" using sj [OF _ okK(2)] False by (metis (no_types))
    finally show ?thesis .
  qed
  then have "?e ` set ?K = ?e ` set ?K'" by (metis list.set_map)
  moreover have "inj_on ?e (set ?K \<union> set ?K')"
  proof (rule inj_onI)
    fix x y assume "x \<in> set ?K \<union> set ?K'" "y \<in> set ?K \<union> set ?K'" "?e x = ?e y"
    then have "encoded_key x = Some (?e x)" "encoded_key y = Some (?e x)" using okK by auto
    then show "x = y" by (rule encoded_key_inj)
  qed
  ultimately have "set ?K = set ?K'" by (metis Un_upper1 Un_upper2 inj_on_image_eq_iff)
  then show "set (query_keys q) = set (query_keys q')" by simp
qed

theorem query_key_set_faithful_witness:
  "u ''a,b'' = u ''a%2Cb'' \<longleftrightarrow> set (query_keys (u ''b=1&a=2'')) = set (query_keys (u ''a%2Cb=1''))"
  by (rule query_key_set_faithful) code_simp+

end
