(* ===== verification/Frontier.thy ===== *)
theory Frontier
  imports Surface
begin

text \<open>
  The crawler's frontier and loop, \<open>src/hx/crawl/frontier.py\<close> and \<open>src/hx/crawl/run.py\<close>. The clock is a
  function of the number of times it was read, and \<open>visit\<close>, the page visitor the crawl is given, a function
  of the number of the visit and the URL that returns the page's outcome and links or raises. Times are
  counted in the clock's ticks.
\<close>

section \<open>URLs\<close>

text \<open>\<open>urlunsplit\<close> for a URL with a scheme and a netloc, whose path is empty or starts with a slash.\<close>

definition urlunsplit :: "pystr \<Rightarrow> pystr \<Rightarrow> pystr \<Rightarrow> pystr \<Rightarrow> pystr" where
  "urlunsplit scheme netloc path query =
     scheme @ [58] @ [47, 47] @ netloc @ (if path \<noteq> [] \<and> hd path \<noteq> 47 then [47] else []) @ path
     @ (if query = [] then [] else [63] @ query)"

text \<open>\<open>parts.username is not None or parts.password is not None\<close>: the authority has an at sign.\<close>

definition has_userinfo :: "split_result \<Rightarrow> bool" where
  "has_userinfo r \<longleftrightarrow> 64 \<in> set (us_netloc r)"

definition DEFAULT_PORTS :: "(pystr \<times> int) list" where
  "DEFAULT_PORTS = [(u ''http'', 80), (u ''https'', 443)]"

definition crawl_netloc :: "pystr \<Rightarrow> pystr \<Rightarrow> int option \<Rightarrow> pystr" where
  "crawl_netloc scheme host port =
     (let netloc = (if 58 \<in> set host then [91] @ host @ [93] else lower host)
      in case port of
           None \<Rightarrow> netloc
         | Some p \<Rightarrow> if p \<noteq> 0 \<and> map_of DEFAULT_PORTS scheme \<noteq> Some p then netloc @ [58] @ dump_int p else netloc)"

definition normalise_url :: "(pystr \<Rightarrow> bool) \<Rightarrow> pystr \<Rightarrow> pystr option" where
  "normalise_url netloc_ok url =
     (case urlsplit netloc_ok url of
        Inl _ \<Rightarrow> None
      | Inr parts \<Rightarrow>
          (case us_port parts of
             Inl _ \<Rightarrow> None
           | Inr port \<Rightarrow>
               (case us_hostname parts of
                  None \<Rightarrow> None
                | Some host \<Rightarrow>
                    if us_scheme parts \<notin> {u ''http'', u ''https''} then None
                    else if has_userinfo parts then None
                    else Some (urlunsplit (us_scheme parts) (crawl_netloc (us_scheme parts) host port)
                                (if us_path parts = [] then [47] else us_path parts) (us_query parts)))))"

definition origin_of :: "(pystr \<Rightarrow> bool) \<Rightarrow> pystr \<Rightarrow> pystr option" where
  "origin_of netloc_ok url =
     (case normalise_url netloc_ok url of
        None \<Rightarrow> None
      | Some n \<Rightarrow>
          (case urlsplit netloc_ok n of
             Inl _ \<Rightarrow> None
           | Inr parts \<Rightarrow> Some (us_scheme parts @ [58, 47, 47] @ us_netloc parts)))"

section \<open>The frontier\<close>

record budget =
  max_pages :: int
  max_seconds :: int
  max_requests :: int

record frontier =
  fr_budget :: budget
  fr_clock :: "nat \<Rightarrow> int"
  fr_reads :: nat
  fr_started :: int
  fr_queue :: "pystr list"
  fr_seen :: "pystr list"
  fr_origins :: "pystr list"
  fr_requests :: int
  fr_visited :: int
  fr_exhausted :: "pystr option"

definition enqueue :: "(pystr \<Rightarrow> bool) \<Rightarrow> pystr \<Rightarrow> frontier \<Rightarrow> bool \<times> frontier" where
  "enqueue netloc_ok url f =
     (case normalise_url netloc_ok url of
        None \<Rightarrow> (False, f)
      | Some n \<Rightarrow>
          (case origin_of netloc_ok n of
             None \<Rightarrow> (False, f)
           | Some origin \<Rightarrow>
               if origin \<notin> set (fr_origins f) then (False, f)
               else if n \<in> set (fr_seen f) then (False, f)
               else (True, f\<lparr>fr_seen := n # fr_seen f, fr_queue := fr_queue f @ [n]\<rparr>)))"

fun offer :: "(pystr \<Rightarrow> bool) \<Rightarrow> pystr list \<Rightarrow> frontier \<Rightarrow> nat \<times> frontier" where
  "offer netloc_ok [] f = (0, f)"
| "offer netloc_ok (url # urls) f =
     (let (new, f) = enqueue netloc_ok url f; (n, f) = offer netloc_ok urls f
      in (if new then Suc n else n, f))"

definition seed_origins :: "(pystr \<Rightarrow> bool) \<Rightarrow> pystr list \<Rightarrow> pystr list" where
  "seed_origins netloc_ok seeds = remdups (List.map_filter (origin_of netloc_ok) seeds)"

definition new_frontier :: "(pystr \<Rightarrow> bool) \<Rightarrow> pystr list \<Rightarrow> budget \<Rightarrow> (nat \<Rightarrow> int) \<Rightarrow> frontier" where
  "new_frontier netloc_ok seeds bud clock =
     snd (offer netloc_ok seeds
       \<lparr>fr_budget = bud, fr_clock = clock, fr_reads = 1, fr_started = clock 0, fr_queue = [], fr_seen = [],
        fr_origins = seed_origins netloc_ok seeds, fr_requests = 0, fr_visited = 0, fr_exhausted = None\<rparr>)"

definition note_requests :: "int \<Rightarrow> frontier \<Rightarrow> frontier" where
  "note_requests n f = f\<lparr>fr_requests := fr_requests f + n\<rparr>"

definition next_url :: "frontier \<Rightarrow> pystr option \<times> frontier" where
  "next_url f =
     (if fr_visited f \<ge> max_pages (fr_budget f) then (None, f\<lparr>fr_exhausted := Some (u ''max_pages'')\<rparr>)
      else if fr_requests f \<ge> max_requests (fr_budget f) then (None, f\<lparr>fr_exhausted := Some (u ''max_requests'')\<rparr>)
      else
        let now = fr_clock f (fr_reads f); f = f\<lparr>fr_reads := Suc (fr_reads f)\<rparr> in
        if now - fr_started f \<ge> max_seconds (fr_budget f) then (None, f\<lparr>fr_exhausted := Some (u ''max_seconds'')\<rparr>)
        else case fr_queue f of
               [] \<Rightarrow> (None, f)
             | url # queue \<Rightarrow> (Some url, f\<lparr>fr_visited := fr_visited f + 1, fr_queue := queue\<rparr>))"

section \<open>The crawl\<close>

record page_result =
  pg_state :: pystr
  pg_capped :: bool
  pg_load_errors :: nat
  pg_requests :: int
  pg_dropped_hosts :: "pystr list"

record tally =
  ta_counts :: "pystr \<Rightarrow> int"
  ta_capped :: int
  ta_load_failed :: int
  ta_requests :: int
  ta_dropped :: "pystr list"

definition tally0 :: tally where
  "tally0 = \<lparr>ta_counts = (\<lambda>_. 0), ta_capped = 0, ta_load_failed = 0, ta_requests = 0, ta_dropped = []\<rparr>"

definition tally_page :: "page_result \<Rightarrow> tally \<Rightarrow> tally" where
  "tally_page r t =
     t\<lparr>ta_counts := (ta_counts t)(pg_state r := ta_counts t (pg_state r) + 1),
       ta_capped := ta_capped t + (if pg_capped r then 1 else 0),
       ta_load_failed := ta_load_failed t + (if 0 < pg_load_errors r then 1 else 0),
       ta_requests := ta_requests t + pg_requests r,
       ta_dropped := remdups (ta_dropped t @ pg_dropped_hosts r)\<rparr>"

record crawl_summary =
  cs_pages :: int
  cs_rendered :: int
  cs_degraded :: int
  cs_failed :: int
  cs_capped :: int
  cs_requests :: int
  cs_dropped_hosts :: "pystr list"
  cs_truncated_by :: "pystr option"
  cs_load_failed :: int

type_synonym 'e visitor = "nat \<Rightarrow> pystr \<Rightarrow> 'e + (page_result \<times> pystr list)"

lemma enqueue_same: "fr_visited (snd (enqueue ok url f)) = fr_visited f \<and> fr_budget (snd (enqueue ok url f)) = fr_budget f"
  by (simp add: enqueue_def split: option.split)

lemma offer_same [simp]:
  "fr_visited (snd (offer ok urls f)) = fr_visited f" "fr_budget (snd (offer ok urls f)) = fr_budget f"
  by (induction urls arbitrary: f) (auto simp: enqueue_same split_beta Let_def)

lemma next_url_Some:
  "next_url f = (Some url, f') \<Longrightarrow>
     fr_visited f < max_pages (fr_budget f) \<and> fr_visited f' = fr_visited f + 1 \<and> fr_budget f' = fr_budget f"
  by (auto simp: next_url_def Let_def split: if_splits list.splits)

text \<open>The \<open>while True\<close> loop; the log is the list of URLs given to \<open>visit\<close>, in order.\<close>

function crawl_loop :: "(pystr \<Rightarrow> bool) \<Rightarrow> 'e visitor \<Rightarrow> pystr list \<Rightarrow> tally \<Rightarrow> frontier
    \<Rightarrow> 'e option \<times> pystr list \<times> tally \<times> frontier" where
  "crawl_loop netloc_ok visit log t f =
     (case next_url f of
        (None, f) \<Rightarrow> (None, log, t, f)
      | (Some url, f) \<Rightarrow>
          (case visit (length log) url of
             Inl e \<Rightarrow> (Some e, log @ [url], t, f)
           | Inr (r, links) \<Rightarrow>
               crawl_loop netloc_ok visit (log @ [url]) (tally_page r t)
                 (snd (offer netloc_ok links (note_requests (pg_requests r) f)))))"
  by pat_completeness auto

termination
  by (relation "measure (\<lambda>(_, _, _, _, f). nat (max_pages (fr_budget f) - fr_visited f))")
    (auto simp: note_requests_def dest!: sym [of _ "next_url _"] next_url_Some)

declare crawl_loop.simps [simp del]

definition final_summary :: "tally \<Rightarrow> frontier \<Rightarrow> crawl_summary" where
  "final_summary t f =
     \<lparr>cs_pages = fr_visited f, cs_rendered = ta_counts t (u ''rendered''), cs_degraded = ta_counts t (u ''degraded''),
      cs_failed = ta_counts t (u ''failed''), cs_capped = ta_capped t, cs_requests = ta_requests t,
      cs_dropped_hosts = sort (ta_dropped t), cs_truncated_by = fr_exhausted f, cs_load_failed = ta_load_failed t\<rparr>"

definition crawl :: "(pystr \<Rightarrow> bool) \<Rightarrow> 'e visitor \<Rightarrow> (nat \<Rightarrow> int) \<Rightarrow> pystr list \<Rightarrow> budget
    \<Rightarrow> pystr list \<times> ('e + crawl_summary)" where
  "crawl netloc_ok visit clock seeds bud =
     (case crawl_loop netloc_ok visit [] tally0 (new_frontier netloc_ok seeds bud clock) of
        (Some e, log, _) \<Rightarrow> (log, Inl e)
      | (None, log, t, f) \<Rightarrow> (log, Inr (final_summary t f)))"

end
