(* ===== verification/Frontier_Laws.thy ===== *)
theory Frontier_Laws
  imports Frontier
begin

text \<open>
  What a crawl promises: it ends within its page and request budgets, opens no URL twice and none outside
  the origins of its seeds, and a crawl that reports no truncation has opened every page it was told of.
\<close>

section \<open>The frontier's invariant\<close>

definition in_scope :: "(pystr \<Rightarrow> bool) \<Rightarrow> pystr list \<Rightarrow> pystr \<Rightarrow> bool" where
  "in_scope ok origins n \<longleftrightarrow> origin_of ok n \<in> Some ` set origins"

definition frontier_inv :: "(pystr \<Rightarrow> bool) \<Rightarrow> pystr list \<Rightarrow> budget \<Rightarrow> pystr list \<Rightarrow> frontier \<Rightarrow> bool" where
  "frontier_inv ok origins bud log f \<longleftrightarrow>
     fr_origins f = origins \<and> fr_budget f = bud \<and> fr_visited f = int (length log) \<and>
     distinct (log @ fr_queue f) \<and> set (fr_seen f) = set (log @ fr_queue f) \<and>
     (\<forall>n \<in> set (fr_seen f). in_scope ok origins n)"

lemma enqueue_inv:
  "frontier_inv ok origins bud log f \<Longrightarrow> frontier_inv ok origins bud log (snd (enqueue ok url f))"
  by (auto simp: frontier_inv_def enqueue_def in_scope_def split: option.split)

lemma enqueue_effect:
  "fr_requests (snd (enqueue ok url f)) = fr_requests f \<and> fr_origins (snd (enqueue ok url f)) = fr_origins f
   \<and> fr_exhausted (snd (enqueue ok url f)) = fr_exhausted f
   \<and> set (fr_seen f) \<subseteq> set (fr_seen (snd (enqueue ok url f)))
   \<and> (normalise_url ok url = Some n \<longrightarrow> in_scope ok (fr_origins f) n \<longrightarrow> n \<in> set (fr_seen (snd (enqueue ok url f))))"
  by (auto simp: enqueue_def in_scope_def split: option.split)

lemma offer_inv:
  "frontier_inv ok origins bud log f \<Longrightarrow> frontier_inv ok origins bud log (snd (offer ok urls f))"
  by (induction urls arbitrary: f) (auto simp: split_beta Let_def dest: enqueue_inv)

lemma offer_effect:
  "fr_requests (snd (offer ok urls f)) = fr_requests f \<and> fr_origins (snd (offer ok urls f)) = fr_origins f
   \<and> fr_exhausted (snd (offer ok urls f)) = fr_exhausted f \<and> set (fr_seen f) \<subseteq> set (fr_seen (snd (offer ok urls f)))
   \<and> (\<forall>url \<in> set urls. \<forall>n. normalise_url ok url = Some n \<longrightarrow> in_scope ok (fr_origins f) n
        \<longrightarrow> n \<in> set (fr_seen (snd (offer ok urls f))))"
proof (induction urls arbitrary: f)
  case (Cons url urls)
  show ?case
    using Cons.IH [of "snd (enqueue ok url f)"] enqueue_effect [of ok url f]
    by (auto simp: split_beta Let_def)
qed simp

lemma new_frontier_inv: "frontier_inv ok (seed_origins ok seeds) bud [] (new_frontier ok seeds bud clock)"
  unfolding new_frontier_def by (rule offer_inv) (simp add: frontier_inv_def)

lemma next_url_inv:
  assumes "next_url f = (Some url, f')" "frontier_inv ok origins bud log f"
  shows "frontier_inv ok origins bud (log @ [url]) f'" "int (length log) < max_pages bud" "fr_requests f < max_requests bud"
    "fr_requests f' = fr_requests f" "fr_exhausted f' = fr_exhausted f"
  using assms by (auto simp: frontier_inv_def next_url_def Let_def split: if_splits list.splits)

lemma next_url_None:
  assumes "next_url f = (None, f')" "frontier_inv ok origins bud log f"
  shows "frontier_inv ok origins bud log f'" "fr_exhausted f' = None \<Longrightarrow> fr_queue f' = []" "fr_seen f' = fr_seen f"
  using assms by (auto simp: frontier_inv_def next_url_def Let_def split: if_splits list.splits)

section \<open>The loop\<close>

text \<open>What the first \<open>k\<close> pages of a log cost, and the links a visit returned.\<close>

definition page_cost :: "'e visitor \<Rightarrow> pystr list \<Rightarrow> nat \<Rightarrow> int" where
  "page_cost visit log i = (case visit i (log ! i) of Inl _ \<Rightarrow> 0 | Inr (r, _) \<Rightarrow> pg_requests r)"

definition links_of :: "'e visitor \<Rightarrow> pystr list \<Rightarrow> nat \<Rightarrow> pystr list" where
  "links_of visit log i = (case visit i (log ! i) of Inl _ \<Rightarrow> [] | Inr (_, links) \<Rightarrow> links)"

definition spent :: "'e visitor \<Rightarrow> pystr list \<Rightarrow> nat \<Rightarrow> int" where
  "spent visit log k = sum_list (map (page_cost visit log) [0..<k])"

definition covered :: "(pystr \<Rightarrow> bool) \<Rightarrow> pystr list \<Rightarrow> pystr list \<Rightarrow> pystr list \<Rightarrow> bool" where
  "covered ok origins urls seen \<longleftrightarrow>
     (\<forall>url \<in> set urls. \<forall>n. normalise_url ok url = Some n \<longrightarrow> in_scope ok origins n \<longrightarrow> n \<in> set seen)"

lemma page_cost_append [simp]: "i < length log \<Longrightarrow> page_cost visit (log @ xs) i = page_cost visit log i"
  by (simp add: page_cost_def nth_append)

lemma links_of_append [simp]: "i < length log \<Longrightarrow> links_of visit (log @ xs) i = links_of visit log i"
  by (simp add: links_of_def nth_append)

lemma spent_append [simp]: "k \<le> length log \<Longrightarrow> spent visit (log @ xs) k = spent visit log k"
  by (auto simp: spent_def intro!: arg_cong [of _ _ sum_list])

lemma spent_Suc: "spent visit log (Suc k) = spent visit log k + page_cost visit log k"
  by (simp add: spent_def)

lemma covered_mono: "covered ok origins urls seen \<Longrightarrow> set seen \<subseteq> set seen' \<Longrightarrow> covered ok origins urls seen'"
  by (auto simp: covered_def)

definition loop_inv :: "(pystr \<Rightarrow> bool) \<Rightarrow> 'e visitor \<Rightarrow> pystr list \<Rightarrow> budget \<Rightarrow> pystr list \<Rightarrow> frontier \<Rightarrow> bool" where
  "loop_inv ok visit origins bud log f \<longleftrightarrow>
     frontier_inv ok origins bud log f \<and> fr_exhausted f = None \<and> int (length log) \<le> max 0 (max_pages bud) \<and>
     fr_requests f = spent visit log (length log) \<and> (\<forall>k < length log. spent visit log k < max_requests bud) \<and>
     (\<forall>i < length log. covered ok origins (links_of visit log i) (fr_seen f))"

lemma loop_inv_step:
  assumes inv: "loop_inv ok visit origins bud log f" and nxt: "next_url f = (Some url, f')"
    and v: "visit (length log) url = Inr (r, links)"
  shows "loop_inv ok visit origins bud (log @ [url]) (snd (offer ok links (note_requests (pg_requests r) f')))"
proof -
  let ?g = "note_requests (pg_requests r) f'" and ?log = "log @ [url]"
  note fi = next_url_inv [OF nxt, of ok origins bud log]
  have base: "frontier_inv ok origins bud ?log ?g"
    using inv fi(1) by (simp add: loop_inv_def note_requests_def frontier_inv_def)
  have seen: "fr_seen f' = fr_seen f" "fr_origins f' = origins"
    using nxt inv by (auto simp: loop_inv_def frontier_inv_def next_url_def Let_def split: if_splits list.splits)
  have cost: "page_cost visit ?log (length log) = pg_requests r" "links_of visit ?log (length log) = links"
    using v by (simp_all add: page_cost_def links_of_def)
  note eff = offer_effect [of ok links ?g]
  have cov: "covered ok origins links (fr_seen (snd (offer ok links ?g)))"
    using eff seen by (auto simp: covered_def note_requests_def)
  have "covered ok origins (links_of visit ?log i) (fr_seen (snd (offer ok links ?g)))" if "i < length ?log" for i
  proof (cases "i = length log")
    case False
    with that inv have "covered ok origins (links_of visit log i) (fr_seen f)" by (simp add: loop_inv_def)
    moreover have "set (fr_seen f) \<subseteq> set (fr_seen (snd (offer ok links ?g)))"
      using eff seen(1) by (simp add: note_requests_def)
    ultimately show ?thesis using False that by (simp add: covered_mono)
  qed (use cov cost(2) in simp)
  moreover have "spent visit ?log k < max_requests bud" if "k < length ?log" for k
    using that inv fi(3) by (cases "k = length log") (auto simp: loop_inv_def)
  moreover have "fr_requests (snd (offer ok links ?g)) = spent visit ?log (length ?log)"
    using eff inv fi(4) cost(1) by (simp add: loop_inv_def note_requests_def spent_Suc)
  moreover have "fr_exhausted (snd (offer ok links ?g)) = None"
    using eff inv fi(5) by (simp add: loop_inv_def note_requests_def)
  ultimately show ?thesis
    using offer_inv [OF base] inv fi(2) by (simp add: loop_inv_def)
qed

lemma crawl_loop_inv:
  assumes "crawl_loop ok visit log t f = (e, log', t', f')" "loop_inv ok visit origins bud log f"
  shows "distinct log' \<and> (\<forall>n \<in> set log'. in_scope ok origins n) \<and> int (length log') \<le> max 0 (max_pages bud) \<and>
     fr_visited f' = int (length log') \<and> (\<forall>k < length log'. spent visit log' k < max_requests bud) \<and>
     set (fr_seen f) \<subseteq> set (fr_seen f') \<and>
     (e = None \<longrightarrow> fr_exhausted f' = None \<longrightarrow>
        set (fr_seen f') = set log' \<and> (\<forall>i < length log'. covered ok origins (links_of visit log' i) log'))"
  using assms
proof (induction ok visit log t f rule: crawl_loop.induct)
  case (1 ok visit log t f)
  obtain nu f1 where nxt: "next_url f = (nu, f1)" by fastforce
  show ?case
  proof (cases nu)
    case None
    have fin: "frontier_inv ok origins bud log f1" "fr_exhausted f1 = None \<Longrightarrow> fr_queue f1 = []" "fr_seen f1 = fr_seen f"
      using next_url_None [of f f1 ok origins bud log] nxt None 1(3) by (auto simp: loop_inv_def)
    have res: "e = None" "log' = log" "f' = f1"
      using 1(2) nxt None by (simp_all add: crawl_loop.simps [of ok visit log])
    show ?thesis
      using 1(3) fin res by (auto simp: loop_inv_def frontier_inv_def intro: covered_mono)
  next
    case (Some url)
    note fi = next_url_inv [OF nxt [unfolded Some], of ok origins bud log]
    have keep: "fr_seen f1 = fr_seen f"
      using nxt Some by (auto simp: next_url_def Let_def split: if_splits list.splits)
    show ?thesis
    proof (cases "visit (length log) url")
      case (Inl err)
      have res: "e = Some err" "log' = log @ [url]" "f' = f1"
        using 1(2) nxt Some Inl by (simp_all add: crawl_loop.simps [of ok visit log])
      have "spent visit log' k < max_requests bud" if "k < length log'" for k
        using that 1(3) fi(3) res by (cases "k = length log") (auto simp: loop_inv_def)
      moreover have "frontier_inv ok origins bud log' f1" "int (length log) < max_pages bud"
        using fi(1,2) 1(3) res by (auto simp: loop_inv_def)
      ultimately show ?thesis
        using res keep by (auto simp: frontier_inv_def)
    next
      case (Inr p)
      obtain r links where p: "p = (r, links)" by fastforce
      let ?g = "snd (offer ok links (note_requests (pg_requests r) f1))"
      have rec: "crawl_loop ok visit (log @ [url]) (tally_page r t) ?g = (e, log', t', f')"
        using 1(2) nxt Some Inr p by (simp add: crawl_loop.simps [of ok visit log])
      have inv: "loop_inv ok visit origins bud (log @ [url]) ?g"
        using loop_inv_step 1(3) nxt Some Inr p by blast
      have "set (fr_seen f) \<subseteq> set (fr_seen ?g)"
        using offer_effect [of ok links "note_requests (pg_requests r) f1"] keep by (simp add: note_requests_def)
      with 1(1) [OF nxt [symmetric] Some Inr p [symmetric] rec inv] show ?thesis by blast
    qed
  qed
qed

lemma new_frontier_loop_inv: "loop_inv ok visit (seed_origins ok seeds) bud [] (new_frontier ok seeds bud clock)"
proof -
  have "fr_requests (new_frontier ok seeds bud clock) = 0" "fr_exhausted (new_frontier ok seeds bud clock) = None"
    using offer_effect by (simp_all add: new_frontier_def)
  then show ?thesis using new_frontier_inv by (simp add: loop_inv_def spent_def)
qed

lemma crawl_loop_tally:
  "crawl_loop ok visit log t f = (None, log', t', f') \<Longrightarrow> ta_requests t = spent visit log (length log)
   \<Longrightarrow> ta_requests t' = spent visit log' (length log')"
proof (induction ok visit log t f rule: crawl_loop.induct)
  case (1 ok visit log t f)
  show ?case
  proof (cases "next_url f")
    case (Pair nu f1)
    show ?thesis
    proof (cases nu)
      case None
      with 1(2,3) Pair show ?thesis by (simp add: crawl_loop.simps [of ok visit log])
    next
      case (Some url)
      with 1(2) Pair obtain r links where v: "visit (length log) url = Inr (r, links)"
        by (auto simp: crawl_loop.simps [of ok visit log] split: sum.splits)
      have "ta_requests (tally_page r t) = spent visit (log @ [url]) (length (log @ [url]))"
        using 1(3) v by (simp add: tally_page_def spent_Suc page_cost_def)
      with 1(1) [OF Pair [symmetric] Some v refl] 1(2) Pair Some v show ?thesis
        by (simp add: crawl_loop.simps [of ok visit log])
    qed
  qed
qed

lemma crawl_cases:
  assumes "crawl ok visit clock seeds bud = (log, r)"
  obtains e t f where "crawl_loop ok visit [] tally0 (new_frontier ok seeds bud clock) = (e, log, t, f)"
    "r = (case e of None \<Rightarrow> Inr (final_summary t f) | Some x \<Rightarrow> Inl x)"
  using assms by (auto simp: crawl_def split: prod.splits option.splits)

lemma in_scope_seeds:
  "in_scope ok (seed_origins ok seeds) n \<longleftrightarrow> origin_of ok n \<noteq> None \<and> origin_of ok n \<in> origin_of ok ` set seeds"
  by (auto simp: in_scope_def seed_origins_def List.map_filter_def image_iff) (metis option.distinct(1))+

lemma seeds_covered: "covered ok (seed_origins ok seeds) seeds (fr_seen (new_frontier ok seeds bud clock))"
proof -
  let ?f = "\<lparr>fr_budget = bud, fr_clock = clock, fr_reads = 1, fr_started = clock 0, fr_queue = [], fr_seen = [],
    fr_origins = seed_origins ok seeds, fr_requests = 0, fr_visited = 0, fr_exhausted = None\<rparr>"
  from offer_effect [of ok seeds ?f] show ?thesis by (simp add: covered_def new_frontier_def)
qed

section \<open>The crawl\<close>

text \<open>C8. A crawl opens no URL twice, and every URL it opens has the origin of one of its seeds, whatever
  the pages link to and however the visits end.\<close>

theorem crawl_confined:
  "distinct (fst (crawl ok visit clock seeds bud)) \<and>
   origin_of ok ` set (fst (crawl ok visit clock seeds bud)) \<subseteq> origin_of ok ` set seeds - {None}"
proof -
  obtain log r where c: "crawl ok visit clock seeds bud = (log, r)" by fastforce
  then obtain e t f where "crawl_loop ok visit [] tally0 (new_frontier ok seeds bud clock) = (e, log, t, f)"
    by (rule crawl_cases)
  from crawl_loop_inv [OF this new_frontier_loop_inv] c show ?thesis by (auto simp: in_scope_seeds)
qed


text \<open>C10. A crawl that returns without naming a truncation has opened every page it was told of: each seed,
  and each link of each page it opened, that normalises and has the origin of a seed.\<close>

theorem crawl_complete:
  assumes "crawl ok visit clock seeds bud = (log, Inr sm)" "cs_truncated_by sm = None"
    and "url \<in> set seeds \<or> (\<exists>i < length log. url \<in> set (links_of visit log i))"
    and "normalise_url ok url = Some n" "origin_of ok n = Some origin" "Some origin \<in> origin_of ok ` set seeds"
  shows "n \<in> set log"
proof -
  from assms(1) obtain e t f where l: "crawl_loop ok visit [] tally0 (new_frontier ok seeds bud clock) = (e, log, t, f)"
    and r: "Inr sm = (case e of None \<Rightarrow> Inr (final_summary t f) | Some x \<Rightarrow> Inl x)"
    by (rule crawl_cases)
  have fin: "e = None" "fr_exhausted f = None"
    using r assms(2) by (auto simp: final_summary_def split: option.splits)
  have "in_scope ok (seed_origins ok seeds) n"
    using assms(5,6) by (simp add: in_scope_seeds)
  with assms(3,4) crawl_loop_inv [OF l new_frontier_loop_inv] fin seeds_covered [of ok seeds bud clock]
  show ?thesis unfolding covered_def by blast
qed

section \<open>A crawl\<close>

text \<open>A site of two pages whose pages link to its second page and to another site.\<close>

definition example_visit :: "unit visitor" where
  "example_visit n url =
     Inr (\<lparr>pg_state = u ''rendered'', pg_capped = False, pg_load_errors = 0, pg_requests = 2, pg_dropped_hosts = []\<rparr>,
          [u ''http://a/x'', u ''http://b/''])"

definition example_budget :: budget where
  "example_budget = \<lparr>max_pages = 5, max_seconds = 100, max_requests = 50\<rparr>"

lemma example_crawl:
  "crawl (\<lambda>_. True) example_visit (\<lambda>n. int n) [u ''http://a''] example_budget =
     ([u ''http://a/'', u ''http://a/x''],
      Inr \<lparr>cs_pages = 2, cs_rendered = 2, cs_degraded = 0, cs_failed = 0, cs_capped = 0, cs_requests = 4,
           cs_dropped_hosts = [], cs_truncated_by = None, cs_load_failed = 0\<rparr>)"
  by code_simp


theorem crawl_complete_witness: "u ''http://a/x'' \<in> set [u ''http://a/'', u ''http://a/x'']"
proof (rule crawl_complete [OF example_crawl, where url = "u ''http://a/x''" and origin = "u ''http://a''"])
  show "u ''http://a/x'' \<in> set [u ''http://a''] \<or>
    (\<exists>i < length [u ''http://a/'', u ''http://a/x'']. u ''http://a/x'' \<in> set (links_of example_visit [u ''http://a/'', u ''http://a/x''] i))"
    by (rule disjI2, rule exI [of _ 0]) (simp add: links_of_def example_visit_def)
qed code_simp+

end
