(* ===== verification/Blobs.thy ===== *)
theory Blobs
  imports Py_Text
begin

text \<open>
  The content-addressed blob store, \<open>src/hx/store/blobs.py\<close>. The file system under the root is a map from
  relative paths to contents, with the staging files apart; \<open>sha\<close> is \<open>hashlib.sha256(...).hexdigest()\<close>.
  What the operating system answers to each call, and what the disk makes of the bytes written, is the
  environment of a call.
\<close>

datatype blob_exc = CorruptBlob | OSError

record blob_fs =
  bf_files :: "pystr list \<Rightarrow> bytes option"
  bf_staging :: "pystr \<Rightarrow> bytes option"

definition empty_fs :: blob_fs where
  "empty_fs = \<lparr>bf_files = (\<lambda>_. None), bf_staging = (\<lambda>_. None)\<rparr>"

record put_env =
  pe_readable :: bool
  pe_mkdir :: bool
  pe_name :: pystr
  pe_open :: bool
  pe_write :: bool
  pe_disk :: "bytes \<Rightarrow> bytes"
  pe_reread :: bool
  pe_replace :: bool
  pe_chmod :: bool

definition good_env :: "pystr \<Rightarrow> put_env" where
  "good_env name = \<lparr>pe_readable = True, pe_mkdir = True, pe_name = name, pe_open = True, pe_write = True,
     pe_disk = id, pe_reread = True, pe_replace = True, pe_chmod = True\<rparr>"

text \<open>\<open>_HEX64.fullmatch\<close>.\<close>

definition hex64 :: "pystr \<Rightarrow> bool" where
  "hex64 d \<longleftrightarrow> length d = 64 \<and> (\<forall>c \<in> set d. is_digit c \<or> (97 \<le> c \<and> c \<le> 102))"

definition path_for :: "pystr \<Rightarrow> blob_exc + pystr list" where
  "path_for digest =
     (if \<not> hex64 digest then Inl CorruptBlob
      else Inr [take 2 digest, take 2 (drop 2 digest), digest])"

definition intact :: "(bytes \<Rightarrow> pystr) \<Rightarrow> put_env \<Rightarrow> pystr \<Rightarrow> bytes option \<Rightarrow> bool" where
  "intact sha e digest file = (case file of None \<Rightarrow> False | Some x \<Rightarrow> pe_readable e \<and> sha x = digest)"

definition put_blob :: "(bytes \<Rightarrow> pystr) \<Rightarrow> put_env \<Rightarrow> bytes \<Rightarrow> (blob_fs, blob_exc, pystr \<times> nat) prog" where
  "put_blob sha e data fs =
     (let digest = sha data in
      case path_for digest of
        Inl x \<Rightarrow> (Inl x, fs)
      | Inr final \<Rightarrow>
          if intact sha e digest (bf_files fs final) then (Inr (digest, length data), fs)
          else if \<not> pe_mkdir e then (Inl OSError, fs)
          else if \<not> pe_open e \<or> bf_staging fs (pe_name e) \<noteq> None then (Inl OSError, fs)
          else if \<not> pe_write e then (Inl OSError, fs)
          else
            let written = pe_disk e data; staged = fs\<lparr>bf_staging := (bf_staging fs)(pe_name e \<mapsto> written)\<rparr> in
            if \<not> pe_reread e then (Inl OSError, staged)
            else if sha written \<noteq> digest then (Inl CorruptBlob, fs)
            else if \<not> pe_replace e then (Inl OSError, staged)
            else
              let stored = fs\<lparr>bf_files := (bf_files fs)(final \<mapsto> written)\<rparr> in
              if \<not> pe_chmod e then (Inl OSError, stored) else (Inr (digest, length data), stored))"

definition get_blob :: "(bytes \<Rightarrow> pystr) \<Rightarrow> bool \<Rightarrow> pystr \<Rightarrow> nat option \<Rightarrow> blob_fs \<Rightarrow> blob_exc + bytes" where
  "get_blob sha readable digest expected_len fs =
     (case path_for digest of
        Inl x \<Rightarrow> Inl x
      | Inr path \<Rightarrow>
          (case bf_files fs path of
             None \<Rightarrow> Inl CorruptBlob
           | Some data \<Rightarrow>
               if \<not> readable then Inl OSError
               else if expected_len \<noteq> None \<and> expected_len \<noteq> Some (length data) then Inl CorruptBlob
               else if sha data \<noteq> digest then Inl CorruptBlob
               else Inr data))"

section \<open>The contract of a content store\<close>

text \<open>What a writer of rows relies on: a digest returned by \<open>put\<close> can be read back at once and after any
  later \<open>put\<close>, and whatever is read has the digest asked for.\<close>

locale content_store =
  fixes digest :: "bytes \<Rightarrow> pystr"
    and put :: "'env \<Rightarrow> bytes \<Rightarrow> ('fs, 'e, pystr \<times> nat) prog"
    and get :: "pystr \<Rightarrow> 'fs \<Rightarrow> 'e + bytes"
  assumes put_returns: "put e x s = (Inr (d, n), s') \<Longrightarrow> d = digest x \<and> n = length x"
    and put_stores: "put e x s = (Inr (d, n), s') \<Longrightarrow> \<exists>y. get d s' = Inr y"
    and put_keeps: "get d s = Inr y \<Longrightarrow> \<exists>y'. get d (snd (put e x s)) = Inr y'"
    and get_verified: "get d s = Inr y \<Longrightarrow> digest y = d"
begin

definition holds :: "pystr \<Rightarrow> 'fs \<Rightarrow> bool" where
  "holds d s \<longleftrightarrow> (\<exists>y. get d s = Inr y \<and> digest y = d)"

fun puts :: "('env \<times> bytes) list \<Rightarrow> 'fs \<Rightarrow> 'fs" where
  "puts [] s = s"
| "puts ((e, x) # xs) s = puts xs (snd (put e x s))"

lemma holds_after_put: "put e x s = (Inr (d, n), s') \<Longrightarrow> holds d s'"
  unfolding holds_def using put_stores get_verified by blast

lemma holds_put: "holds d s \<Longrightarrow> holds d (snd (put e x s))"
  unfolding holds_def using put_keeps get_verified by metis

lemma holds_puts: "holds d s \<Longrightarrow> holds d (puts xs s)"
  by (induction xs s rule: puts.induct) (auto intro: holds_put)

lemma stored_for_good: "put e x s = (Inr (d, n), s') \<Longrightarrow> holds d (puts xs s')"
  using holds_after_put holds_puts by blast

end

lemma path_for_inj: "path_for d = Inr p \<Longrightarrow> path_for d' = Inr p \<Longrightarrow> d = d'"
  by (auto simp: path_for_def split: if_splits)

lemma get_blob_Inr:
  "get_blob sha r d n fs = Inr x \<longleftrightarrow>
     (\<exists>p. path_for d = Inr p \<and> bf_files fs p = Some x \<and> r \<and> (n = None \<or> n = Some (length x)) \<and> sha x = d)"
  by (auto simp: get_blob_def split: sum.split option.split)

lemma put_blob_Inr:
  assumes "put_blob sha e x s = (Inr (d, n), s')"
  obtains p y where "d = sha x" "n = length x" "path_for d = Inr p" "bf_files s' p = Some y" "sha y = d"
  using assms unfolding put_blob_def intact_def Let_def by (auto split: sum.splits if_splits option.splits)

lemma put_blob_files:
  "bf_files (snd (put_blob sha e x s)) q = bf_files s q \<or>
   (path_for (sha x) = Inr q \<and> bf_files (snd (put_blob sha e x s)) q = Some (pe_disk e x) \<and> sha (pe_disk e x) = sha x)"
  unfolding put_blob_def Let_def by (simp split: sum.split)

interpretation blobs: content_store sha "put_blob sha" "\<lambda>d. get_blob sha True d None" for sha
proof unfold_locales
  fix e x s d n s' assume "put_blob sha e x s = (Inr (d, n), s')"
  then obtain p y where "d = sha x" "n = length x" "path_for d = Inr p" "bf_files s' p = Some y" "sha y = d"
    by (rule put_blob_Inr)
  then show "d = sha x \<and> n = length x" "\<exists>y. get_blob sha True d None s' = Inr y"
    by (auto simp: get_blob_Inr)
next
  fix d s y e x assume "get_blob sha True d None s = Inr y"
  then obtain p where "path_for d = Inr p" "bf_files s p = Some y" "sha y = d" by (auto simp: get_blob_Inr)
  with put_blob_files [of sha e x s p] show "\<exists>y'. get_blob sha True d None (snd (put_blob sha e x s)) = Inr y'"
    by (auto simp: get_blob_Inr dest: path_for_inj)
qed (auto simp: get_blob_Inr)

section \<open>Refinement\<close>

text \<open>The abstract store: the verified contents by digest.\<close>

definition blob_map :: "(bytes \<Rightarrow> pystr) \<Rightarrow> blob_fs \<Rightarrow> pystr \<Rightarrow> bytes option" where
  "blob_map sha fs d =
     (case path_for d of
        Inl _ \<Rightarrow> None
      | Inr p \<Rightarrow> (case bf_files fs p of None \<Rightarrow> None | Some x \<Rightarrow> if sha x = d then Some x else None))"

lemma blob_map_Some: "blob_map sha fs d = Some x \<longleftrightarrow> (\<exists>p. path_for d = Inr p \<and> bf_files fs p = Some x \<and> sha x = d)"
  by (auto simp: blob_map_def split: sum.split option.split)

lemma blob_map_put:
  assumes "\<And>y. y = pe_disk e x \<or> y \<in> ran (bf_files s) \<Longrightarrow> sha y = sha x \<Longrightarrow> y = x"
  shows "blob_map sha (snd (put_blob sha e x s)) = blob_map sha s
    \<or> blob_map sha (snd (put_blob sha e x s)) = (blob_map sha s)(sha x \<mapsto> x)"
proof (cases "bf_files (snd (put_blob sha e x s)) = bf_files s")
  case False
  then obtain q where "bf_files (snd (put_blob sha e x s)) q \<noteq> bf_files s q" by blast
  with put_blob_files [of sha e x s q] have q: "path_for (sha x) = Inr q" "sha (pe_disk e x) = sha x"
    "bf_files (snd (put_blob sha e x s)) q = Some (pe_disk e x)" by auto
  have x: "pe_disk e x = x" using assms q(2) by blast
  have files: "bf_files (snd (put_blob sha e x s)) = (bf_files s)(q \<mapsto> x)"
  proof (rule ext)
    fix p show "bf_files (snd (put_blob sha e x s)) p = ((bf_files s)(q \<mapsto> x)) p"
      using put_blob_files [of sha e x s p] q x by (cases "p = q") auto
  qed
  have "blob_map sha (snd (put_blob sha e x s)) d = ((blob_map sha s)(sha x \<mapsto> x)) d" for d
  proof (cases "d = sha x")
    case True
    with q(1) files show ?thesis by (simp add: blob_map_def)
  next
    case False
    then have "path_for d \<noteq> Inr q" using q(1) path_for_inj by blast
    with False files show ?thesis by (cases "path_for d") (simp_all add: blob_map_def)
  qed
  then show ?thesis by (simp add: fun_eq_iff)
qed (intro disjI1 ext, simp add: blob_map_def split: sum.split)

text \<open>C11. The file tree refines a map from digests to contents, as long as no two contents in play share a
  digest: a \<open>put\<close> that returns adds the data under its digest, one that raises, at whichever call, changes
  nothing or has added it already, and \<open>get\<close> answers from the map, with the length the caller expects.\<close>

theorem blob_store_refines_map:
  assumes "put_blob sha e x s = (r, s')"
    and "\<And>y. y = pe_disk e x \<or> y \<in> ran (bf_files s) \<Longrightarrow> sha y = sha x \<Longrightarrow> y = x"
  shows "(case r of
      Inr (d, n) \<Rightarrow> d = sha x \<and> n = length x \<and> blob_map sha s' = (blob_map sha s)(d \<mapsto> x)
    | Inl _ \<Rightarrow> blob_map sha s' = blob_map sha s \<or> blob_map sha s' = (blob_map sha s)(sha x \<mapsto> x))
    \<and> (get_blob sha True d n s' = Inr y \<longleftrightarrow> blob_map sha s' d = Some y \<and> (n = None \<or> n = Some (length y)))"
proof -
  have "blob_map sha s' = blob_map sha s \<or> blob_map sha s' = (blob_map sha s)(sha x \<mapsto> x)"
    using blob_map_put [of e x s sha] assms by simp
  moreover have "d = sha x \<and> n = length x \<and> blob_map sha s' = (blob_map sha s)(d \<mapsto> x)" if r: "r = Inr (d, n)" for d n
  proof -
    from assms(1) r obtain p z where p: "d = sha x" "n = length x" "path_for d = Inr p" "bf_files s' p = Some z" "sha z = d"
      by (auto elim: put_blob_Inr)
    have "z = x"
      using put_blob_files [of sha e x s p] p assms(1) assms(2) [of z] ranI [of "bf_files s" p z] by auto
    with p have "blob_map sha s' d = Some x" by (auto simp: blob_map_Some)
    then have "(blob_map sha s')(d \<mapsto> x) = blob_map sha s'" by (rule fun_upd_idem)
    with calculation p show ?thesis by (metis fun_upd_upd)
  qed
  moreover have "get_blob sha True d n s' = Inr y \<longleftrightarrow> blob_map sha s' d = Some y \<and> (n = None \<or> n = Some (length y))"
    by (auto simp: get_blob_Inr blob_map_Some)
  ultimately show ?thesis by (cases r) auto
qed

definition toy_sha :: "bytes \<Rightarrow> pystr" where
  "toy_sha x = replicate 63 48 @ [48 + length x mod 10]"

theorem blob_store_refines_map_witness:
  "case fst (put_blob toy_sha (good_env []) [1, 2] empty_fs) of
      Inr (d, n) \<Rightarrow> n = 2 \<and> blob_map toy_sha (snd (put_blob toy_sha (good_env []) [1, 2] empty_fs)) d = Some [1, 2]
    | Inl _ \<Rightarrow> False"
proof -
  have "fst (put_blob toy_sha (good_env []) [1, 2] empty_fs) = Inr (toy_sha [1, 2], 2)"
    by (simp add: put_blob_def path_for_def hex64_def toy_sha_def is_digit_def good_env_def empty_fs_def intact_def Let_def)
  moreover have "y = pe_disk (good_env []) [1, 2] \<or> y \<in> ran (bf_files empty_fs) \<Longrightarrow> toy_sha y = toy_sha [1, 2] \<Longrightarrow> y = [1, 2]" for y
    by (simp add: good_env_def empty_fs_def)
  ultimately show ?thesis
    using blob_store_refines_map [of toy_sha "good_env []" "[1, 2]" empty_fs, OF prod.collapse [symmetric]] by auto
qed

end
