(* ===== verification/Capture.thy ===== *)
theory Capture
  imports Surface Blobs Codec
begin

text \<open>
  The recording end of the bridge, \<open>src/hx/capture.py\<close>, and the human's triage of a finding,
  \<open>src/hx/triage.py\<close>. A call works on the store and the blob files; the ids it draws, the times it reads and
  the answers of the file system are its environment. A method, URL, status or detail that is present in
  a frame but is of another JSON type than its own raises \<open>TypeError\<close> here; for a method or a detail the source
  would hand it to SQLite, which files the text of a number. An exception of \<open>int()\<close> is a \<open>ValueError\<close>.
\<close>

section \<open>State and environment\<close>

record capture_cfg =
  cc_engagement :: pystr
  cc_profile :: pystr
  cc_preserve :: "pystr list"
  cc_slug_threshold :: int
  cc_netloc_ok :: "pystr \<Rightarrow> bool"
  cc_sha :: "bytes \<Rightarrow> pystr"

record capture_env =
  ce_run :: pystr
  ce_row :: pystr
  ce_surface :: pystr
  ce_run_now :: int
  ce_now :: int
  ce_req :: put_env
  ce_resp :: put_env

record capture =
  cp_store :: store
  cp_blobs :: blob_fs

datatype capture_exc = StoreExc store_exc | BlobExc blob_exc

definition on_store :: "(store, store_exc, 'a) prog \<Rightarrow> (capture, capture_exc, 'a) prog" where
  "on_store m cp =
     (case m (cp_store cp) of
        (Inl e, s) \<Rightarrow> (Inl (StoreExc e), cp\<lparr>cp_store := s\<rparr>)
      | (Inr x, s) \<Rightarrow> (Inr x, cp\<lparr>cp_store := s\<rparr>))"

definition on_blobs :: "(blob_fs, blob_exc, 'a) prog \<Rightarrow> (capture, capture_exc, 'a) prog" where
  "on_blobs m cp =
     (case m (cp_blobs cp) of
        (Inl e, fs) \<Rightarrow> (Inl (BlobExc e), cp\<lparr>cp_blobs := fs\<rparr>)
      | (Inr x, fs) \<Rightarrow> (Inr x, cp\<lparr>cp_blobs := fs\<rparr>))"

definition pure :: "store_exc + 'a \<Rightarrow> (capture, capture_exc, 'a) prog" where
  "pure r = (case r of Inl e \<Rightarrow> sraise (StoreExc e) | Inr x \<Rightarrow> sret x)"

section \<open>Fields of a frame\<close>

definition field :: "header \<Rightarrow> string \<Rightarrow> json \<Rightarrow> json" where
  "field h k d = (case map_of h (u k) of None \<Rightarrow> d | Some v \<Rightarrow> v)"

definition or_text :: "json \<Rightarrow> string \<Rightarrow> json" where
  "or_text v d = (if truthy v then v else JStr (u d))"

definition text_of :: "json \<Rightarrow> store_exc + pystr" where
  "text_of v = (case v of JStr s \<Rightarrow> Inr s | _ \<Rightarrow> Inl TypeError)"

definition hashable :: "json \<Rightarrow> bool" where
  "hashable v = (case v of JArr _ \<Rightarrow> False | JObj _ \<Rightarrow> False | _ \<Rightarrow> True)"

text \<open>\<open>if v not in vocabulary: raise ValueError\<close>, on a frozenset.\<close>

definition in_vocab :: "json \<Rightarrow> pystr list \<Rightarrow> store_exc + pystr" where
  "in_vocab v names =
     (case v of
        JStr s \<Rightarrow> if s \<in> set names then Inr s else Inl ValueError
      | _ \<Rightarrow> Inl (if hashable v then ValueError else TypeError))"

definition status_of :: "json \<Rightarrow> store_exc + int option" where
  "status_of v = (case v of JNull \<Rightarrow> Inr None | JInt n \<Rightarrow> Inr (Some n) | _ \<Rightarrow> Inl TypeError)"

definition int_of :: "json \<Rightarrow> store_exc + int" where
  "int_of v = (case py_int v of None \<Rightarrow> Inl ValueError | Some n \<Rightarrow> Inr n)"

definition FRAME_TYPES :: "pystr list" where
  "FRAME_TYPES = [u ''exchange'', u ''denial'', u ''dropped'']"

definition DISCOVERED_BY :: "(pystr \<times> pystr) list" where
  "DISCOVERED_BY = [(u ''proxy'', u ''proxy''), (u ''crawl'', u ''crawl''), (u ''send'', u ''agent'')]"

section \<open>Recording\<close>

definition capture_run :: "capture_cfg \<Rightarrow> capture_env \<Rightarrow> json \<Rightarrow> (capture, capture_exc, pystr) prog" where
  "capture_run cfg env source =
     on_store (current_run (ce_run env) (cc_engagement cfg)
       (if source = JStr (u ''crawler'') then u ''crawl'' else u ''browse'') (cc_profile cfg) (ce_run_now env))"

definition beat :: "pystr \<Rightarrow> int \<Rightarrow> (capture, capture_exc, unit) prog" where
  "beat rid at = on_store (\<lambda>s. (Inr (), heartbeat rid at s))"

definition surface_key :: "surface_row \<Rightarrow> pystr \<times> pystr \<times> pystr \<times> pystr \<times> int \<times> pystr \<times> pystr" where
  "surface_key r = (sf_engagement r, sf_method r, sf_scheme r, sf_host r, sf_port r, sf_path_template r, sf_query_key_set r)"

definition refresh_surface :: "surface_row \<Rightarrow> surface_row \<Rightarrow> surface_row" where
  "refresh_surface old new = old\<lparr>sf_last_seen_run := sf_last_seen_run new\<rparr>"

definition surface_of :: "pystr \<Rightarrow> pystr \<Rightarrow> normalised \<Rightarrow> pystr \<Rightarrow> pystr \<Rightarrow> pystr \<Rightarrow> surface_row" where
  "surface_of nid engagement n discovered_by rid exchange =
     \<lparr>sf_id = nid, sf_engagement = engagement, sf_method = nm_method n, sf_scheme = nm_scheme n, sf_host = nm_host n,
      sf_port = nm_port n, sf_path_template = nm_path_template n, sf_query_key_set = nm_query_key_set n,
      sf_kind = nm_kind n, sf_discovered_by = discovered_by, sf_normaliser_version = nm_version n,
      sf_first_seen_run = rid, sf_last_seen_run = rid, sf_exemplar = exchange\<rparr>"

definition upsert_surface :: "pystr \<Rightarrow> pystr \<Rightarrow> normalised \<Rightarrow> pystr \<Rightarrow> pystr \<Rightarrow> pystr \<Rightarrow> (store, store_exc, pystr) prog" where
  "upsert_surface nid engagement n exchange rid via s =
     (case map_of DISCOVERED_BY via of
        None \<Rightarrow> (Inl ValueError, s)
      | Some discovered_by \<Rightarrow>
          let row = surface_of nid engagement n discovered_by rid exchange in
          if nid \<in> set (map sf_id (st_surfaces s)) \<or> engagement \<notin> set (st_engagements s) \<or> rid \<notin> set (run_ids s)
            \<or> exchange \<notin> set (exchange_ids s)
          then (Inl IntegrityError, s)
          else
            let s' = s\<lparr>st_surfaces := upsert_by surface_key refresh_surface row (st_surfaces s)\<rparr> in
            case filter (\<lambda>r. surface_key r = surface_key row) (st_surfaces s') of
              [] \<Rightarrow> (Inl TypeError, s')
            | r # _ \<Rightarrow> (Inr (sf_id r), s'))"

definition count_request :: "pystr \<Rightarrow> store \<Rightarrow> store" where
  "count_request rid = update_runs (\<lambda>r. run_id r = rid) (\<lambda>r. r\<lparr>run_requests_issued := run_requests_issued r + 1\<rparr>)"

definition set_surface :: "pystr \<Rightarrow> pystr \<Rightarrow> store \<Rightarrow> store" where
  "set_surface sid exchange s =
     s\<lparr>st_exchanges := map (\<lambda>x. if ex_id x = exchange then x\<lparr>ex_surface := Some sid\<rparr> else x) (st_exchanges s)\<rparr>"

text \<open>The transaction that files one exchange.\<close>

definition file_exchange :: "pystr \<Rightarrow> pystr \<Rightarrow> pystr \<Rightarrow> normalised \<Rightarrow> exchange_args \<Rightarrow> pystr
    \<Rightarrow> (store, store_exc, pystr) prog" where
  "file_exchange nid new_surface engagement norm a rid =
     transaction
       (sbind (record_exchange nid a) (\<lambda>xid.
        sbind (\<lambda>s. (Inr (), count_request rid s)) (\<lambda>_.
        sbind (upsert_surface new_surface engagement norm xid rid (xa_via a)) (\<lambda>sid s.
          (Inr xid, set_surface sid xid s)))))"

definition put_body :: "capture_cfg \<Rightarrow> put_env \<Rightarrow> bytes \<Rightarrow> (capture, capture_exc, pystr option \<times> nat option) prog" where
  "put_body cfg env body =
     (if body = [] then sret (None, None)
      else sbind (on_blobs (put_blob (cc_sha cfg) env body)) (\<lambda>(d, n). sret (Some d, Some n)))"

definition record_dropped :: "capture_cfg \<Rightarrow> capture_env \<Rightarrow> header \<Rightarrow> (capture, capture_exc, pystr option) prog" where
  "record_dropped cfg env h =
     sbind (pure (int_of (field h ''n'' (JInt 1)))) (\<lambda>drops.
       if drops < 1 then sraise (StoreExc ValueError)
       else
         sbind (capture_run cfg env (field h ''source'' (JStr (u ''operator'')))) (\<lambda>rid.
         sbind (beat rid (ce_now env)) (\<lambda>_.
         sbind (on_store (count_drop rid drops)) (\<lambda>_. sret None))))"

text \<open>The row a \<open>denial\<close> frame's error class calls for.\<close>

definition denial_row_for :: "json \<Rightarrow> store_exc + (row_table \<times> pystr) option" where
  "denial_row_for v =
     (case v of
        JStr s \<Rightarrow> row_for s (Some False)
      | _ \<Rightarrow> Inl (if hashable v then ValueError else TypeError))"

definition record_denied :: "capture_cfg \<Rightarrow> capture_env \<Rightarrow> header \<Rightarrow> pystr \<Rightarrow> (capture, capture_exc, pystr option) prog" where
  "record_denied cfg env h via =
     sbind (pure (denial_row_for (or_text (field h ''error_class'' JNull) []))) (\<lambda>row.
       case row of
         None \<Rightarrow> sret None
       | Some (table, kind) \<Rightarrow>
           if table \<noteq> DenialTable then sraise (StoreExc ValueError)
           else
             sbind (capture_run cfg env (field h ''source'' (JStr (u ''operator'')))) (\<lambda>rid.
             sbind (beat rid (ce_now env)) (\<lambda>_.
             sbind (pure (text_of (or_text (field h ''method'' JNull) []))) (\<lambda>meth.
             sbind (pure (text_of (field h ''url'' JNull))) (\<lambda>url.
             sbind (pure (text_of (or_text (field h ''detail'' JNull) []))) (\<lambda>detail.
             sbind (on_store (record_denial (ce_row env) (Some rid) kind meth url detail (ce_now env) via None None)) (\<lambda>_.
               sret None)))))))"

definition exchange_args_of :: "pystr \<Rightarrow> pystr \<Rightarrow> pystr \<Rightarrow> int option \<Rightarrow> pystr option \<Rightarrow> pystr option \<Rightarrow> nat option
    \<Rightarrow> int \<Rightarrow> int \<Rightarrow> pystr \<Rightarrow> pystr \<Rightarrow> exchange_args" where
  "exchange_args_of rid meth url status req resp resp_len ms at outcome via =
     \<lparr>xa_run = Some rid, xa_method = meth, xa_url = url, xa_status = status, xa_req_blob = req, xa_resp_blob = resp,
      xa_ms = ms, xa_at_us = at, xa_outcome = outcome, xa_via = via, xa_resp_len = resp_len, xa_surface = None,
      xa_scope_version = None, xa_seq = None, xa_identity = None, xa_identity_generation = None,
      xa_identity_state = None\<rparr>"

definition record_frame :: "capture_cfg \<Rightarrow> capture_env \<Rightarrow> header \<Rightarrow> pystr \<Rightarrow> bytes \<Rightarrow> bytes
    \<Rightarrow> (capture, capture_exc, pystr option) prog" where
  "record_frame cfg env h via request response =
     sbind (pure (int_of (let v = field h ''ms'' JNull in if truthy v then v else JInt 0))) (\<lambda>ms.
     sbind (pure (in_vocab (or_text (field h ''outcome'' JNull) ''ok'') EXCHANGE_OUTCOMES)) (\<lambda>outcome.
     sbind (pure (text_of (or_text (field h ''method'' JNull) []))) (\<lambda>meth.
     sbind (pure (text_of (field h ''url'' JNull))) (\<lambda>url.
     sbind (pure (normalise (cc_netloc_ok cfg) (cc_preserve cfg) (cc_slug_threshold cfg) meth url)) (\<lambda>norm.
     sbind (capture_run cfg env (field h ''source'' (JStr (u ''operator'')))) (\<lambda>rid.
     sbind (beat rid (ce_now env)) (\<lambda>_.
     sbind (put_body cfg (ce_req env) request) (\<lambda>(req, _).
     sbind (put_body cfg (ce_resp env) response) (\<lambda>(resp, resp_len).
     sbind (pure (status_of (field h ''status'' JNull))) (\<lambda>status.
     sbind (on_store (file_exchange (ce_row env) (ce_surface env) (cc_engagement cfg) norm
         (exchange_args_of rid meth url status req resp resp_len ms (ce_now env) outcome via) rid)) (\<lambda>xid.
       sret (Some xid))))))))))))"

definition on_exchange :: "capture_cfg \<Rightarrow> capture_env \<Rightarrow> header \<Rightarrow> bytes \<Rightarrow> bytes
    \<Rightarrow> (capture, capture_exc, pystr option) prog" where
  "on_exchange cfg env h request response =
     sbind (pure (in_vocab (field h ''t'' (JStr (u ''exchange''))) FRAME_TYPES)) (\<lambda>t.
       if t = u ''dropped'' then record_dropped cfg env h
       else
         sbind (pure (in_vocab (field h ''via'' (JStr (u ''proxy''))) VIA_VALUES)) (\<lambda>via.
           if \<not> truthy (field h ''url'' JNull) then sraise (StoreExc ValueError)
           else if t = u ''denial'' then record_denied cfg env h via
           else record_frame cfg env h via request response))"

section \<open>The halt of a distressed target\<close>

text \<open>\<open>str()\<close>; \<open>repr\<close> is the text of a float, a list or a dict.\<close>

definition py_str :: "(json \<Rightarrow> pystr) \<Rightarrow> json \<Rightarrow> pystr" where
  "py_str repr v =
     (case v of
        JStr s \<Rightarrow> s
      | JInt n \<Rightarrow> dump_int n
      | JBool q \<Rightarrow> if q then u ''True'' else u ''False''
      | JNull \<Rightarrow> u ''None''
      | _ \<Rightarrow> repr v)"

definition halted_reason :: "(json \<Rightarrow> pystr) \<Rightarrow> header \<Rightarrow> pystr" where
  "halted_reason repr h =
     (let reason = py_str repr (or_text (field h ''reason'' JNull) ''target distress'');
          host = py_str repr (or_text (field h ''host'' JNull) ''an unnamed host'');
          window = py_str repr (or_text (field h ''window'' JNull) [])
      in reason @ u '' on '' @ host @ (if window = [] then [] else u '' ('' @ window @ u '')''))"

fun abort_all :: "(nat \<Rightarrow> int) \<Rightarrow> pystr \<Rightarrow> nat \<Rightarrow> pystr list \<Rightarrow> (store, store_exc, pystr list) prog" where
  "abort_all clock reason n [] = sret []"
| "abort_all clock reason n (rid # rids) =
     sbind (abort_run rid reason (clock n)) (\<lambda>stopped.
     sbind (abort_all clock reason (Suc n) rids) (\<lambda>aborted.
       sret (if stopped then rid # aborted else aborted)))"

definition live_runs :: "pystr \<Rightarrow> store \<Rightarrow> pystr list" where
  "live_runs engagement s = map run_id (filter (\<lambda>r. run_engagement r = engagement \<and> running r) (st_runs s))"

definition on_halted :: "(json \<Rightarrow> pystr) \<Rightarrow> (nat \<Rightarrow> int) \<Rightarrow> pystr \<Rightarrow> header \<Rightarrow> (store, store_exc, pystr list) prog" where
  "on_halted repr clock engagement h s =
     transaction (abort_all clock (halted_reason repr h) 0 (live_runs engagement s)) s"

section \<open>Triage\<close>

datatype triage_exc = TriageError | TriageStore store_exc

record status_change =
  sc_finding :: pystr
  sc_from :: pystr
  sc_to :: pystr
  sc_event :: "pystr option"
  sc_changed :: bool
  sc_ts_us :: int

definition TARGETS :: "pystr list" where
  "TARGETS = [u ''confirmed'', u ''false_positive'']"

definition NOTE_REQUIRED :: "pystr list" where
  "NOTE_REQUIRED = [u ''false_positive'']"

definition FINDING_STATUSES :: "pystr list" where
  "FINDING_STATUSES = [u ''new'', u ''triaged'', u ''confirmed'', u ''false_positive'', u ''reported'']"

text \<open>The insert into \<open>finding_status_event\<close>, with the table's CHECKs and the trigger that refuses an
  agent's confirmation.\<close>

definition insert_event :: "status_event \<Rightarrow> (store, store_exc, unit) prog" where
  "insert_event e s =
     (if se_id e \<in> set (map se_id (st_events s)) \<or> se_finding e \<notin> set (map fi_id (st_findings s))
        \<or> se_to e \<notin> set FINDING_STATUSES \<or> se_actor e \<notin> {u ''agent'', u ''human'', u ''check''}
        \<or> se_actor e = u ''agent'' \<and> se_to e \<in> {u ''confirmed'', u ''reported''}
      then (Inl IntegrityError, s)
      else (Inr (), s\<lparr>st_events := st_events s @ [e]\<rparr>))"

definition set_finding_status :: "pystr \<Rightarrow> pystr \<Rightarrow> (store, store_exc, unit) prog" where
  "set_finding_status fid to s =
     (Inr (), s\<lparr>st_findings := map (\<lambda>f. if fi_id f = fid then f\<lparr>fi_status := to\<rparr> else f) (st_findings s)\<rparr>)"

definition set_status :: "pystr \<Rightarrow> pystr \<Rightarrow> pystr \<Rightarrow> pystr option \<Rightarrow> int \<Rightarrow> (store, triage_exc, status_change) prog" where
  "set_status nid fid to note at s =
     (let text = map_option strip note in
      if to \<notin> set TARGETS then (Inl TriageError, s)
      else if to \<in> set NOTE_REQUIRED \<and> (text = None \<or> text = Some []) then (Inl TriageError, s)
      else case filter (\<lambda>f. fi_id f = fid) (st_findings s) of
        [] \<Rightarrow> (Inl TriageError, s)
      | f # _ \<Rightarrow>
          if fi_status f = to
          then (Inr \<lparr>sc_finding = fid, sc_from = fi_status f, sc_to = to, sc_event = None, sc_changed = False, sc_ts_us = at\<rparr>, s)
          else
            (case transaction
                (sbind (insert_event \<lparr>se_id = nid, se_finding = fid, se_from = fi_status f, se_to = to,
                          se_actor = u ''human'', se_note = text, se_ts_us = at\<rparr>)
                  (\<lambda>_. set_finding_status fid to)) s of
               (Inl e, s') \<Rightarrow> (Inl (TriageStore e), s')
             | (Inr _, s') \<Rightarrow>
                 (Inr \<lparr>sc_finding = fid, sc_from = fi_status f, sc_to = to, sc_event = Some nid, sc_changed = True,
                       sc_ts_us = at\<rparr>, s')))"

definition history :: "pystr \<Rightarrow> store \<Rightarrow> status_event list" where
  "history fid s = sort_key se_ts_us (filter (\<lambda>e. se_finding e = fid) (st_events s))"

definition latest_note :: "pystr \<Rightarrow> store \<Rightarrow> pystr option" where
  "latest_note fid s = (case history fid s of [] \<Rightarrow> None | es \<Rightarrow> se_note (last es))"

end
