(* ===== verification/Capture_Laws.thy ===== *)
theory Capture_Laws
  imports Capture Store_Laws
begin

text \<open>
  What recording promises: an exchange is filed whole (row, blobs, surface, counter) or not at all, a halted
  target aborts every live run at once, and a finding's status is the last entry of its history.
\<close>

section \<open>Surfaces\<close>

interpretation surface_table: keyed_table surface_key refresh_surface
  by unfold_locales (simp add: surface_key_def refresh_surface_def)

lemma upsert_surface_Inr:
  assumes "upsert_surface nid e n x rid via s = (Inr sid, s')" "distinct (map surface_key (st_surfaces s))"
  obtains row sf where "s' = s\<lparr>st_surfaces := upsert_by surface_key refresh_surface row (st_surfaces s)\<rparr>"
    "sf \<in> set (st_surfaces s')" "sf_id sf = sid"
    "surface_key sf = (e, nm_method n, nm_scheme n, nm_host n, nm_port n, nm_path_template n, nm_query_key_set n)"
proof -
  from assms(1) obtain d where "map_of DISCOVERED_BY via = Some d" by (auto simp: upsert_surface_def split: option.splits)
  define row where "row = surface_of nid e n d rid x"
  define t where "t = s\<lparr>st_surfaces := upsert_by surface_key refresh_surface row (st_surfaces s)\<rparr>"
  have "filter (\<lambda>r. surface_key r = surface_key row) (st_surfaces t) \<noteq> []"
    using surface_table.upsert_row [OF assms(2), of row] by (simp add: t_def)
  then obtain sf rest where f: "filter (\<lambda>r. surface_key r = surface_key row) (st_surfaces t) = sf # rest"
    by (cases "filter (\<lambda>r. surface_key r = surface_key row) (st_surfaces t)") auto
  then have "sf \<in> set (filter (\<lambda>r. surface_key r = surface_key row) (st_surfaces t))" by simp
  then have "sf \<in> set (st_surfaces t)" "surface_key sf = surface_key row" by simp_all
  moreover have "(Inr (sf_id sf), t) = (Inr sid, s')"
    using assms(1) \<open>map_of DISCOVERED_BY via = Some d\<close> f
    by (simp add: upsert_surface_def row_def [symmetric] t_def [symmetric] Let_def split: if_splits)
  moreover have "surface_key row = (e, nm_method n, nm_scheme n, nm_host n, nm_port n, nm_path_template n, nm_query_key_set n)"
    by (simp add: row_def surface_of_def surface_key_def)
  ultimately show thesis using that t_def by auto
qed

section \<open>What a call leaves alone\<close>

text \<open>The requests counted over all runs.\<close>

definition issued :: "store \<Rightarrow> int" where
  "issued s = sum_list (map run_requests_issued (st_runs s))"

definition unfiled :: "exchange_row list \<Rightarrow> surface_row list \<Rightarrow> int \<Rightarrow> store \<Rightarrow> bool" where
  "unfiled X S N s \<longleftrightarrow> st_exchanges s = X \<and> st_surfaces s = S \<and> issued s = N \<and> distinct (run_ids s)"

lemma issued_update: "(\<And>r. run_requests_issued (f r) = run_requests_issued r) \<Longrightarrow> issued (update_runs sel f s) = issued s"
  by (simp add: issued_def update_runs_def o_def if_distrib cong: if_cong)

lemma run_ids_update: "(\<And>r. run_id (f r) = run_id r) \<Longrightarrow> run_ids (update_runs sel f s) = run_ids s"
  by (simp add: run_ids_def update_runs_def o_def if_distrib cong: if_cong)

lemma unfiled_update:
  "(\<And>r. run_requests_issued (f r) = run_requests_issued r) \<Longrightarrow> (\<And>r. run_id (f r) = run_id r)
   \<Longrightarrow> unfiled X S N s \<Longrightarrow> unfiled X S N (update_runs sel f s)"
  unfolding unfiled_def using issued_update run_ids_update by (simp add: update_runs_def)

lemma unfiled_open: "unfiled X S N s \<Longrightarrow> unfiled X S N (snd (open_run nid e k p at s))"
  by (auto simp: unfiled_def open_run_def issued_def run_ids_def)

lemma unfiled_close: "unfiled X S N s \<Longrightarrow> unfiled X S N (snd (close_run rid at st why s))"
  by (auto simp: close_run_def end_run_def intro: unfiled_update)

lemma unfiled_current: "unfiled X S N s \<Longrightarrow> unfiled X S N (snd (current_run nid e k p at s))"
proof -
  assume s: "unfiled X S N s"
  have "keeps (unfiled X S N) (sbind (close_run rid at' st why) (\<lambda>_. open_run nid e k p at))" for rid at' st why
    by (intro keeps_sbind) (simp_all add: keeps_def unfiled_close unfiled_open)
  with s show ?thesis
    by (simp add: current_run_def keeps_def unfiled_open split: option.split)
qed

lemma unfiled_denial: "unfiled X S N s \<Longrightarrow> unfiled X S N (snd (record_denial nid rid k m url d at via ip sv s))"
  by (auto simp: record_denial_def unfiled_def issued_def run_ids_def)

lemma keeps_on_store [keeps_intros]:
  "(\<And>s. P s \<Longrightarrow> P (snd (m s))) \<Longrightarrow> keeps (\<lambda>cp. P (cp_store cp)) (on_store m)"
  by (auto simp: keeps_def on_store_def split: prod.split sum.split) (metis snd_conv)+

lemma keeps_on_blobs [keeps_intros]: "keeps (\<lambda>cp. P (cp_store cp)) (on_blobs m)"
  by (auto simp: keeps_def on_blobs_def split: prod.split sum.split)

lemma keeps_pure [keeps_intros]: "keeps P (pure r)"
  by (auto simp: pure_def keeps_def split: sum.split)

lemma keeps_put_body [keeps_intros]: "keeps (\<lambda>cp. P (cp_store cp)) (put_body cfg env body)"
  by (auto simp: put_body_def intro!: keeps_intros split: prod.split)

abbreviation unfiled_cp :: "exchange_row list \<Rightarrow> surface_row list \<Rightarrow> int \<Rightarrow> capture \<Rightarrow> bool" where
  "unfiled_cp X S N \<equiv> \<lambda>cp. unfiled X S N (cp_store cp)"

lemma keeps_capture_run [keeps_intros]: "keeps (unfiled_cp X S N) (capture_run cfg env source)"
  unfolding capture_run_def by (intro keeps_intros unfiled_current)

lemma keeps_beat [keeps_intros]: "keeps (unfiled_cp X S N) (beat rid at)"
  unfolding beat_def by (rule keeps_on_store) (simp add: heartbeat_def unfiled_update)

lemma keeps_dropped [keeps_intros]: "keeps (unfiled_cp X S N) (record_dropped cfg env h)"
  unfolding record_dropped_def
  by (intro keeps_intros) (auto simp: count_drop_def intro: unfiled_update)

lemma keeps_denied [keeps_intros]: "keeps (unfiled_cp X S N) (record_denied cfg env h via)"
  unfolding record_denied_def
  by (intro keeps_sbind keeps_pure) (auto split: option.split intro!: keeps_intros unfiled_denial)

section \<open>Filing one exchange\<close>

lemma sum_update_one:
  fixes g :: "run_row \<Rightarrow> int"
  assumes "\<And>r. g (f r) = g r + d"
  shows "distinct (map run_id rs) \<Longrightarrow> rid \<in> set (map run_id rs) \<Longrightarrow>
    sum_list (map (\<lambda>r. g (if run_id r = rid then f r else r)) rs) = sum_list (map g rs) + d"
proof (induction rs)
  case (Cons r rs)
  show ?case
  proof (cases "run_id r = rid")
    case True
    with Cons.prems have "\<forall>q \<in> set rs. run_id q \<noteq> rid" by (metis distinct.simps(2) image_eqI list.set_map list.simps(9))
    then have "sum_list (map (\<lambda>r. g (if run_id r = rid then f r else r)) rs) = sum_list (map g rs)"
      by (intro arg_cong [of _ _ sum_list] map_cong) simp_all
    with True show ?thesis by (simp add: assms)
  next
    case False
    with Cons show ?thesis by simp
  qed
qed simp

lemma issued_count_request: "distinct (run_ids s) \<Longrightarrow> rid \<in> set (run_ids s) \<Longrightarrow> issued (count_request rid s) = issued s + 1"
  using sum_update_one [of run_requests_issued "\<lambda>r. r\<lparr>run_requests_issued := run_requests_issued r + 1\<rparr>" 1 "st_runs s" rid]
  by (simp add: issued_def count_request_def update_runs_def run_ids_def o_def)

lemma file_exchange_Inl: "file_exchange nid ns e n a rid s = (Inl err, s') \<Longrightarrow> s' = s"
  by (auto simp: file_exchange_def transaction_def split: prod.splits sum.splits)

lemma file_exchange_Inr:
  assumes f: "file_exchange nid ns e n a rid s = (Inr xid, s')" and rid: "xa_run a = Some rid"
    and d: "distinct (run_ids s)" "distinct (map surface_key (st_surfaces s))"
  obtains sf where "xid = nid" "st_exchanges s' = st_exchanges s @ [(exchange_of nid a)\<lparr>ex_surface := Some (sf_id sf)\<rparr>]"
    "sf \<in> set (st_surfaces s')" "issued s' = issued s + 1"
    "surface_key sf = (e, nm_method n, nm_scheme n, nm_host n, nm_port n, nm_path_template n, nm_query_key_set n)"
proof -
  from f have "sbind (record_exchange nid a) (\<lambda>xid. sbind (\<lambda>s. (Inr (), count_request rid s)) (\<lambda>_.
      sbind (upsert_surface ns e n xid rid (xa_via a)) (\<lambda>sid s. (Inr xid, set_surface sid xid s)))) s = (Inr xid, s')"
    by (auto simp: file_exchange_def transaction_def split: prod.splits sum.splits)
  then obtain y s1 where r: "record_exchange nid a s = (Inr y, s1)"
    and rest: "sbind (\<lambda>s. (Inr (), count_request rid s)) (\<lambda>_. sbind (upsert_surface ns e n y rid (xa_via a))
      (\<lambda>sid s. (Inr y, set_surface sid y s))) s1 = (Inr xid, s')"
    by (rule sbind_InrE)
  have s1: "y = nid" "s1 = s\<lparr>st_exchanges := st_exchanges s @ [exchange_of nid a]\<rparr>" "nid \<notin> set (exchange_ids s)"
    "rid \<in> set (run_ids s)"
    using r rid by (auto simp: record_exchange_def fk_def split: if_splits)
  define s2 where "s2 = count_request rid s1"
  have "sbind (upsert_surface ns e n y rid (xa_via a)) (\<lambda>sid s. (Inr y, set_surface sid y s)) s2 = (Inr xid, s')"
    using rest by (simp add: sbind_def s2_def)
  then obtain sid s3 where u: "upsert_surface ns e n y rid (xa_via a) s2 = (Inr sid, s3)"
    and fin: "(Inr y, set_surface sid y s3) = (Inr xid, s')"
    by (elim sbind_InrE) blast
  have "distinct (map surface_key (st_surfaces s2))"
    using d(2) s1 by (simp add: s2_def count_request_def update_runs_def)
  from upsert_surface_Inr [OF u this] obtain row sf where sf:
    "s3 = s2\<lparr>st_surfaces := upsert_by surface_key refresh_surface row (st_surfaces s2)\<rparr>"
    "sf \<in> set (st_surfaces s3)" "sf_id sf = sid"
    "surface_key sf = (e, nm_method n, nm_scheme n, nm_host n, nm_port n, nm_path_template n, nm_query_key_set n)"
    by metis
  have s': "s' = set_surface sid nid s3" "xid = nid" using fin s1(1) by auto
  have "\<forall>x \<in> set (st_exchanges s). ex_id x \<noteq> nid" using s1(3) by (auto simp: exchange_ids_def)
  then have ex: "st_exchanges s' = st_exchanges s @ [(exchange_of nid a)\<lparr>ex_surface := Some sid\<rparr>]"
    unfolding s' sf(1) s2_def s1(2) by (simp add: set_surface_def count_request_def update_runs_def exchange_of_def map_idI)
  have "issued s' = issued s2" using s' sf(1) by (simp add: issued_def set_surface_def)
  also have "\<dots> = issued s1 + 1"
    unfolding s2_def by (rule issued_count_request) (use d(1) s1 in \<open>simp_all add: run_ids_def\<close>)
  also have "issued s1 = issued s" using s1(2) by (simp add: issued_def)
  finally show thesis using that [of sf] s' ex sf by (simp add: set_surface_def)
qed

section \<open>Bodies\<close>

lemma put_body_store: "put_body cfg env body cp = (r, cp') \<Longrightarrow> cp_store cp' = cp_store cp"
  by (auto simp: put_body_def on_blobs_def sbind_def split: if_splits prod.splits sum.splits)

definition readable :: "capture_cfg \<Rightarrow> pystr \<Rightarrow> capture \<Rightarrow> bool" where
  "readable cfg d cp \<longleftrightarrow> (\<exists>y. get_blob (cc_sha cfg) True d None (cp_blobs cp) = Inr y)"

lemma put_body_Inr:
  assumes "put_body cfg env body cp = (Inr (d, n), cp')"
  shows "body = [] \<and> d = None \<and> cp' = cp
    \<or> body \<noteq> [] \<and> d = Some (cc_sha cfg body) \<and> n = Some (length body) \<and> readable cfg (cc_sha cfg body) cp'"
proof (cases "body = []")
  case False
  with assms obtain p cp1 where p: "on_blobs (put_blob (cc_sha cfg) env body) cp = (Inr p, cp1)"
    "(\<lambda>(d, n). sret (Some d, Some n)) p cp1 = (Inr (d, n), cp')"
    unfolding put_body_def by (auto elim: sbind_InrE)
  then have "put_blob (cc_sha cfg) env body (cp_blobs cp) = (Inr p, cp_blobs cp1)" "cp' = cp1" "d = Some (fst p)" "n = Some (snd p)"
    by (auto simp: on_blobs_def split: prod.splits sum.splits)
  then show ?thesis
    using False blobs.put_returns [of "cc_sha cfg" env body "cp_blobs cp" "fst p" "snd p"]
      blobs.put_stores [of "cc_sha cfg" env body "cp_blobs cp" "fst p" "snd p"] by (cases p) (auto simp: readable_def)
qed (use assms in \<open>simp add: put_body_def\<close>)

lemma put_body_keeps:
  assumes "put_body cfg env body cp = (r, cp')" "readable cfg d cp"
  shows "readable cfg d cp'"
proof (cases "body = []")
  case False
  then have "cp_blobs cp' = snd (put_blob (cc_sha cfg) env body (cp_blobs cp))"
    using assms(1) by (auto simp: put_body_def on_blobs_def sbind_def split: prod.splits sum.splits)
  then show ?thesis using blobs.put_keeps assms(2) by (auto simp: readable_def)
qed (use assms in \<open>simp add: put_body_def\<close>)

lemma on_store_blobs: "on_store m cp = (r, cp') \<Longrightarrow> cp_blobs cp' = cp_blobs cp"
  by (auto simp: on_store_def split: prod.splits sum.splits)

section \<open>Recording a frame\<close>

lemma record_frame_Inr:
  assumes f: "record_frame cfg env h via rq rs cp = (Inr r, cp')" and s: "unfiled_cp X S N cp" "distinct (map surface_key S)"
  obtains x sf norm meth url where "r = Some (ex_id x)" "st_exchanges (cp_store cp') = X @ [x]"
    "ex_surface x = Some (sf_id sf)" "sf \<in> set (st_surfaces (cp_store cp'))" "issued (cp_store cp') = N + 1"
    "map_of h (u ''url'') = Some (JStr url)"
    "normalise (cc_netloc_ok cfg) (cc_preserve cfg) (cc_slug_threshold cfg) meth url = Inr norm"
    "surface_key sf = (cc_engagement cfg, nm_method norm, nm_scheme norm, nm_host norm, nm_port norm, nm_path_template norm, nm_query_key_set norm)"
    "ex_req_blob x = (if rq = [] then None else Some (cc_sha cfg rq))" "ex_resp_blob x = (if rs = [] then None else Some (cc_sha cfg rs))"
    "rq \<noteq> [] \<longrightarrow> readable cfg (cc_sha cfg rq) cp'" "rs \<noteq> [] \<longrightarrow> readable cfg (cc_sha cfg rs) cp'"
proof -
  have pureD: "pure m c = (Inr y, c') \<Longrightarrow> c' = c \<and> m = Inr y" for m and y :: "'x" and c c'
    by (auto simp: pure_def split: sum.splits)
  from f obtain ms outcome meth url norm rid c1 c2 req n1 c3 resp n2 c4 status xid where
    url: "text_of (field h ''url'' JNull) = Inr url" and
    norm: "normalise (cc_netloc_ok cfg) (cc_preserve cfg) (cc_slug_threshold cfg) meth url = Inr norm" and
    run: "capture_run cfg env (field h ''source'' (JStr (u ''operator''))) cp = (Inr rid, c1)" and
    beat: "beat rid (ce_now env) c1 = (Inr (), c2)" and
    req: "put_body cfg (ce_req env) rq c2 = (Inr (req, n1), c3)" and
    resp: "put_body cfg (ce_resp env) rs c3 = (Inr (resp, n2), c4)" and
    fin: "on_store (file_exchange (ce_row env) (ce_surface env) (cc_engagement cfg) norm
         (exchange_args_of rid meth url status req resp n2 ms (ce_now env) outcome via) rid) c4 = (Inr xid, cp')" and
    r: "r = Some xid"
    unfolding record_frame_def by (elim sbind_InrE) (auto dest!: pureD elim!: sbind_InrE split: prod.splits)
  have u2: "unfiled_cp X S N c2"
    using keepsD [OF keeps_capture_run s(1) run] keepsD [OF keeps_beat _ beat] by blast
  then have u4: "unfiled_cp X S N c4" using put_body_store [OF req] put_body_store [OF resp] by simp
  from fin have "file_exchange (ce_row env) (ce_surface env) (cc_engagement cfg) norm
         (exchange_args_of rid meth url status req resp n2 ms (ce_now env) outcome via) rid (cp_store c4) = (Inr xid, cp_store cp')"
    by (auto simp: on_store_def split: prod.splits sum.splits)
  then show thesis
  proof (rule file_exchange_Inr)
    fix sf :: surface_row
    let ?x = "(exchange_of (ce_row env) (exchange_args_of rid meth url status req resp n2 ms (ce_now env) outcome via))\<lparr>ex_surface := Some (sf_id sf)\<rparr>"
    assume a: "xid = ce_row env" "st_exchanges (cp_store cp') = st_exchanges (cp_store c4) @ [?x]"
      "sf \<in> set (st_surfaces (cp_store cp'))" "issued (cp_store cp') = issued (cp_store c4) + 1"
      "surface_key sf = (cc_engagement cfg, nm_method norm, nm_scheme norm, nm_host norm, nm_port norm, nm_path_template norm, nm_query_key_set norm)"
    have t: "map_of h (u ''url'') = Some (JStr url)"
      using url by (auto simp: text_of_def field_def split: json.splits option.splits)
    have b: "req = (if rq = [] then None else Some (cc_sha cfg rq))" "resp = (if rs = [] then None else Some (cc_sha cfg rs))"
      "rq \<noteq> [] \<longrightarrow> readable cfg (cc_sha cfg rq) cp'" "rs \<noteq> [] \<longrightarrow> readable cfg (cc_sha cfg rs) cp'"
      using put_body_Inr [OF req] put_body_Inr [OF resp] put_body_keeps [OF resp] on_store_blobs [OF fin]
      by (auto simp: readable_def)
    show thesis
      by (rule that [of ?x sf url meth norm]) (use a r t b norm u4 in \<open>simp_all add: exchange_of_def exchange_args_of_def unfiled_def\<close>)
  qed (use u4 s(2) in \<open>simp_all add: exchange_args_of_def unfiled_def\<close>)
qed

lemma record_frame_Inl: "keeps_raising (unfiled_cp X S N) (record_frame cfg env h via rq rs)"
proof -
  have last: "keeps_raising (unfiled_cp X S N) (on_store (file_exchange nid ns e n a rid))" for nid ns e n a rid
    by (auto simp: keeps_raising_def on_store_def dest: file_exchange_Inl split: prod.splits sum.splits)
  show ?thesis
    unfolding record_frame_def
    by (intro keeps_raising_sbind keeps_raising_last keeps_intros last) (auto split: prod.split intro!: keeps_raising_sbind keeps_raising_last keeps_intros last)
qed

lemma sample_norm: "normalise (\<lambda>_. True) [] 20 (u ''GET'') (u ''http://a/7'') =
    Inr \<lparr>nm_method = u ''GET'', nm_scheme = u ''http'', nm_host = u ''a'', nm_port = 80, nm_path_template = u ''/{id}'',
      nm_query_key_set = [], nm_kind = u ''idempotent_read'', nm_version = 2\<rparr>"
  by code_simp

definition sample_cfg :: capture_cfg where
  "sample_cfg = \<lparr>cc_engagement = u ''e1'', cc_profile = u ''staging'', cc_preserve = [], cc_slug_threshold = 20,
     cc_netloc_ok = (\<lambda>_. True), cc_sha = toy_sha\<rparr>"

definition sample_env :: capture_env where
  "sample_env = \<lparr>ce_run = u ''r1'', ce_row = u ''x1'', ce_surface = u ''s1'', ce_run_now = 5, ce_now = 6,
     ce_req = good_env (u ''p1''), ce_resp = good_env (u ''p2'')\<rparr>"

definition captured_frame :: header where
  "captured_frame = [(u ''v'', JInt 1), (u ''t'', JStr (u ''exchange'')), (u ''method'', JStr (u ''GET'')),
     (u ''url'', JStr (u ''http://a/7'')), (u ''status'', JInt 200)]"

definition sample_capture :: capture where
  "sample_capture = \<lparr>cp_store = empty_store (u ''e1''), cp_blobs = empty_fs\<rparr>"

lemma sample_recorded: "fst (on_exchange sample_cfg sample_env captured_frame [1, 2] [] sample_capture) = Inr (Some (u ''x1''))"
  by code_simp

section \<open>The halt of a target\<close>

lemma abort_all_runs:
  "set rids \<subseteq> set (live_runs e s) \<Longrightarrow> distinct rids \<Longrightarrow> distinct (run_ids s) \<Longrightarrow>
   \<exists>s'. abort_all clock why n rids s = (Inr rids, s') \<and> s'\<lparr>st_runs := st_runs s\<rparr> = s \<and>
     map run_id (st_runs s') = map run_id (st_runs s) \<and>
     (\<forall>r \<in> set (st_runs s). run_id r \<notin> set rids \<longrightarrow> r \<in> set (st_runs s')) \<and>
     (\<forall>r' \<in> set (st_runs s'). if run_id r' \<in> set rids then run_status r' = u ''aborted'' \<and> run_stop_reason r' = Some why
        else r' \<in> set (st_runs s))"
proof (induction rids arbitrary: n s)
  case (Cons rid rids)
  define s1 where "s1 = end_run rid (clock n) (u ''aborted'') (Some why) s"
  from Cons.prems obtain r where r: "r \<in> set (st_runs s)" "run_id r = rid" "running r" "run_engagement r = e"
    by (auto simp: live_runs_def)
  have "filter (\<lambda>q. run_id q = rid) (st_runs s) = [r]"
    using filter_key_unique [of run_id "st_runs s" r] Cons.prems(3) r by (simp add: run_ids_def)
  then have one: "filter (\<lambda>q. run_id q = rid \<and> running q) (st_runs s) = [r]"
    using r(3) by (simp flip: filter_filter)
  then have ab: "abort_run rid why (clock n) s = (Inr True, s1)" by (simp add: abort_run_def s1_def)
  have runs: "st_runs s1 = map (\<lambda>q. if run_id q = rid \<and> running q then q\<lparr>run_status := u ''aborted'', run_ended_us := Some (clock n),
      run_stop_reason := Some why\<rparr> else q) (st_runs s)"
    and rest: "s1\<lparr>st_runs := st_runs s\<rparr> = s"
    by (simp_all add: s1_def end_run_def update_runs_def)
  have ids: "map run_id (st_runs s1) = map run_id (st_runs s)" by (simp add: runs o_def if_distrib cong: if_cong)
  have "set rids \<subseteq> set (live_runs e s1)"
  proof
    fix q assume q: "q \<in> set rids"
    with Cons.prems(1) have "q \<in> set (live_runs e s)" by auto
    moreover have "q \<noteq> rid" using q Cons.prems(2) by auto
    ultimately obtain t where "t \<in> set (st_runs s)" "run_id t = q" "running t" "run_engagement t = e" "q \<noteq> rid"
      by (auto simp: live_runs_def)
    then show "q \<in> set (live_runs e s1)" by (force simp: live_runs_def runs)
  qed
  with Cons.IH [of s1 "Suc n"] Cons.prems ids obtain s' where ih: "abort_all clock why (Suc n) rids s1 = (Inr rids, s')"
    "s'\<lparr>st_runs := st_runs s1\<rparr> = s1" "map run_id (st_runs s') = map run_id (st_runs s1)"
    "\<forall>r \<in> set (st_runs s1). run_id r \<notin> set rids \<longrightarrow> r \<in> set (st_runs s')"
    "\<forall>r' \<in> set (st_runs s'). if run_id r' \<in> set rids then run_status r' = u ''aborted'' \<and> run_stop_reason r' = Some why
        else r' \<in> set (st_runs s1)"
    by (auto simp: run_ids_def)
  have "abort_all clock why n (rid # rids) s = (Inr (rid # rids), s')" using ab ih(1) by simp
  moreover have "s'\<lparr>st_runs := st_runs s\<rparr> = s"
    using ih(2) rest by (cases s; cases s'; cases s1) auto
  moreover have "r \<in> set (st_runs s')" if "r \<in> set (st_runs s)" "run_id r \<notin> set (rid # rids)" for r
    using ih(4) that by (force simp: runs)
  moreover have "if run_id r' \<in> set (rid # rids) then run_status r' = u ''aborted'' \<and> run_stop_reason r' = Some why
        else r' \<in> set (st_runs s)" if r': "r' \<in> set (st_runs s')" for r'
  proof (cases "run_id r' \<in> set rids")
    case False
    with ih(5) r' have "r' \<in> set (st_runs s1)" by auto
    then obtain q where q: "q \<in> set (st_runs s)" "r' = (if run_id q = rid \<and> running q then q\<lparr>run_status := u ''aborted'',
        run_ended_us := Some (clock n), run_stop_reason := Some why\<rparr> else q)"
      by (auto simp: runs)
    have "running q" if "run_id q = rid"
      using filter_key_unique [of run_id "st_runs s" q] Cons.prems(3) q(1) that r
        \<open>filter (\<lambda>q. run_id q = rid) (st_runs s) = [r]\<close> by (simp add: run_ids_def)
    with False q show ?thesis by auto
  qed (use ih(5) r' in auto)
  ultimately show ?case using ih(3) ids by auto
qed simp

section \<open>Triage\<close>

text \<open>A finding's status is where its history ends, and no entry of an agent confirms or reports.\<close>

definition current_status :: "pystr \<Rightarrow> store \<Rightarrow> pystr" where
  "current_status fid s =
     (let es = filter (\<lambda>e. se_finding e = fid) (st_events s) in if es = [] then u ''new'' else se_to (last es))"

definition audited :: "store \<Rightarrow> bool" where
  "audited s \<longleftrightarrow> distinct (map fi_id (st_findings s)) \<and> set (map se_finding (st_events s)) \<subseteq> set (map fi_id (st_findings s)) \<and>
     (\<forall>f \<in> set (st_findings s). fi_status f = current_status (fi_id f) s) \<and>
     (\<forall>e \<in> set (st_events s). se_to e \<in> {u ''confirmed'', u ''reported''} \<longrightarrow> se_actor e \<noteq> u ''agent'')"

lemma current_status_append:
  "st_events s' = st_events s @ [e] \<Longrightarrow> current_status fid s' = (if se_finding e = fid then se_to e else current_status fid s)"
  by (simp add: current_status_def Let_def)

lemma set_status_cases:
  assumes "set_status nid fid to note at s = (r, s')"
  obtains (same) "s' = s" "\<forall>c. r = Inr c \<longrightarrow> \<not> sc_changed c"
  | (moved) f where "f \<in> set (st_findings s)" "fi_id f = fid" "fi_status f \<noteq> to" "to \<in> set TARGETS"
      "to \<in> set NOTE_REQUIRED \<longrightarrow> (\<exists>t. note = Some t \<and> strip t \<noteq> [])"
      "r = Inr \<lparr>sc_finding = fid, sc_from = fi_status f, sc_to = to, sc_event = Some nid, sc_changed = True, sc_ts_us = at\<rparr>"
      "s' = s\<lparr>st_events := st_events s @ [\<lparr>se_id = nid, se_finding = fid, se_from = fi_status f, se_to = to,
                 se_actor = u ''human'', se_note = map_option strip note, se_ts_us = at\<rparr>],
              st_findings := map (\<lambda>f. if fi_id f = fid then f\<lparr>fi_status := to\<rparr> else f) (st_findings s)\<rparr>"
proof -
  let ?e = "\<lambda>f. \<lparr>se_id = nid, se_finding = fid, se_from = fi_status f, se_to = to, se_actor = u ''human'',
      se_note = map_option strip note, se_ts_us = at\<rparr>"
  let ?m = "\<lambda>f. transaction (sbind (insert_event (?e f)) (\<lambda>_. set_finding_status fid to)) s"
  have m: "?m f = (Inl IntegrityError, s) \<or> ?m f = (Inr (), s\<lparr>st_events := st_events s @ [?e f],
      st_findings := map (\<lambda>f. if fi_id f = fid then f\<lparr>fi_status := to\<rparr> else f) (st_findings s)\<rparr>)" for f
    by (simp add: transaction_def sbind_def insert_event_def set_finding_status_def)
  consider (refused) "to \<notin> set TARGETS \<or> to \<in> set NOTE_REQUIRED \<and> (map_option strip note = None \<or> map_option strip note = Some [])
      \<or> filter (\<lambda>f. fi_id f = fid) (st_findings s) = []"
    | (found) f fs where "filter (\<lambda>f. fi_id f = fid) (st_findings s) = f # fs" "to \<in> set TARGETS"
      "to \<in> set NOTE_REQUIRED \<longrightarrow> (\<exists>t. note = Some t \<and> strip t \<noteq> [])"
    by (cases "filter (\<lambda>f. fi_id f = fid) (st_findings s)"; cases "note") auto
  then show thesis
  proof cases
    case refused
    then show thesis using assms same by (auto simp: set_status_def Let_def split: if_splits list.splits)
  next
    case found
    then have f: "f \<in> set (st_findings s)" "fi_id f = fid"
      by (metis (mono_tags, lifting) filter_eq_Cons_iff in_set_conv_decomp)+
    have ok: "(to \<in> set NOTE_REQUIRED \<and> (map_option strip note = None \<or> map_option strip note = Some [])) = False"
      using found(3) by auto
    note run = assms [unfolded set_status_def Let_def ok found(1) if_False list.case]
    show thesis
    proof (cases "fi_status f = to")
      case True
      then show thesis using run found(2) same by auto
    next
      case False
      then show thesis
        using run found(2) same moved [OF f False found(2,3)] m [of f] by auto
    qed
  qed
qed

lemma audited_set_status:
  assumes "audited s" "set_status nid fid to note at s = (r, s')"
  shows "audited s'"
  using assms(2)
proof (cases rule: set_status_cases)
  case (moved f)
  have ids: "map fi_id (st_findings s') = map fi_id (st_findings s)" by (simp add: moved o_def if_distrib cong: if_cong)
  have cur: "current_status g s' = (if g = fid then to else current_status g s)" for g
    by (simp add: current_status_append moved)
  have "fi_status q = current_status (fi_id q) s'" if "q \<in> set (st_findings s')" for q
  proof -
    have "q \<in> (\<lambda>f. if fi_id f = fid then f\<lparr>fi_status := to\<rparr> else f) ` set (st_findings s)"
      using that by (simp add: moved(7))
    with assms(1) show ?thesis by (auto simp: cur audited_def)
  qed
  moreover have "set (map se_finding (st_events s')) \<subseteq> set (map fi_id (st_findings s'))"
    unfolding ids using assms(1) moved(1,2,7) by (auto simp: audited_def)
  moreover have "se_to e \<in> {u ''confirmed'', u ''reported''} \<longrightarrow> se_actor e \<noteq> u ''agent''" if "e \<in> set (st_events s')" for e
  proof -
    have "e \<in> set (st_events s) \<or> se_actor e = u ''human''" using that by (auto simp: moved(7))
    moreover have "u ''human'' \<noteq> u ''agent''" by (simp add: literals)
    ultimately show ?thesis using assms(1) by (auto simp: audited_def)
  qed
  moreover have "distinct (map fi_id (st_findings s'))" using assms(1) ids by (simp add: audited_def)
  ultimately show ?thesis unfolding audited_def by blast
qed (use assms(1) in simp)

lemma audited_upsert_finding:
  assumes a: "audited s"
  shows "audited (snd (upsert_finding nid e c k rid sf h ch cb s))"
proof (cases "snd (upsert_finding nid e c k rid sf h ch cb s) = s")
  case False
  define row where "row = finding_of nid e c k rid sf h ch cb"
  let ?s' = "s\<lparr>st_findings := upsert_by finding_key refresh_finding row (st_findings s)\<rparr>"
  let ?bad = "cb \<notin> {u ''check'', u ''agent''} \<or> (ca_severity c \<notin> set SEVERITIES \<or> ca_confidence c \<notin> set CONFIDENCES
        \<or> map_of SCOPE_BLANKS (ca_scope_level c) = None \<or> e \<notin> set (st_engagements s)
        \<or> rid \<notin> set (run_ids s) \<or> \<not> fk sf (map sf_id (st_surfaces s)) \<or> nid \<in> set (map fi_id (st_findings s)))"
  have "snd (upsert_finding nid e c k rid sf h ch cb s) = (if ?bad then s else ?s')"
    unfolding upsert_finding_def row_def Let_def by (simp split: list.split)
  with False have s': "snd (upsert_finding nid e c k rid sf h ch cb s) = ?s'" and fresh: "nid \<notin> set (map fi_id (st_findings s))"
    by (metis (mono_tags))+
  have row: "fi_id row = nid" "fi_status row = u ''new''" by (simp_all add: row_def finding_of_def)
  have same: "current_status g ?s' = current_status g s" for g by (simp add: current_status_def)
  show ?thesis
  proof (cases "\<exists>r \<in> set (st_findings s). finding_key r = finding_key row")
    case True
    then have u: "st_findings ?s' = map (\<lambda>r. if finding_key r = finding_key row then refresh_finding r row else r) (st_findings s)"
      by (simp add: upsert_by_def)
    have keep: "fi_id (refresh_finding x row) = fi_id x" "fi_status (refresh_finding x row) = fi_status x" for x
      by (simp_all add: refresh_finding_def)
    have ids: "map fi_id (st_findings ?s') = map fi_id (st_findings s)"
      unfolding u by (simp add: keep)
    have "\<forall>f \<in> set (st_findings ?s'). fi_status f = current_status (fi_id f) s"
      using a unfolding u by (auto simp: keep audited_def)
    then show ?thesis using a unfolding s' audited_def same ids by simp
  next
    case False
    then have u: "st_findings ?s' = st_findings s @ [row]" by (simp add: upsert_by_def)
    have "current_status nid s = u ''new''"
      using a fresh by (auto simp: current_status_def audited_def filter_empty_conv Let_def)
    then show ?thesis using a fresh row unfolding s' audited_def same u by auto
  qed
qed (use a in simp)

lemma on_halted_runs:
  assumes "distinct (run_ids s)"
  obtains s' where "on_halted repr clock e h s = (Inr (live_runs e s), s')" "live_runs e s' = []" "s'\<lparr>st_runs := st_runs s\<rparr> = s"
    "map run_id (st_runs s') = map run_id (st_runs s)"
    "\<forall>r \<in> set (st_runs s'). if run_id r \<in> set (live_runs e s)
        then run_status r = u ''aborted'' \<and> run_stop_reason r = Some (halted_reason repr h) else r \<in> set (st_runs s)"
proof -
  have "distinct (live_runs e s)" using assms by (simp add: live_runs_def run_ids_def distinct_map_filter)
  from abort_all_runs [OF order_refl this assms, of clock "halted_reason repr h" 0] obtain s' where
    s': "abort_all clock (halted_reason repr h) 0 (live_runs e s) s = (Inr (live_runs e s), s')"
    "s'\<lparr>st_runs := st_runs s\<rparr> = s" "map run_id (st_runs s') = map run_id (st_runs s)"
    "\<forall>r \<in> set (st_runs s'). if run_id r \<in> set (live_runs e s)
        then run_status r = u ''aborted'' \<and> run_stop_reason r = Some (halted_reason repr h) else r \<in> set (st_runs s)"
    by blast
  have ne: "u ''aborted'' \<noteq> u ''running''" by (simp add: literals)
  have "\<not> (run_engagement r = e \<and> running r)" if "r \<in> set (st_runs s')" for r
  proof (cases "run_id r \<in> set (live_runs e s)")
    case True
    then have "run_status r = u ''aborted''" using s'(4) that by auto
    with ne show ?thesis by (simp add: running_def)
  next
    case False
    then have "r \<in> set (st_runs s)" using s'(4) that by auto
    with False show ?thesis by (auto simp: live_runs_def)
  qed
  then have "live_runs e s' = []" by (auto simp: live_runs_def filter_empty_conv)
  with s' that show thesis by (simp add: on_halted_def transaction_def)
qed

section \<open>The properties\<close>



text \<open>When the target's distress halts the extension, every live run of the engagement is aborted with
  the frame's reason in one transaction; no run is left running, none is opened, and every other row of
  the store is as it was.\<close>

theorem halted_aborts_every_live_run:
  assumes "distinct (run_ids s)"
  shows "\<exists>s'. on_halted repr clock e h s = (Inr (live_runs e s), s') \<and> live_runs e s' = [] \<and> s'\<lparr>st_runs := st_runs s\<rparr> = s
    \<and> map run_id (st_runs s') = map run_id (st_runs s)
    \<and> (\<forall>r \<in> set (st_runs s'). if run_id r \<in> set (live_runs e s)
        then run_status r = u ''aborted'' \<and> run_stop_reason r = Some (halted_reason repr h) else r \<in> set (st_runs s))"
  using on_halted_runs [OF assms] by blast

theorem halted_aborts_every_live_run_witness:
  "let s = snd (open_run (u ''r1'') (u ''e1'') (u ''browse'') (u ''staging'') 3 (empty_store (u ''e1''))) in
   live_runs (u ''e1'') s = [u ''r1''] \<and>
   (\<exists>s'. on_halted (\<lambda>_. []) (\<lambda>n. 9) (u ''e1'') [] s = (Inr [u ''r1''], s') \<and> live_runs (u ''e1'') s' = [])"
proof -
  let ?s = "snd (open_run (u ''r1'') (u ''e1'') (u ''browse'') (u ''staging'') 3 (empty_store (u ''e1'')))"
  have "distinct (run_ids ?s)" "live_runs (u ''e1'') ?s = [u ''r1'']" by code_simp+
  with halted_aborts_every_live_run [of ?s "\<lambda>_. []" "\<lambda>n. 9" "u ''e1''" "[]"] show ?thesis
    unfolding Let_def by auto
qed



end
