(* ===== verification/Recording.thy ===== *)
theory Recording
  imports Bridge Capture_Laws
begin

text \<open>
  The bridge recording into the store: \<open>ExchangeSink\<close> of \<open>src/hx/session.py\<close> gives the read thread both its
  callbacks, and a frame that cannot be recorded comes back as a counted drop. The \<open>n\<close>-th call to the
  sink runs in the environment \<open>envs n\<close>.
\<close>

section \<open>The sink\<close>

record sink =
  sk_capture :: capture
  sk_calls :: nat

definition sink_exchange :: "capture_cfg \<Rightarrow> (nat \<Rightarrow> capture_env) \<Rightarrow> header \<Rightarrow> bytes \<Rightarrow> bytes \<Rightarrow> sink \<Rightarrow> bool \<times> sink" where
  "sink_exchange cfg envs h request response sk =
     (case on_exchange cfg (envs (sk_calls sk)) h request response (sk_capture sk) of
        (r, cp) \<Rightarrow> (case r of Inl _ \<Rightarrow> True | Inr _ \<Rightarrow> False, \<lparr>sk_capture = cp, sk_calls = Suc (sk_calls sk)\<rparr>))"

definition sink_halted :: "capture_cfg \<Rightarrow> (json \<Rightarrow> pystr) \<Rightarrow> (nat \<Rightarrow> nat \<Rightarrow> int) \<Rightarrow> header \<Rightarrow> sink \<Rightarrow> bool \<times> sink" where
  "sink_halted cfg repr clock h sk =
     (case on_halted repr (clock (sk_calls sk)) (cc_engagement cfg) h (cp_store (sk_capture sk)) of
        (r, s) \<Rightarrow> (case r of Inl _ \<Rightarrow> True | Inr _ \<Rightarrow> False,
                    \<lparr>sk_capture = (sk_capture sk)\<lparr>cp_store := s\<rparr>, sk_calls = Suc (sk_calls sk)\<rparr>))"

definition session_callbacks :: "capture_cfg \<Rightarrow> (nat \<Rightarrow> capture_env) \<Rightarrow> (json \<Rightarrow> pystr) \<Rightarrow> (nat \<Rightarrow> nat \<Rightarrow> int) \<Rightarrow> sink callbacks" where
  "session_callbacks cfg envs repr clock =
     \<lparr>cb_hello = None, cb_halted = Some (sink_halted cfg repr clock), cb_exchange = Some (sink_exchange cfg envs)\<rparr>"

section \<open>The count of lost frames\<close>

definition lost :: "store \<Rightarrow> int" where
  "lost s = sum_list (map run_dropped_total (st_runs s))"

definition stable :: "int \<Rightarrow> store \<Rightarrow> bool" where
  "stable L s \<longleftrightarrow> lost s = L \<and> distinct (run_ids s)"

lemma stable_update:
  "(\<And>r. run_dropped_total (f r) = run_dropped_total r) \<Longrightarrow> (\<And>r. run_id (f r) = run_id r)
   \<Longrightarrow> stable L s \<Longrightarrow> stable L (update_runs sel f s)"
  by (simp add: stable_def lost_def run_ids_def update_runs_def o_def if_distrib cong: if_cong)

lemma stable_open: "stable L s \<Longrightarrow> stable L (snd (open_run nid e k p at s))"
  by (auto simp: stable_def open_run_def lost_def run_ids_def)

lemma stable_close: "stable L s \<Longrightarrow> stable L (snd (close_run rid at st why s))"
  by (auto simp: close_run_def end_run_def intro: stable_update)

lemma stable_current: "stable L s \<Longrightarrow> stable L (snd (current_run nid e k p at s))"
proof -
  assume s: "stable L s"
  have "keeps (stable L) (sbind (close_run rid at' st why) (\<lambda>_. open_run nid e k p at))" for rid at' st why
    by (intro keeps_sbind) (simp_all add: keeps_def stable_close stable_open)
  with s show ?thesis by (simp add: current_run_def keeps_def stable_open split: option.split)
qed

lemma current_run_id:
  assumes "current_run nid e k p at s = (Inr rid, s')"
  shows "rid \<in> set (run_ids s')"
proof -
  have op: "rid \<in> set (run_ids s')" if "open_run nid e k p at t = (Inr rid, s')" for t
    using that by (auto simp: open_run_def run_ids_def split: if_splits)
  show ?thesis
  proof (cases "newest (filter (\<lambda>r. run_engagement r = e \<and> run_kind r = k \<and> running r) (st_runs s))")
    case None
    with assms op show ?thesis by (simp add: current_run_def)
  next
    case (Some r)
    from newest_mem [OF this] have "r \<in> set (st_runs s)" by simp
    with Some assms op show ?thesis
      by (auto simp: current_run_def run_ids_def split: if_splits elim: sbind_InrE)
  qed
qed

abbreviation stable_cp :: "int \<Rightarrow> capture \<Rightarrow> bool" where
  "stable_cp L \<equiv> \<lambda>cp. stable L (cp_store cp)"

lemma keeps_run_stable [keeps_intros]: "keeps (stable_cp L) (capture_run cfg env source)"
  unfolding capture_run_def by (intro keeps_intros stable_current)

lemma keeps_beat_stable [keeps_intros]: "keeps (stable_cp L) (beat rid at)"
  unfolding beat_def by (rule keeps_on_store) (simp add: heartbeat_def stable_update)

lemma file_exchange_stable: "stable L s \<Longrightarrow> stable L (snd (file_exchange nid ns e n a rid s))"
proof (cases "file_exchange nid ns e n a rid s")
  case (Pair r s')
  assume s: "stable L s"
  have same: "stable L t" if "stable L s" "st_runs t = st_runs s" for s t
    using that by (simp add: stable_def lost_def run_ids_def)
  have "keeps (stable L) (record_exchange nid a)"
    by (simp add: keeps_def record_exchange_def same)
  moreover have "keeps (stable L) (\<lambda>s. (Inr (), count_request rid s))"
    by (simp add: keeps_def count_request_def stable_update)
  moreover have "st_runs (snd (upsert_surface ns e n xid rid via s)) = st_runs s" for xid via s
    unfolding upsert_surface_def Let_def by (simp split: option.split list.split)
  then have "keeps (stable L) (upsert_surface ns e n xid rid via)" for xid via
    using same by (auto simp: keeps_def)
  moreover have "keeps (stable L) (\<lambda>s. (Inr xid, set_surface sid xid s))" for xid sid
    by (simp add: keeps_def set_surface_def same)
  ultimately have "keeps (stable L) (sbind (record_exchange nid a) (\<lambda>xid. sbind (\<lambda>s. (Inr (), count_request rid s)) (\<lambda>_.
      sbind (upsert_surface ns e n xid rid (xa_via a)) (\<lambda>sid s. (Inr xid, set_surface sid xid s)))))"
    by (intro keeps_sbind)
  with s show ?thesis by (auto simp: file_exchange_def transaction_def keeps_def split: prod.split sum.split)
qed

lemma keeps_frame_stable: "keeps (stable_cp L) (record_frame cfg env h via rq rs)"
  unfolding record_frame_def
  by (intro keeps_sbind keeps_intros) (auto split: prod.split intro!: keeps_intros keeps_sbind file_exchange_stable)

text \<open>A drop of one frame: its count rises by one, or the call raises and it does not.\<close>

lemma record_dropped_one:
  assumes "record_dropped cfg env h cp = (r, cp')" "field h ''n'' (JInt 1) = JInt 1" "distinct (run_ids (cp_store cp))"
  shows "r = Inr None \<and> lost (cp_store cp') = lost (cp_store cp) + 1 \<or> (\<exists>e. r = Inl e) \<and> lost (cp_store cp') = lost (cp_store cp)"
proof -
  have st: "stable_cp (lost (cp_store cp)) cp" using assms(3) by (simp add: stable_def)
  have n: "pure (int_of (field h ''n'' (JInt 1))) cp = (Inr 1, cp)" using assms(2) by (simp add: pure_def int_of_def py_int_def)
  obtain q c1 where run: "capture_run cfg env (field h ''source'' (JStr (u ''operator''))) cp = (q, c1)" by fastforce
  have st1: "stable_cp (lost (cp_store cp)) c1" using keepsD [OF keeps_run_stable st run] .
  show ?thesis
  proof (cases q)
    case (Inl e)
    with assms(1) n run st1 show ?thesis by (auto simp: record_dropped_def stable_def)
  next
    case (Inr rid)
    define c2 where "c2 = snd (beat rid (ce_now env) c1)"
    have beat: "beat rid (ce_now env) c1 = (Inr (), c2)" by (simp add: c2_def beat_def on_store_def)
    have st2: "stable_cp (lost (cp_store cp)) c2" using keepsD [OF keeps_beat_stable st1 beat] .
    have "rid \<in> set (run_ids (cp_store c1))"
      using run Inr by (auto simp: capture_run_def on_store_def dest: current_run_id split: prod.splits sum.splits)
    then have mem: "rid \<in> set (run_ids (cp_store c2))"
      by (simp add: c2_def beat_def on_store_def heartbeat_def run_ids_update)
    have "lost (update_runs (\<lambda>r. run_id r = rid) (\<lambda>r. r\<lparr>run_dropped_total := run_dropped_total r + 1\<rparr>) (cp_store c2)) = lost (cp_store cp) + 1"
      using sum_update_one [of run_dropped_total "\<lambda>r. r\<lparr>run_dropped_total := run_dropped_total r + 1\<rparr>" 1 "st_runs (cp_store c2)" rid] st2 mem
      by (simp add: lost_def update_runs_def run_ids_def stable_def o_def)
    with assms(1) n run Inr beat show ?thesis
      by (auto simp: record_dropped_def on_store_def count_drop_def)
  qed
qed

section \<open>What becomes of a frame\<close>

lemma frame_type: "is_type h t \<Longrightarrow> field h ''t'' d = JStr (u t)"
  by (simp add: is_type_def field_def)

lemma on_exchange_drop: "is_type h ''dropped'' \<Longrightarrow> on_exchange cfg env h rq rs cp = record_dropped cfg env h cp"
  by (simp add: on_exchange_def frame_type in_vocab_def FRAME_TYPES_def pure_def)

definition accounted :: "store \<Rightarrow> store \<Rightarrow> int \<Rightarrow> int \<Rightarrow> bool" where
  "accounted s s' filed dropped \<longleftrightarrow> int (length (st_exchanges s')) = int (length (st_exchanges s)) + filed
     \<and> issued s' = issued s + filed \<and> lost s' = lost s + dropped \<and> distinct (run_ids s')"

lemma on_exchange_frame:
  assumes t: "is_type h ''exchange''" and f: "on_exchange cfg env h rq rs cp = (r, cp')"
    and d: "distinct (run_ids (cp_store cp))" "distinct (map surface_key (st_surfaces (cp_store cp)))"
  shows "(\<exists>y. r = Inr y) \<and> accounted (cp_store cp) (cp_store cp') 1 0
    \<or> (\<exists>e. r = Inl e) \<and> accounted (cp_store cp) (cp_store cp') 0 0"
proof -
  let ?s = "cp_store cp"
  have P: "unfiled_cp (st_exchanges ?s) (st_surfaces ?s) (issued ?s) cp" and L: "stable_cp (lost ?s) cp"
    using d by (simp_all add: unfiled_def stable_def)
  have ne: "u ''exchange'' \<noteq> u ''dropped''" "u ''exchange'' \<noteq> u ''denial''" by (simp_all add: literals)
  consider (early) e where "r = Inl e" "cp' = cp" | (frame) via where "record_frame cfg env h via rq rs cp = (r, cp')"
    using f ne by (auto simp: on_exchange_def frame_type [OF t] in_vocab_def FRAME_TYPES_def pure_def sbind_def
        split: sum.splits if_splits json.splits)
  then show ?thesis
  proof cases
    case early
    then show ?thesis using d by (simp add: accounted_def)
  next
    case frame
    have stable: "stable_cp (lost ?s) cp'" using keepsD [OF keeps_frame_stable L frame] .
    show ?thesis
    proof (cases r)
      case (Inl e)
      with frame P have "unfiled_cp (st_exchanges ?s) (st_surfaces ?s) (issued ?s) cp'"
        using record_frame_Inl unfolding keeps_raising_def by blast
      with Inl stable show ?thesis by (simp add: accounted_def unfiled_def stable_def)
    next
      case (Inr y)
      from record_frame_Inr [OF frame [unfolded Inr] P d(2)] obtain x where
        "st_exchanges (cp_store cp') = st_exchanges ?s @ [x]" "issued (cp_store cp') = issued ?s + 1" by metis
      with Inr stable show ?thesis by (simp add: accounted_def stable_def)
    qed
  qed
qed

lemma count_as_dropped_accounted:
  fixes w :: "sink bridge" and envs :: "nat \<Rightarrow> capture_env"
  assumes t: "\<not> is_type h ''dropped''" and d: "distinct (run_ids (cp_store (sk_capture (br_sink w))))"
    and w'_def: "w' = count_as_dropped (session_callbacks cfg envs repr clock) h w"
  shows "br_exchange_errors w' = br_exchange_errors w \<and> accounted (cp_store (sk_capture (br_sink w))) (cp_store (sk_capture (br_sink w'))) 0 1
    \<or> br_exchange_errors w' = br_exchange_errors w + 1 \<and> accounted (cp_store (sk_capture (br_sink w))) (cp_store (sk_capture (br_sink w'))) 0 0"
proof -
  let ?cp = "sk_capture (br_sink w)"
  obtain r cp' where r: "record_dropped cfg (envs (sk_calls (br_sink w))) (drop_header h) ?cp = (r, cp')" by fastforce
  have w': "w' = w\<lparr>br_sink := \<lparr>sk_capture = cp', sk_calls = Suc (sk_calls (br_sink w))\<rparr>,
      br_exchange_errors := br_exchange_errors w + (case r of Inl _ \<Rightarrow> 1 | Inr _ \<Rightarrow> 0)\<rparr>"
    using t r drop_header_fields(1) [of h]
    by (simp add: w'_def count_as_dropped_def session_callbacks_def sink_exchange_def on_exchange_drop split: sum.split)
  have n: "field (drop_header h) ''n'' (JInt 1) = JInt 1" using drop_header_fields(2) [of h] by (simp add: field_def)
  let ?s = "cp_store ?cp"
  have "unfiled_cp (st_exchanges ?s) (st_surfaces ?s) (issued ?s) cp'"
    by (rule keepsD [OF keeps_dropped _ r]) (use d in \<open>simp add: unfiled_def\<close>)
  with record_dropped_one [OF r n d] w' show ?thesis by (auto simp: accounted_def unfiled_def)
qed

text \<open>C15. No exchange frame is lost silently. Whatever a frame of the extension holds and wherever recording
  it fails, one \<open>handle\<close> of it either files exactly one exchange and counts one request, or counts one
  exchange error and one dropped frame on a run, or counts two errors; and the connection, its state, the
  wire and the durable halt are left alone.\<close>

theorem exchange_frame_accounted:
  assumes "handle (session_callbacks cfg envs repr clock) io_ok h body w = (ok, w')"
    and "as_id (map_of h (u ''v'')) = Some PROTOCOL_VERSION" "is_type h ''exchange''"
    and "distinct (run_ids (cp_store (sk_capture (br_sink w))))"
    and "distinct (map surface_key (st_surfaces (cp_store (sk_capture (br_sink w)))))"
  shows "ok \<and> w'\<lparr>br_sink := br_sink w, br_exchange_errors := br_exchange_errors w\<rparr> = w \<and>
    (let s = cp_store (sk_capture (br_sink w)); s' = cp_store (sk_capture (br_sink w'));
         errors = br_exchange_errors w' - br_exchange_errors w
     in br_exchange_errors w \<le> br_exchange_errors w' \<and>
        (errors = 0 \<and> accounted s s' 1 0 \<or> errors = 1 \<and> accounted s s' 0 1 \<or> errors = 2 \<and> accounted s s' 0 0))"
proof -
  let ?cb = "session_callbacks cfg envs repr clock"
  have ok: ok and w': "w' = capture_frame ?cb h body w"
    using assms(1-3) by (auto simp: handle_def is_type_def literals)
  have nd: "\<not> is_type h ''dropped''" using assms(3) by (simp add: is_type_def literals)
  have frame: "v\<lparr>br_sink := s, br_exchange_errors := n\<rparr> = w\<lparr>br_sink := s, br_exchange_errors := n\<rparr>"
    if "v\<lparr>br_sink := br_sink w, br_exchange_errors := br_exchange_errors w\<rparr> = w" for v :: "sink bridge" and s n
  proof -
    from that have "v\<lparr>br_sink := br_sink w, br_exchange_errors := br_exchange_errors w\<rparr>\<lparr>br_sink := s, br_exchange_errors := n\<rparr>
        = w\<lparr>br_sink := s, br_exchange_errors := n\<rparr>" by simp
    then show ?thesis by simp
  qed
  have cad: "(count_as_dropped ?cb h v)\<lparr>br_sink := br_sink w, br_exchange_errors := br_exchange_errors w\<rparr> = w"
    if "v\<lparr>br_sink := br_sink w, br_exchange_errors := br_exchange_errors w\<rparr> = w" for v
    using that frame [OF that] by (simp add: count_as_dropped_def split: option.split prod.split)
  show ?thesis
  proof (cases "split_bodies h body")
    case (Inl e)
    define v where "v = w\<lparr>br_exchange_errors := br_exchange_errors w + 1\<rparr>"
    have "w' = count_as_dropped ?cb h v" using Inl assms(3) by (simp add: w' v_def capture_frame_def session_callbacks_def)
    moreover have "br_sink v = br_sink w" "br_exchange_errors v = br_exchange_errors w + 1"
      "v\<lparr>br_sink := br_sink w, br_exchange_errors := br_exchange_errors w\<rparr> = w" by (simp_all add: v_def)
    ultimately show ?thesis
      using count_as_dropped_accounted [OF nd _ refl, of v cfg envs repr clock] assms(4) ok cad [of v] by (auto simp: Let_def)
  next
    case (Inr p)
    obtain rq rs where p: "p = (rq, rs)" by fastforce
    let ?cp = "sk_capture (br_sink w)"
    obtain r cp' where r: "on_exchange cfg (envs (sk_calls (br_sink w))) h rq rs ?cp = (r, cp')" by fastforce
    define sk where "sk = \<lparr>sk_capture = cp', sk_calls = Suc (sk_calls (br_sink w))\<rparr>"
    note acc = on_exchange_frame [OF assms(3) r assms(4,5)]
    show ?thesis
    proof (cases r)
      case (Inl e)
      define v where "v = w\<lparr>br_sink := sk, br_exchange_errors := br_exchange_errors w + 1\<rparr>"
      have "w' = count_as_dropped ?cb h v"
        using Inl \<open>split_bodies h body = Inr p\<close> p r assms(3)
        by (simp add: w' v_def sk_def capture_frame_def session_callbacks_def sink_exchange_def)
      moreover have v: "br_sink v = sk" "br_exchange_errors v = br_exchange_errors w + 1"
        "v\<lparr>br_sink := br_sink w, br_exchange_errors := br_exchange_errors w\<rparr> = w" by (simp_all add: v_def)
      moreover have first: "accounted (cp_store ?cp) (cp_store (sk_capture sk)) 0 0" using acc Inl by (simp add: sk_def)
      then have "accounted (cp_store ?cp) s' x y" if "accounted (cp_store (sk_capture sk)) s' x y" for s' x y
        using that by (simp add: accounted_def)
      moreover have "distinct (run_ids (cp_store (sk_capture (br_sink v))))" using first v(1) by (simp add: accounted_def)
      ultimately show ?thesis
        using count_as_dropped_accounted [OF nd _ refl, of v cfg envs repr clock] ok cad [of v]
        unfolding Let_def by fastforce
    next
      case (Inr y)
      have "w' = w\<lparr>br_sink := sk\<rparr>"
        using Inr \<open>split_bodies h body = Inr p\<close> p r assms(3)
        by (simp add: w' sk_def capture_frame_def session_callbacks_def sink_exchange_def)
      then show ?thesis using acc Inr ok by (simp add: sk_def Let_def)
    qed
  qed
qed

theorem exchange_frame_accounted_witness:
  "\<exists>hw. let w = init_bridge (u ''e1'') hw \<lparr>sk_capture = sample_capture, sk_calls = 0\<rparr>
   in fst (handle (session_callbacks sample_cfg (\<lambda>_. sample_env) (\<lambda>_. []) (\<lambda>_ _. 0)) True captured_frame [] w)"
  unfolding Let_def
  by (rule exI, rule exchange_frame_accounted [OF prod.collapse [symmetric], THEN conjunct1])
    (simp_all add: captured_frame_def as_id_def eq_int_def PROTOCOL_VERSION_def is_type_def literals init_bridge_def
      sample_capture_def empty_store_def run_ids_def)

end
