(* ===== verification/Tool_Schema.thy ===== *)
theory Tool_Schema
  imports Py_Num "HOL-Library.List_Lexorder"
begin

text \<open>
  The schema language of the tools, \<open>src/hx/tools/schema.py\<close>: \<open>check_schema\<close>, which a tool's parameters pass
  when it is registered, and \<open>validate\<close>, which every call's arguments pass before a handler sees them. A
  schema and an argument are JSON values; the message of a schema error is not modelled. \<open>Crash\<close> is any
  exception that is not a \<open>SchemaError\<close>: a missing key, a comparison of unlike types. A \<open>properties\<close> that is
  not an object or a \<open>required\<close> that is not a list, which \<open>check_schema\<close> refuses, counts as a crash.
\<close>

section \<open>Comparing numbers\<close>

datatype num_value = NaN | NegInf | PosInf | Fin int int

text \<open>The value of a float's text; \<open>Fin m e\<close> is \<open>m * 2 ^ e\<close>.\<close>

definition float_value :: "pystr \<Rightarrow> num_value" where
  "float_value t =
     (if t = u ''NaN'' then NaN
      else case float_of t of
        Some (neg, q, k) \<Rightarrow> Fin (if neg then - int q else int q) k
      | None \<Rightarrow> if startswith [45] t then NegInf else PosInf)"

definition number_of :: "json \<Rightarrow> num_value option" where
  "number_of v =
     (case v of
        JInt n \<Rightarrow> Some (Fin n 0)
      | JBool q \<Rightarrow> Some (Fin (if q then 1 else 0) 0)
      | JFloat t \<Rightarrow> Some (float_value t)
      | _ \<Rightarrow> None)"

fun num_less :: "num_value \<Rightarrow> num_value \<Rightarrow> bool" where
  "num_less (Fin m e) (Fin m' e') = (let k = min e e' in m * 2 ^ nat (e - k) < m' * 2 ^ nat (e' - k))"
| "num_less NegInf y = (y \<noteq> NaN \<and> y \<noteq> NegInf)"
| "num_less (Fin _ _) y = (y = PosInf)"
| "num_less _ _ = False"

definition num_eq :: "num_value \<Rightarrow> num_value \<Rightarrow> bool" where
  "num_eq x y = (x \<noteq> NaN \<and> y \<noteq> NaN \<and> \<not> num_less x y \<and> \<not> num_less y x)"

text \<open>\<open><\<close> between values, where it does not raise, and \<open>==\<close> between scalars.\<close>

definition json_less :: "json \<Rightarrow> json \<Rightarrow> bool option" where
  "json_less v w =
     (case (number_of v, number_of w) of (Some x, Some y) \<Rightarrow> Some (num_less x y) | _ \<Rightarrow> None)"

definition json_eq :: "json \<Rightarrow> json \<Rightarrow> bool" where
  "json_eq v w = (case (number_of v, number_of w) of (Some x, Some y) \<Rightarrow> num_eq x y | _ \<Rightarrow> v = w)"

section \<open>The tables\<close>

definition TYPE_NAMES :: "pystr list" where
  "TYPE_NAMES = [u ''object'', u ''array'', u ''string'', u ''integer'', u ''number'', u ''boolean'']"

text \<open>\<open>isinstance(value, _TYPES[type_])\<close> without booleans among the numbers.\<close>

definition is_a :: "pystr \<Rightarrow> json \<Rightarrow> bool" where
  "is_a t v =
     (case v of
        JObj _ \<Rightarrow> t = u ''object''
      | JArr _ \<Rightarrow> t = u ''array''
      | JStr _ \<Rightarrow> t = u ''string''
      | JInt _ \<Rightarrow> t = u ''integer'' \<or> t = u ''number''
      | JFloat _ \<Rightarrow> t = u ''number''
      | JBool _ \<Rightarrow> t = u ''boolean''
      | JNull \<Rightarrow> False)"

datatype value_type = VStr | VList | VDict | VBool | VNumber | VInt

definition CONSTRAINT_TABLE :: "(pystr \<times> pystr list \<times> value_type) list" where
  "CONSTRAINT_TABLE =
     [(u ''type'', TYPE_NAMES, VStr),
      (u ''enum'', [u ''string'', u ''integer'', u ''number'', u ''boolean''], VList),
      (u ''properties'', [u ''object''], VDict), (u ''required'', [u ''object''], VList),
      (u ''additionalProperties'', [u ''object''], VBool), (u ''items'', [u ''array''], VDict),
      (u ''minimum'', [u ''integer'', u ''number''], VNumber), (u ''maximum'', [u ''integer'', u ''number''], VNumber),
      (u ''minLength'', [u ''string''], VInt), (u ''maxLength'', [u ''string''], VInt),
      (u ''minItems'', [u ''array''], VInt), (u ''maxItems'', [u ''array''], VInt)]"

definition METADATA :: "pystr list" where
  "METADATA = [u ''description'', u ''title'', u ''default'', u ''examples'']"

definition has_type :: "value_type \<Rightarrow> json \<Rightarrow> bool" where
  "has_type t v =
     (case v of
        JStr _ \<Rightarrow> t = VStr
      | JArr _ \<Rightarrow> t = VList
      | JObj _ \<Rightarrow> t = VDict
      | JBool _ \<Rightarrow> t = VBool
      | JInt _ \<Rightarrow> t = VNumber \<or> t = VInt
      | JFloat _ \<Rightarrow> t = VNumber
      | JNull \<Rightarrow> False)"

section \<open>check_schema\<close>

datatype schema_exc = SchemaError | Crash

definition get :: "(pystr \<times> json) list \<Rightarrow> string \<Rightarrow> json" where
  "get obj k = (case map_of obj (u k) of None \<Rightarrow> JNull | Some v \<Rightarrow> v)"

definition keyword_ok :: "pystr \<Rightarrow> pystr \<times> json \<Rightarrow> bool" where
  "keyword_ok t kv =
     (if fst kv \<in> set METADATA then True
      else case map_of CONSTRAINT_TABLE (fst kv) of
        None \<Rightarrow> False
      | Some (types, vt) \<Rightarrow>
          t \<in> set types \<and> has_type vt (snd kv) \<and>
          (if fst kv = u ''enum''
           then (case snd kv of JArr xs \<Rightarrow> xs \<noteq> [] \<and> (\<forall>x \<in> set xs. is_a t x) | _ \<Rightarrow> False)
           else True))"

text \<open>\<open>obj.get("properties") or {}\<close> and \<open>obj.get("required") or ()\<close>.\<close>

definition props_of :: "(pystr \<times> json) list \<Rightarrow> (pystr \<times> json) list option" where
  "props_of obj = (case get obj ''properties'' of JObj ps \<Rightarrow> Some ps | v \<Rightarrow> if truthy v then None else Some [])"

definition required_of :: "(pystr \<times> json) list \<Rightarrow> json list option" where
  "required_of obj = (case get obj ''required'' of JArr xs \<Rightarrow> Some xs | v \<Rightarrow> if truthy v then None else Some [])"

lemma rbind_cong [fundef_cong]:
  "m = m' \<Longrightarrow> (\<And>x. m' = Inr x \<Longrightarrow> f x = g x) \<Longrightarrow> rbind m f = rbind m' g"
  by (cases m') auto

lemma rmap_cong [fundef_cong]: "xs = ys \<Longrightarrow> (\<And>x. x \<in> set ys \<Longrightarrow> f x = g x) \<Longrightarrow> rmap f xs = rmap g ys"
  by (induction ys arbitrary: xs) auto

lemma size_get: "get obj k = v \<Longrightarrow> v \<noteq> JNull \<Longrightarrow> size v < Suc (size_list (size_prod (\<lambda>_. 0) size) obj)"
proof -
  assume "get obj k = v" "v \<noteq> JNull"
  then have "map_of obj (u k) = Some v" by (auto simp: get_def split: option.splits)
  then have "(u k, v) \<in> set obj" by (rule map_of_SomeD)
  then show ?thesis by (induction obj) auto
qed

lemma size_member: "(k, v) \<in> set kvs \<Longrightarrow> size v < size (JObj kvs)"
  by (induction kvs) auto

lemma size_item: "v \<in> set xs \<Longrightarrow> size v < size (JArr xs)"
  by (induction xs) auto

lemma size_props: "props_of obj = Some ps \<Longrightarrow> (k, v) \<in> set ps \<Longrightarrow> size v < size (JObj obj)"
proof -
  assume a: "props_of obj = Some ps" "(k, v) \<in> set ps"
  then have "get obj ''properties'' = JObj ps" by (auto simp: props_of_def split: json.splits if_splits)
  from size_get [OF this] size_member [OF a(2)] show ?thesis by simp
qed

function check_schema :: "json \<Rightarrow> schema_exc + unit" where
  "check_schema v =
     (case v of
        JObj obj \<Rightarrow>
          if \<exists>kv \<in> set obj. fst kv \<notin> set (map fst CONSTRAINT_TABLE) \<and> fst kv \<notin> set METADATA then Inl SchemaError
          else
            (case get obj ''type'' of
               JStr t \<Rightarrow>
                 if t \<notin> set TYPE_NAMES then Inl SchemaError
                 else if \<not> (\<forall>kv \<in> set obj. keyword_ok t kv) then Inl SchemaError
                 else if t = u ''object'' then
                   if get obj ''additionalProperties'' \<noteq> JBool False then Inl SchemaError
                   else
                     (case (props_of obj, required_of obj) of
                        (Some ps, Some rs) \<Rightarrow>
                          rbind (rmap (\<lambda>(_, sub). check_schema sub) ps) (\<lambda>_.
                            if \<forall>r \<in> set rs. case r of JStr k \<Rightarrow> k \<in> set (map fst ps) | _ \<Rightarrow> False then Inr ()
                            else Inl SchemaError)
                      | _ \<Rightarrow> Inl Crash)
                 else if t = u ''array'' then
                   if get obj ''items'' = JNull then Inl SchemaError else check_schema (get obj ''items'')
                 else Inr ()
             | _ \<Rightarrow> Inl SchemaError)
      | _ \<Rightarrow> Inl SchemaError)"
  by pat_completeness auto

termination
  by (relation "measure size") (auto dest: size_props [OF sym] size_get [OF refl])

declare check_schema.simps [simp del]

section \<open>validate\<close>

datatype problem_kind =
    Expected pystr json | NotOneOf "json list" | Missing pystr | NotAnArgument pystr | FewerItems json | MoreItems json
  | BelowMinimum json | AboveMaximum json | Shorter json | Longer json

type_synonym problem = "pystr \<times> problem_kind"

text \<open>\<open>if keyword in obj and left < right: out.append(...)\<close>; a comparison of unlike types crashes.\<close>

definition compare_when :: "(pystr \<times> json) list \<Rightarrow> string \<Rightarrow> (json \<Rightarrow> bool option) \<Rightarrow> (json \<Rightarrow> problem) \<Rightarrow> schema_exc + problem list" where
  "compare_when obj k below p =
     (case map_of obj (u k) of
        None \<Rightarrow> Inr []
      | Some w \<Rightarrow> (case below w of None \<Rightarrow> Inl Crash | Some q \<Rightarrow> Inr (if q then [p w] else [])))"

definition both :: "schema_exc + problem list \<Rightarrow> schema_exc + problem list \<Rightarrow> schema_exc + problem list" where
  "both p q = rbind p (\<lambda>xs. rbind q (\<lambda>ys. Inr (xs @ ys)))"

definition missing_keys :: "pystr \<Rightarrow> json list \<Rightarrow> (pystr \<times> json) list \<Rightarrow> schema_exc + problem list" where
  "missing_keys whr rs kvs =
     rbind (rmap (\<lambda>r. case r of
         JStr k \<Rightarrow> Inr (if k \<in> set (map fst kvs) then [] else [(whr, Missing k)])
       | _ \<Rightarrow> Inl Crash) rs) (\<lambda>ps. Inr (concat ps))"

definition unknown_keys :: "pystr \<Rightarrow> (pystr \<times> json) list \<Rightarrow> (pystr \<times> json) list \<Rightarrow> problem list" where
  "unknown_keys whr ps kvs =
     map (\<lambda>k. (whr, NotAnArgument k)) (sort (remdups (filter (\<lambda>k. k \<notin> set (map fst ps)) (map fst kvs))))"

definition enum_problems :: "pystr \<Rightarrow> (pystr \<times> json) list \<Rightarrow> json \<Rightarrow> schema_exc + problem list" where
  "enum_problems whr obj v =
     (case map_of obj (u ''enum'') of
        None \<Rightarrow> Inr []
      | Some (JArr xs) \<Rightarrow> Inr (if \<exists>x \<in> set xs. json_eq v x then [] else [(whr, NotOneOf xs)])
      | Some _ \<Rightarrow> Inl Crash)"

definition scalar_problems :: "pystr \<Rightarrow> (pystr \<times> json) list \<Rightarrow> pystr \<Rightarrow> json \<Rightarrow> schema_exc + problem list" where
  "scalar_problems whr obj t v =
     (if t = u ''integer'' \<or> t = u ''number'' then
        both (compare_when obj ''minimum'' (\<lambda>w. json_less v w) (\<lambda>w. (whr, BelowMinimum w)))
             (compare_when obj ''maximum'' (\<lambda>w. json_less w v) (\<lambda>w. (whr, AboveMaximum w)))
      else if t = u ''string'' then
        let n = (case v of JStr s \<Rightarrow> JInt (int (length s)) | _ \<Rightarrow> JNull) in
        both (compare_when obj ''minLength'' (\<lambda>w. json_less n w) (\<lambda>w. (whr, Shorter w)))
             (compare_when obj ''maxLength'' (\<lambda>w. json_less w n) (\<lambda>w. (whr, Longer w)))
      else Inr [])"

function validate_at :: "pystr \<Rightarrow> json \<Rightarrow> json \<Rightarrow> schema_exc + problem list" where
  "validate_at whr schema v =
     (case schema of
        JObj obj \<Rightarrow>
          (case get obj ''type'' of
             JStr t \<Rightarrow>
               if t \<notin> set TYPE_NAMES then Inl Crash
               else if \<not> is_a t v then Inr [(whr, Expected t v)]
               else
                 both (enum_problems whr obj v)
                   (case v of
                      JObj kvs \<Rightarrow>
                        (case (props_of obj, required_of obj) of
                           (Some ps, Some rs) \<Rightarrow>
                             both (missing_keys whr rs kvs)
                               (both (Inr (unknown_keys whr ps kvs))
                                 (rbind (rmap (\<lambda>(k, sub). case map_of kvs k of
                                      None \<Rightarrow> Inr []
                                    | Some w \<Rightarrow> validate_at (whr @ [46] @ k) sub w) ps) (\<lambda>outs. Inr (concat outs))))
                         | _ \<Rightarrow> Inl Crash)
                    | JArr xs \<Rightarrow>
                        let n = JInt (int (length xs)) in
                        both (compare_when obj ''minItems'' (\<lambda>w. json_less n w) (\<lambda>w. (whr, FewerItems w)))
                          (both (compare_when obj ''maxItems'' (\<lambda>w. json_less w n) (\<lambda>w. (whr, MoreItems w)))
                            (if xs \<noteq> [] \<and> map_of obj (u ''items'') = None then Inl Crash
                             else rbind (rmap (\<lambda>(i, x). validate_at (whr @ [91] @ dump_int (int i) @ [93]) (get obj ''items'') x)
                                    (zip [0..<length xs] xs)) (\<lambda>outs. Inr (concat outs))))
                    | _ \<Rightarrow> scalar_problems whr obj t v)
           | JNull \<Rightarrow> enum_problems whr obj v
           | _ \<Rightarrow> Inl Crash)
      | _ \<Rightarrow> Inl Crash)"
  by pat_completeness auto

termination
  by (relation "measure (\<lambda>(_, _, v). size v)") (auto dest!: map_of_SomeD set_zip_rightD dest: size_member size_item)

declare validate_at.simps [simp del]

definition validate :: "json \<Rightarrow> json \<Rightarrow> schema_exc + problem list" where
  "validate schema v = validate_at (u ''args'') schema v"

end
