(* ===== verification/Tools.thy ===== *)
theory Tools
  imports Tool_Schema Capture Halt
begin

text \<open>
  The tool layer an agent drives hx through: the envelope every call answers with
  (\<open>src/hx/tools/envelope.py\<close>, \<open>errors.py\<close>), the registry (\<open>spec.py\<close>, \<open>registry.py\<close>), the journal
  (\<open>journal.py\<close>) and the gate every call passes (\<open>dispatch.py\<close>). A handler is an argument, a function of the
  call's arguments and the context. The name, arguments and \<open>why\<close> of a call are JSON values, since an
  adapter hands over whatever it was given; \<open>repr\<close> is the text Python gives a value inside a message.
\<close>

section \<open>Envelopes\<close>

datatype outcome = Ok | Empty | Unavailable | Refused | Failed

record envelope =
  en_tool :: pystr
  en_outcome :: outcome
  en_result :: json
  en_reason :: "pystr option"
  en_detail :: "pystr option"

definition REASONS_FOR :: "outcome \<Rightarrow> pystr list" where
  "REASONS_FOR outc =
     (case outc of
        Refused \<Rightarrow> map u [''not_registered'', ''halted'', ''missing_why'', ''bad_args'', ''run_open'', ''scope_denied'',
          ''method_denied'', ''dangerous_denied'', ''rate_limited'', ''budget_exhausted'', ''bad_frame'', ''wrong_run_kind'',
          ''unmanaged_credential'', ''unknown_identity'', ''identity_origin'', ''unknown_frame'', ''protocol_mismatch'',
          ''engagement_mismatch'', ''bad_config'', ''bad_identity'', ''stale_generation'']
      | Unavailable \<Rightarrow> map u [''no_session'', ''no_run'', ''not_implemented'', ''identity_dead'', ''identity_unresolved'',
          ''transport_error'', ''timeout'', ''bridge_lost'', ''not_configured'', ''unreadable'']
      | Failed \<Rightarrow> [u ''internal'']
      | _ \<Rightarrow> [])"

definition ran :: "outcome \<Rightarrow> bool" where
  "ran outc \<longleftrightarrow> outc = Ok \<or> outc = Empty"

text \<open>\<open>Envelope.__post_init__\<close>.\<close>

definition envelope_ok :: "envelope \<Rightarrow> bool" where
  "envelope_ok e =
     (if ran (en_outcome e) then en_reason e = None
      else (case en_reason e of None \<Rightarrow> False | Some r \<Rightarrow> r \<in> set (REASONS_FOR (en_outcome e))) \<and> en_result e = JNull)"

definition mk_envelope :: "pystr \<Rightarrow> outcome \<Rightarrow> json \<Rightarrow> pystr option \<Rightarrow> pystr option \<Rightarrow> store_exc + envelope" where
  "mk_envelope tool outc result reason detail =
     (let e = \<lparr>en_tool = tool, en_outcome = outc, en_result = result, en_reason = reason, en_detail = detail\<rparr> in
      if envelope_ok e then Inr e else Inl ValueError)"

definition answered :: "pystr \<Rightarrow> json \<Rightarrow> store_exc + envelope" where
  "answered tool result =
     (let empty = (case result of
            JObj kvs \<Rightarrow>
              if map_of kvs (u ''returned'') \<noteq> None \<and> map_of kvs (u ''total'') \<noteq> None
              then json_eq (the (map_of kvs (u ''total''))) (JInt 0) else kvs = []
          | JNull \<Rightarrow> True
          | JArr xs \<Rightarrow> xs = []
          | JStr s \<Rightarrow> s = []
          | _ \<Rightarrow> False)
      in mk_envelope tool (if empty then Empty else Ok) result None None)"

definition refused :: "pystr \<Rightarrow> string \<Rightarrow> pystr option \<Rightarrow> store_exc + envelope" where
  "refused tool reason detail = mk_envelope tool Refused JNull (Some (u reason)) detail"

definition unavailable :: "pystr \<Rightarrow> string \<Rightarrow> pystr option \<Rightarrow> store_exc + envelope" where
  "unavailable tool reason detail = mk_envelope tool Unavailable JNull (Some (u reason)) detail"

definition failed :: "pystr \<Rightarrow> pystr \<Rightarrow> store_exc + envelope" where
  "failed tool detail = mk_envelope tool Failed JNull (Some (u ''internal'')) (Some detail)"

definition MAX_LIMIT :: int where
  "MAX_LIMIT = 500"

definition page :: "json list \<Rightarrow> int \<Rightarrow> int \<Rightarrow> (json \<Rightarrow> pystr) option \<Rightarrow> (pystr \<times> json) list \<Rightarrow> store_exc + json" where
  "page rows whole limit cursor_of facets =
     (if \<not> (1 \<le> limit \<and> limit \<le> MAX_LIMIT) then Inl ValueError
      else
        let kept = take (nat limit) rows; truncated = limit < int (length rows) in
        Inr (JObj
          [(u ''rows'', JArr kept), (u ''returned'', JInt (int (length kept))), (u ''total'', JInt whole),
           (u ''truncated'', JBool truncated),
           (u ''next_cursor'', case cursor_of of
              Some f \<Rightarrow> if truncated \<and> kept \<noteq> [] then JStr (f (last kept)) else JNull | None \<Rightarrow> JNull),
           (u ''facets'', JObj facets)]))"

definition CURSOR_PREFIX :: pystr where
  "CURSOR_PREFIX = u ''o-''"

definition MAX_OFFSET :: int where
  "MAX_OFFSET = 1000000000"

datatype tool_exc = ToolError outcome pystr "pystr option" | OtherError pystr

text \<open>\<open>int(digits)\<close> refuses more than 4300 digits with a plain \<open>ValueError\<close>.\<close>

definition parse_offset :: "pystr option \<Rightarrow> tool_exc + int" where
  "parse_offset cursor =
     (case cursor of
        None \<Rightarrow> Inr 0
      | Some c \<Rightarrow>
          let digits = drop (length CURSOR_PREFIX) c in
          if \<not> startswith CURSOR_PREFIX c \<or> digits = [] \<or> \<not> (\<forall>d \<in> set digits. is_digit d)
          then Inl (ToolError Refused (u ''bad_args'') None)
          else if length digits > max_str_digits then Inl (OtherError (u ''ValueError''))
          else if int (digits_val digits) > MAX_OFFSET then Inl (ToolError Refused (u ''bad_args'') None)
          else Inr (int (digits_val digits)))"

section \<open>The journal\<close>

record action_row =
  ac_id :: pystr
  ac_engagement :: pystr
  ac_run :: "pystr option"
  ac_ts_us :: int
  ac_actor :: pystr
  ac_tool :: pystr
  ac_args :: "pystr option"
  ac_summary :: pystr
  ac_why :: "pystr option"

definition CREDENTIAL_HEADERS :: "pystr list" where
  "CREDENTIAL_HEADERS = [u ''Cookie'', u ''Authorization'', u ''Proxy-Authorization'']"

text \<open>One character under \<open>re.IGNORECASE\<close>: besides the letters, the dotted and dotless i, the long s and
  the Kelvin sign.\<close>

definition fold1 :: "nat \<Rightarrow> nat" where
  "fold1 c =
     (if c = 0x130 \<or> c = 0x131 then 105 else if c = 0x17F then 115 else if c = 0x212A then 107 else lower1 c)"

definition blank :: "nat \<Rightarrow> bool" where
  "blank c \<longleftrightarrow> c = 32 \<or> c = 9"

text \<open>The first alternative of \<open>_CREDENTIAL_LINE\<close> that matches at the start of a line: the name as written.\<close>

definition credential_name :: "pystr \<Rightarrow> pystr option" where
  "credential_name line =
     (let t = dropWhile blank line;
          ok = (\<lambda>h. map fold1 (take (length h) t) = map fold1 h \<and> startswith [58] (dropWhile blank (drop (length h) t)))
      in map_option (\<lambda>h. take (length h) t) (List.find ok CREDENTIAL_HEADERS))"

definition header_placeholder :: "pystr \<Rightarrow> pystr" where
  "header_placeholder name = u ''{{observed:'' @ lower (strip name) @ u ''}}''"

definition redact_line :: "pystr \<Rightarrow> pystr" where
  "redact_line line =
     (case credential_name line of None \<Rightarrow> line | Some name \<Rightarrow> name @ u '': '' @ header_placeholder name)"

text \<open>\<open>_CREDENTIAL_LINE.sub\<close>: a line starts the string or follows a carriage return or a newline.\<close>

definition eol :: "nat \<Rightarrow> bool" where
  "eol c \<longleftrightarrow> c = 13 \<or> c = 10"

function redact_lines :: "pystr \<Rightarrow> pystr" where
  "redact_lines s =
     (let line = takeWhile (\<lambda>c. \<not> eol c) s in
      redact_line line @
        (case dropWhile (\<lambda>c. \<not> eol c) s of [] \<Rightarrow> [] | c # rest \<Rightarrow> c # redact_lines rest))"
  by pat_completeness auto

termination
  by (relation "measure length") (auto dest: dropWhile_Cons_length)

declare redact_lines.simps [simp del]

fun redacted :: "json \<Rightarrow> json" where
  "redacted (JStr s) = JStr (redact_url (redact_lines s))"
| "redacted (JObj kvs) = JObj (map (\<lambda>(k, v). (k, redacted v)) kvs)"
| "redacted (JArr xs) = JArr (map redacted xs)"
| "redacted v = v"

text \<open>\<open>sort_keys=True\<close>.\<close>

fun sort_keys :: "json \<Rightarrow> json" where
  "sort_keys (JObj kvs) = JObj (sort_key fst (map (\<lambda>(k, v). (k, sort_keys v)) kvs))"
| "sort_keys (JArr xs) = JArr (map sort_keys xs)"
| "sort_keys v = v"

definition ARGS_INLINE_MAX :: nat where
  "ARGS_INLINE_MAX = 4096"

definition SPILL_PREFIX :: pystr where
  "SPILL_PREFIX = u ''sha256:''"

definition encode_args :: "(bytes \<Rightarrow> pystr) \<Rightarrow> put_env \<Rightarrow> (pystr \<times> json) list \<Rightarrow> (blob_fs, blob_exc, pystr option) prog" where
  "encode_args sha env args fs =
     (if args = [] then (Inr None, fs)
      else
        let text = dumps (sort_keys (redacted (JObj args))); raw = map of_nat text in
        if length raw \<le> ARGS_INLINE_MAX then (Inr (Some text), fs)
        else case put_blob sha env raw fs of
               (Inl e, fs') \<Rightarrow> (Inl e, fs')
             | (Inr (digest, _), fs') \<Rightarrow> (Inr (Some (SPILL_PREFIX @ digest)), fs'))"

definition SUMMARY_MAX :: nat where
  "SUMMARY_MAX = 300"

definition outcome_text :: "outcome \<Rightarrow> pystr" where
  "outcome_text outc = (case outc of Ok \<Rightarrow> u ''ok'' | Empty \<Rightarrow> u ''empty'' | Unavailable \<Rightarrow> u ''unavailable''
     | Refused \<Rightarrow> u ''refused'' | Failed \<Rightarrow> u ''error'')"

definition PAGE_KEYS :: "pystr list" where
  "PAGE_KEYS = [u ''rows'', u ''returned'', u ''total'', u ''truncated'', u ''next_cursor'', u ''facets'']"

definition summarise :: "(json \<Rightarrow> pystr) \<Rightarrow> envelope \<Rightarrow> pystr" where
  "summarise repr e =
     (let outc = outcome_text (en_outcome e) in
      take SUMMARY_MAX
        (if \<not> ran (en_outcome e) then
           outc @ u '': '' @ (case en_reason e of None \<Rightarrow> u ''None'' | Some r \<Rightarrow> r)
             @ (case en_detail e of None \<Rightarrow> [] | Some d \<Rightarrow> if d = [] then [] else [32, 0x2014, 32] @ d)
         else case en_result e of
           JObj kvs \<Rightarrow>
             if set (map fst kvs) = set PAGE_KEYS then
               outc @ u '': '' @ py_str repr (get kvs ''returned'') @ u '' of '' @ py_str repr (get kvs ''total'') @ u '' rows''
             else if u ''id'' \<in> set (map fst kvs) then outc @ u '': '' @ py_str repr (get kvs ''id'')
             else outc
         | _ \<Rightarrow> outc))"

section \<open>The context\<close>

record 'w tool_ctx =
  tx_engagement :: pystr
  tx_store :: store
  tx_blobs :: blob_fs
  tx_actions :: "action_row list"
  tx_halt :: halt_world
  tx_session :: bool
  tx_bound_run :: "pystr option"
  tx_open_runs :: "(pystr \<times> pystr) list option"
  tx_actor :: pystr
  tx_world :: 'w

record journal_env =
  je_id :: pystr
  je_now :: int
  je_put :: put_env
  je_sha :: "bytes \<Rightarrow> pystr"

definition ctx_open_runs :: "'w tool_ctx \<Rightarrow> (pystr \<times> pystr) list \<times> 'w tool_ctx" where
  "ctx_open_runs ctx =
     (case tx_open_runs ctx of
        Some rows \<Rightarrow> (rows, ctx)
      | None \<Rightarrow> (let rows = open_runs (tx_engagement ctx) (tx_store ctx) in (rows, ctx\<lparr>tx_open_runs := Some rows\<rparr>)))"

definition ctx_run_id :: "'w tool_ctx \<Rightarrow> pystr option \<times> 'w tool_ctx" where
  "ctx_run_id ctx =
     (case tx_bound_run ctx of
        Some r \<Rightarrow> (Some r, ctx)
      | None \<Rightarrow> (case ctx_open_runs ctx of (rows, ctx') \<Rightarrow> (if length rows = 1 then Some (fst (hd rows)) else None, ctx')))"

definition journal_record :: "(json \<Rightarrow> pystr) \<Rightarrow> journal_env \<Rightarrow> pystr option \<Rightarrow> pystr \<Rightarrow> (pystr \<times> json) list \<Rightarrow> pystr option
    \<Rightarrow> envelope \<Rightarrow> 'w tool_ctx \<Rightarrow> 'w tool_ctx" where
  "journal_record repr env rid tool args why e ctx =
     (case encode_args (je_sha env) (je_put env) args (tx_blobs ctx) of
        (Inl _, fs) \<Rightarrow> ctx\<lparr>tx_blobs := fs\<rparr>
      | (Inr text, fs) \<Rightarrow>
          if je_id env \<in> set (map ac_id (tx_actions ctx)) \<or> tx_engagement ctx \<notin> set (st_engagements (tx_store ctx))
            \<or> \<not> fk rid (run_ids (tx_store ctx))
          then ctx\<lparr>tx_blobs := fs\<rparr>
          else ctx\<lparr>tx_blobs := fs, tx_actions := tx_actions ctx @
            [\<lparr>ac_id = je_id env, ac_engagement = tx_engagement ctx, ac_run = rid, ac_ts_us = je_now env,
              ac_actor = tx_actor ctx, ac_tool = tool, ac_args = text, ac_summary = summarise repr e, ac_why = why\<rparr>]\<rparr>)"

text \<open>\<open>_shape\<close>: the names of arguments nothing validated.\<close>

definition shape :: "(pystr \<times> json) list \<Rightarrow> (pystr \<times> json) list" where
  "shape args = [(u ''unvalidated_argument_names'', JArr (map JStr (sort (map fst args))))]"

text \<open>\<open>_journalled\<close>: whatever the journal raises is logged and the answer stands.\<close>

definition journalled :: "(json \<Rightarrow> pystr) \<Rightarrow> journal_env \<Rightarrow> pystr \<Rightarrow> (pystr \<times> json) list \<Rightarrow> pystr option \<Rightarrow> bool
    \<Rightarrow> store_exc + envelope \<Rightarrow> 'w tool_ctx \<Rightarrow> (store_exc + envelope) \<times> 'w tool_ctx" where
  "journalled repr env tool args why validated answer ctx =
     (case answer of
        Inl x \<Rightarrow> (Inl x, ctx)
      | Inr e \<Rightarrow>
          (case ctx_run_id ctx of
             (rid, ctx') \<Rightarrow> (Inr e, journal_record repr env rid tool (if validated then args else shape args) why e ctx')))"

section \<open>The registry and the gate\<close>

record 'w tool =
  ts_name :: pystr
  ts_params :: json
  ts_handler :: "(pystr \<times> json) list \<Rightarrow> 'w tool_ctx \<Rightarrow> (tool_exc + json) \<times> 'w tool_ctx"
  ts_needs_egress :: bool
  ts_mutates :: bool

definition V1_TOOL_NAMES :: "pystr list" where
  "V1_TOOL_NAMES = map u
     [''run.start'', ''run.finish'', ''run.journal'', ''run.resume'', ''surface.query'', ''surface.detail'', ''http.send'',
      ''http.grep'', ''http.body'', ''http.replay_as'', ''crawl.run'', ''checks.list'', ''scan.run'', ''finding.record'',
      ''finding.query'', ''evidence.attach'', ''report.render'']"

definition NEVER_AGENT_FACING :: "pystr list" where
  "NEVER_AGENT_FACING = map u [''engagement.create'', ''surface.add'', ''finding.set_status'']"

datatype registry_exc = RegistryError | BadSchema schema_exc

definition register :: "'w tool \<Rightarrow> (pystr \<times> 'w tool) list \<Rightarrow> registry_exc + (pystr \<times> 'w tool) list" where
  "register tool tools =
     (if ts_name tool \<in> set NEVER_AGENT_FACING then Inl RegistryError
      else if ts_name tool \<notin> set V1_TOOL_NAMES then Inl RegistryError
      else if map_of tools (ts_name tool) \<noteq> None then Inl RegistryError
      else case check_schema (ts_params tool) of
        Inl e \<Rightarrow> Inl (BadSchema e)
      | Inr _ \<Rightarrow> Inr (tools @ [(ts_name tool, tool)]))"

definition HALT_EXEMPT :: "pystr list" where
  "HALT_EXEMPT = [u ''run.finish'']"

definition type_name :: "json \<Rightarrow> pystr" where
  "type_name v = (case v of JNull \<Rightarrow> u ''NoneType'' | JBool _ \<Rightarrow> u ''bool'' | JInt _ \<Rightarrow> u ''int'' | JFloat _ \<Rightarrow> u ''float''
     | JStr _ \<Rightarrow> u ''str'' | JArr _ \<Rightarrow> u ''list'' | JObj _ \<Rightarrow> u ''dict'')"

text \<open>The handler's answer, and the checks before it: \<open>gate\<close> gives the refusal and whether the arguments were
  validated, or the tool to run. \<open>explain\<close> is the text of the problems.\<close>

definition run_handler :: "pystr \<Rightarrow> 'w tool \<Rightarrow> (pystr \<times> json) list \<Rightarrow> 'w tool_ctx \<Rightarrow> (store_exc + envelope) \<times> 'w tool_ctx" where
  "run_handler name tool args ctx =
     (case ts_handler tool args ctx of
        (Inr result, ctx') \<Rightarrow> (answered name result, ctx')
      | (Inl (ToolError outc reason detail), ctx') \<Rightarrow> (mk_envelope name outc JNull (Some reason) detail, ctx')
      | (Inl (OtherError text), ctx') \<Rightarrow> (failed name text, ctx'))"

definition gate :: "(problem list \<Rightarrow> pystr) \<Rightarrow> (pystr \<times> 'w tool) list \<Rightarrow> pystr \<Rightarrow> (pystr \<times> json) list \<Rightarrow> pystr option
    \<Rightarrow> 'w tool_ctx \<Rightarrow> (store_exc + envelope) \<times> bool + 'w tool" where
  "gate explain tools name args why ctx =
     (case map_of tools name of
        None \<Rightarrow> Inl (refused name ''not_registered'' (Some (u ''not a tool'')), False)
      | Some tool \<Rightarrow>
          if ts_mutates tool \<and> halted (fst (tx_halt ctx)) (snd (tx_halt ctx)) \<and> name \<notin> set HALT_EXEMPT
          then Inl (refused name ''halted'' (halt_reason (fst (tx_halt ctx)) (snd (tx_halt ctx))), False)
          else if ts_mutates tool \<and> strip (case why of None \<Rightarrow> [] | Some w \<Rightarrow> w) = []
          then Inl (refused name ''missing_why'' (Some (u ''needs a why'')), False)
          else if length name > 64 then Inl (refused name ''bad_args'' (Some (u ''tool name too long'')), False)
          else if (case why of None \<Rightarrow> False | Some w \<Rightarrow> length w > 500)
          then Inl (refused name ''bad_args'' (Some (u ''why too long'')), False)
          else (case validate (ts_params tool) (JObj args) of
            Inl _ \<Rightarrow> Inl (Inl TypeError, False)
          | Inr problems \<Rightarrow>
              if problems \<noteq> [] then Inl (refused name ''bad_args'' (Some (explain problems)), False)
              else if ts_needs_egress tool \<and> \<not> tx_session ctx
              then Inl (unavailable name ''no_session'' (Some (u ''no live session'')), True)
              else Inr tool))"

definition dispatch_args :: "(json \<Rightarrow> pystr) \<Rightarrow> (problem list \<Rightarrow> pystr) \<Rightarrow> journal_env \<Rightarrow> (pystr \<times> 'w tool) list
    \<Rightarrow> pystr \<Rightarrow> (pystr \<times> json) list \<Rightarrow> json \<Rightarrow> pystr option \<Rightarrow> 'w tool_ctx \<Rightarrow> (store_exc + envelope) \<times> 'w tool_ctx" where
  "dispatch_args repr explain env tools name args why safe_why ctx =
     (if why \<noteq> JNull \<and> safe_why = None
      then journalled repr env name args safe_why False (refused name ''bad_args'' (Some (type_name why))) ctx
      else case gate explain tools name args safe_why ctx of
        Inl (answer, validated) \<Rightarrow> journalled repr env name args safe_why validated answer ctx
      | Inr tool \<Rightarrow>
          (case run_handler name tool args ctx of
             (answer, ctx') \<Rightarrow> journalled repr env name args safe_why True answer ctx'))"

definition dispatch :: "(json \<Rightarrow> pystr) \<Rightarrow> (problem list \<Rightarrow> pystr) \<Rightarrow> journal_env \<Rightarrow> (pystr \<times> 'w tool) list
    \<Rightarrow> json \<Rightarrow> json \<Rightarrow> json \<Rightarrow> 'w tool_ctx \<Rightarrow> (store_exc + envelope) \<times> 'w tool_ctx" where
  "dispatch repr explain env tools name args why ctx0 =
     (let ctx = ctx0\<lparr>tx_open_runs := None\<rparr>;
          safe_why = (case why of JStr w \<Rightarrow> Some w | _ \<Rightarrow> None)
      in case name of
           JStr n \<Rightarrow>
             (case args of
                JNull \<Rightarrow> dispatch_args repr explain env tools n [] why safe_why ctx
              | JObj kvs \<Rightarrow> dispatch_args repr explain env tools n kvs why safe_why ctx
              | _ \<Rightarrow> journalled repr env n [] safe_why False (refused n ''bad_args'' (Some (type_name args))) ctx)
         | _ \<Rightarrow>
             (let placeholder = [60] @ type_name name @ [62] in
              journalled repr env placeholder [] safe_why False (refused placeholder ''bad_args'' (Some (type_name name))) ctx))"

end
