(* ===== verification/Tools_Laws.thy ===== *)
theory Tools_Laws
  imports Tools
begin

text \<open>
  What the tool layer promises: arguments are checked against a registered schema without crashing, a
  mutating tool runs only past every gate of \<open>dispatch\<close>, and the journal holds no credential line.
\<close>

section \<open>Schemas\<close>

definition returns :: "'e + 'a \<Rightarrow> bool" where
  "returns m \<longleftrightarrow> (\<exists>x. m = Inr x)"

named_theorems returns_intros \<open>computations that raise nothing\<close>

lemma returns_Inr [returns_intros]: "returns (Inr x)"
  by (simp add: returns_def)

lemma returns_rbind [returns_intros]: "returns m \<Longrightarrow> (\<And>x. m = Inr x \<Longrightarrow> returns (f x)) \<Longrightarrow> returns (rbind m f)"
  by (auto simp: returns_def)

lemma returns_rmap [returns_intros]: "(\<And>x. x \<in> set xs \<Longrightarrow> returns (f x)) \<Longrightarrow> returns (rmap f xs)"
proof (induction xs)
  case (Cons x xs)
  then have "returns (f x)" "returns (rmap f xs)" by simp_all
  then show ?case by (auto simp: returns_def)
qed (simp add: returns_def)

lemma returns_both [returns_intros]: "returns p \<Longrightarrow> returns q \<Longrightarrow> returns (both p q)"
  unfolding both_def by (intro returns_intros)

lemma rmap_returns: "rmap f xs = Inr ys \<Longrightarrow> x \<in> set xs \<Longrightarrow> returns (f x)"
  by (induction xs arbitrary: ys) (auto simp: rbind_Inr_iff returns_def)

text \<open>What passing \<open>check_schema\<close> says of a schema.\<close>

lemma checked_object:
  assumes "check_schema (JObj obj) = Inr r"
  obtains t where "get obj ''type'' = JStr t" "t \<in> set TYPE_NAMES" "\<forall>kv \<in> set obj. keyword_ok t kv"
    "t = u ''object'' \<Longrightarrow> \<exists>ps rs. props_of obj = Some ps \<and> required_of obj = Some rs \<and>
       (\<forall>(k, sub) \<in> set ps. check_schema sub = Inr ()) \<and> (\<forall>q \<in> set rs. \<exists>k. q = JStr k)"
    "t = u ''array'' \<Longrightarrow> get obj ''items'' \<noteq> JNull \<and> check_schema (get obj ''items'') = Inr ()"
proof -
  from assms obtain t where t: "get obj ''type'' = JStr t"
    by (auto simp: check_schema.simps [of "JObj obj"] split: json.splits if_splits)
  have ne: "u ''object'' \<noteq> u ''array''" by (simp add: literals)
  have obj: "\<exists>ps rs. props_of obj = Some ps \<and> required_of obj = Some rs \<and>
       (\<forall>(k, sub) \<in> set ps. check_schema sub = Inr ()) \<and> (\<forall>q \<in> set rs. \<exists>k. q = JStr k)" if "t = u ''object''"
  proof -
    from assms t that obtain ps rs where p: "props_of obj = Some ps" "required_of obj = Some rs"
      "\<exists>ys. rmap (\<lambda>(_, sub). check_schema sub) ps = Inr ys"
      "\<forall>r \<in> set rs. case r of JStr k \<Rightarrow> k \<in> set (map fst ps) | _ \<Rightarrow> False"
      by (auto simp: check_schema.simps [of "JObj obj"] rbind_Inr_iff split: if_splits option.splits)
    have "check_schema sub = Inr ()" if "(k, sub) \<in> set ps" for k sub
      using p(3) rmap_returns [of "\<lambda>(_, sub). check_schema sub" ps _ "(k, sub)"] that by (auto simp: returns_def)
    moreover have "\<forall>q \<in> set rs. \<exists>k. q = JStr k"
    proof
      fix q assume "q \<in> set rs"
      with p(4) show "\<exists>k. q = JStr k" by (cases q) auto
    qed
    ultimately show ?thesis using p by blast
  qed
  show thesis
    by (rule that [OF t])
      (use assms t ne obj in \<open>auto simp: check_schema.simps [of "JObj obj"] split: if_splits\<close>)
qed

lemma checked_number:
  assumes "\<forall>kv \<in> set obj. keyword_ok t kv" "map_of obj (u k) = Some w"
    and "k \<in> {''minimum'', ''maximum'', ''minLength'', ''maxLength'', ''minItems'', ''maxItems''}"
  shows "number_of w \<noteq> None"
proof -
  have "keyword_ok t (u k, w)" using assms(1,2) map_of_SomeD by fastforce
  with assms(3) have "has_type VNumber w \<or> has_type VInt w"
    by (elim insertE emptyE) (simp_all add: keyword_ok_def METADATA_def CONSTRAINT_TABLE_def literals)
  then show ?thesis by (cases w) (simp_all add: has_type_def number_of_def)
qed

lemma returns_compare:
  assumes "\<forall>kv \<in> set obj. keyword_ok t kv"
    and "k \<in> {''minimum'', ''maximum'', ''minLength'', ''maxLength'', ''minItems'', ''maxItems''}"
    and "\<And>w. number_of w \<noteq> None \<Longrightarrow> below w \<noteq> None"
  shows "returns (compare_when obj k below p)"
  using checked_number [OF assms(1) _ assms(2)] assms(3)
  by (fastforce simp: compare_when_def returns_def split: option.split)

lemma returns_enum:
  assumes "\<forall>kv \<in> set obj. keyword_ok t kv"
  shows "returns (enum_problems whr obj v)"
proof (cases "map_of obj (u ''enum'')")
  case (Some w)
  then have "keyword_ok t (u ''enum'', w)" using assms map_of_SomeD by fastforce
  then obtain xs where "w = JArr xs"
    by (cases w) (simp_all add: keyword_ok_def METADATA_def CONSTRAINT_TABLE_def has_type_def literals)
  with Some show ?thesis by (simp add: enum_problems_def returns_def)
qed (simp add: enum_problems_def returns_def)

lemma returns_missing: "\<forall>q \<in> set rs. \<exists>k. q = JStr k \<Longrightarrow> returns (missing_keys whr rs kvs)"
  unfolding missing_keys_def by (intro returns_intros) (auto simp: returns_Inr)

lemma is_a_number: "is_a t v \<Longrightarrow> t = u ''integer'' \<or> t = u ''number'' \<Longrightarrow> number_of v \<noteq> None"
  by (cases v) (auto simp: is_a_def number_of_def literals)

lemma json_less_num: "json_less v w \<noteq> None \<longleftrightarrow> number_of v \<noteq> None \<and> number_of w \<noteq> None"
  by (auto simp: json_less_def split: option.split)

lemma returns_scalar:
  assumes k: "\<forall>kv \<in> set obj. keyword_ok t kv" and v: "is_a t v"
  shows "returns (scalar_problems whr obj t v)"
proof -
  have num: "returns (both (compare_when obj ''minimum'' (\<lambda>w. json_less v w) (\<lambda>w. (whr, BelowMinimum w)))
      (compare_when obj ''maximum'' (\<lambda>w. json_less w v) (\<lambda>w. (whr, AboveMaximum w))))" if "t = u ''integer'' \<or> t = u ''number''"
    using is_a_number [OF v that] by (intro returns_both returns_compare [OF k]) (simp_all only: json_less_num, auto)
  have str: "returns (both (compare_when obj ''minLength'' (\<lambda>w. json_less (JInt n) w) (\<lambda>w. (whr, Shorter w)))
      (compare_when obj ''maxLength'' (\<lambda>w. json_less w (JInt n)) (\<lambda>w. (whr, Longer w))))" for n
    by (intro returns_both returns_compare [OF k]) (auto simp: json_less_def number_of_def)
  show ?thesis
  proof (cases "t = u ''integer'' \<or> t = u ''number''")
    case True
    then show ?thesis using num by (auto simp: scalar_problems_def)
  next
    case False
    show ?thesis
    proof (cases "t = u ''string''")
      case True
      with v obtain s where "v = JStr s" by (cases v) (auto simp: is_a_def literals)
      with True False str show ?thesis by (simp add: scalar_problems_def Let_def)
    qed (use False in \<open>simp add: scalar_problems_def returns_def\<close>)
  qed
qed

lemma validate_returns: "check_schema schema = Inr () \<Longrightarrow> returns (validate_at whr schema v)"
proof (induction whr schema v rule: validate_at.induct)
  case (1 whr schema v)
  from 1(3) obtain obj where obj: "schema = JObj obj"
    by (cases schema) (auto simp: check_schema.simps)
  from 1(3) [unfolded obj] obtain t where t: "get obj ''type'' = JStr t" "t \<in> set TYPE_NAMES" "\<forall>kv \<in> set obj. keyword_ok t kv"
    "t = u ''object'' \<Longrightarrow> \<exists>ps rs. props_of obj = Some ps \<and> required_of obj = Some rs \<and>
       (\<forall>(k, sub) \<in> set ps. check_schema sub = Inr ()) \<and> (\<forall>q \<in> set rs. \<exists>k. q = JStr k)"
    "t = u ''array'' \<Longrightarrow> get obj ''items'' \<noteq> JNull \<and> check_schema (get obj ''items'') = Inr ()"
    by (rule checked_object) blast
  show ?case
  proof (cases "is_a t v")
    case False
    then show ?thesis using obj t by (simp add: validate_at.simps [of whr "JObj obj"] returns_def)
  next
    case True
    show ?thesis
    proof (cases v)
      case (JObj kvs)
      with True have "t = u ''object''" by (simp add: is_a_def)
      from t(4) [OF this] obtain ps rs where p: "props_of obj = Some ps" "required_of obj = Some rs"
        "\<forall>(k, sub) \<in> set ps. check_schema sub = Inr ()" "\<forall>q \<in> set rs. \<exists>k. q = JStr k" by blast
      have pr: "(Some ps, Some rs) = (props_of obj, required_of obj)" using p by simp
      have "returns (case map_of kvs k of None \<Rightarrow> Inr [] | Some w \<Rightarrow> validate_at (whr @ [46] @ k) sub w)"
        if "(k, sub) \<in> set ps" for k sub
        using 1(2) [OF obj t(1) _ _ JObj pr refl refl that refl] t(2) True p(3) that
        by (auto simp: returns_Inr split: option.split)
      then have "returns (rmap (\<lambda>(k, sub). case map_of kvs k of None \<Rightarrow> Inr []
          | Some w \<Rightarrow> validate_at (whr @ [46] @ k) sub w) ps)"
        by (intro returns_rmap) auto
      then show ?thesis
        using obj t(1,2) True JObj p returns_enum [OF t(3)] returns_missing [OF p(4)]
        by (auto simp: validate_at.simps [of whr "JObj obj"] intro!: returns_intros)
    next
      case (JArr xs)
      with True have "t = u ''array''" by (simp add: is_a_def)
      note items = t(5) [OF this]
      then have "map_of obj (u ''items'') \<noteq> None" by (auto simp: get_def split: option.splits)
      moreover have "returns (validate_at (whr @ [91] @ dump_int (int i) @ [93]) (get obj ''items'') x)"
        if "(i, x) \<in> set (zip [0..<length xs] xs)" for i x
        using 1(1) [OF obj t(1) _ _ JArr refl _ that refl] t(2) True items \<open>map_of obj (u ''items'') \<noteq> None\<close> by auto
      then have "returns (rmap (\<lambda>(i, x). validate_at (whr @ [91] @ dump_int (int i) @ [93]) (get obj ''items'') x)
          (zip [0..<length xs] xs))"
        by (intro returns_rmap) auto
      moreover have "returns (compare_when obj ''minItems'' (\<lambda>w. json_less (JInt (int (length xs))) w) p)"
        "returns (compare_when obj ''maxItems'' (\<lambda>w. json_less w (JInt (int (length xs)))) p)" for p
        by (rule returns_compare [OF t(3)]; auto simp: json_less_def number_of_def)+
      ultimately show ?thesis
        using obj t(1,2) True JArr returns_enum [OF t(3)]
        by (auto simp: validate_at.simps [of whr "JObj obj"] Let_def intro!: returns_intros)
    qed (use obj t(1,2) True returns_enum [OF t(3)] returns_scalar [OF t(3) True] in
        \<open>auto simp: validate_at.simps [of whr "JObj obj"] intro!: returns_both\<close>)
  qed
qed

section \<open>The gate\<close>

definition tools_ok :: "(pystr \<times> 'w tool) list \<Rightarrow> bool" where
  "tools_ok tools \<longleftrightarrow> distinct (map fst tools) \<and>
     (\<forall>(n, t) \<in> set tools. ts_name t = n \<and> n \<in> set V1_TOOL_NAMES - set NEVER_AGENT_FACING \<and> check_schema (ts_params t) = Inr ())"

lemma register_ok: "tools_ok tools \<Longrightarrow> register tool tools = Inr tools' \<Longrightarrow> tools_ok tools'"
  by (auto simp: tools_ok_def register_def map_of_eq_None_iff split: if_splits sum.splits)

text \<open>A call leaves everything but the journal, the spilled arguments and the cached rows of \<open>open_runs\<close>.\<close>

definition same_world :: "'w tool_ctx \<Rightarrow> 'w tool_ctx \<Rightarrow> bool" where
  "same_world ctx ctx' \<longleftrightarrow>
     ctx'\<lparr>tx_blobs := tx_blobs ctx, tx_actions := tx_actions ctx, tx_open_runs := tx_open_runs ctx\<rparr> = ctx"

lemma same_world_refl [simp]: "same_world ctx ctx"
  by (simp add: same_world_def)

lemma same_world_cache: "same_world (ctx\<lparr>tx_open_runs := x\<rparr>) ctx' \<Longrightarrow> same_world ctx ctx'"
  by (cases ctx; cases ctx') (simp add: same_world_def)

lemma same_world_run_id: "same_world ctx (snd (ctx_run_id ctx))"
  by (cases "tx_bound_run ctx"; cases "tx_open_runs ctx") (simp_all add: ctx_run_id_def ctx_open_runs_def same_world_def Let_def)

lemma same_world_record: "same_world ctx (journal_record repr env rid tool args why e ctx)"
proof (cases "encode_args (je_sha env) (je_put env) args (tx_blobs ctx)")
  case (Pair r fs)
  then show ?thesis by (cases r) (simp_all add: journal_record_def same_world_def)
qed

lemma same_world_trans: "same_world x y \<Longrightarrow> same_world y z \<Longrightarrow> same_world x z"
  by (cases x; cases y; cases z) (simp add: same_world_def)

lemma same_world_journal: "same_world ctx (snd (journalled repr env tool args why validated answer ctx))"
proof (cases answer)
  case (Inr e)
  have "snd (journalled repr env tool args why validated answer ctx)
      = journal_record repr env (fst (ctx_run_id ctx)) tool (if validated then args else shape args) why e (snd (ctx_run_id ctx))"
    using Inr by (simp add: journalled_def split_beta)
  then show ?thesis using same_world_trans [OF same_world_run_id same_world_record] by metis
qed (simp add: journalled_def)

lemma journalled_answer: "fst (journalled repr env tool args why validated answer ctx) = answer"
  by (simp add: journalled_def split: sum.split prod.split)

definition admitted :: "(pystr \<times> 'w tool) list \<Rightarrow> pystr \<Rightarrow> (pystr \<times> json) list \<Rightarrow> json \<Rightarrow> 'w tool_ctx \<Rightarrow> 'w tool \<Rightarrow> bool" where
  "admitted tools n kvs why ctx tool \<longleftrightarrow>
     map_of tools n = Some tool \<and>
     (ts_mutates tool \<longrightarrow> \<not> halted (fst (tx_halt ctx)) (snd (tx_halt ctx)) \<or> n \<in> set HALT_EXEMPT) \<and>
     (ts_mutates tool \<longrightarrow> (\<exists>w. why = JStr w \<and> strip w \<noteq> [])) \<and> (\<forall>w. why = JStr w \<longrightarrow> length w \<le> 500) \<and>
     validate (ts_params tool) (JObj kvs) = Inr [] \<and> (ts_needs_egress tool \<longrightarrow> tx_session ctx)"

lemma refused_outcome:
  "r \<in> set [''not_registered'', ''halted'', ''missing_why'', ''bad_args''] \<Longrightarrow>
     \<exists>e. refused n r d = Inr e \<and> en_outcome e = Refused"
  "\<exists>e. unavailable n ''no_session'' d = Inr e \<and> en_outcome e = Unavailable"
  by (auto simp: refused_def unavailable_def mk_envelope_def envelope_ok_def ran_def REASONS_FOR_def)

lemma if_cases: "(c \<Longrightarrow> P x) \<Longrightarrow> (\<not> c \<Longrightarrow> P y) \<Longrightarrow> P (if c then x else y)"
  by simp

lemma gate_admits:
  assumes "tools_ok tools" "why = JNull \<and> w = None \<or> (\<exists>t. why = JStr t \<and> w = Some t)"
  shows "(\<exists>tool. gate explain tools n kvs w ctx = Inr tool \<and> admitted tools n kvs why ctx tool)
    \<or> (\<exists>e q. gate explain tools n kvs w ctx = Inl (Inr e, q) \<and> en_outcome e \<in> {Refused, Unavailable})"
proof (cases "map_of tools n")
  case None
  then show ?thesis using refused_outcome(1) [of "''not_registered''" n] by (auto simp: gate_def)
next
  case (Some tool)
  then have "check_schema (ts_params tool) = Inr ()"
    using assms(1) by (auto simp: tools_ok_def dest!: map_of_SomeD)
  then obtain ps where v: "validate (ts_params tool) (JObj kvs) = Inr ps"
    using validate_returns [of "ts_params tool" "u ''args''" "JObj kvs"] by (auto simp: validate_def returns_def)
  have bad: "\<exists>e. refused n r d = Inr e \<and> en_outcome e \<in> {Refused, Unavailable}"
    if "r \<in> {''halted'', ''missing_why'', ''bad_args''}" for r d
    using refused_outcome(1) [of r n d] that by auto
  let ?g = "gate explain tools n kvs w ctx"
  define Q where "Q g \<longleftrightarrow> (\<exists>r d. g = Inl (refused n r d, False) \<and> r \<in> {''halted'', ''missing_why'', ''bad_args''})
    \<or> g = Inl (unavailable n ''no_session'' (Some (u ''no live session'')), True) \<or> g = Inr tool" for g
  have "Q (Inl (refused n ''halted'' d, False))" "Q (Inl (refused n ''missing_why'' d, False))" "Q (Inl (refused n ''bad_args'' d, False))"
    "Q (Inl (unavailable n ''no_session'' (Some (u ''no live session'')), True))" "Q (Inr tool)" for d
    unfolding Q_def by blast+
  then have "Q ?g"
    unfolding gate_def Some v option.case sum.case by (intro if_cases [where P = Q])
  then show ?thesis
    unfolding Q_def
  proof (elim disjE exE conjE)
    fix r d assume g: "?g = Inl (refused n r d, False)" and "r \<in> {''halted'', ''missing_why'', ''bad_args''}"
    from bad [OF this(2), of d] obtain e where "refused n r d = Inr e" "en_outcome e \<in> {Refused, Unavailable}" by blast
    with g show ?thesis by (intro disjI2 exI [of _ e] exI [of _ False]) simp
  next
    assume g: "?g = Inl (unavailable n ''no_session'' (Some (u ''no live session'')), True)"
    from refused_outcome(2) [of n "Some (u ''no live session'')"] obtain e
      where "unavailable n ''no_session'' (Some (u ''no live session'')) = Inr e" "en_outcome e = Unavailable" by blast
    with g show ?thesis by (intro disjI2 exI [of _ e] exI [of _ True]) simp
  next
    assume g: "?g = Inr tool"
    then have "admitted tools n kvs why ctx tool"
      using Some v assms(2) by (auto simp: gate_def admitted_def split: if_split_asm)
    with g show ?thesis by blast
  qed
qed

lemma dispatch_args_gated:
  assumes ok: "tools_ok tools"
    and d: "dispatch_args repr explain env tools n kvs why (case why of JStr w \<Rightarrow> Some w | _ \<Rightarrow> None) ctx = (r, ctx')"
  shows "(\<exists>tool out ctx1. admitted tools n kvs why ctx tool \<and> ts_handler tool kvs ctx = (out, ctx1) \<and> same_world ctx1 ctx')
    \<or> same_world ctx ctx' \<and> (\<exists>e. r = Inr e \<and> en_outcome e \<in> {Refused, Unavailable})"
proof -
  let ?w = "case why of JStr w \<Rightarrow> Some w | _ \<Rightarrow> None"
  have journal: "same_world c c'" "q = a" if "journalled repr env t xs w v a c = (q, c')" for t xs w v a c c' q
    using that same_world_journal [of c repr env t xs w v a] journalled_answer [of repr env t xs w v a c] by auto
  show ?thesis
  proof (cases "why \<noteq> JNull \<and> ?w = None")
    case True
    with d have "journalled repr env n kvs ?w False (refused n ''bad_args'' (Some (type_name why))) ctx = (r, ctx')"
      by (simp add: dispatch_args_def)
    from journal [OF this] obtain "same_world ctx ctx'" "r = refused n ''bad_args'' (Some (type_name why))" by blast
    moreover have "\<exists>e. refused n ''bad_args'' (Some (type_name why)) = Inr e \<and> en_outcome e = Refused"
      by (rule refused_outcome(1)) simp
    ultimately show ?thesis by auto
  next
    case False
    then have "why = JNull \<and> ?w = None \<or> (\<exists>t. why = JStr t \<and> ?w = Some t)" by (cases why) auto
    from gate_admits [OF ok this, of explain n kvs ctx] show ?thesis
    proof
      assume "\<exists>tool. gate explain tools n kvs ?w ctx = Inr tool \<and> admitted tools n kvs why ctx tool"
      then obtain tool where g: "gate explain tools n kvs ?w ctx = Inr tool" "admitted tools n kvs why ctx tool" by blast
      obtain out ctx1 where h: "ts_handler tool kvs ctx = (out, ctx1)" by fastforce
      obtain a c where run: "run_handler n tool kvs ctx = (a, c)" by fastforce
      with h have "c = ctx1" by (auto simp: run_handler_def split: sum.splits tool_exc.splits)
      moreover have "journalled repr env n kvs ?w True a c = (r, ctx')"
        using d False g(1) run by (simp add: dispatch_args_def)
      ultimately show ?thesis using journal g(2) h by blast
    next
      assume "\<exists>e q. gate explain tools n kvs ?w ctx = Inl (Inr e, q) \<and> en_outcome e \<in> {Refused, Unavailable}"
      then obtain e q where g: "gate explain tools n kvs ?w ctx = Inl (Inr e, q)" "en_outcome e \<in> {Refused, Unavailable}" by blast
      with d False have "journalled repr env n kvs ?w q (Inr e) ctx = (r, ctx')" by (simp add: dispatch_args_def)
      from journal [OF this] g(2) show ?thesis by blast
    qed
  qed
qed

section \<open>The journal\<close>

text \<open>The lines of a string, between carriage returns and newlines.\<close>

function lines_of :: "pystr \<Rightarrow> pystr list" where
  "lines_of s = takeWhile (\<lambda>c. \<not> eol c) s # (case dropWhile (\<lambda>c. \<not> eol c) s of [] \<Rightarrow> [] | _ # rest \<Rightarrow> lines_of rest)"
  by pat_completeness auto

termination
  by (relation "measure length") (auto dest: dropWhile_Cons_length)

declare lines_of.simps [simp del]

lemma fold1_not_eol: "fold1 c = d \<Longrightarrow> d \<in> {67, 97, 80, 99, 112} \<Longrightarrow> \<not> blank c \<and> \<not> eol c"
  by (auto simp: fold1_def lower1_def blank_def eol_def split: if_splits)

lemma redact_line_no_eol: "\<forall>c \<in> set line. \<not> eol c \<Longrightarrow> \<forall>c \<in> set (redact_line line). \<not> eol c"
proof -
  assume line: "\<forall>c \<in> set line. \<not> eol c"
  show ?thesis
  proof (cases "credential_name line")
    case (Some name)
    then have "set name \<subseteq> set line"
      by (auto simp: credential_name_def Let_def dest!: in_set_takeD set_dropWhileD)
    with line have n: "\<forall>c \<in> set name. \<not> eol c" by auto
    have "\<not> eol c" if "c \<in> set (lower (strip name))" for c
    proof -
      from that strip_subset [of name] obtain d where "d \<in> set name" "c = lower1 d" by (auto simp: lower_def)
      with n show ?thesis by (auto simp: eol_def lower1_def split: if_splits)
    qed
    with n Some show ?thesis by (auto simp: redact_line_def header_placeholder_def literals eol_def)
  qed (use line in \<open>simp add: redact_line_def\<close>)
qed

lemma lines_of_append: "\<forall>c \<in> set x. \<not> eol c \<Longrightarrow> eol e \<Longrightarrow> lines_of (x @ e # s) = x # lines_of s"
  by (subst lines_of.simps) (simp add: takeWhile_append_stop dropWhile_append_stop)

lemma lines_of_last: "\<forall>c \<in> set x. \<not> eol c \<Longrightarrow> lines_of x = [x]"
proof -
  assume "\<forall>c \<in> set x. \<not> eol c"
  then have "takeWhile (\<lambda>c. \<not> eol c) x = x" "dropWhile (\<lambda>c. \<not> eol c) x = []" by simp_all
  then show ?thesis by (subst lines_of.simps) (simp del: dropWhile_eq_Nil_conv)
qed

lemma lines_of_redact: "lines_of (redact_lines s) = map redact_line (lines_of s)"
proof (induction s rule: redact_lines.induct)
  case (1 s)
  have front: "\<forall>c \<in> set (redact_line (takeWhile (\<lambda>c. \<not> eol c) s)). \<not> eol c"
    by (rule redact_line_no_eol) (auto dest: set_takeWhileD)
  show ?case
  proof (cases "dropWhile (\<lambda>c. \<not> eol c) s")
    case Nil
    with front show ?thesis
      by (subst redact_lines.simps, subst (2) lines_of.simps) (simp add: lines_of_last del: dropWhile_eq_Nil_conv)
  next
    case (Cons e rest)
    then have "eol e" by (metis hd_dropWhile list.distinct(1) list.sel(1))
    with front Cons 1 [OF refl Cons] show ?thesis
      by (subst redact_lines.simps, subst (2) lines_of.simps) (simp add: lines_of_append)
  qed
qed

lemma find_unique: "h \<in> set hs \<Longrightarrow> P h \<Longrightarrow> (\<And>g. g \<in> set hs \<Longrightarrow> P g \<Longrightarrow> g = h) \<Longrightarrow> List.find P hs = Some h"
proof (induction hs)
  case (Cons x hs)
  show ?case
  proof (cases "P x")
    case True
    have "x = h" by (rule Cons.prems(3)) (simp_all add: True)
    with True show ?thesis by simp
  next
    case False
    then have "h \<in> set hs" using Cons.prems(1,2) by auto
    then have "List.find P hs = Some h" by (rule Cons.IH [OF _ Cons.prems(2)]) (rule Cons.prems(3), simp)
    with False show ?thesis by simp
  qed
qed simp

lemma header_first:
  "h \<in> set CREDENTIAL_HEADERS \<Longrightarrow> h \<noteq> [] \<and> fold1 (hd h) \<in> {97, 99, 112} \<and>
     (\<forall>g \<in> set CREDENTIAL_HEADERS. fold1 (hd g) = fold1 (hd h) \<longrightarrow> g = h)"
proof -
  have "map (\<lambda>h. (h, fold1 (hd h))) CREDENTIAL_HEADERS = [(u ''Cookie'', 99), (u ''Authorization'', 97), (u ''Proxy-Authorization'', 112)]"
    by (simp add: CREDENTIAL_HEADERS_def literals fold1_def lower1_def)
  then have hs: "CREDENTIAL_HEADERS = [u ''Cookie'', u ''Authorization'', u ''Proxy-Authorization'']"
    "fold1 (hd (u ''Cookie'')) = 99" "fold1 (hd (u ''Authorization'')) = 97" "fold1 (hd (u ''Proxy-Authorization'')) = 112"
    by (simp_all add: CREDENTIAL_HEADERS_def)
  have "u (c # x) \<noteq> []" for c x by (simp add: u_def)
  then show "h \<in> set CREDENTIAL_HEADERS \<Longrightarrow> ?thesis" unfolding hs(1) by (auto simp: hs(2-4))
qed

lemma credential_name_redacted:
  assumes "credential_name (redact_line line) = Some n"
  shows "redact_line line = n @ u '': '' @ header_placeholder n"
proof (cases "credential_name line")
  case None
  with assms show ?thesis by (simp add: redact_line_def)
next
  case (Some m)
  then obtain h where h: "h \<in> set CREDENTIAL_HEADERS" "map fold1 m = map fold1 h"
    by (auto simp: credential_name_def Let_def find_Some_iff set_conv_nth)
  let ?out = "m @ u '': '' @ header_placeholder m"
  have len: "length m = length h" using h(2) by (rule map_eq_imp_length_eq)
  have m: "m \<noteq> []" "fold1 (hd m) = fold1 (hd h)" using header_first [OF h(1)] h(2) len by (cases m; cases h; simp)+
  then have "fold1 (hd m) \<in> {97, 99, 112}" using header_first [OF h(1)] by simp
  then have "\<not> blank (hd ?out)" using m(1) by (auto simp: fold1_def lower1_def blank_def split: if_splits)
  then have t: "dropWhile blank ?out = ?out" using m(1) by (cases m) auto
  let ?P = "\<lambda>h. map fold1 (take (length h) ?out) = map fold1 h \<and> startswith [58] (dropWhile blank (drop (length h) ?out))"
  have "?P h" using h(2) len by (simp add: literals startswith_def blank_def)
  moreover have "g = h" if "g \<in> set CREDENTIAL_HEADERS" "?P g" for g
  proof -
    from header_first [OF that(1)] have "g \<noteq> []" by simp
    then have "fold1 (hd ?out) = fold1 (hd g)"
      using that(2) by (cases g; cases ?out) auto
    then have "fold1 (hd g) = fold1 (hd h)" using m by simp
    with header_first [OF h(1)] that(1) show ?thesis by simp
  qed
  ultimately have "List.find ?P CREDENTIAL_HEADERS = Some h" using h(1) by (intro find_unique)
  then have "credential_name ?out = Some m" unfolding credential_name_def Let_def t using len by simp
  with assms Some show ?thesis by (simp add: redact_line_def)
qed

fun json_strings :: "json \<Rightarrow> pystr list" where
  "json_strings (JStr s) = [s]"
| "json_strings (JObj kvs) = concat (map (\<lambda>(_, v). json_strings v) kvs)"
| "json_strings (JArr xs) = concat (map json_strings xs)"
| "json_strings _ = []"

lemma json_strings_redacted: "json_strings (redacted v) = map (\<lambda>s. redact_url (redact_lines s)) (json_strings v)"
  by (induction v rule: redacted.induct) (auto simp: map_concat intro!: arg_cong [of _ _ concat])

lemma json_strings_sorted: "set (json_strings (sort_keys v)) = set (json_strings v)"
  by (induction v rule: sort_keys.induct) (auto simp: split_beta)

section \<open>The properties\<close>

text \<open>C16. A schema that \<open>check_schema\<close> accepts, which every registered tool's is, never makes the argument
  check crash, whatever the arguments are: \<open>validate\<close> returns its list of problems.\<close>

theorem validate_never_crashes:
  assumes "tools_ok tools" "register tool tools = Inr tools'" "map_of tools' n = Some t"
  shows "\<exists>problems. validate (ts_params t) v = Inr problems"
proof -
  have "check_schema (ts_params t) = Inr ()"
    using register_ok [OF assms(1,2)] assms(3) by (auto simp: tools_ok_def dest!: map_of_SomeD)
  from validate_returns [OF this] show ?thesis by (simp add: validate_def returns_def)
qed

definition ping_schema :: json where
  "ping_schema = JObj [(u ''type'', JStr (u ''object'')), (u ''additionalProperties'', JBool False)]"

definition ping_tool :: "unit tool" where
  "ping_tool = \<lparr>ts_name = u ''run.start'', ts_params = ping_schema, ts_handler = (\<lambda>_ ctx. (Inr (JBool True), ctx)),
     ts_needs_egress = False, ts_mutates = True\<rparr>"

lemma ping_schema_checked: "check_schema ping_schema = Inr ()"
  by code_simp

lemma ping_registered: "register ping_tool [] = Inr [(u ''run.start'', ping_tool)]"
  using ping_schema_checked by (simp add: register_def ping_tool_def NEVER_AGENT_FACING_def V1_TOOL_NAMES_def literals)

theorem validate_never_crashes_witness: "\<exists>problems. validate ping_schema (JArr []) = Inr problems"
  using validate_never_crashes [OF _ ping_registered, of "u ''run.start''" ping_tool "JArr []"]
  by (simp add: tools_ok_def) (simp add: ping_tool_def)

text \<open>C17. A tool's handler runs only past every gate: the name is registered, a mutating tool has a reason and
  no operator halt is in force (\<open>run.finish\<close> aside), the arguments fit the schema, and a tool that sends has a
  live session. A call that does not run its handler is answered \<open>refused\<close> or \<open>unavailable\<close>, never raises,
  and leaves the store, the halt, the session and the rest of the context as they were.\<close>

theorem dispatch_gates:
  assumes "tools_ok tools" "dispatch repr explain env tools name args why ctx = (r, ctx')"
  shows "(\<exists>n kvs tool out ctx1. name = JStr n \<and> (args = JObj kvs \<or> args = JNull \<and> kvs = [])
       \<and> admitted tools n kvs why (ctx\<lparr>tx_open_runs := None\<rparr>) tool
       \<and> ts_handler tool kvs (ctx\<lparr>tx_open_runs := None\<rparr>) = (out, ctx1) \<and> same_world ctx1 ctx')
    \<or> same_world ctx ctx' \<and> (\<exists>e. r = Inr e \<and> en_outcome e \<in> {Refused, Unavailable})"
proof -
  let ?c = "ctx\<lparr>tx_open_runs := None\<rparr>" and ?w = "case why of JStr w \<Rightarrow> Some w | _ \<Rightarrow> None"
  have journal: "same_world ctx ctx' \<and> (\<exists>e. r = Inr e \<and> en_outcome e \<in> {Refused, Unavailable})"
    if "journalled repr env t [] ?w False (refused t ''bad_args'' d) ?c = (r, ctx')" for t d
  proof -
    have "\<exists>e. refused t ''bad_args'' d = Inr e \<and> en_outcome e = Refused" by (rule refused_outcome(1)) simp
    then show ?thesis
      using that same_world_journal [of ?c repr env t "[]" ?w False "refused t ''bad_args'' d"]
        journalled_answer [of repr env t "[]" ?w False "refused t ''bad_args'' d" ?c]
      by (auto dest: same_world_cache)
  qed
  have args: "?thesis" if "name = JStr n" "args = JObj kvs \<or> args = JNull \<and> kvs = []" for n kvs
  proof -
    have "dispatch_args repr explain env tools n kvs why ?w ?c = (r, ctx')"
      using assms(2) that by (auto simp: dispatch_def Let_def)
    from dispatch_args_gated [OF assms(1) this] that show ?thesis by (blast dest: same_world_cache)
  qed
  show ?thesis
  proof (cases name)
    case (JStr n)
    then show ?thesis
      using args journal assms(2) by (cases args) (auto simp: dispatch_def Let_def)
  qed (use journal assms(2) in \<open>auto simp: dispatch_def Let_def\<close>)
qed


theorem dispatch_gates_witness:
  "\<exists>env. \<exists>ctx :: unit tool_ctx. same_world ctx
     (snd (dispatch (\<lambda>_. []) (\<lambda>_. []) env [(u ''run.start'', ping_tool)] (JStr (u ''nope'')) JNull JNull ctx))"
proof -
  have "tools_ok [(u ''run.start'', ping_tool)]" by (rule register_ok [OF _ ping_registered]) (simp add: tools_ok_def)
  moreover have "map_of [(u ''run.start'', ping_tool)] (u ''nope'') = None" by (simp add: literals)
  ultimately show ?thesis
    using dispatch_gates [where tools = "[(u ''run.start'', ping_tool)]" and repr = "\<lambda>_. []" and explain = "\<lambda>_. []"
        and name = "JStr (u ''nope'')" and args = JNull and why = JNull, OF _ prod.collapse [symmetric]]
    by (auto simp: admitted_def)
qed


end
