(* ===== verification/Http_Text.thy ===== *)
theory Http_Text
  imports Surface Json
begin

text \<open>
  Reading HTTP text: the head and body of a message and its header lines (\<open>src/hx/http_text.py\<close>), and the
  insertion points a captured request offers (\<open>src/hx/insertion.py\<close>). \<open>urlsplit\<close> checks an authority
  through the argument \<open>netloc_ok\<close>, as in the surface normaliser; text that comes out of a Latin-1 decoding
  is lower-cased on Latin-1.
\<close>

section \<open>Heads, bodies and header lines\<close>

definition split_head_body :: "bytes \<Rightarrow> bytes \<times> bytes" where
  "split_head_body raw =
     (case (py_find [13, 10, 13, 10] raw, py_find [10, 10] raw) of
        (None, None) \<Rightarrow> (raw, [])
      | (Some crlf, None) \<Rightarrow> (take crlf raw, drop (crlf + 4) raw)
      | (None, Some lf) \<Rightarrow> (take lf raw, drop (lf + 2) raw)
      | (Some crlf, Some lf) \<Rightarrow>
          if crlf \<le> lf then (take crlf raw, drop (crlf + 4) raw) else (take lf raw, drop (lf + 2) raw))"

definition chop_cr :: "bytes \<Rightarrow> bytes" where
  "chop_cr line = (if endswith [13] line then butlast line else line)"

definition header_lines :: "bytes \<Rightarrow> bytes list" where
  "header_lines head = map chop_cr (tl (split1 10 head))"

definition field_name :: "bytes \<Rightarrow> pystr" where
  "field_name line = strip (latin1_decode (fst (partition1 58 line)))"

definition header_names :: "bytes \<Rightarrow> pystr list" where
  "header_names head = map field_name (filter (\<lambda>line. 58 \<in> set line) (header_lines head))"

definition header_values :: "bytes \<Rightarrow> pystr \<Rightarrow> pystr list" where
  "header_values head name =
     concat (map (\<lambda>line. case partition1 58 line of (key, sep, val) \<Rightarrow>
         if sep \<and> lower (strip (latin1_decode key)) = lower name then [strip (latin1_decode val)] else [])
       (header_lines head))"

section \<open>Insertion points\<close>

definition NOT_INSERTABLE :: "pystr list" where
  "NOT_INSERTABLE = map u [''host'', ''content-length'', ''content-type'', ''connection'', ''transfer-encoding'',
     ''upgrade'', ''expect'', ''accept-encoding'']"

definition is_placeholder :: "pystr \<Rightarrow> bool" where
  "is_placeholder segment \<longleftrightarrow> startswith [123] segment \<and> endswith [125] segment \<and> length segment > 2"

definition request_target :: "bytes \<Rightarrow> pystr option" where
  "request_target head =
     (let parts = split1 32 (chop_cr (hd (split1 10 head))) in
      if length parts < 2 then None else Some (latin1_decode (parts ! 1)))"

definition request_path :: "(pystr \<Rightarrow> bool) \<Rightarrow> bytes \<Rightarrow> store_exc + pystr option" where
  "request_path netloc_ok request =
     (case request_target request of
        None \<Rightarrow> Inr None
      | Some target \<Rightarrow>
          rbind (urlsplit netloc_ok target) (\<lambda>r.
            Inr (if startswith [47] (us_path r) then Some (us_path r) else None)))"

text \<open>\<open>raw.partition(sep)\<close> and \<open>raw.split(sep)\<close> on a longer separator.\<close>

definition partition_at :: "'a list \<Rightarrow> 'a list \<Rightarrow> 'a list \<times> bool \<times> 'a list" where
  "partition_at sep s =
     (case py_find sep s of None \<Rightarrow> (s, False, []) | Some i \<Rightarrow> (take i s, True, drop (i + length sep) s))"

lemma py_find_bound: "py_find p s = Some i \<Longrightarrow> i + length p \<le> length s"
proof (induction p s arbitrary: i rule: py_find.induct)
  case (2 p x xs)
  show ?case
  proof (cases "startswith p (x # xs)")
    case True
    then have "length p \<le> length (x # xs)" unfolding startswith_def by (metis length_take min.cobounded1)
    with True 2(2) show ?thesis by simp
  next
    case False
    with 2 show ?thesis by auto
  qed
qed (auto split: if_splits)

function split_at :: "'a list \<Rightarrow> 'a list \<Rightarrow> 'a list list" where
  "split_at sep s =
     (case py_find sep s of
        None \<Rightarrow> [s]
      | Some i \<Rightarrow> if sep = [] then [s] else take i s # split_at sep (drop (i + length sep) s))"
  by pat_completeness auto
termination
proof (relation "measure (\<lambda>(sep, s). length s)")
  fix sep s :: "'a list" and i
  assume "py_find sep s = Some i" "sep \<noteq> []"
  then have "i + length sep \<le> length s" "0 < length sep" by (auto dest: py_find_bound)
  then show "((sep, drop (i + length sep) s), sep, s) \<in> measure (\<lambda>(sep, s). length s)" by (cases sep) auto
qed simp

declare split_at.simps [simp del]

definition points :: "string \<Rightarrow> pystr list \<Rightarrow> insertion_point list" where
  "points kind names = map (\<lambda>n. \<lparr>ins_name = n, ins_kind = u kind\<rparr>) (filter (\<lambda>n. n \<noteq> []) names)"

text \<open>\<open>walk\<close> of \<open>_json_members\<close>: the dotted paths of the members that are not objects. A member reached only
  through empty keys has no name.\<close>

definition dotted :: "pystr \<Rightarrow> pystr \<Rightarrow> pystr" where
  "dotted prefix key = (if prefix \<noteq> [] then prefix @ [46] @ key else key)"

fun json_paths :: "pystr \<Rightarrow> json \<Rightarrow> pystr list" where
  "json_paths prefix (JObj kvs) = concat (map (\<lambda>(k, v). json_paths (dotted prefix k) v) kvs)"
| "json_paths prefix v = (if prefix \<noteq> [] then [prefix] else [])"

definition json_members :: "bytes \<Rightarrow> insertion_point list" where
  "json_members body =
     (case utf8_decode body of
        None \<Rightarrow> []
      | Some txt \<Rightarrow>
          (case loads txt of Inl _ \<Rightarrow> [] | Inr v \<Rightarrow> points ''body_json'' (json_paths [] v)))"

text \<open>One header line: the content type so far, and the points found so far.\<close>

definition derive_line :: "bytes \<Rightarrow> pystr \<times> insertion_point list \<Rightarrow> pystr \<times> insertion_point list" where
  "derive_line raw acc =
     (case acc of (content_type, found) \<Rightarrow>
      case partition1 58 raw of (name, sep, val0) \<Rightarrow>
        if \<not> sep then (content_type, found)
        else
          let key = strip (latin1_decode name); val = strip (latin1_decode val0); low = lower key;
              content_type = (if low = u ''content-type'' then lower val else content_type) in
          if low = u ''cookie'' then
            (content_type, found @ points ''cookie'' (map (\<lambda>crumb. strip (hd (split1 61 crumb))) (split1 59 val)))
          else if low \<in> set NOT_INSERTABLE \<or> key = [] then (content_type, found)
          else (content_type, found @ points ''header'' [key]))"

definition insertion_order :: "insertion_point list \<Rightarrow> insertion_point list" where
  "insertion_order found = sort_key ins_kind (sort_key ins_name (remdups found))"

definition derive :: "(pystr \<Rightarrow> bool) \<Rightarrow> bytes \<Rightarrow> pystr \<Rightarrow> store_exc + insertion_point list" where
  "derive netloc_ok request tpl =
     (case partition_at [13, 10, 13, 10] request of (head, sep, body) \<Rightarrow>
        if \<not> sep then Inr []
        else
          rbind (case request_target head of
                   None \<Rightarrow> Inr []
                 | Some target \<Rightarrow> rbind (urlsplit netloc_ok target) (\<lambda>r. Inr (points ''query'' (query_keys (us_query r)))))
            (\<lambda>queries.
              let segments = points ''path_segment'' (filter is_placeholder (split1 47 tpl));
                  (content_type, found) = fold derive_line (tl (split_at [13, 10] head)) ([], queries @ segments);
                  bodies =
                    (if body = [] then []
                     else if contains (u ''application/x-www-form-urlencoded'') content_type
                     then points ''body_form'' (query_keys (latin1_decode body))
                     else if contains (u ''json'') content_type then json_members body
                     else [])
              in Inr (insertion_order (found @ bodies))))"

end
