(* ===== verification/Issue.thy ===== *)
theory Issue
  imports Http_Text Capture
begin

text \<open>
  Building one request and issuing it, \<open>src/hx/issue.py\<close>. The bridge's \<open>send\<close> is an argument: it answers with
  a result frame and its body, with the error class, the message and the retry hint of a \<open>BridgeError\<close>, or with
  the name and message of any other exception. A field of the frame
  of another JSON type than its own raises \<open>TypeError\<close>, as in the capture. A \<open>UnicodeEncodeError\<close> is a
  \<open>ValueError\<close>.
\<close>

section \<open>Request bytes\<close>

definition FORBIDDEN :: "nat set" where
  "FORBIDDEN = {13, 10, 0}"

definition clean :: "pystr \<Rightarrow> bool" where
  "clean s \<longleftrightarrow> (\<forall>c \<in> set s. c \<notin> FORBIDDEN)"

definition line_name :: "pystr \<Rightarrow> pystr" where
  "line_name line = lower (strip (fst (partition1 58 line)))"

text \<open>One header line: whether it is a \<open>Content-Length\<close>.\<close>

definition check_header_line :: "nat \<Rightarrow> pystr \<Rightarrow> store_exc + bool" where
  "check_header_line body_len line =
     (if \<not> clean line then Inl ValueError
      else case partition1 58 line of (name, colon, val) \<Rightarrow>
        if \<not> colon then Inl ValueError
        else if name = [] \<or> hd name \<in> {32, 9} then Inl ValueError
        else if line_name line = u ''transfer-encoding'' then Inl ValueError
        else if line_name line = u ''content-length'' then
          (case int_text val of
             None \<Rightarrow> Inl ValueError
           | Some declared \<Rightarrow> if declared \<noteq> int body_len then Inl ValueError else Inr True)
        else Inr False)"

definition is_host :: "pystr \<Rightarrow> bool" where
  "is_host line \<longleftrightarrow> line_name line = u ''host''"

definition CRLF :: pystr where
  "CRLF = [13, 10]"

definition message_lines :: "pystr \<Rightarrow> pystr \<Rightarrow> pystr \<Rightarrow> pystr list \<Rightarrow> bool \<Rightarrow> nat \<Rightarrow> pystr list" where
  "message_lines meth path host headers has_content_length body_len =
     [meth @ [32] @ path @ u '' HTTP/1.1'']
     @ (if filter is_host headers = [] then [u ''Host: '' @ host] else [])
     @ headers
     @ (if body_len > 0 \<and> \<not> has_content_length then [u ''Content-Length: '' @ dec_nat body_len] else [])"

definition request_bytes :: "pystr \<Rightarrow> pystr \<Rightarrow> pystr \<Rightarrow> pystr list \<Rightarrow> bytes \<Rightarrow> store_exc + bytes" where
  "request_bytes meth path host headers body =
     (if \<not> clean meth \<or> \<not> clean path then Inl ValueError
      else if 32 \<in> set meth \<or> meth = [] then Inl ValueError
      else if \<not> startswith [47] path then Inl ValueError
      else if 32 \<in> set path then Inl ValueError
      else
        rbind (rmap (check_header_line (length body)) headers) (\<lambda>lengths.
          if length (filter is_host headers) > 1 then Inl ValueError
          else
            case latin1_encode (join CRLF (message_lines meth path host headers (True \<in> set lengths) (length body))
                   @ CRLF @ CRLF) of
              None \<Rightarrow> Inl ValueError
            | Some head \<Rightarrow> Inr (head @ body)))"

section \<open>Issuing\<close>

datatype send_answer =
    Answered header bytes
  | SendError "pystr option" pystr json
  | SendCrashed pystr pystr

record send_request =
  sq_host :: pystr
  sq_port :: int
  sq_tls :: bool
  sq_identity :: "pystr option"

record issue_result =
  is_exchange :: pystr
  is_status :: "int option"
  is_bytes :: nat
  is_ms :: int
  is_outcome :: pystr
  is_content_type :: "pystr option"
  is_body_sha256 :: pystr
  is_first_line :: pystr
  is_response :: bytes
  is_body :: bytes

datatype issue_exc = IssueRefused pystr pystr | IssueFailed capture_exc | IssueCrashed pystr pystr

definition url_of :: "pystr \<Rightarrow> pystr \<Rightarrow> int \<Rightarrow> pystr \<Rightarrow> pystr" where
  "url_of scheme host port path =
     (if map_of [(u ''http'', 80), (u ''https'', 443)] scheme = Some port
      then scheme @ u ''://'' @ host @ path
      else scheme @ u ''://'' @ host @ [58] @ dump_int port @ path)"

text \<open>\<open>exc.error_class or 'transport_error'\<close>, and the message without its class.\<close>

definition error_class :: "pystr option \<Rightarrow> pystr" where
  "error_class cls = (case cls of None \<Rightarrow> u ''transport_error'' | Some c \<Rightarrow> if c = [] then u ''transport_error'' else c)"

definition error_detail :: "pystr \<Rightarrow> pystr \<Rightarrow> pystr" where
  "error_detail cls msg =
     (let detail = (if startswith (cls @ u '': '') msg then drop (length cls + 2) msg else msg) in
      if detail = cls then [] else detail)"

definition first_line :: "bytes \<Rightarrow> pystr" where
  "first_line head = latin1_decode (rev (dropWhile (\<lambda>c. c = 13) (rev (hd (split1 10 head)))))"

definition with_identity :: "(pystr \<times> int) option \<Rightarrow> exchange_args \<Rightarrow> exchange_args" where
  "with_identity identity a =
     a\<lparr>xa_identity := map_option fst identity, xa_identity_generation := map_option snd identity,
       xa_identity_state := map_option (\<lambda>_. u ''assumed'') identity\<rparr>"

definition issued_of :: "capture_cfg \<Rightarrow> pystr \<Rightarrow> int option \<Rightarrow> int \<Rightarrow> pystr \<Rightarrow> bytes \<Rightarrow> issue_result" where
  "issued_of cfg xid status ms outc response =
     (case split_head_body response of (head, body) \<Rightarrow>
        \<lparr>is_exchange = xid, is_status = status, is_bytes = length response, is_ms = ms, is_outcome = outc,
         is_content_type = (case header_values head (u ''content-type'') of [] \<Rightarrow> None | t # _ \<Rightarrow> Some t),
         is_body_sha256 = u ''sha256:'' @ cc_sha cfg body, is_first_line = first_line head,
         is_response = response, is_body = body\<rparr>)"

text \<open>What follows an answer: the bodies, then the one transaction that files the exchange.\<close>

definition file_answer :: "capture_cfg \<Rightarrow> capture_env \<Rightarrow> pystr \<Rightarrow> (pystr \<times> int) option \<Rightarrow> pystr \<Rightarrow> pystr \<Rightarrow> bytes
    \<Rightarrow> header \<Rightarrow> bytes \<Rightarrow> (capture, capture_exc, issue_result) prog" where
  "file_answer cfg env rid identity meth url raw h response =
     sbind (pure (text_of (field h ''outcome'' (JStr (u ''ok''))))) (\<lambda>outc.
     sbind (pure (int_of (let v = field h ''ms'' JNull in if truthy v then v else JInt 0))) (\<lambda>ms.
     sbind (pure (normalise (cc_netloc_ok cfg) (cc_preserve cfg) (cc_slug_threshold cfg) meth url)) (\<lambda>norm.
     sbind (on_blobs (put_blob (cc_sha cfg) (ce_req env) raw)) (\<lambda>(req, _).
     sbind (put_body cfg (ce_resp env) response) (\<lambda>(resp, resp_len).
     sbind (pure (status_of (field h ''status'' JNull))) (\<lambda>status.
     sbind (on_store (file_exchange (ce_row env) (ce_surface env) (cc_engagement cfg) norm
         (with_identity identity
            (exchange_args_of rid meth url status (Some req) resp resp_len ms (ce_now env) outc (u ''send''))) rid))
       (\<lambda>xid. sret (issued_of cfg xid status ms outc response))))))))"

definition issue :: "capture_cfg \<Rightarrow> capture_env \<Rightarrow> (send_request \<Rightarrow> bytes \<Rightarrow> send_answer) \<Rightarrow> pystr \<Rightarrow> pystr \<Rightarrow> pystr \<Rightarrow> int
    \<Rightarrow> pystr \<Rightarrow> pystr \<Rightarrow> pystr list \<Rightarrow> bytes \<Rightarrow> (pystr \<times> int) option \<Rightarrow> (capture, issue_exc, issue_result) prog" where
  "issue cfg env send rid scheme host port meth path headers body identity cp =
     (case request_bytes meth path host headers body of
        Inl e \<Rightarrow> (Inl (IssueFailed (StoreExc e)), cp)
      | Inr raw \<Rightarrow>
          (case send \<lparr>sq_host = host, sq_port = port, sq_tls = (scheme = u ''https''), sq_identity = map_option fst identity\<rparr> raw of
             SendError cls msg _ \<Rightarrow>
               (Inl (IssueRefused (error_class cls) (error_detail (error_class cls) msg)), cp)
           | SendCrashed name msg \<Rightarrow> (Inl (IssueCrashed name msg), cp)
           | Answered h response \<Rightarrow>
               (case file_answer cfg env rid identity meth (url_of scheme host port path) raw h response cp of
                  (Inl e, cp') \<Rightarrow> (Inl (IssueFailed e), cp')
                | (Inr x, cp') \<Rightarrow> (Inr x, cp'))))"

end
