(* ===== verification/Issue_Laws.thy ===== *)
theory Issue_Laws
  imports Issue Capture_Laws
begin

text \<open>
  What \<open>request_bytes\<close> promises: whatever it accepts is read back, by the reader the program uses on HTTP text,
  as the one request that was asked for, with one \<open>Host\<close>, no \<open>Transfer-Encoding\<close> and a
  \<open>Content-Length\<close> that is the length of the body. Two lemmas record what the checks let through.
\<close>

section \<open>Lines and the blank line that ends them\<close>

lemma find_skip:
  "p \<noteq> [] \<Longrightarrow> hd p \<notin> set xs \<Longrightarrow> py_find p (xs @ ys) = map_option ((+) (length xs)) (py_find p ys)"
proof (induction xs)
  case (Cons x xs)
  then have "\<not> startswith p ((x # xs) @ ys)" by (cases p) (auto simp: startswith_def)
  with Cons show ?case by (simp add: option.map_comp o_def)
qed (cases "py_find p ys"; simp)

definition plain_line :: "'a \<Rightarrow> 'a \<Rightarrow> 'a list \<Rightarrow> bool" where
  "plain_line c d l \<longleftrightarrow> l \<noteq> [] \<and> c \<notin> set l \<and> d \<notin> set l"

lemma find_blank_line:
  assumes "ls \<noteq> []" "\<forall>l \<in> set ls. plain_line c d l" "c \<noteq> d"
  shows "py_find [c, d, c, d] (join [c, d] ls @ [c, d, c, d] @ body) = Some (length (join [c, d] ls))"
  using assms(1,2)
proof (induction "[c, d]" ls rule: join.induct)
  case (2 x)
  then show ?case by (simp add: find_skip plain_line_def startswith_def)
next
  case (3 x y zs)
  then have IH: "py_find [c, d, c, d] (join [c, d] (y # zs) @ [c, d, c, d] @ body) = Some (length (join [c, d] (y # zs)))"
    by simp
  from 3 obtain r ys where r: "join [c, d] (y # zs) = r # ys" "r \<noteq> c"
    by (cases y; cases zs) (auto simp: plain_line_def)
  have "py_find [c, d, c, d] (c # d # r # ys @ [c, d, c, d] @ body) = Some (Suc (Suc (length (r # ys))))"
    using IH r assms(3) by (simp add: startswith_def)
  moreover have "join [c, d] (x # y # zs) @ [c, d, c, d] @ body = x @ (c # d # r # ys @ [c, d, c, d] @ body)"
    by (simp add: r)
  moreover have "c \<notin> set x" using 3 by (simp add: plain_line_def)
  ultimately have "py_find [c, d, c, d] (join [c, d] (x # y # zs) @ [c, d, c, d] @ body) = Some (length x + Suc (Suc (length (r # ys))))"
    by (simp only: find_skip list.distinct list.sel not_False_eq_True option.map)
  then show ?case by (simp add: r)
qed simp

lemma find_bare_blank_line:
  assumes "ls \<noteq> []" "\<forall>l \<in> set ls. plain_line c d l" "c \<noteq> d"
    and "py_find [d, d] (join [c, d] ls @ [c, d, c, d] @ body) = Some i"
  shows "length (join [c, d] ls) \<le> i"
  using assms(1,2,4)
proof (induction "[c, d]" ls arbitrary: i rule: join.induct)
  case (2 x)
  then show ?case by (auto simp: find_skip plain_line_def)
next
  case (3 x y zs)
  from 3(3) obtain r ys where r: "join [c, d] (y # zs) = r # ys" "r \<noteq> d"
    by (cases y; cases zs) (auto simp: plain_line_def)
  have "join [c, d] (x # y # zs) @ [c, d, c, d] @ body = x @ (c # d # r # ys @ [c, d, c, d] @ body)"
    by (simp add: r)
  moreover have "d \<notin> set x" using 3(3) by (simp add: plain_line_def)
  ultimately have "map_option ((+) (length x)) (py_find [d, d] (c # d # r # ys @ [c, d, c, d] @ body)) = Some i"
    using 3(4) by (simp only: find_skip list.distinct list.sel not_False_eq_True)
  then obtain j where "py_find [d, d] (r # ys @ [c, d, c, d] @ body) = Some j" "i = length x + Suc (Suc j)"
    using r assms(3) by (auto simp: startswith_def simp del: py_find.simps(2)) (auto simp: startswith_def split: if_splits)
  moreover from this(1) have "length (join [c, d] (y # zs)) \<le> j"
    using 3 by (simp add: r)
  ultimately show ?case by (simp add: r)
qed simp

lemma split1_lines:
  assumes "ls \<noteq> []" "\<forall>l \<in> set ls. plain_line c d l" "c \<noteq> d"
  shows "split1 d (join [c, d] ls) = map (\<lambda>l. l @ [c]) (butlast ls) @ [last ls]"
  using assms(1,2)
proof (induction "[c, d]" ls rule: join.induct)
  case (3 x y zs)
  have "d \<notin> set (x @ [c])" using 3 assms(3) by (auto simp: plain_line_def)
  then have "split1 d ((x @ [c]) @ d # join [c, d] (y # zs)) = (x @ [c]) # split1 d (join [c, d] (y # zs))"
    by (rule split1_append)
  with 3 show ?case by simp
qed (simp_all add: plain_line_def split1_notin)

lemma chop_lines:
  assumes "ls \<noteq> []" "\<forall>l \<in> set ls. plain_line 13 10 l"
  shows "map chop_cr (split1 10 (join [13, 10] ls)) = (ls :: bytes list)"
proof -
  have cr: "chop_cr (l @ [13]) = l" for l by (simp add: chop_cr_def endswith_def)
  have "last ls \<in> set ls" using assms(1) by simp
  then have "13 \<notin> set (last ls)" using assms(2) by (auto simp: plain_line_def)
  then have "chop_cr (last ls) = last ls"
    unfolding chop_cr_def endswith_def by (metis append_take_drop_id in_set_conv_decomp)
  then show ?thesis
    using assms by (simp add: split1_lines o_def cr)
qed

lemma read_lines:
  assumes "ls \<noteq> []" "\<forall>l \<in> set ls. plain_line 13 10 l"
  shows "split_head_body (join [13, 10] ls @ [13, 10, 13, 10] @ body) = (join [13, 10] ls, body)"
    and "header_lines (join [13, 10] ls) = tl (ls :: bytes list)"
    and "request_target (join [13, 10] ls) = (let parts = split1 32 (hd ls) in if length parts < 2 then None else Some (latin1_decode (parts ! 1)))"
proof -
  have ne: "(13 :: byte) \<noteq> 10" by simp
  have crlf: "py_find [13, 10, 13, 10] (join [13, 10] ls @ [13, 10, 13, 10] @ body) = Some (length (join [13, 10] ls))"
    using assms ne by (rule find_blank_line)
  have "py_find [10, 10] (join [13, 10] ls @ [13, 10, 13, 10] @ body) = Some i \<Longrightarrow> length (join [13, 10] ls) \<le> i" for i
    using assms ne by (rule find_bare_blank_line)
  with crlf show "split_head_body (join [13, 10] ls @ [13, 10, 13, 10] @ body) = (join [13, 10] ls, body)"
    unfolding split_head_body_def by (auto split: option.split simp del: append_Cons append.simps)
  have chop: "map chop_cr (split1 10 (join [13, 10] ls)) = ls" using assms by (rule chop_lines)
  then show "header_lines (join [13, 10] ls) = tl ls" by (simp add: header_lines_def map_tl)
  have "chop_cr (hd (split1 10 (join [13, 10] ls))) = hd ls"
    by (metis chop hd_map split1_not_Nil)
  then show "request_target (join [13, 10] ls) = (let parts = split1 32 (hd ls) in if length parts < 2 then None else Some (latin1_decode (parts ! 1)))"
    by (simp add: request_target_def)
qed

section \<open>One request\<close>

abbreviation enc :: "pystr \<Rightarrow> bytes" where
  "enc \<equiv> map of_nat"

lemma enc_free: "\<forall>x \<in> set l. x < 256 \<Longrightarrow> c < 256 \<Longrightarrow> (of_nat c :: byte) \<in> set (enc l) \<longleftrightarrow> c \<in> set l"
  by (auto simp: image_iff) (metis unat_of_nat8)

lemma decode_enc: "\<forall>x \<in> set l. x < 256 \<Longrightarrow> latin1_decode (enc l) = l"
  by (auto simp: latin1_decode_def unat_of_nat8 intro: map_idI)

lemma map_join: "map f (join sep ls) = join (map f sep) (map (map f) ls)"
  by (induction sep ls rule: join.induct) simp_all

lemma join_mono: "l \<in> set ls \<Longrightarrow> c \<in> set l \<Longrightarrow> c \<in> set (join sep ls)"
  by (induction sep ls rule: join.induct) auto

lemma partition1_parts:
  assumes "partition1 c s = (x, f, y)"
  shows "set x \<subseteq> set s" "set y \<subseteq> set s"
proof -
  have "set x \<subseteq> set s \<and> set y \<subseteq> set s"
  proof (cases "c \<in> set s")
    case True
    then obtain xs ys where s: "s = xs @ c # ys" "c \<notin> set xs" by (metis split_list_first)
    with assms have "x = xs" "y = ys" using partition1_append [of c xs ys] by simp_all
    with s show ?thesis by auto
  next
    case False
    with assms show ?thesis by (auto simp: partition1_notin)
  qed
  then show "set x \<subseteq> set s" "set y \<subseteq> set s" by simp_all
qed

lemma partition1_enc:
  assumes "\<forall>x \<in> set l. x < 256" "partition1 58 l = (name, f, val)"
  shows "partition1 58 (enc l) = (enc name, f, enc val)"
proof (cases "58 \<in> set l")
  case True
  then obtain xs ys where l: "l = xs @ 58 # ys" "58 \<notin> set xs" by (metis split_list_first)
  with assms have "58 \<notin> set (enc xs)" using enc_free [of xs 58] by simp
  from partition1_append [OF this, of "enc ys"] have "partition1 58 (enc l) = (enc xs, True, enc ys)" by (simp add: l)
  moreover have "partition1 58 l = (xs, True, ys)" using l by (simp add: partition1_append)
  ultimately show ?thesis using assms(2) by simp
next
  case False
  then have "58 \<notin> set (enc l)" using assms(1) enc_free [of l 58] by simp
  with False assms(2) show ?thesis by (simp add: partition1_notin)
qed

lemma field_name_enc:
  assumes "\<forall>x \<in> set l. x < 256"
  shows "lower (field_name (enc l)) = line_name l"
proof -
  obtain name f val where p: "partition1 58 l = (name, f, val)" by (metis prod_cases3)
  then have "\<forall>x \<in> set name. x < 256" using partition1_parts(1) [of 58 l] assms by (metis subsetD)
  with p assms show ?thesis by (simp add: field_name_def line_name_def partition1_enc decode_enc)
qed

definition raw_lines :: "pystr \<Rightarrow> pystr \<Rightarrow> pystr \<Rightarrow> pystr list \<Rightarrow> bytes \<Rightarrow> pystr list" where
  "raw_lines meth path host headers body =
     message_lines meth path host headers (\<exists>l \<in> set headers. line_name l = u ''content-length'') (length body)"

lemma check_header_line_iff:
  "check_header_line n line = Inr f \<longleftrightarrow>
     clean line \<and> 58 \<in> set line \<and> (\<exists>c r. line = c # r \<and> c \<notin> {58, 32, 9}) \<and> line_name line \<noteq> u ''transfer-encoding''
     \<and> f = (line_name line = u ''content-length'')
     \<and> (f \<longrightarrow> int_text (snd (snd (partition1 58 line))) = Some (int n))"
  by (cases line) (auto simp: check_header_line_def partition1_def split: option.split if_splits)

lemma rmap_flags: "rmap f xs = Inr ys \<Longrightarrow> (\<And>x y. f x = Inr y \<Longrightarrow> y = g x) \<Longrightarrow> ys = map g xs \<and> (\<forall>x \<in> set xs. f x = Inr (g x))"
  by (induction xs arbitrary: ys) (auto simp: rbind_Inr_iff)

lemma request_bytesE:
  assumes "request_bytes meth path host headers body = Inr raw"
  shows "clean meth \<and> clean path \<and> 32 \<notin> set meth \<and> meth \<noteq> [] \<and> startswith [47] path \<and> 32 \<notin> set path"
    and "l \<in> set headers \<Longrightarrow> check_header_line (length body) l = Inr (line_name l = u ''content-length'')"
    and "length (filter is_host headers) \<le> 1"
    and "\<forall>l \<in> set (raw_lines meth path host headers body). \<forall>c \<in> set l. c < 256"
    and "raw = join [13, 10] (map enc (raw_lines meth path host headers body)) @ [13, 10, 13, 10] @ body"
proof -
  from assms obtain lengths where c: "clean meth \<and> clean path \<and> 32 \<notin> set meth \<and> meth \<noteq> [] \<and> startswith [47] path \<and> 32 \<notin> set path"
    and m: "rmap (check_header_line (length body)) headers = Inr lengths" and h: "length (filter is_host headers) \<le> 1"
    and e: "latin1_encode (join CRLF (message_lines meth path host headers (True \<in> set lengths) (length body)) @ CRLF @ CRLF)
      = Some (take (length raw - length body) raw)" "raw = take (length raw - length body) raw @ body"
    by (auto simp: request_bytes_def rbind_Inr_iff split: if_splits option.splits)
  show "clean meth \<and> clean path \<and> 32 \<notin> set meth \<and> meth \<noteq> [] \<and> startswith [47] path \<and> 32 \<notin> set path" by (rule c)
  show "length (filter is_host headers) \<le> 1" by (rule h)
  have f: "lengths = map (\<lambda>l. line_name l = u ''content-length'') headers
      \<and> (\<forall>l \<in> set headers. check_header_line (length body) l = Inr (line_name l = u ''content-length''))"
    by (rule rmap_flags [OF m]) (simp add: check_header_line_iff)
  then show "l \<in> set headers \<Longrightarrow> check_header_line (length body) l = Inr (line_name l = u ''content-length'')" by blast
  have lines: "message_lines meth path host headers (True \<in> set lengths) (length body) = raw_lines meth path host headers body"
    using f by (auto simp: raw_lines_def image_iff intro: arg_cong)
  have lt: "\<forall>c \<in> set (join CRLF (raw_lines meth path host headers body)). c < 256"
    and raw: "take (length raw - length body) raw = enc (join CRLF (raw_lines meth path host headers body) @ CRLF @ CRLF)"
    using e(1) by (auto simp: latin1_encode_def lines split: if_splits)
  show "\<forall>l \<in> set (raw_lines meth path host headers body). \<forall>c \<in> set l. c < 256"
    using lt by (auto dest: join_mono)
  show "raw = join [13, 10] (map enc (raw_lines meth path host headers body)) @ [13, 10, 13, 10] @ body"
    using e(2) raw by (simp add: map_join CRLF_def)
qed

lemma u_small: "\<forall>c \<in> set (u s). c < 256"
  by (simp add: u_def)

lemma clean_append [simp]: "clean (s @ t) \<longleftrightarrow> clean s \<and> clean t"
  by (auto simp: clean_def)

lemma clean_Nil [simp]: "clean []"
  by (simp add: clean_def)

lemma clean_Cons: "clean (c # s) \<longleftrightarrow> c \<notin> FORBIDDEN \<and> clean s"
  by (auto simp: clean_def)

lemma clean_digits: "clean (dec_nat n)"
  using is_digit_dec_nat [of _ n] by (fastforce simp: clean_def FORBIDDEN_def is_digit_def)

lemma clean_literals: "clean (u '' HTTP/1.1'')" "clean (u ''Host: '')" "clean (u ''Content-Length: '')" "clean [32]"
  by (simp_all add: clean_def FORBIDDEN_def literals)

lemma raw_lines_clean:
  assumes "request_bytes meth path host headers body = Inr raw" "clean host" "l \<in> set (raw_lines meth path host headers body)"
  shows "clean l \<and> l \<noteq> []"
proof -
  have "x \<in> set headers \<Longrightarrow> clean x \<and> x \<noteq> []" for x
    using request_bytesE(2) [OF assms(1)] by (auto simp: check_header_line_iff)
  with request_bytesE(1) [OF assms(1)] assms(2,3) show ?thesis
    by (auto simp: raw_lines_def message_lines_def clean_Cons FORBIDDEN_def clean_literals clean_digits literals split: if_splits)
qed

lemma plain_enc: "clean l \<Longrightarrow> l \<noteq> [] \<Longrightarrow> \<forall>c \<in> set l. c < 256 \<Longrightarrow> plain_line 13 10 (enc l)"
  using enc_free [of l 13] enc_free [of l 10] by (auto simp: plain_line_def clean_def FORBIDDEN_def)

lemma line_name_literals:
  "line_name (u ''Host: '' @ h) = u ''host''" "line_name (u ''Content-Length: '' @ h) = u ''content-length''"
  by (simp_all add: line_name_def partition1_def strip_def rstrip_def lstrip_def is_space_def lower_def lower1_def literals)

lemma header_names_enc:
  assumes "header_lines head = map enc ls" "\<forall>l \<in> set ls. 58 \<in> set l \<and> (\<forall>c \<in> set l. c < 256)"
  shows "map lower (header_names head) = map line_name ls"
proof -
  have "filter (\<lambda>l. 58 \<in> set l) (map enc ls) = map enc ls"
    using assms(2) enc_free [of _ 58] by (auto simp: filter_id_conv)
  then show ?thesis
    using assms(2) by (simp add: header_names_def assms(1) o_def field_name_enc)
qed

lemma int_text_strip: "int_text (strip s) = int_text s"
  by (simp add: int_text_def)

lemma line_colon: "partition1 58 l = (n, True, v) \<Longrightarrow> 58 \<in> set l"
  by (auto simp: partition1_def split: if_splits)

lemma header_values_enc:
  assumes "header_lines head = map enc ls" "\<forall>l \<in> set ls. 58 \<in> set l \<and> (\<forall>c \<in> set l. c < 256)"
  shows "header_values head name =
    map (\<lambda>l. strip (snd (snd (partition1 58 l)))) (filter (\<lambda>l. line_name l = lower name) ls)"
  using assms(2) unfolding header_values_def assms(1)
proof (induction ls)
  case (Cons l ls)
  obtain n val where p: "partition1 58 l = (n, True, val)"
    using Cons.prems by (auto simp: partition1_def)
  have "\<forall>x \<in> set n. x < 256" "\<forall>x \<in> set val. x < 256"
    using partition1_parts [OF p] Cons.prems by auto
  with p Cons show ?case by (auto simp: partition1_enc decode_enc line_name_def)
qed simp

lemma own_length_line: "strip (snd (snd (partition1 58 (u ''Content-Length: '' @ dec_nat n)))) = dec_nat n"
proof -
  have "u ''Content-Length: '' @ dec_nat n = u ''Content-Length'' @ 58 # (32 # dec_nat n)" by (simp add: literals)
  moreover have "58 \<notin> set (u ''Content-Length'')" by (simp add: literals)
  ultimately have p: "snd (snd (partition1 58 (u ''Content-Length: '' @ dec_nat n))) = 32 # dec_nat n"
    using partition1_append [of "58 :: nat"] by simp
  have no: "c \<in> set (dec_nat n) \<Longrightarrow> \<not> is_space c" for c
    using is_digit_dec_nat [of c n] by (auto simp: is_digit_def is_space_def)
  then have "dropWhile is_space (dec_nat n) = dec_nat n" "dropWhile is_space (rev (dec_nat n)) = rev (dec_nat n)"
    by (metis dropWhile_eq_self_iff hd_in_set, metis dropWhile_eq_self_iff hd_in_set set_rev)
  then show ?thesis by (simp add: p strip_def rstrip_def lstrip_def is_space_def)
qed

lemma raw_lines_tl:
  "tl (raw_lines meth path host headers body) =
     (if filter is_host headers = [] then [u ''Host: '' @ host] else []) @ headers
     @ (if body \<noteq> [] \<and> (\<forall>l \<in> set headers. line_name l \<noteq> u ''content-length'')
        then [u ''Content-Length: '' @ dec_nat (length body)] else [])"
  by (simp add: raw_lines_def message_lines_def)

lemma request_lines:
  assumes "request_bytes meth path host headers body = Inr raw" "clean host"
  obtains head where "split_head_body raw = (head, body)" "request_target head = Some path"
    "header_lines head = map enc (tl (raw_lines meth path host headers body))"
    "\<forall>l \<in> set (tl (raw_lines meth path host headers body)). 58 \<in> set l \<and> (\<forall>c \<in> set l. c < 256)"
proof -
  note R = request_bytesE [OF assms(1)]
  let ?ls = "raw_lines meth path host headers body"
  have ne: "map enc ?ls \<noteq> []" by (simp add: raw_lines_def message_lines_def)
  have plain: "\<forall>l \<in> set (map enc ?ls). plain_line 13 10 l"
    using raw_lines_clean [OF assms] R(4) by (auto intro!: plain_enc)
  note L = read_lines [OF ne plain]
  have first: "hd (map enc ?ls) = enc meth @ 32 # enc path @ 32 # enc (u ''HTTP/1.1'')" "tl (map enc ?ls) = map enc (tl ?ls)"
    by (simp_all add: raw_lines_def message_lines_def literals map_tl)
  have lt: "\<forall>c \<in> set meth. c < 256" "\<forall>c \<in> set path. c < 256"
    using R(4) by (auto simp: raw_lines_def message_lines_def)
  then have "32 \<notin> set (enc meth)" "32 \<notin> set (enc path)"
    using R(1) enc_free [of meth 32] enc_free [of path 32] by auto
  then have parts: "split1 32 (hd (map enc ?ls)) = enc meth # enc path # split1 32 (enc (u ''HTTP/1.1''))"
    unfolding first by (simp add: split1_append)
  have "request_target (join [13, 10] (map enc ?ls)) = Some path"
    by (simp only: L(3) parts) (simp add: Let_def decode_enc lt)
  moreover have "\<forall>l \<in> set (tl ?ls). 58 \<in> set l \<and> (\<forall>c \<in> set l. c < 256)"
  proof
    fix l assume l: "l \<in> set (tl ?ls)"
    then have "58 \<in> set l"
      using R(2) [of l] by (auto simp: raw_lines_tl check_header_line_iff literals split: if_splits)
    moreover have "\<forall>c \<in> set l. c < 256"
      using R(4) l ne by (metis list.set_sel(2) list.map_disc_iff)
    ultimately show "58 \<in> set l \<and> (\<forall>c \<in> set l. c < 256)" by blast
  qed
  ultimately show ?thesis using that L(1,2) R(5) first(2) by metis
qed

lemmas request_eval = request_bytes_def check_header_line_def message_lines_def line_name_def is_host_def clean_def
  FORBIDDEN_def CRLF_def startswith_def partition1_def strip_def rstrip_def lstrip_def is_space_def lower_def lower1_def
  latin1_encode_def literals


text \<open>A header without credentials and a body: the length line is added.\<close>

definition sample_raw :: bytes where
  "sample_raw = b ''PUT /a HTTP/1.1'' @ [13, 10] @ b ''Host: h'' @ [13, 10] @ b ''X: 1'' @ [13, 10]
     @ b ''Content-Length: 2'' @ [13, 10, 13, 10] @ b ''ok''"

lemma sample_request: "request_bytes (u ''PUT'') (u ''/a'') (u ''h'') [u ''X: 1''] (b ''ok'') = Inr sample_raw"
proof -
  have "dec_nat (Suc (Suc 0)) = [50]" by code_simp
  then show ?thesis by (simp add: request_eval sample_raw_def)
qed


section \<open>Filing an answer\<close>

definition file_args :: "capture_env \<Rightarrow> pystr \<Rightarrow> (pystr \<times> int) option \<Rightarrow> pystr \<Rightarrow> pystr \<Rightarrow> int option \<Rightarrow> pystr
    \<Rightarrow> pystr option \<Rightarrow> nat option \<Rightarrow> int \<Rightarrow> pystr \<Rightarrow> exchange_args" where
  "file_args env rid identity meth url status req resp resp_len ms outc =
     with_identity identity
       (exchange_args_of rid meth url status (Some req) resp resp_len ms (ce_now env) outc (u ''send''))"

lemma keeps_raising_split: "(\<And>x y. keeps_raising P (f x y)) \<Longrightarrow> keeps_raising P (case p of (x, y) \<Rightarrow> f x y)"
  by (cases p) simp

lemma file_answer_Inl:
  assumes "file_answer cfg env rid identity meth url raw h response cp = (Inl e, cp')"
  shows "cp_store cp' = cp_store cp"
proof -
  let ?P = "\<lambda>cp'. cp_store cp' = cp_store cp"
  have last: "keeps_raising ?P (on_store (file_exchange nid ns e n a rid))" for nid ns e n a rid
    by (auto simp: keeps_raising_def on_store_def dest: file_exchange_Inl split: prod.splits sum.splits)
  have blobs: "keeps ?P (on_blobs m)" for m :: "(blob_fs, blob_exc, 'x) prog"
    by (rule keeps_on_blobs)
  have body: "keeps ?P (put_body cfg e body)" for e body
    by (rule keeps_put_body)
  have "keeps_raising ?P (file_answer cfg env rid identity meth url raw h response)"
    unfolding file_answer_def
    by (intro keeps_raising_last keeps_raising_sbind keeps_raising_split keeps_pure blobs body last)
  with assms show ?thesis unfolding keeps_raising_def by blast
qed

lemma put_blob_put_body:
  "raw \<noteq> [] \<Longrightarrow> on_blobs (put_blob (cc_sha cfg) e raw) cp = (Inr (d, n), cp') \<Longrightarrow> put_body cfg e raw cp = (Inr (Some d, Some n), cp')"
  by (simp add: put_body_def)

lemma file_answer_Inr:
  assumes f: "file_answer cfg env rid identity meth url raw h response cp = (Inr i, cp')" and raw: "raw \<noteq> []"
    and d: "distinct (run_ids (cp_store cp))" "distinct (map surface_key (st_surfaces (cp_store cp)))"
  obtains x where "is_exchange i = ex_id x" "st_exchanges (cp_store cp') = st_exchanges (cp_store cp) @ [x]"
    "issued (cp_store cp') = issued (cp_store cp) + 1" "\<exists>sf \<in> set (st_surfaces (cp_store cp')). ex_surface x = Some (sf_id sf)"
    "ex_req_blob x = Some (cc_sha cfg raw)" "readable cfg (cc_sha cfg raw) cp'" "ex_url x = redact_url url" "ex_run x = Some rid"
    "ex_identity x = map_option fst identity" "ex_identity_state x = map_option (\<lambda>_. u ''assumed'') identity"
    "is_response i = response"
proof -
  have pureD: "pure m c = (Inr y, c') \<Longrightarrow> c' = c \<and> m = Inr y" for m and y :: "'x" and c c'
    by (auto simp: pure_def split: sum.splits)
  from f obtain outc ms norm req n1 c1 resp n2 c2 status xid where
    req: "on_blobs (put_blob (cc_sha cfg) (ce_req env) raw) cp = (Inr (req, n1), c1)" and
    resp: "put_body cfg (ce_resp env) response c1 = (Inr (resp, n2), c2)" and
    fin: "on_store (file_exchange (ce_row env) (ce_surface env) (cc_engagement cfg) norm
        (file_args env rid identity meth url status req resp n2 ms outc) rid) c2 = (Inr xid, cp')" and
    i: "i = issued_of cfg xid status ms outc response"
    unfolding file_answer_def by (elim sbind_InrE) (auto dest!: pureD elim!: sbind_InrE simp: file_args_def split: prod.splits)
  note body = put_blob_put_body [OF raw req]
  have same: "cp_store c2 = cp_store cp" using put_body_store [OF resp] put_body_store [OF body] by simp
  from fin have "file_exchange (ce_row env) (ce_surface env) (cc_engagement cfg) norm
      (file_args env rid identity meth url status req resp n2 ms outc) rid (cp_store cp) = (Inr xid, cp_store cp')"
    by (auto simp: on_store_def same split: prod.splits sum.splits)
  then show thesis
  proof (rule file_exchange_Inr)
    fix sf :: surface_row
    let ?x = "(exchange_of (ce_row env) (file_args env rid identity meth url status req resp n2 ms outc))\<lparr>ex_surface := Some (sf_id sf)\<rparr>"
    assume a: "xid = ce_row env" "st_exchanges (cp_store cp') = st_exchanges (cp_store cp) @ [?x]"
      "sf \<in> set (st_surfaces (cp_store cp'))" "issued (cp_store cp') = issued (cp_store cp) + 1"
    have r: "req = cc_sha cfg raw" "readable cfg (cc_sha cfg raw) cp'"
      using put_body_Inr [OF body] raw put_body_keeps [OF resp] on_store_blobs [OF fin] by (auto simp: readable_def)
    show thesis
      by (rule that [of ?x]) (use a r i in \<open>auto simp: exchange_of_def file_args_def with_identity_def exchange_args_of_def
          issued_of_def split: prod.split\<close>)
  qed (use d in \<open>simp_all add: file_args_def with_identity_def exchange_args_of_def\<close>)
qed

text \<open>Issuing files what it sent: a call that returns has sent the bytes \<open>request_bytes\<close> built and filed exactly
  one exchange that cites them, on its surface, under the redacted URL, counted against the run, with the identity
  it was sent under marked \<open>assumed\<close>. A call that raises, because a check refused, the bridge refused, or a row or
  blob could not be written, leaves the store as it was.\<close>

theorem issue_files_what_it_sent:
  assumes "issue cfg env send rid scheme host port meth path headers body identity cp = (r, cp')"
    and "distinct (run_ids (cp_store cp))" "distinct (map surface_key (st_surfaces (cp_store cp)))"
  shows "case r of
      Inl e \<Rightarrow> cp_store cp' = cp_store cp
    | Inr i \<Rightarrow> \<exists>raw x h. request_bytes meth path host headers body = Inr raw
        \<and> send \<lparr>sq_host = host, sq_port = port, sq_tls = (scheme = u ''https''), sq_identity = map_option fst identity\<rparr> raw
            = Answered h (is_response i)
        \<and> st_exchanges (cp_store cp') = st_exchanges (cp_store cp) @ [x] \<and> is_exchange i = ex_id x
        \<and> issued (cp_store cp') = issued (cp_store cp) + 1
        \<and> (\<exists>sf \<in> set (st_surfaces (cp_store cp')). ex_surface x = Some (sf_id sf))
        \<and> ex_req_blob x = Some (cc_sha cfg raw) \<and> readable cfg (cc_sha cfg raw) cp'
        \<and> ex_url x = redact_url (url_of scheme host port path) \<and> ex_run x = Some rid
        \<and> ex_identity x = map_option fst identity \<and> ex_identity_state x = map_option (\<lambda>_. u ''assumed'') identity"
proof (cases r)
  case (Inl e)
  with assms(1) show ?thesis
    by (auto simp: issue_def dest: file_answer_Inl split: sum.splits send_answer.splits prod.splits)
next
  case (Inr i)
  with assms(1) obtain raw h response where raw: "request_bytes meth path host headers body = Inr raw"
    and s: "send \<lparr>sq_host = host, sq_port = port, sq_tls = (scheme = u ''https''), sq_identity = map_option fst identity\<rparr> raw
        = Answered h response"
    and f: "file_answer cfg env rid identity meth (url_of scheme host port path) raw h response cp = (Inr i, cp')"
    by (auto simp: issue_def split: sum.splits send_answer.splits prod.splits)
  have "raw \<noteq> []" using request_bytesE(5) [OF raw] by simp
  from file_answer_Inr [OF f this assms(2,3)] raw s Inr show ?thesis by (auto split: sum.split) metis
qed

text \<open>A run is open and the answer is a bare \<open>result\<close> frame.\<close>

definition running_capture :: capture where
  "running_capture = sample_capture\<lparr>cp_store :=
     snd (open_run (u ''r1'') (u ''e1'') (u ''scan'') (u ''staging'') 3 (empty_store (u ''e1'')))\<rparr>"

definition get_raw :: bytes where
  "get_raw = b ''GET /7 HTTP/1.1'' @ [13, 10] @ b ''Host: a'' @ [13, 10, 13, 10]"

lemma sample_get: "request_bytes (u ''GET'') (u ''/7'') (u ''a'') [] [] = Inr get_raw"
  by (simp add: request_eval get_raw_def)

lemma sample_answer: "\<exists>i. fst (file_answer sample_cfg sample_env (u ''r1'') None (u ''GET'') (url_of (u ''http'') (u ''a'') 80 (u ''/7''))
    get_raw [(u ''status'', JInt 200)] [] running_capture) = Inr i"
proof -
  have "map_sum id is_exchange (fst (file_answer sample_cfg sample_env (u ''r1'') None (u ''GET'')
      (url_of (u ''http'') (u ''a'') 80 (u ''/7'')) get_raw [(u ''status'', JInt 200)] [] running_capture)) = Inr (u ''x1'')"
    by code_simp
  then show ?thesis by (auto simp: map_sum_def split: sum.splits)
qed

section \<open>What the checks let through\<close>

text \<open>Only the agent's own lines are checked for line breaks. A host that holds one is written as it is, and
  becomes a second header line of the request.\<close>

lemma host_is_not_checked:
  "request_bytes (u ''GET'') (u ''/'') (u ''h'' @ [13, 10] @ u ''X: 1'') [] [] = Inr (b ''GET / HTTP/1.1'' @ [13, 10] @ b ''Host: h'' @ [13, 10] @ b ''X: 1'' @ [13, 10, 13, 10])"
  by (simp add: request_eval)

text \<open>\<open>int()\<close> reads more than digits, so a \<open>Content-Length\<close> that is no HTTP length passes as an equal one.\<close>

lemma content_length_spellings:
  "check_header_line 12 (u ''Content-Length: +12'') = Inr True" "check_header_line 12 (u ''Content-Length: 1_2'') = Inr True"
  by (simp_all add: request_eval int_text_def Let_def is_digit_def max_str_digits_def digits_val_def)

end
