(* ===== verification/Checks.thy ===== *)
theory Checks
  imports Issue Py_Num
begin

text \<open>
  The framework checks run in: what a check may say (\<open>src/hx/checks/base.py\<close>), the registry it is declared in
  (\<open>registry.py\<close>) and the sender through which an active check reaches the target (\<open>probe.py\<close>). An active check
  sees nothing but its sender, so it is modelled as the tree of the requests it makes: after each it is handed the
  response or the exception, and in the end it returns or raises. The \<open>k\<close>-th call to the bridge is
  answered by \<open>wi_answer k\<close>, whatever was sent.
\<close>

section \<open>Verdicts\<close>

definition INSERTION_KINDS :: "pystr list" where
  "INSERTION_KINDS = map u [''query'', ''path_segment'', ''header'', ''cookie'', ''body_form'', ''body_json'']"

definition mk_insertion :: "pystr \<Rightarrow> pystr \<Rightarrow> store_exc + insertion_point" where
  "mk_insertion kind name =
     (if kind \<notin> set INSERTION_KINDS \<or> name = [] then Inl ValueError else Inr \<lparr>ins_name = name, ins_kind = kind\<rparr>)"

text \<open>A candidate and the exchanges it cites.\<close>

record found =
  fo_candidate :: candidate
  fo_exchanges :: "pystr list"

definition mk_candidate :: "candidate \<Rightarrow> pystr list \<Rightarrow> store_exc + found" where
  "mk_candidate c exchanges =
     (if ca_title c = [] \<or> ca_issue_type_id c = [] then Inl ValueError
      else if ca_severity c \<notin> set SEVERITIES \<or> ca_confidence c \<notin> set CONFIDENCES then Inl ValueError
      else if ca_scope_level c \<notin> set (map fst SCOPE_BLANKS) then Inl ValueError
      else if exchanges = [] \<or> [] \<in> set exchanges then Inl ValueError
      else Inr \<lparr>fo_candidate = c, fo_exchanges = exchanges\<rparr>)"

record verdict =
  vd_state :: pystr
  vd_candidates :: "found list"
  vd_reason :: "pystr option"
  vd_considered :: "pystr list"

definition VERDICT_STATES :: "pystr list" where
  "VERDICT_STATES = map u [''clean'', ''finding'', ''inconclusive'']"

definition mk_verdict :: "pystr \<Rightarrow> found list \<Rightarrow> pystr option \<Rightarrow> pystr list \<Rightarrow> store_exc + verdict" where
  "mk_verdict state candidates reason considered =
     (if state \<notin> set VERDICT_STATES then Inl ValueError
      else if state = u ''finding'' \<and> candidates = [] then Inl ValueError
      else if state = u ''inconclusive'' \<and> (reason = None \<or> reason = Some []) then Inl ValueError
      else if [] \<in> set considered then Inl ValueError
      else Inr \<lparr>vd_state = state, vd_candidates = candidates, vd_reason = reason, vd_considered = considered\<rparr>)"

definition verdict_clean :: "pystr list \<Rightarrow> store_exc + verdict" where
  "verdict_clean considered = mk_verdict (u ''clean'') [] None considered"

definition verdict_finding :: "found list \<Rightarrow> pystr list \<Rightarrow> store_exc + verdict" where
  "verdict_finding candidates considered = mk_verdict (u ''finding'') candidates None considered"

definition verdict_inconclusive :: "pystr \<Rightarrow> store_exc + verdict" where
  "verdict_inconclusive reason = mk_verdict (u ''inconclusive'') [] (Some reason) []"

text \<open>A verdict as a check hands it over: the constructors of its candidates and its own have to accept it.\<close>

definition build_verdict :: "verdict \<Rightarrow> store_exc + verdict" where
  "build_verdict v =
     rbind (rmap (\<lambda>f. rbind (case ca_insertion (fo_candidate f) of
                        None \<Rightarrow> Inr ()
                      | Some i \<Rightarrow> rbind (mk_insertion (ins_kind i) (ins_name i)) (\<lambda>_. Inr ()))
                   (\<lambda>_. mk_candidate (fo_candidate f) (fo_exchanges f)))
              (vd_candidates v))
       (\<lambda>fs. mk_verdict (vd_state v) fs (vd_reason v) (vd_considered v))"

section \<open>The registry\<close>

record check_decl =
  cd_id :: pystr
  cd_version :: pystr
  cd_class :: pystr
  cd_hooks :: "pystr list"
  cd_insertion_kinds :: "pystr list"
  cd_looks_for :: "json option"

definition HOOKS :: "(pystr \<times> pystr list) list" where
  "HOOKS =
     [(u ''passive'', [u ''on_surface'', u ''on_corpus'']), (u ''active_safe'', [u ''probes'', u ''on_corpus'']),
      (u ''active_timing'', [u ''probes'', u ''on_corpus'']), (u ''active_mutate'', [u ''probes'', u ''on_corpus'']),
      (u ''active_dos'', [u ''probes'', u ''on_corpus''])]"

definition KNOWN_CLASSES :: "pystr list" where
  "KNOWN_CLASSES = map fst HOOKS"

definition ALL_HOOKS :: "pystr list" where
  "ALL_HOOKS = [u ''on_surface'', u ''probes'', u ''on_corpus'']"

definition RUNNER_CALLS :: "pystr list" where
  "RUNNER_CALLS = [u ''on_surface'', u ''probes'']"

definition implemented :: "check_decl \<Rightarrow> pystr list" where
  "implemented c = filter (\<lambda>h. h \<in> set (cd_hooks c)) ALL_HOOKS"

text \<open>One round of \<open>validate\<close>'s loop; \<open>seen\<close> are the ids before it. A \<open>RegistryError\<close> is False.\<close>

definition registrable :: "pystr list \<Rightarrow> check_decl \<Rightarrow> bool" where
  "registrable seen c \<longleftrightarrow>
     (case map_of HOOKS (cd_class c) of
        None \<Rightarrow> False
      | Some allowed \<Rightarrow>
          cd_id c \<notin> set seen \<and> implemented c \<noteq> [] \<and> set (implemented c) \<subseteq> set allowed
          \<and> (\<exists>h \<in> set (implemented c). h \<in> set RUNNER_CALLS)
          \<and> (case cd_looks_for c of Some (JStr s) \<Rightarrow> strip s \<noteq> [] | _ \<Rightarrow> False))"

fun validate_from :: "pystr list \<Rightarrow> check_decl list \<Rightarrow> bool" where
  "validate_from seen [] = True"
| "validate_from seen (c # cs) = (registrable seen c \<and> validate_from (cd_id c # seen) cs)"

definition validate_registry :: "check_decl list \<Rightarrow> bool" where
  "validate_registry cs = validate_from [] cs"

definition enabled :: "check_decl list \<Rightarrow> (pystr \<times> bool) list \<Rightarrow> check_decl list" where
  "enabled cs config_checks = filter (\<lambda>c. map_of config_checks (cd_class c) = Some True) cs"

section \<open>The probe sender\<close>

datatype check_exc =
    ProbeRefused pystr pystr
  | Raised pystr pystr
  | Interrupted pystr pystr

record probe_response =
  pr_status :: "int option"
  pr_head :: bytes
  pr_body :: bytes
  pr_outcome :: pystr

record probe_sender =
  ps_scheme :: pystr
  ps_host :: pystr
  ps_port :: int
  ps_path :: pystr
  ps_identity :: "pystr option"
  ps_sent :: nat
  ps_refused :: "(pystr \<times> nat) list"

definition new_sender :: "pystr \<Rightarrow> pystr \<Rightarrow> int \<Rightarrow> pystr \<Rightarrow> pystr option \<Rightarrow> probe_sender" where
  "new_sender scheme host port path identity =
     \<lparr>ps_scheme = scheme, ps_host = host, ps_port = port, ps_path = path, ps_identity = identity, ps_sent = 0, ps_refused = []\<rparr>"

text \<open>The bridge as a scan sees it: what it was asked, in order, and what it answers.\<close>

datatype bridge_call =
    SendCall send_request bytes
  | RegisterCall pystr int "pystr list"

record wire =
  wi_calls :: "bridge_call list"
  wi_answer :: "nat \<Rightarrow> send_answer"

definition NOT_ISSUED :: "pystr list" where
  "NOT_ISSUED = map u [''scope_denied'', ''method_denied'', ''dangerous_denied'', ''rate_limited'', ''budget_exhausted'',
     ''halted'', ''not_configured'', ''unmanaged_credential'', ''unknown_identity'', ''identity_origin'']"

definition CREDENTIAL_NAMES :: "pystr list" where
  "CREDENTIAL_NAMES = map u [''authorization'', ''cookie'', ''proxy-authorization'']"

text \<open>\<open>unprobeable\<close>: whether there is a reason, whose text is left out.\<close>

definition unprobeable :: "insertion_point \<Rightarrow> bool" where
  "unprobeable i \<longleftrightarrow> ins_kind i = u ''cookie'' \<or> ins_kind i = u ''header'' \<and> lower (ins_name i) \<in> set CREDENTIAL_NAMES"

definition placeholder_in :: "pystr \<Rightarrow> pystr option" where
  "placeholder_in path = find is_placeholder (split1 47 (fst (partition1 63 path)))"

text \<open>\<open>_rate_limit_wait\<close>: whether there is a wait to sit out; a hint is a positive number.\<close>

definition has_retry_hint :: "json \<Rightarrow> bool" where
  "has_retry_hint hint =
     (case hint of
        JInt n \<Rightarrow> n > 0
      | JFloat t \<Rightarrow>
          (case float_of t of
             Some (neg, q, _) \<Rightarrow> \<not> neg \<and> q > 0
           | None \<Rightarrow> t \<noteq> u ''NaN'' \<and> \<not> startswith [45] t)
      | _ \<Rightarrow> False)"

definition RATE_LIMIT_ATTEMPTS :: nat where
  "RATE_LIMIT_ATTEMPTS = 3"

definition add_count :: "pystr \<Rightarrow> nat \<Rightarrow> (pystr \<times> nat) list \<Rightarrow> (pystr \<times> nat) list" where
  "add_count k n d = dict_set k ((case map_of d k of None \<Rightarrow> 0 | Some m \<Rightarrow> m) + n) d"

definition count_refused :: "pystr \<Rightarrow> probe_sender \<Rightarrow> probe_sender" where
  "count_refused cls ps = ps\<lparr>ps_refused := add_count cls 1 (ps_refused ps)\<rparr>"

definition wire_send :: "send_request \<Rightarrow> bytes \<Rightarrow> wire \<Rightarrow> send_answer \<times> wire" where
  "wire_send req raw w = (wi_answer w (length (wi_calls w)), w\<lparr>wi_calls := wi_calls w @ [SendCall req raw]\<rparr>)"

definition receive :: "header \<Rightarrow> bytes \<Rightarrow> probe_sender \<Rightarrow> (check_exc + probe_response) \<times> probe_sender" where
  "receive h response ps0 =
     (let ps = ps0\<lparr>ps_sent := ps_sent ps0 + 1\<rparr> in
      case text_of (field h ''outcome'' (JStr (u ''ok''))) of
        Inl _ \<Rightarrow> (Inl (Raised (u ''TypeError'') (u ''outcome'')), ps)
      | Inr outc \<Rightarrow>
          if outc \<noteq> u ''ok'' then
            (Inl (ProbeRefused outc (u ''the response did not come back whole, so nothing found in it separates tested from unreachable'')),
             count_refused outc ps)
          else
            (case status_of (field h ''status'' JNull) of
               Inl _ \<Rightarrow> (Inl (Raised (u ''TypeError'') (u ''status'')), ps)
             | Inr status \<Rightarrow>
                 (Inr \<lparr>pr_status = status, pr_head = fst (split_head_body response), pr_body = snd (split_head_body response),
                       pr_outcome = outc\<rparr>, ps)))"

text \<open>The retry loop; its first argument is the number of attempts left.\<close>

fun get_loop :: "nat \<Rightarrow> send_request \<Rightarrow> bytes \<Rightarrow> probe_sender \<Rightarrow> wire
    \<Rightarrow> (check_exc + probe_response) \<times> probe_sender \<times> wire" where
  "get_loop 0 req raw ps w = (Inl (Raised (u ''RuntimeError'') []), ps, w)"
| "get_loop (Suc left) req raw ps w =
     (case wire_send req raw w of
        (Answered h response, w') \<Rightarrow> (case receive h response ps of (r, ps') \<Rightarrow> (r, ps', w'))
      | (SendCrashed name msg, w') \<Rightarrow> (Inl (Raised name msg), ps, w')
      | (SendError cls0 msg hint, w') \<Rightarrow>
          let cls = error_class cls0;
              ps = (if cls \<in> set NOT_ISSUED then ps else ps\<lparr>ps_sent := ps_sent ps + 1\<rparr>)
          in if cls = u ''rate_limited'' \<and> has_retry_hint hint \<and> left > 0 then get_loop left req raw ps w'
             else (Inl (ProbeRefused cls (error_detail cls msg)), count_refused cls ps, w'))"

definition probe_bytes :: "pystr \<Rightarrow> pystr \<Rightarrow> (pystr \<times> pystr) list \<Rightarrow> bytes option" where
  "probe_bytes host path headers =
     latin1_encode (join CRLF ([u ''GET '' @ path @ u '' HTTP/1.1'', u ''Host: '' @ host]
       @ map (\<lambda>(k, v). k @ u '': '' @ v) headers) @ CRLF @ CRLF)"

definition sender_get :: "pystr \<Rightarrow> (pystr \<times> pystr) list \<Rightarrow> probe_sender \<Rightarrow> wire
    \<Rightarrow> (check_exc + probe_response) \<times> probe_sender \<times> wire" where
  "sender_get path headers ps w =
     (if \<not> startswith [47] path then (Inl (Raised (u ''ValueError'') (u ''path must be origin-form'')), ps, w)
      else if placeholder_in path \<noteq> None
      then (Inl (Raised (u ''ValueError'') (u ''path still holds the template placeholder'')), ps, w)
      else case probe_bytes (ps_host ps) path headers of
        None \<Rightarrow> (Inl (Raised (u ''UnicodeEncodeError'') []), ps, w)
      | Some raw \<Rightarrow>
          get_loop RATE_LIMIT_ATTEMPTS
            \<lparr>sq_host = ps_host ps, sq_port = ps_port ps, sq_tls = (ps_scheme ps = u ''https''), sq_identity = ps_identity ps\<rparr>
            raw ps w)"

section \<open>Active checks\<close>

text \<open>What a check's hook returned: nothing, a verdict, or something else. The verdict is the arguments of its
  constructors, which run when the runner looks at it: a \<open>ValueError\<close> they raise is handled the same in both places.\<close>

datatype returned = Nothing | SomethingElse pystr | AVerdict verdict

datatype probing =
    Done returned
  | Raise check_exc
  | Get pystr "(pystr \<times> pystr) list" "check_exc + probe_response \<Rightarrow> probing"

primrec run_probing :: "probing \<Rightarrow> probe_sender \<Rightarrow> wire \<Rightarrow> (check_exc + returned) \<times> probe_sender \<times> wire" where
  "run_probing (Done r) = (\<lambda>ps w. (Inr r, ps, w))"
| "run_probing (Raise e) = (\<lambda>ps w. (Inl e, ps, w))"
| "run_probing (Get path headers k) =
     (\<lambda>ps w. case sender_get path headers ps w of (r, ps', w') \<Rightarrow> run_probing (k r) ps' w')"

end
