(* ===== verification/Identity.thy ===== *)
theory Identity
  imports Checks
begin

text \<open>
  The identity a scan issues under, \<open>src/hx/identity.py\<close>: where its credential comes from, the canary that proves
  it live, and the window that says afterwards what the run may claim. The environment variables and the outcome
  of a refresh command are arguments.
\<close>

section \<open>Credentials\<close>

record liveness =
  lv_path :: pystr
  lv_expect_body :: pystr
  lv_expect_absent :: "pystr option"
  lv_every_n_probes :: int

record identity_decl =
  id_name :: pystr
  id_strategy :: pystr
  id_header :: pystr
  id_value_from_env :: "pystr option"
  id_has_refresh :: bool
  id_liveness :: liveness
  id_origins :: "pystr list"

record resolved =
  rs_id :: pystr
  rs_header :: pystr
  rs_value :: pystr
  rs_generation :: int

text \<open>How a refresh command ended: it could not run, or it exited with a code after printing a text.\<close>

datatype command_result = CannotRun | Exited int pystr

text \<open>\<open>None\<close> is an \<open>IdentityError\<close>.\<close>

definition resolve :: "identity_decl \<Rightarrow> (pystr \<times> pystr) list \<Rightarrow> resolved option" where
  "resolve ident env =
     (if id_strategy ident \<noteq> u ''static'' then None
      else case (case id_value_from_env ident of None \<Rightarrow> None | Some name \<Rightarrow> map_of env name) of
        None \<Rightarrow> None
      | Some raw \<Rightarrow>
          if strip raw = [] then None
          else Some \<lparr>rs_id = id_name ident, rs_header = id_header ident, rs_value = strip raw, rs_generation = 1\<rparr>)"

definition refresh :: "identity_decl \<Rightarrow> int \<Rightarrow> command_result \<Rightarrow> resolved option" where
  "refresh ident generation result =
     (if \<not> id_has_refresh ident then None
      else case result of
        CannotRun \<Rightarrow> None
      | Exited code out \<Rightarrow>
          if code \<noteq> 0 then None
          else if strip out = [] then None
          else Some \<lparr>rs_id = id_name ident, rs_header = id_header ident, rs_value = strip out,
                     rs_generation = generation + 1\<rparr>)"

section \<open>The canary\<close>

text \<open>\<open>s.encode('utf-8', 'replace')\<close>: a surrogate becomes a question mark.\<close>

definition utf8_replace :: "pystr \<Rightarrow> bytes" where
  "utf8_replace s = concat (map (\<lambda>c. case utf8_char c of None \<Rightarrow> [63] | Some bs \<Rightarrow> bs) s)"

definition signature_matches :: "liveness \<Rightarrow> probe_response \<Rightarrow> bool" where
  "signature_matches lv r \<longleftrightarrow>
     (case pr_status r of None \<Rightarrow> False | Some s \<Rightarrow> 200 \<le> s \<and> s < 300)
     \<and> contains (utf8_replace (lv_expect_body lv)) (pr_body r)
     \<and> (case lv_expect_absent lv of None \<Rightarrow> True | Some absent \<Rightarrow> \<not> contains (utf8_replace absent) (pr_body r))"

definition canary :: "liveness \<Rightarrow> probe_sender \<Rightarrow> wire \<Rightarrow> (check_exc + bool) \<times> probe_sender \<times> wire" where
  "canary lv ps w =
     (case sender_get (lv_path lv) [] ps w of
        (Inl (ProbeRefused _ _), ps', w') \<Rightarrow> (Inr False, ps', w')
      | (Inl e, ps', w') \<Rightarrow> (Inl e, ps', w')
      | (Inr r, ps', w') \<Rightarrow> (Inr (signature_matches lv r), ps', w'))"

section \<open>The window\<close>

record window =
  wn_due_every :: int
  wn_since :: int
  wn_first_open_passed :: "bool option"
  wn_any_failure :: bool

definition new_window :: "int \<Rightarrow> window" where
  "new_window due_every = \<lparr>wn_due_every = due_every, wn_since = 0, wn_first_open_passed = None, wn_any_failure = False\<rparr>"

definition window_open :: "bool \<Rightarrow> window \<Rightarrow> window" where
  "window_open passed w =
     w\<lparr>wn_first_open_passed := (case wn_first_open_passed w of None \<Rightarrow> Some passed | Some p \<Rightarrow> Some p),
       wn_any_failure := wn_any_failure w \<or> \<not> passed, wn_since := 0\<rparr>"

definition note_probe :: "window \<Rightarrow> bool \<times> window" where
  "note_probe w =
     (let since = wn_since w + 1 in
      if since \<ge> wn_due_every w then (True, w\<lparr>wn_since := 0\<rparr>) else (False, w\<lparr>wn_since := since\<rparr>))"

definition window_close :: "bool \<Rightarrow> window \<Rightarrow> window" where
  "window_close passed w = w\<lparr>wn_any_failure := wn_any_failure w \<or> \<not> passed\<rparr>"

definition state_for_run :: "window \<Rightarrow> pystr" where
  "state_for_run w =
     (if wn_first_open_passed w \<noteq> Some True then u ''dead''
      else if wn_any_failure w then u ''assumed'' else u ''proven'')"

lemma proven_iff: "state_for_run w = u ''proven'' \<longleftrightarrow> wn_first_open_passed w = Some True \<and> \<not> wn_any_failure w"
  by (simp add: state_for_run_def literals)

lemma window_open_proven:
  "wn_first_open_passed w \<noteq> None \<Longrightarrow> state_for_run (window_open True w) = state_for_run w"
  by (auto simp: state_for_run_def window_open_def split: option.split)

end
