(* ===== verification/Scan.thy ===== *)
theory Scan
  imports Identity
begin

text \<open>
  One scan, \<open>src/hx/scan.py\<close>: every enabled check is run against every surface of the engagement, and the
  run is bracketed by proofs that its identity is live. The clock, the fresh ids, the blobs, the answers of the
  bridge and of a refresh command, and the wording of a skip's reason are the environment; a check's own work is
  an argument (\<open>scan_check\<close>). A statement of the store raises what its constraints call for; a failing disk is left out.
\<close>

section \<open>Environment and state\<close>

record scan_check =
  ck_decl :: check_decl
  ck_on_surface :: "surface_row \<Rightarrow> exchange_row list \<Rightarrow> check_exc + returned"
  ck_probes :: "surface_row \<Rightarrow> insertion_point list \<Rightarrow> pystr \<Rightarrow> probing"

record scan_env =
  en_engagement :: pystr
  en_profile :: pystr
  en_config_checks :: "(pystr \<times> bool) list"
  en_identities :: "(pystr \<times> identity_decl) list"
  en_scan_identity :: "pystr option"
  en_identity :: "resolved option"
  en_environ :: "(pystr \<times> pystr) list"
  en_has_bridge :: bool
  en_selected :: "surface_row \<Rightarrow> bool"
  en_max_seconds :: "int option"
  en_now :: "nat \<Rightarrow> int"
  en_monotonic :: "nat \<Rightarrow> int"
  en_new_id :: "nat \<Rightarrow> pystr"
  en_read_blob :: "pystr \<Rightarrow> blob_exc + bytes"
  en_netloc_ok :: "pystr \<Rightarrow> bool"
  en_register :: "nat \<Rightarrow> (pystr \<times> pystr) option"
  en_refresh :: "nat \<Rightarrow> command_result"
  en_skip_reason :: "pystr \<Rightarrow> surface_row \<Rightarrow> check_decl \<Rightarrow> pystr"
  en_repr :: "pystr \<Rightarrow> pystr"

record bracket =
  bk_decl :: identity_decl
  bk_resolved :: resolved
  bk_target :: "pystr \<times> pystr \<times> int"
  bk_origins :: "pystr list"
  bk_window :: window
  bk_due :: bool

record offered =
  of_hook :: pystr
  of_surface :: pystr
  of_check :: pystr
  of_origin :: "pystr \<times> pystr \<times> int"
  of_considered :: "pystr list"

record scan_state =
  ss_store :: store
  ss_wire :: wire
  ss_bracket :: "bracket option"
  ss_sender :: "probe_sender option"
  ss_ticks :: nat
  ss_ids :: nat
  ss_surfaces :: nat
  ss_checks_run :: nat
  ss_findings :: nat
  ss_skipped :: nat
  ss_by_reason :: "(pystr \<times> nat) list"
  ss_refused :: "(pystr \<times> nat) list"
  ss_identity_state :: "pystr option"
  ss_canary_requests :: nat
  ss_seen :: "pystr list"
  ss_offered :: "offered list"

text \<open>\<open>Dead\<close> is \<open>IdentityDead\<close> with its stop reason; anything else escapes as it was raised.\<close>

datatype scan_exc = Dead pystr | Escaped check_exc

type_synonym 'a in_check = "(scan_state, check_exc, 'a) prog"
type_synonym 'a in_scan = "(scan_state, scan_exc, 'a) prog"

definition store_raised :: "store_exc \<Rightarrow> check_exc" where
  "store_raised e =
     (case e of
        ValueError \<Rightarrow> Raised (u ''ValueError'') []
      | TypeError \<Rightarrow> Raised (u ''TypeError'') []
      | IntegrityError \<Rightarrow> Raised (u ''IntegrityError'') [])"

definition on_db :: "(store, store_exc, 'a) prog \<Rightarrow> 'a in_check" where
  "on_db m ss =
     (case m (ss_store ss) of
        (Inl e, s) \<Rightarrow> (Inl (store_raised e), ss\<lparr>ss_store := s\<rparr>)
      | (Inr x, s) \<Rightarrow> (Inr x, ss\<lparr>ss_store := s\<rparr>))"

definition escaping :: "'a in_check \<Rightarrow> 'a in_scan" where
  "escaping m ss = (case m ss of (Inl e, ss') \<Rightarrow> (Inl (Escaped e), ss') | (Inr x, ss') \<Rightarrow> (Inr x, ss'))"

definition modify :: "(scan_state \<Rightarrow> scan_state) \<Rightarrow> (scan_state, 'e, unit) prog" where
  "modify f ss = (Inr (), f ss)"

definition reads :: "(scan_state \<Rightarrow> 'a) \<Rightarrow> (scan_state, 'e, 'a) prog" where
  "reads f ss = (Inr (f ss), ss)"

definition now_us :: "scan_env \<Rightarrow> (scan_state, 'e, int) prog" where
  "now_us env ss = (Inr (en_now env (ss_ticks ss)), ss\<lparr>ss_ticks := Suc (ss_ticks ss)\<rparr>)"

definition fresh_id :: "scan_env \<Rightarrow> (scan_state, 'e, pystr) prog" where
  "fresh_id env ss = (Inr (en_new_id env (ss_ids ss)), ss\<lparr>ss_ids := Suc (ss_ids ss)\<rparr>)"

section \<open>Rows of check runs\<close>

definition CHECK_VERDICTS :: "pystr list" where
  "CHECK_VERDICTS = map u [''pending'', ''clean'', ''finding'', ''inconclusive'', ''skipped'', ''error'']"

definition insert_check_run :: "check_run_row \<Rightarrow> (store, store_exc, unit) prog" where
  "insert_check_run r s =
     (if cr_id r \<in> set (map cr_id (st_check_runs s)) \<or> cr_run r \<notin> set (run_ids s)
        \<or> \<not> fk (cr_surface r) (map sf_id (st_surfaces s)) \<or> cr_verdict r \<notin> set CHECK_VERDICTS
      then (Inl IntegrityError, s)
      else (Inr (), s\<lparr>st_check_runs := st_check_runs s @ [r]\<rparr>))"

definition end_check_run :: "pystr \<Rightarrow> pystr \<Rightarrow> pystr option \<Rightarrow> int \<Rightarrow> nat \<Rightarrow> (store, store_exc, unit) prog" where
  "end_check_run row_id verd reason at requests s =
     (if verd \<notin> set CHECK_VERDICTS \<and> row_id \<in> set (map cr_id (st_check_runs s)) then (Inl IntegrityError, s)
      else (Inr (), s\<lparr>st_check_runs := map (\<lambda>r. if cr_id r = row_id
              then r\<lparr>cr_verdict := verd, cr_reason := reason, cr_ended_us := Some at, cr_requests_sent := int requests\<rparr>
              else r) (st_check_runs s)\<rparr>))"

definition open_row :: "scan_env \<Rightarrow> pystr \<Rightarrow> surface_row \<Rightarrow> check_decl \<Rightarrow> pystr in_check" where
  "open_row env rid surface c =
     sbind (fresh_id env) (\<lambda>row_id.
     sbind (now_us env) (\<lambda>at.
     sbind (on_db (transaction (insert_check_run \<lparr>cr_id = row_id, cr_run = rid, cr_surface = Some (sf_id surface),
              cr_insertion = None, cr_check = cd_id c, cr_version = cd_version c, cr_started_us = at, cr_ended_us = None,
              cr_verdict = u ''pending'', cr_reason = None, cr_requests_sent = 0\<rparr>))) (\<lambda>_.
       sret row_id)))"

definition close_row :: "scan_env \<Rightarrow> pystr \<Rightarrow> pystr \<Rightarrow> pystr option \<Rightarrow> nat \<Rightarrow> unit in_check" where
  "close_row env row_id verd reason requests =
     sbind (now_us env) (\<lambda>at. on_db (transaction (end_check_run row_id verd reason at requests)))"

definition count_skip :: "pystr \<Rightarrow> nat \<Rightarrow> scan_state \<Rightarrow> scan_state" where
  "count_skip key n ss = ss\<lparr>ss_skipped := ss_skipped ss + n, ss_by_reason := add_count key 1 (ss_by_reason ss)\<rparr>"

definition skip_row :: "scan_env \<Rightarrow> pystr \<Rightarrow> pystr \<Rightarrow> pystr \<Rightarrow> unit in_check" where
  "skip_row env row_id key reason =
     sbind (close_row env row_id (u ''skipped'') (Some reason) 0) (\<lambda>_. modify (count_skip key 1))"

text \<open>\<open>_spent\<close>: a sender's refusals join the summary, and its probes are noted in the bracket's window.\<close>

definition bracket_note :: "nat \<Rightarrow> bracket \<Rightarrow> bracket" where
  "bracket_note probes bk =
     ((\<lambda>bk. case note_probe (bk_window bk) of (due, w) \<Rightarrow> bk\<lparr>bk_window := w, bk_due := bk_due bk \<or> due\<rparr>) ^^ probes) bk"

definition add_refused :: "probe_sender \<Rightarrow> scan_state \<Rightarrow> scan_state" where
  "add_refused ps ss = ss\<lparr>ss_refused := fold (\<lambda>(cls, n). add_count cls n) (ps_refused ps) (ss_refused ss)\<rparr>"

definition spent :: "(scan_state, 'e, nat) prog" where
  "spent ss =
     (case ss_sender ss of
        None \<Rightarrow> (Inr 0, ss)
      | Some ps \<Rightarrow>
          let ss' = add_refused ps ss in
          (Inr (ps_sent ps), ss'\<lparr>ss_bracket := map_option (bracket_note (ps_sent ps)) (ss_bracket ss')\<rparr>))"

section \<open>Findings\<close>

text \<open>The transaction: the finding, its observation in this run, and its evidence chain.\<close>

definition finding_rows :: "pystr \<Rightarrow> pystr \<Rightarrow> pystr \<Rightarrow> pystr \<Rightarrow> surface_row \<Rightarrow> check_decl \<Rightarrow> found \<Rightarrow> pystr list \<Rightarrow> int
    \<Rightarrow> (store, store_exc, pystr) prog" where
  "finding_rows nid engagement key rid surface c f evidence_ids at =
     (let ca = fo_candidate f in
      transaction
        (sbind (upsert_finding nid engagement ca key rid (Some (sf_id surface)) (Some (sf_host surface))
            (Some (cd_id c)) (u ''check'')) (\<lambda>fid.
         sbind (record_observation \<lparr>ob_finding = fid, ob_run = rid, ob_observed = True,
             ob_exchange = Some (hd (fo_exchanges f)), ob_severity = Some (ca_severity ca),
             ob_confidence = Some (ca_confidence ca), ob_ts_us = at\<rparr>) (\<lambda>_.
         sbind (record_evidence fid (zip evidence_ids (fo_exchanges f)) at (u ''proof'') None) (\<lambda>_. sret fid)))))"

definition finding_key_of :: "surface_row \<Rightarrow> check_decl \<Rightarrow> candidate \<Rightarrow> store_exc + pystr" where
  "finding_key_of surface c ca =
     dedupe_key \<lparr>ka_type = cd_id c, ka_issue_type_id = ca_issue_type_id ca, ka_scheme = sf_scheme surface,
       ka_host = sf_host surface, ka_port = Some (sf_port surface), ka_method = sf_method surface,
       ka_path_template = sf_path_template surface, ka_insertion_kind = map_option ins_kind (ca_insertion ca),
       ka_insertion_name = map_option ins_name (ca_insertion ca)\<rparr> (ca_scope_level ca)"

definition fresh_ids :: "scan_env \<Rightarrow> nat \<Rightarrow> (scan_state, 'e, pystr list) prog" where
  "fresh_ids env n ss =
     (Inr (map (\<lambda>k. en_new_id env (ss_ids ss + k)) [0..<n]), ss\<lparr>ss_ids := ss_ids ss + n\<rparr>)"

definition write_finding :: "scan_env \<Rightarrow> pystr \<Rightarrow> surface_row \<Rightarrow> check_decl \<Rightarrow> found \<Rightarrow> pystr in_check" where
  "write_finding env rid surface c f =
     (case finding_key_of surface c (fo_candidate f) of
        Inl e \<Rightarrow> sraise (store_raised e)
      | Inr key \<Rightarrow>
          sbind (now_us env) (\<lambda>at.
          sbind (fresh_id env) (\<lambda>nid.
          sbind (fresh_ids env (length (fo_exchanges f))) (\<lambda>ids.
            on_db (finding_rows nid (en_engagement env) key rid surface c f ids at)))))"

definition note_finding :: "pystr \<Rightarrow> scan_state \<Rightarrow> scan_state" where
  "note_finding fid ss =
     ss\<lparr>ss_findings := ss_findings ss + (if fid \<in> set (ss_seen ss) then 0 else 1), ss_seen := fid # ss_seen ss\<rparr>"

definition origin_of_surface :: "surface_row \<Rightarrow> pystr \<times> pystr \<times> int" where
  "origin_of_surface surface = (sf_scheme surface, sf_host surface, sf_port surface)"

definition runner_hook :: "check_decl \<Rightarrow> pystr" where
  "runner_hook c = (case find (\<lambda>h. h \<in> set (cd_hooks c)) RUNNER_CALLS of None \<Rightarrow> [] | Some h \<Rightarrow> h)"

definition needs_a_bridge :: "check_decl \<Rightarrow> bool" where
  "needs_a_bridge c \<longleftrightarrow> runner_hook c = u ''probes''"

text \<open>What follows the hook: the verdict's claims are kept, its findings written.\<close>

definition offer_claims :: "surface_row \<Rightarrow> check_decl \<Rightarrow> verdict \<Rightarrow> scan_state \<Rightarrow> scan_state" where
  "offer_claims surface c v ss =
     (if vd_considered v = [] then ss
      else ss\<lparr>ss_offered := ss_offered ss @ [\<lparr>of_hook = runner_hook c, of_surface = sf_id surface,
             of_check = cd_id c, of_origin = origin_of_surface surface, of_considered = vd_considered v\<rparr>]\<rparr>)"

definition write_findings :: "scan_env \<Rightarrow> pystr \<Rightarrow> surface_row \<Rightarrow> check_decl \<Rightarrow> verdict \<Rightarrow> unit in_check" where
  "write_findings env rid surface c v =
     (if vd_state v = u ''finding''
      then sfor (\<lambda>f. sbind (write_finding env rid surface c f) (\<lambda>fid. modify (note_finding fid))) (vd_candidates v)
      else sret ())"

definition judge :: "scan_env \<Rightarrow> pystr \<Rightarrow> surface_row \<Rightarrow> check_decl \<Rightarrow> returned \<Rightarrow> verdict in_check" where
  "judge env rid surface c ret =
     (case ret of
        Nothing \<Rightarrow> sraise (Raised (u ''TypeError'') (u ''the check returned None; silence is not a verdict''))
      | SomethingElse what \<Rightarrow> sraise (Raised (u ''TypeError'') what)
      | AVerdict args \<Rightarrow>
          (case build_verdict args of
             Inl e \<Rightarrow> sraise (store_raised e)
           | Inr v \<Rightarrow>
               sbind (modify (offer_claims surface c v)) (\<lambda>_.
               sbind (write_findings env rid surface c v) (\<lambda>_. sret v))))"

section \<open>Whether an active check can run here\<close>

definition citable_exemplar :: "surface_row \<Rightarrow> exchange_row list \<Rightarrow> bool" where
  "citable_exemplar surface exchanges \<longleftrightarrow>
     sf_exemplar surface \<noteq> [] \<and> sf_exemplar surface \<in> set (map ex_id exchanges)"

definition exemplar_request :: "scan_env \<Rightarrow> surface_row \<Rightarrow> exchange_row list \<Rightarrow> check_exc + bytes option" where
  "exemplar_request env surface exchanges =
     (if sf_exemplar surface = [] then Inr None
      else case find (\<lambda>x. ex_id x = sf_exemplar surface) exchanges of
        None \<Rightarrow> Inr None
      | Some x \<Rightarrow>
          (case ex_req_blob x of
             None \<Rightarrow> Inr None
           | Some digest \<Rightarrow>
               if digest = [] then Inr None
               else (case en_read_blob env digest of
                  Inr raw \<Rightarrow> Inr (Some raw)
                | Inl CorruptBlob \<Rightarrow> Inr None
                | Inl OSError \<Rightarrow> Inl (Raised (u ''OSError'') []))))"

datatype plan = SkipCheck pystr | Probe pystr "insertion_point list"

definition PROBEABLE_METHODS :: "pystr list" where
  "PROBEABLE_METHODS = [u ''GET'']"

definition of_store :: "store_exc + 'a \<Rightarrow> check_exc + 'a" where
  "of_store r = (case r of Inl e \<Rightarrow> Inl (store_raised e) | Inr x \<Rightarrow> Inr x)"

definition plan_points :: "scan_env \<Rightarrow> surface_row \<Rightarrow> check_decl \<Rightarrow> bytes \<Rightarrow> pystr \<Rightarrow> check_exc + plan" where
  "plan_points env surface c request path =
     (if cd_insertion_kinds c = [] then Inr (Probe path [])
      else
        rbind (of_store (derive (en_netloc_ok env) request (sf_path_template surface))) (\<lambda>insertions.
          let declared = filter (\<lambda>i. ins_kind i \<in> set (cd_insertion_kinds c)) insertions;
              usable = filter (\<lambda>i. \<not> unprobeable i) declared
          in Inr (if usable = [] \<and> declared \<noteq> [] then SkipCheck (u ''no_probeable_insertion_point'')
                  else if usable = [] then SkipCheck (u ''no_insertion_point'')
                  else Probe path usable)))"

definition plan_probe :: "scan_env \<Rightarrow> surface_row \<Rightarrow> exchange_row list \<Rightarrow> check_decl \<Rightarrow> check_exc + plan" where
  "plan_probe env surface exchanges c =
     (if \<not> en_has_bridge env then Inr (SkipCheck (u ''no_bridge''))
      else if sf_method surface \<notin> set PROBEABLE_METHODS then Inr (SkipCheck (u ''not_a_get_surface''))
      else if \<not> citable_exemplar surface exchanges then Inr (SkipCheck (u ''no_exemplar''))
      else
        rbind (exemplar_request env surface exchanges) (\<lambda>request.
          case request of
            None \<Rightarrow> Inr (SkipCheck (u ''no_probe_path''))
          | Some raw \<Rightarrow>
              rbind (of_store (request_path (en_netloc_ok env) raw)) (\<lambda>path.
                case path of
                  None \<Rightarrow> Inr (SkipCheck (u ''no_probe_path''))
                | Some p \<Rightarrow> plan_points env surface c raw p)))"

section \<open>One check on one surface\<close>

text \<open>The sender stays in the state, so that what it spent is known whatever the check raises.\<close>

definition drive :: "probing \<Rightarrow> probe_sender \<Rightarrow> returned in_check" where
  "drive check ps ss =
     (case run_probing check ps (ss_wire ss) of
        (r, ps', w') \<Rightarrow> (r, ss\<lparr>ss_sender := Some ps', ss_wire := w'\<rparr>))"

text \<open>The body of the \<open>try\<close>: \<open>None\<close> when the row has been closed as skipped.\<close>

definition attempt :: "scan_env \<Rightarrow> pystr \<Rightarrow> pystr option \<Rightarrow> surface_row \<Rightarrow> exchange_row list \<Rightarrow> scan_check \<Rightarrow> pystr
    \<Rightarrow> verdict option in_check" where
  "attempt env rid identity surface exchanges ck row_id =
     (let c = ck_decl ck in
      if needs_a_bridge c then
        (case plan_probe env surface exchanges c of
           Inl e \<Rightarrow> sraise e
         | Inr (SkipCheck key) \<Rightarrow> sbind (skip_row env row_id key (en_skip_reason env key surface c)) (\<lambda>_. sret None)
         | Inr (Probe path usable) \<Rightarrow>
             sbind (drive (ck_probes ck surface usable path)
                 (new_sender (sf_scheme surface) (sf_host surface) (sf_port surface) path identity)) (\<lambda>ret.
             sbind (judge env rid surface c ret) (\<lambda>v. sret (Some v))))
      else
        (case (if runner_hook c = [] then Inl (Raised (u ''AttributeError'') []) else ck_on_surface ck surface exchanges) of
           Inl e \<Rightarrow> sraise e
         | Inr ret \<Rightarrow> sbind (judge env rid surface c ret) (\<lambda>v. sret (Some v))))"

definition exc_text :: "pystr \<Rightarrow> pystr \<Rightarrow> pystr" where
  "exc_text name detail = (if detail = [] then name else name @ u '': '' @ detail)"

definition close_spent :: "scan_env \<Rightarrow> pystr \<Rightarrow> pystr \<Rightarrow> pystr option \<Rightarrow> unit in_check" where
  "close_spent env row_id verd reason = sbind spent (\<lambda>n. close_row env row_id verd reason n)"

text \<open>The \<open>except\<close> clauses and what follows the \<open>try\<close>.\<close>

definition settle_row :: "scan_env \<Rightarrow> pystr \<Rightarrow> check_exc + verdict option \<Rightarrow> unit in_check" where
  "settle_row env row_id r =
     (case r of
        Inr None \<Rightarrow> sret ()
      | Inr (Some v) \<Rightarrow> close_spent env row_id (vd_state v) (vd_reason v)
      | Inl (ProbeRefused cls detail) \<Rightarrow>
          close_spent env row_id (u ''inconclusive'') (Some (u ''probe refused: '' @ exc_text cls detail))
      | Inl (Raised name msg) \<Rightarrow> close_spent env row_id (u ''error'') (Some (name @ u '': '' @ msg))
      | Inl (Interrupted name msg) \<Rightarrow> sraise (Interrupted name msg))"

definition run_check_row :: "scan_env \<Rightarrow> pystr \<Rightarrow> pystr option \<Rightarrow> surface_row \<Rightarrow> exchange_row list \<Rightarrow> scan_check \<Rightarrow> unit in_check" where
  "run_check_row env rid identity surface exchanges ck =
     sbind (open_row env rid surface (ck_decl ck)) (\<lambda>row_id.
     sbind (modify (\<lambda>ss. ss\<lparr>ss_checks_run := ss_checks_run ss + 1, ss_sender := None\<rparr>)) (\<lambda>_ ss.
       case attempt env rid identity surface exchanges ck row_id ss of
         (r, ss') \<Rightarrow> settle_row env row_id r ss'))"

section \<open>The identity bracket\<close>

definition fresh_sender :: "bracket \<Rightarrow> probe_sender" where
  "fresh_sender bk =
     (case bk_target bk of (scheme, host, port) \<Rightarrow>
        new_sender scheme host port (lv_path (id_liveness (bk_decl bk))) (Some (rs_id (bk_resolved bk))))"

text \<open>\<open>_canary\<close>: whether it passed, and the class its send was refused under, if it was.\<close>

definition run_canary :: "bracket \<Rightarrow> (bool \<times> pystr option) in_scan" where
  "run_canary bk ss =
     (case canary (id_liveness (bk_decl bk)) (fresh_sender bk) (ss_wire ss) of
        (r, ps, w) \<Rightarrow>
          let ss' = add_refused ps (ss\<lparr>ss_wire := w, ss_canary_requests := ss_canary_requests ss + ps_sent ps\<rparr>) in
          case r of
            Inl e \<Rightarrow> (Inl (Escaped e), ss')
          | Inr passed \<Rightarrow> (Inr (passed, case sort (map fst (ps_refused ps)) of [] \<Rightarrow> None | c # _ \<Rightarrow> Some c), ss'))"

definition register_identity :: "scan_env \<Rightarrow> bracket \<Rightarrow> unit in_scan" where
  "register_identity env bk ss =
     (case en_register env (length (wi_calls (ss_wire ss))) of
        Some (name, msg) \<Rightarrow> (Inl (Escaped (Raised name msg)), ss)
      | None \<Rightarrow> (Inr (), ss\<lparr>ss_wire := (ss_wire ss)\<lparr>wi_calls := wi_calls (ss_wire ss)
                 @ [RegisterCall (rs_id (bk_resolved bk)) (rs_generation (bk_resolved bk)) (bk_origins bk)]\<rparr>\<rparr>))"

definition unproved :: "pystr option \<Rightarrow> pystr" where
  "unproved refusal =
     (case refusal of
        Some cls \<Rightarrow> u ''its canary was refused '' @ cls
      | None \<Rightarrow> u ''its canary was answered without the declared signature'')"

definition named :: "scan_env \<Rightarrow> bracket \<Rightarrow> pystr" where
  "named env bk = u ''identity '' @ en_repr env (rs_id (bk_resolved bk))"

text \<open>\<open>_settle\<close>: the first canary's answer, whether the identity is live now, and the last refusal. A programmatic
  identity is refreshed once; the bracket keeps the credential it ends with.\<close>

definition keep_bracket :: "bracket \<Rightarrow> unit in_scan" where
  "keep_bracket bk = modify (\<lambda>ss. ss\<lparr>ss_bracket := Some bk\<rparr>)"

definition calls_made :: "scan_state \<Rightarrow> nat" where
  "calls_made ss = length (wi_calls (ss_wire ss))"

definition settle :: "scan_env \<Rightarrow> bracket \<Rightarrow> (bool \<times> bool \<times> pystr option \<times> bracket) in_scan" where
  "settle env bk =
     sbind (run_canary bk) (\<lambda>(raw, refusal).
       if raw \<or> id_strategy (bk_decl bk) \<noteq> u ''programmatic'' then sret (raw, raw, refusal, bk)
       else
         sbind (reads calls_made) (\<lambda>k.
         case refresh (bk_decl bk) (rs_generation (bk_resolved bk)) (en_refresh env k) of
           None \<Rightarrow> sraise (Dead (named env bk @ u '' could not be refreshed after '' @ unproved refusal))
         | Some r \<Rightarrow>
             let bk' = bk\<lparr>bk_resolved := r\<rparr> in
             sbind (keep_bracket bk') (\<lambda>_.
             sbind (register_identity env bk') (\<lambda>_.
             sbind (run_canary bk') (\<lambda>(settled, refusal').
               sret (raw, settled, refusal', bk'))))))"

definition bracket_start :: "scan_env \<Rightarrow> bracket \<Rightarrow> unit in_scan" where
  "bracket_start env bk =
     sbind (register_identity env bk) (\<lambda>_.
     sbind (settle env bk) (\<lambda>(raw, settled, refusal, bk').
     sbind (keep_bracket (bk'\<lparr>bk_window := window_open settled (bk_window bk')\<rparr>)) (\<lambda>_.
       if settled then sret ()
       else sraise (Dead (named env bk' @ u '' could not be proved live before the first probe: '' @ unproved refusal)))))"

definition canary_if_due :: "scan_env \<Rightarrow> unit in_scan" where
  "canary_if_due env =
     sbind (reads ss_bracket) (\<lambda>br.
       case br of
         None \<Rightarrow> sret ()
       | Some bk0 \<Rightarrow>
           if \<not> bk_due bk0 then sret ()
           else
             let bk = bk0\<lparr>bk_due := False\<rparr> in
             sbind (keep_bracket bk) (\<lambda>_.
             sbind (settle env bk) (\<lambda>(raw, settled, refusal, bk').
               let w = window_close raw (bk_window bk') in
               if \<not> settled then
                 sbind (keep_bracket (bk'\<lparr>bk_window := w\<rparr>)) (\<lambda>_.
                   sraise (Dead (named env bk' @ u '' stopped being live during the run: '' @ unproved refusal)))
               else keep_bracket (bk'\<lparr>bk_window := window_open True w\<rparr>))))"

definition bracket_finish :: "unit in_scan" where
  "bracket_finish =
     sbind (reads ss_bracket) (\<lambda>br.
       case br of
         None \<Rightarrow> sret ()
       | Some bk \<Rightarrow>
           sbind (run_canary bk) (\<lambda>(passed, _).
             keep_bracket (bk\<lparr>bk_window := window_close passed (bk_window bk)\<rparr>)))"

section \<open>Surfaces\<close>

definition one_check :: "scan_env \<Rightarrow> pystr \<Rightarrow> pystr option \<Rightarrow> surface_row \<Rightarrow> exchange_row list \<Rightarrow> scan_check \<Rightarrow> unit in_scan" where
  "one_check env rid identity surface exchanges ck =
     sbind (canary_if_due env) (\<lambda>_. escaping (run_check_row env rid identity surface exchanges ck))"

definition skip_one :: "scan_env \<Rightarrow> pystr \<Rightarrow> surface_row \<Rightarrow> pystr \<Rightarrow> scan_check \<Rightarrow> unit in_check" where
  "skip_one env rid surface reason ck =
     sbind (open_row env rid surface (ck_decl ck)) (\<lambda>row_id.
     sbind (modify (\<lambda>ss. ss\<lparr>ss_checks_run := ss_checks_run ss + 1\<rparr>)) (\<lambda>_.
     sbind (close_row env row_id (u ''skipped'') (Some reason) 0) (\<lambda>_.
       modify (\<lambda>ss. ss\<lparr>ss_by_reason := add_count reason 1 (ss_by_reason ss)\<rparr>))))"

definition skip_rest :: "scan_env \<Rightarrow> pystr \<Rightarrow> surface_row \<Rightarrow> scan_check list \<Rightarrow> pystr \<Rightarrow> unit in_check" where
  "skip_rest env rid surface checks reason =
     sbind (sfor (skip_one env rid surface reason) checks) (\<lambda>_.
       modify (\<lambda>ss. ss\<lparr>ss_skipped := ss_skipped ss + length checks\<rparr>))"

definition exchanges_for :: "pystr \<Rightarrow> store \<Rightarrow> exchange_row list" where
  "exchanges_for sid s = filter (\<lambda>x. ex_surface x = Some sid) (st_exchanges s)"

definition past_deadline :: "scan_env \<Rightarrow> int option \<Rightarrow> bool in_scan" where
  "past_deadline env deadline ss =
     (case deadline of
        None \<Rightarrow> (Inr False, ss)
      | Some d \<Rightarrow> (Inr (en_monotonic env (ss_ticks ss) > d), ss\<lparr>ss_ticks := Suc (ss_ticks ss)\<rparr>))"

definition one_surface :: "scan_env \<Rightarrow> pystr \<Rightarrow> pystr option \<Rightarrow> int option \<Rightarrow> scan_check list \<Rightarrow> surface_row \<Rightarrow> unit in_scan" where
  "one_surface env rid identity deadline checks surface =
     (if \<not> en_selected env surface then sret ()
      else
        sbind (past_deadline env deadline) (\<lambda>late.
          if late then escaping (skip_rest env rid surface checks (u ''budget''))
          else
            sbind (modify (\<lambda>ss. ss\<lparr>ss_surfaces := ss_surfaces ss + 1\<rparr>)) (\<lambda>_.
            sbind (now_us env) (\<lambda>at.
            sbind (modify (\<lambda>ss. ss\<lparr>ss_store := heartbeat rid at (ss_store ss)\<rparr>)) (\<lambda>_.
            sbind (reads (\<lambda>ss. exchanges_for (sf_id surface) (ss_store ss))) (\<lambda>exchanges.
              sfor (one_check env rid identity surface exchanges) checks))))))"

definition surfaces_in_order :: "pystr \<Rightarrow> store \<Rightarrow> surface_row list" where
  "surfaces_in_order engagement s =
     sort_key sf_host (sort_key sf_path_template (sort_key sf_method
       (filter (\<lambda>r. sf_engagement r = engagement) (st_surfaces s))))"

section \<open>The identity a scan issues under\<close>

definition raised :: "string \<Rightarrow> 'a in_scan" where
  "raised name = sraise (Escaped (Raised (u name) []))"

definition declared_identity :: "scan_env \<Rightarrow> pystr \<Rightarrow> identity_decl in_scan" where
  "declared_identity env name = (case map_of (en_identities env) name of None \<Rightarrow> raised ''ValueError'' | Some d \<Rightarrow> sret d)"

definition of_identity :: "resolved option \<Rightarrow> resolved option in_scan" where
  "of_identity r = (case r of None \<Rightarrow> raised ''IdentityError'' | Some x \<Rightarrow> sret (Some x))"

definition resolve_scan_identity :: "scan_env \<Rightarrow> resolved option in_scan" where
  "resolve_scan_identity env =
     (case en_scan_identity env of
        None \<Rightarrow> sret None
      | Some name \<Rightarrow>
          sbind (declared_identity env name) (\<lambda>d.
          sbind (reads calls_made) (\<lambda>k.
            of_identity (if id_strategy d = u ''static'' then resolve d (en_environ env)
                         else refresh d 0 (en_refresh env k)))))"

definition make_bracket :: "resolved \<Rightarrow> identity_decl \<Rightarrow> surface_row \<Rightarrow> bracket" where
  "make_bracket r d target =
     \<lparr>bk_decl = d, bk_resolved = r, bk_target = origin_of_surface target,
      bk_origins = (if id_origins d = [] then [sf_host target] else id_origins d),
      bk_window = new_window (lv_every_n_probes (id_liveness d)), bk_due = False\<rparr>"

definition identity_bracket :: "scan_env \<Rightarrow> scan_check list \<Rightarrow> surface_row list \<Rightarrow> bracket option in_scan" where
  "identity_bracket env checks surfaces =
     (if \<not> en_has_bridge env \<or> \<not> (\<exists>ck \<in> set checks. needs_a_bridge (ck_decl ck)) then sret None
      else case find (en_selected env) surfaces of
        None \<Rightarrow> sret None
      | Some target \<Rightarrow>
          sbind (case en_identity env of Some r \<Rightarrow> sret (Some r) | None \<Rightarrow> resolve_scan_identity env) (\<lambda>r.
            case r of
              None \<Rightarrow> sret None
            | Some r \<Rightarrow> sbind (declared_identity env (rs_id r)) (\<lambda>d. sret (Some (make_bracket r d target)))))"

section \<open>The end of a run\<close>

definition retirable :: "pystr option \<Rightarrow> (pystr \<times> pystr \<times> int) option \<Rightarrow> offered \<Rightarrow> pystr list" where
  "retirable identity_state proven_origin x =
     (if of_hook x \<noteq> u ''probes'' then of_considered x
      else if identity_state \<noteq> Some (u ''proven'') then []
      else if Some (of_origin x) = proven_origin then of_considered x else [])"

definition considered :: "scan_state \<Rightarrow> (pystr \<times> pystr \<times> pystr) list" where
  "considered ss =
     concat (map (\<lambda>x. map (\<lambda>t. (of_surface x, of_check x, t))
         (retirable (ss_identity_state ss) (map_option bk_target (ss_bracket ss)) x)) (ss_offered ss))"

definition unobserved :: "pystr \<Rightarrow> pystr list \<Rightarrow> (pystr \<times> pystr \<times> pystr) list \<Rightarrow> finding_row \<Rightarrow> bool" where
  "unobserved engagement seen named_by_a_check f \<longleftrightarrow>
     fi_engagement f = engagement \<and> fi_id f \<notin> set seen
     \<and> (case (fi_surface f, fi_check f) of
          (Some s, Some c) \<Rightarrow> (s, c, fi_issue_type f) \<in> set named_by_a_check
        | _ \<Rightarrow> False)"

definition unobserved_row :: "pystr \<Rightarrow> int \<Rightarrow> finding_row \<Rightarrow> observation_row" where
  "unobserved_row rid at f =
     \<lparr>ob_finding = fi_id f, ob_run = rid, ob_observed = False, ob_exchange = None, ob_severity = None,
      ob_confidence = None, ob_ts_us = at\<rparr>"

definition mark_unobserved :: "scan_env \<Rightarrow> pystr \<Rightarrow> unit in_check" where
  "mark_unobserved env rid =
     sbind (reads considered) (\<lambda>claims.
       if claims = [] then sret ()
       else
         sbind (now_us env) (\<lambda>at.
         sbind (reads (\<lambda>ss. filter (unobserved (en_engagement env) (ss_seen ss) claims) (st_findings (ss_store ss)))) (\<lambda>gone.
           on_db (transaction (sfor (\<lambda>f. record_observation (unobserved_row rid at f)) gone)))))"

definition tally_line :: "string \<Rightarrow> (pystr \<times> nat) list \<Rightarrow> pystr list" where
  "tally_line what d =
     (if d = [] then []
      else [u what @ join (u '', '') (map (\<lambda>(k, n). k @ [61] @ dec_nat n) (sort_key fst d))])"

definition tallies :: "scan_state \<Rightarrow> pystr list" where
  "tallies ss = tally_line ''skipped '' (ss_by_reason ss) @ tally_line ''probes refused '' (ss_refused ss)"

definition stop_text :: "scan_exc \<Rightarrow> scan_state \<Rightarrow> pystr" where
  "stop_text e ss =
     (case e of
        Dead reason \<Rightarrow> u ''scan.run raised: IdentityDead: '' @ join (u ''; '') (reason # tallies ss)
      | Escaped (ProbeRefused cls detail) \<Rightarrow> u ''scan.run raised: ProbeRefused: '' @ exc_text cls detail
      | Escaped (Raised name msg) \<Rightarrow> u ''scan.run raised: '' @ name @ u '': '' @ msg
      | Escaped (Interrupted name msg) \<Rightarrow> u ''scan.run raised: '' @ name @ u '': '' @ msg)"

definition file_identity :: "pystr \<Rightarrow> (bracket \<Rightarrow> pystr) \<Rightarrow> unit in_scan" where
  "file_identity rid state =
     sbind (reads ss_bracket) (\<lambda>br.
       case br of
         None \<Rightarrow> sret ()
       | Some bk \<Rightarrow>
           sbind (modify (\<lambda>ss. ss\<lparr>ss_identity_state := Some (state bk)\<rparr>)) (\<lambda>_.
             escaping (on_db (record_identity rid (rs_id (bk_resolved bk)) (rs_generation (bk_resolved bk)) (state bk)))))"

text \<open>The \<open>try\<close> block of \<open>run\<close>.\<close>

definition start_bracket :: "scan_env \<Rightarrow> bracket option \<Rightarrow> unit in_scan" where
  "start_bracket env br =
     (case br of None \<Rightarrow> sret () | Some bk \<Rightarrow> sbind (keep_bracket bk) (\<lambda>_. bracket_start env bk))"

definition identity_in_use :: "scan_state \<Rightarrow> pystr option" where
  "identity_in_use ss = map_option (\<lambda>bk. rs_id (bk_resolved bk)) (ss_bracket ss)"

definition scan_bracketed :: "scan_env \<Rightarrow> scan_check list \<Rightarrow> pystr \<Rightarrow> int option \<Rightarrow> surface_row list \<Rightarrow> bracket option
    \<Rightarrow> unit in_scan" where
  "scan_bracketed env checks rid deadline surfaces br =
     sbind (start_bracket env br) (\<lambda>_.
     sbind (reads identity_in_use) (\<lambda>identity.
     sbind (sfor (one_surface env rid identity deadline checks) surfaces) (\<lambda>_.
     sbind bracket_finish (\<lambda>_.
       file_identity rid (\<lambda>bk. state_for_run (bk_window bk))))))"

definition scan_surfaces :: "scan_env \<Rightarrow> scan_check list \<Rightarrow> pystr \<Rightarrow> int option \<Rightarrow> surface_row list \<Rightarrow> unit in_scan" where
  "scan_surfaces env checks rid deadline surfaces =
     sbind (identity_bracket env checks surfaces) (\<lambda>br.
     sbind (scan_bracketed env checks rid deadline surfaces br) (\<lambda>_.
       escaping (mark_unobserved env rid)))"

definition close_scan :: "scan_env \<Rightarrow> pystr \<Rightarrow> pystr \<Rightarrow> (scan_state \<Rightarrow> pystr option) \<Rightarrow> unit in_scan" where
  "close_scan env rid status reason =
     sbind (reads reason) (\<lambda>why.
     sbind (now_us env) (\<lambda>at. escaping (on_db (close_run rid at status why))))"

definition stop_scan :: "scan_env \<Rightarrow> pystr \<Rightarrow> scan_exc \<Rightarrow> unit in_scan" where
  "stop_scan env rid e =
     sbind (file_identity rid (\<lambda>_. case e of Dead _ \<Rightarrow> u ''dead'' | Escaped _ \<Rightarrow> u ''assumed'')) (\<lambda>_.
     sbind (close_scan env rid (u ''error'') (\<lambda>ss. Some (stop_text e ss))) (\<lambda>_.
       sraise e))"

definition truncated :: "scan_state \<Rightarrow> pystr option" where
  "truncated ss = (if tallies ss = [] then None else Some (u ''truncated: '' @ join (u ''; '') (tallies ss)))"

definition enabled_checks :: "scan_env \<Rightarrow> scan_check list \<Rightarrow> scan_check list" where
  "enabled_checks env checks = filter (\<lambda>ck. map_of (en_config_checks env) (cd_class (ck_decl ck)) = Some True) checks"

definition deadline_of :: "scan_env \<Rightarrow> int option in_scan" where
  "deadline_of env ss =
     (case en_max_seconds env of
        None \<Rightarrow> (Inr None, ss)
      | Some m \<Rightarrow> (Inr (Some (en_monotonic env (ss_ticks ss) + m)), ss\<lparr>ss_ticks := Suc (ss_ticks ss)\<rparr>))"

definition scan_in_run :: "scan_env \<Rightarrow> scan_check list \<Rightarrow> pystr \<Rightarrow> int option \<Rightarrow> unit in_scan" where
  "scan_in_run env checks rid deadline ss =
     (case scan_surfaces env checks rid deadline (surfaces_in_order (en_engagement env) (ss_store ss)) ss of
        (Inl e, ss') \<Rightarrow> stop_scan env rid e ss'
      | (Inr _, ss') \<Rightarrow> close_scan env rid (u ''completed'') truncated ss')"

definition scan :: "scan_env \<Rightarrow> scan_check list \<Rightarrow> unit in_scan" where
  "scan env checks =
     (case enabled_checks env checks of
        [] \<Rightarrow> sret ()
      | cks \<Rightarrow>
          sbind (fresh_id env) (\<lambda>nid.
          sbind (now_us env) (\<lambda>at.
          sbind (escaping (on_db (current_run nid (en_engagement env) (u ''scan'') (en_profile env) at))) (\<lambda>rid.
          sbind (deadline_of env) (\<lambda>deadline.
            scan_in_run env cks rid deadline)))))"

definition start_state :: "store \<Rightarrow> (nat \<Rightarrow> send_answer) \<Rightarrow> scan_state" where
  "start_state s answer =
     \<lparr>ss_store = s, ss_wire = \<lparr>wi_calls = [], wi_answer = answer\<rparr>, ss_bracket = None, ss_sender = None, ss_ticks = 0,
      ss_ids = 0, ss_surfaces = 0, ss_checks_run = 0, ss_findings = 0, ss_skipped = 0, ss_by_reason = [], ss_refused = [],
      ss_identity_state = None, ss_canary_requests = 0, ss_seen = [], ss_offered = []\<rparr>"

end
