(* ===== verification/Scan_Laws.thy ===== *)
theory Scan_Laws
  imports Scan
begin

text \<open>
  The accounts of a scan. Every selected surface gets exactly one closed row per enabled check, and every request that
  left is counted on a row or as a canary: \<open>covering\<close> says so of a program, and the scan's is put together from those
  of its parts.
\<close>

section \<open>What left\<close>

text \<open>A call whose answer says that a request went out.\<close>

fun went_out :: "bridge_call \<Rightarrow> send_answer \<Rightarrow> bool" where
  "went_out (SendCall req raw) (Answered h response) = True"
| "went_out (SendCall req raw) (SendError cls msg hint) = (error_class cls \<notin> set NOT_ISSUED)"
| "went_out c a = False"

definition issued_calls :: "wire \<Rightarrow> nat" where
  "issued_calls w =
     sum_list (map (\<lambda>k. if went_out (wi_calls w ! k) (wi_answer w k) then 1 else 0) [0..<length (wi_calls w)])"

lemma issued_calls_append:
  "issued_calls (w\<lparr>wi_calls := wi_calls w @ [c]\<rparr>) =
     issued_calls w + (if went_out c (wi_answer w (length (wi_calls w))) then 1 else 0)"
proof -
  have "(\<Sum>k\<leftarrow>[0..<length (wi_calls w)]. if went_out ((wi_calls w @ [c]) ! k) (wi_answer w k) then 1 else 0 :: nat)
      = (\<Sum>k\<leftarrow>[0..<length (wi_calls w)]. if went_out (wi_calls w ! k) (wi_answer w k) then 1 else 0)"
    by (rule arg_cong [where f = sum_list], rule map_cong) (simp_all add: nth_append)
  then show ?thesis by (simp add: issued_calls_def)
qed

text \<open>A sender's count keeps pace with the calls that left.\<close>

definition in_step :: "probe_sender \<Rightarrow> wire \<Rightarrow> probe_sender \<Rightarrow> wire \<Rightarrow> bool" where
  "in_step ps w ps' w' \<longleftrightarrow> wi_answer w' = wi_answer w \<and> ps_sent ps' + issued_calls w = ps_sent ps + issued_calls w'"

lemma in_step_refl [simp]: "in_step ps w ps w"
  by (simp add: in_step_def)

lemma in_step_trans: "in_step ps w ps' w' \<Longrightarrow> in_step ps' w' ps'' w'' \<Longrightarrow> in_step ps w ps'' w''"
  by (simp add: in_step_def)

lemma receive_sent: "receive h response ps = (r, ps') \<Longrightarrow> ps_sent ps' = ps_sent ps + 1"
  by (auto simp: receive_def count_refused_def Let_def split: sum.splits if_splits)

lemma get_loop_in_step: "get_loop n req raw ps w = (r, ps', w') \<Longrightarrow> in_step ps w ps' w'"
proof (induction n req raw ps w arbitrary: r ps' w' rule: get_loop.induct)
  case (2 left req raw ps w)
  let ?w = "w\<lparr>wi_calls := wi_calls w @ [SendCall req raw]\<rparr>"
  show ?case
  proof (cases "wi_answer w (length (wi_calls w))")
    case (Answered h response)
    with 2 have "w' = ?w" "receive h response ps = (r, ps')" by (auto simp: wire_send_def split: prod.splits)
    with Answered show ?thesis
      by (simp add: in_step_def issued_calls_append receive_sent)
  next
    case (SendError cls msg hint)
    let ?ps = "if error_class cls \<in> set NOT_ISSUED then ps else ps\<lparr>ps_sent := ps_sent ps + 1\<rparr>"
    have first: "in_step ps w ?ps ?w" using SendError by (simp add: in_step_def issued_calls_append)
    show ?thesis
    proof (cases "error_class cls = u ''rate_limited'' \<and> has_retry_hint hint \<and> left > 0")
      case True
      with 2(2) SendError have "get_loop left req raw ?ps ?w = (r, ps', w')" by (simp add: wire_send_def Let_def)
      with 2(1) [OF _ SendError refl refl True] have "in_step ?ps ?w ps' w'" by (simp add: wire_send_def SendError)
      with first show ?thesis by (rule in_step_trans)
    next
      case False
      with 2(2) SendError have "ps' = count_refused (error_class cls) ?ps" "w' = ?w"
        by (auto simp: wire_send_def Let_def split: if_splits)
      with first show ?thesis by (simp add: in_step_def count_refused_def)
    qed
  next
    case (SendCrashed name msg)
    with 2 show ?thesis by (auto simp: wire_send_def in_step_def issued_calls_append)
  qed
qed simp

lemma sender_get_in_step: "sender_get path headers ps w = (r, ps', w') \<Longrightarrow> in_step ps w ps' w'"
  by (auto simp: sender_get_def split: if_splits option.splits dest: get_loop_in_step)

lemma run_probing_in_step: "run_probing p ps w = (r, ps', w') \<Longrightarrow> in_step ps w ps' w'"
proof (induction p arbitrary: ps w)
  case (Get path headers k)
  obtain x ps1 w1 where "sender_get path headers ps w = (x, ps1, w1)" by (metis prod_cases3)
  with Get.prems Get.IH [OF rangeI] show ?case by (fastforce intro: in_step_trans dest: sender_get_in_step)
qed simp_all

lemma canary_in_step: "canary lv ps w = (r, ps', w') \<Longrightarrow> in_step ps w ps' w'"
  by (auto simp: canary_def split: prod.splits sum.splits check_exc.splits dest: sender_get_in_step)

section \<open>What a step leaves alone\<close>

lemma keeps_sfor [keeps_intros]: "(\<And>x. keeps P (f x)) \<Longrightarrow> keeps P (sfor f xs)"
  by (induction xs) (auto intro: keeps_intros)

lemma keeps_modify: "(\<And>ss. P ss \<Longrightarrow> P (f ss)) \<Longrightarrow> keeps P (modify f)"
  by (simp add: keeps_def modify_def)

lemma keeps_now_us: "(\<And>ss n. P ss \<Longrightarrow> P (ss\<lparr>ss_ticks := n\<rparr>)) \<Longrightarrow> keeps P (now_us env)"
  by (simp add: keeps_def now_us_def)

lemma keeps_fresh_id: "(\<And>ss n. P ss \<Longrightarrow> P (ss\<lparr>ss_ids := n\<rparr>)) \<Longrightarrow> keeps P (fresh_id env)"
  by (simp add: keeps_def fresh_id_def)

lemma on_db_cases:
  assumes "on_db m ss = (r, ss')"
  obtains s where "ss' = ss\<lparr>ss_store := s\<rparr>" "s = snd (m (ss_store ss))" "\<And>x. r = Inr x \<Longrightarrow> m (ss_store ss) = (Inr x, s)"
proof -
  obtain x s where "m (ss_store ss) = (x, s)" by (metis prod.exhaust)
  with assms show thesis by (intro that [of s]) (auto simp: on_db_def split: sum.splits)
qed

lemma keeps_on_db: "(\<And>ss. P ss \<Longrightarrow> P (ss\<lparr>ss_store := snd (m (ss_store ss))\<rparr>)) \<Longrightarrow> keeps P (on_db m)"
  unfolding keeps_def by (metis on_db_cases prod.collapse)

lemma keeps_escaping [keeps_intros]: "keeps P m \<Longrightarrow> keeps P (escaping m)"
  by (fastforce simp: keeps_def escaping_def split: prod.split sum.split)

lemma keeps_transaction [keeps_intros]: "keeps P m \<Longrightarrow> keeps P (transaction m)"
  by (fastforce simp: keeps_def transaction_def split: prod.split sum.split)

text \<open>What the accounts of a scan are made of.\<close>

definition books :: "scan_state \<Rightarrow> check_run_row list \<times> nat \<times> wire \<times> nat \<times> probe_sender option" where
  "books ss = (st_check_runs (ss_store ss), ss_checks_run ss, ss_wire ss, ss_canary_requests ss, ss_sender ss)"

lemma books_simps [simp]:
  "books (ss\<lparr>ss_bracket := x\<rparr>) = books ss" "books (ss\<lparr>ss_ticks := n\<rparr>) = books ss" "books (ss\<lparr>ss_ids := n\<rparr>) = books ss"
  "books (ss\<lparr>ss_surfaces := n\<rparr>) = books ss" "books (ss\<lparr>ss_findings := n\<rparr>) = books ss" "books (ss\<lparr>ss_skipped := n\<rparr>) = books ss"
  "books (ss\<lparr>ss_by_reason := d\<rparr>) = books ss" "books (ss\<lparr>ss_refused := d\<rparr>) = books ss" "books (ss\<lparr>ss_identity_state := i\<rparr>) = books ss"
  "books (ss\<lparr>ss_seen := l\<rparr>) = books ss" "books (ss\<lparr>ss_offered := q\<rparr>) = books ss"
  by (simp_all add: books_def)

definition keeps_rows :: "(store, 'e, 'a) prog \<Rightarrow> bool" where
  "keeps_rows m \<longleftrightarrow> (\<forall>R. keeps (\<lambda>s. st_check_runs s = R) m)"

lemma keeps_books_db: "keeps_rows m \<Longrightarrow> keeps (\<lambda>ss. books ss = B) (on_db m)"
  by (rule keeps_on_db) (auto simp: books_def keeps_rows_def keeps_def)

lemma evidence_loop_rows: "keeps (\<lambda>s. st_check_runs s = R) (evidence_loop f role note at xs known n)"
  by (induction f role "note" at xs known n rule: evidence_loop.induct)
    (auto intro!: keeps_intros simp: insert_evidence_def keeps_def sbind_def split: prod.split sum.split)

lemma finding_writes_rows:
  "keeps (\<lambda>s. st_check_runs s = R) (upsert_finding nid e c k rid sf h ch cb)"
  "keeps (\<lambda>s. st_check_runs s = R) (record_observation ob)"
  by (auto simp: keeps_def upsert_finding_def record_observation_def Let_def split: list.split)

lemma record_evidence_rows: "keeps (\<lambda>s. st_check_runs s = R) (record_evidence f xs at role why)"
  unfolding record_evidence_def
  by (rule keeps_transaction) (use evidence_loop_rows in \<open>auto simp: keeps_def\<close>)

lemma rows_finding_rows: "keeps_rows (finding_rows nid e key rid surface c f ids at)"
  unfolding keeps_rows_def finding_rows_def Let_def
  by (intro allI keeps_intros finding_writes_rows record_evidence_rows)

lemma keeps_fresh_ids: "(\<And>ss n. P ss \<Longrightarrow> P (ss\<lparr>ss_ids := n\<rparr>)) \<Longrightarrow> keeps P (fresh_ids env n)"
  by (simp add: keeps_def fresh_ids_def)

lemma keeps_case_sum [keeps_intros]:
  "(\<And>e. r = Inl e \<Longrightarrow> keeps P (f e)) \<Longrightarrow> (\<And>x. r = Inr x \<Longrightarrow> keeps P (g x)) \<Longrightarrow> keeps P (case r of Inl e \<Rightarrow> f e | Inr x \<Rightarrow> g x)"
  by (cases r) simp_all

lemma books_write_finding: "keeps (\<lambda>ss. books ss = B) (write_finding env rid surface c f)"
  unfolding write_finding_def
  by (intro keeps_intros keeps_now_us keeps_fresh_id keeps_fresh_ids keeps_books_db rows_finding_rows) simp_all

lemma books_judge: "keeps (\<lambda>ss. books ss = B) (judge env rid surface c ret)"
  unfolding judge_def
  by (cases ret) (auto intro!: keeps_intros keeps_modify books_write_finding simp: note_finding_def offer_claims_def
      write_findings_def)

section \<open>One row per check\<close>

definition closed_row :: "check_run_row \<Rightarrow> bool" where
  "closed_row r \<longleftrightarrow> cr_verdict r \<noteq> u ''pending'' \<and> cr_ended_us r \<noteq> None"

definition row_key :: "check_run_row \<Rightarrow> pystr option \<times> pystr" where
  "row_key r = (cr_surface r, cr_check r)"

text \<open>From \<open>ss\<close> to \<open>ss'\<close> the scan added these rows, all closed, and every request that left is counted on one
  of them or as a canary.\<close>

definition filed :: "pystr \<Rightarrow> check_run_row list \<Rightarrow> scan_state \<Rightarrow> scan_state \<Rightarrow> bool" where
  "filed rid rows ss ss' \<longleftrightarrow>
     st_check_runs (ss_store ss') = st_check_runs (ss_store ss) @ rows
     \<and> (\<forall>r \<in> set rows. cr_run r = rid \<and> closed_row r)
     \<and> ss_checks_run ss' = ss_checks_run ss + length rows
     \<and> wi_answer (ss_wire ss') = wi_answer (ss_wire ss)
     \<and> (\<Sum>r\<leftarrow>rows. cr_requests_sent r) + int (ss_canary_requests ss') + int (issued_calls (ss_wire ss))
         = int (ss_canary_requests ss) + int (issued_calls (ss_wire ss'))"

lemma filed_refl: "books ss' = books ss \<Longrightarrow> filed rid [] ss ss'"
  by (simp add: filed_def books_def)

lemma filed_trans: "filed rid rs ss ss' \<Longrightarrow> filed rid rs' ss' ss'' \<Longrightarrow> filed rid (rs @ rs') ss ss''"
  by (auto simp: filed_def)

lemma keeps_books: "keeps (\<lambda>ss. books ss = books s0) m \<Longrightarrow> m s0 = (r, s1) \<Longrightarrow> books s1 = books s0"
  by (drule keepsD) simp_all

lemma open_row_Inr:
  assumes "open_row env rid surface c ss = (Inr row_id, ss')"
  obtains r where "st_check_runs (ss_store ss') = st_check_runs (ss_store ss) @ [r]" "cr_id r = row_id" "cr_run r = rid"
    "row_key r = (Some (sf_id surface), cd_id c)" "cr_requests_sent r = 0" "row_id \<notin> set (map cr_id (st_check_runs (ss_store ss)))"
    "ss_checks_run ss' = ss_checks_run ss" "ss_wire ss' = ss_wire ss" "ss_canary_requests ss' = ss_canary_requests ss"
  using assms
  by (auto simp: open_row_def sbind_def fresh_id_def now_us_def on_db_def transaction_def insert_check_run_def row_key_def
      split: if_splits)

text \<open>\<open>UPDATE check_run ... WHERE id = ?\<close> on the row just inserted.\<close>

lemma close_row_Inr:
  assumes "close_row env row_id verd reason n ss = (Inr (), ss')"
    and "st_check_runs (ss_store ss) = rows @ [r]" "cr_id r = row_id" "row_id \<notin> set (map cr_id rows)" "verd \<noteq> u ''pending''"
  obtains r' where "st_check_runs (ss_store ss') = rows @ [r']" "cr_run r' = cr_run r" "row_key r' = row_key r"
    "closed_row r'" "cr_requests_sent r' = int n"
    "ss_checks_run ss' = ss_checks_run ss" "ss_wire ss' = ss_wire ss" "ss_canary_requests ss' = ss_canary_requests ss"
proof -
  have "map (\<lambda>r. if cr_id r = row_id then f r else r) rows = rows" for f
    using assms(4) by (intro map_idI) auto
  with assms that show thesis
    by (auto simp: close_row_def sbind_def now_us_def on_db_def transaction_def end_check_run_def row_key_def closed_row_def
        split: if_splits)
qed

definition sent_by :: "probe_sender option \<Rightarrow> nat" where
  "sent_by s = (case s of None \<Rightarrow> 0 | Some ps \<Rightarrow> ps_sent ps)"

lemma drive_spends:
  assumes "drive p (new_sender sch h port path i) ss = (r, ss')"
  shows "st_check_runs (ss_store ss') = st_check_runs (ss_store ss)" "ss_checks_run ss' = ss_checks_run ss"
    "ss_canary_requests ss' = ss_canary_requests ss" "wi_answer (ss_wire ss') = wi_answer (ss_wire ss)"
    "sent_by (ss_sender ss') + issued_calls (ss_wire ss) = issued_calls (ss_wire ss')"
proof -
  obtain x ps w where "run_probing p (new_sender sch h port path i) (ss_wire ss) = (x, ps, w)" by (metis prod_cases3)
  moreover from run_probing_in_step [OF this] have "wi_answer w = wi_answer (ss_wire ss)"
    "ps_sent ps + issued_calls (ss_wire ss) = issued_calls w" by (simp_all add: in_step_def new_sender_def)
  ultimately show "st_check_runs (ss_store ss') = st_check_runs (ss_store ss)" "ss_checks_run ss' = ss_checks_run ss"
    "ss_canary_requests ss' = ss_canary_requests ss" "wi_answer (ss_wire ss') = wi_answer (ss_wire ss)"
    "sent_by (ss_sender ss') + issued_calls (ss_wire ss) = issued_calls (ss_wire ss')"
    using assms by (auto simp: drive_def sent_by_def)
qed

text \<open>Before the \<open>except\<close> clauses: the row is open as it was and the sender holds what was spent, unless the
  row has been closed as skipped.\<close>

definition in_flight :: "scan_state \<Rightarrow> scan_state \<Rightarrow> bool" where
  "in_flight ss ss' \<longleftrightarrow>
     st_check_runs (ss_store ss') = st_check_runs (ss_store ss) \<and> ss_checks_run ss' = ss_checks_run ss
     \<and> ss_canary_requests ss' = ss_canary_requests ss \<and> wi_answer (ss_wire ss') = wi_answer (ss_wire ss)
     \<and> sent_by (ss_sender ss') + issued_calls (ss_wire ss) = issued_calls (ss_wire ss')"

lemma in_flight_books: "in_flight ss ss' \<Longrightarrow> books ss'' = books ss' \<Longrightarrow> in_flight ss ss''"
  by (simp add: in_flight_def books_def)

lemma in_flight_start: "ss_sender ss = None \<Longrightarrow> books ss' = books ss \<Longrightarrow> in_flight ss ss'"
  by (simp add: in_flight_def books_def sent_by_def)

lemma judged_in_flight:
  assumes "in_flight ss0 ss" "sbind (judge env rid surface c ret) (\<lambda>v. sret (Some v)) ss = (r, ss')"
  shows "r \<noteq> Inr None \<and> in_flight ss0 ss'"
proof -
  obtain x s where j: "judge env rid surface c ret ss = (x, s)" by (metis prod.exhaust)
  have "in_flight ss0 s" by (rule in_flight_books [OF assms(1) keeps_books [OF books_judge j]])
  with j assms(2) show ?thesis by (cases x) (auto simp: sbind_def)
qed

lemma close_row_total: "verd \<in> set CHECK_VERDICTS \<Longrightarrow> \<exists>ss'. close_row env row_id verd reason n ss = (Inr (), ss')"
  by (auto simp: close_row_def sbind_def now_us_def on_db_def transaction_def end_check_run_def)

lemma attempt_cases:
  assumes "attempt env rid identity surface exchanges ck row_id ss = (r, ss')" "ss_sender ss = None"
  obtains (skipped) key why s where "r = Inr None" "close_row env row_id (u ''skipped'') (Some why) 0 ss = (Inr (), s)"
      "ss' = count_skip key 1 s"
    | (tried) "r \<noteq> Inr None" "in_flight ss ss'"
proof (cases "needs_a_bridge (ck_decl ck)")
  case True
  note a = assms(1) [unfolded attempt_def Let_def if_P [OF True]]
  show thesis
  proof (cases "plan_probe env surface exchanges (ck_decl ck)")
    case (Inl e)
    with a have "r = Inl e" "ss' = ss" by simp_all
    with tried in_flight_start [OF assms(2) refl] show thesis by simp
  next
    case (Inr plan)
    show thesis
    proof (cases plan)
      case (SkipCheck key)
      define why where "why = en_skip_reason env key surface (ck_decl ck)"
      have "u ''skipped'' \<in> set CHECK_VERDICTS" by (simp add: CHECK_VERDICTS_def)
      then obtain s where s: "close_row env row_id (u ''skipped'') (Some why) 0 ss = (Inr (), s)"
        using close_row_total by blast
      with a Inr SkipCheck have "r = Inr None" "ss' = count_skip key 1 s"
        by (auto simp: skip_row_def sbind_def modify_def why_def)
      with s skipped show thesis by blast
    next
      case (Probe path usable)
      let ?ps = "new_sender (sf_scheme surface) (sf_host surface) (sf_port surface) path identity"
      obtain x s where d: "drive (ck_probes ck surface usable path) ?ps ss = (x, s)" by (metis prod.exhaust)
      have f: "in_flight ss s" using drive_spends [OF d] by (simp add: in_flight_def)
      show thesis
      proof (cases x)
        case (Inl e)
        with a Inr Probe d have "r = Inl e" "ss' = s" by (auto simp: sbind_def)
        with f tried show thesis by simp
      next
        case (Inr ret)
        with a \<open>plan_probe env surface exchanges (ck_decl ck) = Inr plan\<close> Probe d
        have "sbind (judge env rid surface (ck_decl ck) ret) (\<lambda>v. sret (Some v)) s = (r, ss')" by (simp add: sbind_def)
        with judged_in_flight [OF f] have "r \<noteq> Inr None" "in_flight ss ss'" by blast+
        then show thesis by (rule tried)
      qed
    qed
  qed
next
  case False
  note a = assms(1) [unfolded attempt_def Let_def if_not_P [OF False]]
  have f: "in_flight ss ss" by (rule in_flight_start [OF assms(2) refl])
  show thesis
  proof (cases "if runner_hook (ck_decl ck) = [] then Inl (Raised (u ''AttributeError'') []) else ck_on_surface ck surface exchanges")
    case (Inl e)
    with a f tried show thesis by auto
  next
    case (Inr ret)
    with a have "sbind (judge env rid surface (ck_decl ck) ret) (\<lambda>v. sret (Some v)) ss = (r, ss')" by simp
    with judged_in_flight [OF f] have "r \<noteq> Inr None" "in_flight ss ss'" by blast+
    then show thesis by (rule tried)
  qed
qed

lemma judge_verdict:
  assumes "judge env rid surface c ret ss = (Inr v, ss')"
  shows "vd_state v \<in> set VERDICT_STATES"
proof -
  from assms obtain args where "ret = AVerdict args" by (cases ret) (auto simp: judge_def)
  with assms have "\<exists>args. build_verdict args = Inr v"
    by (auto simp: judge_def sbind_def split: sum.splits prod.splits)
  then show ?thesis by (auto simp: build_verdict_def rbind_Inr_iff mk_verdict_def split: if_splits)
qed

lemma attempt_verdict:
  assumes "attempt env rid identity surface exchanges ck row_id ss = (Inr (Some v), ss')"
  shows "vd_state v \<noteq> u ''pending''"
proof -
  have "\<exists>ret s s'. judge env rid surface (ck_decl ck) ret s = (Inr v, s')"
    using assms by (auto simp: attempt_def Let_def sbind_def split: if_splits sum.splits plan.splits prod.splits)
  then have "vd_state v \<in> set VERDICT_STATES" by (auto dest: judge_verdict)
  then show ?thesis by (auto simp: VERDICT_STATES_def literals)
qed

lemma spent_cases:
  obtains n s where "(spent :: nat in_check) ss = (Inr n, s)" "n = sent_by (ss_sender ss)" "books s = books ss"
proof (cases "ss_sender ss")
  case None
  then have "(spent :: nat in_check) ss = (Inr 0, ss)" "0 = sent_by (ss_sender ss)" by (simp_all add: spent_def sent_by_def)
  then show thesis by (rule that) (rule refl)
next
  case (Some ps)
  let ?s = "(add_refused ps ss)\<lparr>ss_bracket := map_option (bracket_note (ps_sent ps)) (ss_bracket (add_refused ps ss))\<rparr>"
  have "(spent :: nat in_check) ss = (Inr (ps_sent ps), ?s)" "ps_sent ps = sent_by (ss_sender ss)"
    by (simp_all add: spent_def sent_by_def Let_def Some)
  then show thesis by (rule that) (simp add: add_refused_def)
qed

lemma close_spent_Inr:
  assumes "close_spent env row_id verd reason ss = (Inr (), ss')" "in_flight s0 ss"
    and "st_check_runs (ss_store s0) = rows @ [r]" "cr_id r = row_id" "row_id \<notin> set (map cr_id rows)" "verd \<noteq> u ''pending''"
  obtains r' where "st_check_runs (ss_store ss') = rows @ [r']" "cr_run r' = cr_run r" "row_key r' = row_key r" "closed_row r'"
    "cr_requests_sent r' + int (issued_calls (ss_wire s0)) = int (issued_calls (ss_wire ss'))"
    "ss_checks_run ss' = ss_checks_run s0" "wi_answer (ss_wire ss') = wi_answer (ss_wire s0)"
    "ss_canary_requests ss' = ss_canary_requests s0"
proof -
  obtain n s where s: "(spent :: nat in_check) ss = (Inr n, s)" "n = sent_by (ss_sender ss)" "books s = books ss"
    by (rule spent_cases)
  with assms(1) have c: "close_row env row_id verd reason n s = (Inr (), ss')" by (simp add: close_spent_def sbind_def)
  have "in_flight s0 s" by (rule in_flight_books [OF assms(2) s(3)])
  then have k: "st_check_runs (ss_store s) = rows @ [r]" "ss_checks_run s = ss_checks_run s0"
    "ss_canary_requests s = ss_canary_requests s0" "wi_answer (ss_wire s) = wi_answer (ss_wire s0)"
    "n + issued_calls (ss_wire s0) = issued_calls (ss_wire s)"
    using assms(3) s by (simp_all add: in_flight_def books_def)
  obtain r' where r: "st_check_runs (ss_store ss') = rows @ [r']" "cr_run r' = cr_run r"
    "row_key r' = row_key r" "closed_row r'" "cr_requests_sent r' = int n"
    "ss_checks_run ss' = ss_checks_run s" "ss_wire ss' = ss_wire s" "ss_canary_requests ss' = ss_canary_requests s"
    by (rule close_row_Inr [OF c k(1) assms(4-6)])
  show thesis by (rule that [OF r(1-4)]) (use r k in auto)
qed

lemma run_check_row_files:
  assumes "run_check_row env rid identity surface exchanges ck ss = (Inr (), ss')"
  shows "\<exists>row. filed rid [row] ss ss' \<and> row_key row = (Some (sf_id surface), cd_id (ck_decl ck))"
proof -
  from assms obtain row_id s1 where o: "open_row env rid surface (ck_decl ck) ss = (Inr row_id, s1)"
    and rest: "sbind (modify (\<lambda>ss. ss\<lparr>ss_checks_run := ss_checks_run ss + 1, ss_sender := None\<rparr>)) (\<lambda>_ ss.
       case attempt env rid identity surface exchanges ck row_id ss of
         (r, ss') \<Rightarrow> settle_row env row_id r ss') s1 = (Inr (), ss')"
    unfolding run_check_row_def by (rule sbind_InrE)
  define s2 where "s2 = s1\<lparr>ss_checks_run := ss_checks_run s1 + 1, ss_sender := None\<rparr>"
  obtain x s3 where a: "attempt env rid identity surface exchanges ck row_id s2 = (x, s3)" by (metis prod.exhaust)
  with rest have settle: "settle_row env row_id x s3 = (Inr (), ss')" by (simp add: sbind_def modify_def s2_def)
  obtain r where r: "st_check_runs (ss_store s2) = st_check_runs (ss_store ss) @ [r]" "cr_id r = row_id" "cr_run r = rid"
    "row_key r = (Some (sf_id surface), cd_id (ck_decl ck))" "row_id \<notin> set (map cr_id (st_check_runs (ss_store ss)))"
    "ss_checks_run s2 = ss_checks_run ss + 1" "ss_wire s2 = ss_wire ss" "ss_canary_requests s2 = ss_canary_requests ss"
    by (rule open_row_Inr [OF o]) (simp add: s2_def)
  have "ss_sender s2 = None" by (simp add: s2_def)
  from a this show ?thesis
  proof (cases rule: attempt_cases)
    case (skipped key why s)
    have "u ''skipped'' \<noteq> u ''pending''" by (simp add: literals)
    obtain r' where r': "st_check_runs (ss_store s) = st_check_runs (ss_store ss) @ [r']"
      "cr_run r' = cr_run r" "row_key r' = row_key r" "closed_row r'" "cr_requests_sent r' = int 0"
      "ss_checks_run s = ss_checks_run s2" "ss_wire s = ss_wire s2" "ss_canary_requests s = ss_canary_requests s2"
      by (rule close_row_Inr [OF skipped(2) r(1,2,5) \<open>u ''skipped'' \<noteq> u ''pending''\<close>])
    have "ss' = s3" using settle skipped(1) by (simp add: settle_row_def)
    with r r' skipped(3) have "filed rid [r'] ss ss'" by (simp add: filed_def count_skip_def)
    with r(4) r'(3) show ?thesis by auto
  next
    case tried
    obtain verd reason where c: "close_spent env row_id verd reason s3 = (Inr (), ss')" "verd \<noteq> u ''pending''"
    proof (cases x)
      case (Inl e)
      with settle that show thesis by (cases e) (auto simp: settle_row_def literals)
    next
      case (Inr y)
      with tried(1) obtain v where "y = Some v" by (cases y) auto
      with Inr settle a that show thesis by (auto simp: settle_row_def dest: attempt_verdict)
    qed
    obtain r' where r': "st_check_runs (ss_store ss') = st_check_runs (ss_store ss) @ [r']"
      "cr_run r' = cr_run r" "row_key r' = row_key r" "closed_row r'"
      "cr_requests_sent r' + int (issued_calls (ss_wire s2)) = int (issued_calls (ss_wire ss'))"
      "ss_checks_run ss' = ss_checks_run s2" "wi_answer (ss_wire ss') = wi_answer (ss_wire s2)"
      "ss_canary_requests ss' = ss_canary_requests s2"
      by (rule close_spent_Inr [OF c(1) tried(2) r(1,2,5) c(2)])
    with r have "filed rid [r'] ss ss'" by (simp add: filed_def)
    with r(4) r'(3) show ?thesis by auto
  qed
qed

section \<open>Coverage\<close>

text \<open>A program covers these keys if it files one row for each, in order, and, when the identity dies, for a
  first part of them. What an exception of another kind leaves is not promised.\<close>

type_synonym row_keys = "(pystr option \<times> pystr) list"

definition covering :: "pystr \<Rightarrow> row_keys \<Rightarrow> 'a in_scan \<Rightarrow> bool" where
  "covering rid keys m \<longleftrightarrow>
     (\<forall>ss r ss'. m ss = (r, ss') \<longrightarrow>
        (case r of
           Inr _ \<Rightarrow> \<exists>rows. filed rid rows ss ss' \<and> map row_key rows = keys
         | Inl (Dead _) \<Rightarrow> \<exists>rows rest. filed rid rows ss ss' \<and> map row_key rows @ rest = keys
         | Inl (Escaped _) \<Rightarrow> True))"

named_theorems covering_intros \<open>the coverage of a program from that of its parts\<close>

lemma covering_Inr: "covering rid keys m \<Longrightarrow> m ss = (Inr x, ss') \<Longrightarrow> \<exists>rows. filed rid rows ss ss' \<and> map row_key rows = keys"
  unfolding covering_def by fastforce

lemma covering_Dead:
  "covering rid keys m \<Longrightarrow> m ss = (Inl (Dead w), ss') \<Longrightarrow> \<exists>rows rest. filed rid rows ss ss' \<and> map row_key rows @ rest = keys"
  unfolding covering_def by fastforce

lemma coveringI:
  assumes "\<And>ss x ss'. m ss = (Inr x, ss') \<Longrightarrow> \<exists>rows. filed rid rows ss ss' \<and> map row_key rows = keys"
    and "\<And>ss w ss'. m ss = (Inl (Dead w), ss') \<Longrightarrow> \<exists>rows rest. filed rid rows ss ss' \<and> map row_key rows @ rest = keys"
  shows "covering rid keys m"
  unfolding covering_def using assms by (auto split: sum.split scan_exc.split)

lemma covering_quiet: "(\<And>B. keeps (\<lambda>ss. books ss = B) m) \<Longrightarrow> covering rid [] m"
  by (rule coveringI) (use filed_refl keeps_books in \<open>metis append_Nil list.map(1)\<close>)+

lemma covering_sret [covering_intros]: "covering rid [] (sret x)"
  by (rule covering_quiet) (rule keeps_intros)

lemma covering_sraise [covering_intros]: "covering rid [] (sraise e)"
  by (rule covering_quiet) (rule keeps_intros)

lemma covering_bind:
  assumes "covering rid k1 m" "\<And>x. covering rid k2 (f x)"
  shows "covering rid (k1 @ k2) (sbind m f)"
proof (rule coveringI)
  fix ss x ss' assume "sbind m f ss = (Inr x, ss')"
  then obtain y s where "m ss = (Inr y, s)" "f y s = (Inr x, ss')" by (rule sbind_InrE)
  with covering_Inr [OF assms(1)] covering_Inr [OF assms(2)] obtain r1 r2 where
    "filed rid r1 ss s" "map row_key r1 = k1" "filed rid r2 s ss'" "map row_key r2 = k2" by metis
  then show "\<exists>rows. filed rid rows ss ss' \<and> map row_key rows = k1 @ k2" by (metis filed_trans map_append)
next
  fix ss w ss' assume "sbind m f ss = (Inl (Dead w), ss')"
  then show "\<exists>rows rest. filed rid rows ss ss' \<and> map row_key rows @ rest = k1 @ k2"
  proof (rule sbind_InlE)
    assume "m ss = (Inl (Dead w), ss')"
    with covering_Dead [OF assms(1)] obtain rows rest where "filed rid rows ss ss'" "map row_key rows @ rest = k1" by blast
    then show ?thesis by (metis append.assoc)
  next
    fix y s assume "m ss = (Inr y, s)" "f y s = (Inl (Dead w), ss')"
    with covering_Inr [OF assms(1)] covering_Dead [OF assms(2)] obtain r1 r2 rest where
      "filed rid r1 ss s" "map row_key r1 = k1" "filed rid r2 s ss'" "map row_key r2 @ rest = k2" by metis
    then show ?thesis by (metis append.assoc filed_trans map_append)
  qed
qed

lemma covering_first [covering_intros]: "covering rid [] m \<Longrightarrow> (\<And>x. covering rid keys (f x)) \<Longrightarrow> covering rid keys (sbind m f)"
  using covering_bind [of rid "[]" m keys f] by simp

lemma covering_last: "covering rid keys m \<Longrightarrow> (\<And>x. covering rid [] (f x)) \<Longrightarrow> covering rid keys (sbind m f)"
  using covering_bind [of rid keys m "[]" f] by simp

lemma covering_sfor: "(\<And>x. x \<in> set xs \<Longrightarrow> covering rid (k x) (f x)) \<Longrightarrow> covering rid (concat (map k xs)) (sfor f xs)"
  by (induction xs) (auto intro: covering_sret covering_bind)

lemma covering_if [covering_intros]: "(c \<Longrightarrow> covering rid keys m) \<Longrightarrow> (\<not> c \<Longrightarrow> covering rid keys n) \<Longrightarrow> covering rid keys (if c then m else n)"
  by simp

lemma covering_escaping:
  assumes "\<And>ss x ss'. m ss = (Inr x, ss') \<Longrightarrow> \<exists>rows. filed rid rows ss ss' \<and> map row_key rows = keys"
  shows "covering rid keys (escaping m)"
  using assms by (intro coveringI) (auto simp: escaping_def split: prod.splits sum.splits)

lemma covering_reads [covering_intros]: "covering rid [] (reads f)"
  by (rule covering_quiet) (simp add: keeps_def reads_def)

lemma covering_prod [covering_intros]: "(\<And>x y. covering rid keys (f x y)) \<Longrightarrow> covering rid keys (case p of (x, y) \<Rightarrow> f x y)"
  by (cases p) simp

lemma covering_option [covering_intros]:
  "(p = None \<Longrightarrow> covering rid keys m) \<Longrightarrow> (\<And>x. p = Some x \<Longrightarrow> covering rid keys (f x))
   \<Longrightarrow> covering rid keys (case p of None \<Rightarrow> m | Some x \<Rightarrow> f x)"
  by (cases p) simp_all

section \<open>The bracket's own requests\<close>

lemma covering_run_canary [covering_intros]: "covering rid [] (run_canary bk)"
proof -
  have "filed rid [] ss ss'" if "run_canary bk ss = (r, ss')" for r ss ss'
  proof -
    obtain x ps w where c: "canary (id_liveness (bk_decl bk)) (fresh_sender bk) (ss_wire ss) = (x, ps, w)" by (metis prod_cases3)
    have "ps_sent (fresh_sender bk) = 0" by (simp add: fresh_sender_def new_sender_def split: prod.split)
    with canary_in_step [OF c] have "wi_answer w = wi_answer (ss_wire ss)" "ps_sent ps + issued_calls (ss_wire ss) = issued_calls w"
      by (simp_all add: in_step_def)
    moreover have "ss' = add_refused ps (ss\<lparr>ss_wire := w, ss_canary_requests := ss_canary_requests ss + ps_sent ps\<rparr>)"
      using that c by (auto simp: run_canary_def Let_def split: sum.splits)
    ultimately show ?thesis by (simp add: filed_def add_refused_def)
  qed
  then show ?thesis by (intro coveringI) auto
qed

lemma covering_register [covering_intros]: "covering rid [] (register_identity env bk)"
proof -
  have "filed rid [] ss ss'" if "register_identity env bk ss = (r, ss')" for r ss ss'
    using that by (auto simp: register_identity_def filed_def issued_calls_append split: option.splits)
  then show ?thesis by (intro coveringI) auto
qed

lemma covering_keep_bracket [covering_intros]: "covering rid [] (keep_bracket bk)"
  unfolding keep_bracket_def by (rule covering_quiet) (auto intro: keeps_modify)

lemma covering_settle [covering_intros]: "covering rid [] (settle env bk)"
  unfolding settle_def Let_def by (intro covering_intros)

lemma covering_bracket_start [covering_intros]: "covering rid [] (bracket_start env bk)"
  unfolding bracket_start_def by (intro covering_intros)

lemma covering_canary_if_due [covering_intros]: "covering rid [] (canary_if_due env)"
  unfolding canary_if_due_def Let_def by (intro covering_intros)

lemma covering_bracket_finish [covering_intros]: "covering rid [] bracket_finish"
  unfolding bracket_finish_def by (intro covering_intros)

lemma covering_start_bracket [covering_intros]: "covering rid [] (start_bracket env br)"
  unfolding start_bracket_def by (intro covering_intros)

lemma covering_identity_bracket [covering_intros]: "covering rid [] (identity_bracket env checks surfaces)"
  unfolding identity_bracket_def resolve_scan_identity_def declared_identity_def of_identity_def raised_def
  by (intro covering_intros)

section \<open>The checks of a surface\<close>

abbreviation check_key :: "surface_row \<Rightarrow> scan_check \<Rightarrow> pystr option \<times> pystr" where
  "check_key surface ck \<equiv> (Some (sf_id surface), cd_id (ck_decl ck))"

lemma covering_one_check: "covering rid [check_key surface ck] (one_check env rid identity surface exchanges ck)"
proof -
  have "covering rid [check_key surface ck] (escaping (run_check_row env rid identity surface exchanges ck))"
  proof (rule covering_escaping)
    fix ss x ss' assume "run_check_row env rid identity surface exchanges ck ss = (Inr x, ss')"
    then obtain row where "filed rid [row] ss ss'" "row_key row = check_key surface ck"
      using run_check_row_files by (metis unit.exhaust)
    then show "\<exists>rows. filed rid rows ss ss' \<and> map row_key rows = [check_key surface ck]" by (intro exI [of _ "[row]"]) simp
  qed
  then show ?thesis unfolding one_check_def by (intro covering_intros)
qed

lemma skip_one_files:
  assumes "skip_one env rid surface reason ck ss = (Inr (), ss')"
  shows "\<exists>row. filed rid [row] ss ss' \<and> row_key row = check_key surface ck"
proof -
  from assms obtain row_id s1 s3 where o: "open_row env rid surface (ck_decl ck) ss = (Inr row_id, s1)"
    and c: "close_row env row_id (u ''skipped'') (Some reason) 0 (s1\<lparr>ss_checks_run := ss_checks_run s1 + 1\<rparr>) = (Inr (), s3)"
    and fin: "ss' = s3\<lparr>ss_by_reason := add_count reason 1 (ss_by_reason s3)\<rparr>"
    by (auto simp: skip_one_def sbind_def modify_def split: prod.splits sum.splits)
  obtain r where r: "st_check_runs (ss_store s1) = st_check_runs (ss_store ss) @ [r]" "cr_id r = row_id" "cr_run r = rid"
    "row_key r = check_key surface ck" "row_id \<notin> set (map cr_id (st_check_runs (ss_store ss)))"
    "ss_checks_run s1 = ss_checks_run ss" "ss_wire s1 = ss_wire ss" "ss_canary_requests s1 = ss_canary_requests ss"
    by (rule open_row_Inr [OF o])
  have rows: "st_check_runs (ss_store (s1\<lparr>ss_checks_run := ss_checks_run s1 + 1\<rparr>)) = st_check_runs (ss_store ss) @ [r]"
    "u ''skipped'' \<noteq> u ''pending''" using r by (simp_all add: literals)
  obtain r' where "st_check_runs (ss_store s3) = st_check_runs (ss_store ss) @ [r']" "cr_run r' = cr_run r" "row_key r' = row_key r"
    "closed_row r'" "cr_requests_sent r' = int 0" "ss_checks_run s3 = ss_checks_run (s1\<lparr>ss_checks_run := ss_checks_run s1 + 1\<rparr>)"
    "ss_wire s3 = ss_wire (s1\<lparr>ss_checks_run := ss_checks_run s1 + 1\<rparr>)"
    "ss_canary_requests s3 = ss_canary_requests (s1\<lparr>ss_checks_run := ss_checks_run s1 + 1\<rparr>)"
    by (rule close_row_Inr [OF c rows(1) r(2,5) rows(2)])
  with r fin have "filed rid [r'] ss ss' \<and> row_key r' = check_key surface ck" by (simp add: filed_def)
  then show ?thesis by blast
qed

lemma covering_skip_rest: "covering rid (map (check_key surface) checks) (escaping (skip_rest env rid surface checks reason))"
proof (rule covering_escaping)
  fix ss x ss' assume "skip_rest env rid surface checks reason ss = (Inr x, ss')"
  then obtain s where s: "sfor (skip_one env rid surface reason) checks ss = (Inr (), s)"
    "ss' = s\<lparr>ss_skipped := ss_skipped s + length checks\<rparr>"
    by (auto simp: skip_rest_def sbind_def modify_def split: prod.splits sum.splits)
  have "\<exists>rows. filed rid rows ss s \<and> map row_key rows = map (check_key surface) checks"
    using s(1)
  proof (induction checks arbitrary: ss)
    case Nil
    then show ?case by (auto intro: filed_refl)
  next
    case (Cons ck cks)
    then obtain s1 where "skip_one env rid surface reason ck ss = (Inr (), s1)" "sfor (skip_one env rid surface reason) cks s1 = (Inr (), s)"
      by (auto elim: sbind_InrE)
    with Cons.IH skip_one_files [of env rid surface reason ck ss s1] obtain row rows where
      f: "filed rid [row] ss s1" "row_key row = check_key surface ck" "filed rid rows s1 s" "map row_key rows = map (check_key surface) cks"
      by blast
    from filed_trans [OF f(1,3)] f(2,4) show ?case by (intro exI [of _ "[row] @ rows"]) simp
  qed
  then obtain rows where "filed rid rows ss s" "map row_key rows = map (check_key surface) checks" by blast
  moreover from this(1) have "filed rid rows ss ss'" by (simp add: filed_def s(2))
  ultimately show "\<exists>rows. filed rid rows ss ss' \<and> map row_key rows = map (check_key surface) checks" by blast
qed

definition surface_keys :: "scan_env \<Rightarrow> scan_check list \<Rightarrow> surface_row \<Rightarrow> row_keys" where
  "surface_keys env checks surface = (if en_selected env surface then map (check_key surface) checks else [])"

lemma covering_one_surface: "covering rid (surface_keys env checks surface) (one_surface env rid identity deadline checks surface)"
proof -
  have loop: "covering rid (map (check_key surface) checks) (sfor (one_check env rid identity surface exchanges) checks)" for exchanges
    using covering_sfor [of checks rid "\<lambda>ck. [check_key surface ck]" "one_check env rid identity surface exchanges"]
      covering_one_check by (simp add: concat_map_singleton)
  have quiet: "covering rid [] (past_deadline env deadline)" "covering rid [] (now_us env :: int in_scan)"
    "covering rid [] (modify (\<lambda>ss. ss\<lparr>ss_surfaces := ss_surfaces ss + 1\<rparr>) :: unit in_scan)"
    "covering rid [] (modify (\<lambda>ss. ss\<lparr>ss_store := heartbeat r at (ss_store ss)\<rparr>) :: unit in_scan)" for r at
    by (rule covering_quiet, simp add: keeps_def past_deadline_def books_def now_us_def modify_def heartbeat_def
        update_runs_def split: option.split)+
  show ?thesis
    unfolding one_surface_def surface_keys_def
    by (simp, intro conjI impI covering_intros quiet covering_skip_rest loop)
qed

section \<open>The whole scan\<close>

lemma covering_db [covering_intros]: "keeps_rows m \<Longrightarrow> covering rid [] (escaping (on_db m))"
  by (intro covering_quiet keeps_escaping keeps_books_db)

lemma covering_modify: "(\<And>ss. books (f ss) = books ss) \<Longrightarrow> covering rid [] (modify f)"
  by (intro covering_quiet keeps_modify) simp

lemma run_rows: "keeps_rows (record_identity rid i g st)" "keeps_rows (close_run rid at st why)"
  "keeps_rows (current_run nid e k p at)"
  by (auto simp: keeps_rows_def keeps_def record_identity_def close_run_def current_run_def open_run_def end_run_def
      update_runs_def sbind_def split: option.split prod.split sum.split)

lemma covering_file_identity [covering_intros]: "covering rid [] (file_identity r state)"
  unfolding file_identity_def by (intro covering_intros covering_modify run_rows) simp

lemma rows_observations: "keeps_rows (transaction (sfor (\<lambda>f. record_observation (g f)) fs))"
  unfolding keeps_rows_def by (intro allI keeps_intros finding_writes_rows)

lemma covering_mark_unobserved: "covering rid [] (escaping (mark_unobserved env r))"
proof (rule covering_quiet)
  fix B
  have reads: "keeps P (reads f)" for P :: "scan_state \<Rightarrow> bool" and f :: "scan_state \<Rightarrow> 'x"
    by (simp add: keeps_def reads_def)
  show "keeps (\<lambda>ss. books ss = B) (escaping (mark_unobserved env r))"
    unfolding mark_unobserved_def
    by (intro keeps_intros reads keeps_now_us keeps_books_db rows_observations) simp
qed

definition all_keys :: "scan_env \<Rightarrow> scan_check list \<Rightarrow> store \<Rightarrow> row_keys" where
  "all_keys env checks s = concat (map (surface_keys env checks) (surfaces_in_order (en_engagement env) s))"

lemma covering_scan_surfaces:
  "covering rid (concat (map (surface_keys env checks) surfaces)) (scan_surfaces env checks rid deadline surfaces)"
proof -
  have "covering rid (concat (map (surface_keys env checks) surfaces)) (scan_bracketed env checks rid deadline surfaces br)" for br
    unfolding scan_bracketed_def
    by (intro covering_first covering_intros covering_last [OF covering_sfor [OF covering_one_surface]])
  then show ?thesis
    unfolding scan_surfaces_def by (intro covering_first covering_intros covering_last covering_mark_unobserved)
qed

text \<open>Neither way of closing a run can fail.\<close>

lemma close_scan_closes:
  assumes "status \<in> set RUN_STATUSES"
  obtains at where "close_scan env rid status reason ss =
    (Inr (), ss\<lparr>ss_ticks := Suc (ss_ticks ss), ss_store := end_run rid at status (reason ss) (ss_store ss)\<rparr>)"
  using assms by (simp add: close_scan_def reads_def now_us_def sbind_def escaping_def on_db_def close_run_def)

lemma file_identity_ok:
  assumes "\<And>bk. state bk \<in> set IDENTITY_STATES"
  obtains s where "file_identity rid state ss = (Inr (), s)"
  using assms
  by (cases "ss_bracket ss")
    (auto simp: file_identity_def reads_def sbind_def modify_def escaping_def on_db_def record_identity_def)

lemma run_ended:
  assumes "r \<in> set (st_runs (end_run rid at status why s))" "status \<noteq> u ''running''" "run_id r = rid"
  shows "\<not> running r"
proof -
  let ?f = "\<lambda>q. if run_id q = rid \<and> running q
      then q\<lparr>run_status := status, run_ended_us := Some at, run_stop_reason := why\<rparr> else q"
  have "st_runs (end_run rid at status why s) = map ?f (st_runs s)" by (simp add: end_run_def update_runs_def)
  with assms(1) have "r \<in> ?f ` set (st_runs s)" by simp
  then obtain q where q: "r = ?f q" by blast
  show ?thesis
    using assms(2,3) by (cases "run_id q = rid \<and> running q") (auto simp: q running_def)
qed

lemma stop_scan_ends:
  obtains s1 at where "file_identity rid (\<lambda>_. case e of Dead _ \<Rightarrow> u ''dead'' | Escaped _ \<Rightarrow> u ''assumed'') ss = (Inr (), s1)"
    "stop_scan env rid e ss = (Inl e,
      s1\<lparr>ss_ticks := Suc (ss_ticks s1), ss_store := end_run rid at (u ''error'') (Some (stop_text e s1)) (ss_store s1)\<rparr>)"
proof -
  have "(case e of Dead _ \<Rightarrow> u ''dead'' | Escaped _ \<Rightarrow> u ''assumed'') \<in> set IDENTITY_STATES"
    by (simp add: IDENTITY_STATES_def split: scan_exc.split)
  then obtain s1 where f: "file_identity rid (\<lambda>_. case e of Dead _ \<Rightarrow> u ''dead'' | Escaped _ \<Rightarrow> u ''assumed'') ss = (Inr (), s1)"
    by (rule file_identity_ok)
  have "u ''error'' \<in> set RUN_STATUSES" by (simp add: RUN_STATUSES_def)
  then obtain at where "close_scan env rid (u ''error'') (\<lambda>ss. Some (stop_text e ss)) s1 = (Inr (),
      s1\<lparr>ss_ticks := Suc (ss_ticks s1), ss_store := end_run rid at (u ''error'') (Some (stop_text e s1)) (ss_store s1)\<rparr>)"
    by (rule close_scan_closes)
  with f show thesis by (intro that) (simp_all add: stop_scan_def sbind_def)
qed

lemma filed_end_run: "filed rid rows ss s1 \<Longrightarrow> filed rid rows ss (s1\<lparr>ss_ticks := n, ss_store := end_run r at st why (ss_store s1)\<rparr>)"
  by (simp add: filed_def end_run_def update_runs_def)

lemma scan_in_run_covers:
  assumes "scan_in_run env checks rid deadline ss = (r, ss')"
  shows "case r of
      Inr _ \<Rightarrow> \<exists>rows. filed rid rows ss ss' \<and> map row_key rows = all_keys env checks (ss_store ss)
    | Inl (Dead _) \<Rightarrow> \<exists>rows rest. filed rid rows ss ss' \<and> map row_key rows @ rest = all_keys env checks (ss_store ss)
    | Inl (Escaped _) \<Rightarrow> True"
proof -
  let ?m = "scan_surfaces env checks rid deadline (surfaces_in_order (en_engagement env) (ss_store ss))"
  have c: "covering rid (all_keys env checks (ss_store ss)) ?m"
    unfolding all_keys_def by (rule covering_scan_surfaces)
  obtain x s0 where m: "?m ss = (x, s0)" by (metis prod.exhaust)
  show ?thesis
  proof (cases x)
    case (Inl e)
    obtain s1 at where f: "file_identity rid (\<lambda>_. case e of Dead _ \<Rightarrow> u ''dead'' | Escaped _ \<Rightarrow> u ''assumed'') s0 = (Inr (), s1)"
      and s: "stop_scan env rid e s0 = (Inl e,
        s1\<lparr>ss_ticks := Suc (ss_ticks s1), ss_store := end_run rid at (u ''error'') (Some (stop_text e s1)) (ss_store s1)\<rparr>)"
      by (rule stop_scan_ends)
    have r: "r = Inl e"
      "ss' = s1\<lparr>ss_ticks := Suc (ss_ticks s1), ss_store := end_run rid at (u ''error'') (Some (stop_text e s1)) (ss_store s1)\<rparr>"
      using assms Inl m s by (simp_all add: scan_in_run_def)
    show ?thesis
    proof (cases e)
      case (Dead w)
      with Inl m have "?m ss = (Inl (Dead w), s0)" by simp
      from covering_Dead [OF c this] obtain rows rest where
        "filed rid rows ss s0" "map row_key rows @ rest = all_keys env checks (ss_store ss)" by blast
      moreover from covering_Inr [OF covering_file_identity f] have "filed rid [] s0 s1" by simp
      ultimately have "filed rid rows ss s1" using filed_trans by fastforce
      then have "filed rid rows ss ss'" unfolding r by (rule filed_end_run)
      with \<open>map row_key rows @ rest = _\<close> r Dead show ?thesis by auto
    qed (simp add: r)
  next
    case (Inr y)
    have "u ''completed'' \<in> set RUN_STATUSES" by (simp add: RUN_STATUSES_def)
    then obtain at where "close_scan env rid (u ''completed'') truncated s0 =
        (Inr (), s0\<lparr>ss_ticks := Suc (ss_ticks s0), ss_store := end_run rid at (u ''completed'') (truncated s0) (ss_store s0)\<rparr>)"
      by (rule close_scan_closes)
    with assms Inr m have r: "r = Inr ()"
      "ss' = s0\<lparr>ss_ticks := Suc (ss_ticks s0), ss_store := end_run rid at (u ''completed'') (truncated s0) (ss_store s0)\<rparr>"
      by (simp_all add: scan_in_run_def)
    from Inr m covering_Inr [OF c] obtain rows where "filed rid rows ss s0" "map row_key rows = all_keys env checks (ss_store ss)"
      by blast
    then show ?thesis unfolding r using filed_end_run by fastforce
  qed
qed

lemma current_run_surfaces: "st_surfaces (snd (current_run nid e k p at s)) = st_surfaces s"
  by (simp add: current_run_def open_run_def close_run_def end_run_def update_runs_def sbind_def split: option.split)

text \<open>C21. Coverage is complete and the accounts balance. A scan that returns has filed one row for each selected surface
  and each enabled check, in order, none left pending, and as many as its summary says; a scan whose identity died has
  filed a first part of these. Either way the requests on those rows and the canaries are all the requests that left.\<close>

theorem scan_covers_everything:
  assumes "scan env checks ss = (r, ss')" "\<forall>e. r \<noteq> Inl (Escaped e)"
  shows "\<exists>rid rows rest. filed rid rows ss ss'
      \<and> map row_key rows @ rest = all_keys env (enabled_checks env checks) (ss_store ss) \<and> (r = Inr () \<longrightarrow> rest = [])"
proof (cases "enabled_checks env checks")
  case Nil
  have "all_keys env [] s = []" for s by (auto simp: all_keys_def surface_keys_def)
  with Nil assms(1) show ?thesis by (auto simp: scan_def intro: filed_refl)
next
  case (Cons c cs)
  let ?cks = "enabled_checks env checks"
  from assms(1) Cons have s: "sbind (fresh_id env) (\<lambda>nid. sbind (now_us env) (\<lambda>at.
      sbind (escaping (on_db (current_run nid (en_engagement env) (u ''scan'') (en_profile env) at))) (\<lambda>rid.
      sbind (deadline_of env) (\<lambda>deadline. scan_in_run env ?cks rid deadline)))) ss = (r, ss')"
    by (simp add: scan_def)
  define s1 where "s1 = ss\<lparr>ss_ids := Suc (ss_ids ss), ss_ticks := Suc (ss_ticks ss)\<rparr>"
  let ?open = "on_db (current_run (en_new_id env (ss_ids ss)) (en_engagement env) (u ''scan'') (en_profile env)
      (en_now env (ss_ticks ss)))"
  have s: "sbind (escaping ?open) (\<lambda>rid. sbind (deadline_of env) (\<lambda>deadline. scan_in_run env ?cks rid deadline)) s1 = (r, ss')"
    using s by (simp add: sbind_def fresh_id_def now_us_def s1_def)
  obtain x s2 where o: "?open s1 = (x, s2)" by (metis prod.exhaust)
  show ?thesis
  proof (cases x)
    case (Inl e)
    with s o assms(2) show ?thesis by (auto simp: sbind_def escaping_def)
  next
    case (Inr rid)
    obtain d s3 where d: "deadline_of env s2 = (Inr d, s3)" "books s3 = books s2" "ss_store s3 = ss_store s2"
      by (cases "en_max_seconds env") (auto simp: deadline_of_def)
    with s o Inr have run: "scan_in_run env ?cks rid d s3 = (r, ss')" by (simp add: sbind_def escaping_def)
    have "keeps (\<lambda>ss. books ss = books s1) ?open" by (rule keeps_books_db [OF run_rows(3)])
    then have "books s2 = books s1" using o by (rule keeps_books)
    then have b: "books s3 = books ss" by (simp add: d(2) s1_def)
    obtain s where "s2 = s1\<lparr>ss_store := s\<rparr>" "s = snd (current_run (en_new_id env (ss_ids ss)) (en_engagement env)
        (u ''scan'') (en_profile env) (en_now env (ss_ticks ss)) (ss_store s1))"
      using o by (rule on_db_cases)
    then have "st_surfaces (ss_store s3) = st_surfaces (ss_store ss)"
      by (simp add: d(3) s1_def current_run_surfaces)
    then have k: "all_keys env ?cks (ss_store s3) = all_keys env ?cks (ss_store ss)"
      by (simp add: all_keys_def surfaces_in_order_def)
    have f: "filed rid rows ss ss'" if "filed rid rows s3 ss'" for rows
      using filed_trans [OF filed_refl [OF b] that] by simp
    show ?thesis
    proof (cases r)
      case (Inl e)
      with assms(2) obtain w where "r = Inl (Dead w)" by (cases e) auto
      with scan_in_run_covers [OF run] f k show ?thesis by (auto simp: Cons)
    next
      case (Inr y)
      with scan_in_run_covers [OF run] f k show ?thesis by auto
    qed
  qed
qed

end
