(* ===== verification/Scan_Safety.thy ===== *)
theory Scan_Safety
  imports Scan_Laws
begin

text \<open>
  What a scan never does. The locale \<open>scan_invariant\<close> carries what the statements and requests of a scan keep over the
  whole of it; it is interpreted on the status of the runs, on the observations and on the bridge's log. From these:
  the run is closed however the scan ends; a finding is retired only by a check that ruled it out and, for an active
  check, only under an identity proven throughout and at the origin it was proven at; and nothing but
  canaries is sent before one has passed.
\<close>

section \<open>Invariants of the run of a scan\<close>

text \<open>The bridge's log only grows.\<close>

definition extends :: "wire \<Rightarrow> wire \<Rightarrow> bool" where
  "extends w w' \<longleftrightarrow> (\<exists>cs. wi_calls w' = wi_calls w @ cs) \<and> wi_answer w' = wi_answer w"

lemma extends_refl [simp]: "extends w w"
  by (simp add: extends_def)

lemma extends_trans: "extends w w' \<Longrightarrow> extends w' w'' \<Longrightarrow> extends w w''"
  by (auto simp: extends_def)

lemma extends_add: "extends w (w\<lparr>wi_calls := wi_calls w @ [c]\<rparr>)"
  by (simp add: extends_def)

lemma get_loop_extends: "get_loop n req raw ps w = (r, ps', w') \<Longrightarrow> extends w w'"
proof (induction n req raw ps w arbitrary: r ps' w' rule: get_loop.induct)
  case (2 left req raw ps w)
  let ?w = "w\<lparr>wi_calls := wi_calls w @ [SendCall req raw]\<rparr>"
  show ?case
  proof (cases "wi_answer w (length (wi_calls w))")
    case (SendError cls msg hint)
    let ?ps = "if error_class cls \<in> set NOT_ISSUED then ps else ps\<lparr>ps_sent := ps_sent ps + 1\<rparr>"
    show ?thesis
    proof (cases "error_class cls = u ''rate_limited'' \<and> has_retry_hint hint \<and> left > 0")
      case True
      with 2(2) SendError have "get_loop left req raw ?ps ?w = (r, ps', w')" by (simp add: wire_send_def Let_def)
      with 2(1) [OF _ SendError refl refl True] have "extends ?w w'" by (simp add: wire_send_def SendError)
      with extends_add show ?thesis by (rule extends_trans)
    next
      case False
      with 2(2) SendError have "w' = ?w" by (auto simp: wire_send_def Let_def split: if_splits)
      then show ?thesis by (simp add: extends_add)
    qed
  qed (use 2 extends_add in \<open>auto simp: wire_send_def split: prod.splits\<close>)
qed simp

lemma sender_get_extends: "sender_get path headers ps w = (r, ps', w') \<Longrightarrow> extends w w'"
  by (auto simp: sender_get_def split: if_splits option.splits dest: get_loop_extends)

lemma run_probing_extends: "run_probing p ps w = (r, ps', w') \<Longrightarrow> extends w w'"
proof (induction p arbitrary: ps w)
  case (Get path headers k)
  obtain x ps1 w1 where "sender_get path headers ps w = (x, ps1, w1)" by (metis prod_cases3)
  with Get.prems Get.IH [OF rangeI] show ?case by (fastforce intro: extends_trans dest: sender_get_extends)
qed simp_all

lemma canary_extends: "canary lv ps w = (r, ps', w') \<Longrightarrow> extends w w'"
  by (auto simp: canary_def split: prod.splits sum.splits check_exc.splits dest: sender_get_extends)

text \<open>What the statements and the requests of a scan keep, the scan keeps, up to the marking of findings at its end.\<close>

locale scan_invariant =
  fixes P :: "store \<Rightarrow> wire \<Rightarrow> bool"
  assumes request: "P s w \<Longrightarrow> extends w w' \<Longrightarrow> P s w'"
    and insert_row: "P s w \<Longrightarrow> P (snd (insert_check_run r s)) w"
    and end_row: "P s w \<Longrightarrow> P (snd (end_check_run row_id verd reason at n s)) w"
    and write_row: "P s w \<Longrightarrow> P (snd (finding_rows nid e key rid surface c f ids at s)) w"
    and beat: "P s w \<Longrightarrow> P (heartbeat rid at s) w"
    and identity_row: "P s w \<Longrightarrow> P (snd (record_identity rid i g st s)) w"
begin

abbreviation holds :: "scan_state \<Rightarrow> bool" where
  "holds ss \<equiv> P (ss_store ss) (ss_wire ss)"

lemma keeps_control: "(\<And>ss. ss_store (f ss) = ss_store ss \<and> ss_wire (f ss) = ss_wire ss) \<Longrightarrow> keeps holds (modify f)"
  by (simp add: keeps_def modify_def)

lemma keeps_db: "(\<And>s w. P s w \<Longrightarrow> P (snd (m s)) w) \<Longrightarrow> keeps holds (on_db m)"
  by (rule keeps_on_db) simp

lemma keeps_sources: "keeps holds (reads f)" "keeps holds (now_us env)" "keeps holds (fresh_id env)"
  "keeps holds (fresh_ids env n)" "keeps holds (past_deadline env d)"
  by (simp_all add: keeps_def reads_def now_us_def fresh_id_def fresh_ids_def past_deadline_def split: option.split)

lemma transaction_snd: "P s w \<Longrightarrow> P (snd (m s)) w \<Longrightarrow> P (snd (transaction m s)) w"
  by (auto simp: transaction_def split: prod.split sum.split)

lemma keeps_close_row: "keeps holds (close_row env row_id verd reason n)"
  unfolding close_row_def by (intro keeps_intros keeps_sources keeps_db transaction_snd end_row)

lemma keeps_open_row: "keeps holds (open_row env rid surface c)"
  unfolding open_row_def by (intro keeps_intros keeps_sources keeps_db transaction_snd insert_row)

lemma keeps_judge: "keeps holds (judge env rid surface c ret)"
proof -
  have f: "keeps holds (write_finding env rid surface c f)" for f
    unfolding write_finding_def by (intro keeps_intros keeps_sources keeps_db write_row)
  show ?thesis
    unfolding judge_def write_findings_def
    by (cases ret) (auto intro!: keeps_intros keeps_control f simp: note_finding_def offer_claims_def)
qed

lemma keeps_drive: "keeps holds (drive p ps)"
  unfolding keeps_def
proof (intro allI impI)
  fix ss assume h: "holds ss"
  obtain r ps' w where p: "run_probing p ps (ss_wire ss) = (r, ps', w)" by (metis prod_cases3)
  have "P (ss_store ss) w" by (rule request [OF h run_probing_extends [OF p]])
  then show "holds (snd (drive p ps ss))" by (simp add: drive_def p)
qed

lemma keeps_plan [keeps_intros]:
  "(\<And>key. keeps holds (f key)) \<Longrightarrow> (\<And>path pts. keeps holds (g path pts))
   \<Longrightarrow> keeps holds (case p of SkipCheck key \<Rightarrow> f key | Probe path pts \<Rightarrow> g path pts)"
  by (cases p) simp_all

lemma keeps_attempt: "keeps holds (attempt env rid identity surface exchanges ck row_id)"
  unfolding attempt_def Let_def skip_row_def
  by (intro keeps_intros keeps_control keeps_close_row keeps_drive keeps_judge) (simp_all add: count_skip_def)

lemma keeps_settle_row: "keeps holds (settle_row env row_id r)"
proof -
  have spent: "keeps holds (spent :: nat in_check)"
    by (auto simp: keeps_def spent_def Let_def add_refused_def split: option.split)
  have close: "keeps holds (close_spent env row_id verd reason)" for verd reason
    unfolding close_spent_def by (intro keeps_intros spent keeps_close_row)
  show ?thesis
    unfolding settle_row_def
    by (auto intro: keeps_intros close split: sum.split option.split check_exc.split)
qed

lemma keeps_run_check_row: "keeps holds (run_check_row env rid identity surface exchanges ck)"
proof -
  have "keeps holds (\<lambda>ss. case attempt env rid identity surface exchanges ck row_id ss of (r, ss') \<Rightarrow> settle_row env row_id r ss')"
    for row_id
    unfolding keeps_def
  proof (intro allI impI)
    fix ss assume h: "holds ss"
    obtain r s where a: "attempt env rid identity surface exchanges ck row_id ss = (r, s)" by (metis prod.exhaust)
    have "holds s" by (rule keepsD [OF keeps_attempt h a])
    then have "holds (snd (settle_row env row_id r s))" using keeps_settle_row unfolding keeps_def by blast
    then show "holds (snd (case attempt env rid identity surface exchanges ck row_id ss of (r, ss') \<Rightarrow> settle_row env row_id r ss'))"
      by (simp add: a)
  qed
  then show ?thesis
    unfolding run_check_row_def by (intro keeps_intros keeps_open_row keeps_control) simp_all
qed

lemma keeps_option [keeps_intros]:
  "(p = None \<Longrightarrow> keeps Q m) \<Longrightarrow> (\<And>x. p = Some x \<Longrightarrow> keeps Q (f x)) \<Longrightarrow> keeps Q (case p of None \<Rightarrow> m | Some x \<Rightarrow> f x)"
  by (cases p) simp_all

lemma keeps_prod [keeps_intros]: "(\<And>x y. keeps Q (f x y)) \<Longrightarrow> keeps Q (case p of (x, y) \<Rightarrow> f x y)"
  by (cases p) simp

lemma keeps_run_canary: "keeps holds (run_canary bk)"
  unfolding keeps_def
proof (intro allI impI)
  fix ss assume h: "holds ss"
  obtain r ps w where c: "canary (id_liveness (bk_decl bk)) (fresh_sender bk) (ss_wire ss) = (r, ps, w)" by (metis prod_cases3)
  have "P (ss_store ss) w" by (rule request [OF h canary_extends [OF c]])
  then show "holds (snd (run_canary bk ss))" by (simp add: run_canary_def c Let_def add_refused_def split: sum.split)
qed

lemma keeps_register: "keeps holds (register_identity env bk)"
  using request [OF _ extends_add] by (auto simp: keeps_def register_identity_def split: option.split)

lemma keeps_keep_bracket: "keeps holds (keep_bracket bk)"
  unfolding keep_bracket_def by (rule keeps_control) simp

lemmas keeps_bracket_steps = keeps_run_canary keeps_register keeps_keep_bracket keeps_sources

lemma keeps_settle: "keeps holds (settle env bk)"
  unfolding settle_def Let_def by (intro keeps_intros keeps_bracket_steps)

lemma keeps_bracket_start: "keeps holds (bracket_start env bk)"
  unfolding bracket_start_def by (intro keeps_intros keeps_bracket_steps keeps_settle)

lemma keeps_one_check: "keeps holds (one_check env rid identity surface exchanges ck)"
  unfolding one_check_def canary_if_due_def Let_def
  by (intro keeps_intros keeps_bracket_steps keeps_settle keeps_run_check_row)

lemma keeps_skip_rest: "keeps holds (skip_rest env rid surface checks reason)"
  unfolding skip_rest_def skip_one_def
  by (intro keeps_intros keeps_open_row keeps_close_row keeps_control) simp_all

lemma keeps_one_surface: "keeps holds (one_surface env rid identity deadline checks surface)"
proof -
  have b: "keeps holds (modify (\<lambda>ss. ss\<lparr>ss_store := heartbeat rid at (ss_store ss)\<rparr>))" for at
    by (rule keeps_modify) (simp add: beat)
  have c: "keeps holds (modify (\<lambda>ss. ss\<lparr>ss_surfaces := ss_surfaces ss + 1\<rparr>))"
    by (rule keeps_control) simp
  show ?thesis
    unfolding one_surface_def
    by (intro keeps_intros keeps_sources keeps_skip_rest keeps_one_check b c)
qed

lemma keeps_file_identity: "keeps holds (file_identity rid state)"
  unfolding file_identity_def
  by (intro keeps_intros keeps_sources keeps_control keeps_db identity_row) simp_all

lemma keeps_identity_bracket: "keeps holds (identity_bracket env checks surfaces)"
  unfolding identity_bracket_def resolve_scan_identity_def declared_identity_def of_identity_def raised_def
  by (intro keeps_intros keeps_sources)

lemma keeps_start_bracket: "keeps holds (start_bracket env br)"
  unfolding start_bracket_def by (intro keeps_intros keeps_bracket_steps keeps_bracket_start)

lemma keeps_after_start: "keeps holds (sbind (reads identity_in_use) (\<lambda>identity.
    sbind (sfor (one_surface env rid identity deadline checks) surfaces) (\<lambda>_.
    sbind bracket_finish (\<lambda>_. file_identity rid state))))"
  unfolding bracket_finish_def
  by (intro keeps_intros keeps_sources keeps_one_surface keeps_bracket_steps keeps_file_identity)

lemma keeps_scan_bracketed: "keeps holds (scan_bracketed env checks rid deadline surfaces br)"
  unfolding scan_bracketed_def by (intro keeps_sbind keeps_start_bracket keeps_after_start)

end

section \<open>The run is closed\<close>

text \<open>The ids of the runs and how they stand.\<close>

definition standing :: "store \<Rightarrow> (pystr \<times> pystr) list" where
  "standing s = map (\<lambda>q. (run_id q, run_status q)) (st_runs s)"

lemma evidence_loop_keeps:
  "keeps (\<lambda>s. standing s = L \<and> st_observations s = B) (evidence_loop f role why at xs known n)"
  by (induction f role why at xs known n rule: evidence_loop.induct)
    (auto intro!: keeps_intros simp: insert_evidence_def standing_def keeps_def sbind_def split: prod.split sum.split)

lemma record_evidence_keeps: "keeps (\<lambda>s. standing s = L \<and> st_observations s = B) (record_evidence f xs at role why)"
  unfolding record_evidence_def
  by (rule keeps_transaction) (use evidence_loop_keeps in \<open>auto simp: keeps_def\<close>)

lemma finding_rows_standing: "keeps (\<lambda>s. standing s = L) (finding_rows nid e key rid surface c f ids at)"
proof -
  have "keeps (\<lambda>s. standing s = L) (upsert_finding nid e ca key rid sf h ch cb)" for ca sf h ch cb
    by (auto simp: keeps_def upsert_finding_def standing_def Let_def split: list.split)
  moreover have "keeps (\<lambda>s. standing s = L) (record_observation ob)" for ob
    by (auto simp: keeps_def record_observation_def standing_def)
  moreover have "keeps (\<lambda>s. standing s = L) (record_evidence fid xs at role why)" for fid xs at role why
    using record_evidence_keeps by (fastforce simp: keeps_def)
  ultimately show ?thesis
    unfolding finding_rows_def Let_def by (intro keeps_intros)
qed

lemma standing_update: "(\<And>q. run_id (f q) = run_id q \<and> run_status (f q) = run_status q) \<Longrightarrow> standing (update_runs sel f s) = standing s"
  by (auto simp: standing_def update_runs_def)

interpretation run_standing: scan_invariant "\<lambda>s w. standing s = L" for L
proof
  show "standing s = L \<Longrightarrow> standing (snd (finding_rows nid e key rid surface c f ids at s)) = L"
    for s nid e key rid surface c f ids at
    using finding_rows_standing by (auto simp: keeps_def)
  show "standing s = L \<Longrightarrow> standing (snd (insert_check_run r s)) = L" for s r
    by (auto simp: insert_check_run_def standing_def)
  show "standing s = L \<Longrightarrow> standing (snd (end_check_run row_id verd reason at n s)) = L" for s row_id verd reason at n
    by (auto simp: end_check_run_def standing_def)
qed (simp_all add: heartbeat_def record_identity_def standing_update)

lemma mark_unobserved_standing: "keeps (\<lambda>ss. standing (ss_store ss) = L) (mark_unobserved env rid)"
proof -
  have "keeps (\<lambda>s. standing s = L) (record_observation ob)" for ob
    by (auto simp: keeps_def record_observation_def standing_def)
  then have t: "keeps (\<lambda>s. standing s = L) (transaction (sfor (\<lambda>f. record_observation (g f)) fs))" for g fs
    by (intro keeps_transaction keeps_sfor)
  have "standing (snd (transaction (sfor (\<lambda>f. record_observation (g f)) fs) s)) = L" if "standing s = L" for g fs s
    by (rule keepsD [OF t that prod.collapse [symmetric]])
  then show ?thesis
    unfolding mark_unobserved_def
    by (intro keeps_intros run_standing.keeps_sources run_standing.keeps_db)
qed

lemma scan_surfaces_standing: "keeps (\<lambda>ss. standing (ss_store ss) = L) (scan_surfaces env checks rid deadline surfaces)"
  unfolding scan_surfaces_def
  by (intro keeps_intros run_standing.keeps_identity_bracket run_standing.keeps_scan_bracketed mark_unobserved_standing)

lemma end_run_row:
  assumes "(rid, u ''running'') \<in> set (standing s)"
  shows "\<exists>q \<in> set (st_runs (end_run rid at status why s)). run_id q = rid \<and> run_status q = status \<and> run_stop_reason q = why
    \<and> run_ended_us q = Some at"
proof -
  let ?f = "\<lambda>q. if run_id q = rid \<and> running q
      then q\<lparr>run_status := status, run_ended_us := Some at, run_stop_reason := why\<rparr> else q"
  have "(rid, u ''running'') \<in> (\<lambda>q. (run_id q, run_status q)) ` set (st_runs s)" using assms by (simp add: standing_def)
  then obtain q where "q \<in> set (st_runs s)" "(rid, u ''running'') = (run_id q, run_status q)" by (rule imageE)
  then have q: "q \<in> set (st_runs s)" "run_id q = rid" "running q" by (simp_all add: running_def)
  have "st_runs (end_run rid at status why s) = map ?f (st_runs s)" by (simp add: end_run_def update_runs_def)
  then have "set (st_runs (end_run rid at status why s)) = ?f ` set (st_runs s)" by simp
  then have "?f q \<in> set (st_runs (end_run rid at status why s))" by (simp only:) (rule imageI [OF q(1)])
  moreover from q(2,3) have "run_id (?f q) = rid" "run_status (?f q) = status" "run_stop_reason (?f q) = why" "run_ended_us (?f q) = Some at"
    by simp_all
  ultimately show ?thesis by (intro bexI [of _ "?f q"] conjI)
qed

lemma tallies_same: "tallies (ss\<lparr>ss_ticks := n, ss_store := s\<rparr>) = tallies ss"
  by (simp add: tallies_def)

lemma texts:
  "stop_text e (ss\<lparr>ss_ticks := n, ss_store := s\<rparr>) = stop_text e ss" "truncated (ss\<lparr>ss_ticks := n, ss_store := s\<rparr>) = truncated ss"
  by (simp_all add: stop_text_def truncated_def tallies_same split: scan_exc.split check_exc.split)

text \<open>C22. A scan closes the run it opened, whatever happens inside it. When the scan returns the run is \<open>completed\<close>,
  and truncation is named in its stop reason; when anything at all is raised, a dead identity, a store's
  refusal or an interrupt, the run is \<open>error\<close> with what was raised as its reason. No row of the run is left \<open>running\<close>.\<close>

theorem scan_closes_its_run:
  assumes "scan_in_run env checks rid deadline ss = (r, ss')" "(rid, u ''running'') \<in> set (standing (ss_store ss))"
  shows "(\<exists>q \<in> set (st_runs (ss_store ss')). run_id q = rid \<and> run_ended_us q \<noteq> None
      \<and> (case r of
           Inr _ \<Rightarrow> run_status q = u ''completed'' \<and> run_stop_reason q = truncated ss'
         | Inl e \<Rightarrow> run_status q = u ''error'' \<and> run_stop_reason q = Some (stop_text e ss')))
    \<and> (\<forall>q \<in> set (st_runs (ss_store ss')). run_id q = rid \<longrightarrow> \<not> running q)"
proof -
  let ?m = "scan_surfaces env checks rid deadline (surfaces_in_order (en_engagement env) (ss_store ss))"
  let ?L = "standing (ss_store ss)"
  obtain x s0 where m: "?m ss = (x, s0)" by (metis prod.exhaust)
  have s0: "standing (ss_store s0) = ?L" using keepsD [OF scan_surfaces_standing refl m] .
  show ?thesis
  proof (cases x)
    case (Inl e)
    obtain s1 at where f: "file_identity rid (\<lambda>_. case e of Dead _ \<Rightarrow> u ''dead'' | Escaped _ \<Rightarrow> u ''assumed'') s0 = (Inr (), s1)"
      and s: "stop_scan env rid e s0 = (Inl e,
        s1\<lparr>ss_ticks := Suc (ss_ticks s1), ss_store := end_run rid at (u ''error'') (Some (stop_text e s1)) (ss_store s1)\<rparr>)"
      by (rule stop_scan_ends)
    have "(r, ss') = stop_scan env rid e s0" using assms(1) Inl m by (simp add: scan_in_run_def)
    with s have "r = Inl e" "ss' = s1\<lparr>ss_ticks := Suc (ss_ticks s1),
        ss_store := end_run rid at (u ''error'') (Some (stop_text e s1)) (ss_store s1)\<rparr>" by simp_all
    then have r: "r = Inl e" "ss_store ss' = end_run rid at (u ''error'') (Some (stop_text e s1)) (ss_store s1)"
      "stop_text e ss' = stop_text e s1"
      by (simp_all only: texts) simp
    have "standing (ss_store s1) = ?L" using keepsD [OF run_standing.keeps_file_identity s0 f] .
    then have "(rid, u ''running'') \<in> set (standing (ss_store s1))" using assms(2) by simp
    from end_run_row [OF this, of at "u ''error''" "Some (stop_text e s1)"] run_ended [of _ rid at "u ''error''"] r
    show ?thesis by (auto simp: literals)
  next
    case (Inr y)
    have "u ''completed'' \<in> set RUN_STATUSES" by (simp add: RUN_STATUSES_def)
    then obtain at where c: "close_scan env rid (u ''completed'') truncated s0 =
        (Inr (), s0\<lparr>ss_ticks := Suc (ss_ticks s0), ss_store := end_run rid at (u ''completed'') (truncated s0) (ss_store s0)\<rparr>)"
      by (rule close_scan_closes)
    have "(r, ss') = close_scan env rid (u ''completed'') truncated s0" using assms(1) Inr m by (simp add: scan_in_run_def)
    with c have "r = Inr ()" "ss' = s0\<lparr>ss_ticks := Suc (ss_ticks s0),
        ss_store := end_run rid at (u ''completed'') (truncated s0) (ss_store s0)\<rparr>" by simp_all
    then have r: "r = Inr ()" "ss_store ss' = end_run rid at (u ''completed'') (truncated s0) (ss_store s0)" "truncated ss' = truncated s0"
      by (simp_all only: texts) simp
    have "(rid, u ''running'') \<in> set (standing (ss_store s0))" using assms(2) s0 by simp
    from end_run_row [OF this, of at "u ''completed''" "truncated s0"] run_ended [of _ rid at "u ''completed''"] r
    show ?thesis by (auto simp: literals)
  qed
qed

section \<open>Retiring findings\<close>

lemma upsert_by_cases: "r \<in> set (upsert_by key (\<lambda>_ new. new) row rows) \<Longrightarrow> r = row \<or> r \<in> set rows"
  by (auto simp: upsert_by_def split: if_splits)

text \<open>No finding is retired but those of \<open>O\<close>.\<close>

definition retired_in :: "observation_row set \<Rightarrow> store \<Rightarrow> bool" where
  "retired_in X s \<longleftrightarrow> (\<forall>ob \<in> set (st_observations s). ob_observed ob \<or> ob \<in> X)"

lemma retired_in_same: "st_observations s' = st_observations s \<Longrightarrow> retired_in X s \<Longrightarrow> retired_in X s'"
  by (simp add: retired_in_def)

lemma record_observation_retired: "ob_observed ob \<or> ob \<in> X \<Longrightarrow> keeps (retired_in X) (record_observation ob)"
  by (auto simp: keeps_def record_observation_def retired_in_def dest: upsert_by_cases)

lemma finding_rows_retired: "keeps (retired_in X) (finding_rows nid e key rid surface c f ids at)"
proof -
  have "keeps (retired_in X) (upsert_finding nid e ca key rid sf h ch cb)" for ca sf h ch cb
    by (auto simp: keeps_def upsert_finding_def retired_in_def Let_def split: list.split)
  moreover have "keeps (retired_in X) (record_evidence fid xs at role why)" for fid xs at role why
    unfolding keeps_def
  proof (intro allI impI)
    fix s assume "retired_in X s"
    moreover have "st_observations (snd (record_evidence fid xs at role why s)) = st_observations s"
      using keepsD [OF record_evidence_keeps [of "standing s" "st_observations s"] conjI [OF refl refl] prod.collapse [symmetric]]
      by (rule conjunct2)
    ultimately show "retired_in X (snd (record_evidence fid xs at role why s))" by (metis retired_in_same)
  qed
  ultimately show ?thesis
    unfolding finding_rows_def Let_def
    by (intro keeps_intros record_observation_retired) simp_all
qed

interpretation run_retired: scan_invariant "\<lambda>s w. retired_in X s" for X
proof
  show "retired_in X s \<Longrightarrow> retired_in X (snd (finding_rows nid e key rid surface c f ids at s))"
    for s nid e key rid surface c f ids at
    using finding_rows_retired by (simp add: keeps_def)
qed (simp_all add: insert_check_run_def end_check_run_def heartbeat_def record_identity_def update_runs_def retired_in_def)

text \<open>When the bracket is closed, the state it proved is the one filed.\<close>

lemma file_identity_filed:
  "file_identity rid state ss = (Inr (), ss') \<Longrightarrow>
     ss_bracket ss' = ss_bracket ss \<and> (case ss_bracket ss of None \<Rightarrow> True | Some bk \<Rightarrow> ss_identity_state ss' = Some (state bk))"
  by (cases "ss_bracket ss")
    (auto simp: file_identity_def reads_def sbind_def modify_def escaping_def on_db_def split: prod.splits sum.splits)

lemma scan_bracketed_filed:
  assumes "scan_bracketed env checks rid deadline surfaces br ss = (Inr (), ss')" "ss_bracket ss' = Some bk"
  shows "ss_identity_state ss' = Some (state_for_run (bk_window bk))"
proof -
  obtain s where "file_identity rid (\<lambda>bk. state_for_run (bk_window bk)) s = (Inr (), ss')"
    using assms(1) unfolding scan_bracketed_def by (elim sbind_InrE) blast
  from file_identity_filed [OF this] assms(2) show ?thesis by (simp split: option.splits)
qed

text \<open>The observations of a batch are all written or none.\<close>

lemma observations_written:
  assumes "sfor (\<lambda>f. record_observation (g f)) fs s = (r, s')" "retired_in X s"
  shows "retired_in (X \<union> g ` set fs) s'"
proof -
  have "keeps (retired_in (X \<union> g ` set gs)) (sfor (\<lambda>f. record_observation (g f)) fs)" if "set fs \<subseteq> set gs" for gs
    using that
  proof (induction fs)
    case (Cons f fs)
    then have "g f \<in> X \<union> g ` set gs" by simp
    with Cons show ?case by (auto intro!: keeps_intros record_observation_retired)
  qed (simp add: keeps_intros)
  from this [OF order_refl] have "keeps (retired_in (X \<union> g ` set fs)) (sfor (\<lambda>f. record_observation (g f)) fs)" .
  moreover have "retired_in (X \<union> g ` set fs) s" using assms(2) by (auto simp: retired_in_def)
  ultimately show ?thesis using assms(1) by (rule keepsD)
qed

lemma mark_unobserved_retires:
  assumes "mark_unobserved env rid ss = (r, ss')" "retired_in X (ss_store ss)"
  obtains n s at where "ss' = ss\<lparr>ss_ticks := n, ss_store := s\<rparr>" "st_findings s = st_findings (ss_store ss)"
    "retired_in (X \<union> {unobserved_row rid at f | f. r = Inr () \<and> f \<in> set (st_findings (ss_store ss))
        \<and> unobserved (en_engagement env) (ss_seen ss) (considered ss) f}) s"
proof (cases "considered ss = []")
  case True
  with assms that [where n = "ss_ticks ss" and s = "ss_store ss"] show thesis
    by (auto simp: mark_unobserved_def reads_def sbind_def retired_in_def)
next
  case False
  define at where "at = en_now env (ss_ticks ss)"
  define gone where "gone = filter (unobserved (en_engagement env) (ss_seen ss) (considered ss)) (st_findings (ss_store ss))"
  let ?m = "sfor (\<lambda>f. record_observation (unobserved_row rid at f)) gone"
  obtain x s where m: "?m (ss_store ss) = (x, s)" by (metis prod.exhaust)
  have f: "keeps (\<lambda>s. st_findings s = L) ?m" for L
    by (intro keeps_sfor) (simp add: keeps_def record_observation_def)
  have o: "mark_unobserved env rid ss = on_db (transaction ?m) (ss\<lparr>ss_ticks := Suc (ss_ticks ss)\<rparr>)"
    using False by (simp add: mark_unobserved_def reads_def now_us_def sbind_def at_def gone_def)
  show thesis
  proof (cases x)
    case (Inl e)
    with assms m o show thesis
      by (intro that [where n = "Suc (ss_ticks ss)" and s = "ss_store ss"]) (auto simp: on_db_def transaction_def retired_in_def)
  next
    case (Inr y)
    from observations_written [OF m assms(2)]
    have "retired_in (X \<union> unobserved_row rid at ` set gone) s" .
    moreover have "st_findings s = st_findings (ss_store ss)" by (rule keepsD [OF f refl m])
    moreover have "r = Inr ()" "ss' = ss\<lparr>ss_ticks := Suc (ss_ticks ss), ss_store := s\<rparr>"
      using assms(1) m o Inr by (simp_all add: on_db_def transaction_def)
    moreover have "unobserved_row rid at ` set gone = {unobserved_row rid at f | f. f \<in> set (st_findings (ss_store ss))
        \<and> unobserved (en_engagement env) (ss_seen ss) (considered ss) f}" by (auto simp: gone_def)
    ultimately show thesis by (intro that [where n = "Suc (ss_ticks ss)" and s = s and at = at]) simp_all
  qed
qed

text \<open>Why a finding may be retired: a check that ran on its surface in this scan named its issue type as ruled out, no
  check found it, and an active check's word counts only under an identity proven throughout, at the origin it was proven at.\<close>

definition ruled_out :: "scan_env \<Rightarrow> scan_state \<Rightarrow> finding_row \<Rightarrow> bool" where
  "ruled_out env ss f \<longleftrightarrow>
     fi_engagement f = en_engagement env \<and> fi_id f \<notin> set (ss_seen ss)
     \<and> (\<exists>x \<in> set (ss_offered ss). fi_surface f = Some (of_surface x) \<and> fi_check f = Some (of_check x)
          \<and> fi_issue_type f \<in> set (of_considered x)
          \<and> (of_hook x = u ''probes'' \<longrightarrow>
               (\<exists>bk. ss_bracket ss = Some bk \<and> state_for_run (bk_window bk) = u ''proven'' \<and> bk_target bk = of_origin x)))"

lemma unobserved_ruled_out:
  assumes "unobserved (en_engagement env) (ss_seen ss) (considered ss) f"
    and "\<And>bk. ss_bracket ss = Some bk \<Longrightarrow> ss_identity_state ss = Some (state_for_run (bk_window bk))"
  shows "ruled_out env ss f"
proof -
  from assms(1) obtain s c where f: "fi_engagement f = en_engagement env" "fi_id f \<notin> set (ss_seen ss)"
    "fi_surface f = Some s" "fi_check f = Some c" "(s, c, fi_issue_type f) \<in> set (considered ss)"
    by (auto simp: unobserved_def split: option.splits)
  then obtain x where x: "x \<in> set (ss_offered ss)" "s = of_surface x" "c = of_check x"
    "fi_issue_type f \<in> set (retirable (ss_identity_state ss) (map_option bk_target (ss_bracket ss)) x)"
    by (auto simp: considered_def)
  then have "fi_issue_type f \<in> set (of_considered x) \<and> (of_hook x = u ''probes'' \<longrightarrow>
      (\<exists>bk. ss_bracket ss = Some bk \<and> state_for_run (bk_window bk) = u ''proven'' \<and> bk_target bk = of_origin x))"
    using assms(2) by (cases "ss_bracket ss") (auto simp: retirable_def split: if_splits)
  with f x show ?thesis by (auto simp: ruled_out_def)
qed

lemma ruled_out_same: "ruled_out env (ss\<lparr>ss_ticks := n, ss_store := s\<rparr>) f = ruled_out env ss f"
  by (simp add: ruled_out_def)

lemma end_run_rows: "st_observations (end_run rid at st why s) = st_observations s" "st_findings (end_run rid at st why s) = st_findings s"
  by (simp_all add: end_run_def update_runs_def)

definition retired_with_cause :: "scan_env \<Rightarrow> pystr \<Rightarrow> scan_state \<Rightarrow> observation_row \<Rightarrow> bool" where
  "retired_with_cause env rid ss ob \<longleftrightarrow>
     (\<exists>f \<in> set (st_findings (ss_store ss)). ob_finding ob = fi_id f \<and> ob_run ob = rid \<and> ruled_out env ss f)"

lemma scan_surfaces_retires:
  assumes "scan_surfaces env checks rid deadline surfaces ss = (r, ss')" "retired_in X (ss_store ss)"
  shows "retired_in (X \<union> {ob. r = Inr () \<and> retired_with_cause env rid ss' ob}) (ss_store ss')"
proof -
  obtain x s1 where i: "identity_bracket env checks surfaces ss = (x, s1)" by (metis prod.exhaust)
  have k1: "retired_in X (ss_store s1)" by (rule keepsD [OF run_retired.keeps_identity_bracket assms(2) i])
  show ?thesis
  proof (cases x)
    case (Inl e)
    with i assms(1) have "ss' = s1" by (simp add: scan_surfaces_def)
    with k1 show ?thesis by (auto simp: retired_in_def)
  next
    case (Inr br)
    obtain y s2 where b: "scan_bracketed env checks rid deadline surfaces br s1 = (y, s2)" by (metis prod.exhaust)
    have k2: "retired_in X (ss_store s2)" by (rule keepsD [OF run_retired.keeps_scan_bracketed k1 b])
    show ?thesis
    proof (cases y)
      case (Inl e)
      with i b Inr assms(1) have "ss' = s2" by (simp add: scan_surfaces_def)
      with k2 show ?thesis by (auto simp: retired_in_def)
    next
      case y: (Inr v)
      obtain z s3 where m: "mark_unobserved env rid s2 = (z, s3)" by (metis prod.exhaust)
      from m k2 obtain n s at where s3: "s3 = s2\<lparr>ss_ticks := n, ss_store := s\<rparr>" "st_findings s = st_findings (ss_store s2)"
        and o: "retired_in (X \<union> {unobserved_row rid at f | f. z = Inr () \<and> f \<in> set (st_findings (ss_store s2))
          \<and> unobserved (en_engagement env) (ss_seen s2) (considered s2) f}) s"
        by (rule mark_unobserved_retires)
      have r: "ss' = s3" "z = Inr () \<longleftrightarrow> r = Inr ()"
        using i b Inr y m assms(1) by (auto simp: scan_surfaces_def escaping_def split: sum.splits)
      have "retired_with_cause env rid s3 (unobserved_row rid at f)"
        if "f \<in> set (st_findings (ss_store s2))" "unobserved (en_engagement env) (ss_seen s2) (considered s2) f" for f
      proof -
        have "ruled_out env s2 f" using that(2) scan_bracketed_filed [of env checks rid deadline surfaces br s1 s2] b y
          by (intro unobserved_ruled_out) simp_all
        with that(1) s3 show ?thesis by (auto simp: retired_with_cause_def unobserved_row_def ruled_out_same)
      qed
      with o r s3 show ?thesis by (fastforce simp: retired_in_def)
    qed
  qed
qed

lemma scan_in_run_retires:
  assumes "scan_in_run env checks rid deadline ss = (r, ss')" "retired_in X (ss_store ss)"
  shows "retired_in (X \<union> {ob. r = Inr () \<and> retired_with_cause env rid ss' ob}) (ss_store ss')"
proof -
  let ?m = "scan_surfaces env checks rid deadline (surfaces_in_order (en_engagement env) (ss_store ss))"
  obtain x s0 where m: "?m ss = (x, s0)" by (metis prod.exhaust)
  from scan_surfaces_retires [OF m assms(2)]
  have o: "retired_in (X \<union> {ob. x = Inr () \<and> retired_with_cause env rid s0 ob}) (ss_store s0)" .
  show ?thesis
  proof (cases x)
    case (Inl e)
    obtain s1 at where f: "file_identity rid (\<lambda>_. case e of Dead _ \<Rightarrow> u ''dead'' | Escaped _ \<Rightarrow> u ''assumed'') s0 = (Inr (), s1)"
      and s: "stop_scan env rid e s0 = (Inl e,
        s1\<lparr>ss_ticks := Suc (ss_ticks s1), ss_store := end_run rid at (u ''error'') (Some (stop_text e s1)) (ss_store s1)\<rparr>)"
      by (rule stop_scan_ends)
    have "retired_in X (ss_store s0)" using o Inl by simp
    then have "retired_in X (ss_store s1)" using f by (rule keepsD [OF run_retired.keeps_file_identity])
    moreover have "ss_store ss' = end_run rid at (u ''error'') (Some (stop_text e s1)) (ss_store s1)"
      using assms(1) m Inl s by (auto simp: scan_in_run_def)
    ultimately show ?thesis by (auto simp: retired_in_def end_run_rows)
  next
    case (Inr y)
    have "u ''completed'' \<in> set RUN_STATUSES" by (simp add: RUN_STATUSES_def)
    then obtain at where "close_scan env rid (u ''completed'') truncated s0 =
        (Inr (), s0\<lparr>ss_ticks := Suc (ss_ticks s0), ss_store := end_run rid at (u ''completed'') (truncated s0) (ss_store s0)\<rparr>)"
      by (rule close_scan_closes)
    with assms(1) m Inr have r: "r = Inr ()"
      "ss' = s0\<lparr>ss_ticks := Suc (ss_ticks s0), ss_store := end_run rid at (u ''completed'') (truncated s0) (ss_store s0)\<rparr>"
      by (simp_all add: scan_in_run_def)
    have "retired_with_cause env rid ss' ob = retired_with_cause env rid s0 ob" for ob
      by (simp add: r(2) retired_with_cause_def ruled_out_same end_run_rows)
    with o Inr r show ?thesis by (simp add: retired_in_def end_run_rows)
  qed
qed

lemma current_run_retired: "keeps (retired_in X) (current_run nid e k p at)"
  by (auto simp: keeps_def current_run_def open_run_def close_run_def end_run_def update_runs_def sbind_def retired_in_def
      split: option.split)

text \<open>C23. A finding is retired, that is observed as gone, only with cause: the scan returned, a check that ran on the
  finding's surface named its issue type as ruled out and no check found it, and if that check was active
  the scan's identity was proven from the first canary to the last, at the surface's own origin.\<close>

theorem retires_only_what_was_ruled_out:
  assumes "scan env checks ss = (r, ss')" "ob \<in> set (st_observations (ss_store ss'))" "\<not> ob_observed ob"
    "ob \<notin> set (st_observations (ss_store ss))"
  shows "r = Inr () \<and> (\<exists>f \<in> set (st_findings (ss_store ss')). ob_finding ob = fi_id f \<and> ruled_out env ss' f)"
proof -
  let ?X = "set (st_observations (ss_store ss))"
  have k0: "retired_in ?X (ss_store ss)" by (simp add: retired_in_def)
  show ?thesis
  proof (cases "enabled_checks env checks")
    case Nil
    with assms show ?thesis by (simp add: scan_def)
  next
    case (Cons c cs)
    have opens: "keeps (\<lambda>ss. retired_in ?X (ss_store ss)) (escaping (on_db (current_run nid e k p at)))" for nid e k p at
      using current_run_retired by (intro keeps_escaping run_retired.keeps_db) (simp add: keeps_def)
    have ticks: "keeps (\<lambda>ss. retired_in ?X (ss_store ss)) (deadline_of env)"
      by (simp add: keeps_def deadline_of_def split: option.split)
    let ?m = "sbind (fresh_id env) (\<lambda>nid. sbind (now_us env) (\<lambda>at.
      sbind (escaping (on_db (current_run nid (en_engagement env) (u ''scan'') (en_profile env) at))) (\<lambda>rid.
      sbind (deadline_of env) (\<lambda>deadline. sret (rid, deadline)))))"
    have k: "keeps (\<lambda>ss. retired_in ?X (ss_store ss)) ?m"
      by (intro keeps_intros run_retired.keeps_sources opens ticks)
    have "scan env checks ss = sbind ?m (\<lambda>(rid, deadline). scan_in_run env (enabled_checks env checks) rid deadline) ss"
      using Cons by (simp add: scan_def sbind_def split: prod.split sum.split)
    with assms(1) have s: "sbind ?m (\<lambda>(rid, deadline). scan_in_run env (enabled_checks env checks) rid deadline) ss = (r, ss')"
      by simp
    obtain x s1 where m: "?m ss = (x, s1)" by (metis prod.exhaust)
    have k1: "retired_in ?X (ss_store s1)" by (rule keepsD [OF k k0 m])
    show ?thesis
    proof (cases x)
      case (Inl e)
      with m s have "ss' = s1" by simp
      with k1 assms show ?thesis by (auto simp: retired_in_def)
    next
      case (Inr p)
      with m s have "scan_in_run env (enabled_checks env checks) (fst p) (snd p) s1 = (r, ss')" by (simp split: prod.splits)
      from scan_in_run_retires [OF this k1] assms(2-4) show ?thesis by (auto simp: retired_in_def retired_with_cause_def)
    qed
  qed
qed

end
