(* ===== verification/Scan_Identity.thy ===== *)
theory Scan_Identity
  imports Scan_Safety
begin

text \<open>
  The bracket of a scan, seen on the bridge's log: whatever a scan sends before its first canary has passed are
  registrations and canaries, and if none passes it sends and files nothing else. Then a scan small enough to be
  run, at which the theorems about scans are applied.
\<close>

section \<open>Nothing but canaries before one has passed\<close>

text \<open>An answer to a canary that proves the identity live.\<close>

definition live_answer :: "liveness \<Rightarrow> send_answer \<Rightarrow> bool" where
  "live_answer lv a \<longleftrightarrow> (\<exists>h response r. a = Answered h response \<and> (\<forall>ps. fst (receive h response ps) = Inr r) \<and> signature_matches lv r)"

text \<open>What may leave before: registrations, and requests of the liveness path.\<close>

fun vouching :: "liveness \<Rightarrow> bridge_call \<Rightarrow> bool" where
  "vouching lv (RegisterCall name generation origins) = True"
| "vouching lv (SendCall req raw) = (probe_bytes (sq_host req) (lv_path lv) [] = Some raw)"

lemma receive_fst: "fst (receive h response ps) = fst (receive h response ps')"
  by (auto simp: receive_def Let_def split: sum.split)

lemma get_loop_calls:
  "get_loop n req raw ps w = (r, ps', w') \<Longrightarrow>
     \<exists>cs. wi_calls w' = wi_calls w @ cs \<and> set cs \<subseteq> {SendCall req raw}
       \<and> (\<forall>x. r = Inr x \<longrightarrow> cs \<noteq> [] \<and> (\<exists>h response. wi_answer w (length (wi_calls w) + length cs - 1) = Answered h response
            \<and> (\<forall>ps. fst (receive h response ps) = Inr x)))"
proof (induction n req raw ps w arbitrary: r ps' w' rule: get_loop.induct)
  case (2 left req raw ps w)
  let ?w = "w\<lparr>wi_calls := wi_calls w @ [SendCall req raw]\<rparr>"
  show ?case
  proof (cases "wi_answer w (length (wi_calls w))")
    case (Answered h response)
    with 2(2) have r: "w' = ?w" "receive h response ps = (r, ps')" by (auto simp: wire_send_def split: prod.splits)
    then have "fst (receive h response p) = r" for p using receive_fst [of h response p ps] by simp
    with r Answered show ?thesis by (intro exI [of _ "[SendCall req raw]"]) auto
  next
    case (SendError cls msg hint)
    let ?ps = "if error_class cls \<in> set NOT_ISSUED then ps else ps\<lparr>ps_sent := ps_sent ps + 1\<rparr>"
    show ?thesis
    proof (cases "error_class cls = u ''rate_limited'' \<and> has_retry_hint hint \<and> left > 0")
      case True
      with 2(2) SendError have "get_loop left req raw ?ps ?w = (r, ps', w')" by (simp add: wire_send_def Let_def)
      with 2(1) [OF _ SendError refl refl True] obtain cs where "wi_calls w' = wi_calls ?w @ cs" "set cs \<subseteq> {SendCall req raw}"
        "\<forall>x. r = Inr x \<longrightarrow> cs \<noteq> [] \<and> (\<exists>h response. wi_answer ?w (length (wi_calls ?w) + length cs - 1) = Answered h response
            \<and> (\<forall>ps. fst (receive h response ps) = Inr x))"
        by (fastforce simp: wire_send_def SendError)
      then show ?thesis by (intro exI [of _ "SendCall req raw # cs"]) simp
    next
      case False
      with 2(2) SendError have "r = Inl (ProbeRefused (error_class cls) (error_detail (error_class cls) msg))" "w' = ?w"
        by (auto simp: wire_send_def Let_def split: if_splits)
      then show ?thesis by (intro exI [of _ "[SendCall req raw]"]) simp
    qed
  next
    case (SendCrashed name msg)
    with 2(2) have "r = Inl (Raised name msg)" "w' = ?w" by (auto simp: wire_send_def)
    then show ?thesis by (intro exI [of _ "[SendCall req raw]"]) simp
  qed
qed auto

definition vouched :: "liveness \<Rightarrow> wire \<Rightarrow> wire \<Rightarrow> bool" where
  "vouched lv w w' \<longleftrightarrow> wi_answer w' = wi_answer w \<and> (\<exists>cs. wi_calls w' = wi_calls w @ cs \<and> (\<forall>c \<in> set cs. vouching lv c))"

definition proved :: "liveness \<Rightarrow> wire \<Rightarrow> wire \<Rightarrow> bool" where
  "proved lv w w' \<longleftrightarrow>
     (\<exists>cs c. wi_calls w' = wi_calls w @ cs @ [c] \<and> live_answer lv (wi_answer w (length (wi_calls w) + length cs)))"

lemma vouched_refl [simp]: "vouched lv w w"
  by (simp add: vouched_def)

lemma vouched_trans: "vouched lv w w' \<Longrightarrow> vouched lv w' w'' \<Longrightarrow> vouched lv w w''"
  by (fastforce simp: vouched_def)

lemma proved_after: "vouched lv w w' \<Longrightarrow> proved lv w' w'' \<Longrightarrow> proved lv w w''"
  by (fastforce simp: vouched_def proved_def add.assoc)

lemma canary_calls:
  assumes "canary lv ps w = (r, ps', w')"
  shows "vouched lv w w'" "r = Inr True \<Longrightarrow> proved lv w w'"
proof -
  obtain x ps1 w1 where g: "sender_get (lv_path lv) [] ps w = (x, ps1, w1)" by (metis prod_cases3)
  have w1: "w1 = w'" using assms g by (auto simp: canary_def split: sum.splits check_exc.splits)
  have e: "wi_answer w1 = wi_answer w" using sender_get_extends [OF g] by (simp add: extends_def)
  obtain cs where cs: "wi_calls w1 = wi_calls w @ cs" "\<forall>c \<in> set cs. vouching lv c"
    "\<forall>y. x = Inr y \<longrightarrow> cs \<noteq> [] \<and> (\<exists>h response. wi_answer w (length (wi_calls w) + length cs - 1) = Answered h response
            \<and> (\<forall>ps. fst (receive h response ps) = Inr y))"
  proof (cases "\<exists>raw. probe_bytes (ps_host ps) (lv_path lv) [] = Some raw \<and> startswith [47] (lv_path lv) \<and> placeholder_in (lv_path lv) = None")
    case True
    then obtain raw where raw: "probe_bytes (ps_host ps) (lv_path lv) [] = Some raw" "startswith [47] (lv_path lv)"
      "placeholder_in (lv_path lv) = None" by blast
    with g have l: "get_loop RATE_LIMIT_ATTEMPTS
        \<lparr>sq_host = ps_host ps, sq_port = ps_port ps, sq_tls = (ps_scheme ps = u ''https''), sq_identity = ps_identity ps\<rparr>
        raw ps w = (x, ps1, w1)" by (simp add: sender_get_def)
    from get_loop_calls [OF l] raw(1) show thesis by (fastforce intro: that)
  next
    case False
    with g show thesis by (intro that [of "[]"]) (auto simp: sender_get_def split: if_splits option.splits)
  qed
  from e w1 cs(1,2) show "vouched lv w w'" by (auto simp: vouched_def)
  show "proved lv w w'" if "r = Inr True"
  proof -
    from that assms g obtain y where y: "x = Inr y" "signature_matches lv y"
      by (auto simp: canary_def split: sum.splits check_exc.splits)
    with cs(3) obtain h response where "cs \<noteq> []" "wi_answer w (length (wi_calls w) + length cs - 1) = Answered h response"
      "\<forall>ps. fst (receive h response ps) = Inr y" by blast
    moreover from this(1) obtain ds c where "cs = ds @ [c]" by (metis rev_exhaust)
    ultimately show ?thesis using w1 cs(1) y(2) by (auto simp: proved_def live_answer_def)
  qed
qed

text \<open>The same of a program of the bracket: it also leaves the store alone, and the bracket's declaration.\<close>

definition decl_of :: "scan_state \<Rightarrow> identity_decl option" where
  "decl_of ss = map_option bk_decl (ss_bracket ss)"

definition vouched_run :: "identity_decl \<Rightarrow> scan_state \<Rightarrow> scan_state \<Rightarrow> bool" where
  "vouched_run d ss ss' \<longleftrightarrow>
     ss_store ss' = ss_store ss \<and> vouched (id_liveness d) (ss_wire ss) (ss_wire ss') \<and> (decl_of ss = Some d \<longrightarrow> decl_of ss' = Some d)"

lemma vouched_run_refl: "vouched_run d ss ss"
  by (simp add: vouched_run_def)

lemma vouched_run_trans: "vouched_run d ss s \<Longrightarrow> vouched_run d s ss' \<Longrightarrow> vouched_run d ss ss'"
  unfolding vouched_run_def using vouched_trans by auto

lemma run_canary_vouched:
  assumes "run_canary bk ss = (r, ss')" "bk_decl bk = d"
  shows "vouched_run d ss ss'" "r = Inr (True, refusal) \<Longrightarrow> proved (id_liveness d) (ss_wire ss) (ss_wire ss')"
proof -
  obtain x ps w where c: "canary (id_liveness (bk_decl bk)) (fresh_sender bk) (ss_wire ss) = (x, ps, w)" by (metis prod_cases3)
  then have s: "ss_wire ss' = w" "ss_store ss' = ss_store ss" "ss_bracket ss' = ss_bracket ss"
    "\<And>p f. r = Inr (p, f) \<Longrightarrow> x = Inr p"
    using assms by (auto simp: run_canary_def Let_def add_refused_def split: sum.splits)
  then show "vouched_run d ss ss'" using canary_calls(1) [OF c] assms(2) by (simp add: vouched_run_def decl_of_def)
  show "proved (id_liveness d) (ss_wire ss) (ss_wire ss')" if "r = Inr (True, refusal)"
    using canary_calls(2) [OF c s(4) [OF that]] s(1) assms(2) by simp
qed

lemma register_vouched: "register_identity env bk ss = (r, ss') \<Longrightarrow> vouched_run d ss ss'"
  by (auto simp: register_identity_def vouched_run_def vouched_def decl_of_def split: option.splits)

lemma keep_bracket_vouched: "bk_decl bk = d \<Longrightarrow> keep_bracket bk ss = (r, ss') \<Longrightarrow> vouched_run d ss ss' \<and> r = Inr () \<and> ss_bracket ss' = Some bk"
  by (auto simp: keep_bracket_def modify_def vouched_run_def decl_of_def)

lemma settle_vouched:
  assumes "settle env bk ss = (r, ss')" "bk_decl bk = d"
  shows "vouched_run d ss ss' \<and> (\<forall>raw settled refusal bk'. r = Inr (raw, settled, refusal, bk') \<longrightarrow>
      bk_decl bk' = d \<and> (settled \<longrightarrow> proved (id_liveness d) (ss_wire ss) (ss_wire ss')))"
proof -
  obtain x s1 where c: "run_canary bk ss = (x, s1)" by (metis prod.exhaust)
  note v1 = run_canary_vouched(1) [OF c assms(2)]
  show ?thesis
  proof (cases x)
    case (Inl e)
    with c v1 assms(1) show ?thesis by (auto simp: settle_def)
  next
    case (Inr p)
    obtain raw refusal where p: "p = (raw, refusal)" by (cases p)
    show ?thesis
    proof (cases "raw \<or> id_strategy (bk_decl bk) \<noteq> u ''programmatic''")
      case True
      with c Inr p assms(1) have "r = Inr (raw, raw, refusal, bk)" "ss' = s1" by (auto simp: settle_def)
      with v1 run_canary_vouched(2) [OF c assms(2)] Inr p assms(2) show ?thesis by auto
    next
      case prog: False
      show ?thesis
      proof (cases "refresh (bk_decl bk) (rs_generation (bk_resolved bk)) (en_refresh env (calls_made s1))")
        case None
        with c Inr p prog assms(1) v1 show ?thesis by (auto simp: settle_def reads_def sbind_def)
      next
        case (Some rs)
        let ?bk = "bk\<lparr>bk_resolved := rs\<rparr>"
        have d: "bk_decl ?bk = d" using assms(2) by simp
        obtain y s2 where k: "keep_bracket ?bk s1 = (y, s2)" by (metis prod.exhaust)
        from keep_bracket_vouched [OF d k] have v2: "vouched_run d ss s2" "y = Inr ()" using v1 vouched_run_trans by blast+
        obtain z s3 where g: "register_identity env ?bk s2 = (z, s3)" by (metis prod.exhaust)
        have v3: "vouched_run d ss s3" using v2(1) register_vouched [OF g] by (rule vouched_run_trans)
        obtain x2 s4 where c2: "run_canary ?bk s3 = (x2, s4)" by (metis prod.exhaust)
        have v4: "vouched_run d ss s4" using v3 run_canary_vouched(1) [OF c2 d] by (rule vouched_run_trans)
        have s: "(r, ss') = (case z of Inl e \<Rightarrow> (Inl e, s3)
            | Inr _ \<Rightarrow> (case x2 of Inl e \<Rightarrow> (Inl e, s4) | Inr (settled, f) \<Rightarrow> (Inr (raw, settled, f, ?bk), s4)))"
          using assms(1) c Inr p prog Some k v2(2) g c2 by (auto simp: settle_def reads_def sbind_def Let_def split: sum.splits)
        have "proved (id_liveness d) (ss_wire ss) (ss_wire s4)" if "x2 = Inr (True, f)" for f
        proof -
          have "vouched (id_liveness d) (ss_wire ss) (ss_wire s3)" using v3 by (simp add: vouched_run_def)
          then show ?thesis using run_canary_vouched(2) [OF c2 d that] by (rule proved_after)
        qed
        with s v3 v4 d show ?thesis by (auto split: sum.splits prod.splits)
      qed
    qed
  qed
qed

lemma bracket_start_vouched:
  assumes "bracket_start env bk ss = (r, ss')" "bk_decl bk = d"
  shows "vouched_run d ss ss'" "r = Inr () \<Longrightarrow> proved (id_liveness d) (ss_wire ss) (ss_wire ss')"
proof -
  obtain x s1 where g: "register_identity env bk ss = (x, s1)" by (metis prod.exhaust)
  note v1 = register_vouched [OF g, of d]
  obtain y s2 where t: "settle env bk s1 = (y, s2)" by (metis prod.exhaust)
  from settle_vouched [OF t assms(2)] have t': "vouched_run d s1 s2" "\<And>raw settled f bk'. y = Inr (raw, settled, f, bk') \<Longrightarrow>
      bk_decl bk' = d \<and> (settled \<longrightarrow> proved (id_liveness d) (ss_wire s1) (ss_wire s2))" by blast+
  have v2: "vouched_run d ss s2" using v1 t'(1) by (rule vouched_run_trans)
  have goal: "vouched_run d ss ss' \<and> (r = Inr () \<longrightarrow> proved (id_liveness d) (ss_wire ss) (ss_wire ss'))"
  proof (cases x)
    case (Inl e)
    with g assms(1) v1 show ?thesis by (auto simp: bracket_start_def)
  next
    case x: (Inr v)
    show ?thesis
    proof (cases y)
      case (Inl e)
      with g t x assms(1) v2 show ?thesis by (auto simp: bracket_start_def)
    next
      case (Inr q)
      obtain raw settled f bk' where q: "q = (raw, settled, f, bk')" by (metis prod_cases4)
      let ?bk = "bk'\<lparr>bk_window := window_open settled (bk_window bk')\<rparr>"
      have d: "bk_decl ?bk = d" using t'(2) Inr q by simp
      obtain z s3 where k: "keep_bracket ?bk s2 = (z, s3)" by (metis prod.exhaust)
      from keep_bracket_vouched [OF d k] have z: "vouched_run d s2 s3" "z = Inr ()" by blast+
      have w: "ss_wire s3 = ss_wire s2" using k by (auto simp: keep_bracket_def modify_def)
      have s: "ss' = s3" "r = Inr () \<Longrightarrow> settled"
        using assms(1) g x t Inr q k z(2) by (auto simp: bracket_start_def split: if_splits)
      have "vouched_run d ss s3" using v2 z(1) by (rule vouched_run_trans)
      moreover have "vouched (id_liveness d) (ss_wire ss) (ss_wire s1)" using v1 by (simp add: vouched_run_def)
      ultimately show ?thesis using s t'(2) Inr q w proved_after by metis
    qed
  qed
  then show "vouched_run d ss ss'" "r = Inr () \<Longrightarrow> proved (id_liveness d) (ss_wire ss) (ss_wire ss')" by blast+
qed

interpretation run_sends: scan_invariant "\<lambda>s w. extends w0 w" for w0
  by unfold_locales (auto intro: extends_trans)

lemma identity_bracket_quiet:
  assumes "identity_bracket env checks surfaces ss = (r, ss')"
  shows "ss' = ss"
proof -
  have "keeps (\<lambda>s. s = ss) (identity_bracket env checks surfaces)"
    unfolding identity_bracket_def resolve_scan_identity_def declared_identity_def of_identity_def raised_def
    by (intro keeps_intros) (simp_all add: keeps_def reads_def)
  then show ?thesis using refl assms by (rule keepsD)
qed

text \<open>Past the first canary a scan only adds to the log; short of it, it has added only what vouches.\<close>

definition proven_first :: "liveness \<Rightarrow> scan_state \<Rightarrow> scan_state \<Rightarrow> bool" where
  "proven_first lv ss ss' \<longleftrightarrow>
     (\<exists>w. vouched lv (ss_wire ss) w \<and> extends w (ss_wire ss')
        \<and> (proved lv (ss_wire ss) w \<or> w = ss_wire ss' \<and> st_check_runs (ss_store ss') = st_check_runs (ss_store ss)))"

lemma proven_first_same:
  "ss_wire ss'' = ss_wire ss' \<Longrightarrow> st_check_runs (ss_store ss'') = st_check_runs (ss_store ss') \<Longrightarrow> proven_first lv ss ss'
     \<Longrightarrow> proven_first lv ss ss''"
  by (simp add: proven_first_def)

lemma scan_surfaces_proven_first:
  assumes "scan_surfaces env checks rid deadline surfaces ss = (r, ss')"
    "identity_bracket env checks surfaces ss = (Inr (Some bk), s)"
  shows "proven_first (id_liveness (bk_decl bk)) ss ss'"
proof -
  have s: "s = ss" using identity_bracket_quiet [OF assms(2)] .
  obtain x0 s0 where k: "keep_bracket bk ss = (x0, s0)" by (metis prod.exhaust)
  note v0 = keep_bracket_vouched [OF refl k]
  have w0: "ss_wire s0 = ss_wire ss" using k by (auto simp: keep_bracket_def modify_def)
  obtain x s1 where b: "bracket_start env bk s0 = (x, s1)" by (metis prod.exhaust)
  have v: "vouched_run (bk_decl bk) ss s1" using v0 bracket_start_vouched(1) [OF b refl] vouched_run_trans by blast
  have start: "start_bracket env (Some bk) ss = (x, s1)" using k v0 b by (simp add: start_bracket_def)
  let ?rest = "\<lambda>_. sbind (sbind (reads identity_in_use) (\<lambda>identity.
      sbind (sfor (one_surface env rid identity deadline checks) surfaces) (\<lambda>_.
      sbind bracket_finish (\<lambda>_. file_identity rid (\<lambda>bk. state_for_run (bk_window bk))))))
      (\<lambda>_. escaping (mark_unobserved env rid))"
  have run: "sbind (start_bracket env (Some bk)) ?rest ss = (r, ss')"
    using assms s by (auto simp: scan_surfaces_def scan_bracketed_def sbind_def split: prod.splits sum.splits)
  show ?thesis
  proof (cases x)
    case (Inl e)
    with run start have "ss' = s1" by simp
    then show ?thesis using v by (auto simp: proven_first_def vouched_run_def)
  next
    case (Inr y)
    with run start have l: "?rest () s1 = (r, ss')" by simp
    have "keeps (\<lambda>ss. extends (ss_wire s1) (ss_wire ss)) (escaping (mark_unobserved env rid))"
      unfolding mark_unobserved_def
      by (intro keeps_intros run_sends.keeps_sources run_sends.keeps_db)
    then have k: "keeps (\<lambda>ss. extends (ss_wire s1) (ss_wire ss)) (?rest ())"
      by (intro keeps_sbind run_sends.keeps_after_start)
    have "extends (ss_wire s1) (ss_wire (snd (?rest () s1)))" by (rule k [unfolded keeps_def, rule_format]) simp
    with l have "extends (ss_wire s1) (ss_wire ss')" by simp
    moreover have "proved (id_liveness (bk_decl bk)) (ss_wire ss) (ss_wire s1)"
      using bracket_start_vouched(2) [OF b refl] Inr w0 by simp
    ultimately show ?thesis using v by (auto simp: proven_first_def vouched_run_def)
  qed
qed

lemma scan_in_run_proven_first:
  assumes "scan_in_run env checks rid deadline ss = (r, ss')"
    "identity_bracket env checks (surfaces_in_order (en_engagement env) (ss_store ss)) ss = (Inr (Some bk), s)"
  shows "proven_first (id_liveness (bk_decl bk)) ss ss'"
proof -
  let ?m = "scan_surfaces env checks rid deadline (surfaces_in_order (en_engagement env) (ss_store ss))"
  obtain x s0 where m: "?m ss = (x, s0)" by (metis prod.exhaust)
  note p = scan_surfaces_proven_first [OF m assms(2)]
  have rows: "st_check_runs (end_run rid at st why s) = st_check_runs s" for at st why s
    by (simp add: end_run_def update_runs_def)
  show ?thesis
  proof (cases x)
    case (Inl e)
    obtain s1 at where f: "file_identity rid (\<lambda>_. case e of Dead _ \<Rightarrow> u ''dead'' | Escaped _ \<Rightarrow> u ''assumed'') s0 = (Inr (), s1)"
      and st: "stop_scan env rid e s0 = (Inl e,
        s1\<lparr>ss_ticks := Suc (ss_ticks s1), ss_store := end_run rid at (u ''error'') (Some (stop_text e s1)) (ss_store s1)\<rparr>)"
      by (rule stop_scan_ends)
    have "keeps (\<lambda>ss. books ss = books s0) (file_identity rid (\<lambda>_. case e of Dead _ \<Rightarrow> u ''dead'' | Escaped _ \<Rightarrow> u ''assumed''))"
      unfolding file_identity_def
      by (intro keeps_intros keeps_modify keeps_books_db run_rows) (simp_all add: keeps_def reads_def)
    then have "books s1 = books s0" using f by (rule keeps_books)
    moreover have "ss_wire ss' = ss_wire s1" "st_check_runs (ss_store ss') = st_check_runs (ss_store s1)"
      using assms(1) m Inl st by (auto simp: scan_in_run_def rows)
    ultimately show ?thesis using p by (intro proven_first_same [OF _ _ p]) (simp_all add: books_def)
  next
    case (Inr y)
    have "u ''completed'' \<in> set RUN_STATUSES" by (simp add: RUN_STATUSES_def)
    then obtain at where "close_scan env rid (u ''completed'') truncated s0 =
        (Inr (), s0\<lparr>ss_ticks := Suc (ss_ticks s0), ss_store := end_run rid at (u ''completed'') (truncated s0) (ss_store s0)\<rparr>)"
      by (rule close_scan_closes)
    with assms(1) m Inr show ?thesis by (intro proven_first_same [OF _ _ p]) (auto simp: scan_in_run_def rows)
  qed
qed

text \<open>C24. No probe before proof. When a scan needs an identity, what it sends falls in two parts: first only
  registrations and requests of the identity's own liveness path, then everything else; and unless the first part ended in
  an answer that carried the declared signature, there is no second part, and no check has so much as a row.\<close>

theorem no_probe_before_proof:
  assumes "scan_in_run env checks rid deadline ss = (r, ss')"
    and "identity_bracket env checks (surfaces_in_order (en_engagement env) (ss_store ss)) ss = (Inr (Some bk), s)"
  defines "lv \<equiv> id_liveness (bk_decl bk)"
  shows "\<exists>before after. wi_calls (ss_wire ss') = wi_calls (ss_wire ss) @ before @ after \<and> (\<forall>c \<in> set before. vouching lv c)
    \<and> (before \<noteq> [] \<and> live_answer lv (wi_answer (ss_wire ss) (length (wi_calls (ss_wire ss)) + length before - 1))
       \<or> after = [] \<and> st_check_runs (ss_store ss') = st_check_runs (ss_store ss))"
proof -
  from scan_in_run_proven_first [OF assms(1,2)] obtain w where w: "vouched lv (ss_wire ss) w" "extends w (ss_wire ss')"
    "proved lv (ss_wire ss) w \<or> w = ss_wire ss' \<and> st_check_runs (ss_store ss') = st_check_runs (ss_store ss)"
    by (auto simp: proven_first_def lv_def)
  then obtain before after where c: "wi_calls w = wi_calls (ss_wire ss) @ before" "\<forall>c \<in> set before. vouching lv c"
    "wi_calls (ss_wire ss') = wi_calls w @ after" by (auto simp: vouched_def extends_def)
  have "before \<noteq> [] \<and> live_answer lv (wi_answer (ss_wire ss) (length (wi_calls (ss_wire ss)) + length before - 1))
       \<or> after = [] \<and> st_check_runs (ss_store ss') = st_check_runs (ss_store ss)"
    using w(3) c by (auto simp: proved_def)
  with c show ?thesis by auto
qed

section \<open>A scan\<close>

text \<open>One passive check over one surface, where an earlier scan left a finding: the check rules it out.\<close>

definition sample_check :: scan_check where
  "sample_check =
     \<lparr>ck_decl = \<lparr>cd_id = u ''c1'', cd_version = u ''1'', cd_class = u ''passive'', cd_hooks = [u ''on_surface''],
        cd_insertion_kinds = [], cd_looks_for = Some (JStr (u ''x''))\<rparr>,
      ck_on_surface = \<lambda>_ _. Inr (AVerdict \<lparr>vd_state = u ''clean'', vd_candidates = [], vd_reason = None,
        vd_considered = [u ''t1'']\<rparr>),
      ck_probes = \<lambda>_ _ _. Done Nothing\<rparr>"

definition sample_scan_env :: scan_env where
  "sample_scan_env =
     \<lparr>en_engagement = u ''e1'', en_profile = u ''staging'', en_config_checks = [(u ''passive'', True)], en_identities = [],
      en_scan_identity = None, en_identity = None, en_environ = [], en_has_bridge = False, en_selected = (\<lambda>_. True),
      en_max_seconds = None, en_now = int, en_monotonic = int, en_new_id = (\<lambda>n. [110, n]),
      en_read_blob = (\<lambda>_. Inl CorruptBlob), en_netloc_ok = (\<lambda>_. True), en_register = (\<lambda>_. None),
      en_refresh = (\<lambda>_. CannotRun), en_skip_reason = (\<lambda>key _ _. key), en_repr = (\<lambda>s. s)\<rparr>"

definition sample_surface :: surface_row where
  "sample_surface =
     \<lparr>sf_id = u ''s1'', sf_engagement = u ''e1'', sf_method = u ''GET'', sf_scheme = u ''http'', sf_host = u ''a'',
      sf_port = 80, sf_path_template = u ''/'', sf_query_key_set = [], sf_kind = u ''route'', sf_discovered_by = u ''browse'',
      sf_normaliser_version = 1, sf_first_seen_run = u ''r0'', sf_last_seen_run = u ''r0'', sf_exemplar = []\<rparr>"

definition sample_finding :: finding_row where
  "sample_finding =
     \<lparr>fi_id = u ''f1'', fi_engagement = u ''e1'', fi_dedupe_key = u ''k'', fi_issue_type = u ''t1'', fi_title = u ''x'',
      fi_description = None, fi_impact = None, fi_remediation = None, fi_cwe = None, fi_severity = u ''low'',
      fi_confidence = u ''firm'', fi_created_by = u ''check'', fi_status = u ''candidate'', fi_insertion_name = None,
      fi_insertion_kind = None, fi_scope_level = u ''endpoint'', fi_payload = None, fi_surface = Some (u ''s1''),
      fi_host = Some (u ''a''), fi_check = Some (u ''c1''), fi_first_seen_run = u ''r0'', fi_last_seen_run = u ''r0''\<rparr>"

definition scanned_store :: store where
  "scanned_store = (empty_store (u ''e1''))\<lparr>st_surfaces := [sample_surface], st_findings := [sample_finding]\<rparr>"

definition sample_start :: scan_state where
  "sample_start = start_state scanned_store (\<lambda>_. SendCrashed [] [])"

lemma sample_env_fields:
  "en_engagement sample_scan_env = u ''e1''" "en_profile sample_scan_env = u ''staging''"
  "en_config_checks sample_scan_env = [(u ''passive'', True)]" "en_has_bridge sample_scan_env = False"
  "en_selected sample_scan_env r = True" "en_max_seconds sample_scan_env = None" "en_now sample_scan_env n = int n"
  "en_new_id sample_scan_env n = [110, n]"
  by (simp_all add: sample_scan_env_def)

lemma sample_check_fields:
  "cd_id (ck_decl sample_check) = u ''c1''" "cd_version (ck_decl sample_check) = u ''1''" "cd_class (ck_decl sample_check) = u ''passive''"
  "cd_hooks (ck_decl sample_check) = [u ''on_surface'']"
  "ck_on_surface sample_check r xs = Inr (AVerdict \<lparr>vd_state = u ''clean'', vd_candidates = [], vd_reason = None,
     vd_considered = [u ''t1'']\<rparr>)"
  by (simp_all add: sample_check_def)

lemma sample_row_fields:
  "sf_id sample_surface = u ''s1''" "sf_engagement sample_surface = u ''e1''"
  "fi_id sample_finding = u ''f1''" "fi_engagement sample_finding = u ''e1''" "fi_issue_type sample_finding = u ''t1''"
  "fi_surface sample_finding = Some (u ''s1'')" "fi_check sample_finding = Some (u ''c1'')"
  by (simp_all add: sample_surface_def sample_finding_def)

lemmas scan_eval = sample_row_fields sample_env_fields sample_check_fields sample_start_def start_state_def scanned_store_def empty_store_def
  scan_def enabled_checks_def sbind_def fresh_id_def now_us_def escaping_def on_db_def current_run_def open_run_def
  deadline_of_def scan_in_run_def scan_surfaces_def identity_bracket_def scan_bracketed_def surfaces_in_order_def
  start_bracket_def reads_def one_surface_def past_deadline_def modify_def heartbeat_def update_runs_def exchanges_for_def
  one_check_def canary_if_due_def run_check_row_def open_row_def transaction_def insert_check_run_def attempt_def Let_def
  needs_a_bridge_def runner_hook_def RUNNER_CALLS_def judge_def build_verdict_def mk_verdict_def VERDICT_STATES_def
  offer_claims_def write_findings_def settle_row_def close_spent_def spent_def close_row_def end_check_run_def
  CHECK_VERDICTS_def bracket_finish_def file_identity_def mark_unobserved_def considered_def retirable_def unobserved_def
  record_observation_def unobserved_row_def close_scan_def close_run_def RUN_STATUSES_def RUN_KINDS_def PROFILES_def
  run_ids_def fk_def truncated_def tallies_def tally_line_def end_run_def add_refused_def origin_of_surface_def literals

definition sample_row :: observation_row where
  "sample_row = \<lparr>ob_finding = u ''f1'', ob_run = [110, 0], ob_observed = False, ob_exchange = None, ob_severity = None,
     ob_confidence = None, ob_ts_us = 4\<rparr>"

lemma sample_scan_eval:
  "map_prod id (\<lambda>ss. st_observations (ss_store ss)) (scan sample_scan_env [sample_check] sample_start) = (Inr (), [sample_row])"
  by (simp add: scan_eval upsert_by_def sample_row_def)

lemma sample_scan:
  obtains ss where "scan sample_scan_env [sample_check] sample_start = (Inr (), ss)" "st_observations (ss_store ss) = [sample_row]"
  using sample_scan_eval by (cases "scan sample_scan_env [sample_check] sample_start") auto

theorem scan_covers_everything_witness:
  "\<exists>ss rid rows. scan sample_scan_env [sample_check] sample_start = (Inr (), ss) \<and> filed rid rows sample_start ss
     \<and> map row_key rows = [(Some (u ''s1''), u ''c1'')]"
proof -
  obtain ss where s: "scan sample_scan_env [sample_check] sample_start = (Inr (), ss)" by (rule sample_scan)
  have "all_keys sample_scan_env (enabled_checks sample_scan_env [sample_check]) (ss_store sample_start) = [(Some (u ''s1''), u ''c1'')]"
    by (simp add: all_keys_def surface_keys_def surfaces_in_order_def sample_scan_env_def enabled_checks_def
        sample_check_def sample_start_def start_state_def scanned_store_def sample_row_fields)
  with scan_covers_everything [OF s] s show ?thesis by auto
qed

theorem retires_only_what_was_ruled_out_witness:
  "\<exists>ss f. scan sample_scan_env [sample_check] sample_start = (Inr (), ss) \<and> fi_id f = u ''f1'' \<and> ruled_out sample_scan_env ss f"
proof -
  obtain ss where s: "scan sample_scan_env [sample_check] sample_start = (Inr (), ss)" "st_observations (ss_store ss) = [sample_row]"
    by (rule sample_scan)
  have "sample_row \<in> set (st_observations (ss_store ss))" "\<not> ob_observed sample_row"
    "sample_row \<notin> set (st_observations (ss_store sample_start))"
    using s(2) by (simp_all add: sample_row_def sample_start_def start_state_def scanned_store_def empty_store_def)
  from retires_only_what_was_ruled_out [OF s(1) this] s(1) show ?thesis by (auto simp: sample_row_def)
qed

text \<open>The same with a run already open, and an active check that runs under an identity.\<close>

definition running_start :: scan_state where
  "running_start = sample_start\<lparr>ss_store := snd (open_run (u ''r1'') (u ''e1'') (u ''scan'') (u ''staging'') 0 scanned_store)\<rparr>"

theorem scan_closes_its_run_witness:
  "\<exists>q \<in> set (st_runs (ss_store (snd (scan_in_run sample_scan_env [sample_check] (u ''r1'') None running_start)))).
     run_id q = u ''r1'' \<and> run_ended_us q \<noteq> None"
proof -
  have "(u ''r1'', u ''running'') \<in> set (standing (ss_store running_start))"
    by (simp add: running_start_def standing_def open_run_def scanned_store_def empty_store_def RUN_KINDS_def PROFILES_def
        run_ids_def)
  from scan_closes_its_run [OF prod.collapse [symmetric] this, of sample_scan_env "[sample_check]" None] show ?thesis by blast
qed

definition sample_identity :: identity_decl where
  "sample_identity =
     \<lparr>id_name = u ''i'', id_strategy = u ''static'', id_header = u ''Cookie'', id_value_from_env = Some (u ''V''),
      id_has_refresh = False,
      id_liveness = \<lparr>lv_path = u ''/me'', lv_expect_body = u ''ok'', lv_expect_absent = None, lv_every_n_probes = 10\<rparr>, id_origins = []\<rparr>"

definition active_check :: scan_check where
  "active_check =
     \<lparr>ck_decl = \<lparr>cd_id = u ''c2'', cd_version = u ''1'', cd_class = u ''active_safe'', cd_hooks = [u ''probes''],
        cd_insertion_kinds = [], cd_looks_for = Some (JStr (u ''x''))\<rparr>,
      ck_on_surface = \<lambda>_ _. Inr Nothing,
      ck_probes = \<lambda>_ _ path. Get path [] (\<lambda>_. Done (AVerdict \<lparr>vd_state = u ''clean'', vd_candidates = [], vd_reason = None,
        vd_considered = []\<rparr>))\<rparr>"

definition active_env :: scan_env where
  "active_env = sample_scan_env
     \<lparr>en_has_bridge := True, en_identities := [(u ''i'', sample_identity)],
      en_identity := Some \<lparr>rs_id = u ''i'', rs_header = u ''Cookie'', rs_value = u ''s'', rs_generation = 0\<rparr>\<rparr>"

theorem no_probe_before_proof_witness:
  "\<exists>bk before after. identity_bracket active_env [active_check] (surfaces_in_order (en_engagement active_env) (ss_store running_start))
       running_start = (Inr (Some bk), running_start)
     \<and> wi_calls (ss_wire (snd (scan_in_run active_env [active_check] (u ''r1'') None running_start))) = before @ after
     \<and> (\<forall>c \<in> set before. vouching (id_liveness (bk_decl bk)) c)"
proof -
  have "\<exists>bk. fst (identity_bracket active_env [active_check] (surfaces_in_order (en_engagement active_env) (ss_store running_start))
       running_start) = Inr (Some bk)"
    by (simp add: identity_bracket_def active_env_def active_check_def needs_a_bridge_def runner_hook_def RUNNER_CALLS_def
        surfaces_in_order_def running_start_def sample_start_def start_state_def open_run_def scanned_store_def empty_store_def
        RUN_KINDS_def PROFILES_def run_ids_def sample_scan_env_def sample_row_fields declared_identity_def sbind_def literals)
  then obtain bk where bk: "identity_bracket active_env [active_check] (surfaces_in_order (en_engagement active_env) (ss_store running_start))
       running_start = (Inr (Some bk), running_start)" using identity_bracket_quiet by (metis prod.collapse)
  have "wi_calls (ss_wire running_start) = []" by (simp add: running_start_def sample_start_def start_state_def)
  with no_probe_before_proof [OF prod.collapse [symmetric] bk, of "u ''r1''" None] bk show ?thesis by auto
qed

end
