(* ===== verification/Passive.thy ===== *)
theory Passive
  imports Scan
begin

text \<open>
  The passive checks, \<open>src/hx/checks/passive\<close>: they read the stored responses of a surface (\<open>_http.py\<close>) and judge them.
  \<open>read_blob\<close> is \<open>blobs.get\<close>. The regular expressions of \<open>stack_trace.py\<close> and \<open>secret_in_response.py\<close> are lists of
  atoms, with a matcher that tries every place an atom may end.
\<close>

section \<open>Regular expressions over bytes\<close>

text \<open>\<open>Class p n m\<close> is a character class repeated at least \<open>n\<close> and at most \<open>m\<close> times.\<close>

datatype atom =
    Lit bytes
  | OneOf "bytes list"
  | Class "byte \<Rightarrow> bool" nat "nat option"
  | Boundary

definition word_byte :: "byte \<Rightarrow> bool" where
  "word_byte w \<longleftrightarrow> is_alpha (unat w) \<or> is_digit (unat w) \<or> w = 95"

definition digit_byte :: "byte \<Rightarrow> bool" where
  "digit_byte w \<longleftrightarrow> is_digit (unat w)"

definition space_byte :: "byte \<Rightarrow> bool" where
  "space_byte w \<longleftrightarrow> w = 32 \<or> 9 \<le> unat w \<and> unat w \<le> 13"

definition at_boundary :: "bytes \<Rightarrow> nat \<Rightarrow> bool" where
  "at_boundary s i \<longleftrightarrow> (i > 0 \<and> word_byte (s ! (i - 1))) \<noteq> (i < length s \<and> word_byte (s ! i))"

fun atom_ends :: "atom \<Rightarrow> bytes \<Rightarrow> nat \<Rightarrow> nat list" where
  "atom_ends (Lit l) s i = (if startswith l (drop i s) then [i + length l] else [])"
| "atom_ends (OneOf ls) s i = map (\<lambda>l. i + length l) (filter (\<lambda>l. startswith l (drop i s)) ls)"
| "atom_ends (Class p n m) s i =
     (let k = length (takeWhile p (drop i s)); k = (case m of None \<Rightarrow> k | Some m \<Rightarrow> min m k) in map (\<lambda>j. i + j) [n..<Suc k])"
| "atom_ends Boundary s i = (if at_boundary s i then [i] else [])"

fun match_here :: "atom list \<Rightarrow> bytes \<Rightarrow> nat \<Rightarrow> bool" where
  "match_here [] s i = True"
| "match_here (a # r) s i = list_ex (match_here r s) (atom_ends a s i)"

definition re_search :: "atom list \<Rightarrow> bytes \<Rightarrow> bool" where
  "re_search r s = list_ex (match_here r s) [0..<Suc (length s)]"

section \<open>What was stored for a surface\<close>

record 'a evidence =
  ev_entries :: "(exchange_row \<times> 'a) list"
  ev_gaps :: "pystr list"

text \<open>One row: what could be read of it, and what is missing.\<close>

definition fetch_row :: "(pystr \<Rightarrow> blob_exc + bytes) \<Rightarrow> exchange_row \<Rightarrow> bytes option \<times> pystr option" where
  "fetch_row read_blob row =
     (let gap = (if ex_outcome row \<noteq> u ''ok'' then Some (ex_id row @ u '': outcome='' @ ex_outcome row)
                 else if ex_resp_blob row = None \<or> ex_resp_blob row = Some [] then Some (ex_id row @ u '': no response was stored'')
                 else None) in
      case ex_resp_blob row of
        None \<Rightarrow> (None, gap)
      | Some digest \<Rightarrow>
          if digest = [] then (None, gap)
          else (case read_blob digest of
             Inr raw \<Rightarrow> (Some raw, gap)
           | Inl _ \<Rightarrow> (None, Some (case gap of None \<Rightarrow> ex_id row @ u '': response blob could not be read'' | Some g \<Rightarrow> g))))"

definition fetch :: "(pystr \<Rightarrow> blob_exc + bytes) \<Rightarrow> exchange_row list \<Rightarrow> bytes evidence" where
  "fetch read_blob exchanges =
     \<lparr>ev_entries = concat (map (\<lambda>row. case fst (fetch_row read_blob row) of None \<Rightarrow> [] | Some raw \<Rightarrow> [(row, raw)]) exchanges),
      ev_gaps = concat (map (\<lambda>row. case snd (fetch_row read_blob row) of None \<Rightarrow> [] | Some g \<Rightarrow> [g]) exchanges)\<rparr>"

definition bodies :: "(pystr \<Rightarrow> blob_exc + bytes) \<Rightarrow> exchange_row list \<Rightarrow> bytes evidence" where
  "bodies read_blob exchanges =
     (let got = fetch read_blob exchanges in
      got\<lparr>ev_entries := map (\<lambda>(row, raw). (row, snd (split_head_body raw))) (ev_entries got)\<rparr>)"

definition responses :: "(pystr \<Rightarrow> blob_exc + bytes) \<Rightarrow> exchange_row list \<Rightarrow> bytes evidence" where
  "responses read_blob exchanges =
     (let got = fetch read_blob exchanges in
      got\<lparr>ev_entries := map (\<lambda>(row, raw). (row, fst (split_head_body raw))) (ev_entries got)\<rparr>)"

definition GAPS_SHOWN :: nat where
  "GAPS_SHOWN = 3"

definition gap_detail :: "pystr list \<Rightarrow> pystr" where
  "gap_detail gaps =
     (if gaps = [] then []
      else u '': '' @ join (u ''; '') (take GAPS_SHOWN gaps
        @ (if length gaps > GAPS_SHOWN then [u ''and '' @ dec_nat (length gaps - GAPS_SHOWN) @ u '' more''] else [])))"

definition passive_verdict :: "bytes evidence \<Rightarrow> found list \<Rightarrow> pystr list \<Rightarrow> store_exc + verdict" where
  "passive_verdict seen candidates claims =
     (if candidates \<noteq> [] then verdict_finding candidates (if ev_gaps seen \<noteq> [] then [] else claims)
      else if ev_entries seen = [] then
        verdict_inconclusive (u ''no response could be read for this surface'' @ gap_detail (ev_gaps seen))
      else if ev_gaps seen \<noteq> [] then
        verdict_inconclusive (u ''this surface's evidence is incomplete, so nothing found here separates `tested, clean` from `never reached`''
          @ gap_detail (ev_gaps seen))
      else verdict_clean claims)"

text \<open>What the runner gets of a check that returned or raised: a verdict that could not be built raised \<open>ValueError\<close>.\<close>

definition hand_over :: "store_exc + verdict \<Rightarrow> check_exc + returned" where
  "hand_over r = (case r of Inl e \<Rightarrow> Inl (store_raised e) | Inr v \<Rightarrow> Inr (AVerdict v))"

definition is_https :: "exchange_row \<Rightarrow> bool" where
  "is_https row \<longleftrightarrow> startswith (u ''https://'') (lower (ex_url row))"

section \<open>Cookie flags\<close>

definition SAFE_NAME :: "nat \<Rightarrow> bool" where
  "SAFE_NAME c \<longleftrightarrow> is_alpha c \<or> is_digit c \<or> c = 45 \<or> c = 46 \<or> c = 95"

text \<open>\<open>name.encode("utf-8", "surrogatepass")\<close>.\<close>

definition utf8_pass :: "nat \<Rightarrow> bytes" where
  "utf8_pass c =
     (case utf8_char c of
        Some bs \<Rightarrow> bs
      | None \<Rightarrow> [of_nat (0xE0 + c div 4096), of_nat (0x80 + c div 64 mod 64), of_nat (0x80 + c mod 64)])"

definition escape_byte :: "byte \<Rightarrow> pystr" where
  "escape_byte w =
     (let c = unat w in if SAFE_NAME c then [c] else [37, HEX_UPPER ! (c div 16), HEX_UPPER ! (c mod 16)])"

definition encode_name :: "pystr \<Rightarrow> pystr" where
  "encode_name name = concat (map escape_byte (concat (map utf8_pass name)))"

definition cookie_issue_type :: "pystr \<Rightarrow> pystr" where
  "cookie_issue_type name = u ''cookie-'' @ encode_name name @ u ''-flags''"

definition missing_flags :: "bool \<Rightarrow> pystr \<Rightarrow> pystr list" where
  "missing_flags https cookie =
     (let attrs = map (\<lambda>a. lower (hd (split1 61 (strip a)))) (tl (split1 59 cookie)) in
      map fst (filter (\<lambda>(f, want). want \<notin> set attrs \<and> (f \<noteq> u ''Secure'' \<or> https))
        [(u ''HttpOnly'', u ''httponly''), (u ''SameSite'', u ''samesite''), (u ''Secure'', u ''secure'')]))"

definition cookie_name :: "pystr \<Rightarrow> pystr" where
  "cookie_name cookie = strip (hd (split1 61 cookie))"

definition cookie_candidate :: "pystr \<Rightarrow> pystr \<Rightarrow> pystr list \<Rightarrow> store_exc + found" where
  "cookie_candidate row_id name missing =
     mk_candidate
       \<lparr>ca_issue_type_id = cookie_issue_type name,
        ca_title = u ''Cookie '' @ name @ u '' set without '' @ join (u '', '') missing,
        ca_description = Some (u ''The response set `'' @ name @ u ''` without '' @ join (u '', '') missing @ u ''.''),
        ca_impact = None,
        ca_remediation = Some (u ''Set the missing attributes on this cookie. HttpOnly keeps it out of reach of scripts; SameSite limits cross-site submission; Secure prevents it being sent over plaintext.''),
        ca_cwe = Some (if u ''HttpOnly'' \<in> set missing then u ''CWE-1004'' else u ''CWE-614''),
        ca_severity = (if u ''HttpOnly'' \<in> set missing then u ''Medium'' else u ''Low''), ca_confidence = u ''Certain'',
        ca_scope_level = u ''host'', ca_payload = None, ca_insertion = None\<rparr>
       [row_id]"

text \<open>The cookies of a response, with the row they came in.\<close>

definition cookies_of :: "bytes evidence \<Rightarrow> (exchange_row \<times> pystr) list" where
  "cookies_of seen = concat (map (\<lambda>(row, head). map (\<lambda>c. (row, c)) (header_values head (u ''set-cookie''))) (ev_entries seen))"

definition cookie_flags :: "(pystr \<Rightarrow> blob_exc + bytes) \<Rightarrow> exchange_row list \<Rightarrow> check_exc + returned" where
  "cookie_flags read_blob exchanges =
     (let seen = responses read_blob exchanges; cookies = cookies_of seen in
      hand_over
        (rbind (rmap (\<lambda>(row, c). cookie_candidate (ex_id row) (cookie_name c) (missing_flags (is_https row) c))
                  (filter (\<lambda>(row, c). missing_flags (is_https row) c \<noteq> []) cookies))
          (\<lambda>candidates. passive_verdict seen candidates (map (\<lambda>(row, c). cookie_issue_type (cookie_name c)) cookies))))"

section \<open>Security headers\<close>

record header_spec =
  hs_issue_type :: pystr
  hs_title :: pystr
  hs_cwe :: pystr
  hs_severity :: pystr
  hs_applies :: "bool \<Rightarrow> bool"
  hs_present :: "pystr list \<Rightarrow> pystr \<Rightarrow> bool"

definition SECURITY_HEADERS :: "header_spec list" where
  "SECURITY_HEADERS =
     [\<lparr>hs_issue_type = u ''missing-content-type-options'', hs_title = u ''X-Content-Type-Options'', hs_cwe = u ''CWE-16'',
       hs_severity = u ''Low'', hs_applies = (\<lambda>https. True),
       hs_present = (\<lambda>names csp. u ''x-content-type-options'' \<in> set names)\<rparr>,
      \<lparr>hs_issue_type = u ''missing-frame-protection'', hs_title = u ''frame protection (X-Frame-Options or CSP frame-ancestors)'',
       hs_cwe = u ''CWE-1021'', hs_severity = u ''Medium'', hs_applies = (\<lambda>https. True),
       hs_present = (\<lambda>names csp. u ''x-frame-options'' \<in> set names \<or> contains (u ''frame-ancestors'') csp)\<rparr>,
      \<lparr>hs_issue_type = u ''missing-hsts'', hs_title = u ''Strict-Transport-Security'', hs_cwe = u ''CWE-319'',
       hs_severity = u ''Low'', hs_applies = (\<lambda>https. https),
       hs_present = (\<lambda>names csp. u ''strict-transport-security'' \<in> set names)\<rparr>]"

definition DOCUMENT_TYPES :: "pystr list" where
  "DOCUMENT_TYPES = [u ''text/html'', u ''application/xhtml+xml'']"

definition is_document :: "bytes \<Rightarrow> bool" where
  "is_document head \<longleftrightarrow>
     (\<exists>t \<in> set DOCUMENT_TYPES. contains t (lower (join (u '' '') (header_values head (u ''content-type'')))))"

definition applicable_specs :: "exchange_row \<Rightarrow> header_spec list" where
  "applicable_specs row = filter (\<lambda>spec. hs_applies spec (is_https row)) SECURITY_HEADERS"

definition missing_specs :: "exchange_row \<Rightarrow> bytes \<Rightarrow> header_spec list" where
  "missing_specs row head =
     (let names = map lower (header_names head); csp = join (u '' '') (header_values head (u ''content-security-policy'')) in
      filter (\<lambda>spec. \<not> hs_present spec names csp) (applicable_specs row))"

definition header_candidate :: "pystr \<Rightarrow> header_spec \<Rightarrow> store_exc + found" where
  "header_candidate row_id spec =
     mk_candidate
       \<lparr>ca_issue_type_id = hs_issue_type spec, ca_title = u ''Missing '' @ hs_title spec,
        ca_description = Some (u ''This document response did not carry '' @ hs_title spec @ u ''.''), ca_impact = None,
        ca_remediation = Some (u ''Set '' @ hs_title spec @ u '' on document responses.''), ca_cwe = Some (hs_cwe spec),
        ca_severity = hs_severity spec, ca_confidence = u ''Certain'', ca_scope_level = u ''surface'', ca_payload = None,
        ca_insertion = None\<rparr>
       [row_id]"

text \<open>The loop over the documents, which stops at the first that lacks something.\<close>

fun header_loop :: "(exchange_row \<times> bytes) list \<Rightarrow> pystr list \<times> (pystr \<times> header_spec) list" where
  "header_loop [] = ([], [])"
| "header_loop ((row, head) # entries) =
     (if \<not> is_document head then header_loop entries
      else
        let claims = map hs_issue_type (applicable_specs row); missing = missing_specs row head in
        if missing \<noteq> [] then (claims, map (\<lambda>spec. (ex_id row, spec)) missing)
        else (case header_loop entries of (cs, ms) \<Rightarrow> (claims @ cs, ms)))"

definition security_headers :: "(pystr \<Rightarrow> blob_exc + bytes) \<Rightarrow> exchange_row list \<Rightarrow> check_exc + returned" where
  "security_headers read_blob exchanges =
     (let seen = responses read_blob exchanges in
      case header_loop (ev_entries seen) of (claims, missing) \<Rightarrow>
        hand_over (rbind (rmap (\<lambda>(row_id, spec). header_candidate row_id spec) missing)
          (\<lambda>candidates. passive_verdict seen candidates claims)))"

section \<open>Stack traces\<close>

record disclosure =
  dc_pattern :: "atom list"
  dc_what :: pystr
  dc_issue_type :: pystr

definition TRACE_PATTERNS :: "disclosure list" where
  "TRACE_PATTERNS =
     [\<lparr>dc_pattern = [Lit (b ''Traceback (most recent call last):'')], dc_what = u ''a Python traceback'',
       dc_issue_type = u ''python-traceback-disclosed''\<rparr>,
      \<lparr>dc_pattern = [Lit [10], Class space_byte 0 None, Lit (b ''at ''), Class (\<lambda>w. word_byte w \<or> w = 46 \<or> w = 36) 1 None,
         Lit (b ''(''), Class (\<lambda>w. word_byte w \<or> w = 46) 1 None, Lit (b ''.java:''), Class digit_byte 1 None, Lit (b '')'')],
       dc_what = u ''a Java stack trace'', dc_issue_type = u ''java-stack-trace-disclosed''\<rparr>,
      \<lparr>dc_pattern = [Lit (b ''PHP ''), OneOf [b ''Fatal'', b ''Parse'', b ''Warning''], Lit (b '' error:'')],
       dc_what = u ''a PHP error'', dc_issue_type = u ''php-error-disclosed''\<rparr>,
      \<lparr>dc_pattern = [Lit (b ''<title>Server Error in ''), Class (\<lambda>w. w \<noteq> 10) 0 None, Lit (b '' Application.</title>'')],
       dc_what = u ''an ASP.NET error page'', dc_issue_type = u ''aspnet-error-page-disclosed''\<rparr>,
      \<lparr>dc_pattern = [Boundary, Lit (b ''at ''), Class (\<lambda>w. word_byte w \<or> w = 46) 1 None, Lit (b '' (''),
         Class (\<lambda>w. w \<noteq> 10) 0 None, Lit (b '':''), Class digit_byte 1 None, Lit (b '':''), Class digit_byte 1 None, Lit (b '')'')],
       dc_what = u ''a Node.js stack trace'', dc_issue_type = u ''nodejs-stack-trace-disclosed''\<rparr>]"

text \<open>The inner loop: the issue types looked at, and the first pattern that is found.\<close>

fun trace_loop :: "bytes \<Rightarrow> disclosure list \<Rightarrow> pystr list \<times> disclosure option" where
  "trace_loop body [] = ([], None)"
| "trace_loop body (d # ds) =
     (if re_search (dc_pattern d) body then ([dc_issue_type d], Some d)
      else (case trace_loop body ds of (cs, r) \<Rightarrow> (dc_issue_type d # cs, r)))"

definition trace_candidate :: "pystr \<Rightarrow> disclosure \<Rightarrow> store_exc + found" where
  "trace_candidate row_id d =
     mk_candidate
       \<lparr>ca_issue_type_id = dc_issue_type d, ca_title = u ''Response discloses '' @ dc_what d,
        ca_description = Some (u ''The response body carried framework error output, which reveals internal paths, versions and code structure.''),
        ca_impact = None, ca_remediation = Some (u ''Return a generic error page and log the detail server-side.''),
        ca_cwe = Some (u ''CWE-209''), ca_severity = u ''Low'', ca_confidence = u ''Firm'', ca_scope_level = u ''surface'',
        ca_payload = None, ca_insertion = None\<rparr>
       [row_id]"

definition stack_trace :: "(pystr \<Rightarrow> blob_exc + bytes) \<Rightarrow> exchange_row list \<Rightarrow> check_exc + returned" where
  "stack_trace read_blob exchanges =
     (let seen = bodies read_blob exchanges;
          looked = map (\<lambda>(row, body). (row, trace_loop body TRACE_PATTERNS)) (ev_entries seen) in
      hand_over
        (rbind (rmap (\<lambda>(row_id, d). trace_candidate row_id d)
                  (concat (map (\<lambda>(row, _, r). case r of None \<Rightarrow> [] | Some d \<Rightarrow> [(ex_id row, d)]) looked)))
          (\<lambda>candidates. passive_verdict seen candidates (concat (map (\<lambda>(row, cs, r). cs) looked)))))"

section \<open>Secrets\<close>

record secret_spec =
  sp_pattern :: "atom list"
  sp_what :: pystr
  sp_severity :: pystr
  sp_cwe :: pystr
  sp_issue_type :: pystr

definition upper_digit :: "byte \<Rightarrow> bool" where
  "upper_digit w \<longleftrightarrow> 65 \<le> unat w \<and> unat w \<le> 90 \<or> digit_byte w"

definition alnum_byte :: "byte \<Rightarrow> bool" where
  "alnum_byte w \<longleftrightarrow> is_alpha (unat w) \<or> is_digit (unat w)"

definition SECRET_PATTERNS :: "secret_spec list" where
  "SECRET_PATTERNS =
     [\<lparr>sp_pattern = [Lit (b ''-----BEGIN ''), OneOf [b ''RSA '', b ''EC '', b ''OPENSSH '', b ''PGP '', []], Lit (b ''PRIVATE KEY-----'')],
       sp_what = u ''a private key block'', sp_severity = u ''High'', sp_cwe = u ''CWE-312'', sp_issue_type = u ''private-key-in-response''\<rparr>,
      \<lparr>sp_pattern = [Boundary, OneOf [b ''AKIA'', b ''ASIA''], Class upper_digit 16 (Some 16), Boundary],
       sp_what = u ''an AWS access key id'', sp_severity = u ''High'', sp_cwe = u ''CWE-312'',
       sp_issue_type = u ''aws-access-key-in-response''\<rparr>,
      \<lparr>sp_pattern = [Boundary, Lit (b ''ghp_''), Class alnum_byte 36 (Some 36), Boundary],
       sp_what = u ''a GitHub personal access token'', sp_severity = u ''High'', sp_cwe = u ''CWE-312'',
       sp_issue_type = u ''github-token-in-response''\<rparr>,
      \<lparr>sp_pattern = [Boundary, Lit (b ''xox''), OneOf [b ''b'', b ''a'', b ''p'', b ''r'', b ''s''], Lit (b ''-''),
         Class (\<lambda>w. alnum_byte w \<or> w = 45) 10 None, Boundary],
       sp_what = u ''a Slack token'', sp_severity = u ''High'', sp_cwe = u ''CWE-312'', sp_issue_type = u ''slack-token-in-response''\<rparr>]"

definition SECRET_ISSUE_TYPES :: "pystr list" where
  "SECRET_ISSUE_TYPES = map sp_issue_type SECRET_PATTERNS"

definition secret_candidate :: "pystr \<Rightarrow> secret_spec \<Rightarrow> store_exc + found" where
  "secret_candidate row_id d =
     mk_candidate
       \<lparr>ca_issue_type_id = sp_issue_type d, ca_title = u ''Response contains '' @ sp_what d,
        ca_description = Some (u ''The response body matched the shape of '' @ sp_what d
          @ u ''. The value itself is deliberately not reproduced here; it is in the stored exchange.''),
        ca_impact = None, ca_remediation = Some (u ''Remove the credential from the response and rotate it, in that order.''),
        ca_cwe = Some (sp_cwe d), ca_severity = sp_severity d, ca_confidence = u ''Firm'', ca_scope_level = u ''surface'',
        ca_payload = None, ca_insertion = None\<rparr>
       [row_id]"

definition secret_in_response :: "(pystr \<Rightarrow> blob_exc + bytes) \<Rightarrow> exchange_row list \<Rightarrow> check_exc + returned" where
  "secret_in_response read_blob exchanges =
     (let seen = bodies read_blob exchanges in
      hand_over
        (rbind (rmap (\<lambda>(row_id, d). secret_candidate row_id d)
                  (concat (map (\<lambda>(row, body). map (\<lambda>d. (ex_id row, d)) (filter (\<lambda>d. re_search (sp_pattern d) body) SECRET_PATTERNS))
                     (ev_entries seen))))
          (\<lambda>candidates. passive_verdict seen candidates SECRET_ISSUE_TYPES)))"

section \<open>The checks as the registry holds them\<close>

definition passive_check :: "string \<Rightarrow> pystr \<Rightarrow> (exchange_row list \<Rightarrow> check_exc + returned) \<Rightarrow> scan_check" where
  "passive_check name looks_for on_surface =
     \<lparr>ck_decl = \<lparr>cd_id = u name, cd_version = u ''1'', cd_class = u ''passive'', cd_hooks = [u ''on_surface''],
        cd_insertion_kinds = [], cd_looks_for = Some (JStr looks_for)\<rparr>,
      ck_on_surface = (\<lambda>surface. on_surface), ck_probes = (\<lambda>_ _ _. Raise (Raised (u ''AttributeError'') []))\<rparr>"

definition passive_checks :: "(pystr \<Rightarrow> blob_exc + bytes) \<Rightarrow> scan_check list" where
  "passive_checks read_blob =
     [passive_check ''hx.passive.cookie-flags'' (u ''cookies set without the Secure, HttpOnly or SameSite flags'') (cookie_flags read_blob),
      passive_check ''hx.passive.security-headers''
        (u ''three response headers: X-Content-Type-Options, frame protection, and HSTS'') (security_headers read_blob),
      passive_check ''hx.passive.secret-in-response'' (u ''credentials and keys disclosed in a response body'')
        (secret_in_response read_blob),
      passive_check ''hx.passive.stack-trace'' (u ''stack traces and debug output returned to a client'') (stack_trace read_blob)]"

end
