(* ===== verification/Passive_Laws.thy ===== *)
theory Passive_Laws
  imports Passive
begin

text \<open>
  What a passive check says is what it read. Each of the four shipped checks answers with a verdict the framework accepts,
  cites only responses it read, and claims to have looked, by \<open>clean\<close> or by the issue types it names as examined, only
  when every exchange of the surface was read whole.
\<close>

section \<open>Evidence\<close>

text \<open>The exchange came back whole, and its response can be read.\<close>

definition read_whole :: "(pystr \<Rightarrow> blob_exc + bytes) \<Rightarrow> exchange_row \<Rightarrow> bool" where
  "read_whole read_blob x \<longleftrightarrow>
     ex_outcome x = u ''ok'' \<and> (\<exists>digest raw. ex_resp_blob x = Some digest \<and> digest \<noteq> [] \<and> read_blob digest = Inr raw)"

lemma fetch_row_whole: "snd (fetch_row read_blob x) = None \<Longrightarrow> read_whole read_blob x"
  by (auto simp: fetch_row_def read_whole_def Let_def split: if_splits option.splits sum.splits)

definition evidence_of :: "(pystr \<Rightarrow> blob_exc + bytes) \<Rightarrow> exchange_row list \<Rightarrow> 'a evidence \<Rightarrow> bool" where
  "evidence_of read_blob exchanges seen \<longleftrightarrow>
     fst ` set (ev_entries seen) \<subseteq> set exchanges
     \<and> (ev_gaps seen = [] \<longrightarrow> (\<forall>x \<in> set exchanges. read_whole read_blob x))"

lemma evidence_fetch: "evidence_of read_blob exchanges (fetch read_blob exchanges)"
  unfolding evidence_of_def fetch_def
  by (auto simp: concat_eq_Nil_conv intro!: fetch_row_whole split: option.splits)

lemma evidence_bodies: "evidence_of read_blob exchanges (bodies read_blob exchanges)"
  using evidence_fetch [of read_blob exchanges] by (auto simp: bodies_def evidence_of_def Let_def)

lemma evidence_responses: "evidence_of read_blob exchanges (responses read_blob exchanges)"
  using evidence_fetch [of read_blob exchanges] by (auto simp: responses_def evidence_of_def Let_def)

section \<open>Candidates\<close>

text \<open>A candidate its own constructor accepts, without an insertion point, that cites one of these exchanges.\<close>

definition sound_found :: "exchange_row list \<Rightarrow> pystr set \<Rightarrow> found \<Rightarrow> bool" where
  "sound_found exchanges types f \<longleftrightarrow>
     mk_candidate (fo_candidate f) (fo_exchanges f) = Inr f \<and> ca_insertion (fo_candidate f) = None
     \<and> (\<exists>x \<in> set exchanges. fo_exchanges f = [ex_id x]) \<and> ca_issue_type_id (fo_candidate f) \<in> types"

lemma mk_candidate_ok:
  assumes "ca_title c \<noteq> []" "ca_issue_type_id c \<noteq> []" "ca_severity c \<in> set SEVERITIES" "ca_confidence c \<in> set CONFIDENCES"
    "ca_scope_level c \<in> fst ` set SCOPE_BLANKS" "i \<noteq> []"
  shows "mk_candidate c [i] = Inr \<lparr>fo_candidate = c, fo_exchanges = [i]\<rparr>"
  using assms by (simp add: mk_candidate_def)

lemma vocabulary:
  "u ''Low'' \<in> set SEVERITIES" "u ''Medium'' \<in> set SEVERITIES" "u ''High'' \<in> set SEVERITIES"
  "u ''Certain'' \<in> set CONFIDENCES" "u ''Firm'' \<in> set CONFIDENCES" "u ''Tentative'' \<in> set CONFIDENCES"
  "u ''host'' \<in> fst ` set SCOPE_BLANKS" "u ''surface'' \<in> fst ` set SCOPE_BLANKS"
  by (simp_all add: SEVERITIES_def CONFIDENCES_def SCOPE_BLANKS_def)

lemma u_append_Nil [simp]: "u (c # s) @ t = [] \<longleftrightarrow> False" "u (c # s) = [] \<longleftrightarrow> False"
  by (simp_all add: u_def)

text \<open>A list of candidates that are all built.\<close>

lemma rmap_sound:
  assumes "\<And>x. x \<in> set xs \<Longrightarrow> \<exists>f. g x = Inr f \<and> P f"
  obtains fs where "rmap g xs = Inr fs" "\<forall>f \<in> set fs. P f" "fs = [] \<longleftrightarrow> xs = []"
proof -
  have "\<exists>fs. rmap g xs = Inr fs \<and> (\<forall>f \<in> set fs. P f) \<and> (fs = [] \<longleftrightarrow> xs = [])"
    using assms
  proof (induction xs)
    case (Cons x xs)
    then obtain f fs where "g x = Inr f" "P f" "rmap g xs = Inr fs" "\<forall>f \<in> set fs. P f" by fastforce
    then show ?case by simp
  qed simp
  with that show thesis by blast
qed

section \<open>Verdicts\<close>

text \<open>What an honest verdict claims.\<close>

definition honest :: "(pystr \<Rightarrow> blob_exc + bytes) \<Rightarrow> exchange_row list \<Rightarrow> verdict \<Rightarrow> bool" where
  "honest read_blob exchanges v \<longleftrightarrow>
     build_verdict v = Inr v
     \<and> (vd_state v = u ''clean'' \<or> vd_considered v \<noteq> [] \<longrightarrow> exchanges \<noteq> [] \<and> (\<forall>x \<in> set exchanges. read_whole read_blob x))
     \<and> (\<forall>f \<in> set (vd_candidates v). \<exists>x \<in> set exchanges. fo_exchanges f = [ex_id x])
     \<and> (vd_considered v \<noteq> [] \<longrightarrow> (\<forall>f \<in> set (vd_candidates v). ca_issue_type_id (fo_candidate f) \<in> set (vd_considered v)))"

lemma build_sound:
  assumes "\<forall>f \<in> set fs. sound_found exchanges T f"
  shows "rmap (\<lambda>f. rbind (case ca_insertion (fo_candidate f) of None \<Rightarrow> Inr ()
      | Some i \<Rightarrow> rbind (mk_insertion (ins_kind i) (ins_name i)) (\<lambda>_. Inr ()))
    (\<lambda>_. mk_candidate (fo_candidate f) (fo_exchanges f))) fs = Inr fs"
  using assms by (induction fs) (auto simp: sound_found_def)

lemma passive_verdict_honest:
  assumes seen: "evidence_of read_blob exchanges seen" and fs: "\<forall>f \<in> set fs. sound_found exchanges (set claims) f"
    and read: "fs \<noteq> [] \<Longrightarrow> ev_entries seen \<noteq> []" and claims: "[] \<notin> set claims"
  obtains v where "passive_verdict seen fs claims = Inr v" "honest read_blob exchanges v"
proof -
  have whole: "exchanges \<noteq> [] \<and> (\<forall>x \<in> set exchanges. read_whole read_blob x)" if "ev_gaps seen = []" "ev_entries seen \<noteq> []"
    using seen that by (cases "ev_entries seen") (auto simp: evidence_of_def)
  have lits: "u ''finding'' \<noteq> u ''clean''" "u ''inconclusive'' \<noteq> u ''clean''" "u ''finding'' \<noteq> u ''inconclusive''"
    by (simp_all add: literals)
  have fsn: "build_verdict v = Inr v" if "vd_candidates v = fs" "mk_verdict (vd_state v) fs (vd_reason v) (vd_considered v) = Inr v" for v
    using build_sound [OF fs] that by (simp add: build_verdict_def)
  have none: "build_verdict v = Inr v" if "vd_candidates v = []" "mk_verdict (vd_state v) [] (vd_reason v) (vd_considered v) = Inr v" for v
    using that by (simp add: build_verdict_def)
  show thesis
  proof (cases "fs = []")
    case False
    let ?v = "\<lparr>vd_state = u ''finding'', vd_candidates = fs, vd_reason = None,
        vd_considered = if ev_gaps seen \<noteq> [] then [] else claims\<rparr>"
    have mk: "mk_verdict (u ''finding'') fs None (if ev_gaps seen \<noteq> [] then [] else claims) = Inr ?v"
      using False claims lits by (simp add: mk_verdict_def VERDICT_STATES_def)
    then have "honest read_blob exchanges ?v"
      using fsn [of ?v] fs whole read [OF False] lits by (auto simp: honest_def sound_found_def split: if_splits)
    with mk False show thesis by (intro that [of ?v]) (simp_all add: passive_verdict_def verdict_finding_def)
  next
    case True
    have inc: "\<exists>v. verdict_inconclusive (u (c # s) @ t) = Inr v \<and> honest read_blob exchanges v" for c s t
      using lits none [of "\<lparr>vd_state = u ''inconclusive'', vd_candidates = [], vd_reason = Some (u (c # s) @ t), vd_considered = []\<rparr>"]
      by (simp add: verdict_inconclusive_def mk_verdict_def VERDICT_STATES_def honest_def)
    have cl: "\<exists>v. verdict_clean claims = Inr v \<and> honest read_blob exchanges v" if "ev_gaps seen = []" "ev_entries seen \<noteq> []"
      using claims lits none [of "\<lparr>vd_state = u ''clean'', vd_candidates = [], vd_reason = None, vd_considered = claims\<rparr>"] whole [OF that]
      by (simp add: verdict_clean_def mk_verdict_def VERDICT_STATES_def honest_def)
    show thesis
    proof (cases "ev_entries seen = [] \<or> ev_gaps seen \<noteq> []")
      case True
      have "\<exists>c s t. passive_verdict seen fs claims = verdict_inconclusive (u (c # s) @ t)"
      proof (cases "ev_entries seen = []")
        case True
        with \<open>fs = []\<close> show ?thesis by (simp add: passive_verdict_def) blast
      next
        case False
        with True \<open>fs = []\<close> show ?thesis by (simp add: passive_verdict_def) blast
      qed
      then obtain c s t where "passive_verdict seen fs claims = verdict_inconclusive (u (c # s) @ t)" by blast
      moreover obtain v where "verdict_inconclusive (u (c # s) @ t) = Inr v" "honest read_blob exchanges v"
        using inc [of c s t] by blast
      ultimately show thesis by (intro that [of v]) simp_all
    next
      case False
      then obtain v where "verdict_clean claims = Inr v" "honest read_blob exchanges v" using cl by blast
      moreover have "passive_verdict seen fs claims = verdict_clean claims"
        using False \<open>fs = []\<close> by (simp add: passive_verdict_def)
      ultimately show thesis by (intro that [of v]) simp_all
    qed
  qed
qed

section \<open>The four checks\<close>

definition honest_result :: "(pystr \<Rightarrow> blob_exc + bytes) \<Rightarrow> exchange_row list \<Rightarrow> check_exc + returned \<Rightarrow> bool" where
  "honest_result read_blob exchanges r \<longleftrightarrow> (\<exists>v. r = Inr (AVerdict v) \<and> honest read_blob exchanges v)"

text \<open>The shape all four share: candidates from what was seen, then the verdict.\<close>

lemma check_honest:
  assumes "evidence_of read_blob exchanges seen" "\<And>x. x \<in> set xs \<Longrightarrow> \<exists>f. g x = Inr f \<and> sound_found exchanges (set claims) f"
    "xs \<noteq> [] \<Longrightarrow> ev_entries seen \<noteq> []" "[] \<notin> set claims"
  shows "honest_result read_blob exchanges (hand_over (rbind (rmap g xs) (\<lambda>fs. passive_verdict seen fs claims)))"
proof -
  obtain fs where fs: "rmap g xs = Inr fs" "\<forall>f \<in> set fs. sound_found exchanges (set claims) f" "fs = [] \<longleftrightarrow> xs = []"
    using rmap_sound [of xs g "sound_found exchanges (set claims)", OF assms(2)] by blast
  obtain v where "passive_verdict seen fs claims = Inr v" "honest read_blob exchanges v"
    using passive_verdict_honest [OF assms(1) fs(2) _ assms(4)] fs(3) assms(3) by blast
  with fs(1) show ?thesis by (simp add: honest_result_def hand_over_def)
qed

lemma sound_candidate:
  assumes "x \<in> set exchanges" "ex_id x \<noteq> []" "ca_title c \<noteq> []" "ca_issue_type_id c \<noteq> []" "ca_severity c \<in> set SEVERITIES"
    "ca_confidence c \<in> set CONFIDENCES" "ca_scope_level c \<in> fst ` set SCOPE_BLANKS" "ca_insertion c = None"
    "ca_issue_type_id c \<in> T"
  shows "\<exists>f. mk_candidate c [ex_id x] = Inr f \<and> sound_found exchanges T f"
proof -
  note m = mk_candidate_ok [OF assms(3-7,2)]
  show ?thesis
    by (rule exI [of _ "\<lparr>fo_candidate = c, fo_exchanges = [ex_id x]\<rparr>"]) (use m assms(1,8,9) in \<open>auto simp: sound_found_def\<close>)
qed

lemma cookie_type_not_Nil [simp]: "cookie_issue_type n \<noteq> []" "[] \<noteq> cookie_issue_type n"
  by (simp_all add: cookie_issue_type_def u_def)

lemma cookie_flags_honest:
  assumes "\<forall>x \<in> set exchanges. ex_id x \<noteq> []"
  shows "honest_result read_blob exchanges (cookie_flags read_blob exchanges)"
proof -
  let ?seen = "responses read_blob exchanges"
  have row: "fst x \<in> set exchanges \<and> ev_entries ?seen \<noteq> []" if "x \<in> set (cookies_of ?seen)" for x
    using that evidence_responses [of read_blob exchanges] by (auto simp: cookies_of_def evidence_of_def)
  show ?thesis
    unfolding cookie_flags_def Let_def
  proof (rule check_honest [OF evidence_responses])
    fix p assume p: "p \<in> set (filter (\<lambda>(row, c). missing_flags (is_https row) c \<noteq> []) (cookies_of ?seen))"
    obtain x c where x: "p = (x, c)" by (cases p)
    with p row [of p] assms have "x \<in> set exchanges" "ex_id x \<noteq> []" "(x, c) \<in> set (cookies_of ?seen)" by auto
    moreover from this(3) have "(\<lambda>(row, c). cookie_issue_type (cookie_name c)) (x, c)
        \<in> set (map (\<lambda>(row, c). cookie_issue_type (cookie_name c)) (cookies_of ?seen))" unfolding set_map by (rule imageI)
    ultimately show "\<exists>f. (case p of (row, c) \<Rightarrow> cookie_candidate (ex_id row) (cookie_name c) (missing_flags (is_https row) c)) = Inr f
        \<and> sound_found exchanges (set (map (\<lambda>(row, c). cookie_issue_type (cookie_name c)) (cookies_of ?seen))) f"
      unfolding x cookie_candidate_def prod.case
      by (intro sound_candidate) (simp_all add: vocabulary)
  qed (use row in \<open>auto simp: filter_empty_conv\<close>)
qed

lemma spec_ok: "spec \<in> set SECURITY_HEADERS \<Longrightarrow> hs_issue_type spec \<noteq> [] \<and> hs_severity spec \<in> set SEVERITIES"
  by (auto simp: SECURITY_HEADERS_def vocabulary)

lemma header_loop_sound:
  "header_loop entries = (claims, missing) \<Longrightarrow>
     set claims \<subseteq> hs_issue_type ` set SECURITY_HEADERS
     \<and> (\<forall>(i, spec) \<in> set missing. i \<in> (\<lambda>(x, h). ex_id x) ` set entries \<and> spec \<in> set SECURITY_HEADERS \<and> hs_issue_type spec \<in> set claims)"
proof (induction entries arbitrary: claims missing)
  case (Cons e entries)
  obtain x h where e: "e = (x, h)" by (cases e)
  obtain cs ms where r: "header_loop entries = (cs, ms)" by (cases "header_loop entries")
  have sub: "set (missing_specs x h) \<subseteq> set (applicable_specs x)" "set (applicable_specs x) \<subseteq> set SECURITY_HEADERS"
    by (auto simp: missing_specs_def applicable_specs_def Let_def)
  show ?case
  proof (cases "is_document h")
    case False
    with Cons.prems Cons.IH show ?thesis by (fastforce simp: e)
  next
    case True
    show ?thesis
    proof (cases "missing_specs x h = []")
      case empty: True
      with Cons.prems True have "claims = map hs_issue_type (applicable_specs x) @ cs" "missing = ms" by (auto simp: e r Let_def)
      with Cons.IH [OF r] sub(2) show ?thesis by (fastforce simp: e)
    next
      case False
      with Cons.prems True have "claims = map hs_issue_type (applicable_specs x)" "missing = map (\<lambda>spec. (ex_id x, spec)) (missing_specs x h)"
        by (auto simp: e Let_def)
      with sub show ?thesis by (fastforce simp: e)
    qed
  qed
qed simp

lemma security_headers_honest:
  assumes "\<forall>x \<in> set exchanges. ex_id x \<noteq> []"
  shows "honest_result read_blob exchanges (security_headers read_blob exchanges)"
proof -
  let ?seen = "responses read_blob exchanges"
  obtain claims missing where l: "header_loop (ev_entries ?seen) = (claims, missing)" by (metis prod.exhaust)
  note s = header_loop_sound [OF l]
  have "honest_result read_blob exchanges (hand_over (rbind (rmap (\<lambda>(row_id, spec). header_candidate row_id spec) missing)
      (\<lambda>candidates. passive_verdict ?seen candidates claims)))"
  proof (rule check_honest [OF evidence_responses])
    fix p assume p: "p \<in> set missing"
    obtain i spec where "p = (i, spec)" by (cases p)
    with p s obtain x h where x: "p = (ex_id x, spec)" "(x, h) \<in> set (ev_entries ?seen)" "spec \<in> set SECURITY_HEADERS"
      "hs_issue_type spec \<in> set claims" by auto
    then have "x \<in> set exchanges" using evidence_responses [of read_blob exchanges] by (force simp: evidence_of_def)
    with x(3,4) assms spec_ok [OF x(3)]
    show "\<exists>f. (case p of (row_id, spec) \<Rightarrow> header_candidate row_id spec) = Inr f \<and> sound_found exchanges (set claims) f"
      unfolding x(1) header_candidate_def prod.case
      by (intro sound_candidate) (simp_all add: vocabulary)
  next
    show "ev_entries ?seen \<noteq> []" if "missing \<noteq> []" using that l by auto
    show "[] \<notin> set claims" using s spec_ok by fastforce
  qed
  then show ?thesis by (simp add: security_headers_def Let_def l)
qed

lemma trace_loop_sound:
  "trace_loop body ds = (cs, r) \<Longrightarrow>
     set cs \<subseteq> dc_issue_type ` set ds \<and> (\<forall>d. r = Some d \<longrightarrow> d \<in> set ds \<and> dc_issue_type d \<in> set cs)"
  by (induction ds arbitrary: cs r) (fastforce split: if_splits prod.splits)+

lemma trace_ok: "d \<in> set TRACE_PATTERNS \<Longrightarrow> dc_issue_type d \<noteq> []"
  by (auto simp: TRACE_PATTERNS_def)

lemma stack_trace_honest:
  assumes "\<forall>x \<in> set exchanges. ex_id x \<noteq> []"
  shows "honest_result read_blob exchanges (stack_trace read_blob exchanges)"
proof -
  let ?seen = "bodies read_blob exchanges"
  let ?looked = "map (\<lambda>(row, body). (row, trace_loop body TRACE_PATTERNS)) (ev_entries ?seen)"
  let ?claims = "concat (map (\<lambda>(row, cs, r). cs) ?looked)"
  have look: "x \<in> set exchanges \<and> set cs \<subseteq> dc_issue_type ` set TRACE_PATTERNS
      \<and> (\<forall>d. r = Some d \<longrightarrow> d \<in> set TRACE_PATTERNS \<and> dc_issue_type d \<in> set ?claims)" if "(x, cs, r) \<in> set ?looked" for x cs r
  proof -
    from that obtain body where b: "(x, body) \<in> set (ev_entries ?seen)" "trace_loop body TRACE_PATTERNS = (cs, r)" by auto
    moreover from b(1) have "x \<in> set exchanges" using evidence_bodies [of read_blob exchanges] by (force simp: evidence_of_def)
    moreover have "set cs \<subseteq> set ?claims" using that by force
    ultimately show ?thesis using trace_loop_sound [OF b(2)] by blast
  qed
  show ?thesis
    unfolding stack_trace_def Let_def
  proof (rule check_honest [OF evidence_bodies])
    fix p assume "p \<in> set (concat (map (\<lambda>(row, _, r). case r of None \<Rightarrow> [] | Some d \<Rightarrow> [(ex_id row, d)]) ?looked))"
    then obtain y where y: "y \<in> set ?looked" "p \<in> set ((\<lambda>(row, _, r). case r of None \<Rightarrow> [] | Some d \<Rightarrow> [(ex_id row, d)]) y)"
      unfolding set_concat set_map by blast
    obtain x cs r where "y = (x, cs, r)" by (cases y)
    with y(2) obtain d where "y = (x, cs, Some d)" and x2: "p = (ex_id x, d)" by (cases r) auto
    with y(1) have x: "(x, cs, Some d) \<in> set ?looked" "p = (ex_id x, d)" by (simp_all only:)
    show "\<exists>f. (case p of (row_id, d) \<Rightarrow> trace_candidate row_id d) = Inr f \<and> sound_found exchanges (set ?claims) f"
      unfolding x(2) trace_candidate_def prod.case
      using look [OF x(1)] assms trace_ok [of d] by (intro sound_candidate) (simp_all add: vocabulary)
  next
    show "[] \<notin> set ?claims"
    proof
      assume "[] \<in> set ?claims"
      then obtain y where y: "y \<in> set ?looked" "[] \<in> set ((\<lambda>(row, cs, r). cs) y)" unfolding set_concat set_map by blast
      obtain x cs r where e: "y = (x, cs, r)" by (cases y)
      with y(1) have "(x, cs, r) \<in> set ?looked" by (simp only:)
      with look have "set cs \<subseteq> dc_issue_type ` set TRACE_PATTERNS" by blast
      with y(2) e trace_ok show False by fastforce
    qed
  qed auto
qed

lemma secret_ok: "d \<in> set SECRET_PATTERNS \<Longrightarrow> sp_issue_type d \<noteq> [] \<and> sp_severity d \<in> set SEVERITIES"
  by (auto simp: SECRET_PATTERNS_def vocabulary)

lemma secret_in_response_honest:
  assumes "\<forall>x \<in> set exchanges. ex_id x \<noteq> []"
  shows "honest_result read_blob exchanges (secret_in_response read_blob exchanges)"
proof -
  let ?seen = "bodies read_blob exchanges"
  show ?thesis
    unfolding secret_in_response_def Let_def
  proof (rule check_honest [OF evidence_bodies])
    fix p assume "p \<in> set (concat (map (\<lambda>(row, body). map (\<lambda>d. (ex_id row, d)) (filter (\<lambda>d. re_search (sp_pattern d) body) SECRET_PATTERNS))
        (ev_entries ?seen)))"
    then obtain x body d where x: "(x, body) \<in> set (ev_entries ?seen)" "p = (ex_id x, d)" "d \<in> set SECRET_PATTERNS" by auto
    then have "x \<in> set exchanges" using evidence_bodies [of read_blob exchanges] by (force simp: evidence_of_def)
    then show "\<exists>f. (case p of (row_id, d) \<Rightarrow> secret_candidate row_id d) = Inr f \<and> sound_found exchanges (set SECRET_ISSUE_TYPES) f"
      unfolding x(2) secret_candidate_def prod.case
      using assms secret_ok [OF x(3)] x(3) by (intro sound_candidate) (simp_all add: vocabulary SECRET_ISSUE_TYPES_def)
  next
    show "[] \<notin> set SECRET_ISSUE_TYPES" unfolding SECRET_ISSUE_TYPES_def set_map using secret_ok by (metis imageE)
  qed auto
qed

text \<open>C26. A shipped passive check never fails and never overstates: it returns a verdict the framework accepts; it answers \<open>clean\<close>,
  or names an issue type as examined, only when there were exchanges and every one of them came back whole
  and was read; each finding cites one exchange of the surface, and its type is among those it says it examined.\<close>

theorem passive_checks_honest:
  assumes "ck \<in> set (passive_checks read_blob)" "\<forall>x \<in> set exchanges. ex_id x \<noteq> []"
  shows "\<exists>v. ck_on_surface ck surface exchanges = Inr (AVerdict v) \<and> build_verdict v = Inr v
    \<and> (vd_state v = u ''clean'' \<or> vd_considered v \<noteq> [] \<longrightarrow> exchanges \<noteq> [] \<and> (\<forall>x \<in> set exchanges. read_whole read_blob x))
    \<and> (\<forall>f \<in> set (vd_candidates v). \<exists>x \<in> set exchanges. fo_exchanges f = [ex_id x])
    \<and> (vd_considered v \<noteq> [] \<longrightarrow> (\<forall>f \<in> set (vd_candidates v). ca_issue_type_id (fo_candidate f) \<in> set (vd_considered v)))"
proof -
  have "honest_result read_blob exchanges (ck_on_surface ck surface exchanges)"
    using assms(1) cookie_flags_honest [OF assms(2), of read_blob] security_headers_honest [OF assms(2), of read_blob]
      stack_trace_honest [OF assms(2), of read_blob] secret_in_response_honest [OF assms(2), of read_blob]
    by (auto simp: passive_checks_def passive_check_def)
  then show ?thesis by (auto simp: honest_result_def honest_def)
qed

text \<open>A response that was read whole, and its cookie.\<close>

definition stored_exchange :: exchange_row where
  "stored_exchange =
     \<lparr>ex_id = u ''x1'', ex_run = None, ex_surface = Some (u ''s1''), ex_via = u ''proxy'', ex_outcome = u ''ok'', ex_sent_us = 0,
      ex_recv_us = 0, ex_method = u ''GET'', ex_url = u ''http://a/'', ex_status = Some 200, ex_req_blob = None,
      ex_resp_blob = Some (u ''d''), ex_resp_len = None, ex_scope_version = None, ex_seq = None, ex_identity = None,
      ex_identity_generation = None, ex_identity_state = None\<rparr>"

definition cookie_head :: bytes where
  "cookie_head = b ''HTTP/1.1 200 OK'' @ [13, 10] @ b ''Set-Cookie: a=1''"

definition plain_surface :: surface_row where
  "plain_surface =
     \<lparr>sf_id = u ''s1'', sf_engagement = u ''e1'', sf_method = u ''GET'', sf_scheme = u ''http'', sf_host = u ''a'',
      sf_port = 80, sf_path_template = u ''/'', sf_query_key_set = [], sf_kind = u ''route'', sf_discovered_by = u ''browse'',
      sf_normaliser_version = 1, sf_first_seen_run = u ''r0'', sf_last_seen_run = u ''r0'', sf_exemplar = u ''x1''\<rparr>"

definition cookie_check :: scan_check where
  "cookie_check = hd (passive_checks (\<lambda>_. Inr cookie_head))"

theorem passive_checks_honest_witness:
  "\<exists>v. ck_on_surface cookie_check plain_surface [stored_exchange] = Inr (AVerdict v) \<and> build_verdict v = Inr v"
proof -
  have "cookie_check \<in> set (passive_checks (\<lambda>_. Inr cookie_head))" by (simp add: cookie_check_def passive_checks_def)
  moreover have "\<forall>x \<in> set [stored_exchange]. ex_id x \<noteq> []" by (simp add: stored_exchange_def)
  ultimately show ?thesis using passive_checks_honest [of cookie_check _ "[stored_exchange]" plain_surface] by blast
qed

section \<open>One issue type per cookie\<close>

lemma hex_upper: "x < 16 \<Longrightarrow> y < 16 \<Longrightarrow> HEX_UPPER ! x = HEX_UPPER ! y \<Longrightarrow> x = y"
proof -
  have "distinct HEX_UPPER" "length HEX_UPPER = 16" by (simp_all add: HEX_UPPER_def literals)
  then show "x < 16 \<Longrightarrow> y < 16 \<Longrightarrow> HEX_UPPER ! x = HEX_UPPER ! y \<Longrightarrow> x = y" by (simp add: nth_eq_iff_index_eq)
qed

lemma escape_byte_front: "escape_byte v @ s = escape_byte w @ t \<Longrightarrow> v = w \<and> s = t"
proof -
  assume e: "escape_byte v @ s = escape_byte w @ t"
  have lt: "unat v < 256" "unat w < 256" by (simp_all add: word8_less)
  have no37: "\<not> SAFE_NAME 37" by (simp add: SAFE_NAME_def is_alpha_def is_digit_def)
  have "unat v = unat w \<and> s = t"
  proof (cases "SAFE_NAME (unat v)"; cases "SAFE_NAME (unat w)")
    assume n: "\<not> SAFE_NAME (unat v)" "\<not> SAFE_NAME (unat w)"
    with e have h: "HEX_UPPER ! (unat v div 16) = HEX_UPPER ! (unat w div 16)" "HEX_UPPER ! (unat v mod 16) = HEX_UPPER ! (unat w mod 16)"
      "s = t" by (simp_all add: escape_byte_def Let_def)
    have "unat v div 16 = unat w div 16" by (rule hex_upper [OF _ _ h(1)]) (use lt in auto)
    moreover have "unat v mod 16 = unat w mod 16" by (rule hex_upper [OF _ _ h(2)]) auto
    ultimately show ?thesis using h(3) by (metis div_mult_mod_eq)
  qed (use e no37 in \<open>auto simp: escape_byte_def Let_def\<close>)
  then show ?thesis by (simp add: word_unat_eq_iff)
qed

lemma escape_inj: "concat (map escape_byte xs) = concat (map escape_byte ys) \<Longrightarrow> xs = ys"
proof (induction xs arbitrary: ys)
  case Nil
  then show ?case by (cases ys) (auto simp: escape_byte_def Let_def split: if_splits)
next
  case (Cons x xs)
  show ?case
  proof (cases ys)
    case Nil
    with Cons.prems show ?thesis by (auto simp: escape_byte_def Let_def split: if_splits)
  next
    case (Cons y zs)
    with Cons.prems have "x = y" "concat (map escape_byte xs) = concat (map escape_byte zs)"
      using escape_byte_front [of x _ y] by auto
    with Cons.IH Cons show ?thesis by simp
  qed
qed

lemma utf8_pass_encode: "\<forall>c \<in> set s. c < 256 \<Longrightarrow> utf8_encode s = Some (concat (map utf8_pass s))"
proof (induction s)
  case (Cons c s)
  then have "utf8_char c \<noteq> None" by (auto simp: utf8_char_def is_surrogate_def)
  with Cons show ?case by (auto simp: utf8_pass_def)
qed simp

lemma header_values_latin1: "v \<in> set (header_values head name) \<Longrightarrow> c \<in> set v \<Longrightarrow> c < 256"
  by (auto simp: header_values_def split: prod.splits if_splits dest!: subsetD [OF strip_subset] latin1_decode_bound)

lemma cookie_name_latin1: "v \<in> set (header_values head name) \<Longrightarrow> c \<in> set (cookie_name v) \<Longrightarrow> c < 256"
  unfolding cookie_name_def
  by (drule subsetD [OF strip_subset]) (rule header_values_latin1, assumption, rule split1_chars [where d = 61], assumption, simp)

text \<open>Two cookies share an issue type, and so a finding, exactly when they have the same name: no spelling of a name can make
  one cookie's finding stand for another's, or retire it.\<close>

theorem cookie_types_distinct:
  assumes "v \<in> set (header_values head n)" "v' \<in> set (header_values head' n')"
  shows "cookie_issue_type (cookie_name v) = cookie_issue_type (cookie_name v') \<longleftrightarrow> cookie_name v = cookie_name v'"
proof
  assume "cookie_issue_type (cookie_name v) = cookie_issue_type (cookie_name v')"
  then have "concat (map utf8_pass (cookie_name v)) = concat (map utf8_pass (cookie_name v'))"
    by (intro escape_inj) (simp add: cookie_issue_type_def encode_name_def)
  moreover have "\<forall>c \<in> set (cookie_name v). c < 256" "\<forall>c \<in> set (cookie_name v'). c < 256"
    using cookie_name_latin1 assms by blast+
  ultimately have "utf8_encode (cookie_name v) = utf8_encode (cookie_name v')" "utf8_encode (cookie_name v) \<noteq> None"
    by (simp_all add: utf8_pass_encode)
  then show "cookie_name v = cookie_name v'" using utf8_roundtrip by (metis option.exhaust option.sel)
qed simp

lemma small_line: "header_values [10, 110, 58, 97] [110] = [[97]]"
  by (simp add: header_values_def header_lines_def chop_cr_def endswith_def partition1_def latin1_decode_def strip_def
      rstrip_def lstrip_def is_space_def lower_def lower1_def)

section \<open>Searching\<close>

text \<open>What a pattern means: it can match between what is before and what is after.\<close>

fun fits :: "atom list \<Rightarrow> bytes \<Rightarrow> bytes \<Rightarrow> bool" where
  "fits [] p q = True"
| "fits (Lit l # r) p q = (\<exists>q'. q = l @ q' \<and> fits r (p @ l) q')"
| "fits (OneOf ls # r) p q = (\<exists>l \<in> set ls. \<exists>q'. q = l @ q' \<and> fits r (p @ l) q')"
| "fits (Class c n m # r) p q =
     (\<exists>x q'. q = x @ q' \<and> (\<forall>w \<in> set x. c w) \<and> n \<le> length x \<and> (case m of None \<Rightarrow> True | Some m \<Rightarrow> length x \<le> m) \<and> fits r (p @ x) q')"
| "fits (Boundary # r) p q =
     ((p \<noteq> [] \<and> word_byte (last p)) \<noteq> (q \<noteq> [] \<and> word_byte (hd q)) \<and> fits r p q)"

lemma class_prefix: "k \<le> length (takeWhile c q) \<longleftrightarrow> k \<le> length q \<and> (\<forall>w \<in> set (take k q). c w)"
proof
  assume k: "k \<le> length (takeWhile c q)"
  then have "take k q = take k (takeWhile c q)" by (metis takeWhile_dropWhile_id take_append diff_is_0_eq take0 append_Nil2)
  with k show "k \<le> length q \<and> (\<forall>w \<in> set (take k q). c w)"
    using length_takeWhile_le [of c q] by (auto dest!: in_set_takeD set_takeWhileD)
next
  assume "k \<le> length q \<and> (\<forall>w \<in> set (take k q). c w)"
  then have "takeWhile c (take k q) = take k q" "length (take k q) = k" by simp_all
  then show "k \<le> length (takeWhile c q)"
    by (metis append_take_drop_id takeWhile_append2 length_append le_add1 set_take_subset takeWhile_eq_all_conv)
qed

lemma class_ends: "list_ex P (map (\<lambda>j. i + j) [n..<Suc k]) \<longleftrightarrow> (\<exists>j. n \<le> j \<and> j \<le> k \<and> P (i + j))"
proof -
  have "list_ex P (map (\<lambda>j. i + j) xs) \<longleftrightarrow> (\<exists>j \<in> set xs. P (i + j))" for xs by (induction xs) auto
  then show ?thesis by (simp only: set_upt Bex_def atLeastLessThan_iff less_Suc_eq_le conj_assoc)
qed

lemma match_here_fits: "match_here r (p @ q) (length p) = fits r p q"
proof (induction r p q rule: fits.induct)
  case (2 l r p q)
  have "startswith l q \<longleftrightarrow> (\<exists>q'. q = l @ q')" by (auto simp: startswith_def) (metis append_take_drop_id)
  then show ?case using 2 by (auto simp flip: length_append append_assoc)
next
  case (3 ls r p q)
  have "startswith l q \<longleftrightarrow> (\<exists>q'. q = l @ q')" for l by (auto simp: startswith_def) (metis append_take_drop_id)
  then show ?case using 3 by (fastforce simp: list_ex_iff simp flip: length_append append_assoc)
next
  case (4 c n m r p q)
  let ?k = "case m of None \<Rightarrow> length (takeWhile c q) | Some m \<Rightarrow> min m (length (takeWhile c q))"
  have "match_here (Class c n m # r) (p @ q) (length p) = (\<exists>j. n \<le> j \<and> j \<le> ?k \<and> match_here r (p @ q) (length p + j))"
    unfolding match_here.simps atom_ends.simps Let_def class_ends by (cases m) simp_all
  also have "\<dots> = (\<exists>x q'. q = x @ q' \<and> (\<forall>w \<in> set x. c w) \<and> n \<le> length x \<and> (case m of None \<Rightarrow> True | Some m \<Rightarrow> length x \<le> m) \<and> fits r (p @ x) q')"
    (is "?L = ?R")
  proof
    assume ?L
    then obtain j where j: "n \<le> j" "j \<le> ?k" "match_here r (p @ q) (length p + j)" by blast
    then have "j \<le> length (takeWhile c q)" "case m of None \<Rightarrow> True | Some m \<Rightarrow> j \<le> m" by (auto split: option.splits)
    with j have "q = take j q @ drop j q" "\<forall>w \<in> set (take j q). c w" "length (take j q) = j" by (simp_all add: class_prefix)
    moreover from this have "match_here r ((p @ take j q) @ drop j q) (length (p @ take j q))" using j(3) by simp
    ultimately show ?R using 4 j(1) \<open>case m of None \<Rightarrow> True | Some m \<Rightarrow> j \<le> m\<close> by metis
  next
    assume ?R
    then obtain x q' where x: "q = x @ q'" "\<forall>w \<in> set x. c w" "n \<le> length x" "case m of None \<Rightarrow> True | Some m \<Rightarrow> length x \<le> m"
      "fits r (p @ x) q'" by blast
    then have "length x \<le> length (takeWhile c q)" by (simp add: class_prefix)
    moreover have "match_here r (p @ q) (length p + length x)" using 4 [of x q'] x by simp
    ultimately show ?L using x(3,4) by (intro exI [of _ "length x"]) (auto split: option.splits)
  qed
  finally show ?case by simp
next
  case (5 r p q)
  have "at_boundary (p @ q) (length p) \<longleftrightarrow> (p \<noteq> [] \<and> word_byte (last p)) \<noteq> (q \<noteq> [] \<and> word_byte (hd q))"
    by (cases q; cases p rule: rev_cases) (auto simp: at_boundary_def nth_append hd_conv_nth last_conv_nth)
  with 5 show ?case by auto
qed simp

lemma re_search_iff: "re_search r s \<longleftrightarrow> (\<exists>p q. s = p @ q \<and> fits r p q)"
proof
  assume "re_search r s"
  then obtain i where i: "i \<le> length s" "match_here r s i" unfolding re_search_def list_ex_iff by (metis atLeastLessThan_iff set_upt less_Suc_eq_le)
  then have "match_here r (take i s @ drop i s) (length (take i s))" by simp
  then have "fits r (take i s) (drop i s)" by (simp only: match_here_fits)
  then show "\<exists>p q. s = p @ q \<and> fits r p q" by (metis append_take_drop_id)
next
  assume "\<exists>p q. s = p @ q \<and> fits r p q"
  then obtain p q where "s = p @ q" "match_here r (p @ q) (length p)" by (auto simp: match_here_fits)
  then show "re_search r s" by (auto simp: re_search_def list_ex_iff intro!: bexI [of _ "length p"])
qed

end
