(* ===== verification/Active.thy ===== *)
theory Active
  imports Passive
begin

text \<open>
  The active checks, \<open>src/hx/checks/active\<close>, with the helpers they share (\<open>_probe_util.py\<close>) and the comparison of two
  responses (\<open>src/hx/delta.py\<close>). A check is built in continuation-passing style: each step is given what is
  done next, and the result is the tree of its requests. \<open>draw\<close> is the source of random numbers behind the markers, and
  \<open>repr\<close> Python's \<open>repr\<close> of a string, which only shapes the texts.
\<close>

section \<open>Comparing two responses\<close>

definition token_byte :: "byte \<Rightarrow> bool" where
  "token_byte w \<longleftrightarrow> is_alpha (unat w) \<or> is_digit (unat w) \<or> w = 95 \<or> w = 45"

function token_runs :: "bytes \<Rightarrow> bytes list" where
  "token_runs [] = []"
| "token_runs (w # s) =
     (if token_byte w then takeWhile token_byte (w # s) # token_runs (dropWhile token_byte s) else token_runs s)"
  by pat_completeness auto
termination
  by (relation "measure length") (auto simp: le_imp_less_Suc length_dropWhile_le)

definition tokens :: "bytes \<Rightarrow> bytes list" where
  "tokens s = filter (\<lambda>t. length t \<ge> 6) (token_runs s)"

definition MAX_TOKENS :: nat where
  "MAX_TOKENS = 20"

definition MAX_DIFF_BYTES :: nat where
  "MAX_DIFF_BYTES = 2 * 1024 * 1024"

record difference =
  df_status_changed :: bool
  df_len :: int
  df_new_tokens :: "pystr list option"
  df_truncated :: bool

fun fresh_tokens :: "bytes list \<Rightarrow> bytes list \<Rightarrow> bytes list" where
  "fresh_tokens seen [] = []"
| "fresh_tokens seen (t # ts) = (if t \<in> set seen then fresh_tokens seen ts else t # fresh_tokens (t # seen) ts)"

definition against :: "int option \<Rightarrow> bytes \<Rightarrow> int option \<Rightarrow> bytes \<Rightarrow> difference" where
  "against baseline_status baseline_body status body =
     (let changed = (baseline_status \<noteq> status); len = int (length body) - int (length baseline_body) in
      if length body > MAX_DIFF_BYTES \<or> length baseline_body > MAX_DIFF_BYTES
      then \<lparr>df_status_changed = changed, df_len = len, df_new_tokens = None, df_truncated = False\<rparr>
      else
        let fresh = map latin1_decode (fresh_tokens (tokens baseline_body) (tokens body)) in
        \<lparr>df_status_changed = changed, df_len = len, df_new_tokens = Some (take MAX_TOKENS fresh),
         df_truncated = (length fresh > MAX_TOKENS)\<rparr>)"

text \<open>The response a surface's exemplar had; a \<open>None\<close> digest or a blob that fails its check is no baseline.\<close>

definition baseline_for :: "(pystr \<Rightarrow> nat option \<Rightarrow> blob_exc + bytes) \<Rightarrow> pystr \<Rightarrow> pystr option \<Rightarrow> store
    \<Rightarrow> blob_exc + (int option \<times> bytes) option" where
  "baseline_for read_blob surface_id exclude s =
     (case find (\<lambda>sf. sf_id sf = surface_id) (st_surfaces s) of
        None \<Rightarrow> Inr None
      | Some sf \<Rightarrow>
          (case find (\<lambda>x. ex_id x = sf_exemplar sf \<and> Some (ex_id x) \<noteq> exclude) (st_exchanges s) of
             None \<Rightarrow> Inr None
           | Some x \<Rightarrow>
               (case ex_resp_blob x of
                  None \<Rightarrow> Inr None
                | Some digest \<Rightarrow>
                    (case read_blob digest (ex_resp_len x) of
                       Inl CorruptBlob \<Rightarrow> Inr None
                     | Inl OSError \<Rightarrow> Inl OSError
                     | Inr stored \<Rightarrow> Inr (Some (ex_status x, snd (split_head_body stored)))))))"

section \<open>What the active checks share\<close>

definition ALPHABET :: pystr where
  "ALPHABET = u ''abcdefghijklmnopqrstuvwxyzABCDEFGHIJKLMNOPQRSTUVWXYZ0123456789''"

definition MARKER_LENGTH :: nat where
  "MARKER_LENGTH = 24"

text \<open>The \<open>n\<close>-th marker of a check's run.\<close>

definition marker :: "(nat \<Rightarrow> nat) \<Rightarrow> nat \<Rightarrow> pystr" where
  "marker draw n = map (\<lambda>i. ALPHABET ! (draw (n * MARKER_LENGTH + i) mod length ALPHABET)) [0..<MARKER_LENGTH]"

text \<open>\<open>s.encode("ascii")\<close>, which is applied to markers and signatures only.\<close>

definition ascii :: "pystr \<Rightarrow> bytes" where
  "ascii s = map of_nat s"

definition reflected :: "probe_response \<Rightarrow> pystr \<Rightarrow> bool" where
  "reflected r m \<longleftrightarrow> contains (ascii m) (pr_head r) \<or> contains (ascii m) (pr_body r)"

definition substitute_segment :: "pystr \<Rightarrow> pystr \<Rightarrow> pystr \<Rightarrow> pystr \<Rightarrow> pystr option" where
  "substitute_segment path tpl placeholder val =
     (let segments = split1 47 path; template_segments = split1 47 tpl in
      if length segments \<noteq> length template_segments then None
      else if placeholder \<in> set template_segments
      then Some (join [47] (map (\<lambda>(s, t). if t = placeholder then val else s) (zip segments template_segments)))
      else None)"

text \<open>What a check accumulates: candidates, gaps, whether a probe was answered, and the markers drawn.\<close>

record probed =
  pa_candidates :: "found list"
  pa_gaps :: "pystr list"
  pa_any :: bool
  pa_drawn :: nat

definition start_probed :: probed where
  "start_probed = \<lparr>pa_candidates = [], pa_gaps = [], pa_any = False, pa_drawn = 0\<rparr>"

definition add_gap :: "pystr \<Rightarrow> probed \<Rightarrow> probed" where
  "add_gap gap st = st\<lparr>pa_gaps := pa_gaps st @ [gap]\<rparr>"

definition send_or_gap :: "pystr \<Rightarrow> (pystr \<times> pystr) list \<Rightarrow> insertion_point \<Rightarrow> probed
    \<Rightarrow> (probe_response option \<Rightarrow> probed \<Rightarrow> probing) \<Rightarrow> probing" where
  "send_or_gap path headers insertion st k =
     Get path headers (\<lambda>r.
       case r of
         Inr resp \<Rightarrow> k (Some resp) st
       | Inl (ProbeRefused reason _) \<Rightarrow> k None (add_gap (ins_name insertion @ u '': probe refused ('' @ reason @ u '')'') st)
       | Inl e \<Rightarrow> Raise e)"

definition status_text :: "int option \<Rightarrow> pystr" where
  "status_text s = (case s of None \<Rightarrow> u ''None'' | Some n \<Rightarrow> dump_int n)"

definition unanswered :: "probe_response \<Rightarrow> pystr option" where
  "unanswered r =
     (case pr_status r of
        None \<Rightarrow> Some (u ''no status could be read'')
      | Some n \<Rightarrow> if 200 \<le> n \<and> n < 300 then None else Some (u ''status '' @ dump_int n))"

definition done_with :: "store_exc + verdict \<Rightarrow> probing" where
  "done_with r = (case r of Inl e \<Rightarrow> Raise (store_raised e) | Inr v \<Rightarrow> Done (AVerdict v))"

text \<open>\<open>verdict\<close>, with either what was examined or why nothing was.\<close>

definition active_verdict :: "probed \<Rightarrow> pystr list \<Rightarrow> pystr option \<Rightarrow> probing" where
  "active_verdict st examined unprobed =
     (if pa_candidates st \<noteq> [] then done_with (verdict_finding (pa_candidates st) [])
      else if pa_gaps st \<noteq> [] then
        done_with (verdict_inconclusive (u ''this surface's probes did not all come back as answers, so nothing found here separates `tested, clean` from `never reached`''
          @ gap_detail (pa_gaps st)))
      else case unprobed of
        Some why \<Rightarrow> done_with (verdict_inconclusive why)
      | None \<Rightarrow> if examined = [] then Raise (Raised (u ''ValueError'') []) else done_with (verdict_clean examined))"

definition probe_path :: "pystr \<Rightarrow> pystr \<Rightarrow> insertion_point \<Rightarrow> pystr \<Rightarrow> check_exc + pystr option" where
  "probe_path path tpl insertion val =
     (case (quote (ins_name insertion), quote val) of
        (n, v) \<Rightarrow>
          if ins_kind insertion = u ''query'' then
            (case (n, v) of
               (Some n, Some v) \<Rightarrow> Inr (Some (path @ [63] @ n @ [61] @ v))
             | _ \<Rightarrow> Inl (Raised (u ''UnicodeEncodeError'') []))
          else if ins_kind insertion = u ''path_segment'' then
            (case v of
               None \<Rightarrow> Inl (Raised (u ''UnicodeEncodeError'') [])
             | Some v \<Rightarrow> Inr (substitute_segment path tpl (ins_name insertion) v))
          else Inl (Raised (u ''ValueError'') []))"

text \<open>The loop over the insertion points, each step given the state and what follows.\<close>

type_synonym point_step = "insertion_point \<Rightarrow> probed \<Rightarrow> (probed \<Rightarrow> probing) \<Rightarrow> probing"

fun for_points :: "point_step \<Rightarrow> insertion_point list \<Rightarrow> probed \<Rightarrow> (probed \<Rightarrow> probing) \<Rightarrow> probing" where
  "for_points f [] st k = k st"
| "for_points f (i # is) st k = f i st (\<lambda>st'. for_points f is st' k)"

text \<open>Appending a candidate, whose constructor may refuse it.\<close>

definition found_here :: "candidate \<Rightarrow> pystr \<Rightarrow> probed \<Rightarrow> (probed \<Rightarrow> probing) \<Rightarrow> probing" where
  "found_here c exemplar st k =
     (case mk_candidate c [exemplar] of
        Inl e \<Rightarrow> Raise (store_raised e)
      | Inr f \<Rightarrow> k (st\<lparr>pa_candidates := pa_candidates st @ [f]\<rparr>))"

text \<open>What follows an answer that holds nothing: it counts as an examination only if it is a 2xx.\<close>

definition nothing_here :: "insertion_point \<Rightarrow> probe_response \<Rightarrow> probed \<Rightarrow> (probed \<Rightarrow> probing) \<Rightarrow> probing" where
  "nothing_here insertion r st k =
     (case unanswered r of None \<Rightarrow> k st | Some why \<Rightarrow> k (add_gap (ins_name insertion @ u '': '' @ why) st))"

definition no_probe_built :: "insertion_point \<Rightarrow> probed \<Rightarrow> probed" where
  "no_probe_built insertion = add_gap (ins_name insertion @ u '': no probe could be built for this insertion point'')"

definition close_points :: "pystr \<Rightarrow> pystr \<Rightarrow> probed \<Rightarrow> probing" where
  "close_points issue_type unprobed st =
     (if \<not> pa_any st then active_verdict st [] (Some unprobed) else active_verdict st [issue_type] None)"

definition hinted :: "pystr list \<Rightarrow> pystr \<Rightarrow> bool" where
  "hinted hints name \<longleftrightarrow> (\<exists>h \<in> set hints. contains h (fold_name name))"

section \<open>Cross-origin policy\<close>

definition PROBE_ORIGIN :: pystr where
  "PROBE_ORIGIN = u ''https://hx-cors-probe.test''"

definition CORS_EXAMINED :: "pystr list" where
  "CORS_EXAMINED = map u [''cors-reflects-arbitrary-origin-with-credentials'', ''cors-reflects-arbitrary-origin'',
     ''cors-wildcard-with-credentials'']"

definition credentials_allowed :: "pystr list \<Rightarrow> bool" where
  "credentials_allowed vs \<longleftrightarrow> (\<exists>v \<in> set vs. lower (strip v) = u ''true'')"

definition credentials_phrase :: "(pystr \<Rightarrow> pystr) \<Rightarrow> pystr list \<Rightarrow> pystr" where
  "credentials_phrase repr vs =
     (if vs = [] then u ''was not present''
      else u ''was present but read '' @ repr (join (u '', '') vs) @ u '', not the exact `true` a browser honours'')"

definition cors_candidate :: "pystr \<Rightarrow> pystr \<Rightarrow> pystr \<Rightarrow> pystr \<Rightarrow> pystr \<Rightarrow> pystr \<Rightarrow> candidate" where
  "cors_candidate issue_type title severity confidence description remediation =
     \<lparr>ca_issue_type_id = issue_type, ca_title = title, ca_description = Some description, ca_impact = None,
      ca_remediation = Some remediation, ca_cwe = Some (u ''CWE-942''), ca_severity = severity, ca_confidence = confidence,
      ca_scope_level = u ''surface'', ca_payload = Some PROBE_ORIGIN, ca_insertion = None\<rparr>"

text \<open>What a response's two headers show.\<close>

definition cors_finding :: "(pystr \<Rightarrow> pystr) \<Rightarrow> bytes \<Rightarrow> candidate option" where
  "cors_finding repr head =
     (let origins = header_values head (u ''access-control-allow-origin'');
          origin = (case origins of [] \<Rightarrow> None | v # _ \<Rightarrow> Some v);
          credential_values = header_values head (u ''access-control-allow-credentials'');
          credentials = credentials_allowed credential_values;
          asked = u ''Requesting with Origin: '' @ PROBE_ORIGIN @ u '' (a value this target cannot have expected) drew back Access-Control-Allow-Origin: ''
            @ (case origin of None \<Rightarrow> u ''None'' | Some v \<Rightarrow> v)
      in
      if origin = Some PROBE_ORIGIN \<and> credentials then
        Some (cors_candidate (CORS_EXAMINED ! 0) (u ''CORS reflects an arbitrary Origin with credentials allowed'')
          (u ''High'') (u ''Certain'')
          (asked @ u '' and Access-Control-Allow-Credentials: '' @ join (u '', '') credential_values
            @ u ''. Any site on the internet can read this target's authenticated, cookie-bearing responses through a victim's browser.'')
          (u ''Validate the Origin header against an explicit allowlist of trusted origins before reflecting it, and only pair Access-Control-Allow-Credentials: true with an origin that was actually validated.''))
      else if origin = Some PROBE_ORIGIN then
        Some (cors_candidate (CORS_EXAMINED ! 1) (u ''CORS reflects an arbitrary Origin'') (u ''Medium'') (u ''Certain'')
          (asked @ u ''. Access-Control-Allow-Credentials '' @ credentials_phrase repr credential_values
            @ u ''. No session rides along, but an arbitrary origin is still trusted.'')
          (u ''Validate the Origin header against an explicit allowlist of trusted origins rather than reflecting whatever was sent.''))
      else if origin = Some (u ''*'') \<and> credentials then
        Some (cors_candidate (CORS_EXAMINED ! 2) (u ''CORS wildcard Origin combined with credentials'') (u ''Low'') (u ''Firm'')
          (u ''The response carried Access-Control-Allow-Origin: * together with Access-Control-Allow-Credentials: ''
            @ join (u '', '') credential_values
            @ u ''. A conforming browser refuses this pairing, so it is not currently exploitable through one, but it is an invalid combination and likely an accident worth fixing.'')
          (u ''Either drop Access-Control-Allow-Credentials or reflect a validated, non-wildcard origin instead of *.''))
      else None)"

definition cors :: "(pystr \<Rightarrow> pystr) \<Rightarrow> surface_row \<Rightarrow> insertion_point list \<Rightarrow> pystr \<Rightarrow> probing" where
  "cors repr surface insertions path =
     Get path [(u ''Origin'', PROBE_ORIGIN)] (\<lambda>r.
       case r of
         Inl e \<Rightarrow> Raise e
       | Inr resp \<Rightarrow>
           (case cors_finding repr (pr_head resp) of
              Some c \<Rightarrow> found_here c (sf_exemplar surface) start_probed (\<lambda>st. active_verdict st CORS_EXAMINED None)
            | None \<Rightarrow> active_verdict (case unanswered resp of None \<Rightarrow> start_probed | Some why \<Rightarrow> add_gap why start_probed)
                 CORS_EXAMINED None))"

section \<open>Open redirects\<close>

definition MARKER_HOST :: pystr where
  "MARKER_HOST = u ''hx-open-redirect-probe.test''"

definition MARKER_URL :: pystr where
  "MARKER_URL = u ''https://'' @ MARKER_HOST @ u ''/''"

definition REDIRECT_NAME_HINTS :: "pystr list" where
  "REDIRECT_NAME_HINTS = map u [''redirect'', ''url'', ''uri'', ''return'', ''next'', ''dest'', ''continue'', ''target'',
     ''forward'', ''goto'', ''link'', ''callback'', ''navigate'']"

definition redirect_host :: "(pystr \<Rightarrow> bool) \<Rightarrow> int option \<Rightarrow> bytes \<Rightarrow> store_exc + pystr option" where
  "redirect_host netloc_ok status head =
     (case status of
        None \<Rightarrow> Inr None
      | Some n \<Rightarrow>
          if n < 300 \<or> 400 \<le> n then Inr None
          else (case header_values head (u ''location'') of
             [] \<Rightarrow> Inr None
           | v # _ \<Rightarrow> rbind (urlsplit netloc_ok v) (\<lambda>r. Inr (us_hostname r))))"

definition redirect_path :: "pystr \<Rightarrow> pystr \<Rightarrow> check_exc + pystr" where
  "redirect_path path name =
     (case (quote name, quote MARKER_URL) of
        (Some n, Some v) \<Rightarrow> Inr (path @ [63] @ n @ [61] @ v)
      | _ \<Rightarrow> Inl (Raised (u ''UnicodeEncodeError'') []))"

definition redirect_candidate :: "(pystr \<Rightarrow> pystr) \<Rightarrow> insertion_point \<Rightarrow> pystr \<Rightarrow> probe_response \<Rightarrow> candidate" where
  "redirect_candidate repr insertion path resp =
     \<lparr>ca_issue_type_id = u ''open-redirect'', ca_title = u ''Open redirect via '' @ repr (ins_name insertion),
      ca_description = Some (u ''Requesting '' @ path @ u '' with '' @ ins_name insertion @ [61] @ MARKER_URL
        @ u '' (a host this target cannot have expected) drew back status '' @ status_text (pr_status resp)
        @ u '' with Location: '' @ join (u '', '') (header_values (pr_head resp) (u ''location''))
        @ u ''. A browser following this response leaves the target for a host this check chose, which is what an attacker hosting a phishing or credential-harvesting page would choose instead.''),
      ca_impact = None,
      ca_remediation = Some (u ''Validate this parameter against an explicit allowlist of destinations (or require same-origin) before using it to build a redirect target.''),
      ca_cwe = Some (u ''CWE-601''), ca_severity = u ''Medium'', ca_confidence = u ''Certain'', ca_scope_level = u ''surface'',
      ca_payload = Some MARKER_URL, ca_insertion = Some insertion\<rparr>"

definition redirect_step :: "(pystr \<Rightarrow> bool) \<Rightarrow> (pystr \<Rightarrow> pystr) \<Rightarrow> surface_row \<Rightarrow> pystr \<Rightarrow> point_step" where
  "redirect_step netloc_ok repr surface path insertion st k =
     (if ins_kind insertion \<noteq> u ''query'' \<or> \<not> hinted REDIRECT_NAME_HINTS (ins_name insertion) then k st
      else case redirect_path path (ins_name insertion) of
        Inl e \<Rightarrow> Raise e
      | Inr p \<Rightarrow>
          send_or_gap p [] insertion st (\<lambda>resp st.
            case resp of
              None \<Rightarrow> k st
            | Some resp \<Rightarrow>
                let st = st\<lparr>pa_any := True\<rparr> in
                (case redirect_host netloc_ok (pr_status resp) (pr_head resp) of
                   Inl e \<Rightarrow> Raise (store_raised e)
                 | Inr host \<Rightarrow>
                     if map_option lower host \<noteq> Some MARKER_HOST then nothing_here insertion resp st k
                     else found_here (redirect_candidate repr insertion p resp) (sf_exemplar surface) st k)))"

definition open_redirect :: "(pystr \<Rightarrow> bool) \<Rightarrow> (pystr \<Rightarrow> pystr) \<Rightarrow> surface_row \<Rightarrow> insertion_point list \<Rightarrow> pystr \<Rightarrow> probing" where
  "open_redirect netloc_ok repr surface insertions path =
     for_points (redirect_step netloc_ok repr surface path) insertions start_probed
       (close_points (u ''open-redirect'')
         (u ''no insertion point on this surface is one this check probes -- it probes a query parameter whose name contains one of ''
           @ join (u '', '') REDIRECT_NAME_HINTS
           @ u '' -- so nothing was sent and this surface was not examined for open redirect''))"

section \<open>Checks that look for a signature\<close>

text \<open>\<open>sql_error.py\<close> and \<open>path_traversal.py\<close> share their shape: the first signature found in a response is reported.\<close>

definition match_signature :: "(pystr \<times> pystr) list \<Rightarrow> probe_response \<Rightarrow> (pystr \<times> pystr) option" where
  "match_signature signatures resp = find (\<lambda>(s, _). reflected resp s) signatures"

definition location_of :: "probe_response \<Rightarrow> pystr \<Rightarrow> pystr" where
  "location_of resp signature =
     (if contains (ascii signature) (pr_body resp) then u ''the response body'' else u ''a response header'')"

definition signature_step :: "(pystr \<times> pystr) list \<Rightarrow> (insertion_point \<Rightarrow> pystr \<Rightarrow> probe_response \<Rightarrow> pystr \<Rightarrow> pystr \<Rightarrow> candidate)
    \<Rightarrow> surface_row \<Rightarrow> pystr \<Rightarrow> pystr \<Rightarrow> point_step" where
  "signature_step signatures candidate_of surface path payload insertion st k =
     (case probe_path path (sf_path_template surface) insertion payload of
        Inl e \<Rightarrow> Raise e
      | Inr None \<Rightarrow> k (no_probe_built insertion st)
      | Inr (Some p) \<Rightarrow>
          send_or_gap p [] insertion st (\<lambda>resp st.
            case resp of
              None \<Rightarrow> k st
            | Some resp \<Rightarrow>
                let st = st\<lparr>pa_any := True\<rparr> in
                (case match_signature signatures resp of
                   None \<Rightarrow> nothing_here insertion resp st k
                 | Some (signature, what) \<Rightarrow>
                     found_here (candidate_of insertion payload resp signature what) (sf_exemplar surface) st k)))"

definition SQL_SIGNATURES :: "(pystr \<times> pystr) list" where
  "SQL_SIGNATURES = map (\<lambda>(s, v). (u s, u v))
     [(''You have an error in your SQL syntax'', ''MySQL''),
      (''mysql_fetch_array()'', ''MySQL (legacy mysql_* PHP API)''),
      (''mysql_fetch_assoc()'', ''MySQL (legacy mysql_* PHP API)''),
      (''Unclosed quotation mark after the character string'', ''Microsoft SQL Server''),
      (''Microsoft OLE DB Provider for SQL Server'', ''Microsoft SQL Server''),
      (''com.microsoft.sqlserver.jdbc.SQLServerException'', ''Microsoft SQL Server (JDBC driver)''),
      (''PostgreSQL query failed'', ''PostgreSQL''),
      (''org.postgresql.util.PSQLException'', ''PostgreSQL (JDBC driver)''),
      (''ORA-01756: quoted string not properly terminated'', ''Oracle''),
      (''ORA-00933: SQL command not properly ended'', ''Oracle''),
      (''sqlite3.OperationalError'', ''SQLite (Python driver)''),
      (''Warning: SQLite3::query()'', ''SQLite (PHP driver)''),
      (''SQLSTATE[42000]'', ''generic SQL (PDO/ODBC SQLSTATE)''),
      (''SQLSTATE[HY000]'', ''generic SQL (PDO/ODBC SQLSTATE)'')]"

definition sql_error_candidate :: "(pystr \<Rightarrow> pystr) \<Rightarrow> insertion_point \<Rightarrow> pystr \<Rightarrow> probe_response \<Rightarrow> pystr \<Rightarrow> pystr \<Rightarrow> candidate" where
  "sql_error_candidate repr insertion payload resp signature vendor =
     \<lparr>ca_issue_type_id = u ''sql-error-disclosure'', ca_title = u ''Database error disclosed via '' @ repr (ins_name insertion),
      ca_description = Some (u ''Sending '' @ ins_kind insertion @ u '' '' @ repr (ins_name insertion)
        @ u '' with a random, ordinary-shaped value ending in an unmatched single quote drew back status '' @ status_text (pr_status resp)
        @ u '' with '' @ location_of resp signature @ u '' containing '' @ repr signature @ u '' -- '' @ vendor
        @ u '' wording for a query that did not parse. This shows the application disclosed a database error in response to unexpected input, which is evidence that this input reaches a database query unsanitised. It is not proof that the query can be manipulated: this check sent one character and read the response, and never attempted to alter, extend or otherwise exploit the query.''),
      ca_impact = None,
      ca_remediation = Some (u ''Use parameterised queries or prepared statements for every value built from user input, and turn off verbose database error output in production (log it server-side instead of returning it to the client).''),
      ca_cwe = Some (u ''CWE-209''), ca_severity = u ''Medium'', ca_confidence = u ''Certain'', ca_scope_level = u ''surface'',
      ca_payload = Some payload, ca_insertion = Some insertion\<rparr>"

definition SQL_KINDS :: "pystr list" where
  "SQL_KINDS = [u ''query'', u ''path_segment'']"

definition sql_error_step :: "(nat \<Rightarrow> nat) \<Rightarrow> (pystr \<Rightarrow> pystr) \<Rightarrow> surface_row \<Rightarrow> pystr \<Rightarrow> point_step" where
  "sql_error_step draw repr surface path insertion st k =
     (if ins_kind insertion \<notin> set SQL_KINDS then k st
      else signature_step SQL_SIGNATURES (sql_error_candidate repr) surface path (marker draw (pa_drawn st) @ [39]) insertion
        (st\<lparr>pa_drawn := Suc (pa_drawn st)\<rparr>) k)"

definition unprobed_kinds :: "string \<Rightarrow> string \<Rightarrow> pystr" where
  "unprobed_kinds kinds what =
     u ''no insertion point on this surface is one this check probes -- it probes '' @ u kinds
       @ u '' points -- so nothing was sent and this surface was not examined for '' @ u what"

definition sql_error :: "(nat \<Rightarrow> nat) \<Rightarrow> (pystr \<Rightarrow> pystr) \<Rightarrow> surface_row \<Rightarrow> insertion_point list \<Rightarrow> pystr \<Rightarrow> probing" where
  "sql_error draw repr surface insertions path =
     for_points (sql_error_step draw repr surface path) insertions start_probed
       (close_points (u ''sql-error-disclosure'') (unprobed_kinds ''path_segment, query'' ''database error disclosure''))"

definition FILE_NAME_HINTS :: "pystr list" where
  "FILE_NAME_HINTS = map u [''file'', ''path'', ''filename'', ''document'', ''doc'', ''template'', ''include'', ''download'',
     ''attachment'', ''image'', ''img'', ''src'', ''resource'', ''asset'', ''load'', ''report'']"

definition TRAVERSAL_DEPTH :: nat where
  "TRAVERSAL_DEPTH = 6"

definition TRAVERSAL_PAYLOAD :: pystr where
  "TRAVERSAL_PAYLOAD = concat (replicate TRAVERSAL_DEPTH (u ''../'')) @ u ''etc/passwd''"

definition FILE_SIGNATURES :: "(pystr \<times> pystr) list" where
  "FILE_SIGNATURES = map (\<lambda>(s, v). (u s, u v))
     [(''root:x:0:0:'', ''the root account's line''),
      (''root:*:0:0:'', ''the root account's line (BSD-style shadow marker)''),
      (''daemon:x:1:1:'', ''the daemon account's line''),
      (''bin:x:2:2:'', ''the bin account's line''),
      (''nobody:x:65534:'', ''the nobody account's line'')]"

definition traversal_candidate :: "(pystr \<Rightarrow> pystr) \<Rightarrow> insertion_point \<Rightarrow> pystr \<Rightarrow> probe_response \<Rightarrow> pystr \<Rightarrow> pystr \<Rightarrow> candidate" where
  "traversal_candidate repr insertion payload resp signature what =
     \<lparr>ca_issue_type_id = u ''path-traversal'',
      ca_title = u ''File content disclosed via '' @ repr (ins_name insertion) @ u '' (path traversal)'',
      ca_description = Some (u ''Requesting '' @ ins_kind insertion @ u '' '' @ repr (ins_name insertion)
        @ u '' with a directory-traversal sequence ('' @ repr payload @ u '', six levels up and back down to /etc/passwd) drew back status ''
        @ status_text (pr_status resp) @ u '' with '' @ location_of resp signature @ u '' containing '' @ repr signature
        @ u '' -- '' @ what
        @ u '' from /etc/passwd. The response could only carry that file's own content if this input was used, unsanitised, to build a filesystem path outside the directory the application intended to serve from. This shows that a file outside the intended directory can be read; it does not show what else is reachable, and no attempt was made here to read anything beyond this one, deliberately harmless, world-readable file.''),
      ca_impact = None,
      ca_remediation = Some (u ''Resolve this input against an allowlist of permitted files, or canonicalise the resulting path and reject any request whose resolved path falls outside the intended directory, rather than concatenating this input directly into a filesystem path.''),
      ca_cwe = Some (u ''CWE-22''), ca_severity = u ''High'', ca_confidence = u ''Certain'', ca_scope_level = u ''surface'',
      ca_payload = Some payload, ca_insertion = Some insertion\<rparr>"

definition traversal_step :: "(pystr \<Rightarrow> pystr) \<Rightarrow> surface_row \<Rightarrow> pystr \<Rightarrow> point_step" where
  "traversal_step repr surface path insertion st k =
     (if ins_kind insertion \<notin> set SQL_KINDS \<or> \<not> hinted FILE_NAME_HINTS (ins_name insertion) then k st
      else signature_step FILE_SIGNATURES (traversal_candidate repr) surface path TRAVERSAL_PAYLOAD insertion st k)"

definition path_traversal :: "(pystr \<Rightarrow> pystr) \<Rightarrow> surface_row \<Rightarrow> insertion_point list \<Rightarrow> pystr \<Rightarrow> probing" where
  "path_traversal repr surface insertions path =
     for_points (traversal_step repr surface path) insertions start_probed
       (close_points (u ''path-traversal'')
         (u ''no insertion point on this surface is one this check probes -- it probes a query or path_segment point whose name contains one of ''
           @ join (u '', '') FILE_NAME_HINTS
           @ u '' -- so nothing was sent and this surface was not examined for path traversal''))"

section \<open>Reflected input\<close>

definition META_CHARS :: pystr where
  "META_CHARS = [60, 62, 34, 39]"

definition REFLECTED_KINDS :: "pystr list" where
  "REFLECTED_KINDS = map u [''query'', ''path_segment'', ''header'', ''cookie'']"

definition reflected_probe :: "pystr \<Rightarrow> pystr \<Rightarrow> insertion_point \<Rightarrow> pystr \<Rightarrow> check_exc + (pystr \<times> (pystr \<times> pystr) list) option" where
  "reflected_probe path tpl insertion val =
     (if ins_kind insertion = u ''header'' then Inr (Some (path, [(ins_name insertion, val)]))
      else if ins_kind insertion = u ''cookie'' then Inr (Some (path, [(u ''Cookie'', ins_name insertion @ [61] @ val)]))
      else rbind (probe_path path tpl insertion val) (\<lambda>p. Inr (map_option (\<lambda>p. (p, [])) p)))"

definition where_reflected :: "probe_response \<Rightarrow> pystr \<Rightarrow> pystr" where
  "where_reflected resp m =
     (let in_head = contains (ascii m) (pr_head resp); in_body = contains (ascii m) (pr_body resp);
          ctype = join (u '', '') (header_values (pr_head resp) (u ''content-type'')) in
      if in_body \<and> in_head then u ''both a response header and the response body''
      else if in_head then u ''a response header, not the response body''
      else u ''the response body ('' @ (if ctype = [] then u ''no Content-Type header'' else ctype) @ u '')'')"

definition reflected_tail :: "(pystr \<Rightarrow> pystr) \<Rightarrow> bool option \<Rightarrow> pystr" where
  "reflected_tail repr unescaped =
     (case unescaped of
        Some True \<Rightarrow> u '' A second request replaced the marker with a fresh one wrapped in '' @ repr META_CHARS
          @ u '' (the characters that matter for breaking out of a tag, an attribute, or a quoted string), and that wrapping came back unescaped and intact.''
      | None \<Rightarrow> u '' A second request would have replaced the marker with a fresh one wrapped in '' @ repr META_CHARS
          @ u '' to see whether those characters survive, and it was refused before it was sent, so this check cannot say whether the surrounding context would let a character-bearing value through.''
      | Some False \<Rightarrow> u '' A second request replaced the marker with a fresh one wrapped in '' @ repr META_CHARS
          @ u '' to see whether those characters survive; they did not come back intact, so this check cannot say whether the surrounding context would let a character-bearing value through.'')"

definition reflected_candidate :: "(pystr \<Rightarrow> pystr) \<Rightarrow> insertion_point \<Rightarrow> pystr \<Rightarrow> pystr \<Rightarrow> probe_response \<Rightarrow> bool option \<Rightarrow> candidate" where
  "reflected_candidate repr insertion m wrapped resp unescaped =
     \<lparr>ca_issue_type_id = u ''reflected-input'',
      ca_title = u ''Input reflected via '' @ repr (ins_name insertion) @ (if unescaped = Some True then u '', unescaped'' else []),
      ca_description = Some (u ''Sending '' @ ins_kind insertion @ u '' '' @ repr (ins_name insertion)
        @ u '' with a random, inert alphanumeric marker drew back status '' @ status_text (pr_status resp)
        @ u '' with that marker present in '' @ where_reflected resp m @ u '', so this target reflects this input.''
        @ reflected_tail repr unescaped
        @ u '' This shows that input is reflected, not that it is exploitable: this check only ever sends idempotent GET/HEAD requests, never renders the response, and never followed up with anything a browser, script engine or template evaluator would treat as markup.''),
      ca_impact = None,
      ca_remediation = Some (u ''Encode this input for the context it is reflected into (HTML-encode for a body, header-encode for a header) before it reaches the response, or drop it from the response altogether if it need not be echoed at all.''),
      ca_cwe = Some (u ''CWE-79''), ca_severity = (if unescaped = Some True then u ''Medium'' else u ''Low''),
      ca_confidence = u ''Certain'', ca_scope_level = u ''surface'',
      ca_payload = Some (if unescaped = Some True then wrapped else m), ca_insertion = Some insertion\<rparr>"

text \<open>The second request, made once a marker came back; a refusal of it leaves the finding standing.\<close>

definition escalate :: "(nat \<Rightarrow> nat) \<Rightarrow> (pystr \<Rightarrow> pystr) \<Rightarrow> surface_row \<Rightarrow> pystr \<Rightarrow> insertion_point \<Rightarrow> pystr \<Rightarrow> probe_response
    \<Rightarrow> probed \<Rightarrow> (probed \<Rightarrow> probing) \<Rightarrow> probing" where
  "escalate draw repr surface path insertion m resp st k =
     (let wrapped = META_CHARS @ marker draw (pa_drawn st) @ META_CHARS; st = st\<lparr>pa_drawn := Suc (pa_drawn st)\<rparr> in
      case reflected_probe path (sf_path_template surface) insertion wrapped of
        Inl e \<Rightarrow> Raise e
      | Inr None \<Rightarrow> Raise (Raised (u ''TypeError'') [])
      | Inr (Some (p, headers)) \<Rightarrow>
          send_or_gap p headers insertion st (\<lambda>r st.
            found_here (reflected_candidate repr insertion m wrapped resp (map_option (\<lambda>r. reflected r wrapped) r))
              (sf_exemplar surface) st k))"

definition reflected_step :: "(nat \<Rightarrow> nat) \<Rightarrow> (pystr \<Rightarrow> pystr) \<Rightarrow> surface_row \<Rightarrow> pystr \<Rightarrow> point_step" where
  "reflected_step draw repr surface path insertion st k =
     (if ins_kind insertion \<notin> set REFLECTED_KINDS then k st
      else
        let m = marker draw (pa_drawn st); st = st\<lparr>pa_drawn := Suc (pa_drawn st)\<rparr> in
        case reflected_probe path (sf_path_template surface) insertion m of
          Inl e \<Rightarrow> Raise e
        | Inr None \<Rightarrow> k (no_probe_built insertion st)
        | Inr (Some (p, headers)) \<Rightarrow>
            send_or_gap p headers insertion st (\<lambda>resp st.
              case resp of
                None \<Rightarrow> k st
              | Some resp \<Rightarrow>
                  let st = st\<lparr>pa_any := True\<rparr> in
                  if \<not> reflected resp m then nothing_here insertion resp st k
                  else escalate draw repr surface path insertion m resp st k))"

definition reflected_input :: "(nat \<Rightarrow> nat) \<Rightarrow> (pystr \<Rightarrow> pystr) \<Rightarrow> surface_row \<Rightarrow> insertion_point list \<Rightarrow> pystr \<Rightarrow> probing" where
  "reflected_input draw repr surface insertions path =
     for_points (reflected_step draw repr surface path) insertions start_probed
       (close_points (u ''reflected-input'') (unprobed_kinds ''cookie, header, path_segment, query'' ''reflected input''))"

section \<open>Two responses that differ\<close>

definition MIN_LEN_DELTA :: int where
  "MIN_LEN_DELTA = 32"

datatype material = DiffStatus | DiffLength | DiffContent

definition material_of :: "difference \<Rightarrow> material option" where
  "material_of d =
     (if df_status_changed d then Some DiffStatus
      else if abs (df_len d) \<ge> MIN_LEN_DELTA then Some DiffLength
      else if df_new_tokens d \<noteq> None \<and> df_new_tokens d \<noteq> Some [] then Some DiffContent
      else None)"

definition differed :: "material \<Rightarrow> probe_response \<Rightarrow> probe_response \<Rightarrow> pystr" where
  "differed kind q e =
     (case kind of
        DiffStatus \<Rightarrow> u ''the two answers differed in STATUS: '' @ status_text (pr_status q) @ u '' against '' @ status_text (pr_status e)
      | DiffLength \<Rightarrow> u ''the two answers differed in LENGTH by ''
          @ dump_int (abs (int (length (pr_body q)) - int (length (pr_body e)))) @ u '' bytes ('' @ status_text (pr_status q)
          @ u '' against '' @ status_text (pr_status e) @ u '')''
      | DiffContent \<Rightarrow> u ''the two answers differed in CONTENT, with text in one that is absent from the other (''
          @ status_text (pr_status q) @ u '' against '' @ status_text (pr_status e) @ u '')'')"

definition behaviour_candidate :: "(pystr \<Rightarrow> pystr) \<Rightarrow> insertion_point \<Rightarrow> material \<Rightarrow> pystr \<Rightarrow> pystr \<Rightarrow> probe_response \<Rightarrow> probe_response \<Rightarrow> candidate" where
  "behaviour_candidate repr insertion kind quoted escaped q e =
     \<lparr>ca_issue_type_id = u ''sql-injection-behavioural'',
      ca_title = u ''Possible SQL injection via '' @ repr (ins_name insertion) @ u '' (behavioural)'',
      ca_description = Some (u ''Two requests were sent to '' @ ins_kind insertion @ u '' point '' @ repr (ins_name insertion)
        @ u '', differing in one character: '' @ repr quoted @ u '', which leaves a string literal unterminated, and '' @ repr escaped
        @ u '', which is the same value with the quote escaped and is valid inside one. '' @ differed kind q e @ u ''.'' @ [10, 10]
        @ u ''A value that changes an application's behaviour only when its quote is unbalanced has reached something that parses SQL quoting.'' @ [10, 10]
        @ u ''**This is a Tentative finding and needs a human to confirm it.** The difference proves the quote reached a PARSER; it does not prove that parser is a database. An input validator or a WAF that rejects a bare quote and accepts an escaped one produces exactly this signal and is not a vulnerability. Reproduce both requests by hand before reporting this to a client: if the unbalanced quote draws a database error, a boolean condition changes the result set, or a deliberately false condition empties it, the injection is real; if it draws a uniform rejection page, it is input validation working.''),
      ca_impact = None,
      ca_remediation = Some (u ''Build every query with parameterised statements or prepared statements, so that a value can never change the shape of the statement it travels in. Escaping quotes by hand is not equivalent: it has to be right everywhere, and a single missed call restores the flaw.''),
      ca_cwe = Some (u ''CWE-89''), ca_severity = u ''High'', ca_confidence = u ''Tentative'', ca_scope_level = u ''surface'',
      ca_payload = Some quoted, ca_insertion = Some insertion\<rparr>"

text \<open>Two answers alike count as an examination unless both are refusals.\<close>

definition alike_here :: "insertion_point \<Rightarrow> probe_response \<Rightarrow> probe_response \<Rightarrow> probed \<Rightarrow> (probed \<Rightarrow> probing) \<Rightarrow> probing" where
  "alike_here insertion q e st k =
     (if unanswered q \<noteq> None \<and> unanswered e \<noteq> None then
        k (add_gap (ins_name insertion @ u '': both probes came back '' @ status_text (pr_status q)
          @ u '' and identical, so nothing here separates `tested, clean` from `never reached` -- an endpoint that refuses every request refuses an unbalanced quote and an escaped one alike'') st)
      else k st)"

definition behaviour_step :: "(nat \<Rightarrow> nat) \<Rightarrow> (pystr \<Rightarrow> pystr) \<Rightarrow> surface_row \<Rightarrow> pystr \<Rightarrow> point_step" where
  "behaviour_step draw repr surface path insertion st k =
     (if ins_kind insertion \<notin> set SQL_KINDS then k st
      else
        let stem = marker draw (pa_drawn st); st = st\<lparr>pa_drawn := Suc (pa_drawn st)\<rparr>;
            quoted = stem @ [39]; escaped = stem @ [39, 39]; tpl = sf_path_template surface in
        case (probe_path path tpl insertion quoted, probe_path path tpl insertion escaped) of
          (Inr (Some p), Inr (Some p')) \<Rightarrow>
            send_or_gap p [] insertion st (\<lambda>q st.
              case q of
                None \<Rightarrow> k st
              | Some q \<Rightarrow>
                  send_or_gap p' [] insertion st (\<lambda>e st.
                    case e of
                      None \<Rightarrow> k st
                    | Some e \<Rightarrow>
                        let st = st\<lparr>pa_any := True\<rparr> in
                        (case material_of (against (pr_status e) (pr_body e) (pr_status q) (pr_body q)) of
                           None \<Rightarrow> alike_here insertion q e st k
                         | Some kind \<Rightarrow>
                             found_here (behaviour_candidate repr insertion kind quoted escaped q e) (sf_exemplar surface) st k)))
        | (Inr None, _) \<Rightarrow> k (no_probe_built insertion st)
        | (Inr (Some p), Inr None) \<Rightarrow> k (no_probe_built insertion st)
        | (Inl x, _) \<Rightarrow> Raise x
        | (Inr (Some p), Inl x) \<Rightarrow> Raise x)"

definition sql_behaviour :: "(nat \<Rightarrow> nat) \<Rightarrow> (pystr \<Rightarrow> pystr) \<Rightarrow> surface_row \<Rightarrow> insertion_point list \<Rightarrow> pystr \<Rightarrow> probing" where
  "sql_behaviour draw repr surface insertions path =
     for_points (behaviour_step draw repr surface path) insertions start_probed
       (close_points (u ''sql-injection-behavioural'') (unprobed_kinds ''path_segment, query'' ''behavioural SQL injection''))"

section \<open>The checks as the registry holds them\<close>

definition active_check_of :: "string \<Rightarrow> pystr \<Rightarrow> pystr list \<Rightarrow> (surface_row \<Rightarrow> insertion_point list \<Rightarrow> pystr \<Rightarrow> probing) \<Rightarrow> scan_check" where
  "active_check_of name looks_for kinds probes =
     \<lparr>ck_decl = \<lparr>cd_id = u name, cd_version = u ''1'', cd_class = u ''active_safe'', cd_hooks = [u ''probes''],
        cd_insertion_kinds = kinds, cd_looks_for = Some (JStr looks_for)\<rparr>,
      ck_on_surface = (\<lambda>_ _. Inl (Raised (u ''AttributeError'') [])), ck_probes = probes\<rparr>"

definition CHECKS :: "(pystr \<Rightarrow> blob_exc + bytes) \<Rightarrow> (pystr \<Rightarrow> bool) \<Rightarrow> (nat \<Rightarrow> nat) \<Rightarrow> (pystr \<Rightarrow> pystr) \<Rightarrow> scan_check list" where
  "CHECKS read_blob netloc_ok draw repr =
     passive_checks read_blob
     @ [active_check_of ''hx.active.cors'' (u ''a cross-origin policy that reflects an attacker's origin'') [] (cors repr),
        active_check_of ''hx.active.open-redirect'' (u ''redirects to an address supplied in the request'') [u ''query'']
          (open_redirect netloc_ok repr),
        active_check_of ''hx.active.reflected-input'' (u ''request input echoed back into a response'') REFLECTED_KINDS
          (reflected_input draw repr),
        active_check_of ''hx.active.sql-error'' (u ''database error messages disclosed in a response'') SQL_KINDS
          (sql_error draw repr),
        active_check_of ''hx.active.sql-behaviour'' (u ''SQL injection detectable by a difference between two responses'') SQL_KINDS
          (sql_behaviour draw repr),
        active_check_of ''hx.active.path-traversal'' (u ''file paths that climb out of their intended directory'') SQL_KINDS
          (path_traversal repr)]"

end
