(* ===== verification/Active_Laws.thy ===== *)
theory Active_Laws
  imports Active Passive_Laws Scan_Laws
begin

text \<open>
  What an active check says rests on the answers it got, and what it sends is bounded. The locale \<open>point_check\<close> states what
  one step of a check's loop owes; from it follow the verdict and the number and shape of the requests of
  the whole check. It is interpreted on the step of every shipped check that loops over insertion points.
\<close>

section \<open>Following a check\<close>

text \<open>The answers a check is given, and what it ends with when it is given them.\<close>

type_synonym answers = "(check_exc + probe_response) list"

primrec run_answers :: "probing \<Rightarrow> probe_sender \<Rightarrow> wire \<Rightarrow> answers" where
  "run_answers (Done r) = (\<lambda>ps w. [])"
| "run_answers (Raise e) = (\<lambda>ps w. [])"
| "run_answers (Get path headers k) =
     (\<lambda>ps w. case sender_get path headers ps w of (r, ps', w') \<Rightarrow> r # run_answers (k r) ps' w')"

fun follow :: "probing \<Rightarrow> answers \<Rightarrow> (check_exc + returned) option" where
  "follow (Done r) [] = Some (Inr r)"
| "follow (Raise e) [] = Some (Inl e)"
| "follow (Get path headers k) (a # as) = follow (k a) as"
| "follow p as = None"

lemma run_follow: "run_probing p ps w = (x, ps', w') \<Longrightarrow> follow p (run_answers p ps w) = Some x"
proof (induction p arbitrary: ps w)
  case (Get path headers k)
  obtain r ps1 w1 where "sender_get path headers ps w = (r, ps1, w1)" by (metis prod_cases3)
  with Get.prems Get.IH [OF rangeI] show ?case by simp
qed simp_all

lemma follow_Get: "follow (Get path headers k) as = Some x \<Longrightarrow> \<exists>a as'. as = a # as' \<and> follow (k a) as' = Some x"
  by (cases as) auto

lemma follow_Raise: "follow (Raise e) as = Some x \<Longrightarrow> x = Inl e \<and> as = []"
  by (cases as) auto

lemma follow_Done: "follow (Done r) as = Some x \<Longrightarrow> x = Inr r \<and> as = []"
  by (cases as) auto

definition whole_answer :: "check_exc + probe_response \<Rightarrow> bool" where
  "whole_answer a \<longleftrightarrow> (\<exists>r n. a = Inr r \<and> pr_status r = Some n \<and> 200 \<le> n \<and> n < 300)"

lemma whole_answer_iff: "whole_answer a \<longleftrightarrow> (\<exists>r. a = Inr r \<and> unanswered r = None)"
  by (auto simp: whole_answer_def unanswered_def split: option.splits)

section \<open>What a step owes\<close>

text \<open>The state stands on the answers so far: its candidates are sound, and as long as it holds nothing, every answer was a
  whole 2xx.\<close>

definition stands :: "surface_row \<Rightarrow> probed \<Rightarrow> answers \<Rightarrow> bool" where
  "stands surface st as \<longleftrightarrow>
     (\<forall>f \<in> set (pa_candidates st). mk_candidate (fo_candidate f) [sf_exemplar surface] = Inr f)
     \<and> (pa_gaps st = [] \<and> pa_candidates st = [] \<longrightarrow> (\<forall>a \<in> set as. whole_answer a))
     \<and> (pa_any st \<longrightarrow> as \<noteq> [])"

text \<open>A program that ends, or goes on with \<open>k\<close> from a state that stands.\<close>

definition goes_on :: "surface_row \<Rightarrow> answers \<Rightarrow> (probed \<Rightarrow> probing) \<Rightarrow> probing \<Rightarrow> bool" where
  "goes_on surface before k p \<longleftrightarrow>
     (\<forall>as x. follow p as = Some x \<longrightarrow>
        (\<exists>e. x = Inl e)
        \<or> (\<exists>st as1 as2. as = as1 @ as2 \<and> stands surface st (before @ as1) \<and> follow (k st) as2 = Some x))"

lemma goes_onD:
  assumes "goes_on surface before k p" "follow p as = Some x"
  shows "(\<exists>e. x = Inl e) \<or> (\<exists>st as1 as2. as = as1 @ as2 \<and> stands surface st (before @ as1) \<and> follow (k st) as2 = Some x)"
  using assms unfolding goes_on_def by blast

lemma goes_on_k: "stands surface st before \<Longrightarrow> goes_on surface before k (k st)"
  unfolding goes_on_def by (metis append_Nil append_Nil2)

lemma goes_on_Raise: "goes_on surface before k (Raise e)"
  by (auto simp: goes_on_def dest: follow_Raise)

lemma goes_on_Get:
  assumes "\<And>a. goes_on surface (before @ [a]) k (p a)"
  shows "goes_on surface before k (Get path headers p)"
  unfolding goes_on_def
proof (intro allI impI)
  fix as x assume "follow (Get path headers p) as = Some x"
  then obtain a as' where a: "as = a # as'" "follow (p a) as' = Some x" using follow_Get by blast
  from assms [of a] a(2) have "(\<exists>e. x = Inl e)
      \<or> (\<exists>st as1 as2. as' = as1 @ as2 \<and> stands surface st ((before @ [a]) @ as1) \<and> follow (k st) as2 = Some x)"
    unfolding goes_on_def by blast
  then show "(\<exists>e. x = Inl e) \<or> (\<exists>st as1 as2. as = as1 @ as2 \<and> stands surface st (before @ as1) \<and> follow (k st) as2 = Some x)"
    using a(1) by (metis append.assoc append_Cons append_Nil)
qed

named_theorems steps \<open>parts of a step that go on\<close>

lemmas [steps] = goes_on_k goes_on_Raise goes_on_Get

definition sound_candidates :: "surface_row \<Rightarrow> probed \<Rightarrow> bool" where
  "sound_candidates surface st \<longleftrightarrow> (\<forall>f \<in> set (pa_candidates st). mk_candidate (fo_candidate f) [sf_exemplar surface] = Inr f)"

lemma sound_same [simp]:
  "sound_candidates surface (st\<lparr>pa_any := x\<rparr>) = sound_candidates surface st"
  "sound_candidates surface (st\<lparr>pa_drawn := n\<rparr>) = sound_candidates surface st"
  "sound_candidates surface (add_gap g st) = sound_candidates surface st"
  by (simp_all add: sound_candidates_def add_gap_def)

lemma stands_sound: "stands surface st before \<Longrightarrow> sound_candidates surface st"
  by (simp add: stands_def sound_candidates_def)

lemma stands_gap: "stands surface st before \<Longrightarrow> stands surface (add_gap g st) (before @ as)"
  by (auto simp: stands_def add_gap_def)

lemma stands_draw [simp]: "stands surface (st\<lparr>pa_drawn := n\<rparr>) before = stands surface st before"
  by (simp add: stands_def)

text \<open>A candidate speaks for itself, whatever the answers were.\<close>

lemma goes_on_found [steps]:
  assumes "sound_candidates surface st" "before \<noteq> []"
  shows "goes_on surface before k (found_here c (sf_exemplar surface) st k)"
proof (cases "mk_candidate c [sf_exemplar surface]")
  case (Inr f)
  then have "fo_candidate f = c" by (auto simp: mk_candidate_def split: if_splits)
  with Inr assms have "stands surface (st\<lparr>pa_candidates := pa_candidates st @ [f]\<rparr>) before"
    by (auto simp: stands_def sound_candidates_def)
  then show ?thesis using goes_on_k by (simp add: found_here_def Inr)
qed (simp add: found_here_def goes_on_Raise)

lemma goes_on_nothing [steps]:
  assumes "stands surface st before"
  shows "goes_on surface (before @ [Inr r]) k (nothing_here i r (st\<lparr>pa_any := True\<rparr>) k)"
proof -
  have "stands surface (st\<lparr>pa_any := True\<rparr>) (before @ [Inr r])" if "unanswered r = None"
    using assms that by (auto simp: stands_def whole_answer_iff)
  moreover have "stands surface (add_gap g (st\<lparr>pa_any := True\<rparr>)) (before @ [Inr r])" for g
    using assms by (auto simp: stands_def add_gap_def)
  ultimately show ?thesis by (auto simp: nothing_here_def intro: goes_on_k split: option.split)
qed

lemma goes_on_send:
  assumes "\<And>r. goes_on surface (before @ [Inr r]) k (m (Some r) st)"
    "\<And>e g. goes_on surface (before @ [Inl e]) k (m None (add_gap g st))"
  shows "goes_on surface before k (send_or_gap path headers i st m)"
  unfolding send_or_gap_def
  by (rule goes_on_Get) (use assms in \<open>auto intro: goes_on_Raise split: sum.split check_exc.split\<close>)

lemma goes_on_skip: "stands surface st before \<Longrightarrow> goes_on surface (before @ as) k (k (add_gap g st))"
  by (intro goes_on_k stands_gap)

section \<open>A check that loops over insertion points\<close>

text \<open>What may be asked of a surface: its exemplar's own path, that path with a query, or that path with the segments a
  placeholder stands for replaced; with no header but a probe origin or the one the insertion point names.\<close>

definition probe_of :: "surface_row \<Rightarrow> insertion_point list \<Rightarrow> pystr \<Rightarrow> pystr \<Rightarrow> (pystr \<times> pystr) list \<Rightarrow> bool" where
  "probe_of surface pts path p headers \<longleftrightarrow>
     (p = path \<or> (\<exists>q. p = path @ [63] @ q)
       \<or> (\<exists>i \<in> set pts. \<exists>v. substitute_segment path (sf_path_template surface) (ins_name i) v = Some p))
     \<and> (headers = [] \<or> headers = [(u ''Origin'', PROBE_ORIGIN)]
       \<or> (\<exists>i \<in> set pts. \<exists>v. headers = [(ins_name i, v)] \<and> ins_kind i = u ''header''
            \<or> headers = [(u ''Cookie'', ins_name i @ [61] @ v)] \<and> ins_kind i = u ''cookie''))"

primrec asks :: "(pystr \<Rightarrow> (pystr \<times> pystr) list \<Rightarrow> bool) \<Rightarrow> probing \<Rightarrow> nat \<Rightarrow> bool" where
  "asks P (Done r) = (\<lambda>n. True)"
| "asks P (Raise e) = (\<lambda>n. True)"
| "asks P (Get path headers k) = (\<lambda>n. n > 0 \<and> P path headers \<and> (\<forall>a. asks P (k a) (n - 1)))"

lemma asks_mono: "asks P p n \<Longrightarrow> n \<le> m \<Longrightarrow> asks P p m"
proof (induction p arbitrary: n m)
  case (Get path headers k)
  from Get.prems(1) have g: "n > 0" "P path headers" "\<And>a. asks P (k a) (n - 1)" by simp_all
  have "n - 1 \<le> m - 1" using Get.prems(2) by simp
  then have "asks P (k a) (m - 1)" for a by (rule Get.IH [OF rangeI g(3)])
  with g Get.prems(2) show ?case by simp
qed simp_all

lemma asks_found: "(\<And>st. asks P (k st) n) \<Longrightarrow> asks P (found_here c ex st k) n"
  by (simp add: found_here_def split: sum.split)

lemma asks_nothing: "(\<And>st. asks P (k st) n) \<Longrightarrow> asks P (nothing_here i r st k) n"
  by (simp add: nothing_here_def split: option.split)

lemma asks_send: "P path headers \<Longrightarrow> (\<And>r st. asks P (m r st) n) \<Longrightarrow> asks P (send_or_gap path headers i st m) (Suc n)"
  by (auto simp: send_or_gap_def split: sum.split check_exc.split)

lemma asks_case_option: "(x = None \<Longrightarrow> asks P m n) \<Longrightarrow> (\<And>y. x = Some y \<Longrightarrow> asks P (f y) n)
    \<Longrightarrow> asks P (case x of None \<Rightarrow> m | Some y \<Rightarrow> f y) n"
  by (cases x) simp_all

lemmas asks_intros = asks_found asks_nothing asks_send asks_case_option

lemma active_verdict_asks: "asks P (active_verdict st examined unprobed) n"
  by (simp add: active_verdict_def done_with_def split: option.split sum.split)

lemma active_verdict_follow:
  assumes "follow (active_verdict st examined unprobed) as = Some (Inr ret)" "sound_candidates surface st"
  obtains v where "ret = AVerdict v" "\<forall>f \<in> set (vd_candidates v). mk_candidate (fo_candidate f) [sf_exemplar surface] = Inr f"
    "as = []" "vd_state v = u ''clean'' \<or> vd_considered v \<noteq> [] \<Longrightarrow> pa_gaps st = [] \<and> pa_candidates st = [] \<and> unprobed = None"
proof -
  have lits: "u ''finding'' \<noteq> u ''clean''" "u ''inconclusive'' \<noteq> u ''clean''" by (simp_all add: literals)
  show thesis
    using assms that lits
    by (auto simp: active_verdict_def done_with_def verdict_finding_def verdict_inconclusive_def verdict_clean_def mk_verdict_def
        sound_candidates_def split: if_splits option.splits dest!: follow_Done follow_Raise)
qed

text \<open>What a check over insertion points may be relied on for.\<close>

definition relies_on :: "surface_row \<Rightarrow> answers \<Rightarrow> returned \<Rightarrow> bool" where
  "relies_on surface as ret \<longleftrightarrow>
     (\<exists>v. ret = AVerdict v
        \<and> (vd_state v = u ''clean'' \<or> vd_considered v \<noteq> [] \<longrightarrow> as \<noteq> [] \<and> (\<forall>a \<in> set as. whole_answer a))
        \<and> (\<forall>f \<in> set (vd_candidates v). mk_candidate (fo_candidate f) [sf_exemplar surface] = Inr f))"

locale point_check =
  fixes surface :: surface_row and path :: pystr and step :: point_step
  assumes step_goes_on: "stands surface st before \<Longrightarrow> goes_on surface before k (step i st k)"
    and step_asks: "i \<in> set pts \<Longrightarrow> (\<And>st. asks (probe_of surface pts path) (k st) n) \<Longrightarrow> asks (probe_of surface pts path) (step i st k) (Suc (Suc n))"
begin

lemma loop_goes_on: "stands surface st before \<Longrightarrow> goes_on surface before k (for_points step pts st k)"
proof (induction pts arbitrary: st before)
  case Nil
  then show ?case by (simp add: goes_on_k)
next
  case (Cons i pts)
  let ?k = "\<lambda>st. for_points step pts st k"
  show ?case
    unfolding goes_on_def
  proof (intro allI impI)
    fix as x assume f: "follow (for_points step (i # pts) st k) as = Some x"
    have "follow (step i st ?k) as = Some x" using f by simp
    from goes_onD [OF step_goes_on [OF Cons.prems] this]
    consider e where "x = Inl e"
      | st' as1 as2 where "as = as1 @ as2" "stands surface st' (before @ as1)" "follow (?k st') as2 = Some x"
      by blast
    then show "(\<exists>e. x = Inl e) \<or> (\<exists>st as1 as2. as = as1 @ as2 \<and> stands surface st (before @ as1) \<and> follow (k st) as2 = Some x)"
    proof cases
      case 2
      from goes_onD [OF Cons.IH [OF 2(2)] 2(3)] show ?thesis
      proof (elim disjE exE conjE)
        fix st as3 as4 assume "as2 = as3 @ as4" "stands surface st ((before @ as1) @ as3)" "follow (k st) as4 = Some x"
        with 2(1) show ?thesis by (intro disjI2 exI [of _ st] exI [of _ "as1 @ as3"] exI [of _ as4]) simp
      qed simp
    qed simp
  qed
qed

lemma loop_asks:
  assumes "set is \<subseteq> set pts" "\<And>st. asks (probe_of surface pts path) (k st) 0"
  shows "asks (probe_of surface pts path) (for_points step is st k) (2 * length is)"
  using assms(1)
proof (induction "is" arbitrary: st)
  case Nil
  with assms(2) show ?case by simp
next
  case (Cons i "is")
  then have "asks (probe_of surface pts path) (step i st (\<lambda>st'. for_points step is st' k)) (Suc (Suc (2 * length is)))"
    by (intro step_asks) auto
  then show ?case by simp
qed

lemma check_relies:
  assumes "follow (for_points step pts start_probed (close_points issue_type unprobed)) as = Some (Inr ret)"
  shows "relies_on surface as ret"
proof -
  have "stands surface start_probed []" by (simp add: stands_def start_probed_def)
  from goes_onD [OF loop_goes_on [OF this] assms] obtain st as1 as2 where s: "as = as1 @ as2" "stands surface st as1"
    "follow (close_points issue_type unprobed st) as2 = Some (Inr ret)" by auto
  from s(3) obtain examined why where e: "follow (active_verdict st examined why) as2 = Some (Inr ret)" "why = None \<longrightarrow> pa_any st"
    by (auto simp: close_points_def split: if_splits)
  from active_verdict_follow [OF e(1) stands_sound [OF s(2)]] obtain v where v: "ret = AVerdict v"
    "\<forall>f \<in> set (vd_candidates v). mk_candidate (fo_candidate f) [sf_exemplar surface] = Inr f" "as2 = []"
    "vd_state v = u ''clean'' \<or> vd_considered v \<noteq> [] \<Longrightarrow> pa_gaps st = [] \<and> pa_candidates st = [] \<and> why = None" by blast
  with s(1,2) e(2) show ?thesis by (auto simp: relies_on_def stands_def)
qed

lemma check_asks:
  "asks (probe_of surface pts path) (for_points step pts start_probed (close_points issue_type unprobed)) (2 * length pts)"
  by (rule loop_asks) (simp_all add: close_points_def active_verdict_asks)

end

section \<open>The shipped checks\<close>

lemma goes_on_if [steps]: "(c \<Longrightarrow> goes_on surface as k m) \<Longrightarrow> (\<not> c \<Longrightarrow> goes_on surface as k n) \<Longrightarrow> goes_on surface as k (if c then m else n)"
  by simp

lemma goes_on_sum [steps]:
  "(\<And>e. r = Inl e \<Longrightarrow> goes_on surface as k (f e)) \<Longrightarrow> (\<And>x. r = Inr x \<Longrightarrow> goes_on surface as k (g x))
     \<Longrightarrow> goes_on surface as k (case r of Inl e \<Rightarrow> f e | Inr x \<Rightarrow> g x)"
  by (cases r) simp_all

lemma goes_on_option [steps]:
  "(r = None \<Longrightarrow> goes_on surface as k m) \<Longrightarrow> (\<And>x. r = Some x \<Longrightarrow> goes_on surface as k (f x))
     \<Longrightarrow> goes_on surface as k (case r of None \<Rightarrow> m | Some x \<Rightarrow> f x)"
  by (cases r) simp_all

text \<open>One request per point: sent, then judged.\<close>

lemma one_request:
  assumes "stands surface st before"
    "\<And>r. goes_on surface (before @ [Inr r]) k (weigh r (st\<lparr>pa_any := True\<rparr>))"
  shows "goes_on surface before k (send_or_gap p headers i st (\<lambda>resp st. case resp of None \<Rightarrow> k st
      | Some r \<Rightarrow> weigh r (st\<lparr>pa_any := True\<rparr>)))"
  by (rule goes_on_send) (use assms in \<open>simp_all add: goes_on_skip\<close>)

lemma one_request_asks:
  assumes "P p headers" "\<And>r st. asks P (weigh r st) n" "\<And>st. asks P (k st) n"
  shows "asks P (send_or_gap p headers i st (\<lambda>resp st. case resp of None \<Rightarrow> k st
      | Some r \<Rightarrow> weigh r (st\<lparr>pa_any := True\<rparr>))) (Suc n)"
  by (rule asks_send) (use assms in \<open>auto split: option.split\<close>)

lemma probe_path_probes:
  "probe_path path (sf_path_template surface) i val = Inr (Some p) \<Longrightarrow> i \<in> set pts \<Longrightarrow> probe_of surface pts path p []"
  by (auto simp: probe_path_def probe_of_def split: if_splits option.splits)

interpretation redirect_points: point_check surface path "redirect_step netloc_ok repr surface path" for surface path netloc_ok repr
proof
  show "goes_on surface before k (redirect_step netloc_ok repr surface path i st k)" if "stands surface st before"
    for st before k i
    unfolding redirect_step_def Let_def
    using that stands_sound [OF that] by (intro steps one_request) simp_all
  show "asks (probe_of surface pts path) (redirect_step netloc_ok repr surface path i st k) (Suc (Suc n))"
    if "i \<in> set pts" "\<And>st. asks (probe_of surface pts path) (k st) n" for i pts k n st
  proof -
    have later: "asks (probe_of surface pts path) (k st) m" if "n \<le> m" for st m
      using \<open>\<And>st. asks (probe_of surface pts path) (k st) n\<close> that by (rule asks_mono)
    have "probe_of surface pts path p []" if "redirect_path path (ins_name i) = Inr p" for p
      using that by (auto simp: redirect_path_def probe_of_def split: option.splits)
    moreover have "asks (probe_of surface pts path) (case redirect_host netloc_ok (pr_status r) (pr_head r) of
        Inl e \<Rightarrow> Raise (store_raised e)
      | Inr host \<Rightarrow> if map_option lower host \<noteq> Some MARKER_HOST then nothing_here i r st k
          else found_here (redirect_candidate repr i p r) (sf_exemplar surface) st k) n" for r st p
      using later by (auto intro: asks_found asks_nothing split: sum.split)
    ultimately have "asks (probe_of surface pts path) (redirect_step netloc_ok repr surface path i st k) (Suc n)"
      unfolding redirect_step_def Let_def
      by (cases "redirect_path path (ins_name i)") (auto intro: later one_request_asks)
    then show ?thesis by (rule asks_mono) simp
  qed
qed

lemma signature_goes_on:
  assumes "stands surface st before"
  shows "goes_on surface before k (signature_step sigs cand surface path payload i st k)"
  unfolding signature_step_def Let_def no_probe_built_def
  by (intro steps one_request) (use assms stands_sound [OF assms] stands_gap [OF assms, of _ "[]"] in
    \<open>auto intro!: steps split: option.split prod.split\<close>)

lemma signature_asks:
  assumes "i \<in> set pts" "\<And>st. asks (probe_of surface pts path) (k st) n"
  shows "asks (probe_of surface pts path) (signature_step sigs cand surface path payload i st k) (Suc n)"
proof -
  have later: "asks (probe_of surface pts path) (k st) m" if "n \<le> m" for st m
    using assms(2) that by (rule asks_mono)
  have "asks (probe_of surface pts path) (case match_signature sigs r of None \<Rightarrow> nothing_here i r st k
      | Some (signature, what) \<Rightarrow> found_here (cand i payload r signature what) (sf_exemplar surface) st k) n" for r st
    using later by (auto intro: asks_found asks_nothing split: option.split)
  then show ?thesis
    unfolding signature_step_def Let_def
    by (auto intro: later one_request_asks probe_path_probes [OF _ assms(1)] split: sum.split option.split)
qed

interpretation sql_error_points: point_check surface path "sql_error_step draw repr surface path" for surface path draw repr
proof
  show "goes_on surface before k (sql_error_step draw repr surface path i st k)" if "stands surface st before" for st before k i
    unfolding sql_error_step_def using that by (auto intro!: goes_on_k signature_goes_on)
  show "asks (probe_of surface pts path) (sql_error_step draw repr surface path i st k) (Suc (Suc n))"
    if "i \<in> set pts" "\<And>st. asks (probe_of surface pts path) (k st) n" for i pts k n st
    unfolding sql_error_step_def using asks_mono [OF that(2), of "Suc (Suc n)"] asks_mono [OF signature_asks [OF that], of "Suc (Suc n)"] by simp
qed

interpretation traversal_points: point_check surface path "traversal_step repr surface path" for surface path repr
proof
  show "goes_on surface before k (traversal_step repr surface path i st k)" if "stands surface st before" for st before k i
    unfolding traversal_step_def using that by (auto intro!: goes_on_k signature_goes_on)
  show "asks (probe_of surface pts path) (traversal_step repr surface path i st k) (Suc (Suc n))"
    if "i \<in> set pts" "\<And>st. asks (probe_of surface pts path) (k st) n" for i pts k n st
    unfolding traversal_step_def using asks_mono [OF that(2), of "Suc (Suc n)"] asks_mono [OF signature_asks [OF that], of "Suc (Suc n)"] by simp
qed

lemma escalate_goes_on:
  assumes "sound_candidates surface st" "before \<noteq> []"
  shows "goes_on surface before k (escalate draw repr surface path i m r st k)"
  unfolding escalate_def Let_def
  using assms by (auto intro!: goes_on_Raise goes_on_send goes_on_found split: sum.split option.split)

lemma reflected_probe_probes:
  "reflected_probe path (sf_path_template surface) i val = Inr (Some (p, headers)) \<Longrightarrow> i \<in> set pts \<Longrightarrow> probe_of surface pts path p headers"
  by (cases "probe_path path (sf_path_template surface) i val")
    (auto simp: reflected_probe_def probe_of_def probe_path_def split: if_splits option.splits)

interpretation reflected_points: point_check surface path "reflected_step draw repr surface path" for surface path draw repr
proof
  show "goes_on surface before k (reflected_step draw repr surface path i st k)" if s: "stands surface st before" for st before k i
  proof -
    have "goes_on surface (before @ [Inr r]) k (if \<not> reflected r m then nothing_here i r (st\<lparr>pa_drawn := n, pa_any := True\<rparr>) k
        else escalate draw repr surface path i m r (st\<lparr>pa_drawn := n, pa_any := True\<rparr>) k)" for r m n
      using goes_on_nothing [of surface "st\<lparr>pa_drawn := n\<rparr>"] s stands_sound [OF s] by (auto intro: escalate_goes_on)
    then have "goes_on surface before k (send_or_gap p headers i (st\<lparr>pa_drawn := n\<rparr>) (\<lambda>resp st. case resp of None \<Rightarrow> k st
        | Some r \<Rightarrow> if \<not> reflected r m then nothing_here i r (st\<lparr>pa_any := True\<rparr>) k
            else escalate draw repr surface path i m r (st\<lparr>pa_any := True\<rparr>) k))" for p headers m n
      by (intro one_request) (simp_all add: s)
    then show ?thesis
      unfolding reflected_step_def Let_def no_probe_built_def
      using s stands_gap [of surface "st\<lparr>pa_drawn := n\<rparr>" before _ "[]" for n]
      by (auto intro!: goes_on_k goes_on_Raise split: sum.split option.split)
  qed
  show "asks (probe_of surface pts path) (reflected_step draw repr surface path i st k) (Suc (Suc n))"
    if i: "i \<in> set pts" and k: "\<And>st. asks (probe_of surface pts path) (k st) n" for i pts k n st
  proof -
    have later: "asks (probe_of surface pts path) (k st) m" if "n \<le> m" for st m
      using k that by (rule asks_mono)
    have "asks (probe_of surface pts path) (escalate draw repr surface path i m r st k) (Suc n)" for m r st
      unfolding escalate_def Let_def
      by (auto intro!: asks_send asks_found k reflected_probe_probes [OF _ i] split: sum.split option.split)
    then have "asks (probe_of surface pts path) (if \<not> reflected r m then nothing_here i r st k
        else escalate draw repr surface path i m r st k) (Suc n)" for r m st
      using later by (auto intro: asks_nothing)
    then have send: "asks (probe_of surface pts path) (send_or_gap p headers i st (\<lambda>resp st. case resp of None \<Rightarrow> k st
        | Some r \<Rightarrow> if \<not> reflected r m then nothing_here i r (st\<lparr>pa_any := True\<rparr>) k
            else escalate draw repr surface path i m r (st\<lparr>pa_any := True\<rparr>) k)) (Suc (Suc n))"
      if "probe_of surface pts path p headers" for p headers m st
      by (intro one_request_asks) (use that later in auto)
    show ?thesis
    proof (cases "reflected_probe path (sf_path_template surface) i (marker draw (pa_drawn st))")
      case (Inr x)
      then show ?thesis
        unfolding reflected_step_def Let_def
        by (cases x) (auto intro: later send reflected_probe_probes [OF _ i] simp del: if_not_P)
    qed (auto simp: reflected_step_def Let_def intro: later)
  qed
qed

lemma alike_status: "material_of (against s x s' y) = None \<Longrightarrow> s = s'"
  by (auto simp: material_of_def against_def Let_def split: if_splits)

lemma alike_goes_on:
  assumes "stands surface st before" "pr_status q = pr_status e"
  shows "goes_on surface (before @ [Inr q, Inr e]) k (alike_here i q e (st\<lparr>pa_any := True\<rparr>) k)"
proof -
  have "unanswered q = unanswered e" using assms(2) by (simp add: unanswered_def)
  then have "stands surface (st\<lparr>pa_any := True\<rparr>) (before @ [Inr q, Inr e])" if "unanswered q = None"
    using assms(1) that by (auto simp: stands_def whole_answer_iff)
  moreover have "stands surface (add_gap g (st\<lparr>pa_any := True\<rparr>)) (before @ [Inr q, Inr e])" for g
    using assms(1) by (auto simp: stands_def add_gap_def)
  ultimately show ?thesis
    using \<open>unanswered q = unanswered e\<close> by (auto simp: alike_here_def intro: goes_on_k)
qed

text \<open>What the behavioural check does with its two probes.\<close>

definition weigh_both :: "(pystr \<Rightarrow> pystr) \<Rightarrow> surface_row \<Rightarrow> insertion_point \<Rightarrow> pystr \<Rightarrow> pystr \<Rightarrow> probe_response \<Rightarrow> probe_response
    \<Rightarrow> probed \<Rightarrow> (probed \<Rightarrow> probing) \<Rightarrow> probing" where
  "weigh_both repr surface i quoted escaped q e st k =
     (case material_of (against (pr_status e) (pr_body e) (pr_status q) (pr_body q)) of
        None \<Rightarrow> alike_here i q e st k
      | Some kind \<Rightarrow> found_here (behaviour_candidate repr i kind quoted escaped q e) (sf_exemplar surface) st k)"

definition both_probes :: "(pystr \<Rightarrow> pystr) \<Rightarrow> surface_row \<Rightarrow> insertion_point \<Rightarrow> pystr \<Rightarrow> pystr \<Rightarrow> pystr \<Rightarrow> pystr
    \<Rightarrow> probed \<Rightarrow> (probed \<Rightarrow> probing) \<Rightarrow> probing" where
  "both_probes repr surface i quoted escaped p p' st k =
     send_or_gap p [] i st (\<lambda>q st. case q of None \<Rightarrow> k st | Some q \<Rightarrow>
       send_or_gap p' [] i st (\<lambda>e st. case e of None \<Rightarrow> k st | Some e \<Rightarrow> weigh_both repr surface i quoted escaped q e (st\<lparr>pa_any := True\<rparr>) k))"

lemma both_probes_goes_on:
  assumes s: "stands surface st before"
  shows "goes_on surface before k (both_probes repr surface i quoted escaped p p' st k)"
proof -
  have weigh: "goes_on surface (before @ [Inr q, Inr e]) k (weigh_both repr surface i quoted escaped q e (st\<lparr>pa_any := True\<rparr>) k)" for q e
  proof (cases "material_of (against (pr_status e) (pr_body e) (pr_status q) (pr_body q))")
    case None
    from alike_goes_on [OF s alike_status [OF None, symmetric]] None show ?thesis by (simp add: weigh_both_def)
  next
    case (Some kind)
    then show ?thesis using stands_sound [OF s] by (simp add: weigh_both_def goes_on_found)
  qed
  have gap: "stands surface (add_gap g st) (before @ as)" for g as by (rule stands_gap [OF s])
  show ?thesis
    unfolding both_probes_def
  proof (rule goes_on_send)
    show "goes_on surface (before @ [Inr q]) k (case Some q of None \<Rightarrow> k st | Some q \<Rightarrow>
        send_or_gap p' [] i st (\<lambda>e st. case e of None \<Rightarrow> k st | Some e \<Rightarrow> weigh_both repr surface i quoted escaped q e (st\<lparr>pa_any := True\<rparr>) k))" for q
      unfolding option.case by (rule goes_on_send) (use weigh gap in \<open>simp_all add: goes_on_k\<close>)
  qed (simp add: gap goes_on_k)
qed

lemma both_probes_asks:
  assumes "P p []" "P p' []" "\<And>st. asks P (k st) n"
  shows "asks P (both_probes repr surface i quoted escaped p p' st k) (Suc (Suc n))"
proof -
  have "asks P (weigh_both repr surface i quoted escaped q e st k) n" for q e st
    using assms(3) by (auto simp: weigh_both_def alike_here_def intro: asks_found split: option.split)
  with assms show ?thesis
    unfolding both_probes_def
    by (intro asks_send asks_case_option) (auto intro: asks_mono [of P _ n] asks_send split: option.split)
qed

lemma behaviour_step_both:
  "behaviour_step draw repr surface path i st k =
     (if ins_kind i \<notin> set SQL_KINDS then k st
      else
        let stem = marker draw (pa_drawn st); st = st\<lparr>pa_drawn := Suc (pa_drawn st)\<rparr>;
            quoted = stem @ [39]; escaped = stem @ [39, 39]; tpl = sf_path_template surface in
        case (probe_path path tpl i quoted, probe_path path tpl i escaped) of
          (Inr (Some p), Inr (Some p')) \<Rightarrow> both_probes repr surface i quoted escaped p p' st k
        | (Inr None, _) \<Rightarrow> k (no_probe_built i st)
        | (Inr (Some p), Inr None) \<Rightarrow> k (no_probe_built i st)
        | (Inl x, _) \<Rightarrow> Raise x
        | (Inr (Some p), Inl x) \<Rightarrow> Raise x)"
  unfolding behaviour_step_def both_probes_def weigh_both_def Let_def by (rule refl)

interpretation behaviour_points: point_check surface path "behaviour_step draw repr surface path" for surface path draw repr
proof
  show "goes_on surface before k (behaviour_step draw repr surface path i st k)" if s: "stands surface st before" for st before k i
    unfolding behaviour_step_both Let_def no_probe_built_def
    using s stands_gap [of surface "st\<lparr>pa_drawn := n\<rparr>" before _ "[]" for n]
    by (auto intro!: goes_on_k goes_on_Raise both_probes_goes_on split: sum.split option.split)
  show "asks (probe_of surface pts path) (behaviour_step draw repr surface path i st k) (Suc (Suc n))"
    if i: "i \<in> set pts" and k: "\<And>st. asks (probe_of surface pts path) (k st) n" for i pts k n st
  proof -
    have later: "asks (probe_of surface pts path) (k st) (Suc (Suc n))" for st
      using k by (rule asks_mono) simp
    show ?thesis
      unfolding behaviour_step_both Let_def
      by (auto intro!: later both_probes_asks k probe_path_probes [OF _ i] split: sum.split option.split)
  qed
qed

lemma cors_relies: "follow (cors repr surface pts path) as = Some (Inr ret) \<Longrightarrow> relies_on surface as ret"
proof -
  assume "follow (cors repr surface pts path) as = Some (Inr ret)"
  then obtain r as' where a: "as = Inr r # as'" "follow (case cors_finding repr (pr_head r) of
      Some c \<Rightarrow> found_here c (sf_exemplar surface) start_probed (\<lambda>st. active_verdict st CORS_EXAMINED None)
    | None \<Rightarrow> active_verdict (case unanswered r of None \<Rightarrow> start_probed | Some why \<Rightarrow> add_gap why start_probed) CORS_EXAMINED None)
      as' = Some (Inr ret)"
    unfolding cors_def by (auto dest!: follow_Get follow_Raise split: sum.splits)
  have s0: "sound_candidates surface start_probed" by (simp add: sound_candidates_def start_probed_def)
  show ?thesis
  proof (cases "cors_finding repr (pr_head r)")
    case None
    let ?st = "case unanswered r of None \<Rightarrow> start_probed | Some why \<Rightarrow> add_gap why start_probed"
    have "sound_candidates surface ?st" using s0 by (simp split: option.split)
    with a None obtain v where v: "ret = AVerdict v" "as' = []"
      "\<forall>f \<in> set (vd_candidates v). mk_candidate (fo_candidate f) [sf_exemplar surface] = Inr f"
      "vd_state v = u ''clean'' \<or> vd_considered v \<noteq> [] \<Longrightarrow> pa_gaps ?st = []"
      using active_verdict_follow [of ?st CORS_EXAMINED None as' ret surface] by auto
    have "unanswered r = None" if "pa_gaps ?st = []" using that by (cases "unanswered r") (auto simp: add_gap_def)
    with v a(1) show ?thesis by (auto simp: relies_on_def whole_answer_iff)
  next
    case (Some c)
    show ?thesis
    proof (cases "mk_candidate c [sf_exemplar surface]")
      case (Inl e)
      with a Some show ?thesis by (auto simp: found_here_def dest: follow_Raise)
    next
      case (Inr f)
      let ?st = "start_probed\<lparr>pa_candidates := pa_candidates start_probed @ [f]\<rparr>"
      from Inr have "fo_candidate f = c" by (auto simp: mk_candidate_def split: if_splits)
      with Inr have "sound_candidates surface ?st" by (simp add: sound_candidates_def start_probed_def)
      with a Some Inr obtain v where "ret = AVerdict v" "as' = []"
        "\<forall>f \<in> set (vd_candidates v). mk_candidate (fo_candidate f) [sf_exemplar surface] = Inr f"
        "vd_state v = u ''clean'' \<or> vd_considered v \<noteq> [] \<Longrightarrow> pa_candidates ?st = []"
        using active_verdict_follow [of ?st CORS_EXAMINED None as' ret surface] by (auto simp: found_here_def)
      then show ?thesis by (auto simp: relies_on_def)
    qed
  qed
qed

lemma cors_asks: "asks (probe_of surface pts path) (cors repr surface pts path) 1"
  by (auto simp: cors_def probe_of_def found_here_def active_verdict_asks split: sum.split option.split)

lemma active_cases:
  assumes "ck \<in> set (CHECKS read_blob netloc_ok draw repr)" "needs_a_bridge (ck_decl ck)"
  shows "ck_probes ck \<in> {cors repr, open_redirect netloc_ok repr, reflected_input draw repr, sql_error draw repr, sql_behaviour draw repr,
    path_traversal repr}"
proof -
  have "ck \<notin> set (passive_checks read_blob)"
    using assms(2) by (auto simp: passive_checks_def passive_check_def needs_a_bridge_def runner_hook_def RUNNER_CALLS_def literals)
  with assms(1) show ?thesis by (auto simp: CHECKS_def active_check_of_def)
qed

lemma active_relies:
  assumes "ck \<in> set (CHECKS read_blob netloc_ok draw repr)" "needs_a_bridge (ck_decl ck)"
    and "follow (ck_probes ck surface pts path) as = Some (Inr ret)"
  shows "relies_on surface as ret"
  using active_cases [OF assms(1,2)] assms(3)
    cors_relies redirect_points.check_relies reflected_points.check_relies sql_error_points.check_relies behaviour_points.check_relies
    traversal_points.check_relies
  by (auto simp: open_redirect_def reflected_input_def sql_error_def sql_behaviour_def path_traversal_def)

lemma active_asks:
  assumes "ck \<in> set (CHECKS read_blob netloc_ok draw repr)" "needs_a_bridge (ck_decl ck)"
  shows "asks (probe_of surface pts path) (ck_probes ck surface pts path) (max 1 (2 * length pts))"
proof -
  have "asks (probe_of surface pts path) (ck_probes ck surface pts path) 1
      \<or> asks (probe_of surface pts path) (ck_probes ck surface pts path) (2 * length pts)"
    using active_cases [OF assms] cors_asks redirect_points.check_asks reflected_points.check_asks sql_error_points.check_asks
      behaviour_points.check_asks traversal_points.check_asks
    by (auto simp: open_redirect_def reflected_input_def sql_error_def sql_behaviour_def path_traversal_def)
  then show ?thesis by (elim disjE) (auto elim: asks_mono)
qed

text \<open>C25. An active check says no more than its answers carry. Whatever the target and the bridge do, if a shipped active
  check returns at all it returns a verdict; it answers \<open>clean\<close>, or names an issue type as examined, only if it
  sent something and every single answer was a whole response with a 2xx status; and whatever it finds cites
  the surface's exemplar and is accepted by the candidate's constructor.\<close>

theorem active_checks_honest:
  assumes "ck \<in> set (CHECKS read_blob netloc_ok draw repr)" "needs_a_bridge (ck_decl ck)"
    and "run_probing (ck_probes ck surface pts path) ps w = (Inr ret, ps', w')"
  shows "\<exists>v. ret = AVerdict v
    \<and> (vd_state v = u ''clean'' \<or> vd_considered v \<noteq> [] \<longrightarrow>
         run_answers (ck_probes ck surface pts path) ps w \<noteq> []
         \<and> (\<forall>a \<in> set (run_answers (ck_probes ck surface pts path) ps w). whole_answer a))
    \<and> (\<forall>f \<in> set (vd_candidates v). mk_candidate (fo_candidate f) [sf_exemplar surface] = Inr f)"
  using active_relies [OF assms(1,2) run_follow [OF assms(3)]] unfolding relies_on_def .

section \<open>How much a check sends\<close>

definition address :: "probe_sender \<Rightarrow> send_request" where
  "address ps = \<lparr>sq_host = ps_host ps, sq_port = ps_port ps, sq_tls = (ps_scheme ps = u ''https''), sq_identity = ps_identity ps\<rparr>"

lemma receive_address: "receive h response ps = (r, ps') \<Longrightarrow> address ps' = address ps"
  by (auto simp: receive_def count_refused_def address_def Let_def split: sum.splits if_splits)

lemma get_loop_count:
  "get_loop n req raw ps w = (r, ps', w') \<Longrightarrow>
     address ps' = address ps \<and> (\<exists>cs. wi_calls w' = wi_calls w @ cs \<and> length cs \<le> n \<and> set cs \<subseteq> {SendCall req raw})"
proof (induction n req raw ps w arbitrary: r ps' w' rule: get_loop.induct)
  case (2 left req raw ps w)
  let ?w = "w\<lparr>wi_calls := wi_calls w @ [SendCall req raw]\<rparr>"
  have one: ?case if "w' = ?w" "address ps' = address ps" using that by (auto intro!: exI [of _ "[SendCall req raw]"])
  show ?case
  proof (cases "wi_answer w (length (wi_calls w))")
    case (Answered h response)
    with 2(2) one show ?thesis by (auto simp: wire_send_def dest: receive_address split: prod.splits)
  next
    case (SendError cls msg hint)
    let ?ps = "if error_class cls \<in> set NOT_ISSUED then ps else ps\<lparr>ps_sent := ps_sent ps + 1\<rparr>"
    have a: "address ?ps = address ps" "address (count_refused c ?ps) = address ps" for c
      by (simp_all add: address_def count_refused_def)
    show ?thesis
    proof (cases "error_class cls = u ''rate_limited'' \<and> has_retry_hint hint \<and> left > 0")
      case True
      with 2(2) SendError have "get_loop left req raw ?ps ?w = (r, ps', w')" by (simp add: wire_send_def Let_def)
      with 2(1) [OF _ SendError refl refl True] obtain cs where "address ps' = address ?ps" "wi_calls w' = wi_calls ?w @ cs"
        "length cs \<le> left" "set cs \<subseteq> {SendCall req raw}" by (fastforce simp: wire_send_def SendError)
      with a show ?thesis by (intro conjI exI [of _ "SendCall req raw # cs"]) simp_all
    next
      case False
      with 2(2) SendError have "ps' = count_refused (error_class cls) ?ps" "w' = ?w"
        by (auto simp: wire_send_def Let_def split: if_splits)
      with a one show ?thesis by simp
    qed
  next
    case (SendCrashed name msg)
    with 2(2) one show ?thesis by (auto simp: wire_send_def)
  qed
qed auto

definition probe_call :: "(pystr \<Rightarrow> (pystr \<times> pystr) list \<Rightarrow> bool) \<Rightarrow> probe_sender \<Rightarrow> bridge_call \<Rightarrow> bool" where
  "probe_call P ps c \<longleftrightarrow>
     (\<exists>p headers raw. c = SendCall (address ps) raw \<and> probe_bytes (ps_host ps) p headers = Some raw \<and> startswith [47] p \<and> P p headers)"

lemma sender_get_count:
  assumes "sender_get path headers ps w = (r, ps', w')" "P path headers"
  shows "address ps' = address ps
    \<and> (\<exists>cs. wi_calls w' = wi_calls w @ cs \<and> length cs \<le> RATE_LIMIT_ATTEMPTS \<and> (\<forall>c \<in> set cs. probe_call P ps c))"
proof (cases "startswith [47] path \<and> placeholder_in path = None \<and> probe_bytes (ps_host ps) path headers \<noteq> None")
  case True
  then obtain raw where raw: "probe_bytes (ps_host ps) path headers = Some raw" by auto
  with True assms(1) have "get_loop RATE_LIMIT_ATTEMPTS (address ps) raw ps w = (r, ps', w')"
    by (simp add: sender_get_def address_def)
  from get_loop_count [OF this] raw True assms(2) show ?thesis
    unfolding probe_call_def by blast
next
  case False
  with assms(1) show ?thesis by (auto simp: sender_get_def split: if_splits option.splits)
qed

lemma run_probing_count:
  "run_probing p ps w = (x, ps', w') \<Longrightarrow> asks P p n \<Longrightarrow>
     \<exists>cs. wi_calls w' = wi_calls w @ cs \<and> length cs \<le> RATE_LIMIT_ATTEMPTS * n \<and> (\<forall>c \<in> set cs. probe_call P ps c)"
proof (induction p arbitrary: ps w n)
  case (Get path headers k)
  obtain r ps1 w1 where g: "sender_get path headers ps w = (r, ps1, w1)" by (metis prod_cases3)
  from Get.prems have n: "n > 0" "P path headers" "asks P (k r) (n - 1)" by simp_all
  from sender_get_count [of path headers ps w r ps1 w1 P] g n(2) obtain cs where
    cs: "address ps1 = address ps" "wi_calls w1 = wi_calls w @ cs" "length cs \<le> RATE_LIMIT_ATTEMPTS" "\<forall>c \<in> set cs. probe_call P ps c"
    by blast
  from Get.prems g have "run_probing (k r) ps1 w1 = (x, ps', w')" by simp
  from Get.IH [OF rangeI this n(3)] obtain ds where
    ds: "wi_calls w' = wi_calls w1 @ ds" "length ds \<le> RATE_LIMIT_ATTEMPTS * (n - 1)" "\<forall>c \<in> set ds. probe_call P ps1 c" by blast
  have "ps_host ps1 = ps_host ps" using cs(1) by (simp add: address_def)
  with cs(1) have "probe_call P ps1 = probe_call P ps" by (simp add: probe_call_def fun_eq_iff)
  moreover have "length cs + length ds \<le> RATE_LIMIT_ATTEMPTS * n"
    using cs(3) ds(2) n(1) by (cases n) simp_all
  ultimately show ?case using cs(2,4) ds(1,3) by (intro exI [of _ "cs @ ds"]) auto
qed auto

text \<open>What an active check sends is bounded in number and in kind, whatever comes back: at most two requests per insertion
  point (one for the check that takes none), each tried at most three times; all of them \<open>GET\<close>s to the surface's own host
  under the scan's identity, of the exemplar's path as it is, with a query, or with a placeholder's segments
  replaced, and with no header but a probe origin or the one an insertion point names.\<close>

theorem active_checks_bounded:
  assumes "ck \<in> set (CHECKS read_blob netloc_ok draw repr)" "needs_a_bridge (ck_decl ck)"
    and "run_probing (ck_probes ck surface pts path) (new_sender scheme host port path identity) w = (r, ps', w')"
  shows "\<exists>cs. wi_calls w' = wi_calls w @ cs \<and> length cs \<le> 3 * max 1 (2 * length pts)
    \<and> (\<forall>c \<in> set cs. \<exists>p headers raw. c = SendCall \<lparr>sq_host = host, sq_port = port, sq_tls = (scheme = u ''https''), sq_identity = identity\<rparr> raw
         \<and> probe_bytes host p headers = Some raw \<and> startswith [47] p \<and> probe_of surface pts path p headers)"
  using run_probing_count [OF assms(3) active_asks [OF assms(1,2)]]
  by (simp add: probe_call_def address_def new_sender_def RATE_LIMIT_ATTEMPTS_def)

section \<open>The registry\<close>

text \<open>The shipped registry passes its own validation.\<close>

lemma shipped_registry_valid: "validate_registry (map ck_decl (CHECKS read_blob netloc_ok draw repr))"
  by (simp add: validate_registry_def CHECKS_def passive_checks_def passive_check_def active_check_of_def registrable_def HOOKS_def
      implemented_def ALL_HOOKS_def RUNNER_CALLS_def literals strip_def rstrip_def lstrip_def is_space_def)

section \<open>A run of a check\<close>

text \<open>A target that answers 200 with nothing in it.\<close>

definition plain_wire :: wire where
  "plain_wire = \<lparr>wi_calls = [], wi_answer = (\<lambda>_. Answered [(u ''status'', JInt 200)] [])\<rparr>"

definition cors_check :: scan_check where
  "cors_check = active_check_of ''hx.active.cors'' (u ''a cross-origin policy that reflects an attacker's origin'') [] (cors id)"

lemma cors_shipped: "cors_check \<in> set (CHECKS (\<lambda>_. Inl CorruptBlob) (\<lambda>_. True) (\<lambda>_. 0) id)" "needs_a_bridge (ck_decl cors_check)"
  by (simp_all add: cors_check_def CHECKS_def needs_a_bridge_def runner_hook_def RUNNER_CALLS_def active_check_of_def literals)

lemma plain_get:
  assumes "startswith [47] path" "placeholder_in path = None" "probe_bytes (ps_host ps) path headers \<noteq> None"
  shows "fst (sender_get path headers ps plain_wire) = Inr \<lparr>pr_status = Some 200, pr_head = [], pr_body = [], pr_outcome = u ''ok''\<rparr>"
proof -
  have n: "RATE_LIMIT_ATTEMPTS = Suc 2" by (simp add: RATE_LIMIT_ATTEMPTS_def)
  have sp: "split_head_body [] = ([], [])" by (simp add: split_head_body_def)
  have r: "fst (receive [(u ''status'', JInt 200)] [] ps) = Inr \<lparr>pr_status = Some 200, pr_head = [], pr_body = [], pr_outcome = u ''ok''\<rparr>"
    by (simp add: receive_def Let_def sp field_def text_of_def status_of_def literals)
  have "fst (get_loop (Suc m) q raw ps plain_wire) = Inr \<lparr>pr_status = Some 200, pr_head = [], pr_body = [], pr_outcome = u ''ok''\<rparr>" for q raw m
    using r by (auto simp: wire_send_def plain_wire_def split: prod.split)
  then have "fst (get_loop RATE_LIMIT_ATTEMPTS q raw ps plain_wire) = Inr \<lparr>pr_status = Some 200, pr_head = [], pr_body = [], pr_outcome = u ''ok''\<rparr>" for q raw
    unfolding n by blast
  with assms show ?thesis by (auto simp: sender_get_def)
qed

lemma cors_runs:
  "fst (run_probing (ck_probes cors_check plain_surface [] (u ''/'')) (new_sender (u ''http'') (u ''a'') 80 (u ''/'') None) plain_wire)
     = Inr (AVerdict \<lparr>vd_state = u ''clean'', vd_candidates = [], vd_reason = None, vd_considered = CORS_EXAMINED\<rparr>)"
proof -
  have p: "placeholder_in (u ''/'') = None" by (simp add: placeholder_in_def literals partition1_def is_placeholder_def startswith_def)
  have b: "probe_bytes (u ''a'') (u ''/'') [(u ''Origin'', PROBE_ORIGIN)] \<noteq> None"
    by (simp add: probe_bytes_def latin1_encode_def PROBE_ORIGIN_def CRLF_def literals)
  have h: "header_values [] n = []" for n by (simp add: header_values_def header_lines_def)
  have s: "startswith [47] (u ''/'')" by (simp add: startswith_def literals)
  have "fst (sender_get (u ''/'') [(u ''Origin'', PROBE_ORIGIN)] (new_sender (u ''http'') (u ''a'') 80 (u ''/'') None) plain_wire)
      = Inr \<lparr>pr_status = Some 200, pr_head = [], pr_body = [], pr_outcome = u ''ok''\<rparr>"
    using b by (intro plain_get s p) (simp add: new_sender_def)
  moreover have "cors_finding id [] = None" by (simp add: cors_finding_def h Let_def)
  moreover have "\<exists>x. CORS_EXAMINED = x # tl CORS_EXAMINED" "[] \<notin> set CORS_EXAMINED" by (simp_all add: CORS_EXAMINED_def literals)
  ultimately show ?thesis
    by (auto simp: cors_check_def active_check_of_def cors_def unanswered_def active_verdict_def start_probed_def done_with_def
        verdict_clean_def mk_verdict_def VERDICT_STATES_def literals split: prod.splits)
qed

theorem active_checks_honest_witness:
  "run_answers (ck_probes cors_check plain_surface [] (u ''/'')) (new_sender (u ''http'') (u ''a'') 80 (u ''/'') None) plain_wire \<noteq> []"
proof -
  obtain ps' w' where "run_probing (ck_probes cors_check plain_surface [] (u ''/'')) (new_sender (u ''http'') (u ''a'') 80 (u ''/'') None)
      plain_wire = (Inr (AVerdict \<lparr>vd_state = u ''clean'', vd_candidates = [], vd_reason = None, vd_considered = CORS_EXAMINED\<rparr>), ps', w')"
    using cors_runs by (metis prod.collapse)
  from active_checks_honest [OF cors_shipped this] show ?thesis by auto
qed

end
