(* ===== verification/Config.thy ===== *)
theory Config
  imports Identity Codec_Bodies Tools
begin

text \<open>
  The engagement file, \<open>src/hx/config.py\<close>: what \<open>load_text\<close> accepts of a parsed YAML document and the document
  \<open>dumps\<close> writes, and the \<open>configure\<close> body \<open>src/hx/session.py\<close> makes of it. The YAML reader and writer are a
  library: a document is a \<open>yaml\<close> value and the reader an argument. The texts of the refusals are left out.
\<close>

section \<open>Documents\<close>

text \<open>A float is its \<open>repr\<close>; \<open>YOther\<close> is a value of another type the reader knows, with the type's name.\<close>

datatype yaml =
    YNull
  | YBool bool
  | YInt int
  | YFloat pystr
  | YStr pystr
  | YSeq "yaml list"
  | YMap "(yaml \<times> yaml) list"
  | YOther pystr pystr

text \<open>What the reader raises, and what \<open>load_text\<close> raises: a syntax error is wrapped, \<open>NotSortable\<close> is the
  \<open>TypeError\<close> of \<open>sorted\<close> on names of unlike types.\<close>

datatype yaml_exc = YAMLError | ReaderRaised pystr

datatype config_exc = ConfigError | ReaderError pystr | NotSortable

definition yget :: "(yaml \<times> yaml) list \<Rightarrow> string \<Rightarrow> yaml" where
  "yget raw key = (case map_of raw (YStr (u key)) of None \<Rightarrow> YNull | Some v \<Rightarrow> v)"

definition yhas :: "(yaml \<times> yaml) list \<Rightarrow> string \<Rightarrow> bool" where
  "yhas raw key \<longleftrightarrow> map_of raw (YStr (u key)) \<noteq> None"

definition falsy :: "yaml \<Rightarrow> bool" where
  "falsy v \<longleftrightarrow>
     (case v of
        YNull \<Rightarrow> True | YBool q \<Rightarrow> \<not> q | YInt n \<Rightarrow> n = 0 | YFloat t \<Rightarrow> t = u ''0.0'' \<or> t = u ''-0.0'' | YStr s \<Rightarrow> s = []
      | YSeq xs \<Rightarrow> xs = [] | YMap kvs \<Rightarrow> kvs = [] | YOther _ _ \<Rightarrow> False)"

text \<open>The values \<open>sorted\<close> can compare with one another.\<close>

definition sort_group :: "yaml \<Rightarrow> pystr" where
  "sort_group v =
     (case v of
        YStr _ \<Rightarrow> u ''str'' | YBool _ \<Rightarrow> u ''number'' | YInt _ \<Rightarrow> u ''number'' | YFloat _ \<Rightarrow> u ''number'' | YNull \<Rightarrow> u ''none''
      | YOther t _ \<Rightarrow> 32 # t | YSeq _ \<Rightarrow> u ''list'' | YMap _ \<Rightarrow> u ''dict'')"

definition sortable :: "yaml list \<Rightarrow> bool" where
  "sortable vs \<longleftrightarrow> (\<forall>v \<in> set vs. \<forall>w \<in> set vs. sort_group v = sort_group w)"

section \<open>Declarations\<close>

record refresh_decl =
  rf_command :: "pystr list"
  rf_value_from :: pystr

text \<open>\<open>Identity\<close> with its \<open>Inject\<close>; its name is the mapping's key, which need not be a string.\<close>

record declared =
  dl_id :: yaml
  dl_strategy :: pystr
  dl_header :: pystr
  dl_env :: "pystr option"
  dl_liveness :: liveness
  dl_refresh :: "refresh_decl option"
  dl_origins :: "pystr list"

record config =
  cf_name :: pystr
  cf_client :: pystr
  cf_safety_profile :: pystr
  cf_scope_include :: "pystr list"
  cf_scope_exclude :: "pystr list"
  cf_render_allow :: "pystr list"
  cf_dangerous_paths :: "pystr list"
  cf_checks :: "(pystr \<times> bool) list"
  cf_rate_limit_rps :: int
  cf_rate_burst :: "int option"
  cf_max_requests :: int
  cf_max_concurrency :: int
  cf_identities :: "(yaml \<times> declared) list"
  cf_scan_identity :: "pystr option"
  cf_preserve_segments :: "pystr list"
  cf_slug_threshold :: int

definition VALID_PROFILES :: "pystr list" where
  "VALID_PROFILES = map u [''production'', ''staging'']"

definition DEFAULT_DANGEROUS_PATHS :: "pystr list" where
  "DEFAULT_DANGEROUS_PATHS = map u
     [''*/logout*'', ''*/signout*'', ''*/password*'', ''*/change-password*'', ''*/reset*'', ''*/delete*'', ''*/purge*'',
      ''*/deactivate*'', ''*/close-account*'']"

definition DEFAULT_CHECKS :: "(pystr \<times> bool) list" where
  "DEFAULT_CHECKS =
     [(u ''passive'', True), (u ''active_safe'', True), (u ''active_timing'', True), (u ''active_mutate'', False),
      (u ''active_dos'', False)]"

definition VALID_STRATEGIES :: "pystr list" where
  "VALID_STRATEGIES = map u [''static'', ''programmatic'']"

section \<open>Reading\<close>

definition y_mapping :: "(yaml \<times> yaml) list \<Rightarrow> string \<Rightarrow> config_exc + (yaml \<times> yaml) list" where
  "y_mapping raw key = (case yget raw key of YNull \<Rightarrow> Inr [] | YMap kvs \<Rightarrow> Inr kvs | _ \<Rightarrow> Inl ConfigError)"

definition check_entries :: "pystr list \<Rightarrow> config_exc + unit" where
  "check_entries vs = (if \<exists>x \<in> set vs. strip x = [] then Inl ConfigError else Inr ())"

definition y_str :: "yaml \<Rightarrow> config_exc + pystr" where
  "y_str v = (case v of YStr s \<Rightarrow> Inr s | _ \<Rightarrow> Inl ConfigError)"

definition string_list :: "(yaml \<times> yaml) list \<Rightarrow> string \<Rightarrow> pystr list \<Rightarrow> config_exc + pystr list" where
  "string_list raw key dflt =
     (case yget raw key of
        YNull \<Rightarrow> Inr dflt
      | YSeq vs \<Rightarrow> rbind (rmap y_str vs) (\<lambda>ss. rbind (check_entries ss) (\<lambda>_. Inr ss))
      | _ \<Rightarrow> Inl ConfigError)"

definition positive_int :: "(yaml \<times> yaml) list \<Rightarrow> string \<Rightarrow> int \<Rightarrow> config_exc + int" where
  "positive_int raw key dflt =
     (if \<not> yhas raw key then Inr dflt
      else case yget raw key of YInt n \<Rightarrow> if n < 1 then Inl ConfigError else Inr n | _ \<Rightarrow> Inl ConfigError)"

text \<open>A string that is not blank, or nothing.\<close>

definition given_text :: "yaml \<Rightarrow> config_exc + pystr option" where
  "given_text v =
     (case v of YNull \<Rightarrow> Inr None | YStr s \<Rightarrow> if strip s = [] then Inl ConfigError else Inr (Some s) | _ \<Rightarrow> Inl ConfigError)"

definition one_of :: "pystr list \<Rightarrow> yaml \<Rightarrow> config_exc + pystr" where
  "one_of vs v = (case v of YStr s \<Rightarrow> if s \<in> set vs then Inr s else Inl ConfigError | _ \<Rightarrow> Inl ConfigError)"

definition ORIGIN_HOST_CHARS :: pystr where
  "ORIGIN_HOST_CHARS = u ''abcdefghijklmnopqrstuvwxyz0123456789.-_''"

text \<open>The first occurrence of any of the delimiters ends the host.\<close>

definition origin_host :: "pystr \<Rightarrow> pystr" where
  "origin_host origin =
     (let rest = fold_name (strip origin);
          rest = (case py_find (u ''://'') rest of None \<Rightarrow> rest | Some i \<Rightarrow> drop (i + 3) rest)
      in takeWhile (\<lambda>c. c \<notin> {47, 58, 63}) rest)"

definition host_matchable :: "pystr \<Rightarrow> bool" where
  "host_matchable host \<longleftrightarrow> host \<noteq> [] \<and> (\<forall>c \<in> set host. c \<in> set ORIGIN_HOST_CHARS)"

definition origin_entry :: "yaml \<Rightarrow> config_exc + pystr" where
  "origin_entry v =
     (case v of
        YStr s \<Rightarrow> if strip s = [] then Inl ConfigError
                  else if \<not> host_matchable (origin_host s) then Inl ConfigError else Inr (strip s)
      | _ \<Rightarrow> Inl ConfigError)"

definition read_origins :: "(yaml \<times> yaml) list \<Rightarrow> config_exc + pystr list" where
  "read_origins raw =
     (if \<not> yhas raw ''origins'' then Inr []
      else case yget raw ''origins'' of
        YSeq vs \<Rightarrow> if vs = [] then Inl ConfigError else rmap origin_entry vs
      | _ \<Rightarrow> Inl ConfigError)"

definition read_liveness :: "(yaml \<times> yaml) list \<Rightarrow> config_exc + liveness" where
  "read_liveness live =
     (if live = [] then Inl ConfigError
      else case (yget live ''expect_body'', yget live ''path'') of
        (YStr expect, YStr path) \<Rightarrow>
          if strip expect = [] \<or> \<not> startswith [47] path then Inl ConfigError
          else rbind (given_text (yget live ''expect_absent'')) (\<lambda>absent.
            rbind (positive_int live ''every_n_probes'' 25) (\<lambda>n.
            Inr \<lparr>lv_path = path, lv_expect_body = expect, lv_expect_absent = absent, lv_every_n_probes = n\<rparr>))
      | _ \<Rightarrow> Inl ConfigError)"

definition read_refresh :: "pystr \<Rightarrow> (yaml \<times> yaml) list \<Rightarrow> config_exc + refresh_decl option" where
  "read_refresh strategy raw =
     (if strategy = u ''static'' \<and> raw \<noteq> [] then Inl ConfigError
      else if strategy = u ''programmatic'' \<and> raw = [] then Inl ConfigError
      else if raw = [] then Inr None
      else case yget raw ''command'' of
        YSeq vs \<Rightarrow>
          if vs = [] then Inl ConfigError
          else rbind (rmap y_str vs) (\<lambda>command.
            if yhas raw ''value_from'' \<and> yget raw ''value_from'' \<noteq> YStr (u ''stdout'') then Inl ConfigError
            else Inr (Some \<lparr>rf_command = command, rf_value_from = u ''stdout''\<rparr>))
      | _ \<Rightarrow> Inl ConfigError)"

definition read_identity :: "yaml \<Rightarrow> yaml \<Rightarrow> config_exc + declared" where
  "read_identity name v =
     (case v of
        YMap raw \<Rightarrow>
          rbind (one_of VALID_STRATEGIES (yget raw ''strategy'')) (\<lambda>strategy.
          rbind (y_mapping raw ''inject'') (\<lambda>inj.
          rbind (one_of CREDENTIAL_HEADERS (yget inj ''header'')) (\<lambda>header.
          rbind (given_text (yget inj ''value_from_env'')) (\<lambda>env.
          if strategy = u ''static'' \<and> env = None then Inl ConfigError
          else
          rbind (rbind (y_mapping raw ''liveness'') read_liveness) (\<lambda>lv.
          rbind (rbind (y_mapping raw ''refresh'') (read_refresh strategy)) (\<lambda>rf.
          rbind (read_origins raw) (\<lambda>origins.
          Inr \<lparr>dl_id = name, dl_strategy = strategy, dl_header = header, dl_env = env, dl_liveness = lv, dl_refresh = rf,
               dl_origins = origins\<rparr>)))))))
      | _ \<Rightarrow> Inl ConfigError)"

text \<open>The loop over the written check classes, on top of the defaults.\<close>

fun read_checks :: "(yaml \<times> yaml) list \<Rightarrow> (pystr \<times> bool) list \<Rightarrow> config_exc + (pystr \<times> bool) list" where
  "read_checks [] checks = Inr checks"
| "read_checks ((YStr key, YBool v) # rest) checks =
     (if key \<notin> fst ` set DEFAULT_CHECKS then Inl ConfigError else read_checks rest (dict_set key v checks))"
| "read_checks (_ # rest) checks = Inl ConfigError"

definition read_scan_identity :: "yaml list \<Rightarrow> yaml \<Rightarrow> config_exc + pystr option" where
  "read_scan_identity names v =
     (case v of
        YNull \<Rightarrow> Inr None
      | YStr s \<Rightarrow> if YStr s \<in> set names then Inr (Some s) else if sortable names then Inl ConfigError else Inl NotSortable
      | _ \<Rightarrow> Inl ConfigError)"

definition required_text :: "(yaml \<times> yaml) list \<Rightarrow> string \<Rightarrow> config_exc + pystr" where
  "required_text raw key =
     (case yget raw key of YStr s \<Rightarrow> if strip s = [] then Inl ConfigError else Inr s | _ \<Rightarrow> Inl ConfigError)"

definition read_profile :: "(yaml \<times> yaml) list \<Rightarrow> config_exc + pystr" where
  "read_profile raw =
     (if \<not> yhas raw ''safety_profile'' then Inr (u ''production'') else one_of VALID_PROFILES (yget raw ''safety_profile''))"

definition read_include :: "(yaml \<times> yaml) list \<Rightarrow> config_exc + pystr list" where
  "read_include scope = rbind (string_list scope ''include'' []) (\<lambda>vs. if vs = [] then Inl ConfigError else Inr vs)"

definition read_burst :: "(yaml \<times> yaml) list \<Rightarrow> config_exc + int option" where
  "read_burst raw =
     (if yget raw ''rate_burst'' = YNull then Inr None else rbind (positive_int raw ''rate_burst'' 5) (\<lambda>n. Inr (Some n)))"

definition load_value :: "yaml \<Rightarrow> config_exc + config" where
  "load_value doc =
     (case (if falsy doc then YMap [] else doc) of
        YMap raw \<Rightarrow>
          rbind (required_text raw ''name'') (\<lambda>name.
          rbind (required_text raw ''client'') (\<lambda>client.
          rbind (read_profile raw) (\<lambda>profile.
          rbind (y_mapping raw ''scope'') (\<lambda>scope.
          rbind (read_include scope) (\<lambda>include.
          rbind (rbind (y_mapping raw ''checks'') (\<lambda>kvs. read_checks kvs DEFAULT_CHECKS)) (\<lambda>checks.
          rbind (rbind (y_mapping raw ''identities'') (rmap (\<lambda>(n, v). rbind (read_identity n v) (\<lambda>d. Inr (n, d))))) (\<lambda>ids.
          rbind (read_scan_identity (map fst ids) (yget raw ''scan_identity'')) (\<lambda>scan_identity.
          rbind (string_list scope ''exclude'' []) (\<lambda>exclude.
          rbind (string_list raw ''render_allow'' []) (\<lambda>render.
          rbind (string_list raw ''dangerous_paths'' DEFAULT_DANGEROUS_PATHS) (\<lambda>dangerous.
          rbind (positive_int raw ''rate_limit_rps'' 5) (\<lambda>rps.
          rbind (read_burst raw) (\<lambda>burst.
          rbind (positive_int raw ''max_requests'' 2000) (\<lambda>requests.
          rbind (positive_int raw ''max_concurrency'' 2) (\<lambda>concurrency.
          rbind (string_list raw ''preserve_segments'' (map u [''api'', ''v1'', ''v2'', ''v3''])) (\<lambda>preserve.
          rbind (positive_int raw ''slug_threshold'' 12) (\<lambda>slug.
          Inr \<lparr>cf_name = name, cf_client = client, cf_safety_profile = profile, cf_scope_include = include,
               cf_scope_exclude = exclude, cf_render_allow = render, cf_dangerous_paths = dangerous, cf_checks = checks,
               cf_rate_limit_rps = rps, cf_rate_burst = burst, cf_max_requests = requests, cf_max_concurrency = concurrency,
               cf_identities = ids, cf_scan_identity = scan_identity, cf_preserve_segments = preserve,
               cf_slug_threshold = slug\<rparr>)))))))))))))))))
      | _ \<Rightarrow> Inl ConfigError)"

definition load_text :: "(pystr \<Rightarrow> yaml_exc + yaml) \<Rightarrow> pystr \<Rightarrow> config_exc + config" where
  "load_text safe_load text =
     (case safe_load text of
        Inl YAMLError \<Rightarrow> Inl ConfigError
      | Inl (ReaderRaised t) \<Rightarrow> Inl (ReaderError t)
      | Inr doc \<Rightarrow> load_value doc)"

section \<open>Writing\<close>

definition yfield :: "string \<Rightarrow> yaml \<Rightarrow> yaml \<times> yaml" where
  "yfield k v = (YStr (u k), v)"

definition yopt :: "('a \<Rightarrow> yaml) \<Rightarrow> 'a option \<Rightarrow> yaml" where
  "yopt f x = (case x of None \<Rightarrow> YNull | Some y \<Rightarrow> f y)"

definition ystrs :: "pystr list \<Rightarrow> yaml" where
  "ystrs ss = YSeq (map YStr ss)"

definition when_given :: "string \<Rightarrow> ('a \<Rightarrow> yaml) \<Rightarrow> 'a option \<Rightarrow> (yaml \<times> yaml) list" where
  "when_given k f x = (case x of None \<Rightarrow> [] | Some y \<Rightarrow> [yfield k (f y)])"

definition identity_yaml :: "declared \<Rightarrow> yaml" where
  "identity_yaml d =
     YMap ([yfield ''strategy'' (YStr (dl_strategy d)),
            yfield ''inject'' (YMap (yfield ''header'' (YStr (dl_header d)) # when_given ''value_from_env'' YStr (dl_env d))),
            yfield ''liveness'' (YMap ([yfield ''path'' (YStr (lv_path (dl_liveness d))),
              yfield ''expect_body'' (YStr (lv_expect_body (dl_liveness d))),
              yfield ''every_n_probes'' (YInt (lv_every_n_probes (dl_liveness d)))]
              @ when_given ''expect_absent'' YStr (lv_expect_absent (dl_liveness d))))]
       @ when_given ''refresh'' (\<lambda>r. YMap [yfield ''command'' (ystrs (rf_command r)), yfield ''value_from'' (YStr (rf_value_from r))])
           (dl_refresh d)
       @ (if dl_origins d = [] then [] else [yfield ''origins'' (ystrs (dl_origins d))]))"

definition config_yaml :: "config \<Rightarrow> yaml" where
  "config_yaml c =
     YMap [yfield ''name'' (YStr (cf_name c)), yfield ''client'' (YStr (cf_client c)),
           yfield ''safety_profile'' (YStr (cf_safety_profile c)),
           yfield ''scope'' (YMap [yfield ''include'' (ystrs (cf_scope_include c)), yfield ''exclude'' (ystrs (cf_scope_exclude c))]),
           yfield ''render_allow'' (ystrs (cf_render_allow c)), yfield ''dangerous_paths'' (ystrs (cf_dangerous_paths c)),
           yfield ''checks'' (YMap (map (\<lambda>(k, v). (YStr k, YBool v)) (cf_checks c))),
           yfield ''rate_limit_rps'' (YInt (cf_rate_limit_rps c)), yfield ''rate_burst'' (yopt YInt (cf_rate_burst c)),
           yfield ''max_requests'' (YInt (cf_max_requests c)), yfield ''max_concurrency'' (YInt (cf_max_concurrency c)),
           yfield ''identities'' (YMap (map (\<lambda>(n, d). (n, identity_yaml d)) (cf_identities c))),
           yfield ''scan_identity'' (yopt YStr (cf_scan_identity c)),
           yfield ''preserve_segments'' (ystrs (cf_preserve_segments c)), yfield ''slug_threshold'' (YInt (cf_slug_threshold c))]"

definition config_dumps :: "(yaml \<Rightarrow> pystr) \<Rightarrow> config \<Rightarrow> pystr" where
  "config_dumps safe_dump c = safe_dump (config_yaml c)"

section \<open>The configure body\<close>

definition METHOD_ALLOW :: "pystr list" where
  "METHOD_ALLOW = map u [''GET'', ''HEAD'', ''OPTIONS'']"

definition config_body :: "config \<Rightarrow> (pystr \<times> pystr list) list" where
  "config_body c =
     [(u ''scope.include'', cf_scope_include c), (u ''scope.exclude'', cf_scope_exclude c),
      (u ''dangerous.path'', cf_dangerous_paths c), (u ''render.allow'', cf_render_allow c), (u ''method.allow'', METHOD_ALLOW),
      (u ''limit.rate_rps'', [dump_int (cf_rate_limit_rps c)])]
     @ (case cf_rate_burst c of None \<Rightarrow> [] | Some n \<Rightarrow> [(u ''limit.rate_burst'', [dump_int n])])
     @ [(u ''limit.concurrency'', [dump_int (cf_max_concurrency c)]), (u ''limit.max_requests'', [dump_int (cf_max_requests c)])]"

text \<open>What the identity theory uses of a declaration that is named by a string.\<close>

definition decl_of :: "declared \<Rightarrow> identity_decl option" where
  "decl_of d =
     (case dl_id d of
        YStr name \<Rightarrow> Some \<lparr>id_name = name, id_strategy = dl_strategy d, id_header = dl_header d, id_value_from_env = dl_env d,
          id_has_refresh = (dl_refresh d \<noteq> None), id_liveness = dl_liveness d, id_origins = dl_origins d\<rparr>
      | _ \<Rightarrow> None)"

end
