(* ===== verification/Config_Laws.thy ===== *)
theory Config_Laws
  imports Config
begin

text \<open>
  What a configuration that was read holds, whatever the document: \<open>config_ok\<close>. Reading accepts nothing else, and
  what is written of such a configuration reads back as itself; so \<open>config_ok\<close> is exactly what \<open>load_text\<close> can return.
\<close>

section \<open>What a configuration holds\<close>

definition no_blank :: "pystr list \<Rightarrow> bool" where
  "no_blank vs \<longleftrightarrow> (\<forall>x \<in> set vs. strip x \<noteq> [])"

definition liveness_ok :: "liveness \<Rightarrow> bool" where
  "liveness_ok lv \<longleftrightarrow>
     strip (lv_expect_body lv) \<noteq> [] \<and> startswith [47] (lv_path lv) \<and> lv_every_n_probes lv \<ge> 1
     \<and> (\<forall>x. lv_expect_absent lv = Some x \<longrightarrow> strip x \<noteq> [])"

text \<open>A static identity names the variable that holds its credential and nothing to run; a programmatic one a command
  that no shell will see. Every origin names a host that a request can have.\<close>

definition declared_ok :: "declared \<Rightarrow> bool" where
  "declared_ok d \<longleftrightarrow>
     dl_header d \<in> set CREDENTIAL_HEADERS
     \<and> (\<forall>x. dl_env d = Some x \<longrightarrow> strip x \<noteq> [])
     \<and> (dl_strategy d = u ''static'' \<and> dl_env d \<noteq> None \<and> dl_refresh d = None
        \<or> dl_strategy d = u ''programmatic''
          \<and> (\<exists>r. dl_refresh d = Some r \<and> rf_command r \<noteq> [] \<and> rf_value_from r = u ''stdout''))
     \<and> liveness_ok (dl_liveness d)
     \<and> (\<forall>x \<in> set (dl_origins d). strip x = x \<and> host_matchable (origin_host x))"

definition config_ok :: "config \<Rightarrow> bool" where
  "config_ok c \<longleftrightarrow>
     strip (cf_name c) \<noteq> [] \<and> strip (cf_client c) \<noteq> [] \<and> cf_safety_profile c \<in> set VALID_PROFILES
     \<and> cf_scope_include c \<noteq> []
     \<and> (\<forall>vs \<in> {cf_scope_include c, cf_scope_exclude c, cf_render_allow c, cf_dangerous_paths c, cf_preserve_segments c}. no_blank vs)
     \<and> map fst (cf_checks c) = map fst DEFAULT_CHECKS
     \<and> (\<forall>n \<in> {cf_rate_limit_rps c, cf_max_requests c, cf_max_concurrency c, cf_slug_threshold c}. 1 \<le> n)
     \<and> (\<forall>n. cf_rate_burst c = Some n \<longrightarrow> 1 \<le> n)
     \<and> (\<forall>(n, d) \<in> set (cf_identities c). dl_id d = n \<and> declared_ok d)
     \<and> (\<forall>s. cf_scan_identity c = Some s \<longrightarrow> YStr s \<in> fst ` set (cf_identities c))"

section \<open>Reading gives nothing else\<close>

named_theorems read_facts \<open>what a reader's answer holds\<close>

lemma origin_host_strip [simp]: "origin_host (strip s) = origin_host s"
  by (simp add: origin_host_def)

lemma string_list_ok [read_facts]: "string_list raw key d = Inr vs \<Longrightarrow> no_blank d \<Longrightarrow> no_blank vs"
  by (auto simp: string_list_def no_blank_def check_entries_def rbind_Inr_iff split: yaml.splits if_splits)

lemma positive_int_ok [read_facts]: "positive_int raw key d = Inr n \<Longrightarrow> 1 \<le> d \<Longrightarrow> 1 \<le> n"
  by (auto simp: positive_int_def split: yaml.splits if_splits)

lemma given_text_ok [read_facts]: "given_text v = Inr (Some x) \<Longrightarrow> strip x \<noteq> []"
  by (auto simp: given_text_def split: yaml.splits if_splits)

lemma one_of_ok [read_facts]: "one_of vs v = Inr s \<Longrightarrow> s \<in> set vs"
  by (auto simp: one_of_def split: yaml.splits if_splits)

lemma required_text_ok [read_facts]: "required_text raw key = Inr s \<Longrightarrow> strip s \<noteq> []"
  by (auto simp: required_text_def split: yaml.splits if_splits)

lemma read_profile_ok [read_facts]: "read_profile raw = Inr s \<Longrightarrow> s \<in> set VALID_PROFILES"
  by (auto simp: read_profile_def VALID_PROFILES_def dest: one_of_ok split: if_splits)

lemma read_include_ok [read_facts]: "read_include scope = Inr vs \<Longrightarrow> vs \<noteq> [] \<and> no_blank vs"
  by (auto simp: read_include_def rbind_Inr_iff no_blank_def dest!: string_list_ok split: if_splits)

lemma read_burst_ok [read_facts]: "read_burst raw = Inr (Some n) \<Longrightarrow> 1 \<le> n"
  by (auto simp: read_burst_def rbind_Inr_iff dest: positive_int_ok split: if_splits)

lemma read_scan_identity_ok [read_facts]: "read_scan_identity names v = Inr (Some s) \<Longrightarrow> YStr s \<in> set names"
  by (auto simp: read_scan_identity_def split: yaml.splits if_splits)

lemma origin_entry_Inr:
  "origin_entry v = Inr x \<longleftrightarrow> (\<exists>s. v = YStr s \<and> strip s \<noteq> [] \<and> host_matchable (origin_host s) \<and> x = strip s)"
  by (cases v) (auto simp: origin_entry_def)

lemma rmap_origin_entry: "rmap origin_entry vs = Inr os \<Longrightarrow> \<forall>x \<in> set os. strip x = x \<and> host_matchable (origin_host x)"
  by (drule rmap_Inr_all) (fastforce simp: origin_entry_Inr)

lemma read_origins_ok [read_facts]: "read_origins raw = Inr os \<Longrightarrow> \<forall>x \<in> set os. strip x = x \<and> host_matchable (origin_host x)"
  by (auto simp: read_origins_def dest: rmap_origin_entry split: yaml.splits if_splits)

lemma read_liveness_ok [read_facts]: "read_liveness live = Inr lv \<Longrightarrow> liveness_ok lv"
  by (auto simp: read_liveness_def liveness_ok_def rbind_Inr_iff dest: given_text_ok positive_int_ok
      split: yaml.splits if_splits)

lemma read_refresh_ok [read_facts]:
  "read_refresh strategy raw = Inr rf \<Longrightarrow>
     (strategy = u ''static'' \<longrightarrow> rf = None)
     \<and> (strategy = u ''programmatic'' \<longrightarrow> (\<exists>r. rf = Some r \<and> rf_command r \<noteq> [] \<and> rf_value_from r = u ''stdout''))"
  by (auto simp: read_refresh_def rbind_Inr_iff literals dest: rmap_Inr_length split: yaml.splits if_splits)

lemma strategies: "s \<in> set VALID_STRATEGIES \<longleftrightarrow> s = u ''static'' \<or> s = u ''programmatic''"
  by (auto simp: VALID_STRATEGIES_def)

lemma read_identity_ok [read_facts]: "read_identity n v = Inr d \<Longrightarrow> dl_id d = n \<and> declared_ok d"
  by (auto simp: read_identity_def declared_ok_def rbind_Inr_iff strategies dest!: read_facts split: yaml.splits if_splits)

lemma dict_set_fst: "k \<in> fst ` set m \<Longrightarrow> map fst (dict_set k v m) = map fst m"
  by (induction m) force+

lemma read_checks_ok:
  "read_checks kvs m = Inr cs \<Longrightarrow> map fst m = map fst DEFAULT_CHECKS \<Longrightarrow> map fst cs = map fst DEFAULT_CHECKS"
proof (induction kvs m rule: read_checks.induct)
  case (2 key v rest checks)
  then have "key \<in> fst ` set DEFAULT_CHECKS" by (auto split: if_splits)
  moreover have "fst ` set DEFAULT_CHECKS = fst ` set checks" using 2(3) by (metis list.set_map)
  ultimately show ?case using 2 by (auto simp: dict_set_fst split: if_splits)
qed auto

lemma defaults_ok: "no_blank DEFAULT_DANGEROUS_PATHS" "no_blank (map u [''api'', ''v1'', ''v2'', ''v3''])"
  by (simp_all add: no_blank_def DEFAULT_DANGEROUS_PATHS_def literals strip_def rstrip_def lstrip_def is_space_def)

lemma rbind_InrE:
  assumes "rbind m f = Inr y"
  obtains x where "m = Inr x" "f x = Inr y"
  using assms by (cases m) auto

text \<open>The parts a configuration was read from.\<close>

lemma load_value_parts:
  assumes "load_value doc = Inr c"
  obtains raw scope kvs ids where
    "required_text raw ''name'' = Inr (cf_name c)" "required_text raw ''client'' = Inr (cf_client c)"
    "read_profile raw = Inr (cf_safety_profile c)" "read_include scope = Inr (cf_scope_include c)"
    "read_checks kvs DEFAULT_CHECKS = Inr (cf_checks c)"
    "rmap (\<lambda>(n, v). rbind (read_identity n v) (\<lambda>d. Inr (n, d))) ids = Inr (cf_identities c)"
    "read_scan_identity (map fst (cf_identities c)) (yget raw ''scan_identity'') = Inr (cf_scan_identity c)"
    "string_list scope ''exclude'' [] = Inr (cf_scope_exclude c)" "string_list raw ''render_allow'' [] = Inr (cf_render_allow c)"
    "string_list raw ''dangerous_paths'' DEFAULT_DANGEROUS_PATHS = Inr (cf_dangerous_paths c)"
    "positive_int raw ''rate_limit_rps'' 5 = Inr (cf_rate_limit_rps c)" "read_burst raw = Inr (cf_rate_burst c)"
    "positive_int raw ''max_requests'' 2000 = Inr (cf_max_requests c)"
    "positive_int raw ''max_concurrency'' 2 = Inr (cf_max_concurrency c)"
    "string_list raw ''preserve_segments'' (map u [''api'', ''v1'', ''v2'', ''v3'']) = Inr (cf_preserve_segments c)"
    "positive_int raw ''slug_threshold'' 12 = Inr (cf_slug_threshold c)"
proof -
  obtain raw where "(if falsy doc then YMap [] else doc) = YMap raw"
    using assms by (cases "if falsy doc then YMap [] else doc") (simp_all add: load_value_def)
  with assms show thesis unfolding load_value_def
    by (simp only: yaml.case) (elim rbind_InrE, drule Inr_inject, hypsubst, rule that, (assumption | simp only: config.simps)+)
qed

lemma load_value_ok:
  assumes "load_value doc = Inr c"
  shows "config_ok c"
proof -
  from load_value_parts [OF assms] obtain raw scope kvs ids where p:
    "required_text raw ''name'' = Inr (cf_name c)" "required_text raw ''client'' = Inr (cf_client c)"
    "read_profile raw = Inr (cf_safety_profile c)" "read_include scope = Inr (cf_scope_include c)"
    "read_checks kvs DEFAULT_CHECKS = Inr (cf_checks c)"
    "rmap (\<lambda>(n, v). rbind (read_identity n v) (\<lambda>d. Inr (n, d))) ids = Inr (cf_identities c)"
    "read_scan_identity (map fst (cf_identities c)) (yget raw ''scan_identity'') = Inr (cf_scan_identity c)"
    "string_list scope ''exclude'' [] = Inr (cf_scope_exclude c)" "string_list raw ''render_allow'' [] = Inr (cf_render_allow c)"
    "string_list raw ''dangerous_paths'' DEFAULT_DANGEROUS_PATHS = Inr (cf_dangerous_paths c)"
    "positive_int raw ''rate_limit_rps'' 5 = Inr (cf_rate_limit_rps c)" "read_burst raw = Inr (cf_rate_burst c)"
    "positive_int raw ''max_requests'' 2000 = Inr (cf_max_requests c)"
    "positive_int raw ''max_concurrency'' 2 = Inr (cf_max_concurrency c)"
    "string_list raw ''preserve_segments'' (map u [''api'', ''v1'', ''v2'', ''v3'']) = Inr (cf_preserve_segments c)"
    "positive_int raw ''slug_threshold'' 12 = Inr (cf_slug_threshold c)" .
  have names: "\<forall>(n, d) \<in> set (cf_identities c). dl_id d = n \<and> declared_ok d"
    using rmap_Inr_all [OF p(6)] by (fastforce simp: rbind_Inr_iff dest: read_identity_ok)
  have none: "no_blank []" by (simp add: no_blank_def)
  have lists: "no_blank (cf_scope_exclude c)" "no_blank (cf_render_allow c)" "no_blank (cf_dangerous_paths c)" "no_blank (cf_preserve_segments c)"
    by (rule string_list_ok [OF p(8) none] string_list_ok [OF p(9) none] string_list_ok [OF p(10) defaults_ok(1)]
        string_list_ok [OF p(15) defaults_ok(2)])+
  have ints: "1 \<le> cf_rate_limit_rps c" "1 \<le> cf_max_requests c" "1 \<le> cf_max_concurrency c" "1 \<le> cf_slug_threshold c"
    by (rule positive_int_ok [OF p(11)] positive_int_ok [OF p(13)] positive_int_ok [OF p(14)] positive_int_ok [OF p(16)], simp)+
  have scan: "YStr s \<in> fst ` set (cf_identities c)" if "cf_scan_identity c = Some s" for s
    using read_scan_identity_ok p(7) unfolding that by force
  show ?thesis unfolding config_ok_def
    using scan required_text_ok [OF p(1)] required_text_ok [OF p(2)] read_profile_ok [OF p(3)] read_include_ok [OF p(4)]
      read_checks_ok [OF p(5)] names lists ints p(12) by (auto dest: read_burst_ok)
qed

section \<open>What is written reads back\<close>

lemma u_eq [simp]: "u s = u t \<longleftrightarrow> s = t"
proof
  have "inj (of_char :: char \<Rightarrow> nat)" by (rule injI) simp
  then have "inj (map (of_char :: char \<Rightarrow> nat))" by (rule inj_mapI)
  then show "u s = u t \<Longrightarrow> s = t" by (auto simp: u_def dest: injD)
qed simp

lemma yget_simps [simp]:
  "yget [] k = YNull" "yget (yfield j v # raw) k = (if j = k then v else yget raw k)"
  "yhas [] k = False" "yhas (yfield j v # raw) k = (j = k \<or> yhas raw k)"
  by (simp_all add: yget_def yhas_def yfield_def)

lemma yget_given [simp]:
  "yget (when_given j f x @ raw) k = (if j = k \<and> x \<noteq> None then f (the x) else yget raw k)"
  "yget (when_given j f x) k = (if j = k \<and> x \<noteq> None then f (the x) else YNull)"
  "yhas (when_given j f x @ raw) k = (j = k \<and> x \<noteq> None \<or> yhas raw k)"
  "yhas (when_given j f x) k = (j = k \<and> x \<noteq> None)"
  by (auto simp: when_given_def split: option.split)

lemma yget_if [simp]:
  "yget (if q then raw else raw') k = (if q then yget raw k else yget raw' k)"
  "yhas (if q then raw else raw') k = (if q then yhas raw k else yhas raw' k)"
  by simp_all

lemma rmap_y_str [simp]: "rmap y_str (map YStr ss) = Inr ss"
  by (induction ss) (simp_all add: y_str_def)

lemma string_list_ystrs: "yget raw key = ystrs ss \<Longrightarrow> no_blank ss \<Longrightarrow> string_list raw key d = Inr ss"
  by (simp add: string_list_def ystrs_def check_entries_def no_blank_def)

lemma positive_int_written: "yhas raw key \<Longrightarrow> yget raw key = YInt n \<Longrightarrow> 1 \<le> n \<Longrightarrow> positive_int raw key d = Inr n"
  by (simp add: positive_int_def)

lemma strip_not_Nil: "strip s \<noteq> [] \<Longrightarrow> s \<noteq> []"
  by auto

lemma rmap_origin_written:
  "\<forall>x \<in> set os. strip x = x \<and> host_matchable (origin_host x) \<Longrightarrow> rmap origin_entry (map YStr os) = Inr os"
proof (induction os)
  case (Cons x os)
  have "x \<noteq> []"
  proof
    assume "x = []"
    with Cons.prems show False
      by (simp add: origin_host_def host_matchable_def fold_name_def literals)
  qed
  with Cons show ?case by (simp add: origin_entry_def)
qed simp

lemma read_liveness_written:
  assumes "liveness_ok lv"
  shows "read_liveness ([yfield ''path'' (YStr (lv_path lv)), yfield ''expect_body'' (YStr (lv_expect_body lv)),
    yfield ''every_n_probes'' (YInt (lv_every_n_probes lv))] @ when_given ''expect_absent'' YStr (lv_expect_absent lv)) = Inr lv"
proof -
  have "given_text (if lv_expect_absent lv \<noteq> None then YStr (the (lv_expect_absent lv)) else YNull) = Inr (lv_expect_absent lv)"
    using assms by (cases "lv_expect_absent lv") (simp_all add: given_text_def liveness_ok_def)
  with assms show ?thesis
    by (simp add: read_liveness_def liveness_ok_def positive_int_def)
qed

lemma read_identity_written:
  assumes "declared_ok d"
  shows "read_identity (dl_id d) (identity_yaml d) = Inr d"
proof -
  have o: "read_origins raw = Inr (dl_origins d)"
    if "yhas raw ''origins'' = (dl_origins d \<noteq> [])" "dl_origins d \<noteq> [] \<Longrightarrow> yget raw ''origins'' = ystrs (dl_origins d)" for raw
    using that assms rmap_origin_written [of "dl_origins d"]
    by (cases "dl_origins d = []") (simp_all add: read_origins_def ystrs_def declared_ok_def)
  have env: "given_text (if dl_env d \<noteq> None then YStr (the (dl_env d)) else YNull) = Inr (dl_env d)"
    using assms by (cases "dl_env d") (simp_all add: given_text_def declared_ok_def)
  have lv: "liveness_ok (dl_liveness d)" using assms by (simp add: declared_ok_def)
  have h: "dl_header d \<in> set CREDENTIAL_HEADERS" using assms by (simp add: declared_ok_def)
  consider (static) "dl_strategy d = u ''static''" "dl_env d \<noteq> None" "dl_refresh d = None"
    | (programmatic) r where "dl_strategy d = u ''programmatic''" "dl_refresh d = Some r" "rf_command r \<noteq> []" "rf_value_from r = u ''stdout''"
    using assms by (auto simp: declared_ok_def)
  then show ?thesis
  proof cases
    case static
    with h env show ?thesis
      by (simp add: identity_yaml_def read_identity_def one_of_def VALID_STRATEGIES_def y_mapping_def o
          read_liveness_written [OF lv, simplified] read_refresh_def)
  next
    case programmatic
    with h env show ?thesis
      by (simp add: identity_yaml_def read_identity_def one_of_def VALID_STRATEGIES_def y_mapping_def o
          read_liveness_written [OF lv, simplified] read_refresh_def ystrs_def)
  qed
qed

lemma read_checks_written:
  assumes "map fst cs = map fst DEFAULT_CHECKS"
  shows "read_checks (map (\<lambda>(k, v). (YStr k, YBool v)) cs) DEFAULT_CHECKS = Inr cs"
proof -
  obtain p q r s t where cs: "cs = [(u ''passive'', p), (u ''active_safe'', q), (u ''active_timing'', r), (u ''active_mutate'', s), (u ''active_dos'', t)]"
    using assms by (auto simp: DEFAULT_CHECKS_def map_eq_Cons_conv)
  show ?thesis by (simp add: cs DEFAULT_CHECKS_def)
qed

lemma read_identities_written:
  assumes "\<forall>(n, d) \<in> set ids. dl_id d = n \<and> declared_ok d"
  shows "rmap (\<lambda>(n, v). rbind (read_identity n v) (\<lambda>d. Inr (n, d))) (map (\<lambda>(n, d). (n, identity_yaml d)) ids) = Inr ids"
  using assms
proof (induction ids)
  case (Cons x ids)
  then show ?case by (cases x) (auto dest: read_identity_written)
qed simp

lemma read_scan_identity_written:
  "\<forall>s. cf_scan_identity c = Some s \<longrightarrow> YStr s \<in> set names \<Longrightarrow>
    read_scan_identity names (yopt YStr (cf_scan_identity c)) = Inr (cf_scan_identity c)"
  by (cases "cf_scan_identity c") (simp_all add: read_scan_identity_def yopt_def)

lemma load_value_written:
  assumes "config_ok c"
  shows "load_value (config_yaml c) = Inr c"
proof -
  note ok = assms [unfolded config_ok_def]
  define raw where "raw = (case config_yaml c of YMap kvs \<Rightarrow> kvs | _ \<Rightarrow> [])"
  have doc: "config_yaml c = YMap raw" "raw \<noteq> []" by (simp_all add: raw_def config_yaml_def)
  define scope where "scope = [yfield ''include'' (ystrs (cf_scope_include c)), yfield ''exclude'' (ystrs (cf_scope_exclude c))]"
  have f: "yget raw ''name'' = YStr (cf_name c)" "yget raw ''client'' = YStr (cf_client c)"
      "yget raw ''safety_profile'' = YStr (cf_safety_profile c)" "yhas raw ''safety_profile''"
      "yget raw ''scope'' = YMap scope" "yget raw ''render_allow'' = ystrs (cf_render_allow c)"
      "yget raw ''dangerous_paths'' = ystrs (cf_dangerous_paths c)"
      "yget raw ''checks'' = YMap (map (\<lambda>(k, v). (YStr k, YBool v)) (cf_checks c))"
      "yget raw ''identities'' = YMap (map (\<lambda>(n, d). (n, identity_yaml d)) (cf_identities c))"
      "yget raw ''scan_identity'' = yopt YStr (cf_scan_identity c)" "yget raw ''rate_burst'' = yopt YInt (cf_rate_burst c)"
      "yget raw ''preserve_segments'' = ystrs (cf_preserve_segments c)" "yhas raw ''rate_burst''"
    and n: "positive_int raw ''rate_limit_rps'' 5 = Inr (cf_rate_limit_rps c)"
      "positive_int raw ''max_requests'' 2000 = Inr (cf_max_requests c)"
      "positive_int raw ''max_concurrency'' 2 = Inr (cf_max_concurrency c)"
      "positive_int raw ''slug_threshold'' 12 = Inr (cf_slug_threshold c)"
    using ok by (simp_all add: raw_def config_yaml_def scope_def positive_int_def)
  have burst: "read_burst raw = Inr (cf_rate_burst c)"
    using f(11,13) ok by (cases "cf_rate_burst c") (simp_all add: read_burst_def yopt_def positive_int_def)
  have si: "read_scan_identity (map fst (cf_identities c)) (yget raw ''scan_identity'') = Inr (cf_scan_identity c)"
    unfolding f(10) using ok by (intro read_scan_identity_written) simp
  have inc: "read_include scope = Inr (cf_scope_include c)"
    using ok string_list_ystrs [of scope "''include''" "cf_scope_include c" "[]"] by (simp add: read_include_def scope_def)
  have lists: "string_list scope ''exclude'' [] = Inr (cf_scope_exclude c)" "string_list raw ''render_allow'' [] = Inr (cf_render_allow c)"
      "string_list raw ''dangerous_paths'' DEFAULT_DANGEROUS_PATHS = Inr (cf_dangerous_paths c)"
      "string_list raw ''preserve_segments'' (map u [''api'', ''v1'', ''v2'', ''v3'']) = Inr (cf_preserve_segments c)"
    using ok f by (auto intro!: string_list_ystrs simp: scope_def)
  have p: "read_profile raw = Inr (cf_safety_profile c)"
    using ok f by (simp add: read_profile_def one_of_def)
  have req: "required_text raw ''name'' = Inr (cf_name c)" "required_text raw ''client'' = Inr (cf_client c)"
    using ok f by (simp_all add: required_text_def)
  have m: "y_mapping raw ''scope'' = Inr scope" "y_mapping raw ''checks'' = Inr (map (\<lambda>(k, v). (YStr k, YBool v)) (cf_checks c))"
      "y_mapping raw ''identities'' = Inr (map (\<lambda>(n, d). (n, identity_yaml d)) (cf_identities c))"
    using f by (simp_all add: y_mapping_def)
  have "read_checks (map (\<lambda>(k, v). (YStr k, YBool v)) (cf_checks c)) DEFAULT_CHECKS = Inr (cf_checks c)"
    using ok by (intro read_checks_written) simp
  moreover have "rmap (\<lambda>(n, v). rbind (read_identity n v) (\<lambda>d. Inr (n, d))) (map (\<lambda>(n, d). (n, identity_yaml d)) (cf_identities c))
      = Inr (cf_identities c)"
    using ok by (intro read_identities_written) simp
  moreover have "\<not> falsy (YMap raw)" using doc by (simp add: falsy_def)
  ultimately show ?thesis
    unfolding doc(1) load_value_def using req p m inc si lists n burst
    by (simp del: u_eq list.map)
qed


section \<open>The configure body\<close>

definition writable_text :: "pystr \<Rightarrow> bool" where
  "writable_text v \<longleftrightarrow> 9 \<notin> set v \<and> 10 \<notin> set v \<and> utf8_encode v \<noteq> None"

lemma utf8_ascii: "\<forall>c \<in> set s. c < 128 \<Longrightarrow> utf8_encode s \<noteq> None"
  by (induction s) (auto simp: utf8_char_def split: option.splits)

lemma config_values_total: "utf8_encode key \<noteq> None \<Longrightarrow> \<forall>v \<in> set vs. writable_text v \<Longrightarrow> \<exists>bs. config_values key vs = Inr bs"
  by (induction vs) (auto simp: writable_text_def)

lemma build_config_body_total:
  "\<forall>(k, vs) \<in> set pairs. k \<in> set CONFIG_KEYS \<and> (\<forall>v \<in> set vs. writable_text v) \<Longrightarrow> \<exists>bs. build_config_body pairs = Inr bs"
proof (induction pairs)
  case (Cons p pairs)
  obtain k vs where p: "p = (k, vs)" by (cases p)
  have "utf8_encode k \<noteq> None"
    using Cons.prems p by (intro utf8_ascii) (auto simp: CONFIG_KEYS_def literals)
  with Cons p config_values_total [of k vs] show ?case by auto
qed simp

lemma dump_int_writable: "writable_text (dump_int n)"
  using dump_int_chars [of _ n] utf8_ascii [of "dump_int n"] by (fastforce simp: writable_text_def)

lemma strip_Nil_iff: "strip s = [] \<longleftrightarrow> (\<forall>c \<in> set s. is_space c)"
proof -
  have "set (dropWhile is_space s) = {} \<or> (\<exists>c \<in> set (dropWhile is_space s). \<not> is_space c)"
    by (metis hd_dropWhile hd_in_set list.set(1))
  then have "(\<forall>c \<in> set (dropWhile is_space s). is_space c) \<longleftrightarrow> (\<forall>c \<in> set s. is_space c)"
    using dropWhile_eq_Nil_conv [of is_space s] by (auto dest: set_dropWhileD)
  then show ?thesis by (simp add: strip_def rstrip_def lstrip_def)
qed

lemma dump_int_not_blank: "strip (dump_int n) \<noteq> []"
  using dump_int_head [of n] by (auto simp: strip_Nil_iff is_space_def is_digit_def)

lemma methods_not_blank: "v \<in> set METHOD_ALLOW \<Longrightarrow> strip v \<noteq> []"
  by (auto simp: METHOD_ALLOW_def strip_Nil_iff literals is_space_def)

lemma methods_writable: "v \<in> set METHOD_ALLOW \<Longrightarrow> writable_text v"
  by (auto simp: METHOD_ALLOW_def writable_text_def literals utf8_char_def)

text \<open>The authorisation a session sends is the engagement file's: whatever document was read, if its patterns can be
  written on a line then the \<open>configure\<close> body is built, and the reader on the other side gets from it
  the file's own patterns and limits, leaving out only empty lists; the methods it allows are \<open>GET\<close>, \<open>HEAD\<close> and
  \<open>OPTIONS\<close>, whatever the file says, and no pattern of it is blank.\<close>

theorem configure_says_the_file:
  assumes "load_value doc = Inr c"
    and "\<forall>v \<in> set (cf_scope_include c @ cf_scope_exclude c @ cf_dangerous_paths c @ cf_render_allow c). writable_text v"
  shows "\<exists>bs pairs. build_config_body (config_body c) = Inr bs \<and> parse_config_body bs = Inr pairs
    \<and> pairs = filter (\<lambda>(k, vs). vs \<noteq> []) (config_body c)
    \<and> map_of pairs (u ''scope.include'') = Some (cf_scope_include c)
    \<and> map_of pairs (u ''method.allow'') = Some (map u [''GET'', ''HEAD'', ''OPTIONS''])
    \<and> (\<forall>(k, vs) \<in> set pairs. \<forall>v \<in> set vs. strip v \<noteq> [])"
proof -
  have ok: "config_ok c" by (rule load_value_ok [OF assms(1)])
  have keys: "\<forall>(k, vs) \<in> set (config_body c). k \<in> set CONFIG_KEYS \<and> (\<forall>v \<in> set vs. writable_text v)"
    using assms(2) by (auto simp: config_body_def CONFIG_KEYS_def dump_int_writable methods_writable split: option.splits)
  have dist: "distinct (map fst (config_body c))"
    by (simp add: config_body_def split: option.split)
  obtain bs where bs: "build_config_body (config_body c) = Inr bs" using build_config_body_total [OF keys] by blast
  have blank: "\<forall>(k, vs) \<in> set (config_body c). \<forall>v \<in> set vs. strip v \<noteq> []"
    using ok dump_int_not_blank methods_not_blank by (auto simp: config_body_def config_ok_def no_blank_def split: option.splits)
  let ?pairs = "filter (\<lambda>(k, vs). vs \<noteq> []) (config_body c)"
  have found: "map_of ?pairs k = Some vs" if "(k, vs) \<in> set (config_body c)" "vs \<noteq> []" for k vs
    using that by (intro map_of_is_SomeI distinct_map_filter dist) auto
  have "map_of ?pairs (u ''scope.include'') = Some (cf_scope_include c)"
    using ok by (intro found) (simp_all add: config_body_def config_ok_def)
  moreover have "map_of ?pairs (u ''method.allow'') = Some METHOD_ALLOW"
    by (rule found) (simp_all add: config_body_def METHOD_ALLOW_def)
  moreover have "\<forall>(k, vs) \<in> set ?pairs. \<forall>v \<in> set vs. strip v \<noteq> []" using blank by auto
  ultimately show ?thesis using bs config_roundtrip [OF bs dist] by (auto simp: METHOD_ALLOW_def)
qed

text \<open>The smallest file.\<close>

definition small_config :: config where
  "small_config =
     \<lparr>cf_name = u ''n'', cf_client = u ''c'', cf_safety_profile = u ''production'', cf_scope_include = [u ''x''], cf_scope_exclude = [],
      cf_render_allow = [], cf_dangerous_paths = [], cf_checks = DEFAULT_CHECKS, cf_rate_limit_rps = 5, cf_rate_burst = None,
      cf_max_requests = 10, cf_max_concurrency = 2, cf_identities = [], cf_scan_identity = None, cf_preserve_segments = [],
      cf_slug_threshold = 12\<rparr>"

lemma small_config_ok: "config_ok small_config"
  by (simp add: small_config_def config_ok_def no_blank_def VALID_PROFILES_def strip_Nil_iff is_space_def literals)

end
