(* ===== verification/Tool_Run.thy ===== *)
theory Tool_Run
  imports Config
begin

text \<open>
  The tools that open and close runs, \<open>src/hx/tools/impl/run.py\<close>, and the live session a run holds,
  \<open>src/hx/tools/live.py\<close>. A handler is a function of its arguments and the context of a call. What the operating
  system answers when a Burp is launched, asked for, or torn down is an argument.
\<close>

section \<open>The context\<close>

text \<open>\<open>stack\<close>: whether the process can hold a session over calls. A session is open when \<open>tx_session\<close> holds; \<open>lc_burp\<close>
  is whether a Burp it launched is still up.\<close>

record live_ctx =
  lc_config :: config
  lc_stack :: bool
  lc_burp :: bool
  lc_owner :: "pystr option"
  lc_registered :: "(pystr \<times> int) list"

type_synonym run_ctx = "live_ctx tool_ctx"

type_synonym 'a handler = "run_ctx \<Rightarrow> (tool_exc + 'a) \<times> run_ctx"

definition with_live :: "(live_ctx \<Rightarrow> live_ctx) \<Rightarrow> run_ctx \<Rightarrow> run_ctx" where
  "with_live f ctx = ctx\<lparr>tx_world := f (tx_world ctx)\<rparr>"

definition conf :: "run_ctx \<Rightarrow> config" where
  "conf ctx = lc_config (tx_world ctx)"

definition refuse :: "string \<Rightarrow> pystr \<Rightarrow> 'a handler" where
  "refuse reason detail ctx = (Inl (ToolError Refused (u reason) (Some detail)), ctx)"

definition not_available :: "string \<Rightarrow> pystr \<Rightarrow> 'a handler" where
  "not_available reason detail ctx = (Inl (ToolError Unavailable (u reason) (Some detail)), ctx)"

text \<open>What the store raises leaves a handler as it is; its name stands for its text.\<close>

definition exc_name :: "store_exc \<Rightarrow> pystr" where
  "exc_name e = (case e of ValueError \<Rightarrow> u ''ValueError'' | TypeError \<Rightarrow> u ''TypeError'' | IntegrityError \<Rightarrow> u ''IntegrityError'')"

definition db_call :: "(store, store_exc, 'a) prog \<Rightarrow> 'a handler" where
  "db_call m ctx =
     (case m (tx_store ctx) of
        (Inl e, s) \<Rightarrow> (Inl (OtherError (exc_name e)), ctx\<lparr>tx_store := s\<rparr>)
      | (Inr x, s) \<Rightarrow> (Inr x, ctx\<lparr>tx_store := s\<rparr>))"

definition the_open_runs :: "(pystr \<times> pystr) list handler" where
  "the_open_runs ctx = (case ctx_open_runs ctx of (rows, ctx') \<Rightarrow> (Inr rows, ctx'))"

definition the_run_id :: "pystr option handler" where
  "the_run_id ctx = (case ctx_run_id ctx of (rid, ctx') \<Rightarrow> (Inr rid, ctx'))"

definition jopt :: "('a \<Rightarrow> json) \<Rightarrow> 'a option \<Rightarrow> json" where
  "jopt f x = (case x of None \<Rightarrow> JNull | Some y \<Rightarrow> f y)"

definition jfield :: "string \<Rightarrow> json \<Rightarrow> pystr \<times> json" where
  "jfield k v = (u k, v)"

section \<open>The live session\<close>

definition EGRESS_KINDS :: "pystr list" where
  "EGRESS_KINDS = map u [''manual'', ''scan'', ''crawl'']"

text \<open>\<open>gone()\<close>: nothing, why the session is dead, or what the question raised.\<close>

datatype gone_answer = Alive | Gone pystr | GoneRaised pystr

text \<open>How a launch went: it raised, or a session came up with its ports, epoch, its first liveness, and what tearing it
  down again raised, if it did.\<close>

datatype launch_answer = LaunchRaised pystr | Launched int int int gone_answer "pystr option"

definition not_live :: "string \<Rightarrow> pystr \<Rightarrow> json" where
  "not_live reason detail = JObj [jfield ''live'' (JBool False), jfield ''reason'' (JStr (u reason)), jfield ''detail'' (JStr detail)]"

definition held :: "gone_answer \<Rightarrow> run_ctx \<Rightarrow> json" where
  "held gone ctx =
     (let owner = (case lc_owner (tx_world ctx) of None \<Rightarrow> u ''None'' | Some r \<Rightarrow> r);
          dead = (case gone of Alive \<Rightarrow> None | Gone why \<Rightarrow> Some why
                  | GoneRaised t \<Rightarrow> Some (u ''its liveness could not be read ('' @ t @ u '').''))
      in JObj
        [jfield ''live'' (JBool False), jfield ''reason'' (JStr (u ''session_held'')), jfield ''owner_alive'' (JBool (dead = None)),
         jfield ''detail'' (JStr (case dead of
           None \<Rightarrow> u ''run '' @ owner @ u '' holds this engagement's Burp; one session at a time. Finish that run first -- a scan and a manual pass are different runs and should not share an instrument.''
         | Some why \<Rightarrow> u ''run '' @ owner @ u '' holds this engagement's Burp and it is no longer live: '' @ why
             @ u '' Waiting will not free it -- run.finish on '' @ owner @ u '' tears the dead session down, and only the run that opened a session may close it.''))])"

definition open_for :: "launch_answer \<Rightarrow> gone_answer \<Rightarrow> pystr \<Rightarrow> pystr \<Rightarrow> run_ctx \<Rightarrow> json \<times> run_ctx" where
  "open_for launch held_gone rid kind ctx =
     (if kind \<notin> set EGRESS_KINDS then
        (not_live ''not_needed'' (u ''a '' @ kind @ u '' run issues no traffic from this side, so it needs no session''), ctx)
      else if \<not> lc_stack (tx_world ctx) then
        (not_live ''no_host'' (u ''this adapter is one process per call and cannot hold a Burp open across calls: `hx.session.session()` tears it down on every exit. Run the tool layer under `hx mcp`, which is one long-lived process, or use the 11 tools that need no session.''), ctx)
      else if tx_session ctx then (held held_gone ctx, ctx)
      else case launch of
        LaunchRaised t \<Rightarrow> (not_live ''launch_failed'' t, ctx)
      | Launched oport cport epoch gone teardown \<Rightarrow>
          (case (case gone of Alive \<Rightarrow> None | Gone why \<Rightarrow> Some why | GoneRaised t \<Rightarrow> Some (u ''its liveness could not be read: '' @ t)) of
             Some dead \<Rightarrow>
               (not_live ''launch_failed''
                  (dead @ (case teardown of None \<Rightarrow> [] | Some t \<Rightarrow> u ''; and tearing it down failed too: '' @ t)),
                with_live (\<lambda>l. l\<lparr>lc_burp := lc_burp l \<or> teardown \<noteq> None\<rparr>) ctx)
           | None \<Rightarrow>
               (JObj [jfield ''live'' (JBool True), jfield ''operator_port'' (JInt oport), jfield ''crawler_port'' (JInt cport),
                      jfield ''epoch'' (JInt epoch)],
                with_live (\<lambda>l. l\<lparr>lc_burp := True, lc_owner := Some rid, lc_registered := []\<rparr>) (ctx\<lparr>tx_session := True\<rparr>))))"

text \<open>\<open>close_for\<close>: only the run that opened the session closes it, and its traces go even when the teardown raises.\<close>

definition close_for :: "pystr option \<Rightarrow> pystr \<Rightarrow> bool handler" where
  "close_for teardown rid ctx =
     (if \<not> tx_session ctx \<or> lc_owner (tx_world ctx) \<noteq> Some rid then (Inr False, ctx)
      else
        let ctx' = with_live (\<lambda>l. l\<lparr>lc_burp := teardown \<noteq> None, lc_owner := None, lc_registered := []\<rparr>) (ctx\<lparr>tx_session := False\<rparr>)
        in case teardown of None \<Rightarrow> (Inr True, ctx') | Some t \<Rightarrow> (Inl (OtherError t), ctx'))"

section \<open>Opening and closing a run\<close>

definition AGENT_STATUSES :: "pystr list" where
  "AGENT_STATUSES = map u [''completed'', ''aborted'', ''error'']"

record run_env =
  re_id :: pystr
  re_now :: int
  re_launch :: launch_answer
  re_held :: gone_answer
  re_teardown :: "pystr option"

definition open_of_kind :: "run_ctx \<Rightarrow> pystr \<Rightarrow> run_row option" where
  "open_of_kind ctx kind =
     find (\<lambda>r. run_engagement r = tx_engagement ctx \<and> run_kind r = kind \<and> running r) (st_runs (tx_store ctx))"

definition run_start :: "run_env \<Rightarrow> pystr \<Rightarrow> json handler" where
  "run_start env kind ctx =
     (case open_of_kind ctx kind of
        Some r \<Rightarrow> refuse ''run_open'' (u ''a '' @ kind @ u '' run is already open: '' @ run_id r @ u ''; run.finish closes it'') ctx
      | None \<Rightarrow>
          sbind (db_call (open_run (re_id env) (tx_engagement ctx) kind (cf_safety_profile (conf ctx)) (re_now env))) (\<lambda>rid ctx'.
            case open_for (re_launch env) (re_held env) rid kind (ctx'\<lparr>tx_bound_run := Some rid\<rparr>) of
              (session, ctx'') \<Rightarrow>
                (Inr (JObj [jfield ''id'' (JStr rid), jfield ''kind'' (JStr kind),
                    jfield ''safety_profile'' (JStr (cf_safety_profile (conf ctx))), jfield ''session'' session]), ctx'')) ctx)"

text \<open>Which run \<open>run.finish\<close> closes: the first open one of the kind, or the one bound to the context.\<close>

definition run_to_finish :: "pystr option \<Rightarrow> pystr handler" where
  "run_to_finish kind =
     (case kind of
        Some k \<Rightarrow> sbind the_open_runs (\<lambda>rows.
          case filter (\<lambda>(rid, j). j = k) rows of
            [] \<Rightarrow> not_available ''no_run'' (u ''no '' @ k @ u '' run is open on this context; run.start opens one'')
          | (rid, _) # _ \<Rightarrow> sret rid)
      | None \<Rightarrow> sbind the_run_id (\<lambda>rid.
          case rid of
            Some r \<Rightarrow> sret r
          | None \<Rightarrow> sbind the_open_runs (\<lambda>rows.
              if length rows > 1 then
                refuse ''bad_args'' (dec_nat (length rows) @ u '' runs are open ('' @ join (u '', '') (sort (map snd rows))
                  @ u ''); run.finish needs kind to say which one'')
              else not_available ''no_run'' (u ''no run is open on this context; run.start opens one''))))"

definition run_finish :: "run_env \<Rightarrow> pystr \<Rightarrow> pystr option \<Rightarrow> pystr option \<Rightarrow> json handler" where
  "run_finish env status note' kind =
     sbind (run_to_finish kind) (\<lambda>closed.
     sbind (db_call (close_run closed (re_now env) status note')) (\<lambda>_.
     sbind (close_for (re_teardown env) closed) (\<lambda>session_closed.
     sbind the_run_id (\<lambda>rid ctx.
       (Inr (JObj [jfield ''id'' (JStr closed), jfield ''status'' (JStr status), jfield ''session_closed'' (JBool session_closed)]),
        if rid = Some closed then ctx\<lparr>tx_bound_run := None\<rparr> else ctx)))))"

section \<open>Reading back\<close>

definition JOURNAL_DEFAULT :: int where
  "JOURNAL_DEFAULT = 20"

definition RECENT_LIMIT :: nat where
  "RECENT_LIMIT = 20"

definition OPERATOR_FIELD_LIMIT :: nat where
  "OPERATOR_FIELD_LIMIT = 100"

text \<open>\<open>ORDER BY ts_us DESC, rowid DESC\<close>.\<close>

definition newest_first :: "('r \<Rightarrow> int) \<Rightarrow> 'r list \<Rightarrow> 'r list" where
  "newest_first at rows = rev (sort_key at rows)"

definition my_actions :: "run_ctx \<Rightarrow> action_row list" where
  "my_actions ctx = filter (\<lambda>a. ac_engagement a = tx_engagement ctx \<and> ac_actor a = tx_actor ctx) (tx_actions ctx)"

definition action_json :: "action_row \<Rightarrow> json" where
  "action_json a =
     JObj [jfield ''ts_us'' (JInt (ac_ts_us a)), jfield ''tool'' (JStr (ac_tool a)), jfield ''why'' (jopt JStr (ac_why a)),
           jfield ''result'' (JStr (ac_summary a))]"

text \<open>A page's constructor raises \<open>ValueError\<close> for a limit it does not accept.\<close>

definition paged :: "store_exc + json \<Rightarrow> json handler" where
  "paged r ctx = (case r of Inl e \<Rightarrow> (Inl (OtherError (exc_name e)), ctx) | Inr j \<Rightarrow> (Inr j, ctx))"

definition run_journal :: "int option \<Rightarrow> int option \<Rightarrow> pystr option \<Rightarrow> json handler" where
  "run_journal since last_n tool ctx =
     (let limit = (case last_n of None \<Rightarrow> JOURNAL_DEFAULT | Some n \<Rightarrow> n);
          rows = filter (\<lambda>a. (case since of None \<Rightarrow> True | Some t \<Rightarrow> ac_ts_us a \<ge> t)
                   \<and> (case tool of None \<Rightarrow> True | Some t \<Rightarrow> ac_tool a = t)) (my_actions ctx)
      in paged (page (map action_json (take (nat (limit + 1)) (newest_first ac_ts_us rows))) (int (length rows)) limit None []) ctx)"

text \<open>\<open>SELECT key, COUNT(*) GROUP BY key\<close> as a dict, in the order the keys first come.\<close>

definition count_by :: "('r \<Rightarrow> pystr) \<Rightarrow> 'r list \<Rightarrow> (pystr \<times> nat) list" where
  "count_by key rows = map (\<lambda>k. (k, length (filter (\<lambda>r. key r = k) rows))) (remdups (map key rows))"

definition counts_json :: "(pystr \<times> nat) list \<Rightarrow> json" where
  "counts_json kvs = JObj (map (\<lambda>(k, n). (k, JInt (int n))) kvs)"

definition untested_surface :: "store \<Rightarrow> surface_row \<Rightarrow> bool" where
  "untested_surface s sf \<longleftrightarrow> (\<forall>c \<in> set (st_check_runs s). cr_surface c \<noteq> Some (sf_id sf))"

definition run_json :: "run_row \<Rightarrow> json" where
  "run_json r =
     JObj [jfield ''id'' (JStr (run_id r)), jfield ''kind'' (JStr (run_kind r)), jfield ''status'' (JStr (run_status r)),
           jfield ''started_us'' (JInt (run_started_us r)), jfield ''requests_issued'' (JInt (run_requests_issued r))]"

definition run_resume :: "json handler" where
  "run_resume =
     sbind the_open_runs (\<lambda>rows.
     sbind the_run_id (\<lambda>rid ctx.
       let s = tx_store ctx; eid = tx_engagement ctx; h = tx_halt ctx;
           mine = filter (\<lambda>sf. sf_engagement sf = eid) (st_surfaces s)
       in (Inr (JObj
         [jfield ''engagement'' (JObj [jfield ''id'' (JStr eid),
            jfield ''name'' (JStr (take OPERATOR_FIELD_LIMIT (cf_name (conf ctx)))),
            jfield ''client'' (JStr (take OPERATOR_FIELD_LIMIT (cf_client (conf ctx)))),
            jfield ''safety_profile'' (JStr (cf_safety_profile (conf ctx)))]),
          jfield ''halt'' (JObj [jfield ''armed'' (JBool (halted (fst h) (snd h))),
            jfield ''reason'' (jopt (\<lambda>t. JStr (take OPERATOR_FIELD_LIMIT t)) (halt_reason (fst h) (snd h)))]),
          jfield ''run'' (case rid of None \<Rightarrow> JNull
            | Some r \<Rightarrow> jopt run_json (find (\<lambda>row. run_id row = r) (st_runs s))),
          jfield ''open_runs'' (JArr (map (\<lambda>(r, k). JObj [jfield ''id'' (JStr r), jfield ''kind'' (JStr k)]) rows)),
          jfield ''surfaces'' (JObj [jfield ''total'' (JInt (int (length mine))),
            jfield ''untested'' (JInt (int (length (filter (untested_surface s) mine))))]),
          jfield ''findings'' (counts_json (count_by fi_severity (filter (\<lambda>f. fi_engagement f = eid) (st_findings s)))),
          jfield ''recent'' (JArr (map action_json (take RECENT_LIMIT (newest_first ac_ts_us (my_actions ctx)))))]), ctx)))"

end
