(* ===== verification/Tool_Finding.thy ===== *)
theory Tool_Finding
  imports Tool_Run Active Frontier
begin

text \<open>
  The tools that record and read findings, surfaces and checks, and those that scan and crawl:
  \<open>src/hx/tools/impl/finding.py\<close>, \<open>surface.py\<close>, \<open>checks.py\<close>, \<open>scan.py\<close>. Fresh ids, the clock and \<open>repr\<close> are arguments.
\<close>

section \<open>Recording a finding\<close>

definition AGENT_TYPE :: pystr where
  "AGENT_TYPE = u ''agent''"

definition MAX_EXCHANGE_IDS :: nat where
  "MAX_EXCHANGE_IDS = 200"

definition EVIDENCE_ROLES :: "pystr list" where
  "EVIDENCE_ROLES = map u [''proof'', ''baseline'', ''context'']"

record record_args =
  ra_title :: pystr
  ra_issue_type_id :: pystr
  ra_severity :: pystr
  ra_confidence :: pystr
  ra_surface_id :: pystr
  ra_exchange_ids :: "pystr list"
  ra_description :: "pystr option"
  ra_impact :: "pystr option"
  ra_remediation :: "pystr option"
  ra_cwe :: "pystr option"
  ra_payload :: "pystr option"
  ra_scope_level :: pystr
  ra_insertion_kind :: "pystr option"
  ra_insertion_name :: "pystr option"

record finding_env =
  fe_id :: pystr
  fe_evidence_ids :: "nat \<Rightarrow> pystr"
  fe_now :: int
  fe_repr :: "pystr \<Rightarrow> pystr"

definition evidence_pairs :: "finding_env \<Rightarrow> pystr list \<Rightarrow> (pystr \<times> pystr) list" where
  "evidence_pairs env xs = zip (map (fe_evidence_ids env) [0..<length xs]) xs"

text \<open>The run a finding belongs to, or the refusal that says which run is missing.\<close>

definition run_of_finding :: "pystr handler" where
  "run_of_finding =
     sbind the_run_id (\<lambda>rid.
       case rid of
         Some r \<Rightarrow> sret r
       | None \<Rightarrow> sbind the_open_runs (\<lambda>rows.
           if length rows > 1 then
             refuse ''bad_args'' (dec_nat (length rows) @ u '' runs are open ('' @ join (u '', '') (sort (map snd rows))
               @ u ''); a finding cannot be attributed to one without run.finish closing the rest first'')
           else not_available ''no_run'' (u ''a finding belongs to a run; run.start opens one'')))"

definition given_str :: "pystr option \<Rightarrow> bool" where
  "given_str x \<longleftrightarrow> x \<noteq> None \<and> x \<noteq> Some []"

definition lift_exc :: "store_exc + 'a \<Rightarrow> 'a handler" where
  "lift_exc r ctx = (case r of Inl e \<Rightarrow> (Inl (OtherError (exc_name e)), ctx) | Inr x \<Rightarrow> (Inr x, ctx))"

definition insertion_of :: "record_args \<Rightarrow> insertion_point option handler" where
  "insertion_of a =
     (if \<not> given_str (ra_insertion_kind a) \<and> \<not> given_str (ra_insertion_name a) then sret None
      else if \<not> (given_str (ra_insertion_kind a) \<and> given_str (ra_insertion_name a))
      then refuse ''bad_args'' (u ''an insertion point needs both a kind and a name'')
      else lift_exc (rbind (mk_insertion (the (ra_insertion_kind a)) (the (ra_insertion_name a))) (\<lambda>i. Inr (Some i))))"

definition candidate_of :: "record_args \<Rightarrow> insertion_point option \<Rightarrow> candidate" where
  "candidate_of a insertion =
     \<lparr>ca_issue_type_id = ra_issue_type_id a, ca_title = ra_title a, ca_description = ra_description a, ca_impact = ra_impact a,
      ca_remediation = ra_remediation a, ca_cwe = ra_cwe a, ca_severity = ra_severity a, ca_confidence = ra_confidence a,
      ca_scope_level = ra_scope_level a, ca_payload = ra_payload a, ca_insertion = insertion\<rparr>"

definition agent_key :: "surface_row \<Rightarrow> candidate \<Rightarrow> store_exc + pystr" where
  "agent_key surface ca =
     dedupe_key \<lparr>ka_type = AGENT_TYPE, ka_issue_type_id = ca_issue_type_id ca, ka_scheme = sf_scheme surface,
       ka_host = sf_host surface, ka_port = Some (sf_port surface), ka_method = sf_method surface,
       ka_path_template = sf_path_template surface, ka_insertion_kind = map_option ins_kind (ca_insertion ca),
       ka_insertion_name = map_option ins_name (ca_insertion ca)\<rparr> (ca_scope_level ca)"

text \<open>The one transaction of \<open>record\<close>.\<close>

definition agent_rows :: "finding_env \<Rightarrow> pystr \<Rightarrow> pystr \<Rightarrow> pystr \<Rightarrow> surface_row \<Rightarrow> found \<Rightarrow> (store, store_exc, pystr) prog" where
  "agent_rows env engagement key rid surface f =
     (let ca = fo_candidate f in
      transaction
        (sbind (upsert_finding (fe_id env) engagement ca key rid (Some (sf_id surface)) (Some (sf_host surface)) None AGENT_TYPE) (\<lambda>fid.
         sbind (record_observation \<lparr>ob_finding = fid, ob_run = rid, ob_observed = True,
             ob_exchange = Some (hd (fo_exchanges f)), ob_severity = Some (ca_severity ca),
             ob_confidence = Some (ca_confidence ca), ob_ts_us = fe_now env\<rparr>) (\<lambda>_.
         sbind (record_evidence fid (evidence_pairs env (fo_exchanges f)) (fe_now env) (u ''proof'') None) (\<lambda>_. sret fid)))))"

definition find_surface :: "run_ctx \<Rightarrow> pystr \<Rightarrow> surface_row option" where
  "find_surface ctx sid =
     find (\<lambda>sf. sf_id sf = sid \<and> sf_engagement sf = tx_engagement ctx) (st_surfaces (tx_store ctx))"

definition missing_exchanges :: "run_ctx \<Rightarrow> pystr list \<Rightarrow> pystr list" where
  "missing_exchanges ctx xs = filter (\<lambda>x. x \<notin> set (exchange_ids (tx_store ctx))) xs"

definition repr_list :: "(pystr \<Rightarrow> pystr) \<Rightarrow> pystr list \<Rightarrow> pystr" where
  "repr_list repr xs = [91] @ join (u '', '') (map repr xs) @ [93]"

definition finding_record :: "finding_env \<Rightarrow> record_args \<Rightarrow> json handler" where
  "finding_record env a =
     sbind run_of_finding (\<lambda>rid ctx.
       if ra_exchange_ids a = [] then
         refuse ''bad_args'' (u ''a finding must cite the exchanges that show it. Record the traffic first, then record what it demonstrates.'') ctx
       else case find_surface ctx (ra_surface_id a) of
         None \<Rightarrow> refuse ''bad_args'' (u ''no surface '' @ fe_repr env (ra_surface_id a) @ u '' in this engagement'') ctx
       | Some surface \<Rightarrow>
           if missing_exchanges ctx (ra_exchange_ids a) \<noteq> [] then
             refuse ''bad_args'' (u ''no such exchanges: '' @ repr_list (fe_repr env) (sort (missing_exchanges ctx (ra_exchange_ids a)))) ctx
           else
             sbind (insertion_of a) (\<lambda>insertion.
             sbind (lift_exc (mk_candidate (candidate_of a insertion) (ra_exchange_ids a))) (\<lambda>f.
             sbind (lift_exc (agent_key surface (fo_candidate f))) (\<lambda>key.
             sbind (db_call (agent_rows env (tx_engagement ctx) key rid surface f)) (\<lambda>fid.
               sret (JObj [jfield ''id'' (JStr fid), jfield ''dedupe_key'' (JStr key)]))))) ctx)"

definition evidence_attach :: "finding_env \<Rightarrow> pystr \<Rightarrow> pystr \<Rightarrow> pystr \<Rightarrow> pystr option \<Rightarrow> json handler" where
  "evidence_attach env finding exchange role note' ctx =
     (if role \<notin> set EVIDENCE_ROLES then
        refuse ''bad_args'' (u ''role must be one of '' @ repr_list (fe_repr env) EVIDENCE_ROLES) ctx
      else if \<not> (\<exists>f \<in> set (st_findings (tx_store ctx)). fi_id f = finding \<and> fi_engagement f = tx_engagement ctx)
      then refuse ''bad_args'' (u ''no finding '' @ fe_repr env finding) ctx
      else if exchange \<notin> set (exchange_ids (tx_store ctx)) then refuse ''bad_args'' (u ''no exchange '' @ fe_repr env exchange) ctx
      else
        sbind (db_call (record_evidence finding (evidence_pairs env [exchange]) (fe_now env) role note')) (\<lambda>_.
          sret (JObj [jfield ''id'' (JStr finding), jfield ''exchange_id'' (JStr exchange), jfield ''role'' (JStr role)])) ctx)"

section \<open>Paged queries\<close>

definition DEFAULT_LIMIT :: int where
  "DEFAULT_LIMIT = 50"

text \<open>\<open>LIMIT limit + 1 OFFSET offset\<close> of the rows in their order, as a page whose cursor names the next offset.\<close>

definition query_page :: "('r \<Rightarrow> json) \<Rightarrow> 'r list \<Rightarrow> int option \<Rightarrow> pystr option \<Rightarrow> (pystr \<times> json) list \<Rightarrow> json handler" where
  "query_page render rows limit0 cursor facets ctx =
     (let limit = (case limit0 of None \<Rightarrow> DEFAULT_LIMIT | Some n \<Rightarrow> n) in
      case parse_offset cursor of
        Inl e \<Rightarrow> (Inl e, ctx)
      | Inr offset \<Rightarrow>
          paged (page (map render (take (nat (limit + 1)) (drop (nat offset) rows))) (int (length rows)) limit
            (Some (\<lambda>_. CURSOR_PREFIX @ dump_int (offset + limit))) facets) ctx)"

definition same :: "pystr option \<Rightarrow> pystr option \<Rightarrow> bool" where
  "same want have' \<longleftrightarrow> (case want of None \<Rightarrow> True | Some w \<Rightarrow> have' = Some w)"

definition severity_rank :: "pystr \<Rightarrow> nat" where
  "severity_rank s = (case map_of (zip (map u [''Critical'', ''High'', ''Medium'', ''Low'']) [0..<4]) s of None \<Rightarrow> 4 | Some n \<Rightarrow> n)"

definition finding_json :: "finding_row \<Rightarrow> json" where
  "finding_json f =
     JObj [jfield ''id'' (JStr (fi_id f)), jfield ''title'' (JStr (fi_title f)), jfield ''issue_type_id'' (JStr (fi_issue_type f)),
           jfield ''severity'' (JStr (fi_severity f)), jfield ''confidence'' (JStr (fi_confidence f)),
           jfield ''status'' (JStr (fi_status f)), jfield ''created_by'' (JStr (fi_created_by f)),
           jfield ''host'' (jopt JStr (fi_host f)), jfield ''surface_id'' (jopt JStr (fi_surface f)),
           jfield ''check_id'' (jopt JStr (fi_check f)), jfield ''cwe'' (jopt JStr (fi_cwe f))]"

definition finding_matches :: "run_ctx \<Rightarrow> pystr option \<Rightarrow> pystr option \<Rightarrow> pystr option \<Rightarrow> pystr option \<Rightarrow> pystr option
    \<Rightarrow> finding_row \<Rightarrow> bool" where
  "finding_matches ctx severity status host sid created_by f \<longleftrightarrow>
     fi_engagement f = tx_engagement ctx \<and> same severity (Some (fi_severity f)) \<and> same status (Some (fi_status f))
     \<and> same host (fi_host f) \<and> same sid (fi_surface f) \<and> same created_by (Some (fi_created_by f))"

definition finding_query :: "pystr option \<Rightarrow> pystr option \<Rightarrow> pystr option \<Rightarrow> pystr option \<Rightarrow> pystr option \<Rightarrow> int option
    \<Rightarrow> pystr option \<Rightarrow> json handler" where
  "finding_query severity status host sid created_by limit cursor ctx =
     (let rows = filter (finding_matches ctx severity status host sid created_by) (st_findings (tx_store ctx)) in
      query_page finding_json (sort_key (\<lambda>f. severity_rank (fi_severity f)) (sort_key fi_id rows)) limit cursor
        [jfield ''severity'' (counts_json (count_by fi_severity rows))] ctx)"

section \<open>Surfaces and checks\<close>

definition surface_json :: "surface_row \<Rightarrow> (pystr \<times> json) list" where
  "surface_json r =
     [jfield ''id'' (JStr (sf_id r)), jfield ''method'' (JStr (sf_method r)), jfield ''scheme'' (JStr (sf_scheme r)),
      jfield ''host'' (JStr (sf_host r)), jfield ''port'' (JInt (sf_port r)), jfield ''path_template'' (JStr (sf_path_template r)),
      jfield ''query_keys'' (JStr (sf_query_key_set r)), jfield ''kind'' (JStr (sf_kind r)),
      jfield ''discovered_by'' (JStr (sf_discovered_by r))]"

definition surface_order :: "surface_row list \<Rightarrow> surface_row list" where
  "surface_order rows =
     sort_key (\<lambda>r. if sf_kind r = u ''state_changing'' then 0 else (1::nat))
       (sort_key sf_host (sort_key sf_path_template (sort_key sf_method (sort_key sf_id rows))))"

definition surface_query :: "pystr option \<Rightarrow> pystr option \<Rightarrow> pystr option \<Rightarrow> pystr option \<Rightarrow> bool \<Rightarrow> int option
    \<Rightarrow> pystr option \<Rightarrow> json handler" where
  "surface_query host meth kind discovered_by untested limit cursor ctx =
     (let s = tx_store ctx;
          rows = filter (\<lambda>r. sf_engagement r = tx_engagement ctx \<and> same host (Some (sf_host r)) \<and> same meth (Some (sf_method r))
                   \<and> same kind (Some (sf_kind r)) \<and> same discovered_by (Some (sf_discovered_by r))
                   \<and> (untested \<longrightarrow> untested_surface s r)) (st_surfaces s)
      in query_page (\<lambda>r. JObj (surface_json r @ [jfield ''first_seen_run'' (JStr (sf_first_seen_run r)),
             jfield ''last_seen_run'' (JStr (sf_last_seen_run r))])) (surface_order rows) limit cursor
        [jfield ''host'' (counts_json (count_by sf_host rows)), jfield ''kind'' (counts_json (count_by sf_kind rows))] ctx)"

definition check_run_json :: "check_run_row \<Rightarrow> json" where
  "check_run_json c =
     JObj [jfield ''check_id'' (JStr (cr_check c)), jfield ''verdict'' (JStr (cr_verdict c)),
           jfield ''reason'' (jopt JStr (cr_reason c)), jfield ''requests_sent'' (JInt (cr_requests_sent c))]"

definition surface_detail :: "pystr \<Rightarrow> json handler" where
  "surface_detail sid ctx =
     (let s = tx_store ctx in
      (Inr (case find_surface ctx sid of
         None \<Rightarrow> JNull
       | Some r \<Rightarrow> JObj (surface_json r @
          [jfield ''normaliser_version'' (JInt (sf_normaliser_version r)), jfield ''first_seen_run'' (JStr (sf_first_seen_run r)),
           jfield ''last_seen_run'' (JStr (sf_last_seen_run r)), jfield ''exemplar_exchange_id'' (JStr (sf_exemplar r)),
           jfield ''exchanges'' (JInt (int (length (filter (\<lambda>x. ex_surface x = Some sid) (st_exchanges s))))),
           jfield ''checks'' (JArr (map check_run_json
             (newest_first cr_started_us (filter (\<lambda>c. cr_surface c = Some sid) (st_check_runs s)))))])), ctx))"

text \<open>The corpus of checks is the shipped registry's declarations.\<close>

definition check_json :: "(pystr \<times> bool) list \<Rightarrow> check_decl \<Rightarrow> json" where
  "check_json checks c =
     JObj [jfield ''id'' (JStr (cd_id c)), jfield ''version'' (JStr (cd_version c)), jfield ''class'' (JStr (cd_class c)),
           jfield ''enabled'' (JBool (map_of checks (cd_class c) = Some True)), jfield ''needs_egress'' (JBool (needs_a_bridge c)),
           jfield ''insertion_kinds'' (JArr (map JStr (sort (cd_insertion_kinds c))))]"

definition checks_list :: "check_decl list \<Rightarrow> pystr option \<Rightarrow> json handler" where
  "checks_list corpus wanted ctx =
     (let rows = sort_key cd_class (sort_key cd_id (filter (\<lambda>c. same wanted (Some (cd_class c))) corpus)) in
      paged (page (map (check_json (cf_checks (conf ctx))) rows) (int (length rows)) MAX_LIMIT None []) ctx)"

section \<open>Scanning and crawling\<close>

definition MAX_SECONDS :: int where
  "MAX_SECONDS = 1800"

definition open_run_of_kind :: "string \<Rightarrow> pystr \<Rightarrow> unit handler" where
  "open_run_of_kind kind detail =
     sbind the_open_runs (\<lambda>rows. if u kind \<in> snd ` set rows then sret () else refuse ''wrong_run_kind'' detail)"

text \<open>\<open>checks\<close> names checks of the corpus; the unknown ones are refused by name.\<close>

definition chosen_checks :: "(pystr \<Rightarrow> pystr) \<Rightarrow> scan_check list \<Rightarrow> pystr list option \<Rightarrow> scan_check list handler" where
  "chosen_checks repr corpus checks =
     (case checks of
        None \<Rightarrow> sret corpus
      | Some names \<Rightarrow>
          let known = map (\<lambda>c. (cd_id (ck_decl c), c)) corpus;
              unknown = sort (remdups (filter (\<lambda>n. map_of known n = None) names))
          in if unknown \<noteq> [] then
               refuse ''bad_args'' (u ''unknown check ids '' @ repr_list repr unknown
                 @ u ''. `checks.list` names every check in the corpus, including the disabled ones.'')
             else sret (List.map_filter (map_of known) names))"

text \<open>The environment of the scan: the engagement's from the context, what the world answers from \<open>env\<close>.\<close>

definition scan_env_of :: "scan_env \<Rightarrow> run_ctx \<Rightarrow> pystr list option \<Rightarrow> int \<Rightarrow> scan_env" where
  "scan_env_of env ctx wanted secs =
     env\<lparr>en_engagement := tx_engagement ctx, en_profile := cf_safety_profile (conf ctx), en_config_checks := cf_checks (conf ctx),
         en_identities := List.map_filter (\<lambda>(n, d). map_option (\<lambda>i. (id_name i, i)) (decl_of d)) (cf_identities (conf ctx)),
         en_scan_identity := cf_scan_identity (conf ctx), en_identity := None, en_has_bridge := True,
         en_selected := (\<lambda>sf. case wanted of None \<Rightarrow> True | Some ids \<Rightarrow> sf_id sf \<in> set ids),
         en_max_seconds := Some (min secs MAX_SECONDS)\<rparr>"

definition scan_result :: "scan_state \<Rightarrow> json" where
  "scan_result ss =
     JObj [jfield ''surfaces'' (JInt (int (ss_surfaces ss))), jfield ''checks_run'' (JInt (int (ss_checks_run ss))),
           jfield ''skipped'' (JInt (int (ss_skipped ss))), jfield ''findings'' (JInt (int (ss_findings ss))),
           jfield ''executed'' (JInt (int (ss_checks_run ss) - int (ss_skipped ss)))]"

definition scan_failed :: "scan_exc \<Rightarrow> tool_exc" where
  "scan_failed e =
     (case e of
        Dead why \<Rightarrow> ToolError Unavailable (u ''identity_dead'') (Some why)
      | Escaped (ProbeRefused cls detail) \<Rightarrow> OtherError (u ''ProbeRefused: '' @ exc_text cls detail)
      | Escaped (Raised name msg) \<Rightarrow> OtherError (name @ u '': '' @ msg)
      | Escaped (Interrupted name msg) \<Rightarrow> OtherError (name @ u '': '' @ msg))"

definition WRONG_SCAN_RUN :: pystr where
  "WRONG_SCAN_RUN = u ''scan.run belongs inside a scan run, and none is open. `run.start` with kind='scan' first -- a scan run is what `check_run` rows are attributed to, and one this layer did not open is one nothing will close.''"

definition scan_run :: "scan_env \<Rightarrow> (nat \<Rightarrow> send_answer) \<Rightarrow> scan_check list \<Rightarrow> pystr list option \<Rightarrow> pystr list option \<Rightarrow> int
    \<Rightarrow> json handler" where
  "scan_run env answer corpus wanted checks secs =
     sbind (open_run_of_kind ''scan'' WRONG_SCAN_RUN) (\<lambda>_.
     sbind (chosen_checks (en_repr env) corpus checks) (\<lambda>chosen ctx.
       case scan (scan_env_of env ctx wanted secs) chosen (start_state (tx_store ctx) answer) of
         (Inl e, ss) \<Rightarrow> (Inl (scan_failed e), ctx\<lparr>tx_store := ss_store ss\<rparr>)
       | (Inr _, ss) \<Rightarrow> (Inr (scan_result ss), ctx\<lparr>tx_store := ss_store ss\<rparr>)))"

definition NOT_DONE :: "pystr list" where
  "NOT_DONE = map u [''forms are not submitted'', ''nothing is clicked'', ''no interaction-gated route is walked'',
     ''the crawl is unauthenticated'']"

definition as_tool_result :: "crawl_summary \<Rightarrow> json" where
  "as_tool_result s =
     JObj [jfield ''pages'' (JInt (cs_pages s)), jfield ''rendered'' (JInt (cs_rendered s)), jfield ''degraded'' (JInt (cs_degraded s)),
           jfield ''failed'' (JInt (cs_failed s)), jfield ''capped'' (JInt (cs_capped s)), jfield ''load_failed'' (JInt (cs_load_failed s)),
           jfield ''requests'' (JInt (cs_requests s)), jfield ''dropped_hosts'' (JArr (map JStr (cs_dropped_hosts s))),
           jfield ''truncated_by'' (jopt JStr (cs_truncated_by s)), jfield ''not_done'' (JArr (map JStr NOT_DONE))]"

definition DEFAULT_MAX_PAGES :: int where
  "DEFAULT_MAX_PAGES = 200"

definition DEFAULT_MAX_SECONDS :: int where
  "DEFAULT_MAX_SECONDS = 600"

text \<open>\<open>x or default\<close> on a number that may be missing.\<close>

definition int_or :: "int option \<Rightarrow> int \<Rightarrow> int" where
  "int_or x d = (case x of None \<Rightarrow> d | Some n \<Rightarrow> if n = 0 then d else n)"

text \<open>What a page visit raises: the browser could not start, or anything else.\<close>

datatype visit_exc = BrowserUnavailable pystr | VisitRaised pystr

definition NO_CRAWL_IDENTITY :: pystr where
  "NO_CRAWL_IDENTITY = u ''authenticated crawling is not in this build. The crawler runs unauthenticated, so anything behind a login was not reached by it -- browse the application through the proxy instead, which is how S9 covers authenticated applications. Re-run without `identity`.''"

definition WRONG_CRAWL_RUN :: pystr where
  "WRONG_CRAWL_RUN = u ''crawl.run belongs inside a crawl run, and none is open. `run.start` with kind='crawl' first -- a crawl run is what this traffic is attributed to, and one this layer did not open is one nothing will close.''"

definition crawl_failed :: "visit_exc \<Rightarrow> tool_exc" where
  "crawl_failed e =
     (case e of BrowserUnavailable why \<Rightarrow> ToolError Unavailable (u ''not_configured'') (Some why) | VisitRaised t \<Rightarrow> OtherError t)"

text \<open>\<open>browser\<close>: what opening the browser raised, before the first page.\<close>

definition crawl_run :: "(pystr \<Rightarrow> bool) \<Rightarrow> visit_exc option \<Rightarrow> visit_exc visitor \<Rightarrow> (nat \<Rightarrow> int) \<Rightarrow> pystr option \<Rightarrow> pystr option \<Rightarrow> int option
    \<Rightarrow> int option \<Rightarrow> json handler" where
  "crawl_run netloc_ok browser visit clock target identity max_pages' max_seconds' =
     (if given_str identity then not_available ''not_implemented'' NO_CRAWL_IDENTITY
      else sbind (open_run_of_kind ''crawl'' WRONG_CRAWL_RUN) (\<lambda>_ ctx.
        if \<not> given_str target then refuse ''bad_args'' (u ''crawl.run needs a `target` to seed the crawl from.'') ctx
        else case browser of
          Some e \<Rightarrow> (Inl (crawl_failed e), ctx)
        | None \<Rightarrow>
            (case snd (crawl netloc_ok visit clock [the target]
              \<lparr>max_pages = int_or max_pages' DEFAULT_MAX_PAGES, max_seconds = int_or max_seconds' DEFAULT_MAX_SECONDS,
               max_requests = cf_max_requests (conf ctx)\<rparr>) of
              Inl e \<Rightarrow> (Inl (crawl_failed e), ctx)
            | Inr summary \<Rightarrow> (Inr (as_tool_result summary), ctx))))"

end
