(* ===== verification/Tool_Http.thy ===== *)
theory Tool_Http
  imports Tool_Finding
begin

text \<open>
  The tools that send a request and read what was stored, \<open>src/hx/tools/impl/http.py\<close>, and the identities they send
  under (\<open>ensure_identity\<close> of \<open>src/hx/tools/live.py\<close>). What the bridge answers is an argument, and so are
  fresh ids, clocks and the environment's variables.
\<close>

section \<open>Error classes\<close>

definition REASON_FOR_CLASS :: "(pystr \<times> outcome) list" where
  "REASON_FOR_CLASS =
     map (\<lambda>c. (u c, Refused))
       [''scope_denied'', ''method_denied'', ''dangerous_denied'', ''rate_limited'', ''budget_exhausted'', ''halted'',
        ''unmanaged_credential'', ''unknown_identity'', ''identity_origin'', ''bad_frame'', ''unknown_frame'',
        ''protocol_mismatch'', ''engagement_mismatch'', ''bad_config'', ''bad_identity'', ''stale_generation'']
     @ map (\<lambda>c. (u c, Unavailable)) [''identity_dead'', ''not_configured'', ''bridge_lost'', ''transport_error'', ''timeout'']"

text \<open>A class that is not in the table is what \<open>UNKNOWN_CLASS\<close> says, with the class kept in the detail.\<close>

definition classify :: "(pystr \<Rightarrow> pystr) \<Rightarrow> pystr \<Rightarrow> pystr \<Rightarrow> outcome \<times> pystr \<times> pystr" where
  "classify repr reason detail =
     (case map_of REASON_FOR_CLASS reason of
        Some outc \<Rightarrow> (outc, reason, detail)
      | None \<Rightarrow> (Unavailable, u ''transport_error'', rstrip (u ''[unmapped class '' @ repr reason @ u ''] '' @ detail)))"

definition raise_for_class :: "(pystr \<Rightarrow> pystr) \<Rightarrow> pystr \<Rightarrow> pystr \<Rightarrow> tool_exc" where
  "raise_for_class repr reason detail =
     (case classify repr reason detail of (outc, mapped, d) \<Rightarrow> ToolError outc mapped (Some d))"

section \<open>Identities\<close>

text \<open>What registering an identity with the bridge came to.\<close>

datatype register_answer = Registered | RegisterError "pystr option" pystr | RegisterRaised pystr pystr

record http_env =
  he_capture :: "nat \<Rightarrow> capture_env"
  he_send :: "nat \<Rightarrow> send_request \<Rightarrow> bytes \<Rightarrow> send_answer"
  he_register :: "pystr \<times> int \<Rightarrow> register_answer"
  he_environ :: "(pystr \<times> pystr) list"
  he_sha :: "bytes \<Rightarrow> pystr"
  he_netloc_ok :: "pystr \<Rightarrow> bool"
  he_readable :: "pystr \<Rightarrow> bool"
  he_repr :: "pystr \<Rightarrow> pystr"

definition declaration_of :: "run_ctx \<Rightarrow> pystr \<Rightarrow> identity_decl option" where
  "declaration_of ctx name = Option.bind (map_of (cf_identities (conf ctx)) (YStr name)) decl_of"

definition undeclared :: "http_env \<Rightarrow> pystr \<Rightarrow> pystr" where
  "undeclared env name = u ''identity '' @ he_repr env name @ u '' is not declared in this config.''"

text \<open>\<open>ensure_identity\<close> as the tools call it: each way it fails is the answer they give for it. The text of an
  \<open>IdentityError\<close> is left out.\<close>

definition ensure_identity :: "http_env \<Rightarrow> pystr \<Rightarrow> (pystr \<times> int) handler" where
  "ensure_identity env name ctx =
     (case declaration_of ctx name of
        None \<Rightarrow> refuse ''bad_args'' (undeclared env name) ctx
      | Some d \<Rightarrow>
          (case resolve d (he_environ env) of
             None \<Rightarrow> not_available ''identity_unresolved'' (u ''identity '' @ name @ u '' could not be resolved'') ctx
           | Some rs \<Rightarrow>
               let key = (rs_id rs, rs_generation rs) in
               if key \<in> set (lc_registered (tx_world ctx)) then (Inr key, ctx)
               else case he_register env key of
                 Registered \<Rightarrow> (Inr key, with_live (\<lambda>l. l\<lparr>lc_registered := key # lc_registered l\<rparr>) ctx)
               | RegisterError cls msg \<Rightarrow>
                   let c = error_class cls in
                   (Inl (raise_for_class (he_repr env) c (if startswith (c @ u '': '') msg then drop (length c + 2) msg else msg)), ctx)
               | RegisterRaised exc msg \<Rightarrow>
                   if exc = u ''ValueError'' then refuse ''bad_args'' msg ctx else (Inl (OtherError (exc @ u '': '' @ msg)), ctx)))"

section \<open>Sending\<close>

definition header_line_name :: "pystr \<Rightarrow> pystr option" where
  "header_line_name line =
     (case partition1 58 line of (name, sep, _) \<Rightarrow> if sep then Some (fold_name (strip name)) else None)"

definition credential_line :: "pystr \<Rightarrow> bool" where
  "credential_line line \<longleftrightarrow>
     (case header_line_name line of None \<Rightarrow> False | Some n \<Rightarrow> n \<in> lower ` set CREDENTIAL_HEADERS)"

definition refuse_credential_headers :: "pystr list \<Rightarrow> unit handler" where
  "refuse_credential_headers headers =
     (case find credential_line headers of
        None \<Rightarrow> sret ()
      | Some line \<Rightarrow>
          refuse ''bad_args'' (u ''a '' @ strip (fst (partition1 58 line))
            @ u '' header may not be passed to http.send: credentials are declared in config.yaml and injected below this layer. Pass identity=<name> instead. The extension refuses a request carrying one it did not itself inject, so this send could not have completed either way. (The value you sent is not repeated here and was not stored.)''))"

definition capture_cfg_of :: "http_env \<Rightarrow> run_ctx \<Rightarrow> capture_cfg" where
  "capture_cfg_of env ctx =
     \<lparr>cc_engagement = tx_engagement ctx, cc_profile = cf_safety_profile (conf ctx), cc_preserve = cf_preserve_segments (conf ctx),
      cc_slug_threshold = cf_slug_threshold (conf ctx), cc_netloc_ok = he_netloc_ok env, cc_sha = he_sha env\<rparr>"

record outgoing =
  og_scheme :: pystr
  og_host :: pystr
  og_port :: int
  og_method :: pystr
  og_path :: pystr
  og_headers :: "pystr list"
  og_body :: bytes

text \<open>The call of \<open>issue\<close> for the run of the context; with no run its rows name an id that no run has. \<open>k\<close> counts the
  requests of the call.\<close>

definition issue_from :: "http_env \<Rightarrow> nat \<Rightarrow> outgoing \<Rightarrow> (pystr \<times> int) option \<Rightarrow> run_ctx \<Rightarrow> (issue_exc + issue_result) \<times> run_ctx" where
  "issue_from env k og identity ctx0 =
     (case ctx_run_id ctx0 of (rid, ctx) \<Rightarrow>
        (case issue (capture_cfg_of env ctx) (he_capture env k) (he_send env k) (case rid of None \<Rightarrow> [] | Some r \<Rightarrow> r)
            (og_scheme og) (og_host og) (og_port og) (og_method og) (og_path og) (og_headers og) (og_body og) identity
            \<lparr>cp_store = tx_store ctx, cp_blobs = tx_blobs ctx\<rparr> of
           (r, cp) \<Rightarrow> (r, ctx\<lparr>tx_store := cp_store cp, tx_blobs := cp_blobs cp\<rparr>)))"

definition capture_exc_name :: "capture_exc \<Rightarrow> pystr" where
  "capture_exc_name e =
     (case e of StoreExc x \<Rightarrow> exc_name x | BlobExc CorruptBlob \<Rightarrow> u ''CorruptBlob'' | BlobExc blob_exc.OSError \<Rightarrow> u ''OSError'')"

text \<open>How a request that was not issued is answered; a \<open>ValueError\<close> is the caller's.\<close>

definition issue_failed :: "(pystr \<Rightarrow> pystr) \<Rightarrow> issue_exc \<Rightarrow> tool_exc" where
  "issue_failed repr e =
     (case e of
        IssueRefused reason detail \<Rightarrow> raise_for_class repr reason detail
      | IssueFailed (StoreExc ValueError) \<Rightarrow> ToolError Refused (u ''bad_args'') (Some (u ''ValueError''))
      | IssueFailed x \<Rightarrow> OtherError (capture_exc_name x)
      | IssueCrashed exc msg \<Rightarrow>
          if exc = u ''ValueError'' then ToolError Refused (u ''bad_args'') (Some msg) else OtherError (exc @ u '': '' @ msg))"

definition read_blob_of :: "http_env \<Rightarrow> run_ctx \<Rightarrow> pystr \<Rightarrow> nat option \<Rightarrow> blob_exc + bytes" where
  "read_blob_of env ctx digest expected = get_blob (he_sha env) (he_readable env digest) digest expected (tx_blobs ctx)"

definition delta_json :: "difference \<Rightarrow> json" where
  "delta_json d =
     JObj ([jfield ''status_changed'' (JBool (df_status_changed d)), jfield ''len_delta'' (JInt (df_len d)),
            jfield ''new_tokens'' (jopt (\<lambda>ts. JArr (map JStr ts)) (df_new_tokens d))]
       @ (if df_truncated d then [jfield ''new_tokens_truncated'' (JBool True)] else []))"

definition digest_json :: "issue_result \<Rightarrow> difference option \<Rightarrow> json" where
  "digest_json is d =
     JObj [jfield ''exchange_id'' (JStr (is_exchange is)), jfield ''status'' (jopt JInt (is_status is)),
           jfield ''bytes'' (JInt (int (is_bytes is))), jfield ''ms'' (JInt (is_ms is)), jfield ''outcome'' (JStr (is_outcome is)),
           jfield ''content_type'' (jopt JStr (is_content_type is)), jfield ''body_sha256'' (JStr (is_body_sha256 is)),
           jfield ''first_line'' (JStr (is_first_line is)), jfield ''delta_vs_baseline'' (jopt delta_json d)]"

definition issue_digest :: "http_env \<Rightarrow> issue_result \<Rightarrow> json handler" where
  "issue_digest env is ctx =
     (case Option.bind (find (\<lambda>x. ex_id x = is_exchange is) (st_exchanges (tx_store ctx))) ex_surface of
        None \<Rightarrow> (Inr (digest_json is None), ctx)
      | Some sid \<Rightarrow>
          (case baseline_for (read_blob_of env ctx) sid (Some (is_exchange is)) (tx_store ctx) of
             Inl _ \<Rightarrow> (Inl (OtherError (u ''OSError'')), ctx)
           | Inr base \<Rightarrow>
               (Inr (digest_json is (map_option (\<lambda>(st, body). against st body (is_status is) (is_body is)) base)), ctx)))"

definition http_send :: "http_env \<Rightarrow> pystr \<Rightarrow> pystr \<Rightarrow> pystr \<Rightarrow> int \<Rightarrow> pystr \<Rightarrow> pystr list \<Rightarrow> pystr option \<Rightarrow> pystr option
    \<Rightarrow> json handler" where
  "http_send env host meth path port scheme headers body identity =
     sbind (refuse_credential_headers headers) (\<lambda>_.
     sbind (case identity of None \<Rightarrow> sret None | Some name \<Rightarrow> sbind (ensure_identity env name) (\<lambda>k. sret (Some k))) (\<lambda>ident.
       case latin1_encode (case body of None \<Rightarrow> [] | Some t \<Rightarrow> t) of
         None \<Rightarrow> refuse ''bad_args'' (u ''UnicodeEncodeError'')
       | Some raw_body \<Rightarrow> (\<lambda>ctx.
           case issue_from env 0 \<lparr>og_scheme = scheme, og_host = host, og_port = port, og_method = meth, og_path = path,
               og_headers = headers, og_body = raw_body\<rparr> ident ctx of
             (Inl e, ctx') \<Rightarrow> (Inl (issue_failed (he_repr env) e), ctx')
           | (Inr is, ctx') \<Rightarrow> issue_digest env is ctx')))"

section \<open>Reading what is stored\<close>

definition RANGE_MAX :: nat where
  "RANGE_MAX = 64 * 1024"

definition MAX_EXCHANGES :: nat where
  "MAX_EXCHANGES = 50"

definition CONTEXT_DEFAULT :: nat where
  "CONTEXT_DEFAULT = 64"

text \<open>One part of an exchange: absent, unreadable as a corrupt blob, or read. An unreadable file is raised.\<close>

definition stored_part :: "http_env \<Rightarrow> run_ctx \<Rightarrow> string \<Rightarrow> bool \<Rightarrow> pystr option \<Rightarrow> nat option \<Rightarrow> tool_exc + (pystr \<times> bytes) list" where
  "stored_part env ctx name wanted blob expected =
     (case blob of
        None \<Rightarrow> Inr []
      | Some digest \<Rightarrow>
          if \<not> wanted \<or> digest = [] then Inr []
          else case read_blob_of env ctx digest expected of
            Inr data \<Rightarrow> Inr [(u name, data)]
          | Inl CorruptBlob \<Rightarrow> Inr []
          | Inl blob_exc.OSError \<Rightarrow> Inl (OtherError (u ''OSError'')))"

definition blobs_for :: "http_env \<Rightarrow> run_ctx \<Rightarrow> pystr \<Rightarrow> pystr \<Rightarrow> tool_exc + (pystr \<times> bytes) list option" where
  "blobs_for env ctx exchange part =
     (case find (\<lambda>x. ex_id x = exchange) (st_exchanges (tx_store ctx)) of
        None \<Rightarrow> Inr None
      | Some x \<Rightarrow>
          rbind (stored_part env ctx ''request'' (part = u ''request'' \<or> part = u ''both'') (ex_req_blob x) None) (\<lambda>req.
          rbind (stored_part env ctx ''response'' (part = u ''response'' \<or> part = u ''both'') (ex_resp_blob x) (ex_resp_len x)) (\<lambda>resp.
          Inr (if req @ resp = [] then None else Some (req @ resp)))))"

definition byte_lower :: "bytes \<Rightarrow> bytes" where
  "byte_lower s = map (\<lambda>w. if 65 \<le> unat w \<and> unat w \<le> 90 then w + 32 else w) s"

text \<open>The offsets of the matches, left to right and not overlapping; \<open>at\<close> is where the rest begins. The schema refuses an
  empty pattern, on which the loop of the code would not end.\<close>

function find_all :: "bytes \<Rightarrow> nat \<Rightarrow> bytes \<Rightarrow> nat list" where
  "find_all needle at hay =
     (case py_find needle hay of
        None \<Rightarrow> []
      | Some i \<Rightarrow>
          if needle = [] then [at + i]
          else (at + i) # find_all needle (at + i + length needle) (drop (i + length needle) hay))"
  by pat_completeness auto
termination
proof (relation "measure (\<lambda>(needle, at, hay). length hay)")
  fix needle hay :: bytes and at i :: nat
  assume "py_find needle hay = Some i" "needle \<noteq> []"
  then have "i + length needle \<le> length hay" "0 < length needle" by (auto dest: py_find_bound)
  then show "((needle, at + i + length needle, drop (i + length needle) hay), needle, at, hay) \<in> measure (\<lambda>(needle, at, hay). length hay)"
    by (cases needle) auto
qed simp

declare find_all.simps [simp del]

definition match_json :: "pystr \<Rightarrow> nat \<Rightarrow> nat \<Rightarrow> pystr \<times> bytes \<Rightarrow> nat \<Rightarrow> json" where
  "match_json exchange context n part at =
     (let data = snd part; start = at - context; stop = min (length data) (at + n + context);
          slice = (\<lambda>i j. JStr (latin1_decode (take (j - i) (drop i data)))) in
      JObj [jfield ''exchange_id'' (JStr exchange), jfield ''part'' (JStr (fst part)), jfield ''offset'' (JInt (int at)),
            jfield ''before'' (slice start at), jfield ''match'' (slice at (at + n)), jfield ''after'' (slice (at + n) stop)])"

text \<open>One exchange: its matches, or nothing when it could not be read.\<close>

definition grep_one :: "http_env \<Rightarrow> run_ctx \<Rightarrow> bytes \<Rightarrow> bool \<Rightarrow> nat \<Rightarrow> pystr \<Rightarrow> pystr \<Rightarrow> tool_exc + json list option" where
  "grep_one env ctx needle caseless context part exchange =
     rbind (blobs_for env ctx exchange part) (\<lambda>found. Inr (map_option (\<lambda>parts.
       concat (map (\<lambda>p. map (match_json exchange context (length needle) p)
         (find_all needle 0 (if caseless then byte_lower (snd p) else snd p))) parts)) found))"

definition http_grep :: "http_env \<Rightarrow> pystr list \<Rightarrow> pystr \<Rightarrow> pystr \<Rightarrow> nat \<Rightarrow> bool \<Rightarrow> json handler" where
  "http_grep env exchanges pattern part context caseless ctx =
     (case latin1_encode pattern of
        None \<Rightarrow> refuse ''bad_args'' (u ''UnicodeEncodeError'') ctx
      | Some needle0 \<Rightarrow>
          if length exchanges > MAX_EXCHANGES then
            refuse ''bad_args'' (dec_nat (length exchanges) @ u '' exchanges is more than the '' @ dec_nat MAX_EXCHANGES
              @ u '' one grep reads into memory at once. Split the call.'') ctx
          else
            (let needle = (if caseless then byte_lower needle0 else needle0) in
             case rmap (grep_one env ctx needle caseless context part) exchanges of
               Inl e \<Rightarrow> (Inl e, ctx)
             | Inr answers \<Rightarrow>
                 if exchanges \<noteq> [] \<and> (\<forall>r \<in> set answers. r = None) then
                   not_available ''unreadable'' (u ''none of the '' @ dec_nat (length exchanges)
                     @ u '' requested exchange(s) could be read -- surface.detail lists what this engagement actually holds.'') ctx
                 else
                   let rows = concat (List.map_filter id answers);
                       unreadable = map fst (filter (\<lambda>(x, r). r = None) (zip exchanges answers)) in
                   paged (page (take (nat MAX_LIMIT + 1) rows) (int (length rows)) MAX_LIMIT None
                     [jfield ''unreadable'' (JArr (map JStr unreadable)), jfield ''searched'' (JInt (int (length exchanges)))]) ctx))"

definition http_body :: "http_env \<Rightarrow> pystr \<Rightarrow> nat \<Rightarrow> nat \<Rightarrow> pystr \<Rightarrow> json handler" where
  "http_body env exchange start len part ctx =
     (if part = u ''both'' then
        refuse ''bad_args'' (u ''http.body reads one part; 'both' is grep's default, not a range this tool can return'') ctx
      else case blobs_for env ctx exchange part of
        Inl e \<Rightarrow> (Inl e, ctx)
      | Inr None \<Rightarrow>
          not_available ''unreadable'' (u ''no readable '' @ part @ u '' for exchange '' @ he_repr env exchange
            @ u ''. It may not exist, or its body may never have been stored -- surface.detail lists the exchanges this engagement holds.'') ctx
      | Inr (Some parts) \<Rightarrow>
          (let data = snd (hd parts); window = take (min len RANGE_MAX) (drop start data) in
           (Inr (JObj [jfield ''exchange_id'' (JStr exchange), jfield ''part'' (JStr part), jfield ''start'' (JInt (int start)),
              jfield ''length'' (JInt (int (length window))), jfield ''total'' (JInt (int (length data))),
              jfield ''bytes'' (JStr (latin1_decode window))]), ctx)))"

section \<open>Replaying\<close>

definition MAX_IDENTITIES :: nat where
  "MAX_IDENTITIES = 8"

definition until :: "nat list \<Rightarrow> pystr \<Rightarrow> pystr" where
  "until stops s = takeWhile (\<lambda>c. c \<notin> set stops) s"

definition host_and_port :: "pystr \<Rightarrow> pystr \<Rightarrow> pystr \<times> int" where
  "host_and_port scheme authority =
     (case rpartition1 58 authority of
        (before, colon, after) \<Rightarrow>
          if colon \<and> 93 \<notin> set after \<and> after \<noteq> [] \<and> (\<forall>c \<in> set after. is_digit c) then (before, int (digits_val after))
          else (authority, if scheme = u ''https'' then 443 else 80))"

text \<open>\<open>_parts_of\<close>: the scheme, host, port and path of a stored exchange, or why it has none.\<close>

definition parts_of :: "(pystr \<Rightarrow> pystr) \<Rightarrow> pystr \<Rightarrow> bytes \<Rightarrow> pystr + (pystr \<times> pystr \<times> int \<times> pystr)" where
  "parts_of repr url raw =
     (case partition_at (u ''://'') url of
        (scheme, sep, rest) \<Rightarrow>
          if \<not> sep then
            Inl (u ''the stored url '' @ repr url @ u '' has no authority, so there is no host to replay this exchange against.'')
          else
            (let authority = (case rpartition1 64 (until [47, 63, 35] rest) of (_, _, h) \<Rightarrow> h);
                 line = first_line raw; target = split1 32 line in
             if length target < 2 \<or> \<not> startswith [47] (target ! 1) then
               Inl (u ''the stored request line '' @ repr line @ u '' carries no origin-form target, so there is no path to replay.'')
             else case host_and_port scheme authority of (host, port) \<Rightarrow> Inr (scheme, host, port, target ! 1)))"

definition replay_drops :: "run_ctx \<Rightarrow> pystr list" where
  "replay_drops ctx =
     map lower CREDENTIAL_HEADERS @ map (\<lambda>(_, d). lower (strip (dl_header d))) (cf_identities (conf ctx)) @ [u ''content-length'']"

definition replayed_headers :: "run_ctx \<Rightarrow> bytes \<Rightarrow> pystr list" where
  "replayed_headers ctx raw =
     map latin1_decode (filter (\<lambda>line. case partition1 58 line of (name, sep, _) \<Rightarrow>
         sep \<and> lower (strip (latin1_decode name)) \<notin> set (replay_drops ctx))
       (header_lines (fst (split_head_body raw))))"

definition replayed_body :: "bytes \<Rightarrow> bytes" where
  "replayed_body raw = snd (split_head_body raw)"

text \<open>The original: what was asked and what came back, if its body can still be read.\<close>

record original =
  or_outgoing :: outgoing
  or_status :: "int option"
  or_body :: "bytes option"

definition base_body :: "http_env \<Rightarrow> run_ctx \<Rightarrow> exchange_row \<Rightarrow> tool_exc + bytes option" where
  "base_body env ctx x =
     (case ex_resp_blob x of
        None \<Rightarrow> Inr None
      | Some digest \<Rightarrow>
          if digest = [] then Inr None
          else case read_blob_of env ctx digest (ex_resp_len x) of
            Inr resp \<Rightarrow> Inr (Some (snd (split_head_body resp)))
          | Inl CorruptBlob \<Rightarrow> Inr None
          | Inl blob_exc.OSError \<Rightarrow> Inl (OtherError (u ''OSError'')))"

definition original_of :: "http_env \<Rightarrow> pystr \<Rightarrow> original handler" where
  "original_of env exchange ctx =
     (case find (\<lambda>x. ex_id x = exchange \<and> ex_req_blob x \<noteq> None) (st_exchanges (tx_store ctx)) of
        None \<Rightarrow>
          refuse ''bad_args'' (u ''exchange '' @ he_repr env exchange
            @ u '' has no stored request to replay. surface.detail lists the exchanges this engagement holds.'') ctx
      | Some x \<Rightarrow>
          (case read_blob_of env ctx (the (ex_req_blob x)) None of
             Inl CorruptBlob \<Rightarrow>
               not_available ''unreadable'' (u ''the stored request for exchange '' @ he_repr env exchange
                 @ u '' could not be read, so there is nothing to replay'') ctx
           | Inl blob_exc.OSError \<Rightarrow> (Inl (OtherError (u ''OSError'')), ctx)
           | Inr raw \<Rightarrow>
               (case base_body env ctx x of
                  Inl e \<Rightarrow> (Inl e, ctx)
                | Inr base \<Rightarrow>
                    (case parts_of (he_repr env) (ex_url x) raw of
                       Inl why \<Rightarrow> refuse ''bad_args'' why ctx
                     | Inr (scheme, host, port, path) \<Rightarrow>
                         (case request_bytes (ex_method x) path host (replayed_headers ctx raw) (replayed_body raw) of
                            Inl e \<Rightarrow> refuse ''bad_args'' (exc_name e) ctx
                          | Inr _ \<Rightarrow>
                              (Inr \<lparr>or_outgoing = \<lparr>og_scheme = scheme, og_host = host, og_port = port, og_method = ex_method x,
                                 og_path = path, og_headers = replayed_headers ctx raw, og_body = replayed_body raw\<rparr>,
                                 or_status = ex_status x, or_body = base\<rparr>, ctx))))))"

definition not_answered_json :: "(pystr \<Rightarrow> pystr) \<Rightarrow> pystr option \<Rightarrow> pystr \<Rightarrow> pystr \<Rightarrow> json" where
  "not_answered_json repr name cls detail0 =
     (case classify repr cls detail0 of (outc, reason, detail) \<Rightarrow>
        JObj [jfield ''identity'' (jopt JStr name), jfield ''digest'' JNull,
          jfield ''not_answered'' (JObj [jfield ''outcome'' (JStr (outcome_text outc)), jfield ''reason'' (JStr reason),
            jfield ''detail'' (if detail = [] then JNull else JStr detail)]),
          jfield ''diff_vs_original'' JNull, jfield ''differs'' JNull])"

definition answered_json :: "original \<Rightarrow> pystr option \<Rightarrow> issue_result \<Rightarrow> json \<Rightarrow> json" where
  "answered_json orig name is dj =
     JObj [jfield ''identity'' (jopt JStr name), jfield ''digest'' dj, jfield ''not_answered'' JNull,
       jfield ''diff_vs_original'' (jopt (\<lambda>base. delta_json (against (or_status orig) base (is_status is) (is_body is))) (or_body orig)),
       jfield ''differs'' (jopt (\<lambda>base. JBool (or_status orig \<noteq> is_status is \<or> base \<noteq> is_body is)) (or_body orig))]"

text \<open>One request of the replay: a refusal by class is a row of the answer, anything else ends the call.\<close>

definition replay_one :: "http_env \<Rightarrow> original \<Rightarrow> nat \<Rightarrow> pystr option \<times> (pystr \<times> int) option \<Rightarrow> json handler" where
  "replay_one env orig k p ctx =
     (case p of (name, ident) \<Rightarrow>
        (case issue_from env k (or_outgoing orig) ident ctx of
           (Inl (IssueRefused cls detail), ctx') \<Rightarrow> (Inr (not_answered_json (he_repr env) name cls detail), ctx')
         | (Inl (IssueFailed e), ctx') \<Rightarrow> (Inl (OtherError (capture_exc_name e)), ctx')
         | (Inl (IssueCrashed exc msg), ctx') \<Rightarrow> (Inl (OtherError (exc @ u '': '' @ msg)), ctx')
         | (Inr is, ctx') \<Rightarrow> sbind (issue_digest env is) (\<lambda>dj. sret (answered_json orig name is dj)) ctx'))"

fun replay_all :: "http_env \<Rightarrow> original \<Rightarrow> nat \<Rightarrow> (pystr option \<times> (pystr \<times> int) option) list \<Rightarrow> json list handler" where
  "replay_all env orig k [] = sret []"
| "replay_all env orig k (p # plan) =
     sbind (replay_one env orig k p) (\<lambda>row. sbind (replay_all env orig (Suc k) plan) (\<lambda>rows. sret (row # rows)))"

text \<open>All declarations are looked up before the first one is resolved and registered.\<close>

fun resolve_all :: "http_env \<Rightarrow> pystr list \<Rightarrow> (pystr \<times> int) list handler" where
  "resolve_all env [] = sret []"
| "resolve_all env (name # names) =
     sbind (ensure_identity env name) (\<lambda>k. sbind (resolve_all env names) (\<lambda>ks. sret (k # ks)))"

definition declared_all :: "http_env \<Rightarrow> pystr list \<Rightarrow> unit handler" where
  "declared_all env names ctx =
     (case find (\<lambda>n. declaration_of ctx n = None) names of
        None \<Rightarrow> (Inr (), ctx)
      | Some n \<Rightarrow> refuse ''bad_args'' (undeclared env n) ctx)"

definition http_replay_as :: "http_env \<Rightarrow> pystr \<Rightarrow> pystr list \<Rightarrow> bool \<Rightarrow> json handler" where
  "http_replay_as env exchange wanted anonymous =
     sbind (original_of env exchange) (\<lambda>orig.
       if wanted = [] \<and> \<not> anonymous then
         refuse ''bad_args'' (u ''no identities and include_anonymous is false, so there is nothing to replay. Name at least one declared identity, or set include_anonymous to compare against no session at all.'')
       else if length wanted > MAX_IDENTITIES then
         refuse ''bad_args'' (dec_nat (length wanted) @ u '' identities is more than the '' @ dec_nat MAX_IDENTITIES
           @ u '' one replay may put on a client's application. Split the call.'')
       else
         sbind (declared_all env wanted) (\<lambda>_.
         sbind (resolve_all env wanted) (\<lambda>resolved.
         sbind (replay_all env orig 0 (zip (map Some wanted) (map Some resolved) @ (if anonymous then [(None, None)] else []))) (\<lambda>rows.
           paged (page rows (int (length rows)) MAX_LIMIT None
             [jfield ''original'' (JStr exchange), jfield ''original_status'' (jopt JInt (or_status orig)),
              jfield ''original_body_stored'' (JBool (or_body orig \<noteq> None))])))))"

end
