(* ===== verification/Tool_Run_Laws.thy ===== *)
theory Tool_Run_Laws
  imports Tool_Finding Scan_Identity Config_Laws
begin

text \<open>
  What the tools that open and close runs keep, call after call: one open run of a kind, and a live session that belongs
  to an open run. And what \<open>scan.run\<close> does to it, which closes the run it was called in.
\<close>

section \<open>Calls\<close>

text \<open>A call of \<open>run.start\<close> or \<open>run.finish\<close>, each on the fresh memo of open runs that \<open>dispatch\<close> gives it.\<close>

datatype run_call = StartRun run_env pystr | FinishRun run_env pystr "pystr option" "pystr option"

definition fresh_memo :: "run_ctx \<Rightarrow> run_ctx" where
  "fresh_memo ctx = ctx\<lparr>tx_open_runs := None\<rparr>"

definition after_call :: "run_call \<Rightarrow> run_ctx \<Rightarrow> run_ctx" where
  "after_call c ctx =
     (case c of
        StartRun env kind \<Rightarrow> snd (run_start env kind (fresh_memo ctx))
      | FinishRun env status note' kind \<Rightarrow> snd (run_finish env status note' kind (fresh_memo ctx)))"

text \<open>The schema of \<open>run.finish\<close> admits these statuses only.\<close>

definition call_ok :: "run_call \<Rightarrow> bool" where
  "call_ok c = (case c of StartRun _ _ \<Rightarrow> True | FinishRun _ status _ _ \<Rightarrow> status \<in> set AGENT_STATUSES)"

definition mine :: "run_ctx \<Rightarrow> run_row list" where
  "mine ctx = filter (\<lambda>r. run_engagement r = tx_engagement ctx \<and> running r) (st_runs (tx_store ctx))"

definition one_per_kind :: "run_ctx \<Rightarrow> bool" where
  "one_per_kind ctx \<longleftrightarrow> distinct (map run_kind (mine ctx))"

definition session_ok :: "run_ctx \<Rightarrow> bool" where
  "session_ok ctx \<longleftrightarrow>
     (case lc_owner (tx_world ctx) of
        None \<Rightarrow> \<not> tx_session ctx \<and> lc_registered (tx_world ctx) = []
      | Some r \<Rightarrow> tx_session ctx \<and> (\<exists>q \<in> set (mine ctx). run_id q = r \<and> run_kind q \<in> set EGRESS_KINDS))"

section \<open>The effect of a call\<close>

definition new_run :: "run_env \<Rightarrow> pystr \<Rightarrow> run_ctx \<Rightarrow> run_row" where
  "new_run env kind ctx =
     \<lparr>run_id = re_id env, run_engagement = tx_engagement ctx, run_kind = kind, run_profile = cf_safety_profile (conf ctx),
      run_started_us = re_now env, run_ended_us = None, run_status = u ''running'', run_stop_reason = None,
      run_heartbeat_us = Some (re_now env), run_requests_issued = 0, run_dropped_total = 0, run_identity = None,
      run_identity_generation = None, run_identity_state = None\<rparr>"

definition with_run :: "run_env \<Rightarrow> pystr \<Rightarrow> run_ctx \<Rightarrow> run_ctx" where
  "with_run env kind ctx =
     ctx\<lparr>tx_store := (tx_store ctx)\<lparr>st_runs := st_runs (tx_store ctx) @ [new_run env kind ctx]\<rparr>, tx_bound_run := Some (re_id env)\<rparr>"

lemma run_start_effect:
  assumes "run_start env kind ctx = (r, ctx')"
  shows "(ctx' = ctx \<and> isl r) \<or>
    (open_of_kind ctx kind = None \<and> re_id env \<notin> set (run_ids (tx_store ctx))
     \<and> ctx' = snd (open_for (re_launch env) (re_held env) (re_id env) kind (with_run env kind ctx)))"
proof (cases "open_of_kind ctx kind")
  case None
  show ?thesis
  proof (cases "kind \<in> set RUN_KINDS \<and> re_id env \<notin> set (run_ids (tx_store ctx)) \<and> tx_engagement ctx \<in> set (st_engagements (tx_store ctx))
      \<and> cf_safety_profile (conf ctx) \<in> set PROFILES")
    case True
    then have "open_run (re_id env) (tx_engagement ctx) kind (cf_safety_profile (conf ctx)) (re_now env) (tx_store ctx)
        = (Inr (re_id env), (tx_store ctx)\<lparr>st_runs := st_runs (tx_store ctx) @ [new_run env kind ctx]\<rparr>)"
      by (simp add: open_run_def new_run_def)
    with None assms True show ?thesis
      by (simp add: run_start_def db_call_def sbind_def with_run_def split: prod.splits)
  next
    case False
    then have "\<exists>e. open_run (re_id env) (tx_engagement ctx) kind (cf_safety_profile (conf ctx)) (re_now env) (tx_store ctx) = (Inl e, tx_store ctx)"
      by (auto simp: open_run_def)
    with None assms show ?thesis by (auto simp: run_start_def db_call_def sbind_def)
  qed
next
  case (Some q)
  with assms show ?thesis by (auto simp: run_start_def refuse_def)
qed

lemma open_for_effect:
  "snd (open_for launch gone rid kind ctx) = ctx
   \<or> (\<exists>burp. snd (open_for launch gone rid kind ctx) = with_live (\<lambda>l. l\<lparr>lc_burp := burp\<rparr>) ctx)
   \<or> (\<not> tx_session ctx \<and> kind \<in> set EGRESS_KINDS
      \<and> snd (open_for launch gone rid kind ctx)
        = with_live (\<lambda>l. l\<lparr>lc_burp := True, lc_owner := Some rid, lc_registered := []\<rparr>) (ctx\<lparr>tx_session := True\<rparr>))"
  by (auto simp: open_for_def with_live_def split: launch_answer.split gone_answer.split)

text \<open>Choosing the run to close reads, and may fill the memo of open runs.\<close>

lemma run_to_finish_reads:
  "run_to_finish kind ctx = (r, ctx') \<Longrightarrow> \<exists>memo. ctx' = ctx\<lparr>tx_open_runs := memo\<rparr>"
proof -
  have same: "\<exists>memo. ctx = ctx\<lparr>tx_open_runs := memo\<rparr>" by (rule exI [of _ "tx_open_runs ctx"]) simp
  assume "run_to_finish kind ctx = (r, ctx')"
  with same show ?thesis
    by (auto simp: run_to_finish_def the_open_runs_def the_run_id_def ctx_run_id_def ctx_open_runs_def sbind_def refuse_def
        not_available_def Let_def split: option.splits list.splits if_splits prod.splits)
qed

definition closed_out :: "run_env \<Rightarrow> pystr \<Rightarrow> pystr option \<Rightarrow> pystr \<Rightarrow> run_ctx \<Rightarrow> run_ctx \<Rightarrow> bool" where
  "closed_out env status note' closed ctx ctx' \<longleftrightarrow>
     tx_store ctx' = end_run closed (re_now env) status note' (tx_store ctx)
     \<and> (tx_bound_run ctx' = tx_bound_run ctx \<or> tx_bound_run ctx' = None)
     \<and> (if tx_session ctx \<and> lc_owner (tx_world ctx) = Some closed
        then \<not> tx_session ctx' \<and> lc_owner (tx_world ctx') = None \<and> lc_registered (tx_world ctx') = []
        else tx_session ctx' = tx_session ctx \<and> tx_world ctx' = tx_world ctx)"

definition untouched :: "run_ctx \<Rightarrow> run_ctx \<Rightarrow> bool" where
  "untouched ctx ctx' \<longleftrightarrow>
     tx_store ctx' = tx_store ctx \<and> tx_session ctx' = tx_session ctx \<and> tx_world ctx' = tx_world ctx
     \<and> tx_bound_run ctx' = tx_bound_run ctx"

lemma the_run_id_reads: "the_run_id ctx = (r, ctx') \<Longrightarrow> \<exists>rid memo. r = Inr rid \<and> ctx' = ctx\<lparr>tx_open_runs := memo\<rparr>"
proof -
  have same: "\<exists>memo. ctx = ctx\<lparr>tx_open_runs := memo\<rparr>" by (rule exI [of _ "tx_open_runs ctx"]) simp
  assume "the_run_id ctx = (r, ctx')"
  with same show ?thesis
    by (auto simp: the_run_id_def ctx_run_id_def ctx_open_runs_def Let_def split: option.splits prod.splits)
qed

lemma close_for_effect:
  assumes "close_for teardown closed ctx = (r, ctx')"
  shows "tx_store ctx' = tx_store ctx \<and> tx_engagement ctx' = tx_engagement ctx \<and> tx_bound_run ctx' = tx_bound_run ctx
    \<and> (if tx_session ctx \<and> lc_owner (tx_world ctx) = Some closed
       then \<not> tx_session ctx' \<and> lc_owner (tx_world ctx') = None \<and> lc_registered (tx_world ctx') = []
       else tx_session ctx' = tx_session ctx \<and> tx_world ctx' = tx_world ctx)"
  using assms by (auto simp: close_for_def with_live_def Let_def split: if_splits option.splits)

lemma run_finish_effect:
  assumes "run_finish env status note' kind ctx = (r, ctx')"
  shows "tx_engagement ctx' = tx_engagement ctx \<and>
    (untouched ctx ctx' \<or> (\<exists>closed. fst (run_to_finish kind ctx) = Inr closed \<and> closed_out env status note' closed ctx ctx'))"
proof -
  obtain c ctx1 where c: "run_to_finish kind ctx = (c, ctx1)" by (metis prod.exhaust)
  then obtain memo where m: "ctx1 = ctx\<lparr>tx_open_runs := memo\<rparr>" using run_to_finish_reads by blast
  show ?thesis
  proof (cases c)
    case (Inl e)
    with assms c m show ?thesis by (auto simp: run_finish_def untouched_def)
  next
    case (Inr closed)
    show ?thesis
    proof (cases "close_run closed (re_now env) status note' (tx_store ctx)")
      case (Pair cr s)
      show ?thesis
      proof (cases cr)
        case (Inl e)
        with Pair have "s = tx_store ctx" by (auto simp: close_run_def split: if_splits)
        with assms c m Inr Pair Inl show ?thesis by (auto simp: run_finish_def db_call_def sbind_def untouched_def)
      next
        case (Inr _)
        with Pair have s: "s = end_run closed (re_now env) status note' (tx_store ctx)" by (auto simp: close_run_def split: if_splits)
        obtain k ctx2 where k: "close_for (re_teardown env) closed (ctx1\<lparr>tx_store := s\<rparr>) = (k, ctx2)" by (metis prod.exhaust)
        note ck = close_for_effect [OF k]
        have db: "db_call (close_run closed (re_now env) status note') ctx1 = (Inr (), ctx1\<lparr>tx_store := s\<rparr>)"
          using Pair Inr m by (simp add: db_call_def)
        have "tx_engagement ctx' = tx_engagement ctx \<and> closed_out env status note' closed ctx ctx'"
        proof (cases k)
          case (Inl e)
          with assms c db k \<open>c = Inr closed\<close> have "ctx' = ctx2" by (simp add: run_finish_def sbind_def)
          with ck m s show ?thesis by (simp add: closed_out_def split: if_splits)
        next
          case (Inr t)
          obtain q ctx3 where q: "the_run_id ctx2 = (q, ctx3)" by (metis prod.exhaust)
          then obtain rid memo' where q': "q = Inr rid" "ctx3 = ctx2\<lparr>tx_open_runs := memo'\<rparr>" using the_run_id_reads by blast
          have "ctx' = (if rid = Some closed then ctx3\<lparr>tx_bound_run := None\<rparr> else ctx3)"
            using assms c db k q q'(1) Inr \<open>c = Inr closed\<close> by (simp add: run_finish_def sbind_def)
          with ck m s q'(2) show ?thesis by (simp add: closed_out_def split: if_splits)
        qed
        with c \<open>c = Inr closed\<close> show ?thesis by auto
      qed
    qed
  qed
qed

section \<open>One open run of a kind, and a session with an owner\<close>

lemma mine_with_run: "mine (with_run env kind ctx) = mine ctx @ [new_run env kind ctx]"
  by (simp add: mine_def with_run_def new_run_def running_def)

lemma open_of_kind_none: "open_of_kind ctx kind = None \<longleftrightarrow> kind \<notin> run_kind ` set (mine ctx)"
  by (auto simp: open_of_kind_def mine_def find_None_iff)

lemma mine_live [simp]: "mine (with_live f ctx) = mine ctx" "mine (ctx\<lparr>tx_session := v\<rparr>) = mine ctx"
  by (simp_all add: mine_def with_live_def)

lemma mine_open_for [simp]: "mine (snd (open_for launch gone rid kind ctx)) = mine ctx"
  using open_for_effect [of launch gone rid kind ctx] by auto

lemma mine_end_run:
  assumes "status \<noteq> u ''running''" "tx_store ctx' = end_run closed at status why (tx_store ctx)" "tx_engagement ctx' = tx_engagement ctx"
  shows "mine ctx' = filter (\<lambda>r. run_id r \<noteq> closed) (mine ctx)"
proof -
  have "filter (\<lambda>r. run_engagement r = e \<and> running r) (map (\<lambda>r. if run_id r = closed \<and> running r
        then r\<lparr>run_status := status, run_ended_us := Some at, run_stop_reason := why\<rparr> else r) rs)
    = filter (\<lambda>r. run_id r \<noteq> closed) (filter (\<lambda>r. run_engagement r = e \<and> running r) rs)" for e rs
    using assms(1) by (induction rs) (auto simp: running_def)
  then show ?thesis using assms(2,3) by (simp add: mine_def end_run_def update_runs_def)
qed

lemma mine_untouched: "untouched ctx ctx' \<Longrightarrow> tx_engagement ctx' = tx_engagement ctx \<Longrightarrow> mine ctx' = mine ctx"
  by (simp add: mine_def untouched_def)

lemma agent_status_ended: "status \<in> set AGENT_STATUSES \<Longrightarrow> status \<noteq> u ''running''"
  by (auto simp: AGENT_STATUSES_def literals)

lemma one_per_kind_filter: "distinct (map run_kind rs) \<Longrightarrow> distinct (map run_kind (filter P rs))"
  by (induction rs) auto

lemma fresh_memo_same [simp]:
  "mine (fresh_memo ctx) = mine ctx" "tx_session (fresh_memo ctx) = tx_session ctx" "tx_world (fresh_memo ctx) = tx_world ctx"
  "tx_store (fresh_memo ctx) = tx_store ctx" "tx_engagement (fresh_memo ctx) = tx_engagement ctx"
  "tx_bound_run (fresh_memo ctx) = tx_bound_run ctx" "conf (fresh_memo ctx) = conf ctx"
  by (simp_all add: fresh_memo_def mine_def conf_def)

lemma start_keeps:
  assumes "one_per_kind ctx" "session_ok ctx" "run_start env kind ctx = (r, ctx')"
  shows "one_per_kind ctx' \<and> session_ok ctx'"
  using run_start_effect [OF assms(3)]
proof (elim disjE conjE)
  assume "ctx' = ctx"
  with assms show ?thesis by simp
next
  let ?w = "with_run env kind ctx"
  assume new: "open_of_kind ctx kind = None" "re_id env \<notin> set (run_ids (tx_store ctx))"
    and ctx': "ctx' = snd (open_for (re_launch env) (re_held env) (re_id env) kind ?w)"
  have mine': "mine ctx' = mine ctx @ [new_run env kind ctx]" using ctx' by (simp add: mine_with_run)
  have one: "one_per_kind ctx'"
    using assms(1) new(1) by (simp add: one_per_kind_def mine' open_of_kind_none new_run_def)
  have held: "tx_session ?w = tx_session ctx" "tx_world ?w = tx_world ctx" by (simp_all add: with_run_def)
  consider "ctx' = ?w" | burp where "ctx' = with_live (\<lambda>l. l\<lparr>lc_burp := burp\<rparr>) ?w"
    | "\<not> tx_session ?w" "kind \<in> set EGRESS_KINDS"
      "ctx' = with_live (\<lambda>l. l\<lparr>lc_burp := True, lc_owner := Some (re_id env), lc_registered := []\<rparr>) (?w\<lparr>tx_session := True\<rparr>)"
    using open_for_effect [of "re_launch env" "re_held env" "re_id env" kind ?w] ctx' by blast
  then have "session_ok ctx'"
  proof cases
    case 3
    then show ?thesis
      unfolding session_ok_def mine' by (simp add: with_live_def new_run_def)
  qed (use assms(2) held in \<open>unfold session_ok_def mine', auto simp: with_live_def split: option.splits\<close>)
  with one show ?thesis ..
qed

lemma finish_keeps:
  assumes "one_per_kind ctx" "session_ok ctx" "run_finish env status note' kind ctx = (r, ctx')" "status \<in> set AGENT_STATUSES"
  shows "one_per_kind ctx' \<and> session_ok ctx'"
proof -
  have eng: "tx_engagement ctx' = tx_engagement ctx" using run_finish_effect [OF assms(3)] by blast
  consider "untouched ctx ctx'" | closed where "closed_out env status note' closed ctx ctx'"
    using run_finish_effect [OF assms(3)] by blast
  then show ?thesis
  proof cases
    case 1
    then have "mine ctx' = mine ctx" using eng by (rule mine_untouched)
    with 1 assms(1,2) show ?thesis by (simp add: one_per_kind_def session_ok_def untouched_def split: option.splits)
  next
    case 2
    have mine': "mine ctx' = filter (\<lambda>r. run_id r \<noteq> closed) (mine ctx)"
      using 2 eng agent_status_ended [OF assms(4)] by (intro mine_end_run) (auto simp: closed_out_def)
    have "one_per_kind ctx'" using assms(1) by (simp add: one_per_kind_def mine' one_per_kind_filter)
    moreover have "session_ok ctx'"
      using 2 assms(2) unfolding session_ok_def mine' closed_out_def by (auto split: option.splits if_splits)
    ultimately show ?thesis ..
  qed
qed

lemma call_keeps:
  assumes "one_per_kind ctx" "session_ok ctx" "call_ok c"
  shows "one_per_kind (after_call c ctx) \<and> session_ok (after_call c ctx)"
proof -
  have f: "one_per_kind (fresh_memo ctx)" "session_ok (fresh_memo ctx)"
    using assms by (simp_all add: one_per_kind_def session_ok_def split: option.splits)
  show ?thesis
  proof (cases c)
    case (StartRun env kind)
    with start_keeps [OF f prod.collapse [symmetric]] show ?thesis by (simp add: after_call_def)
  next
    case (FinishRun env status note' kind)
    with finish_keeps [OF f prod.collapse [symmetric]] assms(3) show ?thesis by (simp add: after_call_def call_ok_def)
  qed
qed

lemma calls_keep: "one_per_kind ctx \<Longrightarrow> session_ok ctx \<Longrightarrow> list_all call_ok cs \<Longrightarrow>
    one_per_kind (fold after_call cs ctx) \<and> session_ok (fold after_call cs ctx)"
  by (induction cs arbitrary: ctx) (auto simp: call_keeps)

text \<open>C27. From a context in order, whatever calls of \<open>run.start\<close> and \<open>run.finish\<close> follow, and however launching, asking and
  tearing down a Burp goes: at most one run of a kind is open, a session is live exactly when it has an owner, the owner is an open run
  of a kind that sends, and identities are registered only while a session is live.\<close>

theorem session_belongs_to_open_run:
  assumes "one_per_kind ctx" "session_ok ctx" "list_all call_ok cs"
  shows "distinct (map run_kind (mine (fold after_call cs ctx)))
    \<and> (tx_session (fold after_call cs ctx) \<longleftrightarrow> lc_owner (tx_world (fold after_call cs ctx)) \<noteq> None)
    \<and> (\<forall>r. lc_owner (tx_world (fold after_call cs ctx)) = Some r \<longrightarrow>
         (\<exists>q \<in> set (mine (fold after_call cs ctx)). run_id q = r \<and> run_kind q \<in> set EGRESS_KINDS))
    \<and> (lc_registered (tx_world (fold after_call cs ctx)) \<noteq> [] \<longrightarrow> tx_session (fold after_call cs ctx))"
  using calls_keep [OF assms] by (auto simp: one_per_kind_def session_ok_def split: option.splits)

section \<open>What a scan does to the run it is called in\<close>

text \<open>A session nobody may close: its owner is a run that has ended and that the context is not bound to.\<close>

definition stranded :: "pystr \<Rightarrow> run_ctx \<Rightarrow> bool" where
  "stranded r ctx \<longleftrightarrow>
     tx_session ctx \<and> lc_owner (tx_world ctx) = Some r \<and> r \<in> set (run_ids (tx_store ctx))
     \<and> (\<forall>q \<in> set (st_runs (tx_store ctx)). run_id q = r \<longrightarrow> \<not> running q) \<and> tx_bound_run ctx \<noteq> Some r"

lemma open_runs_running: "(rid, k) \<in> set (open_runs e s) \<Longrightarrow> \<exists>q \<in> set (st_runs s). run_id q = rid \<and> run_kind q = k \<and> running q"
  by (auto simp: open_runs_def)

lemma finishes_known:
  assumes "fst (run_to_finish kind ctx) = Inr closed" "tx_open_runs ctx = None"
  shows "tx_bound_run ctx = Some closed \<or> (\<exists>k. (closed, k) \<in> set (open_runs (tx_engagement ctx) (tx_store ctx)))"
proof -
  have hd: "fst (hd rows) = c \<Longrightarrow> length rows = Suc 0 \<Longrightarrow> \<exists>k. (c, k) \<in> set rows" for rows :: "(pystr \<times> pystr) list" and c
    by (cases rows) (auto intro: exI [of _ "snd (hd rows)"])
  have fl: "filter (\<lambda>(rid, j). j = k) rows = (c, j') # xs \<Longrightarrow> \<exists>k. (c, k) \<in> set rows" for rows :: "(pystr \<times> pystr) list" and c k j' xs
    by (metis filter_is_subset list.set_intros(1) subsetD)
  show ?thesis
    using assms hd fl
    by (auto simp: run_to_finish_def the_open_runs_def the_run_id_def ctx_run_id_def ctx_open_runs_def sbind_def refuse_def
        not_available_def Let_def split: option.splits list.splits if_splits prod.splits)
qed

lemma stranded_call:
  assumes "stranded r ctx" "call_ok c"
  shows "stranded r (after_call c ctx)"
proof (cases c)
  case (StartRun env kind)
  let ?w = "with_run env kind (fresh_memo ctx)"
  obtain x ctx' where x: "run_start env kind (fresh_memo ctx) = (x, ctx')" by (metis prod.exhaust)
  have c': "after_call c ctx = ctx'" using StartRun x by (simp add: after_call_def)
  show ?thesis
    using run_start_effect [OF x]
  proof (elim disjE conjE)
    assume "ctx' = fresh_memo ctx"
    with c' assms(1) show ?thesis by (simp add: stranded_def)
  next
    assume new: "re_id env \<notin> set (run_ids (tx_store (fresh_memo ctx)))"
      and ctx': "ctx' = snd (open_for (re_launch env) (re_held env) (re_id env) kind ?w)"
    have "tx_session ?w" using assms(1) by (simp add: with_run_def stranded_def)
    then have "ctx' = ?w \<or> (\<exists>burp. ctx' = with_live (\<lambda>l. l\<lparr>lc_burp := burp\<rparr>) ?w)"
      using open_for_effect [of "re_launch env" "re_held env" "re_id env" kind ?w] ctx' by blast
    moreover have "stranded r ?w"
      using assms(1) new by (auto simp: stranded_def with_run_def new_run_def run_ids_def)
    ultimately show ?thesis unfolding c' by (auto simp: stranded_def with_live_def)
  qed
next
  case (FinishRun env status note' kind)
  obtain x ctx' where x: "run_finish env status note' kind (fresh_memo ctx) = (x, ctx')" by (metis prod.exhaust)
  have c': "after_call c ctx = ctx'" using FinishRun x by (simp add: after_call_def)
  have st: "status \<in> set AGENT_STATUSES" using assms(2) FinishRun by (simp add: call_ok_def)
  consider "untouched (fresh_memo ctx) ctx'"
    | closed where "fst (run_to_finish kind (fresh_memo ctx)) = Inr closed" "closed_out env status note' closed (fresh_memo ctx) ctx'"
    using run_finish_effect [OF x] by blast
  then show ?thesis
  proof cases
    case 1
    with assms(1) show ?thesis unfolding c' by (simp add: stranded_def untouched_def)
  next
    case 2
    have "closed \<noteq> r"
    proof
      assume "closed = r"
      have "tx_open_runs (fresh_memo ctx) = None" by (simp add: fresh_memo_def)
      from finishes_known [OF 2(1) this] assms(1) \<open>closed = r\<close> show False
        by (auto simp: stranded_def dest: open_runs_running)
    qed
    then have same: "tx_session ctx'" "lc_owner (tx_world ctx') = Some r" and s: "tx_store ctx' = end_run closed (re_now env) status note' (tx_store ctx)"
      and bound: "tx_bound_run ctx' \<noteq> Some r"
      using 2(2) assms(1) by (auto simp: closed_out_def stranded_def)
    have "\<not> running q" if "q \<in> set (st_runs (tx_store ctx'))" "run_id q = r" for q
    proof -
      from that obtain q0 where "q0 \<in> set (st_runs (tx_store ctx))" and q: "q = q0 \<or> q = q0\<lparr>run_status := status, run_ended_us := Some (re_now env), run_stop_reason := note'\<rparr>"
        by (auto simp: s end_run_def update_runs_def split: if_splits)
      with assms(1) that(2) agent_status_ended [OF st] show ?thesis by (auto simp: stranded_def running_def)
    qed
    moreover have "r \<in> set (run_ids (tx_store ctx'))"
    proof -
      have "run_ids (tx_store ctx') = run_ids (tx_store ctx)" by (simp add: s end_run_def update_runs_def run_ids_def)
      with assms(1) show ?thesis by (simp add: stranded_def)
    qed
    ultimately show ?thesis unfolding c' using same bound by (auto simp: stranded_def)
  qed
qed

definition ended :: "pystr \<Rightarrow> store \<Rightarrow> bool" where
  "ended r s \<longleftrightarrow> r \<in> set (run_ids s) \<and> (\<forall>q \<in> set (st_runs s). run_id q = r \<longrightarrow> \<not> running q)"

lemma run_ids_standing: "run_ids s = map fst (standing s)"
  by (simp add: run_ids_def standing_def)

lemma ended_standing: "ended r s \<longleftrightarrow> r \<in> fst ` set (standing s) \<and> (r, u ''running'') \<notin> set (standing s)"
  by (auto simp: ended_def standing_def run_ids_def running_def image_image image_iff)

lemma ended_end_run: "ended r s \<Longrightarrow> status \<noteq> u ''running'' \<Longrightarrow> ended r (end_run rid at status why s)"
  by (auto simp: ended_def end_run_def update_runs_def run_ids_def running_def image_image)

lemma end_run_ends: "r \<in> set (run_ids s) \<Longrightarrow> status \<noteq> u ''running'' \<Longrightarrow> ended r (end_run r at status why s)"
  using run_ended [of _ r at status why s] by (auto simp: ended_def end_run_def update_runs_def run_ids_def image_image)

lemma completed_not_running: "u ''completed'' \<noteq> u ''running''"
  by (simp add: literals)

lemma completed_status: "u ''completed'' \<in> set RUN_STATUSES"
  by (simp add: RUN_STATUSES_def)

lemma current_run_ends:
  assumes "current_run nid e k p at s = (Inr rid, s')"
    "filter (\<lambda>q. run_engagement q = e \<and> run_kind q = k \<and> running q) (st_runs s) = [q0]"
  shows "rid = run_id q0 \<and> run_id q0 \<in> set (run_ids s') \<or> ended (run_id q0) s'"
proof -
  have q0: "q0 \<in> set (st_runs s)"
    by (metis assms(2) filter_is_subset list.set_intros(1) subsetD)
  then have m: "run_id q0 \<in> set (run_ids s)" by (simp add: run_ids_def)
  have n: "newest (filter (\<lambda>q. run_engagement q = e \<and> run_kind q = k \<and> running q) (st_runs s)) = Some q0"
    using assms(2) by simp
  show ?thesis
  proof (cases "at - last_seen_us q0 \<le> IDLE_CLOSE_US")
    case True
    with assms(1) n m show ?thesis by (simp add: current_run_def)
  next
    case False
    let ?c = "end_run (run_id q0) (last_seen_us q0) (u ''completed'') (Some (u ''idle'')) s"
    have c: "close_run (run_id q0) (last_seen_us q0) (u ''completed'') (Some (u ''idle'')) s = (Inr (), ?c)"
      by (simp add: close_run_def RUN_STATUSES_def)
    have "ended (run_id q0) ?c" using m completed_not_running by (rule end_run_ends)
    moreover have "open_run nid e k p at ?c = (Inr rid, s')"
      using assms(1) n False c by (simp add: current_run_def)
    ultimately show ?thesis
      by (auto simp: open_run_def ended_def run_ids_def running_def split: if_splits)
  qed
qed

lemma scan_ends_run:
  assumes "scan env checks (start_state s answer) = (Inr (), ss')" "enabled_checks env checks \<noteq> []"
    "filter (\<lambda>q. run_engagement q = en_engagement env \<and> run_kind q = u ''scan'' \<and> running q) (st_runs s) = [q0]"
  shows "ended (run_id q0) (ss_store ss')"
proof -
  have "\<exists>nid at rid deadline ss2. scan_in_run env (enabled_checks env checks) rid deadline ss2 = (Inr (), ss')
      \<and> current_run nid (en_engagement env) (u ''scan'') (en_profile env) at s = (Inr rid, ss_store ss2)"
  proof (cases "enabled_checks env checks")
    case (Cons ck cks)
    with assms(1) show ?thesis
      by (auto simp: scan_def fresh_id_def now_us_def deadline_of_def on_db_def escaping_def sbind_def start_state_def
          split: prod.splits sum.splits option.splits)
        (intro exI conjI, assumption, simp)+
  qed (use assms(2) in simp)
  then obtain nid at rid deadline ss2 where run: "scan_in_run env (enabled_checks env checks) rid deadline ss2 = (Inr (), ss')"
    and cur: "current_run nid (en_engagement env) (u ''scan'') (en_profile env) at s = (Inr rid, ss_store ss2)" by blast
  obtain x ss3 where x: "scan_surfaces env (enabled_checks env checks) rid deadline (surfaces_in_order (en_engagement env) (ss_store ss2)) ss2
      = (Inr x, ss3)" and close: "close_scan env rid (u ''completed'') truncated ss3 = (Inr (), ss')"
  proof -
    obtain y ss3 where y: "scan_surfaces env (enabled_checks env checks) rid deadline (surfaces_in_order (en_engagement env) (ss_store ss2)) ss2
      = (y, ss3)" by (metis prod.exhaust)
    show ?thesis
    proof (cases y)
      case (Inl e)
      obtain s1 at where "stop_scan env rid e ss3 = (Inl e,
        s1\<lparr>ss_ticks := Suc (ss_ticks s1), ss_store := end_run rid at (u ''error'') (Some (stop_text e s1)) (ss_store s1)\<rparr>)"
        by (rule stop_scan_ends)
      with run y Inl show ?thesis by (simp add: scan_in_run_def)
    next
      case (Inr z)
      with run y that show ?thesis by (simp add: scan_in_run_def)
    qed
  qed
  have st: "standing (ss_store ss3) = standing (ss_store ss2)"
    by (rule keepsD [OF scan_surfaces_standing refl x])
  obtain at' where c: "close_scan env rid (u ''completed'') truncated ss3 =
      (Inr (), ss3\<lparr>ss_ticks := Suc (ss_ticks ss3), ss_store := end_run rid at' (u ''completed'') (truncated ss3) (ss_store ss3)\<rparr>)"
    by (rule close_scan_closes [OF completed_status])
  have "ss' = ss3\<lparr>ss_ticks := Suc (ss_ticks ss3), ss_store := end_run rid at' (u ''completed'') (truncated ss3) (ss_store ss3)\<rparr>"
    using close c by simp
  then have ss': "ss_store ss' = end_run rid at' (u ''completed'') (truncated ss3) (ss_store ss3)" by simp
  from current_run_ends [OF cur assms(3)] show ?thesis
  proof (elim disjE conjE)
    assume "rid = run_id q0" "run_id q0 \<in> set (run_ids (ss_store ss2))"
    moreover have "set (run_ids (ss_store ss3)) = set (run_ids (ss_store ss2))"
      using st by (simp add: run_ids_standing)
    ultimately show ?thesis unfolding ss' using completed_not_running by (auto intro: end_run_ends)
  next
    assume "ended (run_id q0) (ss_store ss2)"
    then have "ended (run_id q0) (ss_store ss3)" using st by (simp add: ended_standing)
    then show ?thesis unfolding ss' using completed_not_running by (rule ended_end_run)
  qed
qed

lemma finish_by_kind_misses:
  assumes "ended r (tx_store ctx)" "tx_open_runs ctx = None"
  shows "fst (run_to_finish (Some k) ctx) \<noteq> Inr r"
proof
  let ?unbound = "ctx\<lparr>tx_bound_run := None\<rparr>"
  assume "fst (run_to_finish (Some k) ctx) = Inr r"
  moreover have "fst (run_to_finish (Some k) ?unbound) = fst (run_to_finish (Some k) ctx)"
    using assms(2) by (auto simp: run_to_finish_def the_open_runs_def ctx_open_runs_def sbind_def not_available_def Let_def
        split: list.split prod.split)
  ultimately have "fst (run_to_finish (Some k) ?unbound) = Inr r" by simp
  from finishes_known [OF this] assms show False by (auto simp: ended_def dest: open_runs_running)
qed

lemma open_run_of_kind_reads:
  assumes "open_run_of_kind kind detail ctx = (Inr (), ctx')"
  shows "\<exists>memo. ctx' = ctx\<lparr>tx_open_runs := memo\<rparr>"
proof -
  have "\<exists>memo. ctx = ctx\<lparr>tx_open_runs := memo\<rparr>" by (rule exI [of _ "tx_open_runs ctx"]) simp
  with assms show ?thesis
    by (auto simp: open_run_of_kind_def the_open_runs_def ctx_open_runs_def sbind_def refuse_def Let_def
        split: option.splits if_splits)
qed

lemma scan_run_store:
  assumes "scan_run env answer corpus wanted None secs ctx = (Inr j, ctx')"
  shows "\<exists>ss memo. scan (scan_env_of env ctx wanted secs) corpus (start_state (tx_store ctx) answer) = (Inr (), ss)
    \<and> ctx' = ctx\<lparr>tx_open_runs := memo, tx_store := ss_store ss\<rparr>"
proof -
  obtain z ctx1 where z: "open_run_of_kind ''scan'' WRONG_SCAN_RUN ctx = (Inr z, ctx1)"
    and rest: "sbind (chosen_checks (en_repr env) corpus None) (\<lambda>chosen ctx.
       case scan (scan_env_of env ctx wanted secs) chosen (start_state (tx_store ctx) answer) of
         (Inl e, ss) \<Rightarrow> (Inl (scan_failed e), ctx\<lparr>tx_store := ss_store ss\<rparr>)
       | (Inr _, ss) \<Rightarrow> (Inr (scan_result ss), ctx\<lparr>tx_store := ss_store ss\<rparr>)) ctx1 = (Inr j, ctx')"
    using assms unfolding scan_run_def by (rule sbind_InrE)
  then obtain memo where m: "ctx1 = ctx\<lparr>tx_open_runs := memo\<rparr>" using open_run_of_kind_reads [of "''scan''" WRONG_SCAN_RUN ctx ctx1] by auto
  then have "scan_env_of env ctx1 wanted secs = scan_env_of env ctx wanted secs" by (simp add: scan_env_of_def conf_def)
  with rest m show ?thesis
    by (auto simp: chosen_checks_def sbind_def split: prod.splits sum.splits)
qed

text \<open>C28. \<open>scan.run\<close> must be called inside the scan run that \<open>run.start\<close> opened, and it closes that run itself. The Burp the
  run holds stays up: no \<open>run.finish\<close> that names a kind reaches the owner any more, and when the context is bound to
  another run, no sequence of \<open>run.start\<close> and \<open>run.finish\<close> ever closes the session, which stays with its ended owner.\<close>

theorem scan_strands_session:
  assumes "scan_run env answer corpus wanted None secs ctx = (Inr j, ctx')"
    "enabled_checks (scan_env_of env ctx wanted secs) corpus \<noteq> []"
    "filter (\<lambda>q. run_engagement q = tx_engagement ctx \<and> run_kind q = u ''scan'' \<and> running q) (st_runs (tx_store ctx)) = [q]"
    "tx_session ctx" "lc_owner (tx_world ctx) = Some (run_id q)"
  shows "tx_session ctx' \<and> lc_owner (tx_world ctx') = Some (run_id q)
    \<and> (\<forall>r \<in> set (st_runs (tx_store ctx')). run_id r = run_id q \<longrightarrow> \<not> running r)
    \<and> fst (run_to_finish (Some k) (fresh_memo ctx')) \<noteq> Inr (run_id q)
    \<and> (tx_bound_run ctx \<noteq> Some (run_id q) \<longrightarrow> list_all call_ok cs \<longrightarrow>
         tx_session (fold after_call cs ctx') \<and> lc_owner (tx_world (fold after_call cs ctx')) = Some (run_id q))"
proof -
  obtain ss memo where scan: "scan (scan_env_of env ctx wanted secs) corpus (start_state (tx_store ctx) answer) = (Inr (), ss)"
    and ctx': "ctx' = ctx\<lparr>tx_open_runs := memo, tx_store := ss_store ss\<rparr>"
    using scan_run_store [OF assms(1)] by blast
  have en: "en_engagement (scan_env_of env ctx wanted secs) = tx_engagement ctx" by (simp add: scan_env_of_def)
  have ended: "ended (run_id q) (tx_store ctx')"
    unfolding ctx' using scan_ends_run [OF scan assms(2)] assms(3) en by simp
  have held: "tx_session ctx'" "lc_owner (tx_world ctx') = Some (run_id q)" "tx_bound_run ctx' = tx_bound_run ctx"
    using assms(4,5) ctx' by simp_all
  have stuck: "stranded r (fold after_call cs c)" if "stranded r c" "list_all call_ok cs" for r c cs
    using that by (induction cs arbitrary: c) (auto simp: stranded_call)
  have "fst (run_to_finish (Some k) (fresh_memo ctx')) \<noteq> Inr (run_id q)"
    by (rule finish_by_kind_misses) (simp_all add: ended fresh_memo_def)
  moreover have "stranded (run_id q) (fold after_call cs ctx')" if "tx_bound_run ctx \<noteq> Some (run_id q)" "list_all call_ok cs"
    by (rule stuck [OF _ that(2)]) (use ended held that(1) in \<open>simp add: stranded_def ended_def\<close>)
  ultimately show ?thesis using ended held by (auto simp: ended_def stranded_def)
qed

section \<open>Both on an engagement\<close>

text \<open>A manual run holds the Burp; a scan run is opened beside it, and the other way round.\<close>

definition launching :: "pystr \<Rightarrow> run_env" where
  "launching nid = \<lparr>re_id = nid, re_now = 0, re_launch = Launched 8080 8081 1 Alive None, re_held = Alive, re_teardown = None\<rparr>"

definition staging_config :: config where
  "staging_config = small_config\<lparr>cf_safety_profile := u ''staging''\<rparr>"

definition bare_ctx :: run_ctx where
  "bare_ctx =
     \<lparr>tx_engagement = u ''e1'', tx_store = empty_store (u ''e1''), tx_blobs = \<lparr>bf_files = (\<lambda>_. None), bf_staging = (\<lambda>_. None)\<rparr>,
      tx_actions = [], tx_halt = (\<lparr>oh_engagement = ''e1'', oh_armed = False, oh_reason = None\<rparr>,
        \<lparr>dir_path = [], dir_sentinel = None, dir_stat_ok = True, dir_read_ok = True, dir_tmp = None, dir_actions = []\<rparr>),
      tx_session = False, tx_bound_run = None, tx_open_runs = None, tx_actor = u ''agent'',
      tx_world = \<lparr>lc_config = staging_config, lc_stack = True, lc_burp = False, lc_owner = None, lc_registered = []\<rparr>\<rparr>"

definition two_runs :: "run_call list" where
  "two_runs = [StartRun (launching (u ''r1'')) (u ''scan''), StartRun (launching (u ''r2'')) (u ''manual'')]"

definition held_ctx :: run_ctx where
  "held_ctx = fold after_call two_runs bare_ctx"

lemmas start_eval = after_call_def fresh_memo_def run_start_def open_of_kind_def db_call_def open_run_def open_for_def with_live_def
  launching_def conf_def staging_config_def small_config_def bare_ctx_def empty_store_def RUN_KINDS_def PROFILES_def EGRESS_KINDS_def
  run_ids_def sbind_def held_def running_def Let_def

lemma held_ctx_eval:
  "tx_session held_ctx" "lc_owner (tx_world held_ctx) = Some (u ''r1'')" "tx_bound_run held_ctx = Some (u ''r2'')"
  "tx_engagement held_ctx = u ''e1''" "map run_id (st_runs (tx_store held_ctx)) = [u ''r1'', u ''r2'']"
  "map run_kind (st_runs (tx_store held_ctx)) = [u ''scan'', u ''manual'']"
  "tx_store held_ctx = (empty_store (u ''e1''))\<lparr>st_runs := st_runs (tx_store held_ctx)\<rparr>"
  "list_all running (st_runs (tx_store held_ctx))" "conf held_ctx = staging_config"
  by (simp_all add: held_ctx_def two_runs_def start_eval literals)

lemma bare_ctx_ok: "one_per_kind bare_ctx" "session_ok bare_ctx"
  by (simp_all add: one_per_kind_def session_ok_def mine_def bare_ctx_def empty_store_def)

lemma two_runs_ok: "list_all call_ok two_runs"
  by (simp add: two_runs_def call_ok_def)

theorem session_belongs_to_open_run_witness:
  "tx_session held_ctx \<and> (\<exists>q \<in> set (mine held_ctx). run_id q = u ''r1'' \<and> run_kind q \<in> set EGRESS_KINDS)"
  using session_belongs_to_open_run [OF bare_ctx_ok two_runs_ok] held_ctx_eval(1,2) by (simp add: held_ctx_def)

lemma scan_in_held_ctx:
  "isl (fst (scan_run sample_scan_env (\<lambda>_. SendCrashed [] []) [sample_check] None None 60 held_ctx)) = False"
  by (simp add: scan_run_def open_run_of_kind_def the_open_runs_def ctx_open_runs_def chosen_checks_def scan_env_of_def
      held_ctx_def two_runs_def start_eval scan_eval open_runs_def DEFAULT_CHECKS_def MAX_SECONDS_def)

lemma held_ctx_scan_run:
  "\<exists>q. filter (\<lambda>q. run_engagement q = tx_engagement held_ctx \<and> run_kind q = u ''scan'' \<and> running q) (st_runs (tx_store held_ctx)) = [q]
     \<and> run_id q = u ''r1''"
  by (simp add: held_ctx_def two_runs_def start_eval literals)

lemma sample_enabled: "enabled_checks (scan_env_of sample_scan_env held_ctx None 60) [sample_check] \<noteq> []"
  by (simp add: enabled_checks_def scan_env_of_def held_ctx_eval staging_config_def small_config_def DEFAULT_CHECKS_def sample_check_def literals)

theorem scan_strands_session_witness:
  "\<exists>j ctx'. scan_run sample_scan_env (\<lambda>_. SendCrashed [] []) [sample_check] None None 60 held_ctx = (Inr j, ctx')
     \<and> tx_session (fold after_call [FinishRun (launching []) (u ''completed'') None (Some (u ''scan'')),
         FinishRun (launching []) (u ''completed'') None None, StartRun (launching (u ''r3'')) (u ''scan'')] ctx')"
proof -
  let ?scan = "scan_run sample_scan_env (\<lambda>_. SendCrashed [] []) [sample_check] None None 60 held_ctx"
  let ?cs = "[FinishRun (launching []) (u ''completed'') None (Some (u ''scan'')),
         FinishRun (launching []) (u ''completed'') None None, StartRun (launching (u ''r3'')) (u ''scan'')]"
  obtain j ctx' where s: "?scan = (Inr j, ctx')"
    using scan_in_held_ctx by (cases "fst ?scan") (auto simp: prod_eq_iff)
  obtain q where q: "filter (\<lambda>q. run_engagement q = tx_engagement held_ctx \<and> run_kind q = u ''scan'' \<and> running q) (st_runs (tx_store held_ctx)) = [q]"
    "run_id q = u ''r1''" using held_ctx_scan_run by blast
  have ok: "list_all call_ok ?cs" by (simp add: call_ok_def AGENT_STATUSES_def)
  have free: "tx_bound_run held_ctx \<noteq> Some (run_id q)" by (simp add: q(2) held_ctx_eval literals)
  have owner: "lc_owner (tx_world held_ctx) = Some (run_id q)" using held_ctx_eval(2) q(2) by simp
  have "tx_session (fold after_call ?cs ctx')"
    using scan_strands_session [OF s sample_enabled q(1) held_ctx_eval(1) owner, of undefined ?cs] ok free by blast
  with s show ?thesis by blast
qed

end
