(* ===== verification/Tool_Finding_Laws.thy ===== *)
theory Tool_Finding_Laws
  imports Tool_Run_Laws Store_Laws "HOL-Library.Multiset"
begin

text \<open>
  What the tools that record and query findings owe: a finding is written whole or not at all and cites traffic that
  exists, and the pages of a query are its answer.
\<close>

section \<open>Recording\<close>

text \<open>The handlers' steps, told by what they leave alone.\<close>

definition memo_only :: "run_ctx \<Rightarrow> run_ctx \<Rightarrow> bool" where
  "memo_only ctx ctx' \<longleftrightarrow> (\<exists>memo. ctx' = ctx\<lparr>tx_open_runs := memo\<rparr>)"

lemma memo_only_refl [simp]: "memo_only ctx ctx"
  unfolding memo_only_def by (rule exI [of _ "tx_open_runs ctx"]) simp

lemma memo_only_store: "memo_only ctx ctx' \<Longrightarrow> tx_store ctx' = tx_store ctx \<and> tx_engagement ctx' = tx_engagement ctx"
  by (auto simp: memo_only_def)

lemma run_of_finding_reads: "run_of_finding ctx = (r, ctx') \<Longrightarrow> memo_only ctx ctx'"
proof -
  have "\<exists>memo. ctx = ctx\<lparr>tx_open_runs := memo\<rparr>" by (rule exI [of _ "tx_open_runs ctx"]) simp
  moreover assume "run_of_finding ctx = (r, ctx')"
  ultimately show ?thesis
    by (auto simp: memo_only_def run_of_finding_def the_open_runs_def the_run_id_def ctx_run_id_def ctx_open_runs_def sbind_def
        refuse_def not_available_def Let_def split: option.splits if_splits prod.splits)
qed

lemma insertion_of_same: "insertion_of a ctx = (r, ctx') \<Longrightarrow> ctx' = ctx"
  by (auto simp: insertion_of_def lift_exc_def refuse_def split: if_splits sum.splits)

lemma lift_exc_same: "lift_exc m ctx = (r, ctx') \<Longrightarrow> ctx' = ctx \<and> (\<forall>x. r = Inr x \<longrightarrow> m = Inr x)"
  by (auto simp: lift_exc_def split: sum.splits)

lemma db_call_result:
  assumes "db_call (transaction m) ctx = (r, ctx')"
  shows "(isl r \<and> ctx' = ctx) \<or> (\<exists>x s. r = Inr x \<and> m (tx_store ctx) = (Inr x, s) \<and> ctx' = ctx\<lparr>tx_store := s\<rparr>)"
  using assms by (auto simp: db_call_def transaction_def split: prod.splits sum.splits)

text \<open>What was written, when the tool answers.\<close>

definition written :: "finding_env \<Rightarrow> record_args \<Rightarrow> run_ctx \<Rightarrow> pystr \<Rightarrow> surface_row \<Rightarrow> found \<Rightarrow> pystr \<Rightarrow> pystr \<Rightarrow> store \<Rightarrow> bool" where
  "written env a ctx rid surface f key fid s' \<longleftrightarrow>
     find_surface ctx (ra_surface_id a) = Some surface \<and> missing_exchanges ctx (ra_exchange_ids a) = []
     \<and> ra_exchange_ids a \<noteq> [] \<and> (\<exists>i. mk_candidate (candidate_of a i) (ra_exchange_ids a) = Inr f)
     \<and> agent_key surface (fo_candidate f) = Inr key
     \<and> agent_rows env (tx_engagement ctx) key rid surface f (tx_store ctx) = (Inr fid, s')"

lemma finding_record_cases:
  assumes "finding_record env a ctx = (r, ctx')"
  shows "(isl r \<and> tx_store ctx' = tx_store ctx) \<or>
    (\<exists>rid surface f key fid. r = Inr (JObj [jfield ''id'' (JStr fid), jfield ''dedupe_key'' (JStr key)])
       \<and> written env a ctx rid surface f key fid (tx_store ctx'))"
proof -
  obtain q c1 where q: "run_of_finding ctx = (q, c1)" by (metis prod.exhaust)
  have m: "memo_only ctx c1" by (rule run_of_finding_reads [OF q])
  then have c1: "tx_store c1 = tx_store ctx" "tx_engagement c1 = tx_engagement ctx" by (simp_all add: memo_only_store)
  then have look: "find_surface c1 = find_surface ctx" "missing_exchanges c1 = missing_exchanges ctx"
    by (simp_all add: find_surface_def missing_exchanges_def fun_eq_iff)
  show ?thesis
  proof (cases q)
    case (Inl e)
    with assms q c1 show ?thesis by (auto simp: finding_record_def)
  next
    case (Inr rid)
    show ?thesis
    proof (cases "ra_exchange_ids a = [] \<or> find_surface ctx (ra_surface_id a) = None \<or> missing_exchanges ctx (ra_exchange_ids a) \<noteq> []")
      case True
      with assms q c1 look Inr show ?thesis by (auto simp: finding_record_def refuse_def split: if_splits option.splits)
    next
      case False
      then obtain surface where surface: "find_surface ctx (ra_surface_id a) = Some surface" by auto
      have run: "finding_record env a ctx = sbind (insertion_of a) (\<lambda>insertion.
             sbind (lift_exc (mk_candidate (candidate_of a insertion) (ra_exchange_ids a))) (\<lambda>f.
             sbind (lift_exc (agent_key surface (fo_candidate f))) (\<lambda>key.
             sbind (db_call (agent_rows env (tx_engagement ctx) key rid surface f)) (\<lambda>fid.
               sret (JObj [jfield ''id'' (JStr fid), jfield ''dedupe_key'' (JStr key)]))))) c1"
        using q Inr False surface look c1 by (simp add: finding_record_def)
      show ?thesis
      proof (cases r)
        case (Inl e)
        from assms [unfolded run Inl] have "tx_store ctx' = tx_store c1"
          by (elim sbind_InlE) (auto dest!: insertion_of_same lift_exc_same simp: db_call_def agent_rows_def transaction_def Let_def
              split: prod.splits sum.splits)
        with Inl c1 show ?thesis by simp
      next
        case (Inr j)
        from assms [unfolded run Inr] obtain i f key fid c2 c3 c4 where i: "insertion_of a c1 = (Inr i, c2)"
          and f: "lift_exc (mk_candidate (candidate_of a i) (ra_exchange_ids a)) c2 = (Inr f, c3)"
          and key: "lift_exc (agent_key surface (fo_candidate f)) c3 = (Inr key, c4)"
          and fid: "db_call (agent_rows env (tx_engagement ctx) key rid surface f) c4 = (Inr fid, ctx')"
          and j: "j = JObj [jfield ''id'' (JStr fid), jfield ''dedupe_key'' (JStr key)]"
          by (elim sbind_InrE) simp
        have same: "c4 = c1" using insertion_of_same [OF i] lift_exc_same [OF f] lift_exc_same [OF key] by simp
        have "agent_rows env (tx_engagement ctx) key rid surface f (tx_store ctx) = (Inr fid, tx_store ctx')"
          using fid same c1 by (auto simp: db_call_def split: prod.splits sum.splits)
        then show ?thesis
          using lift_exc_same [OF f] lift_exc_same [OF key] False surface Inr j unfolding written_def by blast
      qed
    qed
  qed
qed

text \<open>The three statements of the transaction, on tables in order.\<close>

lemma upsert_finding_frame:
  assumes "upsert_finding nid e c k rid sf h ch cb s = (Inr fid, s')"
  shows "st_evidence s' = st_evidence s \<and> st_exchanges s' = st_exchanges s \<and> st_runs s' = st_runs s \<and> rid \<in> set (run_ids s)"
  using assms by (auto simp: upsert_finding_def Let_def split: if_splits list.splits)

lemma record_observation_frame:
  assumes "record_observation ob s = (Inr x, s')"
  shows "st_evidence s' = st_evidence s \<and> st_exchanges s' = st_exchanges s \<and> st_findings s' = st_findings s
    \<and> ob \<in> set (st_observations s')"
proof -
  have s': "s' = s\<lparr>st_observations := upsert_by observation_key (\<lambda>_ new. new) ob (st_observations s)\<rparr>"
    using assms by (auto simp: record_observation_def split: if_splits)
  have "ob \<in> set (upsert_by observation_key (\<lambda>_ new. new) ob (st_observations s))"
    by (force simp: upsert_by_def)
  then show ?thesis by (simp add: s')
qed

lemma record_evidence_cites:
  assumes "chains_ok s" "record_evidence f xs tm role nt s = (Inr u', s')"
  shows "chains_ok s' \<and> (\<forall>(_, x) \<in> set xs. (x, role) \<in> set (cited f s'))
    \<and> st_findings s' = st_findings s \<and> st_observations s' = st_observations s \<and> st_exchanges s' = st_exchanges s"
proof -
  have loop: "evidence_loop f role nt tm xs (cited f s) (next_seq f s) s = (Inr (), s')"
    using assms(2) by (auto simp: record_evidence_def transaction_def split: prod.splits sum.splits)
  have "keeps (\<lambda>t. st_findings t = st_findings s \<and> st_observations t = st_observations s \<and> st_exchanges t = st_exchanges s)
      (evidence_loop f role nt tm xs known n)" for known n
    by (induction f role nt tm xs known n rule: evidence_loop.induct)
      (auto intro!: keeps_intros simp: insert_evidence_def keeps_def sbind_def split: prod.split sum.split)
  from keepsD [OF this _ loop] evidence_loop_ok [OF assms(1) refl next_seq_chain [OF assms(1)] loop] show ?thesis by auto
qed

lemma evidence_pairs_all: "x \<in> set xs \<Longrightarrow> \<exists>nid. (nid, x) \<in> set (evidence_pairs env xs)"
proof -
  assume "x \<in> set xs"
  then have "x \<in> set (map snd (evidence_pairs env xs))" by (simp add: evidence_pairs_def)
  then show ?thesis by auto
qed

text \<open>The first part of a key is the type of what found it.\<close>

lemma key_names_type:
  assumes "dedupe_key ka lvl = Inr key" "ka_type ka \<noteq> []" "124 \<notin> set (ka_type ka)"
  shows "takeWhile (\<lambda>c. c \<noteq> 124) key = ka_type ka"
proof -
  obtain blanks where b: "map_of SCOPE_BLANKS lvl = Some blanks" and key: "key = join [124] (map (part_text blanks) (key_parts ka))"
    using assms(1) by (auto simp: dedupe_key_def split: option.splits)
  have "PType \<notin> set blanks" using map_of_SomeD [OF b] by (auto simp: SCOPE_BLANKS_def)
  then have "part_text blanks (PType, Some (ka_type ka)) = ka_type ka" using assms(2) by (simp add: part_text_def)
  then obtain rest where "key = ka_type ka @ 124 # rest" using key by (simp add: key_parts_def)
  moreover have "\<forall>c \<in> set (ka_type ka). c \<noteq> 124" using assms(3) by auto
  ultimately show ?thesis by (simp add: takeWhile_append_stop)
qed

text \<open>C29. \<open>finding.record\<close> writes a finding whole or not at all. When it answers, the run and the surface exist and
  every exchange cited is one of the store's; the one row under the key has the arguments' title and ratings and this run as
  its last; the row is observed in the run and every exchange is in its chain as proof, which stays gapless; every other finding is as
  it was. The key is never one a check's finding has.\<close>

theorem agent_finding_written_whole:
  assumes "finding_record env a ctx = (r, ctx')" "distinct (map finding_key (st_findings (tx_store ctx)))" "chains_ok (tx_store ctx)"
  shows "(isl r \<longrightarrow> tx_store ctx' = tx_store ctx) \<and>
    (\<forall>j. r = Inr j \<longrightarrow> (\<exists>rid f fid key. j = JObj [jfield ''id'' (JStr fid), jfield ''dedupe_key'' (JStr key)]
       \<and> rid \<in> set (run_ids (tx_store ctx)) \<and> find_surface ctx (ra_surface_id a) \<noteq> None
       \<and> filter (\<lambda>q. finding_key q = (tx_engagement ctx, key)) (st_findings (tx_store ctx')) = [f]
       \<and> filter (\<lambda>q. finding_key q \<noteq> (tx_engagement ctx, key)) (st_findings (tx_store ctx'))
         = filter (\<lambda>q. finding_key q \<noteq> (tx_engagement ctx, key)) (st_findings (tx_store ctx))
       \<and> fi_id f = fid \<and> fi_title f = ra_title a \<and> fi_severity f = ra_severity a \<and> fi_confidence f = ra_confidence a
       \<and> fi_last_seen_run f = rid
       \<and> (\<exists>ob \<in> set (st_observations (tx_store ctx')). ob_finding ob = fid \<and> ob_run ob = rid \<and> ob_observed ob)
       \<and> chains_ok (tx_store ctx') \<and> ra_exchange_ids a \<noteq> []
       \<and> (\<forall>x \<in> set (ra_exchange_ids a). x \<in> set (exchange_ids (tx_store ctx)) \<and> (x, u ''proof'') \<in> set (cited fid (tx_store ctx')))
       \<and> (\<forall>ka lvl. ka_type ka \<noteq> AGENT_TYPE \<and> ka_type ka \<noteq> [] \<and> 124 \<notin> set (ka_type ka) \<longrightarrow> dedupe_key ka lvl \<noteq> Inr key)))"
  using finding_record_cases [OF assms(1)]
proof (elim disjE conjE exE)
  assume "isl r" "tx_store ctx' = tx_store ctx"
  then show ?thesis by (cases r) auto
next
  fix rid surface f key fid
  let ?s = "tx_store ctx" and ?s' = "tx_store ctx'" and ?e = "tx_engagement ctx"
  assume r: "r = Inr (JObj [jfield ''id'' (JStr fid), jfield ''dedupe_key'' (JStr key)])"
    and w: "written env a ctx rid surface f key fid ?s'"
  obtain i where f: "fo_candidate f = candidate_of a i" "fo_exchanges f = ra_exchange_ids a"
    using w by (auto simp: written_def mk_candidate_def split: if_splits)
  let ?ca = "candidate_of a i"
  from w obtain s1 s2 x where up: "upsert_finding (fe_id env) ?e ?ca key rid (Some (sf_id surface)) (Some (sf_host surface)) None AGENT_TYPE ?s
      = (Inr fid, s1)"
    and ob: "record_observation \<lparr>ob_finding = fid, ob_run = rid, ob_observed = True, ob_exchange = Some (hd (fo_exchanges f)),
      ob_severity = Some (ca_severity ?ca), ob_confidence = Some (ca_confidence ?ca), ob_ts_us = fe_now env\<rparr> s1 = (Inr x, s2)"
    and ev: "\<exists>y. record_evidence fid (evidence_pairs env (fo_exchanges f)) (fe_now env) (u ''proof'') None s2 = (Inr y, ?s')"
    by (auto simp: written_def agent_rows_def transaction_def Let_def f sbind_def split: prod.splits sum.splits)
  note up' = upsert_finding_cases [OF up assms(2)] and up'' = upsert_finding_frame [OF up]
  note ob' = record_observation_frame [OF ob]
  have chains: "chains_ok s2"
    using assms(3) up'' ob' by (simp add: chains_ok_def chain_def)
  obtain y where "record_evidence fid (evidence_pairs env (fo_exchanges f)) (fe_now env) (u ''proof'') None s2 = (Inr y, ?s')" using ev ..
  note ev' = record_evidence_cites [OF chains this]
  have findings: "st_findings ?s' = st_findings s1" using ev' ob' by simp
  define row where "row = (case filter (\<lambda>q. finding_key q = (?e, key)) (st_findings ?s) of
      [] \<Rightarrow> finding_of (fe_id env) ?e ?ca key rid (Some (sf_id surface)) (Some (sf_host surface)) None AGENT_TYPE
    | old # _ \<Rightarrow> refresh_finding old (finding_of (fe_id env) ?e ?ca key rid (Some (sf_id surface)) (Some (sf_host surface)) None AGENT_TYPE))"
  have one: "filter (\<lambda>q. finding_key q = (?e, key)) (st_findings ?s') = [row]"
    using up'(2) findings by (simp add: row_def)
  have row: "fi_id row = fid \<and> fi_title row = ra_title a \<and> fi_severity row = ra_severity a \<and> fi_confidence row = ra_confidence a
      \<and> fi_last_seen_run row = rid"
    using up'(3) by (auto simp: row_def finding_of_def refresh_finding_def candidate_of_def split: list.split)
  have others: "filter (\<lambda>q. finding_key q \<noteq> (?e, key)) (st_findings ?s') = filter (\<lambda>q. finding_key q \<noteq> (?e, key)) (st_findings ?s)"
    using finding_table.upsert_others [of "finding_of (fe_id env) ?e ?ca key rid (Some (sf_id surface)) (Some (sf_host surface)) None AGENT_TYPE"]
      up'(1) findings by simp
  have cites: "(x, u ''proof'') \<in> set (cited fid ?s')" if "x \<in> set (ra_exchange_ids a)" for x
    using evidence_pairs_all [OF that, of env] ev' f(2) by fastforce
  have known: "x \<in> set (exchange_ids ?s)" if "x \<in> set (ra_exchange_ids a)" for x
    using w that by (auto simp: written_def missing_exchanges_def filter_empty_conv)
  have type: "takeWhile (\<lambda>c. c \<noteq> 124) key = AGENT_TYPE"
    using w by (intro key_names_type [THEN trans]) (auto simp: written_def agent_key_def f(1) AGENT_TYPE_def literals)
  have apart: "dedupe_key ka lvl \<noteq> Inr key" if "ka_type ka \<noteq> AGENT_TYPE \<and> ka_type ka \<noteq> [] \<and> 124 \<notin> set (ka_type ka)" for ka lvl
    using key_names_type [of ka lvl key] that type by auto
  have seen: "\<exists>ob \<in> set (st_observations ?s'). ob_finding ob = fid \<and> ob_run ob = rid \<and> ob_observed ob"
    using ob' ev' by (intro bexI) auto
  have there: "rid \<in> set (run_ids ?s)" "find_surface ctx (ra_surface_id a) \<noteq> None" "ra_exchange_ids a \<noteq> []"
    using up'' w by (simp_all add: written_def)
  have chains': "chains_ok ?s'" using ev' by simp
  show ?thesis
  proof (intro conjI impI allI)
    fix j assume "r = Inr j"
    with r have j: "j = JObj [jfield ''id'' (JStr fid), jfield ''dedupe_key'' (JStr key)]" by simp
    show "\<exists>rid f fid key. j = JObj [jfield ''id'' (JStr fid), jfield ''dedupe_key'' (JStr key)]
       \<and> rid \<in> set (run_ids ?s) \<and> find_surface ctx (ra_surface_id a) \<noteq> None
       \<and> filter (\<lambda>q. finding_key q = (?e, key)) (st_findings ?s') = [f]
       \<and> filter (\<lambda>q. finding_key q \<noteq> (?e, key)) (st_findings ?s') = filter (\<lambda>q. finding_key q \<noteq> (?e, key)) (st_findings ?s)
       \<and> fi_id f = fid \<and> fi_title f = ra_title a \<and> fi_severity f = ra_severity a \<and> fi_confidence f = ra_confidence a
       \<and> fi_last_seen_run f = rid
       \<and> (\<exists>ob \<in> set (st_observations ?s'). ob_finding ob = fid \<and> ob_run ob = rid \<and> ob_observed ob)
       \<and> chains_ok ?s' \<and> ra_exchange_ids a \<noteq> []
       \<and> (\<forall>x \<in> set (ra_exchange_ids a). x \<in> set (exchange_ids ?s) \<and> (x, u ''proof'') \<in> set (cited fid ?s'))
       \<and> (\<forall>ka lvl. ka_type ka \<noteq> AGENT_TYPE \<and> ka_type ka \<noteq> [] \<and> 124 \<notin> set (ka_type ka) \<longrightarrow> dedupe_key ka lvl \<noteq> Inr key)"
      using j there one others row seen chains' cites known apart
      by (intro exI [of _ rid] exI [of _ row] exI [of _ fid] exI [of _ key] conjI ballI allI impI) simp_all
  qed (simp add: r)
qed

section \<open>Queries\<close>

text \<open>An agent that follows the cursors: the rows of the pages, one call after the other.\<close>

fun follow :: "nat \<Rightarrow> (pystr option \<Rightarrow> json handler) \<Rightarrow> pystr option \<Rightarrow> run_ctx \<Rightarrow> json list" where
  "follow 0 q c ctx = []"
| "follow (Suc k) q c ctx =
     (case q c ctx of
        (Inr (JObj kvs), ctx') \<Rightarrow>
          (case map_of kvs (u ''rows'') of
             Some (JArr xs) \<Rightarrow> xs @ (case map_of kvs (u ''next_cursor'') of Some (JStr c') \<Rightarrow> follow k q (Some c') ctx' | _ \<Rightarrow> [])
           | _ \<Rightarrow> [])
      | _ \<Rightarrow> [])"

lemma page_view:
  assumes "1 \<le> n" "n \<le> 500"
  shows "\<exists>kvs. page rows whole (int n) (Some f) facets = Inr (JObj kvs)
    \<and> map_of kvs (u ''rows'') = Some (JArr (take n rows))
    \<and> map_of kvs (u ''next_cursor'') = Some (if n < length rows then JStr (f (last (take n rows))) else JNull)"
proof -
  have "take n rows \<noteq> []" if "n < length rows" using assms that by auto
  then show ?thesis using assms by (auto simp: page_def MAX_LIMIT_def Let_def literals)
qed

lemma cursor_read:
  assumes "k \<le> 1000000000"
  shows "parse_offset (Some (CURSOR_PREFIX @ dump_int (int k))) = Inr (int k)"
proof -
  have "length (dec_nat k) \<le> Suc 9" using assms by (intro dec_nat_length) simp
  then have "\<not> length (dec_nat k) > max_str_digits" by (simp add: max_str_digits_def)
  moreover have "startswith CURSOR_PREFIX (CURSOR_PREFIX @ dump_int (int k))" by (simp add: startswith_def)
  ultimately show ?thesis
    using assms by (simp add: parse_offset_def Let_def dump_int_def digits_val_dec_nat MAX_OFFSET_def is_digit_dec_nat)
qed

lemma query_page_at:
  assumes "1 \<le> n" "n \<le> 500" "parse_offset c = Inr (int k)"
  shows "\<exists>kvs. query_page render rows (Some (int n)) c facets ctx = (Inr (JObj kvs), ctx)
    \<and> map_of kvs (u ''rows'') = Some (JArr (map render (take n (drop k rows))))
    \<and> map_of kvs (u ''next_cursor'')
      = Some (if k + n < length rows then JStr (CURSOR_PREFIX @ dump_int (int (k + n))) else JNull)"
proof -
  let ?rows = "map render (take (Suc n) (drop k rows))"
  have "take n ?rows = map render (take n (drop k rows))" by (simp add: take_map min_def)
  moreover have "n < length ?rows \<longleftrightarrow> k + n < length rows" by auto
  moreover have "nat (int n + 1) = Suc n" by simp
  ultimately show ?thesis
    using page_view [OF assms(1,2), of ?rows "int (length rows)" "\<lambda>_. CURSOR_PREFIX @ dump_int (int k + int n)" facets] assms(3)
    by (auto simp: query_page_def paged_def)
qed

lemma follow_pages:
  assumes q: "\<And>c. q c ctx = query_page render rows (Some (int n)) c facets ctx"
    and n: "1 \<le> n" "n \<le> 500" and len: "length rows \<le> 1000000000"
  shows "parse_offset c = Inr (int k) \<Longrightarrow> length rows - k < fuel \<Longrightarrow> follow fuel q c ctx = map render (drop k rows)"
proof (induction fuel arbitrary: c k)
  case (Suc fuel)
  from query_page_at [OF n Suc.prems(1), of render rows facets ctx] obtain kvs where
    page: "q c ctx = (Inr (JObj kvs), ctx)" "map_of kvs (u ''rows'') = Some (JArr (map render (take n (drop k rows))))"
      "map_of kvs (u ''next_cursor'') = Some (if k + n < length rows then JStr (CURSOR_PREFIX @ dump_int (int (k + n))) else JNull)"
    unfolding q by blast
  show ?case
  proof (cases "k + n < length rows")
    case True
    have "length rows - (k + n) < fuel" using Suc.prems(2) True n by simp
    moreover have "parse_offset (Some (CURSOR_PREFIX @ dump_int (int (k + n)))) = Inr (int (k + n))"
      using True len by (intro cursor_read) simp
    ultimately have "follow fuel q (Some (CURSOR_PREFIX @ dump_int (int (k + n)))) ctx = map render (drop (k + n) rows)"
      by (intro Suc.IH)
    moreover have "take n (drop k rows) @ drop (k + n) rows = drop k rows"
      by (metis append_take_drop_id drop_drop add.commute)
    ultimately show ?thesis
      using page True by (simp del: of_nat_add) (metis map_append)
  next
    case False
    then have "take n (drop k rows) = drop k rows" by simp
    with page False show ?thesis by simp
  qed
qed simp

definition surface_matches :: "run_ctx \<Rightarrow> pystr option \<Rightarrow> pystr option \<Rightarrow> pystr option \<Rightarrow> pystr option \<Rightarrow> bool \<Rightarrow> surface_row \<Rightarrow> bool" where
  "surface_matches ctx host meth kind disc untested r \<longleftrightarrow>
     sf_engagement r = tx_engagement ctx \<and> same host (Some (sf_host r)) \<and> same meth (Some (sf_method r))
     \<and> same kind (Some (sf_kind r)) \<and> same disc (Some (sf_discovered_by r)) \<and> (untested \<longrightarrow> untested_surface (tx_store ctx) r)"

definition surface_line :: "surface_row \<Rightarrow> json" where
  "surface_line r = JObj (surface_json r @ [jfield ''first_seen_run'' (JStr (sf_first_seen_run r)),
     jfield ''last_seen_run'' (JStr (sf_last_seen_run r))])"

lemma first_offset: "parse_offset None = Inr (int 0)"
  by (simp add: parse_offset_def)

lemma finding_pages:
  assumes "1 \<le> n" "n \<le> 500" "length (st_findings (tx_store ctx)) \<le> 1000000000"
    "found = sort_key (\<lambda>f. severity_rank (fi_severity f)) (sort_key fi_id
       (filter (finding_matches ctx sev status host sid by') (st_findings (tx_store ctx))))"
  shows "follow (Suc (length found)) (\<lambda>c. finding_query sev status host sid by' (Some (int n)) c) None ctx = map finding_json found"
proof -
  let ?rows = "filter (finding_matches ctx sev status host sid by') (st_findings (tx_store ctx))"
  have "length found = length ?rows" by (simp add: assms(4))
  then have len: "length found \<le> 1000000000" using assms(3) le_trans [OF length_filter_le] by simp
  show ?thesis
    using follow_pages [OF _ assms(1,2) len first_offset, of "\<lambda>c. finding_query sev status host sid by' (Some (int n)) c" ctx finding_json
        "[jfield ''severity'' (counts_json (count_by fi_severity ?rows))]" "Suc (length found)"]
    by (simp add: finding_query_def Let_def assms(4))
qed

lemma surface_pages:
  assumes "1 \<le> n" "n \<le> 500" "length (st_surfaces (tx_store ctx)) \<le> 1000000000"
    "seen = surface_order (filter (surface_matches ctx host meth kind disc untested) (st_surfaces (tx_store ctx)))"
  shows "follow (Suc (length seen)) (\<lambda>c. surface_query host meth kind disc untested (Some (int n)) c) None ctx = map surface_line seen"
proof -
  let ?rows = "filter (surface_matches ctx host meth kind disc untested) (st_surfaces (tx_store ctx))"
  have "length seen = length ?rows" by (simp add: assms(4) surface_order_def)
  then have len: "length seen \<le> 1000000000" using assms(3) le_trans [OF length_filter_le] by simp
  have m: "surface_matches ctx host meth kind disc untested = (\<lambda>r. sf_engagement r = tx_engagement ctx \<and> same host (Some (sf_host r))
     \<and> same meth (Some (sf_method r)) \<and> same kind (Some (sf_kind r)) \<and> same disc (Some (sf_discovered_by r))
     \<and> (untested \<longrightarrow> untested_surface (tx_store ctx) r))" by (simp add: surface_matches_def fun_eq_iff)
  have l: "surface_line = (\<lambda>r. JObj (surface_json r @ [jfield ''first_seen_run'' (JStr (sf_first_seen_run r)),
     jfield ''last_seen_run'' (JStr (sf_last_seen_run r))]))" by (simp add: surface_line_def fun_eq_iff)
  show ?thesis
    using follow_pages [OF _ assms(1,2) len first_offset, of "\<lambda>c. surface_query host meth kind disc untested (Some (int n)) c" ctx surface_line
        "[jfield ''host'' (counts_json (count_by sf_host ?rows)), jfield ''kind'' (counts_json (count_by sf_kind ?rows))]" "Suc (length seen)"]
    by (simp add: surface_query_def Let_def assms(4) m l)
qed


section \<open>On an engagement\<close>

text \<open>One run, one surface and one exchange, and a finding that cites it.\<close>

definition traffic_ctx :: run_ctx where
  "traffic_ctx = with_run (launching (u ''r1'')) (u ''manual'') (bare_ctx\<lparr>tx_store := (empty_store (u ''e1''))
     \<lparr>st_surfaces := [sample_surface], st_exchanges := [exchange_of (u ''x1'') undefined]\<rparr>\<rparr>)"

definition sample_record :: record_args where
  "sample_record =
     \<lparr>ra_title = u ''t'', ra_issue_type_id = u ''idor'', ra_severity = u ''High'', ra_confidence = u ''Firm'', ra_surface_id = u ''s1'',
      ra_exchange_ids = [u ''x1''], ra_description = None, ra_impact = None, ra_remediation = None, ra_cwe = None, ra_payload = None,
      ra_scope_level = u ''surface'', ra_insertion_kind = None, ra_insertion_name = None\<rparr>"

definition plain_finding_env :: finding_env where
  "plain_finding_env = \<lparr>fe_id = u ''f1'', fe_evidence_ids = (\<lambda>n. [118, n]), fe_now = 7, fe_repr = (\<lambda>t. t)\<rparr>"

lemma record_evaluates: "isl (fst (finding_record plain_finding_env sample_record traffic_ctx)) = False"
  by (simp add: finding_record_def run_of_finding_def the_run_id_def ctx_run_id_def sbind_def traffic_ctx_def with_run_def bare_ctx_def
      launching_def new_run_def sample_record_def plain_finding_env_def find_surface_def empty_store_def sample_surface_def
      missing_exchanges_def exchange_ids_def exchange_of_def insertion_of_def given_str_def lift_exc_def mk_candidate_def
      candidate_of_def SEVERITIES_def CONFIDENCES_def SCOPE_BLANKS_def agent_key_def dedupe_key_def key_parts_def db_call_def
      agent_rows_def transaction_def upsert_finding_def AGENT_TYPE_def run_ids_def fk_def upsert_by_def finding_key_def finding_of_def
      record_observation_def record_evidence_def evidence_pairs_def insert_evidence_def cited_def Let_def literals)

theorem agent_finding_written_whole_witness:
  "\<exists>j ctx' fid f. finding_record plain_finding_env sample_record traffic_ctx = (Inr j, ctx')
     \<and> f \<in> set (st_findings (tx_store ctx')) \<and> fi_id f = fid \<and> fi_title f = u ''t''
     \<and> (u ''x1'', u ''proof'') \<in> set (cited fid (tx_store ctx'))"
proof -
  obtain j ctx' where r: "finding_record plain_finding_env sample_record traffic_ctx = (Inr j, ctx')"
    using record_evaluates by (cases "fst (finding_record plain_finding_env sample_record traffic_ctx)") (auto simp: prod_eq_iff)
  have "distinct (map finding_key (st_findings (tx_store traffic_ctx)))" "chains_ok (tx_store traffic_ctx)"
    by (simp_all add: traffic_ctx_def with_run_def empty_store_def chains_ok_def chain_def)
  from agent_finding_written_whole [OF r this] obtain fid f key where
    "filter (\<lambda>q. finding_key q = (tx_engagement traffic_ctx, key)) (st_findings (tx_store ctx')) = [f]"
    "fi_id f = fid" "fi_title f = ra_title sample_record"
    "\<forall>x \<in> set (ra_exchange_ids sample_record). (x, u ''proof'') \<in> set (cited fid (tx_store ctx'))" by auto
  moreover from this(1) have "f \<in> set (st_findings (tx_store ctx'))" by (metis filter_is_subset list.set_intros(1) subsetD)
  ultimately show ?thesis using r by (auto simp: sample_record_def)
qed


end
