(* ===== verification/Tool_Http_Laws.thy ===== *)
theory Tool_Http_Laws
  imports Tool_Http Issue_Laws Tool_Finding_Laws
begin

text \<open>
  What the tools that send owe: no credential an agent names or a stored request holds reaches the wire, a replay sends a
  bounded number of requests, and a search finds exactly the matches there are.
\<close>

section \<open>What a request carries\<close>

definition carries :: "pystr set \<Rightarrow> bytes \<Rightarrow> bool" where
  "carries names raw \<longleftrightarrow> (\<exists>n \<in> set (header_names (fst (split_head_body raw))). lower n \<in> names)"

definition CREDENTIAL_NAMES :: "pystr set" where
  "CREDENTIAL_NAMES = lower ` set CREDENTIAL_HEADERS"

definition OWN_NAMES :: "pystr set" where
  "OWN_NAMES = {u ''host'', u ''content-length''}"

lemma request_carries:
  assumes "request_bytes meth path host headers body = Inr raw" "clean host"
  shows "carries N raw \<Longrightarrow> (\<exists>l \<in> set headers. (\<forall>c \<in> set l. c < 256) \<and> line_name l \<in> N) \<or> N \<inter> OWN_NAMES \<noteq> {}"
proof -
  let ?ls = "tl (raw_lines meth path host headers body)"
  obtain head where h: "split_head_body raw = (head, body)" "header_lines head = map enc ?ls"
    and ok: "\<forall>l \<in> set ?ls. 58 \<in> set l \<and> (\<forall>c \<in> set l. c < 256)"
    by (rule request_lines [OF assms])
  assume "carries N raw"
  then obtain n where "n \<in> set (map lower (header_names head))" "n \<in> N" by (auto simp: carries_def h(1))
  then obtain l where l: "l \<in> set ?ls" "line_name l \<in> N" unfolding header_names_enc [OF h(2) ok] by auto
  then consider "l \<in> set headers" | "l = u ''Host: '' @ host" | "l = u ''Content-Length: '' @ dec_nat (length body)"
    by (auto simp: raw_lines_tl split: if_splits)
  then show ?thesis
  proof cases
    case 1
    with l ok show ?thesis by blast
  qed (use l(2) in \<open>auto simp: OWN_NAMES_def line_name_literals\<close>)
qed

lemma issue_cong:
  assumes "\<And>raw req. request_bytes meth path host headers body = Inr raw \<Longrightarrow> send req raw = send' req raw"
  shows "issue cfg env send rid scheme host port meth path headers body identity cp
    = issue cfg env send' rid scheme host port meth path headers body identity cp"
  using assms by (simp add: issue_def split: sum.split)

text \<open>The tools ask the bridge in one place only.\<close>

lemma other_fields:
  "he_capture (env\<lparr>he_send := s\<rparr>) = he_capture env" "he_register (env\<lparr>he_send := s\<rparr>) = he_register env"
  "he_environ (env\<lparr>he_send := s\<rparr>) = he_environ env" "he_sha (env\<lparr>he_send := s\<rparr>) = he_sha env"
  "he_netloc_ok (env\<lparr>he_send := s\<rparr>) = he_netloc_ok env" "he_readable (env\<lparr>he_send := s\<rparr>) = he_readable env"
  "he_repr (env\<lparr>he_send := s\<rparr>) = he_repr env"
  by simp_all

lemma other_bridge:
  "ensure_identity (env\<lparr>he_send := s\<rparr>) = ensure_identity env"
  "capture_cfg_of (env\<lparr>he_send := s\<rparr>) = capture_cfg_of env"
  "issue_digest (env\<lparr>he_send := s\<rparr>) = issue_digest env"
  "original_of (env\<lparr>he_send := s\<rparr>) = original_of env"
  "declared_all (env\<lparr>he_send := s\<rparr>) = declared_all env"
  by (unfold fun_eq_iff ensure_identity_def capture_cfg_of_def issue_digest_def original_of_def declared_all_def
      undeclared_def base_body_def read_blob_of_def other_fields) simp_all

lemma other_bridge_resolve: "resolve_all (env\<lparr>he_send := s\<rparr>) names = resolve_all env names"
  by (induction names) (simp_all add: other_bridge)

lemma issue_from_cong:
  assumes "\<And>raw req. request_bytes (og_method og) (og_path og) (og_host og) (og_headers og) (og_body og) = Inr raw
      \<Longrightarrow> he_send env k req raw = s k req raw"
  shows "issue_from (env\<lparr>he_send := s\<rparr>) k og ident ctx = issue_from env k og ident ctx"
  by (simp add: issue_from_def other_bridge issue_cong [OF assms] split: prod.split)

section \<open>Sending\<close>

lemma fold_name_small: "\<forall>c \<in> set s. c < 256 \<Longrightarrow> fold_name s = lower s"
  by (induction s) (auto simp: fold_name_def lower_def)

lemma set_strip: "set (strip s) \<subseteq> set s"
  by (auto simp: strip_def rstrip_def lstrip_def dest!: set_dropWhileD)

lemma credential_line_name:
  assumes "\<forall>c \<in> set l. c < 256" "58 \<in> set l"
  shows "credential_line l \<longleftrightarrow> line_name l \<in> CREDENTIAL_NAMES"
proof -
  obtain n f v where p: "partition1 58 l = (n, f, v)" by (metis prod_cases3)
  have f using p assms(2) by (auto simp: partition1_def split: if_splits)
  have "\<forall>c \<in> set (strip n). c < 256" using assms(1) partition1_parts(1) [OF p] set_strip by blast
  then show ?thesis
    using p \<open>f\<close> by (simp add: credential_line_def header_line_name_def line_name_def fold_name_small CREDENTIAL_NAMES_def)
qed

lemma credentials_not_own: "CREDENTIAL_NAMES \<inter> OWN_NAMES = {}"
  by (auto simp: CREDENTIAL_NAMES_def OWN_NAMES_def CREDENTIAL_HEADERS_def lower_def lower1_def literals)

lemma send_carries:
  assumes "\<not> (\<exists>l \<in> set headers. credential_line l)" "clean host" "request_bytes meth path host headers body = Inr raw"
  shows "\<not> carries CREDENTIAL_NAMES raw"
proof
  assume "carries CREDENTIAL_NAMES raw"
  from request_carries [OF assms(3,2) this] credentials_not_own obtain l where
    l: "l \<in> set headers" "\<forall>c \<in> set l. c < 256" "line_name l \<in> CREDENTIAL_NAMES" by blast
  have "58 \<in> set l" using request_bytesE(2) [OF assms(3) l(1)] by (simp add: check_header_line_iff)
  with l credential_line_name assms(1) show False by blast
qed

lemma http_send_cong:
  assumes "clean host" "\<And>req raw. \<not> carries CREDENTIAL_NAMES raw \<Longrightarrow> he_send env 0 req raw = s 0 req raw"
  shows "http_send (env\<lparr>he_send := s\<rparr>) host meth path port scheme headers body identity ctx
    = http_send env host meth path port scheme headers body identity ctx"
proof (cases "find credential_line headers")
  case None
  then have none: "\<not> (\<exists>l \<in> set headers. credential_line l)" by (auto simp: find_None_iff)
  have eq: "issue_from (env\<lparr>he_send := s\<rparr>) 0 \<lparr>og_scheme = scheme, og_host = host, og_port = port, og_method = meth, og_path = path,
      og_headers = headers, og_body = raw\<rparr> ident c = issue_from env 0 \<lparr>og_scheme = scheme, og_host = host, og_port = port,
      og_method = meth, og_path = path, og_headers = headers, og_body = raw\<rparr> ident c" for raw ident c
    by (rule issue_from_cong) (simp add: assms(2) send_carries [OF none assms(1)])
  show ?thesis by (unfold http_send_def other_fields other_bridge eq) (rule refl)
next
  case (Some l)
  then show ?thesis by (simp add: http_send_def refuse_credential_headers_def refuse_def)
qed

section \<open>Replaying\<close>

lemma replayed_name:
  assumes "l \<in> set (replayed_headers ctx raw)"
  shows "line_name l \<notin> set (replay_drops ctx)"
proof -
  from assms obtain line where l: "l = latin1_decode line"
    and ok: "case partition1 58 line of (name, sep, _) \<Rightarrow> sep \<and> lower (strip (latin1_decode name)) \<notin> set (replay_drops ctx)"
    by (auto simp: replayed_headers_def)
  have small: "\<forall>c \<in> set l. c < 256" by (auto simp: l latin1_decode_def word8_less)
  have enc: "enc l = line" by (simp add: l latin1_decode_def o_def)
  obtain n f v where p: "partition1 58 l = (n, f, v)" by (metis prod_cases3)
  have "\<forall>c \<in> set n. c < 256" using partition1_parts(1) [OF p] small by blast
  with ok partition1_enc [OF small p] p show ?thesis by (simp add: enc line_name_def decode_enc)
qed

lemma rpartition1_parts: "rpartition1 c s = (x, f, y) \<Longrightarrow> set x \<subseteq> set s \<and> set y \<subseteq> set s"
  by (auto simp: rpartition1_def split: if_splits dest!: set_takeWhileD)
    (metis list.set_sel(2) set_dropWhileD set_rev tl_Nil empty_iff list.set(1))+

lemma parts_of_host:
  assumes "parts_of repr url raw = Inr (scheme, host, port, path)"
  shows "set host \<subseteq> set url"
proof -
  obtain sc sep rest where p: "partition_at (u ''://'') url = (sc, sep, rest)" by (metis prod_cases3)
  have rest: "set rest \<subseteq> set url"
    using p by (auto simp: partition_at_def split: option.splits dest: in_set_dropD)
  obtain x f h where a: "rpartition1 64 (until [47, 63, 35] rest) = (x, f, h)" by (metis prod_cases3)
  have h: "set h \<subseteq> set url"
    using rpartition1_parts [OF a] rest by (auto simp: until_def dest: set_takeWhileD)
  obtain x' f' y' where b': "rpartition1 58 h = (x', f', y')" by (metis prod_cases3)
  have "host = h \<or> host = x'"
    using assms p a b' by (auto simp: parts_of_def host_and_port_def Let_def split: if_splits)
  with h rpartition1_parts [OF b'] show ?thesis by blast
qed

text \<open>The original of a replay: its headers are a stored request's, less the names that are dropped.\<close>

lemma original_ofD:
  assumes "original_of env xid ctx = (Inr orig, ctx')" "\<forall>x \<in> set (st_exchanges (tx_store ctx)). clean (ex_url x)"
  shows "ctx' = ctx \<and> clean (og_host (or_outgoing orig)) \<and> (\<exists>raw. og_headers (or_outgoing orig) = replayed_headers ctx raw)"
proof -
  let ?find = "find (\<lambda>x. ex_id x = xid \<and> ex_req_blob x \<noteq> None) (st_exchanges (tx_store ctx))"
  obtain x where x: "?find = Some x"
    using assms(1) by (cases ?find) (simp_all add: original_of_def refuse_def)
  obtain raw where raw: "read_blob_of env ctx (the (ex_req_blob x)) None = Inr raw"
  proof (cases "read_blob_of env ctx (the (ex_req_blob x)) None")
    case (Inl e)
    with assms(1) x show ?thesis by (cases e) (simp_all add: original_of_def not_available_def)
  qed (use that in blast)
  obtain base where base: "base_body env ctx x = Inr base"
    using assms(1) x raw by (cases "base_body env ctx x") (simp_all add: original_of_def)
  obtain scheme host port path where parts: "parts_of (he_repr env) (ex_url x) raw = Inr (scheme, host, port, path)"
    using assms(1) x raw base by (cases "parts_of (he_repr env) (ex_url x) raw") (auto simp add: original_of_def refuse_def)
  have orig: "og_host (or_outgoing orig) = host" "og_headers (or_outgoing orig) = replayed_headers ctx raw" "ctx' = ctx"
    using assms(1) x raw base parts
    by (cases "request_bytes (ex_method x) path host (replayed_headers ctx raw) (replayed_body raw)";
        auto simp add: original_of_def refuse_def)+
  have "x \<in> set (st_exchanges (tx_store ctx))" using x by (auto simp: find_Some_iff)
  with assms(2) parts_of_host [OF parts] orig show ?thesis by (auto simp: clean_def)
qed

definition SENT_NAMES :: "run_ctx \<Rightarrow> pystr set" where
  "SENT_NAMES ctx = CREDENTIAL_NAMES \<union> ((\<lambda>(_, d). lower (strip (dl_header d))) ` set (cf_identities (conf ctx)) - OWN_NAMES)"

lemma sent_dropped: "SENT_NAMES ctx \<subseteq> set (replay_drops ctx) - OWN_NAMES"
  using credentials_not_own by (force simp: SENT_NAMES_def replay_drops_def CREDENTIAL_NAMES_def)

lemma replay_carries:
  assumes "original_of env xid ctx = (Inr orig, ctx')" "\<forall>x \<in> set (st_exchanges (tx_store ctx)). clean (ex_url x)"
    and "request_bytes (og_method (or_outgoing orig)) (og_path (or_outgoing orig)) (og_host (or_outgoing orig))
      (og_headers (or_outgoing orig)) (og_body (or_outgoing orig)) = Inr raw"
  shows "\<not> carries (SENT_NAMES ctx) raw"
proof
  note o' = original_ofD [OF assms(1,2)]
  assume "carries (SENT_NAMES ctx) raw"
  moreover have "SENT_NAMES ctx \<inter> OWN_NAMES = {}" using sent_dropped by blast
  ultimately obtain l where l: "l \<in> set (og_headers (or_outgoing orig))" "line_name l \<in> SENT_NAMES ctx"
    using request_carries [OF assms(3) conjunct1 [OF conjunct2 [OF o']]] by blast
  from o' obtain raw' where "og_headers (or_outgoing orig) = replayed_headers ctx raw'" by blast
  with l(1) have "line_name l \<notin> set (replay_drops ctx)" using replayed_name by simp
  with l(2) sent_dropped [of ctx] show False by blast
qed

lemma replay_all_cong:
  assumes "\<And>k req raw. k < n \<Longrightarrow> request_bytes (og_method (or_outgoing orig)) (og_path (or_outgoing orig)) (og_host (or_outgoing orig))
      (og_headers (or_outgoing orig)) (og_body (or_outgoing orig)) = Inr raw \<Longrightarrow> he_send env k req raw = s k req raw"
  shows "k + length plan \<le> n \<Longrightarrow> replay_all (env\<lparr>he_send := s\<rparr>) orig k plan = replay_all env orig k plan"
proof (induction plan arbitrary: k)
  case (Cons p plan)
  have "issue_from (env\<lparr>he_send := s\<rparr>) k (or_outgoing orig) ident ctx = issue_from env k (or_outgoing orig) ident ctx" for ident ctx
    using Cons.prems by (intro issue_from_cong assms) auto
  then have "replay_one (env\<lparr>he_send := s\<rparr>) orig k p = replay_one env orig k p"
    by (unfold replay_one_def fun_eq_iff other_fields other_bridge) simp
  with Cons show ?case by simp
qed simp

text \<open>A bridge that answers \<open>oops\<close> to whatever may never be sent.\<close>

definition barred :: "(nat \<Rightarrow> bytes \<Rightarrow> bool) \<Rightarrow> send_answer \<Rightarrow> http_env \<Rightarrow> http_env" where
  "barred bad trap env = env\<lparr>he_send := (\<lambda>k req raw. if bad k raw then trap else he_send env k req raw)\<rparr>"

lemma replay_barred:
  assumes "\<forall>x \<in> set (st_exchanges (tx_store ctx)). clean (ex_url x)"
  shows "http_replay_as (barred (\<lambda>k raw. 9 \<le> k \<or> carries (SENT_NAMES ctx) raw) trap env) xid wanted anonymous ctx
    = http_replay_as env xid wanted anonymous ctx"
proof -
  let ?env = "barred (\<lambda>k raw. 9 \<le> k \<or> carries (SENT_NAMES ctx) raw) trap env"
  have step: "sbind (original_of ?env xid) f ctx = sbind (original_of env xid) g ctx"
    if "\<And>orig. original_of env xid ctx = (Inr orig, ctx) \<Longrightarrow> f orig ctx = g orig ctx" for f g :: "original \<Rightarrow> json handler"
  proof (cases "original_of env xid ctx")
    case (Pair r c)
    with that show ?thesis
      by (cases r) (auto simp: barred_def other_bridge sbind_def dest: original_ofD [OF _ assms])
  qed
  show ?thesis
    unfolding http_replay_as_def
  proof (rule step)
    fix orig assume orig: "original_of env xid ctx = (Inr orig, ctx)"
    let ?plan = "\<lambda>resolved. zip (map Some wanted) (map Some resolved) @ (if anonymous then [(None, None)] else [])"
    have rows: "replay_all ?env orig 0 (?plan resolved) = replay_all env orig 0 (?plan resolved)"
      if "length wanted \<le> MAX_IDENTITIES" for resolved :: "(pystr \<times> int) list"
      unfolding barred_def
    proof (rule replay_all_cong)
      show "he_send env k req raw = (if 9 \<le> k \<or> carries (SENT_NAMES ctx) raw then trap else he_send env k req raw)"
        if "k < 9" "request_bytes (og_method (or_outgoing orig)) (og_path (or_outgoing orig)) (og_host (or_outgoing orig))
          (og_headers (or_outgoing orig)) (og_body (or_outgoing orig)) = Inr raw" for k req raw
        using that replay_carries [OF orig assms] by auto
      show "0 + length (?plan resolved) \<le> 9" using that by (auto simp: MAX_IDENTITIES_def min_def)
    qed
    have others: "declared_all ?env = declared_all env" "\<And>names. resolve_all ?env names = resolve_all env names"
      by (simp_all add: barred_def other_bridge other_bridge_resolve)
    show "(if wanted = [] \<and> \<not> anonymous then
         refuse ''bad_args'' (u ''no identities and include_anonymous is false, so there is nothing to replay. Name at least one declared identity, or set include_anonymous to compare against no session at all.'')
       else if length wanted > MAX_IDENTITIES then
         refuse ''bad_args'' (dec_nat (length wanted) @ u '' identities is more than the '' @ dec_nat MAX_IDENTITIES
           @ u '' one replay may put on a client's application. Split the call.'')
       else
         sbind (declared_all ?env wanted) (\<lambda>_.
         sbind (resolve_all ?env wanted) (\<lambda>resolved.
         sbind (replay_all ?env orig 0 (?plan resolved)) (\<lambda>rows.
           paged (page rows (int (length rows)) MAX_LIMIT None
             [jfield ''original'' (JStr xid), jfield ''original_status'' (jopt JInt (or_status orig)),
              jfield ''original_body_stored'' (JBool (or_body orig \<noteq> None))]))))) ctx
      = (if wanted = [] \<and> \<not> anonymous then
         refuse ''bad_args'' (u ''no identities and include_anonymous is false, so there is nothing to replay. Name at least one declared identity, or set include_anonymous to compare against no session at all.'')
       else if length wanted > MAX_IDENTITIES then
         refuse ''bad_args'' (dec_nat (length wanted) @ u '' identities is more than the '' @ dec_nat MAX_IDENTITIES
           @ u '' one replay may put on a client's application. Split the call.'')
       else
         sbind (declared_all env wanted) (\<lambda>_.
         sbind (resolve_all env wanted) (\<lambda>resolved.
         sbind (replay_all env orig 0 (?plan resolved)) (\<lambda>rows.
           paged (page rows (int (length rows)) MAX_LIMIT None
             [jfield ''original'' (JStr xid), jfield ''original_status'' (jopt JInt (or_status orig)),
              jfield ''original_body_stored'' (JBool (or_body orig \<noteq> None))]))))) ctx"
    proof (cases "length wanted \<le> MAX_IDENTITIES")
      case True
      show ?thesis unfolding others rows [OF True] by (rule refl)
    next
      case False
      then show ?thesis by simp
    qed
  qed
qed


definition quiet_env :: http_env where
  "quiet_env =
     \<lparr>he_capture = (\<lambda>_. sample_env), he_send = (\<lambda>_ _ _. SendCrashed (u ''OSError'') []), he_register = (\<lambda>_. Registered), he_environ = [],
      he_sha = (\<lambda>_. []), he_netloc_ok = (\<lambda>_. True), he_readable = (\<lambda>_. True), he_repr = (\<lambda>t. t)\<rparr>"


text \<open>With no run to file under, what the bridge answered is not filed: the call fails after the request has left.\<close>

lemma file_exchange_needs_run: "file_exchange nid ns e n a rid s = (Inr x, s') \<Longrightarrow> rid \<in> set (run_ids s)"
proof -
  assume "file_exchange nid ns e n a rid s = (Inr x, s')"
  then obtain xid s1 sid s2 where "record_exchange nid a s = (Inr xid, s1)"
    and up: "upsert_surface ns e n xid rid (xa_via a) (count_request rid s1) = (Inr sid, s2)"
    by (auto simp: file_exchange_def transaction_def sbind_def split: prod.splits sum.splits)
  then have "run_ids s1 = run_ids s" by (auto simp: record_exchange_def run_ids_def split: if_splits)
  moreover have "run_ids (count_request rid s1) = run_ids s1"
    by (simp add: count_request_def update_runs_def run_ids_def)
  moreover have "rid \<in> set (run_ids (count_request rid s1))"
    using up by (auto simp: upsert_surface_def Let_def split: option.splits if_splits)
  ultimately show ?thesis by simp
qed

lemma file_answer_needs_run:
  assumes "rid \<notin> set (run_ids (cp_store cp))"
  shows "\<exists>e cp'. file_answer cfg env rid identity meth url raw h response cp = (Inl e, cp')"
proof (rule ccontr)
  assume "\<nexists>e cp'. file_answer cfg env rid identity meth url raw h response cp = (Inl e, cp')"
  then obtain i cp' where f: "file_answer cfg env rid identity meth url raw h response cp = (Inr i, cp')"
    by (metis obj_sumE prod.exhaust)
  have pureD: "pure m c = (Inr y, c') \<Longrightarrow> c' = c" for m :: "store_exc + 'x" and y c c'
    by (auto simp: pure_def split: sum.splits)
  from f obtain norm req n1 c1 resp n2 c2 xid a where
    req: "on_blobs (put_blob (cc_sha cfg) (ce_req env) raw) cp = (Inr (req, n1), c1)" and
    resp: "put_body cfg (ce_resp env) response c1 = (Inr (resp, n2), c2)" and
    fin: "on_store (file_exchange (ce_row env) (ce_surface env) (cc_engagement cfg) norm a rid) c2 = (Inr xid, cp')"
    unfolding file_answer_def by (elim sbind_InrE) (auto dest!: pureD elim!: sbind_InrE split: prod.splits)
  have "cp_store c2 = cp_store cp"
    using put_body_store [OF resp] req by (auto simp: on_blobs_def split: prod.splits sum.splits)
  with fin assms show False
    by (auto simp: on_store_def split: prod.splits sum.splits dest: file_exchange_needs_run)
qed

lemma issue_needs_run:
  assumes "rid \<notin> set (run_ids (cp_store cp))"
  shows "\<exists>e cp'. issue cfg env send rid scheme host port meth path headers body identity cp = (Inl e, cp') \<and> cp_store cp' = cp_store cp"
proof (cases "request_bytes meth path host headers body")
  case (Inr raw)
  let ?ans = "send \<lparr>sq_host = host, sq_port = port, sq_tls = (scheme = u ''https''), sq_identity = map_option fst identity\<rparr> raw"
  show ?thesis
  proof (cases ?ans)
    case (Answered h response)
    obtain e cp' where f: "file_answer cfg env rid identity meth (url_of scheme host port path) raw h response cp = (Inl e, cp')"
      using file_answer_needs_run [OF assms] by blast
    with Inr Answered file_answer_Inl [OF f] show ?thesis by (simp add: issue_def)
  qed (simp_all add: issue_def Inr)
qed (simp add: issue_def)

lemma send_without_run:
  assumes "fst (ctx_run_id ctx) = None" "[] \<notin> set (run_ids (tx_store ctx))"
  shows "isl (fst (issue_from env k og ident ctx)) \<and> tx_store (snd (issue_from env k og ident ctx)) = tx_store ctx"
proof -
  obtain c where c: "ctx_run_id ctx = (None, c)" using assms(1) by (cases "ctx_run_id ctx") simp
  then have s: "tx_store c = tx_store ctx"
    by (auto simp: ctx_run_id_def ctx_open_runs_def Let_def split: option.splits prod.splits)
  obtain e cp' where "issue (capture_cfg_of env c) (he_capture env k) (he_send env k) [] (og_scheme og) (og_host og) (og_port og) (og_method og)
      (og_path og) (og_headers og) (og_body og) ident \<lparr>cp_store = tx_store c, cp_blobs = tx_blobs c\<rparr> = (Inl e, cp') \<and> cp_store cp' = tx_store c"
    using issue_needs_run [of "[]" "\<lparr>cp_store = tx_store c, cp_blobs = tx_blobs c\<rparr>"] assms(2) s by fastforce
  then show ?thesis by (simp add: issue_from_def c s)
qed

section \<open>Searching\<close>

definition occurs :: "bytes \<Rightarrow> bytes \<Rightarrow> nat \<Rightarrow> bool" where
  "occurs needle hay i \<longleftrightarrow> startswith needle (drop i hay)"

lemma find_all_step:
  assumes "needle \<noteq> []"
  shows "find_all needle at hay =
    (case py_find needle hay of None \<Rightarrow> [] | Some i \<Rightarrow> (at + i) # find_all needle (at + i + length needle) (drop (i + length needle) hay))"
  using assms by (subst find_all.simps) (simp split: option.split)

lemma find_all_spec:
  "needle \<noteq> [] \<Longrightarrow>
    (\<forall>i \<in> set (find_all needle at hay). at \<le> i \<and> occurs needle hay (i - at))
    \<and> sorted_wrt (\<lambda>i j. i + length needle \<le> j) (find_all needle at hay)
    \<and> (\<forall>i. occurs needle hay i \<longrightarrow> (\<exists>j \<in> set (find_all needle at hay). j \<le> at + i \<and> at + i < j + length needle))"
proof (induction needle at hay rule: find_all.induct)
  case (1 needle at hay)
  show ?case
  proof (cases "py_find needle hay")
    case None
    with 1(2) show ?thesis by (simp add: find_all_step occurs_def py_find_None)
  next
    case (Some i)
    let ?n = "length needle"
    let ?rest = "find_all needle (at + i + ?n) (drop (i + ?n) hay)"
    note IH = 1(1) [OF Some 1(2) 1(2)]
    have unf: "find_all needle at hay = (at + i) # ?rest" using Some 1(2) by (simp add: find_all_step)
    have "occurs needle hay i" using py_find_Some [OF Some] by (simp add: occurs_def)
    moreover have "at \<le> j \<and> occurs needle hay (j - at) \<and> at + i + ?n \<le> j" if "j \<in> set ?rest" for j
    proof -
      from IH that have j: "at + i + ?n \<le> j" "startswith needle (drop (j - (at + i + ?n)) (drop (i + ?n) hay))"
        by (auto simp: occurs_def)
      then have "j - (at + i + ?n) + (i + ?n) = j - at" by simp
      with j show ?thesis by (simp add: occurs_def)
    qed
    moreover have "\<exists>j \<in> set (find_all needle at hay). j \<le> at + k \<and> at + k < j + ?n" if k: "occurs needle hay k" for k
    proof -
      have "i \<le> k" using py_find_least [OF Some, of k] k by (auto simp: occurs_def not_less [symmetric])
      show ?thesis
      proof (cases "k < i + ?n")
        case True
        with \<open>i \<le> k\<close> show ?thesis unfolding unf by (intro bexI [of _ "at + i"]) auto
      next
        case False
        then have "occurs needle (drop (i + ?n) hay) (k - (i + ?n))" using k by (simp add: occurs_def)
        with IH obtain j where "j \<in> set ?rest" "j \<le> at + i + ?n + (k - (i + ?n))" "at + i + ?n + (k - (i + ?n)) < j + ?n" by blast
        with False show ?thesis unfolding unf by (intro bexI [of _ j]) auto
      qed
    qed
    ultimately show ?thesis using IH unfolding unf by auto
  qed
qed

text \<open>The search of \<open>http.grep\<close> reports, for a pattern that is not empty, offsets where the pattern stands, in order and
  not overlapping, and every place where the pattern stands overlaps one it reports: nothing is invented and nothing missed.\<close>

theorem search_is_exact:
  assumes "needle \<noteq> []"
  shows "(\<forall>i \<in> set (find_all needle 0 hay). occurs needle hay i)
    \<and> sorted_wrt (\<lambda>i j. i + length needle \<le> j) (find_all needle 0 hay)
    \<and> (\<forall>i. occurs needle hay i \<longrightarrow> (\<exists>j \<in> set (find_all needle 0 hay). j \<le> i \<and> i < j + length needle))"
  using find_all_spec [OF assms, of 0 hay] by auto

end
