(* ===== verification/Coverage.thy ===== *)
theory Coverage
  imports Active Config
begin

text \<open>
  What the engagement covered, \<open>src/hx/coverage.py\<close>: the facts the report and the tools read off the store. A join
  with \<open>run\<close> keeps the rows of the engagement's own runs.
\<close>

definition ANSWERED :: "pystr list" where
  "ANSWERED = map u [''clean'', ''finding'', ''inconclusive'', ''error'']"

record coverage =
  cv_captured :: nat
  cv_scanned :: bool
  cv_unfinished :: "run_row list"
  cv_untested :: "(pystr \<times> pystr) list"
  cv_by_check :: "((pystr \<times> pystr) \<times> nat) list"
  cv_reasons :: "pystr \<times> pystr \<Rightarrow> pystr list"

definition runs_of :: "store \<Rightarrow> pystr \<Rightarrow> run_row list" where
  "runs_of s eid = filter (\<lambda>r. run_engagement r = eid) (st_runs s)"

definition surfaces_of :: "store \<Rightarrow> pystr \<Rightarrow> surface_row list" where
  "surfaces_of s eid = filter (\<lambda>sf. sf_engagement sf = eid) (st_surfaces s)"

definition check_rows_of :: "store \<Rightarrow> pystr \<Rightarrow> check_run_row list" where
  "check_rows_of s eid = filter (\<lambda>c. cr_run c \<in> run_id ` set (runs_of s eid)) (st_check_runs s)"

definition unfinished_runs :: "store \<Rightarrow> pystr \<Rightarrow> run_row list" where
  "unfinished_runs s eid =
     sort_key run_started_us (sort_key run_id (filter (\<lambda>r. run_status r \<noteq> u ''completed'') (runs_of s eid)))"

definition has_answer :: "store \<Rightarrow> pystr \<Rightarrow> surface_row \<Rightarrow> bool" where
  "has_answer s eid sf \<longleftrightarrow>
     (\<exists>c \<in> set (check_rows_of s eid). cr_surface c = Some (sf_id sf) \<and> cr_verdict c \<in> set ANSWERED)"

definition untested_surfaces :: "store \<Rightarrow> pystr \<Rightarrow> (pystr \<times> pystr) list" where
  "untested_surfaces s eid =
     map (\<lambda>sf. (sf_method sf, sf_path_template sf))
       (sort_key sf_path_template (sort_key sf_method (sort_key sf_id (filter (\<lambda>sf. \<not> has_answer s eid sf) (surfaces_of s eid)))))"

text \<open>\<open>COUNT(DISTINCT surface_id)\<close>, which leaves out the rows of no surface.\<close>

definition distinct_surfaces :: "check_run_row list \<Rightarrow> nat" where
  "distinct_surfaces rows = length (remdups (List.map_filter cr_surface rows))"

definition answer_key :: "check_run_row \<Rightarrow> pystr \<times> pystr" where
  "answer_key c = (cr_check c, cr_verdict c)"

definition by_check :: "store \<Rightarrow> pystr \<Rightarrow> ((pystr \<times> pystr) \<times> nat) list" where
  "by_check s eid =
     (let rows = check_rows_of s eid in
      map (\<lambda>k. (k, distinct_surfaces (filter (\<lambda>c. answer_key c = k) rows)))
        (sort_key fst (sort_key snd (remdups (map answer_key rows)))))"

text \<open>The distinct reasons of one check and verdict, the most widespread first.\<close>

definition reasons_of :: "store \<Rightarrow> pystr \<Rightarrow> pystr \<times> pystr \<Rightarrow> pystr list" where
  "reasons_of s eid k =
     (let rows = filter (\<lambda>c. answer_key c = k \<and> cr_reason c \<noteq> None \<and> cr_reason c \<noteq> Some []) (check_rows_of s eid) in
      sort_key (\<lambda>t. - int (distinct_surfaces (filter (\<lambda>c. cr_reason c = Some t) rows)))
        (sort (remdups (List.map_filter cr_reason rows))))"

definition facts :: "store \<Rightarrow> pystr \<Rightarrow> coverage" where
  "facts s eid =
     \<lparr>cv_captured = length (surfaces_of s eid), cv_scanned = (check_rows_of s eid \<noteq> []), cv_unfinished = unfinished_runs s eid,
      cv_untested = untested_surfaces s eid, cv_by_check = by_check s eid, cv_reasons = reasons_of s eid\<rparr>"

section \<open>The shipped corpus\<close>

text \<open>The declarations of the registry's checks do not depend on what the checks are given.\<close>

definition SHIPPED :: "check_decl list" where
  "SHIPPED = map ck_decl (CHECKS (\<lambda>_. Inl CorruptBlob) (\<lambda>_. True) (\<lambda>n. n) (\<lambda>t. t))"

definition unshipped_classes :: "config \<Rightarrow> pystr list" where
  "unshipped_classes c =
     sort (map fst (filter (\<lambda>(k, on). on \<and> k \<notin> cd_class ` set SHIPPED) (cf_checks c)))"

end
