(* ===== verification/Report.thy ===== *)
theory Report
  imports Coverage
begin

text \<open>
  The client's report, \<open>src/hx/report.py\<close>: a list of lines built from the store, joined by newlines. The rows of the
  tables the rest of the development has no use for are arguments, and so are SHA-256, the YAML printer and the reading of a blob.
\<close>

section \<open>Text on a line\<close>

definition DASH :: pystr where
  "DASH = [0x2014]"

definition DOT :: pystr where
  "DOT = [0xB7]"

definition ARROW :: pystr where
  "ARROW = [0x2192]"

definition ELLIPSIS :: pystr where
  "ELLIPSIS = [0x2026]"

definition SEVERITY_ORDER :: "pystr list" where
  "SEVERITY_ORDER = map u [''Critical'', ''High'', ''Medium'', ''Low'', ''Info'']"

definition EVIDENCE_LIMIT :: nat where
  "EVIDENCE_LIMIT = 5"

definition UNTESTED_LIMIT :: nat where
  "UNTESTED_LIMIT = 20"

definition REASON_LIMIT :: nat where
  "REASON_LIMIT = 2"

text \<open>A carriage return with its newline, a newline and a carriage return each become one space.\<close>

fun flat :: "pystr \<Rightarrow> pystr" where
  "flat [] = []"
| "flat (c # s) =
     (if c = 13 then (case s of [] \<Rightarrow> [32] | d # s' \<Rightarrow> if d = 10 then 32 # flat s' else 32 # flat s)
      else if c = 10 then 32 # flat s
      else c # flat s)"

fun longest_run :: "nat \<Rightarrow> nat \<Rightarrow> pystr \<Rightarrow> nat" where
  "longest_run run best [] = best"
| "longest_run run best (c # s) =
     (let run' = if c = 96 then run + 1 else 0 in longest_run run' (max best run') s)"

definition code_span :: "pystr \<Rightarrow> pystr" where
  "code_span val =
     (let text = flat val;
          fence = replicate (longest_run 0 0 text + 1) 96;
          pad = (if text = [] \<or> hd text = 96 \<or> last text = 96 then [32] else [])
      in fence @ pad @ text @ pad @ fence)"

definition cell :: "pystr \<Rightarrow> pystr" where
  "cell val = concat (map (\<lambda>c. if c = 92 then [92, 92] else if c = 124 then [92, 124] else [c]) (flat val))"

text \<open>\<open>None\<close> is no text.\<close>

definition or_none :: "(pystr \<Rightarrow> pystr) \<Rightarrow> pystr option \<Rightarrow> pystr" where
  "or_none f x = (case x of None \<Rightarrow> [] | Some t \<Rightarrow> f t)"

definition given :: "pystr option \<Rightarrow> bool" where
  "given x \<longleftrightarrow> x \<noteq> None \<and> x \<noteq> Some []"

text \<open>A day number of \<open>datetime\<close> as year, month and day: by 400-year, 100-year, 4-year and 1-year cycles, then by month.\<close>

definition leap :: "int \<Rightarrow> bool" where
  "leap y \<longleftrightarrow> y mod 4 = 0 \<and> (y mod 100 \<noteq> 0 \<or> y mod 400 = 0)"

definition month_days :: "int \<Rightarrow> int list" where
  "month_days y = [31, if leap y then 29 else 28, 31, 30, 31, 30, 31, 31, 30, 31, 30, 31]"

fun month_day :: "int \<Rightarrow> int list \<Rightarrow> int \<Rightarrow> int \<times> int" where
  "month_day m [] n = (m, n + 1)"
| "month_day m (d # ds) n = (if n < d \<or> ds = [] then (m, n + 1) else month_day (m + 1) ds (n - d))"

definition ord2ymd :: "int \<Rightarrow> int \<times> int \<times> int" where
  "ord2ymd ordinal =
     (let n = ordinal - 1; n400 = n div 146097; r400 = n mod 146097;
          n100 = r400 div 36524; r100 = r400 mod 36524;
          n4 = r100 div 1461; r4 = r100 mod 1461;
          n1 = r4 div 365; r1 = r4 mod 365;
          year = 400 * n400 + 100 * n100 + 4 * n4 + n1 + 1
      in if n1 = 4 \<or> n100 = 4 then (year - 1, 12, 31)
         else case month_day 1 (month_days year) r1 of (m, d) \<Rightarrow> (year, m, d))"

definition two_digits :: "int \<Rightarrow> pystr" where
  "two_digits n = (if n < 10 then [48] else []) @ dump_int n"

definition utc :: "int \<Rightarrow> pystr" where
  "utc us =
     (let secs = us div 1000000; day = secs div 86400; t = secs mod 86400 in
      case ord2ymd (day + 719163) of (y, m, d) \<Rightarrow>
        dump_int y @ u ''-'' @ two_digits m @ u ''-'' @ two_digits d @ u '' '' @ two_digits (t div 3600) @ u '':''
          @ two_digits (t mod 3600 div 60) @ u '':'' @ two_digits (t mod 60) @ u ''Z'')"

definition utc_opt :: "int option \<Rightarrow> pystr" where
  "utc_opt us = (case us of None \<Rightarrow> u ''unknown'' | Some t \<Rightarrow> utc t)"

section \<open>What is read\<close>

record engagement_row =
  eg_id :: pystr
  eg_name :: pystr
  eg_client :: pystr
  eg_created_us :: int

record scope_row =
  sv_id :: pystr
  sv_engagement :: pystr
  sv_sha256 :: pystr
  sv_effective_us :: int
  sv_author :: pystr
  sv_reason :: "pystr option"

record authorization_row =
  au_engagement :: pystr
  au_signatory :: "pystr option"
  au_doc_sha256 :: "pystr option"
  au_valid_from_us :: "int option"
  au_valid_to_us :: "int option"
  au_scope_sha256 :: "pystr option"

text \<open>\<open>rp_run_scope\<close> is the column \<open>run.scope_version_id\<close>; \<open>rp_str\<close> is \<open>str\<close> of an identity's name that is not a string.\<close>

record report_env =
  rp_store :: store
  rp_engagements :: "engagement_row list"
  rp_scopes :: "scope_row list"
  rp_authorizations :: "authorization_row list"
  rp_run_scope :: "pystr \<Rightarrow> pystr option"
  rp_read_blob :: "(pystr \<Rightarrow> blob_exc + bytes) option"
  rp_netloc_ok :: "pystr \<Rightarrow> bool"
  rp_sha_text :: "pystr \<Rightarrow> pystr"
  rp_safe_dump :: "yaml \<Rightarrow> pystr"
  rp_str :: "yaml \<Rightarrow> pystr"

definition my_runs :: "report_env \<Rightarrow> pystr \<Rightarrow> run_row list" where
  "my_runs env eid = runs_of (rp_store env) eid"

definition active_shipped :: "check_decl list" where
  "active_shipped = filter (\<lambda>c. cd_class c \<noteq> u ''passive'') SHIPPED"

definition passive_shipped :: "check_decl list" where
  "passive_shipped = filter (\<lambda>c. cd_class c = u ''passive'') SHIPPED"

definition check_names :: "check_decl list \<Rightarrow> pystr" where
  "check_names checks = join (u '', '') (map (\<lambda>c. u ''`'' @ cd_id c @ u ''`'') checks)"

section \<open>Provenance\<close>

definition min_of :: "int list \<Rightarrow> int option" where
  "min_of xs = (if xs = [] then None else Some (fold min xs (hd xs)))"

definition max_of :: "int list \<Rightarrow> int option" where
  "max_of xs = (if xs = [] then None else Some (fold max xs (hd xs)))"

definition window_lines :: "run_row list \<Rightarrow> pystr list" where
  "window_lines runs =
     (let total_runs = length runs; first_us = min_of (map run_started_us runs);
          last_end_us = max_of (List.map_filter run_ended_us runs);
          endless = length (filter (\<lambda>r. run_ended_us r = None) runs);
          in_flight = length (filter (\<lambda>r. run_ended_us r = None \<and> running r) runs);
          span = (if last_end_us = None then u ''**Not one of them has a recorded end.**'' else u ''**'' @ dec_nat endless @ u '' run(s) here carry no recorded end**, and the latest run that did end ended '' @ utc_opt last_end_us @ u ''.'');
          tail = (if in_flight > 0 then u '' **This assessment window is therefore still open**: '' @ dec_nat in_flight @ u '' of those runs had not ended when this report was rendered, so traffic captured after it '' @ DASH @ u '' including traffic arriving while it was being written '' @ DASH @ u '' falls inside the window too.'' else u '' Nothing here establishes when observation stopped, so this window must not be quoted as a closed one.'')
      in if total_runs > 0 \<and> endless = 0 then
           [dec_nat total_runs @ u '' run(s) recorded, the earliest starting '' @ utc_opt first_us @ u '' and the latest ending '' @ utc_opt last_end_us @ u ''. That window is the assessment: nothing outside it was observed, and this report says nothing about the application before or after it.'' @ [10]]
         else if total_runs > 0 then
           [dec_nat total_runs @ u '' run(s) recorded, the earliest starting '' @ utc_opt first_us @ u ''. '' @ span @ tail @ u '' Nothing before that earliest start was observed, and this report says nothing about the application before it.'' @ [10]]
         else
           [u ''**No run has been recorded for this engagement.** Nothing below was observed by this tool.'' @ [10]])"

definition unfinished_line :: "run_row \<Rightarrow> pystr" where
  "unfinished_line r =
     u ''- run `'' @ flat (run_id r) @ u ''` ('' @ flat (run_kind r) @ u '', started '' @ utc (run_started_us r) @ u '') ended `'' @ flat (run_status r) @ u ''`''
     @ (case run_stop_reason r of
          Some why \<Rightarrow> if why = [] then u '' and recorded no stop reason'' else u '' '' @ DASH @ u '' stop reason: '' @ flat (redact_url why)
        | None \<Rightarrow> u '' and recorded no stop reason'')"

definition unfinished_lines :: "run_row list \<Rightarrow> pystr list" where
  "unfinished_lines unfinished =
     (if unfinished = [] then []
      else [u ''**'' @ dec_nat (length unfinished) @ u '' of those runs did not finish.** Everything this report draws from them is what they had reached when they stopped, not what a completed run would have produced.'' @ [10]] @ map unfinished_line unfinished @ [[]])"

definition runs_under :: "report_env \<Rightarrow> scope_row \<Rightarrow> nat" where
  "runs_under env sv = length (filter (\<lambda>r. rp_run_scope env (run_id r) = Some (sv_id sv)) (st_runs (rp_store env)))"

definition scope_versions :: "report_env \<Rightarrow> pystr \<Rightarrow> scope_row list" where
  "scope_versions env eid = sort_key sv_effective_us (filter (\<lambda>sv. sv_engagement sv = eid) (rp_scopes env))"

definition scope_table :: "report_env \<Rightarrow> scope_row list \<Rightarrow> pystr list" where
  "scope_table env versions =
     [dec_nat (length versions) @ u '' scope version(s) are on file, in the order they took effect. The table is append-only and cannot be rewritten, so a second row means the boundary MOVED during the engagement and traffic captured before it was governed by the row above.'' @ [10], u ''| Effective from (UTC) | `scope_version.sha256` | Author | Runs | Reason |'', u ''|---|---|---|---|---|'']
     @ map (\<lambda>sv. u ''| '' @ utc (sv_effective_us sv) @ u '' | `'' @ cell (sv_sha256 sv) @ u ''` | '' @ cell (redact_url (sv_author sv)) @ u '' | '' @ dec_nat (runs_under env sv) @ u '' | '' @ or_none (\<lambda>t. cell (redact_url t)) (sv_reason sv) @ u '' |'') versions
     @ [[]]"

definition unstamped_lines :: "report_env \<Rightarrow> pystr \<Rightarrow> scope_row list \<Rightarrow> pystr list" where
  "unstamped_lines env eid versions =
     (let runs = my_runs env eid; total_runs = length runs;
          unstamped = length (filter (\<lambda>r. rp_run_scope env (run_id r) = None) runs);
          shown = sum_list (map (runs_under env) versions);
          how_many = (if unstamped = total_runs then u ''All '' @ dec_nat total_runs @ u '' run(s) recorded for this engagement carry'' else dec_nat unstamped @ u '' of the '' @ dec_nat total_runs @ u '' run(s) recorded carry'')
      in if unstamped = 0 then []
         else [how_many @ u '' no `scope_version_id`, so which of the rows above was in force for them cannot be read off this store. '' @ (if shown = 0 then u ''Every `Runs` count above is 0 for that reason alone: it is a missing link, not an absence of runs.'' @ [10] else u ''The `Runs` column above accounts for '' @ dec_nat shown @ u '' run(s), so a 0 in a row means no STAMPED run named that version.'' @ [10])])"

definition scope_digest :: "report_env \<Rightarrow> config \<Rightarrow> pystr" where
  "scope_digest env c = rp_sha_text env (config_dumps (rp_safe_dump env) c)"

definition boundary_lines :: "scope_row list \<Rightarrow> pystr \<Rightarrow> pystr list" where
  "boundary_lines versions digest' =
     (let matched = filter (\<lambda>i. sv_sha256 (versions ! i) = digest') [0..<length versions] in
      if matched \<noteq> [] \<and> last matched = length versions - 1 then
        [u ''The patterns below are the newest version in that table, `'' @ digest' @ u ''` '' @ DASH @ u '' verified, not assumed: the configuration this report was rendered from hashes to that row.'' @ [10]]
      else if matched \<noteq> [] then
        (let at = last matched in
         [u ''**The patterns below are a SUPERSEDED scope version.** They are the configuration this report was rendered from, and it hashes to `'' @ digest' @ u ''` '' @ DASH @ u '' the scope version above effective from '' @ utc (sv_effective_us (versions ! at)) @ u '', which stopped being the boundary on '' @ utc (sv_effective_us (versions ! (at + 1))) @ u '' when the next row took effect. They WERE a recorded boundary, but not the one in force at the end of this engagement: read that off the last row of the table above.'' @ [10]])
      else if versions \<noteq> [] then
        [u ''**The patterns below are NOT the scope of record.** They are the configuration this report was rendered from, and it hashes to `'' @ digest' @ u ''`, which matches no row above. Read the boundary off the recorded versions.'' @ [10]]
      else
        [u ''**No scope version is recorded for this engagement.** The patterns below are the configuration this report was rendered from (`'' @ digest' @ u ''`); nothing in this store establishes that they were the boundary when the traffic was captured.'' @ [10]])"

definition scope_of_record :: "report_env \<Rightarrow> pystr \<Rightarrow> config \<Rightarrow> pystr list" where
  "scope_of_record env eid c =
     (let versions = scope_versions env eid in
      [u ''### Scope of record'' @ [10]]
      @ (if versions = [] then [] else scope_table env versions @ unstamped_lines env eid versions)
      @ boundary_lines versions (scope_digest env c)
      @ map (\<lambda>pattern. u ''- '' @ code_span (redact_url pattern)) (cf_scope_include c)
      @ map (\<lambda>pattern. u ''- excluded: '' @ code_span (redact_url pattern)) (cf_scope_exclude c)
      @ [[]])"

text \<open>\<open>ORDER BY valid_from_us\<close>: a missing one comes first.\<close>

definition authorizations_of :: "report_env \<Rightarrow> pystr \<Rightarrow> authorization_row list" where
  "authorizations_of env eid =
     (let rows = filter (\<lambda>a. au_engagement a = eid) (rp_authorizations env) in
      filter (\<lambda>a. au_valid_from_us a = None) rows
      @ sort_key (\<lambda>a. the (au_valid_from_us a)) (filter (\<lambda>a. au_valid_from_us a \<noteq> None) rows))"

definition none_empty :: "pystr option \<Rightarrow> pystr" where
  "none_empty x = (case x of None \<Rightarrow> [] | Some t \<Rightarrow> t)"

definition authorization_lines :: "report_env \<Rightarrow> pystr \<Rightarrow> pystr list" where
  "authorization_lines env eid =
     (let rows = authorizations_of env eid in
      [u ''### Authorization'' @ [10]]
      @ (if rows = [] then
           [u ''**No authorization record is on file for this engagement.** The `authorization` table in this store holds no row for it: the client's written permission, if any was given, is held outside this store and is not part of this deliverable. Read nothing above as evidence that testing was authorised.'' @ [10]]
         else
           [u ''| Valid from (UTC) | Valid to (UTC) | Signatory | `doc_sha256` | `scope_sha256` |'', u ''|---|---|---|---|---|'']
           @ map (\<lambda>a. u ''| '' @ utc_opt (au_valid_from_us a) @ u '' | '' @ utc_opt (au_valid_to_us a) @ u '' | '' @ or_none (\<lambda>t. cell (redact_url t)) (au_signatory a) @ u '' | '' @ cell (code_span (none_empty (au_doc_sha256 a))) @ u '' | '' @ cell (code_span (none_empty (au_scope_sha256 a))) @ u '' |'') rows
           @ [[]]))"

section \<open>Session identity\<close>

definition identity_runs :: "report_env \<Rightarrow> pystr \<Rightarrow> run_row list" where
  "identity_runs env eid =
     sort_key run_started_us (sort_key run_id (filter (\<lambda>r. run_identity r \<noteq> None) (my_runs env eid)))"

definition halted_lines :: "run_row list \<Rightarrow> pystr list" where
  "halted_lines rows =
     (let stopped = filter (\<lambda>r. run_identity_state r = Some (u ''dead'')) rows in
      if stopped = [] then []
      else [u ''**'' @ dec_nat (length stopped) @ u '' run(s) stopped because the session being tested under stopped being valid.** hx halts rather than carrying on logged out: an unauthenticated run of an authenticated application answers `clean` about a view none of its users are in. Everything those runs had reached is in this report and everything after the halt was never attempted, so read their coverage as partial:'' @ [10]]
        @ map (\<lambda>r. u ''- run `'' @ flat (run_id r) @ u ''` ('' @ flat (run_kind r) @ u '', started '' @ utc (run_started_us r) @ u '') was testing as '' @ code_span (redact_url (none_empty (run_identity r))) @ u '' and ended `'' @ flat (run_status r) @ u ''`'') stopped
        @ [[]])"

definition ident_text :: "report_env \<Rightarrow> yaml \<Rightarrow> pystr" where
  "ident_text env name = (case name of YStr s \<Rightarrow> s | _ \<Rightarrow> rp_str env name)"

definition outcome_cell :: "run_row list \<Rightarrow> pystr" where
  "outcome_cell mine =
     (let count = (\<lambda>state. length (filter (\<lambda>r. run_identity_state r = Some state) mine));
          states = filter (\<lambda>state. count state > 0) (map u [''proven'', ''assumed'', ''dead''])
      in if states = [] then u ''never used''
         else join (u '', '') (map (\<lambda>state. state @ u '' ('' @ dec_nat (count state) @ u '')'') states))"

definition identity_row :: "report_env \<Rightarrow> config \<Rightarrow> run_row list \<Rightarrow> yaml \<Rightarrow> pystr" where
  "identity_row env c rows ident =
     (let mine = filter (\<lambda>r. map_option YStr (run_identity r) = Some ident) rows;
          strategy = (case map_of (cf_identities c) ident of None \<Rightarrow> u ''not declared in this config'' | Some d \<Rightarrow> dl_strategy d);
          gens = List.map_filter run_identity_generation mine
      in u ''| '' @ cell (code_span (redact_url (ident_text env ident))) @ u '' | '' @ cell (redact_url strategy) @ u '' | '' @ dec_nat (length mine) @ u '' | '' @ cell (dump_int (case max_of gens of None \<Rightarrow> 0 | Some g \<Rightarrow> g)) @ u '' | '' @ outcome_cell mine @ u '' |'')"

definition identity_lines :: "report_env \<Rightarrow> pystr \<Rightarrow> config \<Rightarrow> pystr list" where
  "identity_lines env eid c =
     (let rows = identity_runs env eid;
          declared = map fst (cf_identities c);
          undeclared = sort (remdups (filter (\<lambda>n. YStr n \<notin> set declared) (List.map_filter run_identity rows)))
      in if rows = [] \<and> cf_identities c = [] then []
         else [u ''### Session identity'' @ [10]] @ halted_lines rows
           @ [u ''| Identity | Strategy | Runs | Generations | Outcome |'', u ''|---|---|---|---|---|'']
           @ map (identity_row env c rows) (declared @ map YStr undeclared)
           @ [[]]
           @ [u ''**`proven` means the session was proved live at both ends of the window a run's requests were issued in.** hx requests a page the engagement declared, at the start of a run, periodically during it and at the end, and requires the response body to carry a string only an authenticated response has '' @ DASH @ u '' a status code is never enough, because an application that answers a logged-out request with a 200 login page satisfies every status rule there is. `assumed` means one of those checks failed somewhere in the run, so requests in it may have been issued logged out and hx does not claim otherwise; `dead` means a check failed and the session could not be renewed '' @ DASH @ u '' at the start of a run or partway through it '' @ DASH @ u '' and the run stopped there rather than carrying on logged out.'' @ [10]]
           @ [u ''**Per-request identity is not recorded by this build.** The `exchange` table has columns for it and nothing writes them: the requests hx issues itself are not stored as exchanges at all in this version, so the state above is per RUN, and a run reads `proven` only if every window in it did. That is the conservative direction '' @ DASH @ u '' one failed check anywhere makes the whole run `assumed`.'' @ [10]])"

definition provenance :: "report_env \<Rightarrow> pystr \<Rightarrow> config \<Rightarrow> int \<Rightarrow> run_row list \<Rightarrow> pystr list" where
  "provenance env eid c created_us unfinished =
     [u ''## Provenance'' @ [10], u ''Engagement opened '' @ utc created_us @ u ''.'' @ [10]]
     @ window_lines (my_runs env eid) @ unfinished_lines unfinished @ scope_of_record env eid c @ authorization_lines env eid
     @ identity_lines env eid c"

section \<open>Findings\<close>

text \<open>The run's start, then the row's time, newest first.\<close>

definition latest_observed :: "store \<Rightarrow> pystr \<Rightarrow> bool option" where
  "latest_observed s fid =
     (let started = (\<lambda>ob. case find (\<lambda>r. run_id r = ob_run ob) (st_runs s) of None \<Rightarrow> 0 | Some r \<Rightarrow> run_started_us r);
          rows = filter (\<lambda>ob. ob_finding ob = fid \<and> ob_run ob \<in> set (run_ids s)) (st_observations s)
      in case rev (sort_key started (sort_key ob_ts_us rows)) of [] \<Rightarrow> None | ob # _ \<Rightarrow> Some (ob_observed ob))"

definition status_text :: "store \<Rightarrow> pystr \<Rightarrow> pystr \<Rightarrow> pystr" where
  "status_text s fid status =
     (if status = u ''new'' then []
      else case latest_note fid s of
        None \<Rightarrow> u '' '' @ DOT @ u '' *status: '' @ status @ u ''*''
      | Some note \<Rightarrow> if note = [] then u '' '' @ DOT @ u '' *status: '' @ status @ u ''*'' else u '' '' @ DOT @ u '' *status: '' @ status @ u '' '' @ DASH @ u '' '' @ [34] @ flat (redact_url note) @ [34] @ u ''*'')"

definition ABSENT_CATEGORIES :: "pystr list" where
  "ABSENT_CATEGORIES = map u [''directory listings'', ''authorisation and access-control flaws'', ''injection classes other than SQL'']"

definition phrase :: "check_decl \<Rightarrow> pystr" where
  "phrase c = (case cd_looks_for c of Some (JStr t) \<Rightarrow> t | _ \<Rightarrow> [])"

definition scope_of_the_corpus :: "config \<Rightarrow> pystr" where
  "scope_of_the_corpus c =
     (let phrases = map phrase (enabled SHIPPED (cf_checks c)) in
      if phrases = [] then u ''**No check was enabled for this engagement**, so nothing below is a statement about the application: this scan looked for nothing. See Limits.'' @ [10]
      else u ''**What this assessment looked for**, and nothing else: '' @ join (u '' '' @ DOT @ u '' '') (map (\<lambda>p. flat (redact_url p)) (sort phrases)) @ u ''. **A category absent from that list was not looked for**, and its absence here is not evidence of its absence in the application '' @ DASH @ u '' '' @ join (u '', '') (butlast ABSENT_CATEGORIES) @ u '', and '' @ last ABSENT_CATEGORIES @ u '' are outside this build. See Limits at the end of this report for the full statement of what was not covered.'' @ [10])"

text \<open>A row of the chain: an exchange that is not in the store has no URL to show.\<close>

definition evidence_rows :: "store \<Rightarrow> pystr \<Rightarrow> (evidence_row \<times> exchange_row option) list" where
  "evidence_rows s fid =
     map (\<lambda>e. (e, find (\<lambda>x. ex_id x = ev_exchange e) (st_exchanges s)))
       (sort_key (\<lambda>e. if ev_role e = u ''proof'' then 0 else (1::nat))
         (sort_key ev_seq (filter (\<lambda>e. ev_finding e = fid) (st_evidence s))))"

definition evidence_line :: "evidence_row \<Rightarrow> exchange_row \<Rightarrow> pystr" where
  "evidence_line e x =
     (let status_text' = (case ex_status x of Some n \<Rightarrow> dump_int n | None \<Rightarrow> u ''no status recorded'') in
      u ''- '' @ code_span (flat (ex_method x) @ u '' '' @ redact_url (ex_url x)) @ u '' '' @ ARROW @ u '' '' @ flat status_text' @ u '' '' @ DOT @ u '' *'' @ flat (ev_role e) @ u ''*''
      @ (case ev_note e of None \<Rightarrow> [] | Some note \<Rightarrow> if note = [] then [] else u '' '' @ DASH @ u '' '' @ flat (redact_url note)))"

definition evidence_caveats :: "nat \<Rightarrow> nat \<Rightarrow> nat \<Rightarrow> pystr list" where
  "evidence_caveats whole shown unresolved =
     (let omitted = whole - shown in
      (if omitted > 0 then [dec_nat omitted @ u '' further evidence row(s) omitted (this chain is capped at the first '' @ dec_nat EVIDENCE_LIMIT @ u '' of '' @ dec_nat whole @ u '')''] else [])
      @ (if unresolved > 0 then [dec_nat unresolved @ u '' of the '' @ dec_nat shown @ u '' shown could not be resolved to a request''] else []))"

definition evidence_lines :: "store \<Rightarrow> pystr \<Rightarrow> pystr list" where
  "evidence_lines s fid =
     (let rows = evidence_rows s fid; shown = take EVIDENCE_LIMIT rows;
          unresolved = length (filter (\<lambda>(e, x). x = None) shown);
          caveats = evidence_caveats (length rows) (length shown) unresolved
      in if rows = [] then []
         else [u ''**Evidence.**'' @ [10]]
           @ List.map_filter (\<lambda>(e, x). map_option (evidence_line e) x) shown
           @ (if caveats = [] then [] else [u ''- '' @ ELLIPSIS @ u '' '' @ join (u ''; '') caveats @ u ''. Every evidence row is still recorded in the store.''])
           @ [[]])"

definition labelled :: "pystr \<Rightarrow> pystr option \<Rightarrow> pystr list" where
  "labelled label text = (if given text then [label @ flat (redact_url (the text)) @ [10]] else [])"

definition finding_lines :: "store \<Rightarrow> finding_row \<Rightarrow> pystr list" where
  "finding_lines s f =
     (let marker = (if latest_observed s (fi_id f) = Some False then u '' '' @ DOT @ u '' **not observed the last time its check tested this surface '' @ DASH @ u '' appears fixed; verify before closing**'' else []) in
      [u ''#### '' @ flat (redact_url (fi_title f)) @ [10],
       u ''*Confidence: '' @ fi_confidence f @ u ''*'' @ (if given (fi_cwe f) then u '' '' @ DOT @ u '' *'' @ flat (the (fi_cwe f)) @ u ''*'' else []) @ status_text s (fi_id f) (fi_status f) @ marker @ [10]]
      @ labelled [] (fi_description f) @ labelled (u ''**Impact.** '') (fi_impact f)
      @ labelled (u ''**Remediation.** '') (fi_remediation f)
      @ evidence_lines s (fi_id f))"

definition findings_of :: "store \<Rightarrow> pystr \<Rightarrow> finding_row list" where
  "findings_of s eid = sort_key fi_title (sort_key fi_id (filter (\<lambda>f. fi_engagement f = eid) (st_findings s)))"

definition severity_lines :: "store \<Rightarrow> finding_row list \<Rightarrow> pystr \<Rightarrow> pystr list" where
  "severity_lines s rows severity =
     (let mine = filter (\<lambda>f. fi_severity f = severity) rows in
      if mine = [] then [] else [u ''### '' @ severity @ [10]] @ concat (map (finding_lines s) mine))"

definition findings_section :: "store \<Rightarrow> pystr \<Rightarrow> config \<Rightarrow> bool \<Rightarrow> run_row list \<Rightarrow> pystr list" where
  "findings_section s eid c scanned unfinished =
     (let rows = findings_of s eid; top = [u ''## Findings'' @ [10], scope_of_the_corpus c] in
      if rows = [] then
        (if \<not> scanned then top @ [u ''None recorded '' @ DASH @ u '' this engagement has not been scanned yet; see Coverage below.'' @ [10]]
         else if unfinished \<noteq> [] then top @ [u ''None recorded '' @ DASH @ u '' but '' @ dec_nat (length unfinished) @ u '' of the runs behind this report did not finish (each is named under Provenance above), so this is not a clean bill: a check a stopped run never got to cannot have found anything. See Coverage below for what was and was not reached.'' @ [10]]
         else top @ [u ''None recorded.'' @ [10]])
      else
        top @ (if unfinished = [] then [] else [u ''**'' @ dec_nat (length unfinished) @ u '' of the runs behind this report did not finish** (each is named under Provenance above), so anything below drawn from them is what they had reached when they stopped, not what a completed run would have found. This list is not a complete one.'' @ [10]])
        @ concat (map (severity_lines s rows) SEVERITY_ORDER))"

section \<open>Coverage\<close>

definition untested_lines :: "(pystr \<times> pystr) list \<Rightarrow> pystr list" where
  "untested_lines untested =
     (let shown = take UNTESTED_LIMIT untested; omitted = length untested - length shown in
      if untested = [] then []
      else [u ''**Never tested.** These '' @ dec_nat (length untested) @ u '' surface(s) were captured and no check ever returned a verdict for them '' @ DASH @ u '' a `pending` or `skipped` row is not coverage. A surface named here was **never reached**, which is not the same as clean.'' @ [10]]
        @ map (\<lambda>(meth, tpl). u ''- '' @ code_span (flat meth @ u '' '' @ redact_url tpl)) shown
        @ (if omitted = 0 then [] else [u ''- '' @ ELLIPSIS @ u '' '' @ dec_nat omitted @ u '' further surface(s) omitted (this list is capped at the first '' @ dec_nat UNTESTED_LIMIT @ u '' of '' @ dec_nat (length untested) @ u ''). Every one is still recorded in the store.''])
        @ [[]])"

definition reason_cell :: "pystr list \<Rightarrow> pystr" where
  "reason_cell reasons =
     (let shown = take REASON_LIMIT reasons; omitted = length reasons - length shown in
      join (u ''; '') (map (\<lambda>r. cell (redact_url r)) shown) @ (if omitted = 0 then [] else u ''; and '' @ dec_nat omitted @ u '' further distinct reason(s)''))"

definition coverage_rows :: "coverage \<Rightarrow> pystr list" where
  "coverage_rows cov =
     [u ''Which checks ran, against how many distinct surfaces each, and what they answered '' @ DASH @ u '' one row per check and verdict. This table COUNTS surfaces and does not name them; the surfaces no check answered for are named below it.'' @ [10], u ''| Check | Verdict | Surfaces | Reason |'', u ''|---|---|---|---|'']
     @ map (\<lambda>((check, verd), n). u ''| `'' @ cell check @ u ''` | '' @ cell verd @ u '' | '' @ dec_nat n @ u '' | '' @ reason_cell (cv_reasons cov (check, verd)) @ u '' |'') (cv_by_check cov)
     @ [[]]"

definition coverage_section :: "config \<Rightarrow> coverage \<Rightarrow> pystr list" where
  "coverage_section c cov =
     (let captured = cv_captured cov; untested = cv_untested cov; unshipped = unshipped_classes c in
      [u ''## Coverage'' @ [10]]
      @ (if cv_unfinished cov = [] then [] else [u ''**These numbers are partial.** '' @ dec_nat (length (cv_unfinished cov)) @ u '' of the runs behind this section did not finish (each is named under Provenance above), so a check that never opened for a surface may simply be a check the run never got to.'' @ [10]])
      @ [if captured > 0 then u ''This assessment captured **'' @ dec_nat captured @ u '' surface(s)**. **'' @ dec_nat (captured - length untested) @ u ''** had at least one check return a verdict; **'' @ dec_nat (length untested) @ u ''** had none.'' @ [10]
         else u ''**No surface was captured for this engagement**, so there is nothing here for a check to have covered.'' @ [10]]
      @ (if \<not> cv_scanned cov then [u ''This engagement has **not been scanned**. No check has run against any surface, so nothing below should be read as tested.'' @ [10]] else coverage_rows cov)
      @ map (\<lambda>klass. u ''- note: `'' @ klass @ u ''` is enabled in this engagement's config, but this build ships no checks in that class '' @ DASH @ u '' nothing above is coverage for it.'') unshipped
      @ (if unshipped = [] then [] else [[]])
      @ untested_lines untested)"

section \<open>Insertion points\<close>

datatype report_exc = ReportTypeError | ReportValueError | ReportOSError

text \<open>A blob that is corrupt is passed over; any other failure to read, and a request target that \<open>urlsplit\<close> refuses,
  leaves the report.\<close>

definition exemplar_points :: "report_env \<Rightarrow> (pystr \<Rightarrow> blob_exc + bytes) \<Rightarrow> surface_row \<Rightarrow> report_exc + insertion_point list" where
  "exemplar_points env read_blob sf =
     (case Option.bind (find (\<lambda>x. ex_id x = sf_exemplar sf) (st_exchanges (rp_store env))) ex_req_blob of
        None \<Rightarrow> Inr []
      | Some d \<Rightarrow>
          if d = [] then Inr []
          else case read_blob d of
            Inl CorruptBlob \<Rightarrow> Inr []
          | Inl blob_exc.OSError \<Rightarrow> Inl ReportOSError
          | Inr raw \<Rightarrow>
              (case derive (rp_netloc_ok env) raw (sf_path_template sf) of
                 Inl _ \<Rightarrow> Inl ReportValueError
               | Inr ps \<Rightarrow> Inr ps))"

definition insertion_table :: "(pystr \<times> nat) list \<Rightarrow> pystr list" where
  "insertion_table counted =
     (let active = active_shipped;
          probed = (if active \<noteq> [] then u ''**'' @ dec_nat (length active) @ u '' active check(s) ship in this build** ('' @ check_names active @ u ''), so a point below may have been probed. This build records no per-insertion probe attribution, so this table cannot say which were and which were not.'' else u ''**None were probed** '' @ DASH @ u '' this build ships no active checks.'')
      in [u ''### Insertion points'' @ [10], u ''Places a payload could go, derived from the traffic captured. '' @ probed @ [10], u ''| Kind | Found |'', u ''|---|---|''] @ map (\<lambda>(kind, n). u ''| `'' @ cell kind @ u ''` | '' @ dec_nat n @ u '' |'') counted @ [[]])"

definition insertion_coverage :: "report_env \<Rightarrow> pystr \<Rightarrow> (pystr \<Rightarrow> blob_exc + bytes) \<Rightarrow> report_exc + pystr list" where
  "insertion_coverage env eid read_blob =
     rbind (rmap (exemplar_points env read_blob) (sort_key sf_path_template (surfaces_of (rp_store env) eid))) (\<lambda>found.
       let kinds = map ins_kind (concat found) in
       Inr (if kinds = [] then []
            else insertion_table (map (\<lambda>k. (k, length (filter (\<lambda>j. j = k) kinds))) (sort (remdups kinds)))))"

end
