(* ===== verification/Web.thy ===== *)
theory Web
  imports Report Capture Halt
begin

text \<open>
  The web app, \<open>src/hx/web/\<close>: the allowlist of engagements, the read queries of its screens, and the app itself, its guard and its
  handlers. Starlette's routing, the Jinja templates that turn a page's data into HTML, and the static files are arguments or left
  out; an engagement on disk is a record of what opening and reading it gives.
\<close>

section \<open>Engagements on disk\<close>

text \<open>\<open>ed_config\<close> is \<open>None\<close> when the file cannot be read, \<open>ed_blobs\<close> when the blob directory cannot be made.\<close>

record engagement_dir =
  ed_name :: pystr
  ed_has_db :: bool
  ed_connects :: bool
  ed_reads :: bool
  ed_version :: int
  ed_rows :: "engagement_row list"
  ed_scopes :: "scope_row list"
  ed_authorizations :: "authorization_row list"
  ed_config :: "(config_exc + config) option"
  ed_store :: store
  ed_halt :: halt_disk
  ed_blobs :: "(pystr \<Rightarrow> nat option \<Rightarrow> blob_exc + bytes) option"

definition SCHEMA_VERSION :: int where
  "SCHEMA_VERSION = 9"

datatype entry_problem = CannotOpen | WrongSchema int | EngagementRows nat | CannotReadConfig | CannotRead

record web_entry =
  en_name :: pystr
  en_dir :: engagement_dir
  en_engagement :: "pystr option"
  en_client :: "pystr option"
  en_created_us :: "int option"
  en_version :: "int option"
  en_problem :: "entry_problem option"
  en_findings :: "(pystr \<times> nat) list"
  en_runs :: nat

text \<open>\<open>GROUP BY\<close> with \<open>COUNT(*)\<close>.\<close>

definition group_counts :: "('r \<Rightarrow> pystr) \<Rightarrow> 'r list \<Rightarrow> (pystr \<times> nat) list" where
  "group_counts f rows = map (\<lambda>k. (k, length (filter (\<lambda>r. f r = k) rows))) (sort (remdups (map f rows)))"

definition blank_entry :: "engagement_dir \<Rightarrow> int option \<Rightarrow> entry_problem \<Rightarrow> web_entry" where
  "blank_entry d version problem =
     \<lparr>en_name = ed_name d, en_dir = d, en_engagement = None, en_client = None, en_created_us = None, en_version = version,
      en_problem = Some problem, en_findings = [], en_runs = 0\<rparr>"

definition my_findings :: "store \<Rightarrow> pystr \<Rightarrow> finding_row list" where
  "my_findings s eid = filter (\<lambda>f. fi_engagement f = eid) (st_findings s)"

text \<open>A database that cannot be read fails at the first statement.\<close>

definition dir_entry :: "engagement_dir \<Rightarrow> web_entry" where
  "dir_entry d =
     (if \<not> ed_connects d then blank_entry d None CannotOpen
      else if \<not> ed_reads d then blank_entry d None CannotRead
      else if ed_version d \<noteq> SCHEMA_VERSION then blank_entry d (Some (ed_version d)) (WrongSchema (ed_version d))
      else case ed_rows d of
        [row] \<Rightarrow>
          (if ed_config d = None then blank_entry d (Some (ed_version d)) CannotReadConfig
           else
             \<lparr>en_name = ed_name d, en_dir = d, en_engagement = Some (eg_id row), en_client = Some (eg_client row),
              en_created_us = Some (eg_created_us row), en_version = Some (ed_version d), en_problem = None,
              en_findings = group_counts fi_severity (my_findings (ed_store d) (eg_id row)),
              en_runs = length (runs_of (ed_store d) (eg_id row))\<rparr>)
      | rows \<Rightarrow> blank_entry d (Some (ed_version d)) (EngagementRows (length rows)))"

text \<open>A base directory that cannot be listed has no engagement.\<close>

definition scan_base :: "engagement_dir list option \<Rightarrow> web_entry list" where
  "scan_base base =
     (case base of None \<Rightarrow> [] | Some dirs \<Rightarrow> map dir_entry (filter ed_has_db (sort_key ed_name dirs)))"

definition lookup_entry :: "engagement_dir list option \<Rightarrow> pystr \<Rightarrow> web_entry option" where
  "lookup_entry base name = find (\<lambda>e. en_name e = name) (scan_base base)"

section \<open>The screens' queries\<close>

definition WEB_SEVERITIES :: "pystr list" where
  "WEB_SEVERITIES = map u [''Critical'', ''High'', ''Medium'', ''Low'', ''Info'']"

definition WEB_STATUSES :: "pystr list" where
  "WEB_STATUSES = map u [''new'', ''triaged'', ''confirmed'', ''false_positive'', ''reported'']"

text \<open>A run whose heartbeat went stale is shown as an error; the row is left as it is.\<close>

definition run_view :: "int \<Rightarrow> run_row \<Rightarrow> bool \<times> run_row" where
  "run_view before r =
     (if is_stale before r then (True, r\<lparr>run_status := u ''error'', run_stop_reason := Some STALE_REASON\<rparr>) else (False, r))"

definition run_views :: "int \<Rightarrow> store \<Rightarrow> pystr \<Rightarrow> (bool \<times> run_row) list" where
  "run_views now s eid =
     map (run_view (stale_before_us now None)) (sort_key (\<lambda>r. - run_started_us r) (sort_key run_id (runs_of s eid)))"

definition dropped_sum :: "store \<Rightarrow> pystr \<Rightarrow> int" where
  "dropped_sum s eid = sum_list (map run_dropped_total (runs_of s eid))"

record overview_page =
  ov_engagement :: "engagement_row option"
  ov_scopes :: "scope_row list"
  ov_authorizations :: "authorization_row list"
  ov_severities :: "(pystr \<times> nat) list"
  ov_statuses :: "(pystr \<times> nat) list"
  ov_runs :: "(bool \<times> run_row) list"
  ov_dropped :: int
  ov_coverage :: coverage
  ov_unshipped :: "pystr list"
  ov_surfaces :: nat
  ov_exchanges :: nat
  ov_halted :: bool
  ov_halt_reason :: "pystr option"

definition overview_data :: "int \<Rightarrow> engagement_dir \<Rightarrow> pystr \<Rightarrow> config \<Rightarrow> operator_halt \<Rightarrow> overview_page" where
  "overview_data now d eid c h =
     (let s = ed_store d; auths = filter (\<lambda>a. au_engagement a = eid) (ed_authorizations d) in
      \<lparr>ov_engagement = find (\<lambda>g. eg_id g = eid) (ed_rows d),
       ov_scopes = sort_key (\<lambda>v. - sv_effective_us v) (sort_key sv_id (filter (\<lambda>v. sv_engagement v = eid) (ed_scopes d))),
       ov_authorizations = filter (\<lambda>a. au_valid_from_us a = None) auths
         @ sort_key (\<lambda>a. the (au_valid_from_us a)) (filter (\<lambda>a. au_valid_from_us a \<noteq> None) auths),
       ov_severities = group_counts fi_severity (my_findings s eid),
       ov_statuses = group_counts fi_status (my_findings s eid),
       ov_runs = run_views now s eid,
       ov_dropped = dropped_sum s eid,
       ov_coverage = facts s eid,
       ov_unshipped = unshipped_classes c,
       ov_surfaces = cv_captured (facts s eid),
       ov_exchanges = length (filter (\<lambda>x. ex_run x \<in> Some ` run_id ` set (runs_of s eid)) (st_exchanges s)),
       ov_halted = halted h (ed_halt d), ov_halt_reason = halt_reason h (ed_halt d)\<rparr>)"

record surface_view =
  sw_surface :: surface_row
  sw_exchanges :: nat
  sw_answered :: nat

text \<open>\<open>COUNT(DISTINCT check_id)\<close> over the answers of any run.\<close>

definition surface_view_of :: "store \<Rightarrow> surface_row \<Rightarrow> surface_view" where
  "surface_view_of s sf =
     \<lparr>sw_surface = sf,
      sw_exchanges = length (filter (\<lambda>x. ex_surface x = Some (sf_id sf)) (st_exchanges s)),
      sw_answered = length (remdups (map cr_check
        (filter (\<lambda>c. cr_surface c = Some (sf_id sf) \<and> cr_verdict c \<in> set ANSWERED) (st_check_runs s))))\<rparr>"

definition surface_views :: "store \<Rightarrow> pystr \<Rightarrow> surface_view list" where
  "surface_views s eid =
     map (surface_view_of s) (sort_key sf_path_template (sort_key sf_method (sort_key sf_id (surfaces_of s eid))))"

definition severity_place :: "pystr \<Rightarrow> nat" where
  "severity_place v = (if v \<in> set WEB_SEVERITIES then length (takeWhile (\<lambda>w. w \<noteq> v) WEB_SEVERITIES) else 99)"

text \<open>A finding with the method and path of its surface, when it has one.\<close>

definition with_surface :: "store \<Rightarrow> finding_row \<Rightarrow> finding_row \<times> (pystr \<times> pystr) option" where
  "with_surface s f =
     (f, map_option (\<lambda>sf. (sf_method sf, sf_path_template sf)) (find (\<lambda>sf. fi_surface f = Some (sf_id sf)) (st_surfaces s)))"

text \<open>\<open>FilterError\<close> is \<open>None\<close>.\<close>

definition findings_view :: "store \<Rightarrow> pystr \<Rightarrow> pystr option \<Rightarrow> pystr option \<Rightarrow> (finding_row \<times> (pystr \<times> pystr) option) list option" where
  "findings_view s eid severity status =
     (if severity \<noteq> None \<and> the severity \<notin> set WEB_SEVERITIES then None
      else if status \<noteq> None \<and> the status \<notin> set WEB_STATUSES then None
      else Some (map (with_surface s)
        (sort_key (\<lambda>f. severity_place (fi_severity f)) (sort_key fi_title (sort_key fi_id
          (filter (\<lambda>f. (severity = None \<or> fi_severity f = the severity) \<and> (status = None \<or> fi_status f = the status))
            (my_findings s eid)))))))"

definition finding_detail :: "store \<Rightarrow> pystr \<Rightarrow> (finding_row \<times> (pystr \<times> pystr) option) option" where
  "finding_detail s fid = map_option (with_surface s) (find (\<lambda>f. fi_id f = fid) (st_findings s))"

definition evidence_view :: "store \<Rightarrow> pystr \<Rightarrow> (evidence_row \<times> exchange_row option) list" where
  "evidence_view s fid =
     map (\<lambda>e. (e, find (\<lambda>x. ex_id x = ev_exchange e) (st_exchanges s)))
       (sort_key ev_seq (sort_key ev_id (filter (\<lambda>e. ev_finding e = fid) (st_evidence s))))"

definition observations_view :: "store \<Rightarrow> pystr \<Rightarrow> (observation_row \<times> run_row) list" where
  "observations_view s fid =
     List.map_filter (\<lambda>ob. map_option (Pair ob) (find (\<lambda>r. run_id r = ob_run ob) (st_runs s)))
       (sort_key ob_ts_us (sort_key ob_run (filter (\<lambda>ob. ob_finding ob = fid) (st_observations s))))"

text \<open>The text of a body, and what kept it from being read.\<close>

definition body_text :: "(pystr \<Rightarrow> nat option \<Rightarrow> blob_exc + bytes) \<Rightarrow> pystr option \<Rightarrow> nat option \<Rightarrow> pystr \<times> blob_exc option" where
  "body_text read_blob digest expected_len =
     (case digest of
        None \<Rightarrow> ([], None)
      | Some d \<Rightarrow> (case read_blob d expected_len of Inl e \<Rightarrow> ([], Some e) | Inr raw \<Rightarrow> (latin1_decode raw, None)))"

record exchange_page =
  xp_exchange :: exchange_row
  xp_request :: "pystr \<times> blob_exc option"
  xp_response :: "pystr \<times> blob_exc option"

definition exchange_view :: "(pystr \<Rightarrow> nat option \<Rightarrow> blob_exc + bytes) \<Rightarrow> store \<Rightarrow> pystr \<Rightarrow> exchange_page option" where
  "exchange_view read_blob s xid =
     map_option (\<lambda>x. \<lparr>xp_exchange = x, xp_request = body_text read_blob (ex_req_blob x) None,
         xp_response = body_text read_blob (ex_resp_blob x) (ex_resp_len x)\<rparr>)
       (find (\<lambda>x. ex_id x = xid) (st_exchanges s))"

section \<open>Requests and responses\<close>

text \<open>The headers by lower-case name and the parameters of the query, as Starlette's mappings give them.\<close>

record web_request =
  wq_method :: pystr
  wq_scheme :: pystr
  wq_path :: pystr
  wq_headers :: "(pystr \<times> pystr) list"
  wq_query :: "(pystr \<times> pystr) list"
  wq_body :: bytes

datatype page =
    IndexPage "web_entry list"
  | OverviewPage web_entry overview_page
  | SurfacesPage web_entry "surface_view list" int
  | FindingsPage web_entry "(finding_row \<times> (pystr \<times> pystr) option) list"
  | FindingPage web_entry "finding_row \<times> (pystr \<times> pystr) option" "(evidence_row \<times> exchange_row option) list"
      "(observation_row \<times> run_row) list" "status_event list"
  | ExchangePage web_entry exchange_page
  | NoPage
  | StaticFile bytes

record web_response =
  wr_status :: nat
  wr_page :: page
  wr_headers :: "(pystr \<times> pystr) list"

definition header_of :: "web_request \<Rightarrow> string \<Rightarrow> pystr option" where
  "header_of q name = map_of (wq_headers q) (u name)"

definition plain_text :: "nat \<Rightarrow> web_response" where
  "plain_text status = \<lparr>wr_status = status, wr_page = NoPage, wr_headers = []\<rparr>"

definition see_other :: "pystr \<Rightarrow> web_response" where
  "see_other location = \<lparr>wr_status = 303, wr_page = NoPage, wr_headers = [(u ''location'', location)]\<rparr>"

definition show_page :: "page \<Rightarrow> web_response" where
  "show_page p = \<lparr>wr_status = 200, wr_page = p, wr_headers = []\<rparr>"

definition ALLOWED_HOSTS :: "pystr list" where
  "ALLOWED_HOSTS = map u [''127.0.0.1'', ''localhost'', ''[::1]'']"

definition CSP :: pystr where
  "CSP = u ''default-src 'none'; script-src 'none'; style-src 'self'; img-src 'self' data:; form-action 'self'; frame-ancestors 'none'; base-uri '' @ [39] @ u ''none'' @ [39]"

definition WEB_SAFE_METHODS :: "pystr list" where
  "WEB_SAFE_METHODS = map u [''GET'', ''HEAD'', ''OPTIONS'']"

definition MAX_FORM :: nat where
  "MAX_FORM = 64 * 1024"

definition hostname :: "pystr \<Rightarrow> pystr" where
  "hostname header =
     (let val = strip header in
      if startswith [91] val then
        (case py_find [93] val of None \<Rightarrow> val | Some close \<Rightarrow> take (close + 1) val)
      else fst (partition1 58 val))"

definition secured :: "web_response \<Rightarrow> web_response" where
  "secured r =
     r\<lparr>wr_headers := dict_set (u ''referrer-policy'') (u ''no-referrer'')
        (dict_set (u ''x-content-type-options'') (u ''nosniff'')
          (dict_set (u ''content-security-policy'') CSP (wr_headers r)))\<rparr>"

text \<open>\<open>parse_qsl\<close> with blank values kept.\<close>

definition form_text :: "pystr \<Rightarrow> pystr" where
  "form_text s = unquote_replace (map (\<lambda>c. if c = 43 then 32 else c) s)"

definition parse_qsl :: "pystr \<Rightarrow> (pystr \<times> pystr) list" where
  "parse_qsl q =
     map (\<lambda>nv. case partition1 61 nv of (name, _, val) \<Rightarrow> (form_text name, form_text val))
       (filter (\<lambda>nv. nv \<noteq> []) (split1 38 q))"

datatype web_form = Fields "(pystr \<times> pystr) list" | TooLarge | NotAForm

definition form_fields :: "web_request \<Rightarrow> web_form" where
  "form_fields q =
     (let ctype = (case header_of q ''content-type'' of None \<Rightarrow> [] | Some t \<Rightarrow> t) in
      if lower (strip (hd (split1 59 ctype))) \<noteq> u ''application/x-www-form-urlencoded'' then NotAForm
      else if length (wq_body q) > MAX_FORM then TooLarge
      else Fields (fold (\<lambda>(k, v). dict_set k v) (parse_qsl (utf8_decode_replace (wq_body q))) []))"

definition form_refusal :: "web_form \<Rightarrow> web_response option" where
  "form_refusal form =
     (case form of TooLarge \<Rightarrow> Some (plain_text 413) | NotAForm \<Rightarrow> Some (plain_text 415) | Fields _ \<Rightarrow> None)"

definition same_origin :: "web_request \<Rightarrow> bool" where
  "same_origin q =
     (let expected = wq_scheme q @ u ''://'' @ (case header_of q ''host'' of None \<Rightarrow> [] | Some h \<Rightarrow> h);
          origin = header_of q ''origin''
      in case header_of q ''sec-fetch-site'' of
           Some site \<Rightarrow> (if site \<noteq> u ''same-origin'' then False else origin = None \<or> origin = Some expected)
         | None \<Rightarrow> (if origin = None \<or> origin = Some [] then False else origin = Some expected))"

section \<open>The handlers\<close>

text \<open>The base directory, and what a request meets: the clock, a fresh id, whether the database opens for writing, and where a
  halt's writes fail.\<close>

type_synonym web_world = "engagement_dir list option"

record web_env =
  we_now_us :: int
  we_event_id :: pystr
  we_db_opens :: bool
  we_fault :: write_fault
  we_halt_row :: bool
  we_halt_us :: int
  we_row_us :: int

text \<open>\<open>HTTPException(404)\<close> and everything else that leaves a handler.\<close>

datatype web_exc = NotFound | Crash

type_synonym web_handler = "(web_world, web_exc, web_response) prog"

definition entry_of :: "pystr \<Rightarrow> (web_world, web_exc, web_entry) prog" where
  "entry_of name base =
     (case lookup_entry base name of
        None \<Rightarrow> (Inl NotFound, base)
      | Some e \<Rightarrow> if en_problem e \<noteq> None then (Inl NotFound, base) else (Inr e, base))"

definition entry_id :: "web_entry \<Rightarrow> pystr" where
  "entry_id e = (case en_engagement e of None \<Rightarrow> [] | Some i \<Rightarrow> i)"

definition index :: web_handler where
  "index base = (Inr (show_page (IndexPage (scan_base base))), base)"

text \<open>An engagement's id is ASCII, and \<open>Halt\<close> has it as a string.\<close>

definition open_halt :: "engagement_dir \<Rightarrow> halt_exc + operator_halt" where
  "open_halt d = open_operator_halt (map (\<lambda>g. map char_of (eg_id g)) (ed_rows d)) (ed_halt d)"

definition overview :: "web_env \<Rightarrow> pystr \<Rightarrow> web_handler" where
  "overview env name =
     sbind (entry_of name) (\<lambda>e base.
       case ed_config (en_dir e) of
         None \<Rightarrow> (Inl NotFound, base)
       | Some (Inl ConfigError) \<Rightarrow> (Inl NotFound, base)
       | Some (Inl _) \<Rightarrow> (Inl Crash, base)
       | Some (Inr c) \<Rightarrow>
           (case open_halt (en_dir e) of
              Inl _ \<Rightarrow> (Inl Crash, base)
            | Inr h \<Rightarrow> (Inr (show_page (OverviewPage e (overview_data (we_now_us env) (en_dir e) (entry_id e) c h))), base)))"

definition surfaces_handler :: "pystr \<Rightarrow> web_handler" where
  "surfaces_handler name =
     sbind (entry_of name) (\<lambda>e.
       sret (show_page (SurfacesPage e (surface_views (ed_store (en_dir e)) (entry_id e)) (dropped_sum (ed_store (en_dir e)) (entry_id e)))))"

definition findings_handler :: "web_request \<Rightarrow> pystr \<Rightarrow> web_handler" where
  "findings_handler q name =
     sbind (entry_of name) (\<lambda>e.
       case findings_view (ed_store (en_dir e)) (entry_id e) (map_of (wq_query q) (u ''severity'')) (map_of (wq_query q) (u ''status'')) of
         None \<Rightarrow> sret (plain_text 400)
       | Some rows \<Rightarrow> sret (show_page (FindingsPage e rows)))"

definition finding_handler :: "pystr \<Rightarrow> pystr \<Rightarrow> web_handler" where
  "finding_handler name fid =
     sbind (entry_of name) (\<lambda>e.
       let s = ed_store (en_dir e) in
       case finding_detail s fid of
         None \<Rightarrow> sraise NotFound
       | Some detail \<Rightarrow> sret (show_page (FindingPage e detail (evidence_view s fid) (observations_view s fid) (history fid s))))"

definition exchange_handler :: "pystr \<Rightarrow> pystr \<Rightarrow> web_handler" where
  "exchange_handler name xid =
     sbind (entry_of name) (\<lambda>e.
       case ed_blobs (en_dir e) of
         None \<Rightarrow> sraise Crash
       | Some read_blob \<Rightarrow>
           (case exchange_view read_blob (ed_store (en_dir e)) xid of
              None \<Rightarrow> sraise NotFound
            | Some x \<Rightarrow> sret (show_page (ExchangePage e x))))"

definition update_dir :: "pystr \<Rightarrow> (engagement_dir \<Rightarrow> engagement_dir) \<Rightarrow> web_world \<Rightarrow> web_world" where
  "update_dir name f base = map_option (map (\<lambda>d. if ed_name d = name then f d else d)) base"

definition triage_post :: "web_env \<Rightarrow> web_request \<Rightarrow> pystr \<Rightarrow> pystr \<Rightarrow> web_handler" where
  "triage_post env q name fid =
     sbind (entry_of name) (\<lambda>e base.
       case form_fields q of
         Fields form \<Rightarrow>
           (if \<not> we_db_opens env then (Inl Crash, base)
            else
              let to_status = (case map_of form (u ''status'') of None \<Rightarrow> [] | Some t \<Rightarrow> t);
                  (r, s) = set_status (we_event_id env) fid to_status (map_of form (u ''note'')) (we_now_us env) (ed_store (en_dir e));
                  base' = update_dir name (\<lambda>d. d\<lparr>ed_store := s\<rparr>) base
              in case r of
                   Inl TriageError \<Rightarrow> (Inr (plain_text 400), base')
                 | Inl _ \<Rightarrow> (Inl Crash, base')
                 | Inr _ \<Rightarrow> (Inr (see_other (u ''/e/'' @ en_name e @ u ''/findings/'' @ fid)), base'))
       | form \<Rightarrow> (Inr (the (form_refusal form)), base))"

definition WEB_REASON :: pystr where
  "WEB_REASON = u ''stopped from the web app''"

definition halt_post :: "web_env \<Rightarrow> web_request \<Rightarrow> pystr \<Rightarrow> web_handler" where
  "halt_post env q name =
     sbind (entry_of name) (\<lambda>e base.
       case form_fields q of
         Fields form \<Rightarrow>
           (if \<not> we_db_opens env then (Inl Crash, base)
            else
              let said = strip (case map_of form (u ''reason'') of None \<Rightarrow> [] | Some t \<Rightarrow> t);
                  reason = (if said = [] then WEB_REASON else said)
              in case open_halt (en_dir e) of
                   Inl _ \<Rightarrow> (Inl Crash, base)
                 | Inr h \<Rightarrow>
                     (case oh_halt (we_fault env) (we_halt_row env) (we_halt_us env) (we_row_us env) reason (h, ed_halt (en_dir e)) of
                        (r, (_, disk)) \<Rightarrow>
                          (case r of
                             Inl _ \<Rightarrow> (Inl Crash, update_dir name (\<lambda>d. d\<lparr>ed_halt := disk\<rparr>) base)
                           | Inr _ \<Rightarrow> (Inr (see_other (u ''/e/'' @ en_name e)), update_dir name (\<lambda>d. d\<lparr>ed_halt := disk\<rparr>) base))))
       | form \<Rightarrow> (Inr (the (form_refusal form)), base))"

section \<open>The app\<close>

text \<open>The endpoints of \<open>create_app\<close> with their path parameters, and the methods each answers to. Starlette's router gives the
  endpoint of a request, or a response of its own (no such path, no such method, a static file).\<close>

datatype endpoint =
    Index | Overview pystr | Surfaces pystr | Findings pystr | Finding pystr pystr | Exchange pystr pystr
  | TriagePost pystr pystr | HaltPost pystr

definition endpoint_methods :: "endpoint \<Rightarrow> pystr list" where
  "endpoint_methods ep =
     (case ep of TriagePost _ _ \<Rightarrow> [u ''POST''] | HaltPost _ \<Rightarrow> [u ''POST''] | _ \<Rightarrow> [u ''GET'', u ''HEAD''])"

type_synonym router = "pystr \<Rightarrow> pystr \<Rightarrow> web_response + endpoint"

definition serve_endpoint :: "web_env \<Rightarrow> web_request \<Rightarrow> endpoint \<Rightarrow> web_handler" where
  "serve_endpoint env q ep =
     (case ep of
        Index \<Rightarrow> index
      | Overview name \<Rightarrow> overview env name
      | Surfaces name \<Rightarrow> surfaces_handler name
      | Findings name \<Rightarrow> findings_handler q name
      | Finding name fid \<Rightarrow> finding_handler name fid
      | Exchange name xid \<Rightarrow> exchange_handler name xid
      | TriagePost name fid \<Rightarrow> triage_post env q name fid
      | HaltPost name \<Rightarrow> halt_post env q name)"

definition guard :: "web_request \<Rightarrow> web_handler \<Rightarrow> web_world \<Rightarrow> web_response \<times> web_world" where
  "guard q call_next base =
     (if hostname (case header_of q ''host'' of None \<Rightarrow> [] | Some h \<Rightarrow> h) \<notin> set ALLOWED_HOSTS
      then (secured (plain_text 421), base)
      else if wq_method q \<notin> set WEB_SAFE_METHODS \<and> \<not> same_origin q then (secured (plain_text 403), base)
      else case call_next base of
        (Inl NotFound, base') \<Rightarrow> (secured (plain_text 404), base')
      | (Inl Crash, base') \<Rightarrow> (secured (plain_text 500), base')
      | (Inr r, base') \<Rightarrow> (secured r, base'))"

definition web_app :: "router \<Rightarrow> web_env \<Rightarrow> web_request \<Rightarrow> web_world \<Rightarrow> web_response \<times> web_world" where
  "web_app route env q =
     guard q (case route (wq_method q) (wq_path q) of Inl r \<Rightarrow> sret r | Inr ep \<Rightarrow> serve_endpoint env q ep)"

end
