(* ===== verification/Report_Limits.thy ===== *)
theory Report_Limits
  imports Report
begin

text \<open>
  The report's last section, \<open>_limits\<close> of \<open>src/hx/report.py\<close>, the whole document, \<open>render\<close>, and the tool that returns it,
  \<open>src/hx/tools/impl/report.py\<close>.
\<close>

section \<open>What the runs say\<close>

definition kind_runs :: "store \<Rightarrow> pystr \<Rightarrow> pystr \<Rightarrow> run_row list" where
  "kind_runs s eid kind = filter (\<lambda>r. run_kind r = kind) (runs_of s eid)"

definition identity_counts :: "store \<Rightarrow> pystr \<Rightarrow> nat \<times> nat \<times> nat" where
  "identity_counts s eid =
     (let rows = kind_runs s eid (u ''scan'') in
      (length rows, length (filter (\<lambda>r. run_identity r \<noteq> None) rows),
       length (filter (\<lambda>r. run_identity_state r = Some (u ''proven'')) rows)))"

text \<open>
  \<open>LIKE '%p%'\<close> in SQLite: ASCII letters match in either case, an underscore matches any character, and text ends at
  a NUL.
\<close>

definition like_char :: "nat \<Rightarrow> nat" where
  "like_char c = (if 65 \<le> c \<and> c \<le> 90 then c + 32 else c)"

fun like_at :: "pystr \<Rightarrow> pystr \<Rightarrow> bool" where
  "like_at [] s = True"
| "like_at (p # ps) [] = False"
| "like_at (p # ps) (c # s) = ((p = 95 \<or> like_char p = like_char c) \<and> like_at ps s)"

fun like_within :: "pystr \<Rightarrow> pystr \<Rightarrow> bool" where
  "like_within p [] = like_at p []"
| "like_within p (c # s) = (like_at p (c # s) \<or> like_within p s)"

definition sql_like :: "pystr \<Rightarrow> pystr option \<Rightarrow> bool option" where
  "sql_like p text = map_option (\<lambda>t. like_within p (takeWhile (\<lambda>c. c \<noteq> 0) t)) text"

definition origin_refused_scans :: "store \<Rightarrow> pystr \<Rightarrow> nat" where
  "origin_refused_scans s eid =
     length (filter (\<lambda>r. sql_like (u ''identity_origin'') (run_stop_reason r) = Some True
                       \<and> sql_like (u ''could not be proved live before the first probe'') (run_stop_reason r) = Some False)
        (kind_runs s eid (u ''scan'')))"

text \<open>The exchanges of the engagement that the proxy did not capture, through their surface or their run.\<close>

definition off_proxy_exchanges :: "store \<Rightarrow> pystr \<Rightarrow> nat" where
  "off_proxy_exchanges s eid =
     length (filter (\<lambda>x. ex_via x \<noteq> u ''proxy''
          \<and> ((\<exists>sf \<in> set (st_surfaces s). Some (sf_id sf) = ex_surface x \<and> sf_engagement sf = eid)
             \<or> (\<exists>r \<in> set (st_runs s). Some (run_id r) = ex_run x \<and> run_engagement r = eid)))
        (st_exchanges s))"

definition dropped_records :: "store \<Rightarrow> pystr \<Rightarrow> int" where
  "dropped_records s eid = sum_list (map run_dropped_total (runs_of s eid))"

section \<open>The bullets\<close>

definition crawl_lines :: "run_row list \<Rightarrow> pystr list" where
  "crawl_lines crawl_rows =
     (let crawls = length crawl_rows;
          stops = filter (\<lambda>t. t \<noteq> []) (List.map_filter run_stop_reason crawl_rows)
      in if crawls = 0 then [u ''- **No automated crawl.** No run recorded for this engagement has `kind = 'crawl'`: attack surface here is what was browsed through the proxy, and anything never visited was never tested.'']
         else [u ''- **'' @ dec_nat crawls @ u '' of the run(s) recorded for this engagement carry `kind = 'crawl'`.** Attack surface here is therefore not only what was browsed through the proxy. Coverage above states how many surfaces were captured in total and how many no check answered for; read the denominator there, not this bullet, for what was reached.'', u ''  This build's crawler follows links and renders JavaScript. It submits **no forms**, **clicks nothing**, walks no route that requires interaction to reach, and runs **unauthenticated** -- so anything behind a login, behind a button, or reachable only by submitting a form was not discovered by it. Pages recorded as `degraded` **may not have rendered**: a third-party resource they requested was out of scope and was dropped.'']
           @ (if stops = [] then []
              else [u ''  A crawl recorded why it stopped: '' @ join (u '' '' @ DOT @ u '' '') (map (\<lambda>t. code_span (redact_url t)) stops) @ u ''. A crawl that ran out of budget covered less than the application, and the surfaces it never reached were never tested -- read this before reading the coverage denominator as the whole attack surface.'']))"

definition body_line :: "check_decl list \<Rightarrow> pystr" where
  "body_line active = (if active \<noteq> [] then u ''- **Request-body parameters were recorded but not probed.** This build ships '' @ dec_nat (length active) @ u '' active check(s) ('' @ check_names active @ u ''), and none of them can reach a request body: this side of the config has no `method.allow` key, so the extension's default method allowlist (GET, HEAD, OPTIONS) applies unconditionally, whatever safety profile a run named.'' else u ''- **Request-body parameters were recorded but not probed.** This build ships no active checks, so no request carrying a payload was ever issued. Even a future active check would be limited the same way regardless of a run's safety profile: this side of the config has no `method.allow` key, so the extension's default method allowlist (GET, HEAD, OPTIONS) applies unconditionally.'')"

definition citation_line :: "check_decl list \<Rightarrow> nat \<Rightarrow> pystr" where
  "citation_line active off_proxy =
     (let recorded = (if off_proxy \<noteq> 0 then dec_nat off_proxy @ u '' exchange(s) recorded here were issued by hx rather than captured through the proxy, and nothing records which of those a check's probe made'' else u ''no exchange recorded for this engagement was issued by hx at all '' @ DASH @ u '' every one of them was captured through the proxy'')
      in u ''- **An active finding cites captured traffic, not the probe that proved it.** The '' @ dec_nat (length active) @ u '' active check(s) in this build ('' @ check_names active @ u '') cite the affected surface's captured exemplar request as their evidence: '' @ recorded @ u ''. The request shown under an active finding is therefore a request TO the affected surface, not the request that demonstrated the flaw; reproduce one from the finding's description and insertion point rather than by replaying its evidence bullet.'')"

definition session_line :: "check_decl list \<Rightarrow> nat \<Rightarrow> nat \<Rightarrow> pystr" where
  "session_line active scans carried =
     (if carried \<noteq> 0 then
        (let anonymous = (if scans > carried then u ''The other '' @ dec_nat (scans - carried) @ u '' scan(s) recorded here sent every probe logged out, and against an application that requires a session those probes tested the logged-out view of it. '' else [])
         in u ''- **'' @ dec_nat carried @ u '' of the '' @ dec_nat scans @ u '' scan(s) recorded here ran under a session.** The '' @ dec_nat (length active) @ u '' active check(s) in this build ('' @ check_names active @ u '') build each probe from the affected surface's captured request line and add the one credential header the engagement declared for that session; they send nothing else with it, and none of the endpoint's other parameters. '' @ anonymous @ u ''A login redirect, an authorisation refusal, or a rejection of the request itself is recorded as `inconclusive` rather than as a clean result '' @ DASH @ u '' hx reads only a 2xx response as an answer it may reason about '' @ DASH @ u '' so no surface is reported as tested on the strength of one, but nothing was covered on those surfaces either. What that cannot catch is a refusal delivered UNDER a 2xx: an application that answers a logged-out request with a 200 login PAGE, or an API that reports a rejected parameter in a 200 error envelope, cannot be told apart here from one that answered, so a probe against it is recorded as a clean result. Session identity, under Provenance, says which runs proved their session live and which did not.'')
      else u ''- **Every probe was sent unauthenticated.** The '' @ dec_nat (length active) @ u '' active check(s) in this build ('' @ check_names active @ u '') build each probe from the affected surface's captured request line and send nothing else with it: no cookie, no `Authorization`, and none of the endpoint's other parameters. Against an application that requires a session, a probe therefore tests the logged-out view of it. A login redirect, an authorisation refusal, or a rejection of the request itself is recorded as `inconclusive` rather than as a clean result '' @ DASH @ u '' hx reads only a 2xx response as an answer it may reason about '' @ DASH @ u '' so no surface is reported as tested on the strength of one, but nothing was covered on those surfaces either. What that cannot catch is a refusal delivered UNDER a 2xx: an application that answers a logged-out request with a 200 login PAGE, or an API that reports a rejected parameter in a 200 error envelope, cannot be told apart here from one that answered, so a probe against it is recorded as a clean result. That costs coverage and nothing more '' @ DASH @ u '' the bullet below is why no clean result from an active check can close anything.'')"

definition retest_line :: "check_decl list \<Rightarrow> nat \<Rightarrow> nat \<Rightarrow> pystr" where
  "retest_line active scans proven =
     (if proven \<noteq> 0 then u ''- **An active finding is marked as no longer observed only where it was re-tested under a session proved live.** '' @ dec_nat proven @ u '' of the '' @ dec_nat scans @ u '' scan(s) here ran under such a session, and where one of the '' @ dec_nat (length active) @ u '' active check(s) in this build ('' @ check_names active @ u '') looked for a previously reported issue on the same surface and did not find it, that finding is shown as appearing fixed. That does not extend to a surface where the check found something else: this build's active checks retire nothing on a surface they reported any finding on this scan, even under a proven session, so a surface partially fixed since a prior finding was reported waits for a scan on which the check comes back wholly clean before any of it is shown as fixed. A scan that ran anonymously closes nothing, and neither does one whose session failed its liveness check anywhere in the run: hx under-claims rather than telling you an issue is fixed on the strength of a probe that may have been logged out. **Verify an active finding against the fixed application yourself before closing it.** Where the Coverage table shows one of these checks as `clean`, that means it ran and found nothing this time; on its own it is not a statement that a previously reported issue is gone.'' else u ''- **An active finding is never automatically marked as fixed.** The '' @ dec_nat (length active) @ u '' active check(s) in this build ('' @ check_names active @ u '') re-issue requests, so a later scan does see the application as it is now '' @ DASH @ u '' but no scan recorded here proved it was seeing the view your users are in, so no finding from one of these checks is recorded here as no longer observed, whatever those scans saw. Re-running this assessment as it stands will not change that: hx closes an active finding only on a scan issued under a session it has proved live, and none of the scans behind this report was. **Verify an active finding against the fixed application yourself before closing it.** Where the Coverage table shows one of these checks as `clean`, that means it ran and found nothing this time; it is not a statement that a previously reported issue is gone.'')"

definition refused_lines :: "nat \<Rightarrow> nat \<Rightarrow> nat \<Rightarrow> pystr list" where
  "refused_lines scans carried origin_refused =
     (if carried \<noteq> 0 \<and> origin_refused \<noteq> 0 then [u ''- **'' @ dec_nat origin_refused @ u '' of the '' @ dec_nat scans @ u '' scan(s) recorded here had at least one probe refused `identity_origin`.** By default an identity's credential is bound to the single host its liveness canary proved live, so that the session never carries to a third-party host that happens to be in scope. On this engagement, a probe addressed to another host was refused before it reached the target rather than sent without the session: the affected surface reads `inconclusive` here instead of `clean`, and the Coverage table's reason cell names the refusal on each row it happened to. To test those hosts under this session, declare `identities.<id>.origins` for the identity in `config.yaml`, naming every host the session is valid for.''] else [])"

definition credential_names :: pystr where
  "credential_names =
     (let names = map (\<lambda>h. u ''`'' @ h @ u ''`'') (sort (map lower CREDENTIAL_HEADERS))
      in join (u '' or '') (if length names > 1 then [join (u '', '') (butlast names), last names] else names))"

definition credential_line :: pystr where
  "credential_line = (let credential_headers = credential_names in u ''- **Cookie and credential-header insertion points were not probed.** The extension refuses any request carrying an '' @ credential_headers @ u '' header it did not inject itself, so no active check can put a payload in one. Wherever the captured traffic held a cookie or one of those headers, that input was skipped rather than tested.'')"

text \<open>What the active checks leave out: the bullets that are there only while the registry holds one.\<close>

definition active_lines :: "store \<Rightarrow> pystr \<Rightarrow> check_decl list \<Rightarrow> pystr list" where
  "active_lines s eid active =
     (case identity_counts s eid of (scans, carried, proven) \<Rightarrow>
        [citation_line active (off_proxy_exchanges s eid), session_line active scans carried, retest_line active scans proven]
        @ refused_lines scans carried (origin_refused_scans s eid) @ [credential_line])"

text \<open>\<open>probes_templated_segments\<close>: path traversal is the one check that has it, computed from its own name filter.\<close>

definition probes_templated :: "check_decl \<Rightarrow> bool" where
  "probes_templated c \<longleftrightarrow> cd_id c \<noteq> u ''hx.active.path-traversal'' \<or> (\<exists>p \<in> set PLACEHOLDERS. hinted FILE_NAME_HINTS p)"

definition templated_lines :: "check_decl list \<Rightarrow> pystr list" where
  "templated_lines active =
     (let unreachable = filter (\<lambda>c. u ''path_segment'' \<in> set (cd_insertion_kinds c) \<and> \<not> probes_templated c) active;
          placeholders = join (u '', '') (map (\<lambda>p. u ''`'' @ p @ u ''`'') PLACEHOLDERS)
      in if unreachable = [] then [] else [u ''- **'' @ check_names unreachable @ u '' probed no templated path segment.** It declares that insertion kind, but it probes a point only when the point's name looks like it names a file, and every templated segment hx can mint is one of '' @ placeholders @ u '' -- none of which does. Where this report says that check examined a surface, it examined that surface's query parameters.''])"

definition fixed_lines :: "check_decl list \<Rightarrow> check_decl list \<Rightarrow> nat \<Rightarrow> nat \<Rightarrow> pystr list" where
  "fixed_lines passive active scans proven =
     (if passive \<noteq> [] \<and> active = [] then [u ''- **A fixed issue cannot be shown as fixed by re-browsing.** Every check in this build is passive: it reads this engagement's whole captured history for a surface, not only the newest traffic. One recorded response is therefore enough to keep a finding live for the life of the engagement, however much clean traffic follows it. Re-running a scan after a fix will still report the finding. A retest must be run as a NEW engagement against the fixed application; this one is a record of what was served during the assessment window.'']
      else if passive \<noteq> [] then
        (let headline = (if proven \<noteq> 0 then u ''- **A passive finding in this report cannot be shown as fixed by re-running this assessment.**'' else u ''- **No finding in this report can be shown as fixed by re-running this assessment.**'');
             active_half = (if proven \<noteq> 0 then u ''The active checks ('' @ check_names active @ u '') do re-issue requests, and '' @ dec_nat proven @ u '' of the '' @ dec_nat scans @ u '' scan(s) here ran under a session proved live -- so an active finding CAN be shown as fixed by a further scan under such a session, on the terms the bullet above gives.'' else u ''The active checks ('' @ check_names active @ u '') do re-issue requests, but hx never marks one of their findings as no longer observed, for the reason the bullet above gives.'')
         in [headline @ u '' The passive checks in this build ('' @ check_names passive @ u '') read this engagement's whole captured history for a surface, not only the newest traffic, so one recorded response keeps a finding of theirs live for the life of the engagement however much clean traffic follows it; a retest of one must be run as a NEW engagement against the fixed application. '' @ active_half @ u '' Either way, a fix is confirmed by re-testing the application and not by re-reading this document.''])
      else [])"

definition dropped_lines :: "int \<Rightarrow> pystr list" where
  "dropped_lines dropped = (if dropped \<noteq> 0 then [u ''- **'' @ dump_int dropped @ u '' record(s) were dropped during capture.** Every count in this report is therefore a **floor**, not a total: the assessment saw at least this much, and may have seen less than the application offered.''] else [])"

definition limits :: "store \<Rightarrow> pystr \<Rightarrow> pystr list" where
  "limits s eid =
     (let passive = passive_shipped; active = active_shipped in
      case identity_counts s eid of (scans, carried, proven) \<Rightarrow>
        [u ''## Limits'' @ [10], u ''What this assessment did not cover, stated rather than implied.'' @ [10]] @ [u ''- **No blind-only checks.** This build ships no out-of-band collector, so vulnerabilities detectable only by an external interaction were not tested for.''] @ crawl_lines (kind_runs s eid (u ''crawl'')) @ [body_line active]
        @ (if active \<noteq> [] then active_lines s eid active else [])
        @ templated_lines active @ fixed_lines passive active scans proven
        @ dropped_lines (dropped_records s eid) @ [[]])"

section \<open>The document\<close>

definition heading_lines :: "engagement_row \<Rightarrow> pystr list" where
  "heading_lines eng =
     [u ''# '' @ flat (redact_url (eg_client eng)) @ u '' '' @ DASH @ u '' web application assessment'' @ [10],
      u ''Engagement '' @ code_span (redact_url (eg_name eng)) @ u ''.'' @ [10]]"

text \<open>
  An engagement with no row is the \<open>TypeError\<close> of indexing \<open>None\<close>; the other error is that of the insertion points, which
  are left out when there is no blob store to read.
\<close>

definition document :: "report_env \<Rightarrow> pystr \<Rightarrow> config \<Rightarrow> report_exc + pystr list" where
  "document env eid c =
     (case find (\<lambda>g. eg_id g = eid) (rp_engagements env) of
        None \<Rightarrow> Inl ReportTypeError
      | Some eng \<Rightarrow>
          let s = rp_store env; cov = facts s eid in
          rbind (case rp_read_blob env of None \<Rightarrow> Inr [] | Some read_blob \<Rightarrow> insertion_coverage env eid read_blob) (\<lambda>points.
            Inr (heading_lines eng
              @ provenance env eid c (eg_created_us eng) (cv_unfinished cov)
              @ findings_section s eid c (cv_scanned cov) (cv_unfinished cov)
              @ coverage_section c cov
              @ points
              @ limits s eid)))"

definition render :: "report_env \<Rightarrow> pystr \<Rightarrow> config \<Rightarrow> report_exc + pystr" where
  "render env eid c = rbind (document env eid c) (\<lambda>lines. Inr (join [10] lines @ [10]))"

text \<open>The tool: the document and its length in UTF-8, whose \<open>UnicodeEncodeError\<close> is a \<open>ValueError\<close>.\<close>

definition report_render :: "report_env \<Rightarrow> pystr \<Rightarrow> config \<Rightarrow> report_exc + json" where
  "report_render env eid c =
     rbind (render env eid c) (\<lambda>text.
       case utf8_encode text of
         None \<Rightarrow> Inl ReportValueError
       | Some raw \<Rightarrow> Inr (JObj [(u ''markdown'', JStr text), (u ''bytes'', JInt (int (length raw)))]))"

end
