(* ===== verification/Report_Lines.thy ===== *)
theory Report_Lines
  imports Report_Limits
begin

text \<open>
  The lines of the report: no text of the store breaks a line of \<open>document\<close> in two. The lemmas go section by section over a
  predicate that \<open>simp\<close> computes on the literals and distributes over the rest.
\<close>

definition plain :: "pystr \<Rightarrow> bool" where
  "plain s \<longleftrightarrow> 10 \<notin> set s \<and> 13 \<notin> set s"

definition unbroken :: "pystr \<Rightarrow> bool" where
  "unbroken l \<longleftrightarrow> 13 \<notin> set l \<and> 10 \<notin> set (butlast l)"

definition lines_ok :: "pystr list \<Rightarrow> bool" where
  "lines_ok ls \<longleftrightarrow> (\<forall>l \<in> set ls. unbroken l)"

text \<open>Neither of the two is in a literal, whose characters \<open>simp\<close> tests by their bits.\<close>

fun low_char :: "char \<Rightarrow> bool" where
  "low_char (Char b0 b1 b2 b3 b4 b5 b6 b7) = (\<not> b4 \<and> \<not> b5 \<and> \<not> b6 \<and> \<not> b7)"

fun no_break :: "string \<Rightarrow> bool" where
  "no_break [] = True"
| "no_break (c # s) = (\<not> low_char c \<and> no_break s)"

named_theorems line_rules \<open>compute which texts are one line\<close>

lemma low_char_breaks: "\<not> low_char c \<Longrightarrow> of_char c \<noteq> (10::nat) \<and> of_char c \<noteq> (13::nat)"
proof -
  assume a: "\<not> low_char c"
  have "low_char (char_of (10::nat))" "low_char (char_of (13::nat))" by (simp_all add: char_of_def)
  then have "c \<noteq> char_of (10::nat)" "c \<noteq> char_of (13::nat)" using a by auto
  then show ?thesis by (metis char_of_char)
qed

lemma plain_u [line_rules]: "no_break s \<Longrightarrow> plain (u s)"
proof (induction s)
  case (Cons c s)
  then show ?case using low_char_breaks [of c] by (simp add: plain_def u_def)
qed (simp add: plain_def u_def)

lemma plain_parts [line_rules]:
  "plain []" "plain (c # s) \<longleftrightarrow> c \<noteq> 10 \<and> c \<noteq> 13 \<and> plain s" "plain (s @ t) \<longleftrightarrow> plain s \<and> plain t"
  "plain (if p then s else t) \<longleftrightarrow> (if p then plain s else plain t)"
  by (auto simp: plain_def)

lemma plain_glyphs [line_rules]: "plain DASH" "plain DOT" "plain ARROW" "plain ELLIPSIS"
  by (simp_all add: plain_def DASH_def DOT_def ARROW_def ELLIPSIS_def)

lemma plain_unbroken [line_rules]: "plain l \<Longrightarrow> unbroken l"
  by (auto simp: plain_def unbroken_def dest: in_set_butlastD)

lemma unbroken_end [line_rules]: "unbroken [10]" "unbroken []"
  by (simp_all add: unbroken_def)

lemma unbroken_append [line_rules]: "plain s \<Longrightarrow> unbroken t \<Longrightarrow> unbroken (s @ t)"
  by (auto simp: plain_def unbroken_def butlast_append dest: in_set_butlastD)

lemma unbroken_if [line_rules]: "unbroken (if p then s else t) \<longleftrightarrow> (if p then unbroken s else unbroken t)"
  by simp

lemma lines_ok_parts [line_rules]:
  "lines_ok []" "lines_ok (l # ls) \<longleftrightarrow> unbroken l \<and> lines_ok ls" "lines_ok (ls @ ms) \<longleftrightarrow> lines_ok ls \<and> lines_ok ms"
  "lines_ok (map f xs) \<longleftrightarrow> (\<forall>x \<in> set xs. unbroken (f x))"
  "lines_ok (concat lss) \<longleftrightarrow> (\<forall>l \<in> set lss. lines_ok l)"
  "lines_ok (if p then ls else ms) \<longleftrightarrow> (if p then lines_ok ls else lines_ok ms)"
  by (auto simp: lines_ok_def)

section \<open>Text from the store\<close>

lemma plain_flat [line_rules]: "plain (flat s)"
  by (induction s rule: flat.induct) (auto simp: plain_def split: list.splits)

lemma plain_replicate: "c \<noteq> 10 \<Longrightarrow> c \<noteq> 13 \<Longrightarrow> plain (replicate n c)"
  by (auto simp: plain_def)

lemma plain_code_span [line_rules]: "plain (code_span s)"
  by (simp add: code_span_def Let_def line_rules plain_replicate)

lemma plain_cell [line_rules]: "plain (cell s)"
  using plain_flat [of s] by (auto simp: plain_def cell_def split: if_splits)

lemma plain_or_none [line_rules]: "(\<And>t. plain (f t)) \<Longrightarrow> plain (or_none f x)"
  by (simp add: or_none_def line_rules split: option.splits)

lemma plain_dec_nat [line_rules]: "plain (dec_nat n)"
  using is_digit_dec_nat [of 10 n] is_digit_dec_nat [of 13 n] by (auto simp: plain_def is_digit_def)

lemma plain_dump_int [line_rules]: "plain (dump_int n)"
  using dump_int_chars [of 10 n] dump_int_chars [of 13 n] by (auto simp: plain_def)

lemma plain_two_digits [line_rules]: "plain (two_digits n)"
  by (simp add: two_digits_def line_rules)

lemma plain_utc [line_rules]: "plain (utc t)" "plain (utc_opt x)"
proof -
  show a: "plain (utc t)" for t by (simp add: utc_def Let_def line_rules split: prod.splits)
  show "plain (utc_opt x)" by (cases x) (simp_all add: utc_opt_def line_rules a)
qed

lemma plain_join [line_rules]: "plain sep \<Longrightarrow> \<forall>x \<in> set xs. plain x \<Longrightarrow> plain (join sep xs)"
  by (auto simp: plain_def dest: join_chars)

lemma shipped_ids: "c \<in> set SHIPPED \<Longrightarrow> plain (cd_id c)"
proof -
  have "\<forall>c \<in> set SHIPPED. plain (cd_id c)"
    by (simp add: SHIPPED_def CHECKS_def passive_checks_def passive_check_def active_check_of_def line_rules)
  then show "c \<in> set SHIPPED \<Longrightarrow> plain (cd_id c)" by simp
qed

lemma plain_check_names [line_rules]: "set cs \<subseteq> set SHIPPED \<Longrightarrow> plain (check_names cs)"
  by (auto simp: check_names_def line_rules shipped_ids subset_iff intro!: plain_join)

lemma corpus_parts [line_rules]: "set active_shipped \<subseteq> set SHIPPED" "set passive_shipped \<subseteq> set SHIPPED"
  by (auto simp: active_shipped_def passive_shipped_def)

lemma active_ne: "active_shipped \<noteq> []"
  by (simp add: active_shipped_def SHIPPED_def CHECKS_def active_check_of_def literals)

section \<open>Provenance\<close>

lemma window_lines_ok: "lines_ok (window_lines runs)"
  by (simp add: window_lines_def Let_def line_rules)

lemma unfinished_lines_ok: "lines_ok (unfinished_lines rs)"
  by (simp add: unfinished_lines_def unfinished_line_def line_rules split: option.splits)

lemma scope_of_record_ok: "plain (scope_digest env c) \<Longrightarrow> lines_ok (scope_of_record env eid c)"
  by (simp add: scope_of_record_def scope_table_def unstamped_lines_def boundary_lines_def Let_def line_rules)

lemma authorization_lines_ok: "lines_ok (authorization_lines env eid)"
  by (simp add: authorization_lines_def Let_def line_rules)

lemma plain_outcome_cell: "plain (outcome_cell rs)"
  by (simp add: outcome_cell_def Let_def line_rules)

lemma identity_lines_ok: "lines_ok (identity_lines env eid c)"
  by (simp add: identity_lines_def halted_lines_def identity_row_def Let_def line_rules plain_outcome_cell)

lemma provenance_ok: "plain (scope_digest env c) \<Longrightarrow> lines_ok (provenance env eid c created unfinished)"
  by (simp add: provenance_def line_rules window_lines_ok unfinished_lines_ok scope_of_record_ok authorization_lines_ok
      identity_lines_ok)

section \<open>Findings\<close>

lemma evidence_lines_ok: "lines_ok (evidence_lines s fid)"
proof -
  have "unbroken (evidence_line e x)" for e x
    by (simp add: evidence_line_def Let_def line_rules split: option.splits)
  then have "lines_ok (List.map_filter (\<lambda>(e, x). map_option (evidence_line e) x) rows)" for rows
    by (induction rows) (auto simp: List.map_filter_simps lines_ok_def split: option.splits)
  moreover have "\<forall>x \<in> set (evidence_caveats w n k). plain x" for w n k
    by (auto simp: evidence_caveats_def Let_def line_rules split: if_splits)
  ultimately show ?thesis by (simp add: evidence_lines_def Let_def line_rules)
qed

lemma finding_lines_ok:
  assumes "plain (fi_confidence f)" "plain (fi_status f)"
  shows "lines_ok (finding_lines s f)"
proof -
  have "plain (status_text s (fi_id f) (fi_status f))"
    using assms(2) by (simp add: status_text_def line_rules split: option.splits)
  then show ?thesis
    using assms(1) by (simp add: finding_lines_def labelled_def Let_def line_rules evidence_lines_ok)
qed

lemma corpus_ok: "unbroken (scope_of_the_corpus c)"
  by (simp add: scope_of_the_corpus_def ABSENT_CATEGORIES_def Let_def line_rules)

lemma findings_section_ok:
  assumes "\<forall>f \<in> set (st_findings s). plain (fi_confidence f) \<and> plain (fi_status f)"
  shows "lines_ok (findings_section s eid c scanned unfinished)"
proof -
  have "\<forall>f \<in> set (findings_of s eid). lines_ok (finding_lines s f)"
    using assms by (auto simp: findings_of_def finding_lines_ok)
  then have "lines_ok (severity_lines s (findings_of s eid) v)" if "v \<in> set SEVERITY_ORDER" for v
    using that by (auto simp: severity_lines_def Let_def line_rules SEVERITY_ORDER_def)
  then show ?thesis by (simp add: findings_section_def Let_def line_rules corpus_ok)
qed

section \<open>Coverage\<close>

lemma coverage_section_ok: "\<forall>(k, on) \<in> set (cf_checks c). plain k \<Longrightarrow> lines_ok (coverage_section c cov)"
proof -
  assume a: "\<forall>(k, on) \<in> set (cf_checks c). plain k"
  then have k: "\<forall>k \<in> set (unshipped_classes c). plain k" by (auto simp: unshipped_classes_def)
  have r: "plain (reason_cell rs)" for rs by (simp add: reason_cell_def Let_def line_rules)
  have "lines_ok (coverage_rows cov)" by (auto simp: coverage_rows_def line_rules r split: prod.splits)
  moreover have "lines_ok (untested_lines rows)" for rows
    by (auto simp: untested_lines_def Let_def line_rules split: prod.splits)
  ultimately show ?thesis using k by (simp add: coverage_section_def Let_def line_rules)
qed

lemma insertion_coverage_ok: "insertion_coverage env eid rb = Inr ls \<Longrightarrow> lines_ok ls"
  by (auto simp: insertion_coverage_def insertion_table_def Let_def line_rules rbind_Inr_iff split: prod.splits)

lemma limits_ok: "lines_ok (limits s eid)"
proof -
  have cr: "lines_ok (crawl_lines rows)" for rows by (simp add: crawl_lines_def Let_def line_rules)
  have bo: "plain (body_line active_shipped)" by (simp add: body_line_def line_rules)
  have ci: "plain (citation_line active_shipped n)" for n by (simp add: citation_line_def Let_def line_rules)
  have se: "plain (session_line active_shipped n m)" for n m by (simp add: session_line_def Let_def line_rules)
  have re: "plain (retest_line active_shipped n m)" for n m by (simp add: retest_line_def line_rules)
  have rf: "lines_ok (refused_lines n m k)" for n m k by (simp add: refused_lines_def line_rules)
  have "\<forall>h \<in> set (sort (map lower CREDENTIAL_HEADERS)). plain h"
    by (simp add: CREDENTIAL_HEADERS_def u_def lower_def lower1_def plain_def)
  then have h: "\<forall>h \<in> set (map (\<lambda>h. u ''`'' @ h @ u ''`'') (sort (map lower CREDENTIAL_HEADERS))). plain h"
    by (simp add: line_rules)
  have "plain (join (u '' or '') (if length ns > 1 then [join (u '', '') (butlast ns), last ns] else ns))"
    if "\<forall>n \<in> set ns. plain n" for ns
    using that by (cases "ns = []") (auto simp: line_rules intro!: plain_join dest: in_set_butlastD)
  from this [OF h] have "plain credential_names" by (simp add: credential_names_def Let_def)
  then have cn: "plain credential_line" by (simp add: credential_line_def Let_def line_rules)
  have te: "lines_ok (templated_lines active_shipped)"
  proof -
    have "set (filter p active_shipped) \<subseteq> set SHIPPED" for p using corpus_parts(1) by auto
    then show ?thesis by (simp add: templated_lines_def Let_def line_rules PLACEHOLDERS_def)
  qed
  have fx: "lines_ok (fixed_lines passive_shipped active_shipped n m)" for n m by (simp add: fixed_lines_def Let_def line_rules)
  have dr: "lines_ok (dropped_lines n)" for n by (simp add: dropped_lines_def line_rules)
  show ?thesis
    by (simp add: limits_def active_lines_def Let_def line_rules cr bo ci se re rf cn te fx dr active_ne split: prod.splits)
qed

section \<open>The document\<close>

text \<open>The fields the report shows as they are: vocabularies the schema's \<open>CHECK\<close>s close, the digest of the configuration and
  the names of check classes, which the configuration takes from a list.\<close>

definition raw_fields_plain :: "report_env \<Rightarrow> config \<Rightarrow> bool" where
  "raw_fields_plain env c \<longleftrightarrow>
     plain (scope_digest env c) \<and> (\<forall>(k, on) \<in> set (cf_checks c). plain k)
     \<and> (\<forall>f \<in> set (st_findings (rp_store env)). plain (fi_confidence f) \<and> plain (fi_status f))"

lemma document_ok:
  assumes "raw_fields_plain env c" "document env eid c = Inr lines"
  shows "lines_ok lines"
proof -
  obtain eng points where e: "lines = heading_lines eng
      @ provenance env eid c (eg_created_us eng) (cv_unfinished (facts (rp_store env) eid))
      @ findings_section (rp_store env) eid c (cv_scanned (facts (rp_store env) eid)) (cv_unfinished (facts (rp_store env) eid))
      @ coverage_section c (facts (rp_store env) eid) @ points @ limits (rp_store env) eid"
    and p: "(case rp_read_blob env of None \<Rightarrow> Inr [] | Some rb \<Rightarrow> insertion_coverage env eid rb) = Inr points"
    using assms(2) by (auto simp: document_def Let_def rbind_Inr_iff split: option.splits)
  have "lines_ok points" using p by (auto simp: line_rules insertion_coverage_ok split: option.splits)
  moreover have "lines_ok (heading_lines eng)" by (simp add: heading_lines_def line_rules)
  ultimately show ?thesis
    using assms(1) unfolding e raw_fields_plain_def
    by (simp add: line_rules provenance_ok findings_section_ok coverage_section_ok limits_ok)
qed

text \<open>What a line of the document is on the page: an element that ends with a newline is followed by an empty line.\<close>

definition physical :: "pystr \<Rightarrow> pystr list" where
  "physical l = (if l \<noteq> [] \<and> last l = 10 then [butlast l, []] else [l])"

lemma split_physical: "unbroken l \<Longrightarrow> split1 10 (l @ 10 # t) = physical l @ split1 10 t"
proof (cases "l \<noteq> [] \<and> last l = 10")
  case True
  assume o: "unbroken l"
  from True obtain m where m: "l = m @ [10]" by (metis append_butlast_last_id)
  then have "10 \<notin> set m" using o by (simp add: unbroken_def)
  then show ?thesis using True m split1_append [of 10 m "10 # t"] by (simp add: physical_def)
next
  case False
  assume o: "unbroken l"
  have "10 \<notin> set l"
  proof (cases "l = []")
    case f: False
    then have "set l = insert (last l) (set (butlast l))"
      by (metis append_butlast_last_id list.set(1) list.simps(15) set_append Un_insert_right sup_bot.right_neutral)
    then show ?thesis using o f False by (auto simp: unbroken_def)
  qed simp
  then show ?thesis using False split1_append [of 10 l t] by (simp add: physical_def)
qed

lemma split_lines: "ls \<noteq> [] \<Longrightarrow> lines_ok ls \<Longrightarrow> split1 10 (join [10] ls @ [10]) = concat (map physical ls) @ [[]]"
proof (induction ls rule: induct_list012)
  case (2 x)
  then show ?case using split_physical [of x "[]"] by (simp add: line_rules lines_ok_def)
next
  case (3 x y ys)
  then show ?case using split_physical [of x "join [10] (y # ys) @ [10]"] by (simp add: line_rules lines_ok_def)
qed simp

end
