(* ===== verification/Report_Laws.thy ===== *)
theory Report_Laws
  imports Report_Lines Config_Laws "HOL-Library.Multiset" "HOL-Library.Sublist"
begin

text \<open>
  What the report says: its text read back by the rules of Markdown, its counts against the rows they count, and when it says
  that nothing was found.
\<close>

section \<open>A code span\<close>

text \<open>
  CommonMark's code span: it opens with a run of backticks, closes at the next run of the same length, and loses one space
  at each end when it has one at both and is not all spaces.
\<close>

definition ticks :: "pystr \<Rightarrow> nat" where
  "ticks s = length (takeWhile (\<lambda>c. c = 96) s)"

function close_span :: "nat \<Rightarrow> pystr \<Rightarrow> pystr \<Rightarrow> (pystr \<times> pystr) option" where
  "close_span n acc [] = None"
| "close_span n acc (c # s) =
     (if c \<noteq> 96 then close_span n (acc @ [c]) s
      else let k = ticks s in
        if Suc k = n then Some (acc, drop k s) else close_span n (acc @ replicate (Suc k) 96) (drop k s))"
  by pat_completeness auto
termination by (relation "measure (\<lambda>(n, acc, s). length s)") auto

definition strip_pad :: "pystr \<Rightarrow> pystr" where
  "strip_pad s = (if s \<noteq> [] \<and> hd s = 32 \<and> last s = 32 \<and> (\<exists>c \<in> set s. c \<noteq> 32) then tl (butlast s) else s)"

definition read_span :: "pystr \<Rightarrow> (pystr \<times> pystr) option" where
  "read_span s =
     (let n = ticks s in
      if n = 0 then None else map_option (\<lambda>(body, rest). (strip_pad body, rest)) (close_span n [] (drop n s)))"

lemma longest_run_ge: "m \<le> longest_run r m s"
  by (induction s arbitrary: r m) (auto simp: Let_def intro: order_trans [OF max.cobounded1])

lemma longest_run_block: "r + k \<le> longest_run r m (replicate k 96 @ q) \<or> k = 0"
proof (induction k arbitrary: r m)
  case (Suc k)
  show ?case
  proof (cases k)
    case 0
    then show ?thesis using longest_run_ge [of "max m (r + 1)" "r + 1" q] by simp
  next
    case (Suc j)
    then show ?thesis using Suc.IH [of "r + 1" "max m (r + 1)"] by (simp add: Let_def)
  qed
qed simp

lemma longest_run_bounds: "s = p @ replicate k 96 @ q \<Longrightarrow> k \<le> longest_run r m s"
proof (induction p arbitrary: r m s)
  case Nil
  then show ?case using longest_run_block [of r k m q] by auto
qed (simp add: Let_def)

lemma longest_run_space: "longest_run r m (s @ [32]) = longest_run r m s" "longest_run 0 0 (32 # s) = longest_run 0 0 s"
  by (induction s arbitrary: r m) (auto simp: Let_def)

lemma ticks_replicate: "rest = [] \<or> hd rest \<noteq> 96 \<Longrightarrow> ticks (replicate k 96 @ rest) = k"
  by (cases rest) (auto simp: ticks_def takeWhile_append)

lemma ticks_split: "s = replicate (ticks s) 96 @ drop (ticks s) s" "drop (ticks s) s = [] \<or> hd (drop (ticks s) s) \<noteq> 96"
proof -
  have "takeWhile (\<lambda>c. c = 96) s = replicate (ticks s) 96"
    unfolding ticks_def by (rule replicate_length_same [symmetric]) (auto dest: set_takeWhileD)
  then show "s = replicate (ticks s) 96 @ drop (ticks s) s"
    using takeWhile_dropWhile_id [of "\<lambda>c. c = 96" s] by (simp add: ticks_def dropWhile_eq_drop)
  show "drop (ticks s) s = [] \<or> hd (drop (ticks s) s) \<noteq> 96"
    using hd_dropWhile [of "\<lambda>c. c = 96" s] by (auto simp: ticks_def dropWhile_eq_drop)
qed

lemma close_span_finds:
  assumes "\<And>p k q. body = p @ replicate k 96 @ q \<Longrightarrow> k < n" "body = [] \<or> last body \<noteq> 96" "rest = [] \<or> hd rest \<noteq> 96"
  shows "close_span n acc (body @ replicate n 96 @ rest) = Some (acc @ body, rest)"
  using assms(1,2)
proof (induction "length body" arbitrary: body acc rule: less_induct)
  case less
  have n: "0 < n" using less.prems(1) [of "[]" 0 body] by simp
  show ?case
  proof (cases body)
    case Nil
    obtain m where m: "n = Suc m" using n by (cases n) auto
    then show ?thesis using Nil ticks_replicate [OF assms(3), of m] by simp
  next
    case (Cons c s)
    show ?thesis
    proof (cases "c = 96")
      case False
      have "close_span n (acc @ [c]) (s @ replicate n 96 @ rest) = Some ((acc @ [c]) @ s, rest)"
      proof (rule less.hyps)
        show "k < n" if "s = p @ replicate k 96 @ q" for p k q
          using less.prems(1) [of "c # p" k q] that Cons by simp
        show "s = [] \<or> last s \<noteq> 96" using less.prems(2) Cons by (auto split: if_splits)
      qed (simp add: Cons)
      then show ?thesis using Cons False by simp
    next
      case True
      define k t where "k = ticks s" and "t = drop (ticks s) s"
      have s: "s = replicate k 96 @ t" and t: "t = [] \<or> hd t \<noteq> 96" using ticks_split [of s] by (simp_all add: k_def t_def)
      have "body = replicate (Suc k) 96 @ t" using Cons True s by simp
      then have "t \<noteq> []" using less.prems(2) by (auto simp del: replicate_Suc simp: last_replicate)
      then have tk: "ticks (s @ replicate n 96 @ rest) = k" using ticks_replicate [of "t @ replicate n 96 @ rest" k] s t by simp
      have "Suc k < n" using less.prems(1) [of "[]" "Suc k" t] Cons True s by simp
      moreover have "close_span n (acc @ replicate (Suc k) 96) (t @ replicate n 96 @ rest) = Some ((acc @ replicate (Suc k) 96) @ t, rest)"
      proof (rule less.hyps)
        show "j < n" if "t = p @ replicate j 96 @ q" for p j q
          using less.prems(1) [of "replicate (Suc k) 96 @ p" j q] that Cons True s by simp
        show "t = [] \<or> last t \<noteq> 96" using less.prems(2) Cons s by (auto split: if_splits)
      qed (simp add: Cons s)
      ultimately show ?thesis using Cons True tk s by simp
    qed
  qed
qed

text \<open>Text shown as code is read back by a Markdown reader exactly as it was, line breaks flattened, and the reader is left
  with what follows: no backtick in the text closes the span early, and the padding is what the reader takes off. The text is not
  empty and does not begin and end with a space; the reader takes those off too.\<close>

theorem code_span_reads_back:
  assumes "flat v \<noteq> []" "\<not> (hd (flat v) = 32 \<and> last (flat v) = 32 \<and> (\<exists>c \<in> set (flat v). c \<noteq> 32))"
    and "rest = [] \<or> hd rest \<noteq> 96"
  shows "read_span (code_span v @ rest) = Some (flat v, rest)"
proof -
  define txt1 n where "txt1 = flat v" and "n = longest_run 0 0 txt1 + 1"
  define pad where "pad = (if hd txt1 = 96 \<or> last txt1 = 96 then [32] else [] :: pystr)"
  define body where "body = pad @ txt1 @ pad"
  have ne: "txt1 \<noteq> []" using assms(1) by (simp add: txt1_def)
  have cs: "code_span v = replicate n 96 @ body @ replicate n 96"
    using ne by (simp add: code_span_def Let_def txt1_def n_def pad_def body_def)
  have "longest_run 0 0 body = longest_run 0 0 txt1"
    using longest_run_space(1) [of 0 0 "32 # txt1"] by (simp add: body_def pad_def longest_run_space)
  then have runs: "k < n" if "body = p @ replicate k 96 @ q" for p k q
    using longest_run_bounds [OF that, of 0 0] by (simp add: n_def)
  have b: "body \<noteq> []" "hd body \<noteq> 96" "last body \<noteq> 96" using ne by (auto simp: body_def pad_def hd_append)
  have "ticks (replicate n 96 @ body @ replicate n 96 @ rest) = n" using b by (intro ticks_replicate) simp
  moreover have "close_span n [] (body @ replicate n 96 @ rest) = Some ([] @ body, rest)"
    by (rule close_span_finds [OF runs _ assms(3)]) (simp_all add: b)
  ultimately have r: "read_span (code_span v @ rest) = Some (strip_pad body, rest)"
    unfolding read_span_def cs Let_def by (simp add: n_def)
  have "strip_pad body = txt1"
  proof (cases "hd txt1 = 96 \<or> last txt1 = 96")
    case True
    then have "96 \<in> set txt1" using ne hd_in_set last_in_set by metis
    then have "\<exists>c \<in> set txt1. c \<noteq> 32" by (intro bexI [of _ 96]) simp_all
    then show ?thesis using True by (auto simp: strip_pad_def body_def pad_def butlast_append)
  next
    case False
    then show ?thesis using assms(2) by (auto simp: strip_pad_def body_def pad_def txt1_def)
  qed
  then show ?thesis using r by (simp add: txt1_def)
qed

text \<open>A text with a backtick in it, and what follows it on the line.\<close>

text \<open>The exception: a text between two spaces loses them.\<close>

lemma code_span_loses_spaces: "read_span (code_span (u '' a '')) = Some (u ''a'', [])"
  by (simp add: literals code_span_def read_span_def strip_pad_def ticks_def numeral_2_eq_2)

section \<open>The counts\<close>

lemma distinct_surfaces_card: "distinct_surfaces rows = card {sf. \<exists>c \<in> set rows. cr_surface c = Some sf}"
proof -
  have "set (List.map_filter cr_surface rows) = {sf. \<exists>c \<in> set rows. cr_surface c = Some sf}"
    by (induction rows) (auto simp: List.map_filter_simps split: option.splits)
  then show ?thesis by (simp add: distinct_surfaces_def length_remdups_card_conv)
qed

text \<open>The coverage figures are the sets they stand for. Captured surfaces are the ones some check answered for and the
  ones listed as untested; there is one figure per check and verdict that a row of the engagement has, and it is the number of
  distinct surfaces with such a row, so scanning a surface again does not raise it; and the engagement counts as scanned when
  there is a figure.\<close>

theorem coverage_counts:
  "cv_captured (facts s eid) = length (filter (has_answer s eid) (surfaces_of s eid)) + length (cv_untested (facts s eid))
   \<and> distinct (map fst (cv_by_check (facts s eid)))
   \<and> set (map fst (cv_by_check (facts s eid))) = answer_key ` set (check_rows_of s eid)
   \<and> map snd (cv_by_check (facts s eid)) =
       map (\<lambda>k. card {sf. \<exists>c. c \<in> set (check_rows_of s eid) \<and> answer_key c = k \<and> cr_surface c = Some sf})
         (map fst (cv_by_check (facts s eid)))
   \<and> (cv_scanned (facts s eid) \<longleftrightarrow> cv_by_check (facts s eid) \<noteq> [])"
proof -
  let ?n = "\<lambda>k. distinct_surfaces (filter (\<lambda>c. answer_key c = k) (check_rows_of s eid))"
  let ?ks = "sort_key fst (sort_key snd (remdups (map answer_key (check_rows_of s eid))))"
  have bc: "cv_by_check (facts s eid) = map (\<lambda>k. (k, ?n k)) ?ks" by (simp add: facts_def by_check_def Let_def)
  have "length (surfaces_of s eid)
      = length (filter (has_answer s eid) (surfaces_of s eid)) + length (filter (\<lambda>sf. \<not> has_answer s eid sf) (surfaces_of s eid))"
    by (simp add: sum_length_filter_compl)
  moreover have "?n k = card {sf. \<exists>c. c \<in> set (check_rows_of s eid) \<and> answer_key c = k \<and> cr_surface c = Some sf}" for k
    unfolding distinct_surfaces_card by (rule arg_cong [of _ _ card]) auto
  moreover have "?ks = [] \<longleftrightarrow> check_rows_of s eid = []"
    by (metis length_0_conv length_sort map_is_Nil_conv remdups_eq_nil_iff)
  ultimately show ?thesis
    by (auto simp: bc comp_def) (simp_all add: facts_def untested_surfaces_def)
qed

section \<open>When nothing was found\<close>

lemma u_inject: "u s = u t \<longleftrightarrow> s = t"
  unfolding u_def by (rule inj_eq [OF inj_on_mapI]) (simp add: inj_on_def)

definition NONE_RECORDED :: pystr where
  "NONE_RECORDED = u ''None recorded.'' @ [10]"

lemma sort_key_is_Nil: "sort_key f xs = [] \<longleftrightarrow> xs = []"
  by (metis set_empty set_sort)

lemma not_none_recorded: "u ''None recorded '' @ r \<noteq> NONE_RECORDED" "u ''**'' @ r \<noteq> NONE_RECORDED"
  by (simp_all add: NONE_RECORDED_def literals)

lemma severity_lines_long: "severity_lines s rows v = [] \<or> 2 \<le> length (severity_lines s rows v)"
  by (cases "filter (\<lambda>f. fi_severity f = v) rows") (simp_all add: severity_lines_def finding_lines_def Let_def)

lemma concat_never_one: "\<forall>x \<in> set xss. x = [] \<or> 2 \<le> length x \<Longrightarrow> length (concat xss) \<noteq> 1"
  by (induction xss) auto


section \<open>Every finding, worst first\<close>

definition report_rank :: "finding_row \<Rightarrow> nat" where
  "report_rank f = length (takeWhile (\<lambda>v. v \<noteq> fi_severity f) SEVERITY_ORDER)"

definition listing :: "store \<Rightarrow> pystr \<Rightarrow> finding_row list" where
  "listing s eid = concat (map (\<lambda>v. filter (\<lambda>f. fi_severity f = v) (findings_of s eid)) SEVERITY_ORDER)"

definition before_in_report :: "finding_row \<Rightarrow> finding_row \<Rightarrow> bool" where
  "before_in_report f g \<longleftrightarrow>
     report_rank f < report_rank g
     \<or> report_rank f = report_rank g \<and> (fi_title f < fi_title g \<or> fi_title f = fi_title g \<and> fi_id f \<le> fi_id g)"

lemma concat_filter_mset:
  "distinct vs \<Longrightarrow> mset (concat (map (\<lambda>v. filter (\<lambda>f. g f = v) xs) vs)) = filter_mset (\<lambda>f. g f \<in> set vs) (mset xs)"
proof (induction vs)
  case (Cons v vs)
  have "filter_mset (\<lambda>f. g f = v) (mset xs) + filter_mset (\<lambda>f. g f \<in> set vs) (mset xs)
      = filter_mset (\<lambda>f. g f = v \<or> g f \<in> set vs) (mset xs)"
    using Cons.prems by (intro multiset_eqI) auto
  then show ?case using Cons by simp
qed simp

lemma insort_key_lexicographic:
  assumes "sorted_wrt (\<lambda>a c. f a < f c \<or> f a = f c \<and> g a \<le> g c) ys" "\<forall>y \<in> set ys. g x \<le> g y"
  shows "sorted_wrt (\<lambda>a c. f a < f c \<or> f a = f c \<and> g a \<le> g c) (insort_key f x ys)"
  using assms by (induction ys) (auto simp: set_insort_key)

lemma sort_key_lexicographic:
  "sorted_wrt (\<lambda>a c. g a \<le> g c) xs \<Longrightarrow> sorted_wrt (\<lambda>a c. f a < f c \<or> f a = f c \<and> g a \<le> g c) (sort_key f xs)"
  by (induction xs) (simp_all add: insort_key_lexicographic)

lemma findings_sorted: "sorted_wrt (\<lambda>f g. fi_title f < fi_title g \<or> fi_title f = fi_title g \<and> fi_id f \<le> fi_id g) (findings_of s eid)"
proof -
  have "sorted_wrt (\<lambda>f g. fi_id f \<le> fi_id g) (sort_key fi_id (filter (\<lambda>f. fi_engagement f = eid) (st_findings s)))"
    using sorted_sort_key [of fi_id "filter (\<lambda>f. fi_engagement f = eid) (st_findings s)"] by (simp only: sorted_wrt_map)
  then show ?thesis unfolding findings_of_def by (rule sort_key_lexicographic)
qed

lemma subseq_concat: "\<forall>x \<in> set xs. subseq (f x) (g x) \<Longrightarrow> subseq (concat (map f xs)) (concat (map g xs))"
  by (induction xs) (auto intro: list_emb_append_mono)

lemma report_ranks: "sorted_wrt (\<lambda>v w. \<forall>f g. fi_severity f = v \<and> fi_severity g = w \<longrightarrow> report_rank f < report_rank g) SEVERITY_ORDER"
proof -
  have d: "distinct SEVERITY_ORDER" by (simp add: SEVERITY_ORDER_def literals)
  have r: "report_rank f = i" if "i < length SEVERITY_ORDER" "fi_severity f = SEVERITY_ORDER ! i" for f i
  proof -
    have "takeWhile (\<lambda>v. v \<noteq> fi_severity f) SEVERITY_ORDER = take i SEVERITY_ORDER"
      using that d by (intro takeWhile_eq_take_P_nth) (auto simp: nth_eq_iff_index_eq)
    then show ?thesis using that by (simp add: report_rank_def)
  qed
  show ?thesis by (auto simp: sorted_wrt_iff_nth_less) (metis r less_trans)
qed

lemma sorted_wrt_concat:
  "\<forall>xs \<in> set xss. sorted_wrt P xs \<Longrightarrow> sorted_wrt (\<lambda>xs ys. \<forall>x \<in> set xs. \<forall>y \<in> set ys. P x y) xss \<Longrightarrow> sorted_wrt P (concat xss)"
  by (induction xss) (auto simp: sorted_wrt_append)

lemma listing_sorted: "sorted_wrt before_in_report (listing s eid)"
proof -
  let ?of = "\<lambda>v. filter (\<lambda>f. fi_severity f = v) (findings_of s eid)"
  have "sorted_wrt before_in_report (?of v)" for v
  proof (rule sorted_wrt_mono_rel [OF _ sorted_wrt_filter [OF findings_sorted]])
    show "before_in_report f g"
      if "f \<in> set (?of v)" "g \<in> set (?of v)" "fi_title f < fi_title g \<or> fi_title f = fi_title g \<and> fi_id f \<le> fi_id g" for f g
      using that by (simp add: before_in_report_def report_rank_def)
  qed
  moreover have "sorted_wrt (\<lambda>xs ys. \<forall>x \<in> set xs. \<forall>y \<in> set ys. before_in_report x y) (map ?of SEVERITY_ORDER)"
    unfolding sorted_wrt_map by (rule sorted_wrt_mono_rel [OF _ report_ranks]) (auto simp: before_in_report_def)
  ultimately show ?thesis unfolding listing_def by (intro sorted_wrt_concat) auto
qed

lemma listing_mset:
  assumes "\<forall>f \<in> set (st_findings s). fi_severity f \<in> set SEVERITY_ORDER"
  shows "mset (listing s eid) = filter_mset (\<lambda>f. fi_engagement f = eid) (mset (st_findings s))"
proof -
  have d: "distinct SEVERITY_ORDER" by (simp add: SEVERITY_ORDER_def literals)
  have "filter_mset (\<lambda>f. fi_severity f \<in> set SEVERITY_ORDER) (mset (findings_of s eid)) = mset (findings_of s eid)"
    using assms by (auto simp: filter_mset_eq_conv findings_of_def)
  then show ?thesis unfolding listing_def concat_filter_mset [OF d] by (simp add: findings_of_def)
qed

lemma concat_map_concat: "concat (map f (concat (map g xs))) = concat (map (\<lambda>x. concat (map f (g x))) xs)"
  by (induction xs) simp_all

lemma listing_shown: "subseq (concat (map (finding_lines s) (listing s eid))) (findings_section s eid c scanned unfinished)"
proof (cases "findings_of s eid = []")
  case True
  then have "listing s eid = []" by (simp add: listing_def concat_eq_Nil_conv)
  then show ?thesis by simp
next
  case False
  let ?of = "\<lambda>v. filter (\<lambda>f. fi_severity f = v) (findings_of s eid)"
  have "concat (map (finding_lines s) (listing s eid)) = concat (map (\<lambda>v. concat (map (finding_lines s) (?of v))) SEVERITY_ORDER)"
    by (simp add: listing_def concat_map_concat)
  moreover have "subseq \<dots> (concat (map (severity_lines s (findings_of s eid)) SEVERITY_ORDER))"
    by (rule subseq_concat) (auto simp: severity_lines_def Let_def intro: list_emb_Cons)
  ultimately have "subseq (concat (map (finding_lines s) (listing s eid)))
      (concat (map (severity_lines s (findings_of s eid)) SEVERITY_ORDER))" by simp
  then show ?thesis using False unfolding findings_section_def Let_def by (auto intro!: list_emb_Cons)
qed

lemma finding_shown:
  assumes "f \<in> set (findings_of s eid)" "fi_severity f \<in> set SEVERITY_ORDER" "l \<in> set (finding_lines s f)"
  shows "l \<in> set (findings_section s eid c scanned unfinished)"
proof -
  have "f \<in> set (listing s eid)" using assms(1,2) by (auto simp: listing_def)
  then have "l \<in> set (concat (map (finding_lines s) (listing s eid)))" using assms(3) by auto
  then show ?thesis using list_emb_set [OF listing_shown] by metis
qed


definition a_finding :: "string \<Rightarrow> string \<Rightarrow> pystr option \<Rightarrow> finding_row" where
  "a_finding fid severity description =
     \<lparr>fi_id = u fid, fi_engagement = u ''e1'', fi_dedupe_key = u fid, fi_issue_type = u ''x'', fi_title = u ''A flaw'',
      fi_description = description, fi_impact = None, fi_remediation = None, fi_cwe = None, fi_severity = u severity,
      fi_confidence = u ''Firm'', fi_created_by = u ''check'', fi_status = u ''new'', fi_insertion_name = None,
      fi_insertion_kind = None, fi_scope_level = u ''surface'', fi_payload = None, fi_surface = None, fi_host = None, fi_check = None,
      fi_first_seen_run = u ''r1'', fi_last_seen_run = u ''r1''\<rparr>"


section \<open>The lines of the document\<close>

lemma render_lines:
  assumes "raw_fields_plain env c" "document env eid c = Inr lines"
  shows "\<exists>txt1. render env eid c = Inr txt1 \<and> split1 10 txt1 = concat (map physical lines) @ [[]] \<and> 13 \<notin> set txt1"
proof -
  have ok: "lines_ok lines" by (rule document_ok [OF assms])
  have ne: "lines \<noteq> []" using assms(2) by (auto simp: document_def heading_lines_def Let_def rbind_Inr_iff split: option.splits)
  have "13 \<notin> set (join [10] lines @ [10])" using ok join_chars [of 13 "[10]" lines] by (auto simp: lines_ok_def unbroken_def)
  then show ?thesis using split_lines [OF ne ok] assms(2) by (simp add: render_def)
qed

text \<open>C36. The text of a report breaks into lines exactly where the renderer put them: each element of the document is one line
  (and an empty one after it when the element ends a paragraph), no carriage return is in it, and so no title, description, note,
  reason, URL, header name or name of the store ends a row, a bullet or a heading early or starts a line that is not its own.\<close>

theorem report_lines_exact:
  assumes "raw_fields_plain env c" "document env eid c = Inr lines"
  shows "\<exists>txt1. render env eid c = Inr txt1 \<and> split1 10 txt1 = concat (map physical lines) @ [[]] \<and> 13 \<notin> set txt1"
  by (rule render_lines [OF assms])

definition sample_report :: "store \<Rightarrow> report_env" where
  "sample_report s =
     \<lparr>rp_store = s,
      rp_engagements = [\<lparr>eg_id = u ''e1'', eg_name = u ''acme'', eg_client = u ''Acme'' @ [10] @ u ''## Findings'', eg_created_us = 0\<rparr>],
      rp_scopes = [], rp_authorizations = [], rp_run_scope = (\<lambda>_. None), rp_read_blob = None, rp_netloc_ok = (\<lambda>_. True),
      rp_sha_text = (\<lambda>_. u ''00''), rp_safe_dump = (\<lambda>_. []), rp_str = (\<lambda>_. [])\<rparr>"

lemma sample_report_plain:
  "st_findings s = [] \<or> st_findings s = [a_finding fid severity d] \<Longrightarrow> raw_fields_plain (sample_report s) small_config"
  by (auto simp: raw_fields_plain_def sample_report_def scope_digest_def small_config_def DEFAULT_CHECKS_def a_finding_def line_rules)

text \<open>A client whose name has a line break and a heading in it.\<close>

theorem report_lines_exact_witness:
  "\<exists>lines txt1. document (sample_report (empty_store (u ''e1''))) (u ''e1'') small_config = Inr lines
     \<and> render (sample_report (empty_store (u ''e1''))) (u ''e1'') small_config = Inr txt1
     \<and> split1 10 txt1 = concat (map physical lines) @ [[]] \<and> 13 \<notin> set txt1"
proof -
  let ?env = "sample_report (empty_store (u ''e1''))"
  have "raw_fields_plain ?env small_config" by (rule sample_report_plain) (simp add: empty_store_def)
  moreover obtain lines where "document ?env (u ''e1'') small_config = Inr lines"
    by (simp add: document_def sample_report_def Let_def)
  ultimately show ?thesis using report_lines_exact [of ?env small_config "u ''e1''" lines] by blast
qed

text \<open>A finding's description stands on a line of its own, at the left margin, whatever it begins with: where there are no
  blobs to read, every report of the engagement has that line. A description that begins as a heading of the report does is a heading.\<close>

lemma description_starts_a_line:
  assumes "raw_fields_plain env c" "rp_read_blob env = None" "find (\<lambda>g. eg_id g = eid) (rp_engagements env) = Some eng"
    and "f \<in> set (st_findings (rp_store env))" "fi_engagement f = eid" "fi_severity f \<in> set SEVERITY_ORDER"
    and "fi_description f = Some d" "d \<noteq> []" "plain d" "redact_url d = d"
  shows "\<exists>txt1. render env eid c = Inr txt1 \<and> d \<in> set (split1 10 txt1)"
proof -
  obtain lines where l: "document env eid c = Inr lines" using assms(2,3) by (simp add: document_def Let_def)
  have flat: "flat d = d" using assms(9) by (induction d rule: flat.induct) (auto simp: plain_def)
  have "d @ [10] \<in> set (finding_lines (rp_store env) f)"
    using assms(7,8,10) flat by (simp add: finding_lines_def labelled_def given_def)
  moreover have "f \<in> set (findings_of (rp_store env) eid)" using assms(4,5) by (simp add: findings_of_def)
  ultimately have "d @ [10] \<in> set (findings_section (rp_store env) eid c sc un)" for sc un
    using assms(6) finding_shown by blast
  then have "d @ [10] \<in> set lines" using l assms(2,3) by (auto simp: document_def Let_def)
  then have "d \<in> set (concat (map physical lines))" by (force simp: physical_def)
  then show ?thesis using render_lines [OF assms(1) l] by auto
qed

text \<open>A description that is the heading of the section it stands in.\<close>

lemma heading_in_description:
  "\<exists>txt1. render (sample_report ((empty_store (u ''e1''))\<lparr>st_findings := [a_finding ''f1'' ''Low'' (Some (u ''## Findings''))]\<rparr>))
      (u ''e1'') small_config = Inr txt1 \<and> u ''## Findings'' \<in> set (split1 10 txt1)"
  (is "\<exists>txt1. render ?env _ _ = _ \<and> _")
proof (rule description_starts_a_line)
  show "raw_fields_plain ?env small_config" by (rule sample_report_plain) simp
  show "redact_url (u ''## Findings'') = u ''## Findings''" by code_simp
  show "a_finding ''f1'' ''Low'' (Some (u ''## Findings'')) \<in> set (st_findings (rp_store ?env))" by (simp add: sample_report_def)
qed (simp_all add: sample_report_def a_finding_def SEVERITY_ORDER_def line_rules literals)

section \<open>When there is no report\<close>

definition exemplar_request :: "report_env \<Rightarrow> (pystr \<Rightarrow> blob_exc + bytes) \<Rightarrow> surface_row \<Rightarrow> bytes option" where
  "exemplar_request env read_blob sf =
     (case Option.bind (find (\<lambda>x. ex_id x = sf_exemplar sf) (st_exchanges (rp_store env))) ex_req_blob of
        None \<Rightarrow> None
      | Some d \<Rightarrow> if d = [] then None else (case read_blob d of Inl _ \<Rightarrow> None | Inr raw \<Rightarrow> Some raw))"

definition refused_target :: "(pystr \<Rightarrow> bool) \<Rightarrow> bytes \<Rightarrow> bool" where
  "refused_target netloc_ok raw \<longleftrightarrow>
     (case partition_at [13, 10, 13, 10] raw of (head, sep, body) \<Rightarrow>
        sep \<and> (case request_target head of None \<Rightarrow> False | Some target \<Rightarrow> isl (urlsplit netloc_ok target)))"

lemma derive_refuses: "isl (derive netloc_ok raw tpl) \<longleftrightarrow> refused_target netloc_ok raw"
proof -
  obtain head sep body where p: "partition_at [13, 10, 13, 10] raw = (head, sep, body)" by (cases "partition_at [13, 10, 13, 10] raw") auto
  show ?thesis
    by (cases "request_target head") (simp_all add: derive_def refused_target_def p Let_def isl_rbind case_prod_unfold)
qed

lemma exemplar_points_isl:
  assumes "\<forall>d. read_blob d \<noteq> Inl blob_exc.OSError"
  shows "isl (exemplar_points env read_blob sf)
    \<longleftrightarrow> (\<exists>raw. exemplar_request env read_blob sf = Some raw \<and> refused_target (rp_netloc_ok env) raw)"
proof (cases "Option.bind (find (\<lambda>x. ex_id x = sf_exemplar sf) (st_exchanges (rp_store env))) ex_req_blob")
  case (Some d)
  show ?thesis
  proof (cases "read_blob d")
    case (Inl e)
    then have "e = CorruptBlob" using assms by (cases e) auto
    then show ?thesis using Some Inl by (simp add: exemplar_points_def exemplar_request_def)
  next
    case (Inr raw)
    have "isl (case derive (rp_netloc_ok env) raw (sf_path_template sf) of Inl _ \<Rightarrow> Inl ReportValueError | Inr ps \<Rightarrow> Inr ps)
        \<longleftrightarrow> refused_target (rp_netloc_ok env) raw"
      unfolding derive_refuses [symmetric, of _ _ "sf_path_template sf"]
      by (cases "derive (rp_netloc_ok env) raw (sf_path_template sf)") simp_all
    then show ?thesis using Some Inr by (simp add: exemplar_points_def exemplar_request_def)
  qed
qed (simp add: exemplar_points_def exemplar_request_def)


text \<open>A page browsed at \<open>//[\<close>.\<close>

definition bracket_request :: bytes where
  "bracket_request = b ''GET //[ HTTP/1.1'' @ [13, 10, 13, 10]"

lemma bracket_refused: "refused_target (\<lambda>_. True) bracket_request"
  by code_simp

definition bracket_surface :: surface_row where
  "bracket_surface =
     \<lparr>sf_id = u ''s1'', sf_engagement = u ''e1'', sf_method = u ''GET'', sf_scheme = u ''https'', sf_host = u ''h'', sf_port = 443,
      sf_path_template = u ''//['', sf_query_key_set = [], sf_kind = u ''page'', sf_discovered_by = u ''proxy'',
      sf_normaliser_version = 1, sf_first_seen_run = u ''r1'', sf_last_seen_run = u ''r1'', sf_exemplar = u ''x1''\<rparr>"

definition bracket_exchange :: exchange_row where
  "bracket_exchange =
     \<lparr>ex_id = u ''x1'', ex_run = Some (u ''r1''), ex_surface = Some (u ''s1''), ex_via = u ''proxy'', ex_outcome = u ''ok'',
      ex_sent_us = 0, ex_recv_us = 0, ex_method = u ''GET'', ex_url = u ''https://h//['', ex_status = Some 404,
      ex_req_blob = Some (u ''d1''), ex_resp_blob = None, ex_resp_len = None, ex_scope_version = None, ex_seq = None,
      ex_identity = None, ex_identity_generation = None, ex_identity_state = None\<rparr>"

definition bracket_report :: report_env where
  "bracket_report =
     (sample_report ((empty_store (u ''e1''))\<lparr>st_surfaces := [bracket_surface], st_exchanges := [bracket_exchange]\<rparr>))
       \<lparr>rp_read_blob := Some (\<lambda>_. Inr bracket_request)\<rparr>"


end
