(* ===== verification/Web_Laws.thy ===== *)
theory Web_Laws
  imports Web Report_Laws
begin

text \<open>
  What the web app lets through, and that its screens say what the report says.
\<close>

section \<open>Headers\<close>

lemma secured_headers:
  "map_of (wr_headers (secured r)) (u ''content-security-policy'') = Some CSP"
  "map_of (wr_headers (secured r)) (u ''x-content-type-options'') = Some (u ''nosniff'')"
  "map_of (wr_headers (secured r)) (u ''referrer-policy'') = Some (u ''no-referrer'')"
  by (simp_all add: secured_def map_of_dict_set u_inject)

lemma guard_secured: "\<exists>r. fst (guard q h base) = secured r"
  by (auto simp: guard_def split: prod.splits sum.splits web_exc.splits)

section \<open>Writes\<close>

definition POST :: pystr where
  "POST = u ''POST''"

text \<open>The two changes a request can make, on the engagement of one entry.\<close>

definition triaged :: "web_env \<Rightarrow> (pystr \<times> pystr) list \<Rightarrow> pystr \<Rightarrow> web_entry \<Rightarrow> engagement_dir \<Rightarrow> engagement_dir" where
  "triaged env form fid e d =
     d\<lparr>ed_store := snd (set_status (we_event_id env) fid (case map_of form (u ''status'') of None \<Rightarrow> [] | Some t \<Rightarrow> t)
        (map_of form (u ''note'')) (we_now_us env) (ed_store (en_dir e)))\<rparr>"

definition halted_by_web :: "web_env \<Rightarrow> (pystr \<times> pystr) list \<Rightarrow> operator_halt \<Rightarrow> web_entry \<Rightarrow> engagement_dir \<Rightarrow> engagement_dir" where
  "halted_by_web env form h e d =
     (let said = strip (case map_of form (u ''reason'') of None \<Rightarrow> [] | Some t \<Rightarrow> t) in
      d\<lparr>ed_halt := snd (snd (oh_halt (we_fault env) (we_halt_row env) (we_halt_us env) (we_row_us env)
          (if said = [] then WEB_REASON else said) (h, ed_halt (en_dir e))))\<rparr>)"

lemma entry_of_cases:
  obtains (out) "entry_of name base = (Inl NotFound, base)"
  | (found) e where "entry_of name base = (Inr e, base)" "lookup_entry base name = Some e" "en_problem e = None"
proof (cases "lookup_entry base name")
  case None
  then show ?thesis using out by (simp add: entry_of_def)
next
  case (Some e)
  then show ?thesis using out found by (cases "en_problem e = None") (auto simp: entry_of_def)
qed

lemma triage_post_writes:
  assumes "triage_post env q name fid base = (r, base')" "base' \<noteq> base"
  obtains e form where "lookup_entry base name = Some e" "en_problem e = None" "form_fields q = Fields form" "we_db_opens env"
    "base' = update_dir name (triaged env form fid e) base"
proof (cases name base rule: entry_of_cases)
  case out
  then show ?thesis using assms by (simp add: triage_post_def sbind_def)
next
  case (found e)
  then show ?thesis
  proof (cases "form_fields q")
    case (Fields form)
    obtain x s where s: "set_status (we_event_id env) fid (case map_of form (u ''status'') of None \<Rightarrow> [] | Some t \<Rightarrow> t)
        (map_of form (u ''note'')) (we_now_us env) (ed_store (en_dir e)) = (x, s)" by fastforce
    have t: "triaged env form fid e = (\<lambda>d. d\<lparr>ed_store := s\<rparr>)" by (simp add: triaged_def s fun_eq_iff)
    have "we_db_opens env" "base' = update_dir name (triaged env form fid e) base"
      unfolding t using assms found(1) s
      by (auto simp: triage_post_def sbind_def Fields Let_def split: if_splits sum.splits triage_exc.splits)
    then show ?thesis using that found(2,3) Fields by blast
  qed (use assms found in \<open>auto simp: triage_post_def sbind_def\<close>)
qed

lemma halt_post_writes:
  assumes "halt_post env q name base = (r, base')" "base' \<noteq> base"
  obtains e form h where "lookup_entry base name = Some e" "en_problem e = None" "form_fields q = Fields form" "we_db_opens env"
    "open_halt (en_dir e) = Inr h" "base' = update_dir name (halted_by_web env form h e) base"
proof (cases name base rule: entry_of_cases)
  case out
  then show ?thesis using assms by (simp add: halt_post_def sbind_def)
next
  case (found e)
  then show ?thesis
  proof (cases "form_fields q")
    case (Fields form)
    show ?thesis
    proof (cases "open_halt (en_dir e)")
      case (Inl x)
      then show ?thesis using assms found Fields by (auto simp: halt_post_def sbind_def Let_def split: if_splits)
    next
      case (Inr h)
      define reason where "reason = (let said = strip (case map_of form (u ''reason'') of None \<Rightarrow> [] | Some t \<Rightarrow> t) in
        if said = [] then WEB_REASON else said)"
      obtain x h' disk where o: "oh_halt (we_fault env) (we_halt_row env) (we_halt_us env) (we_row_us env) reason (h, ed_halt (en_dir e))
          = (x, (h', disk))" by (metis prod.collapse)
      have t: "halted_by_web env form h e = (\<lambda>d. d\<lparr>ed_halt := disk\<rparr>)"
        using o by (simp add: halted_by_web_def reason_def Let_def fun_eq_iff)
      have "we_db_opens env" "base' = update_dir name (halted_by_web env form h e) base"
        unfolding t using assms found(1) Inr o
        by (auto simp: halt_post_def sbind_def Fields reason_def Let_def split: if_splits prod.splits sum.splits)
      then show ?thesis using that found(2,3) Fields Inr by blast
    qed
  qed (use assms found in \<open>auto simp: halt_post_def sbind_def\<close>)
qed

lemma other_endpoints_read:
  assumes "serve_endpoint env q ep base = (r, base')" "base' \<noteq> base"
  shows "(\<exists>name fid. ep = TriagePost name fid) \<or> (\<exists>name. ep = HaltPost name)"
proof -
  have e: "snd (entry_of n base) = base" for n by (simp add: entry_of_def split: option.splits)
  have "snd (sbind (entry_of n) f base) = base" if "\<And>e. snd (f e base) = base" for n f
    using that e [of n] by (auto simp: sbind_def split: prod.splits sum.splits)
  note keep = this
  show ?thesis
  proof (rule ccontr)
    assume no: "\<not> ?thesis"
    have "snd (serve_endpoint env q ep base) = base"
    proof (cases ep)
      case Index
      then show ?thesis by (simp add: serve_endpoint_def index_def)
    next
      case (Overview n)
      have "snd (overview env n base) = base" unfolding overview_def
        by (rule keep) (simp split: option.splits sum.splits config_exc.splits)
      then show ?thesis using Overview by (simp add: serve_endpoint_def)
    next
      case (Surfaces n)
      have "snd (surfaces_handler n base) = base" unfolding surfaces_handler_def by (rule keep) (simp add: sret_def)
      then show ?thesis using Surfaces by (simp add: serve_endpoint_def)
    next
      case (Findings n)
      have "snd (findings_handler q n base) = base" unfolding findings_handler_def
        by (rule keep) (simp add: sret_def split: option.splits)
      then show ?thesis using Findings by (simp add: serve_endpoint_def)
    next
      case (Finding n fid)
      have "snd (finding_handler n fid base) = base" unfolding finding_handler_def
        by (rule keep) (simp add: sret_def sraise_def Let_def split: option.splits)
      then show ?thesis using Finding by (simp add: serve_endpoint_def)
    next
      case (Exchange n xid)
      have "snd (exchange_handler n xid base) = base" unfolding exchange_handler_def
        by (rule keep) (simp add: sret_def sraise_def split: option.splits)
      then show ?thesis using Exchange by (simp add: serve_endpoint_def)
    qed (use no in auto)
    then show False using assms by simp
  qed
qed

text \<open>What \<open>same_origin\<close> asks, without its order: at least one of the two headers, and neither at odds with the app's own origin.\<close>

definition own_origin :: "web_request \<Rightarrow> pystr" where
  "own_origin q = wq_scheme q @ u ''://'' @ (case header_of q ''host'' of None \<Rightarrow> [] | Some h \<Rightarrow> h)"

definition own_page :: "web_request \<Rightarrow> bool" where
  "own_page q \<longleftrightarrow> header_of q ''sec-fetch-site'' \<in> {None, Some (u ''same-origin'')} \<and> header_of q ''origin'' \<in> {None, Some (own_origin q)}
     \<and> (header_of q ''sec-fetch-site'' \<noteq> None \<or> header_of q ''origin'' \<noteq> None)"

lemma same_origin_own_page: "same_origin q = own_page q"
  by (auto simp: same_origin_def own_page_def own_origin_def Let_def u_def split: option.splits if_splits)

text \<open>A router that respects the methods the routes declare, as Starlette's does.\<close>

definition routes_by_method :: "router \<Rightarrow> bool" where
  "routes_by_method route \<longleftrightarrow> (\<forall>m p ep. route m p = Inr ep \<longrightarrow> m \<in> set (endpoint_methods ep))"


text \<open>The stop button of an engagement's own page.\<close>

definition stopping :: web_request where
  "stopping =
     \<lparr>wq_method = POST, wq_scheme = u ''http'', wq_path = u ''/e/acme/halt'',
      wq_headers = [(u ''host'', u ''localhost:8901''), (u ''sec-fetch-site'', u ''same-origin''),
        (u ''content-type'', u ''application/x-www-form-urlencoded'')],
      wq_query = [], wq_body = []\<rparr>"

definition acme :: engagement_dir where
  "acme =
     \<lparr>ed_name = u ''acme'', ed_has_db = True, ed_connects = True, ed_reads = True, ed_version = SCHEMA_VERSION,
      ed_rows = [\<lparr>eg_id = u ''e1'', eg_name = u ''acme'', eg_client = u ''Acme'', eg_created_us = 0\<rparr>], ed_scopes = [],
      ed_authorizations = [], ed_config = Some (Inr small_config), ed_store = empty_store (u ''e1''),
      ed_halt = \<lparr>dir_path = [], dir_sentinel = None, dir_stat_ok = True, dir_read_ok = True, dir_tmp = None, dir_actions = []\<rparr>,
      ed_blobs = None\<rparr>"

definition web_now :: web_env where
  "web_now = \<lparr>we_now_us = 1, we_event_id = u ''v1'', we_db_opens = True, we_fault = NoFault, we_halt_row = True, we_halt_us = 1, we_row_us = 1\<rparr>"

definition to_halt :: router where
  "to_halt m p = (if m = POST then Inr (HaltPost (u ''acme'')) else Inl (plain_text 405))"

lemma acme_found: "lookup_entry (Some [acme]) (u ''acme'') = Some (dir_entry acme)" "en_problem (dir_entry acme) = None"
  "ed_halt (en_dir (dir_entry acme)) = ed_halt acme" "en_name (dir_entry acme) = u ''acme''" "ed_name acme = u ''acme''"
  "\<exists>h. open_halt (en_dir (dir_entry acme)) = Inr h"
  by (simp_all add: lookup_entry_def scan_base_def dir_entry_def acme_def open_halt_def open_operator_halt_def Let_def)

lemma stopping_form: "form_fields stopping = Fields []"
proof -
  have t: "lower (strip (hd (split1 59 (u ''application/x-www-form-urlencoded'')))) = u ''application/x-www-form-urlencoded''"
    by code_simp
  have "header_of stopping ''content-type'' = Some (u ''application/x-www-form-urlencoded'')"
    by (simp add: header_of_def stopping_def u_inject)
  moreover have "parse_qsl (utf8_decode_replace []) = []" by (simp add: utf8_decode_replace.simps parse_qsl_def)
  ultimately show ?thesis by (simp add: form_fields_def t stopping_def MAX_FORM_def)
qed

lemma stopping_lets_through: "hostname (u ''localhost:8901'') \<in> set ALLOWED_HOSTS" "header_of stopping ''host'' = Some (u ''localhost:8901'')"
  "same_origin stopping"
proof -
  have "hostname (u ''localhost:8901'') = u ''localhost''" by code_simp
  then show "hostname (u ''localhost:8901'') \<in> set ALLOWED_HOSTS" by (simp add: ALLOWED_HOSTS_def u_inject)
  show "header_of stopping ''host'' = Some (u ''localhost:8901'')" by (simp add: header_of_def stopping_def u_inject)
  show "same_origin stopping" by (simp add: same_origin_def header_of_def stopping_def u_inject)
qed

lemma one_line_subset: "c \<in> set (one_line s) \<Longrightarrow> c = 32 \<or> c \<in> set s"
proof -
  let ?blank = "map (\<lambda>c. if is_space c then 32 else c) s"
  assume "c \<in> set (one_line s)"
  then have "c = 32 \<or> (\<exists>w \<in> set (words s). c \<in> set w)" using join_chars [of c "[32]" "words s"] by (auto simp: one_line_def)
  then have "c = 32 \<or> c \<in> set ?blank" using split1_chars [of c _ 32 ?blank] unfolding words_def by auto
  then show ?thesis by (auto split: if_splits)
qed

lemma stopping_changes: "snd (web_app to_halt web_now stopping (Some [acme])) \<noteq> Some [acme]"
proof -
  obtain h where h: "open_halt (en_dir (dir_entry acme)) = Inr h" using acme_found(6) by blast
  have "\<exists>x. utf8_encode (one_line WEB_REASON @ 10 # dump_int 1 @ [10]) = Some x"
  proof (rule utf8_encode_total, rule ballI)
    fix c assume "c \<in> set (one_line WEB_REASON @ 10 # dump_int 1 @ [10])"
    then have "c \<in> set WEB_REASON \<or> c = 32 \<or> c = 10 \<or> c < 128" using dump_int_chars [of c 1] one_line_subset [of c WEB_REASON] by auto
    then have "c < 128" by (auto simp: WEB_REASON_def u_def)
    then show "c < 0x110000 \<and> \<not> is_surrogate c" by (simp add: is_surrogate_def)
  qed
  then have o: "dir_sentinel (snd (snd (oh_halt NoFault True 1 1 WEB_REASON (h, ed_halt acme)))) \<noteq> None"
    by (auto simp: oh_halt_def write_sentinel_def insert_action_def Let_def acme_def)
  have "snd (web_app to_halt web_now stopping (Some [acme])) = snd (halt_post web_now stopping (u ''acme'') (Some [acme]))"
    using stopping_lets_through
    by (auto simp: web_app_def guard_def to_halt_def stopping_def serve_endpoint_def split: prod.splits sum.splits web_exc.splits)
  also have "\<dots> = Some [acme\<lparr>ed_halt := snd (snd (oh_halt NoFault True 1 1 WEB_REASON (h, ed_halt acme)))\<rparr>]"
    by (simp add: halt_post_def sbind_def entry_of_def acme_found h stopping_form web_now_def Let_def strip_def rstrip_def lstrip_def
        update_dir_def split: prod.splits sum.splits)
  finally show ?thesis using o by (auto simp: acme_def)
qed


section \<open>One account of what was tested\<close>

text \<open>A check's row is of a run of the engagement its surface belongs to.\<close>

definition answers_in_engagement :: "store \<Rightarrow> bool" where
  "answers_in_engagement s \<longleftrightarrow>
     (\<forall>c \<in> set (st_check_runs s). \<forall>sf \<in> set (st_surfaces s).
        cr_surface c = Some (sf_id sf) \<longrightarrow> cr_run c \<in> run_id ` set (runs_of s (sf_engagement sf)))"

text \<open>The surfaces screen and the report tell the same story: the rows of the screen that show no answer are, in order, the surfaces
  the report names as untested.\<close>

theorem screen_agrees_with_report:
  assumes "answers_in_engagement s"
  shows "map (\<lambda>w. (sf_method (sw_surface w), sf_path_template (sw_surface w))) (filter (\<lambda>w. sw_answered w = 0) (surface_views s eid))
    = cv_untested (facts s eid)"
proof -
  let ?order = "\<lambda>sfs. sort_key sf_path_template (sort_key sf_method (sort_key sf_id sfs))"
  have a: "sw_answered (surface_view_of s sf) = 0 \<longleftrightarrow> \<not> has_answer s eid sf" if "sf \<in> set (surfaces_of s eid)" for sf
  proof -
    have "sf \<in> set (st_surfaces s)" "sf_engagement sf = eid" using that by (simp_all add: surfaces_of_def)
    then have "c \<in> set (check_rows_of s eid)" if "c \<in> set (st_check_runs s)" "cr_surface c = Some (sf_id sf)" for c
      using assms that by (auto simp: answers_in_engagement_def check_rows_of_def)
    moreover have "c \<in> set (st_check_runs s)" if "c \<in> set (check_rows_of s eid)" for c using that by (simp add: check_rows_of_def)
    ultimately show ?thesis
      by (auto simp: surface_view_of_def has_answer_def filter_empty_conv)
  qed
  have "filter (\<lambda>w. sw_answered w = 0) (surface_views s eid)
      = map (surface_view_of s) (filter (\<lambda>sf. sw_answered (surface_view_of s sf) = 0) (?order (surfaces_of s eid)))"
    by (simp add: surface_views_def filter_map comp_def)
  also have "filter (\<lambda>sf. sw_answered (surface_view_of s sf) = 0) (?order (surfaces_of s eid))
      = filter (\<lambda>sf. \<not> has_answer s eid sf) (?order (surfaces_of s eid))"
    by (rule filter_cong) (simp_all add: a)
  also have "\<dots> = ?order (filter (\<lambda>sf. \<not> has_answer s eid sf) (surfaces_of s eid))"
    by (simp add: filter_sort)
  finally show ?thesis
    by (simp add: facts_def untested_surfaces_def comp_def surface_view_of_def)
qed

text \<open>A surface with one answer.\<close>

definition answered_store :: store where
  "answered_store = (empty_store (u ''e1''))
     \<lparr>st_surfaces := [bracket_surface], st_runs := st_runs (snd (open_run (u ''r1'') (u ''e1'') (u ''scan'') (u ''staging'') 3 (empty_store (u ''e1'')))),
      st_check_runs := [\<lparr>cr_id = u ''c1'', cr_run = u ''r1'', cr_surface = Some (u ''s1''), cr_insertion = None, cr_check = u ''x'',
        cr_version = u ''1'', cr_started_us = 0, cr_ended_us = Some 1, cr_verdict = u ''clean'', cr_reason = None, cr_requests_sent = 0\<rparr>]\<rparr>"

text \<open>A body that could not be read is never shown as an empty one: no text and no problem means that there is no body, or that what
  was read is empty.\<close>

lemma unread_body_is_said:
  "body_text read_blob digest n = ([], None) \<longleftrightarrow> digest = None \<or> (\<exists>d. digest = Some d \<and> read_blob d n = Inr [])"
  by (auto simp: body_text_def latin1_decode_def split: option.splits sum.splits)

end
