(* ===== verification/Page.thy ===== *)
theory Page
  imports Frontier Bridge
begin

text \<open>
  One page of a crawl: the DevTools connection, \<open>src/hx/crawl/cdp.py\<close>, and the visit and its judgement,
  \<open>src/hx/crawl/page.py\<close>. What the descriptor gives is a script of reads that ends at the call's deadline. \<open>json.loads\<close> of a
  frame, the start tags \<open>HTMLParser\<close> finds in a document, and \<open>urljoin\<close> are arguments.
\<close>

section \<open>The connection\<close>

record connection =
  cn_next_id :: int
  cn_buf :: bytes
  cn_replies :: "(json \<times> json) list"
  cn_events :: "json list"

text \<open>One wait on the descriptor: an error, or what was read, where nothing means that the peer closed.\<close>

datatype cdp_read = ReadFailed | Chunk bytes

datatype cdp_exc = CdpError | CdpTimeout | CdpClosed | CdpCrash

text \<open>
  A frame with an id is a reply, filed under it, the last one with an id in place of the ones before; a frame without one is an
  event. \<open>in\<close> and indexing ask more of a frame that is no object, and a list or an object is no key.
\<close>

definition usable_key :: "json \<Rightarrow> bool" where
  "usable_key v = (case v of JArr _ \<Rightarrow> False | JObj _ \<Rightarrow> False | _ \<Rightarrow> True)"

definition file_message :: "json \<Rightarrow> (connection, cdp_exc, unit) prog" where
  "file_message msg conn =
     (case msg of
        JObj kvs \<Rightarrow>
          (case map_of kvs (u ''id'') of
             None \<Rightarrow> (Inr (), conn\<lparr>cn_events := cn_events conn @ [msg]\<rparr>)
           | Some i \<Rightarrow> if usable_key i then (Inr (), conn\<lparr>cn_replies := (i, msg) # cn_replies conn\<rparr>) else (Inl CdpCrash, conn))
      | JArr xs \<Rightarrow> if JStr (u ''id'') \<in> set xs then (Inl CdpCrash, conn) else (Inr (), conn\<lparr>cn_events := cn_events conn @ [msg]\<rparr>)
      | JStr s \<Rightarrow> if contains (u ''id'') s then (Inl CdpCrash, conn) else (Inr (), conn\<lparr>cn_events := cn_events conn @ [msg]\<rparr>)
      | _ \<Rightarrow> (Inl CdpCrash, conn))"

text \<open>The \<open>while b"\0" in self._buf\<close> loop over the frames of the buffer and what follows the last of them. A frame is off the
  buffer before it is read.\<close>

fun file_frames :: "(bytes \<Rightarrow> json option) \<Rightarrow> bytes list \<Rightarrow> bytes \<Rightarrow> (connection, cdp_exc, unit) prog" where
  "file_frames parse [] rest conn = (Inr (), conn\<lparr>cn_buf := rest\<rparr>)"
| "file_frames parse (raw # raws) rest conn =
     (let conn1 = conn\<lparr>cn_buf := join [0] (raws @ [rest])\<rparr> in
      if raw = [] then file_frames parse raws rest conn1
      else case parse raw of
        None \<Rightarrow> file_frames parse raws rest conn1
      | Some msg \<Rightarrow>
          (case file_message msg conn1 of
             (Inl e, conn2) \<Rightarrow> (Inl e, conn2)
           | (Inr _, conn2) \<Rightarrow> file_frames parse raws rest conn2))"

definition pump :: "(bytes \<Rightarrow> json option) \<Rightarrow> cdp_read \<Rightarrow> (connection, cdp_exc, unit) prog" where
  "pump parse r conn =
     (case r of
        ReadFailed \<Rightarrow> (Inl CdpClosed, conn)
      | Chunk chunk \<Rightarrow>
          if chunk = [] then (Inl CdpClosed, conn)
          else (let buf = cn_buf conn @ chunk; pieces = split1 0 buf in
            file_frames parse (butlast pieces) (last pieces) (conn\<lparr>cn_buf := buf\<rparr>)))"

section \<open>Calls and events\<close>

definition reply_of :: "int \<Rightarrow> connection \<Rightarrow> json option" where
  "reply_of i conn = map_option snd (find (\<lambda>(k, _). as_id (Some k) = Some i) (cn_replies conn))"

definition take_reply :: "int \<Rightarrow> connection \<Rightarrow> connection" where
  "take_reply i conn = conn\<lparr>cn_replies := filter (\<lambda>(k, _). as_id (Some k) \<noteq> Some i) (cn_replies conn)\<rparr>"

definition jget :: "json \<Rightarrow> string \<Rightarrow> json option" where
  "jget v k = (case v of JObj kvs \<Rightarrow> map_of kvs (u k) | _ \<Rightarrow> None)"

definition answer :: "json \<Rightarrow> cdp_exc + json" where
  "answer reply =
     (if jget reply ''error'' \<noteq> None then
        (case jget reply ''error'' of Some (JObj _) \<Rightarrow> Inl CdpError | _ \<Rightarrow> Inl CdpCrash)
      else Inr (case jget reply ''result'' of None \<Rightarrow> JObj [] | Some v \<Rightarrow> v))"

fun await_reply :: "(bytes \<Rightarrow> json option) \<Rightarrow> int \<Rightarrow> cdp_read list \<Rightarrow> (connection, cdp_exc, json) prog" where
  "await_reply parse i reads conn =
     (case reply_of i conn of
        Some reply \<Rightarrow> (answer reply, take_reply i conn)
      | None \<Rightarrow>
          (case reads of
             [] \<Rightarrow> (Inl CdpTimeout, conn)
           | r # rs \<Rightarrow>
               (case pump parse r conn of
                  (Inl e, conn') \<Rightarrow> (Inl e, conn')
                | (Inr _, conn') \<Rightarrow> await_reply parse i rs conn')))"

declare await_reply.simps [simp del]

text \<open>A call's script is \<open>None\<close> when its command cannot be written.\<close>

definition cdp_call :: "(bytes \<Rightarrow> json option) \<Rightarrow> cdp_read list option \<Rightarrow> (connection, cdp_exc, json) prog" where
  "cdp_call parse script conn =
     (let conn1 = conn\<lparr>cn_next_id := cn_next_id conn + 1\<rparr> in
      case script of None \<Rightarrow> (Inl CdpClosed, conn1) | Some reads \<Rightarrow> await_reply parse (cn_next_id conn1) reads conn1)"

fun drain_reads :: "(bytes \<Rightarrow> json option) \<Rightarrow> cdp_read list \<Rightarrow> (connection, cdp_exc, unit) prog" where
  "drain_reads parse [] conn = (Inr (), conn)"
| "drain_reads parse (r # rs) conn =
     (case pump parse r conn of
        (Inl CdpCrash, conn') \<Rightarrow> (Inl CdpCrash, conn')
      | (Inl _, conn') \<Rightarrow> (Inr (), conn')
      | (Inr _, conn') \<Rightarrow> drain_reads parse rs conn')"

definition drain :: "(bytes \<Rightarrow> json option) \<Rightarrow> cdp_read list \<Rightarrow> (connection, cdp_exc, json list) prog" where
  "drain parse reads conn =
     (case drain_reads parse reads conn of
        (Inl e, conn') \<Rightarrow> (Inl e, conn')
      | (Inr _, conn') \<Rightarrow> (Inr (cn_events conn'), conn'\<lparr>cn_events := []\<rparr>))"

section \<open>What a page says\<close>

text \<open>Reading a shape the browser does not send is an \<open>AttributeError\<close> or a \<open>TypeError\<close>, and a URL that cannot be split a
  \<open>ValueError\<close>: none of them is a \<open>CdpError\<close>.\<close>

datatype page_exc = BadShape | BadUrl | PageClosed

definition get_in :: "json \<Rightarrow> string \<Rightarrow> json \<Rightarrow> page_exc + json" where
  "get_in v k missing =
     (case v of JObj kvs \<Rightarrow> Inr (case map_of kvs (u k) of None \<Rightarrow> missing | Some w \<Rightarrow> w) | _ \<Rightarrow> Inl BadShape)"

definition LOAD_FAILURE_MARKERS :: "pystr list" where
  "LOAD_FAILURE_MARKERS = map u [''failed to load module script'', ''refused to execute script'', ''refused to apply style'',
     ''was blocked due to mime type'']"

text \<open>\<open>x or y\<close>.\<close>

definition or_else :: "json \<Rightarrow> json \<Rightarrow> json" where
  "or_else x y = (if truthy x then x else y)"

definition load_failure :: "json \<Rightarrow> page_exc + json option" where
  "load_failure e =
     rbind (get_in e ''method'' JNull) (\<lambda>meth.
       if meth \<noteq> JStr (u ''Log.entryAdded'') then Inr None
       else rbind (get_in e ''params'' (JObj [])) (\<lambda>params.
         rbind (get_in params ''entry'' (JObj [])) (\<lambda>entry.
         rbind (get_in entry ''level'' JNull) (\<lambda>level.
           if level \<noteq> JStr (u ''error'') then Inr None
           else rbind (get_in entry ''text'' JNull) (\<lambda>txt1.
             case or_else txt1 (JStr []) of
               JStr t \<Rightarrow>
                 (if \<not> (\<exists>m \<in> set LOAD_FAILURE_MARKERS. contains m (fold_name t)) then Inr None
                  else rbind (get_in entry ''url'' JNull) (\<lambda>url.
                    let what = or_else url (or_else txt1 (JStr [])) in Inr (if truthy what then Some what else None)))
             | _ \<Rightarrow> Inl BadShape)))))"

definition load_failures :: "json list \<Rightarrow> page_exc + json list" where
  "load_failures events =
     rbind (rmap load_failure events) (\<lambda>found. Inr (fold (\<lambda>w out. if w \<in> set out then out else out @ [w]) (List.map_filter id found) []))"

section \<open>Links\<close>

type_synonym tag = "pystr \<times> (pystr \<times> pystr option) list"

definition LINK_ATTRS :: "(pystr \<times> pystr) list" where
  "LINK_ATTRS = [(u ''a'', u ''href''), (u ''area'', u ''href''), (u ''iframe'', u ''src''), (u ''form'', u ''action'')]"

text \<open>\<open>dict(attrs)\<close> keeps the last attribute of a name.\<close>

definition attr_of :: "(pystr \<times> pystr option) list \<Rightarrow> pystr \<Rightarrow> pystr option" where
  "attr_of attrs name = (case map_of (rev attrs) name of Some (Some v) \<Rightarrow> if v = [] then None else Some v | _ \<Rightarrow> None)"

definition handle_starttag :: "tag \<Rightarrow> pystr option \<times> pystr list \<Rightarrow> pystr option \<times> pystr list" where
  "handle_starttag t acc =
     (case (t, acc) of ((name, attrs), (base, found)) \<Rightarrow>
        if name = u ''base'' \<and> attr_of attrs (u ''href'') \<noteq> None then (attr_of attrs (u ''href''), found)
        else case map_of LINK_ATTRS name of
          None \<Rightarrow> (base, found)
        | Some a \<Rightarrow> (case attr_of attrs a of None \<Rightarrow> (base, found) | Some v \<Rightarrow> (base, found @ [v])))"

text \<open>\<open>urljoin\<close> is \<open>None\<close> where it raises \<open>ValueError\<close>, which nothing here catches.\<close>

definition harvest :: "(pystr \<Rightarrow> tag list) \<Rightarrow> (pystr \<Rightarrow> pystr \<Rightarrow> pystr option) \<Rightarrow> pystr \<Rightarrow> pystr \<Rightarrow> page_exc + pystr list" where
  "harvest tags urljoin html base_url =
     (case fold handle_starttag (tags html) (None, []) of (base_href, found) \<Rightarrow>
        case (case base_href of None \<Rightarrow> Some base_url | Some h \<Rightarrow> urljoin base_url h) of
          None \<Rightarrow> Inl BadUrl
        | Some base \<Rightarrow>
            rbind (rmap (\<lambda>raw. case urljoin base (strip raw) of None \<Rightarrow> Inl BadUrl | Some a \<Rightarrow> Inr a) found) (\<lambda>absolute.
              Inr (fold (\<lambda>a out. if a \<in> set out then out else out @ [a]) absolute [])))"

section \<open>The judgement\<close>

record page_report =
  pr_state :: pystr
  pr_requests :: nat
  pr_dropped_hosts :: "pystr list"
  pr_in_scope_failures :: "pystr list"
  pr_capped :: bool
  pr_load_errors :: "json list"

record traffic =
  tf_urls :: "(json \<times> pystr) list"
  tf_failed :: "json list"
  tf_answered :: "json list"
  tf_first :: "json option"
  tf_typed :: "json option"

definition no_traffic :: traffic where
  "no_traffic = \<lparr>tf_urls = [], tf_failed = [], tf_answered = [], tf_first = None, tf_typed = None\<rparr>"

text \<open>\<open>first_seen is None\<close> also holds after a request whose id is missing.\<close>

definition set_if_none :: "json option \<Rightarrow> json \<Rightarrow> json option" where
  "set_if_none x v = (case x of Some w \<Rightarrow> (if w = JNull then Some v else Some w) | None \<Rightarrow> Some v)"

definition not_none :: "json option \<Rightarrow> json option" where
  "not_none x = (case x of Some w \<Rightarrow> (if w = JNull then None else Some w) | None \<Rightarrow> None)"

text \<open>A request's URL that is null names nothing; reading one of another type as a URL is an \<open>AttributeError\<close>, here at once.\<close>

definition note_event :: "json \<Rightarrow> traffic \<Rightarrow> page_exc + traffic" where
  "note_event e t =
     rbind (get_in e ''params'' (JObj [])) (\<lambda>params.
     rbind (get_in params ''requestId'' JNull) (\<lambda>rid.
     rbind (get_in e ''method'' JNull) (\<lambda>meth.
       if meth = JStr (u ''Network.requestWillBeSent'') then
         rbind (get_in params ''request'' (JObj [])) (\<lambda>request.
         rbind (get_in request ''url'' (JStr [])) (\<lambda>url.
           if \<not> usable_key rid then Inl BadShape
           else case url of
             JStr s \<Rightarrow>
               Inr (t\<lparr>tf_urls := dict_set rid s (tf_urls t), tf_first := set_if_none (tf_first t) rid,
                      tf_typed := (if jget params ''type'' = Some (JStr (u ''Document'')) then set_if_none (tf_typed t) rid else tf_typed t)\<rparr>)
           | JNull \<Rightarrow>
               Inr (t\<lparr>tf_urls := dict_set rid [] (tf_urls t), tf_first := set_if_none (tf_first t) rid,
                      tf_typed := (if jget params ''type'' = Some (JStr (u ''Document'')) then set_if_none (tf_typed t) rid else tf_typed t)\<rparr>)
           | _ \<Rightarrow> Inl BadShape))
       else if meth = JStr (u ''Network.loadingFailed'') then
         (if usable_key rid then Inr (t\<lparr>tf_failed := rid # tf_failed t\<rparr>) else Inl BadShape)
       else if meth = JStr (u ''Network.responseReceived'') then
         (if usable_key rid then Inr (t\<lparr>tf_answered := rid # tf_answered t\<rparr>) else Inl BadShape)
       else Inr t)))"

fun note_events :: "json list \<Rightarrow> traffic \<Rightarrow> page_exc + traffic" where
  "note_events [] t = Inr t"
| "note_events (e # es) t = rbind (note_event e t) (note_events es)"

text \<open>The document is the first request the browser typed as one, or the first there was.\<close>

definition document_of :: "traffic \<Rightarrow> json option" where
  "document_of t = (if not_none (tf_typed t) \<noteq> None then not_none (tf_typed t) else not_none (tf_first t))"

text \<open>Failed with no answer.\<close>

definition dropped_ids :: "traffic \<Rightarrow> json list" where
  "dropped_ids t = filter (\<lambda>i. i \<notin> set (tf_answered t)) (remdups (tf_failed t))"

definition url_of_id :: "traffic \<Rightarrow> json \<Rightarrow> pystr" where
  "url_of_id t i = (case map_of (tf_urls t) i of None \<Rightarrow> [] | Some url \<Rightarrow> url)"

definition own_url :: "(pystr \<Rightarrow> bool) \<Rightarrow> pystr list \<Rightarrow> pystr \<Rightarrow> bool" where
  "own_url netloc_ok origins url \<longleftrightarrow> (\<exists>origin \<in> set origins. origin_of netloc_ok url = Some origin)"

text \<open>The host of a request that was dropped outside the seeds' origins, when it has one.\<close>

definition dropped_host :: "(pystr \<Rightarrow> bool) \<Rightarrow> pystr \<Rightarrow> page_exc + pystr list" where
  "dropped_host netloc_ok url =
     (case urlsplit netloc_ok url of
        Inl _ \<Rightarrow> Inl BadUrl
      | Inr parts \<Rightarrow> Inr (case us_hostname parts of None \<Rightarrow> [] | Some h \<Rightarrow> if h = [] then [] else [h]))"

definition state_of :: "(pystr \<Rightarrow> bool) \<Rightarrow> pystr list \<Rightarrow> nat \<Rightarrow> traffic \<Rightarrow> pystr list \<Rightarrow> json list \<Rightarrow> pystr" where
  "state_of netloc_ok origins harvested t dropped failures =
     (case document_of t of
        None \<Rightarrow> u ''failed''
      | Some doc \<Rightarrow>
          if doc \<in> set (dropped_ids t) then u ''failed''
          else if failures \<noteq> [] then u ''degraded''
          else
            let own = length (filter (\<lambda>(rid, url). rid \<noteq> doc \<and> own_url netloc_ok origins url) (tf_urls t)) in
            if harvested > 0 \<or> own > 0 then u ''rendered''
            else if dropped \<noteq> [] then u ''degraded''
            else u ''rendered'')"

definition classify_page :: "(pystr \<Rightarrow> bool) \<Rightarrow> pystr list \<Rightarrow> nat \<Rightarrow> bool \<Rightarrow> json list \<Rightarrow> page_exc + page_report" where
  "classify_page netloc_ok origins harvested capped events =
     rbind (note_events events no_traffic) (\<lambda>t.
       let (own, others) = partition (own_url netloc_ok origins) (map (url_of_id t) (dropped_ids t)) in
       rbind (rmap (dropped_host netloc_ok) others) (\<lambda>hosts.
       let dropped = sort (remdups (concat hosts)) in
       rbind (load_failures events) (\<lambda>failures.
         Inr \<lparr>pr_state = state_of netloc_ok origins harvested t dropped failures, pr_requests = length (tf_urls t),
              pr_dropped_hosts = dropped, pr_in_scope_failures = sort own, pr_capped = capped, pr_load_errors = failures\<rparr>)))"

definition failed_page :: "page_report \<times> pystr list" where
  "failed_page =
     (\<lparr>pr_state = u ''failed'', pr_requests = 0, pr_dropped_hosts = [], pr_in_scope_failures = [], pr_capped = False,
       pr_load_errors = []\<rparr>, [])"

section \<open>The visit\<close>

text \<open>One turn of the settle loop: what the drain reads, and the clock when the quiet is noted and when it is measured. The turns end
  at the deadline.\<close>

record settle_turn =
  tn_reads :: "cdp_read list"
  tn_noted :: int
  tn_measured :: int

record page_env =
  pe_parse :: "bytes \<Rightarrow> json option"
  pe_tags :: "pystr \<Rightarrow> tag list"
  pe_urljoin :: "pystr \<Rightarrow> pystr \<Rightarrow> pystr option"
  pe_netloc_ok :: "pystr \<Rightarrow> bool"
  pe_enable :: "cdp_read list option list"
  pe_navigate :: "cdp_read list option"
  pe_turns :: "settle_turn list"
  pe_settle :: int
  pe_document :: "cdp_read list option"
  pe_outer :: "cdp_read list option"

text \<open>The three \<open>enable\<close> calls, in order.\<close>

fun enable_domains :: "(bytes \<Rightarrow> json option) \<Rightarrow> cdp_read list option list \<Rightarrow> (connection, cdp_exc, unit) prog" where
  "enable_domains parse [] conn = (Inr (), conn)"
| "enable_domains parse (script # rest) conn =
     (case cdp_call parse script conn of (Inl e, conn') \<Rightarrow> (Inl e, conn') | (Inr _, conn') \<Rightarrow> enable_domains parse rest conn')"

text \<open>\<open>quiet_since or time.monotonic()\<close>: a clock at 0 counts as not noted.\<close>

fun settle_loop :: "(bytes \<Rightarrow> json option) \<Rightarrow> int \<Rightarrow> int option \<Rightarrow> json list \<Rightarrow> settle_turn list \<Rightarrow> (connection, cdp_exc, json list \<times> bool) prog" where
  "settle_loop parse settle quiet events [] conn = (Inr (events, True), conn)"
| "settle_loop parse settle quiet events (turn # turns) conn =
     (case drain parse (tn_reads turn) conn of
        (Inl e, conn') \<Rightarrow> (Inl e, conn')
      | (Inr batch, conn') \<Rightarrow>
          if batch \<noteq> [] then settle_loop parse settle None (events @ batch) turns conn'
          else
            let since = (case quiet of None \<Rightarrow> tn_noted turn | Some q \<Rightarrow> if q = 0 then tn_noted turn else q) in
            if tn_measured turn - since \<ge> settle then (Inr (events, False), conn')
            else settle_loop parse settle (Some since) events turns conn')"

definition outer_html :: "page_env \<Rightarrow> (connection, cdp_exc, json) prog" where
  "outer_html env conn =
     (case cdp_call (pe_parse env) (pe_document env) conn of
        (Inl e, conn1) \<Rightarrow> (Inl e, conn1)
      | (Inr root, conn1) \<Rightarrow>
          (case root of
             JObj _ \<Rightarrow>
               (case (case jget root ''root'' of None \<Rightarrow> JObj [] | Some r \<Rightarrow> r) of
                  JObj kvs \<Rightarrow>
                    (if truthy (case map_of kvs (u ''nodeId'') of None \<Rightarrow> JNull | Some n \<Rightarrow> n) then
                       (case cdp_call (pe_parse env) (pe_outer env) conn1 of
                          (Inl e, conn2) \<Rightarrow> (Inl e, conn2)
                        | (Inr r, conn2) \<Rightarrow>
                            (case r of JObj _ \<Rightarrow> (Inr (case jget r ''outerHTML'' of None \<Rightarrow> JStr [] | Some h \<Rightarrow> h), conn2)
                             | _ \<Rightarrow> (Inl CdpCrash, conn2)))
                     else (Inr (JStr []), conn1))
                | _ \<Rightarrow> (Inl CdpCrash, conn1))
           | _ \<Rightarrow> (Inl CdpCrash, conn1)))"

definition of_cdp :: "cdp_exc \<Rightarrow> page_exc" where
  "of_cdp e = (if e = CdpClosed then PageClosed else BadShape)"

text \<open>What is left of a document: harvested, judged, and its links normalised. A document that is no string is one the parser gives up on
  at once.\<close>

definition judge_page :: "page_env \<Rightarrow> pystr list \<Rightarrow> pystr \<Rightarrow> json \<Rightarrow> bool \<Rightarrow> json list \<Rightarrow> page_exc + (page_report \<times> pystr list)" where
  "judge_page env origins url html capped events =
     rbind (if \<not> truthy html then Inr []
            else case html of JStr h \<Rightarrow> harvest (pe_tags env) (pe_urljoin env) h url | _ \<Rightarrow> Inr []) (\<lambda>links.
     rbind (classify_page (pe_netloc_ok env) origins (length links) capped events) (\<lambda>result.
       Inr (result, List.map_filter (normalise_url (pe_netloc_ok env)) links)))"

text \<open>A drain with no time to wait reads nothing: it clears the events that calls have buffered.\<close>

definition visit_page :: "page_env \<Rightarrow> pystr list \<Rightarrow> pystr \<Rightarrow> (connection, page_exc, page_report \<times> pystr list) prog" where
  "visit_page env origins url conn =
     (case enable_domains (pe_parse env) (pe_enable env) conn of
        (Inl e, conn1) \<Rightarrow> if e = CdpClosed \<or> e = CdpCrash then (Inl (of_cdp e), conn1) else (Inr failed_page, conn1)
      | (Inr _, conn1) \<Rightarrow>
          (case drain (pe_parse env) [] conn1 of
             (Inl e, conn2) \<Rightarrow> (Inl (of_cdp e), conn2)
           | (Inr _, conn2) \<Rightarrow>
               (case cdp_call (pe_parse env) (pe_navigate env) conn2 of
                  (nav, conn3) \<Rightarrow>
                    if nav = Inl CdpClosed \<or> nav = Inl CdpCrash then (Inl (of_cdp (projl nav)), conn3)
                    else if nav = Inl CdpError then (Inr failed_page, conn3)
                    else
                      (case settle_loop (pe_parse env) (pe_settle env) None [] (pe_turns env) conn3 of
                         (Inl e, conn4) \<Rightarrow> (Inl (of_cdp e), conn4)
                       | (Inr (events, overran), conn4) \<Rightarrow>
                           let capped = (nav = Inl CdpTimeout \<or> overran) in
                           (case outer_html env conn4 of
                              (Inl e, conn5) \<Rightarrow>
                                if e = CdpClosed \<or> e = CdpCrash then (Inl (of_cdp e), conn5)
                                else (judge_page env origins url (JStr []) capped events, conn5)
                            | (Inr html, conn5) \<Rightarrow> (judge_page env origins url html capped events, conn5))))))"

text \<open>What the crawl keeps of a report.\<close>

definition as_page_result :: "page_report \<Rightarrow> page_result" where
  "as_page_result r =
     \<lparr>pg_state = pr_state r, pg_capped = pr_capped r, pg_load_errors = length (pr_load_errors r), pg_requests = int (pr_requests r),
      pg_dropped_hosts = pr_dropped_hosts r\<rparr>"

end
