(* ===== verification/Page_Laws.thy ===== *)
theory Page_Laws
  imports Page
begin

text \<open>
  What a page's report means, and what one page can do to the crawl.
\<close>

section \<open>The connection\<close>

text \<open>What has been filed, whatever is left in the buffer.\<close>

definition same_filed :: "connection \<Rightarrow> connection \<Rightarrow> bool" where
  "same_filed c d \<longleftrightarrow> c\<lparr>cn_buf := []\<rparr> = d\<lparr>cn_buf := []\<rparr>"

lemma same_filed_refl [simp]: "same_filed c c"
  by (simp add: same_filed_def)

lemma same_filed_buf: "same_filed c d \<Longrightarrow> c\<lparr>cn_buf := x\<rparr> = d\<lparr>cn_buf := x\<rparr>"
  by (cases c; cases d) (simp add: same_filed_def)

lemma buf_same_filed [simp]: "same_filed (c\<lparr>cn_buf := x\<rparr>) (c\<lparr>cn_buf := y\<rparr>)"
  by (simp add: same_filed_def)

lemma file_message_buf:
  "file_message msg (conn\<lparr>cn_buf := x\<rparr>) = (fst (file_message msg conn), (snd (file_message msg conn))\<lparr>cn_buf := x\<rparr>)"
  by (simp add: file_message_def split: json.split option.split)

lemma file_frames_buf: "file_frames parse raws rest (conn\<lparr>cn_buf := x\<rparr>) = file_frames parse raws rest conn"
  by (cases raws) (simp_all add: Let_def)

text \<open>Filing some frames and then more is filing them all, up to the first that crashes.\<close>

lemma file_frames_append:
  "case file_frames parse xs r conn of
     (Inl e, c) \<Rightarrow> \<exists>d. file_frames parse (xs @ ys) rest conn = (Inl e, d) \<and> same_filed c d
   | (Inr _, c) \<Rightarrow> file_frames parse (xs @ ys) rest conn = file_frames parse ys rest c"
proof (induction xs arbitrary: conn)
  case (Cons x xs)
  let ?x = "join [0] (xs @ [r])" and ?y = "join [0] (xs @ ys @ [rest])"
  show ?case
  proof (cases "x = [] \<or> parse x = None")
    case True
    then show ?thesis using Cons [of conn] by (auto simp: Let_def file_frames_buf split: sum.splits)
  next
    case False
    then obtain msg where m: "x \<noteq> []" "parse x = Some msg" by auto
    obtain out c where f: "file_message msg conn = (out, c)" by (cases "file_message msg conn") auto
    show ?thesis using m f Cons [of c]
      by (cases out) (auto simp: Let_def file_message_buf file_frames_buf split: sum.splits)
  qed
qed (simp add: file_frames_buf)

lemma file_frames_rest: "file_frames parse raws rest conn = (Inr v, c) \<Longrightarrow> cn_buf c = rest"
  by (induction raws arbitrary: conn) (auto simp: Let_def split: if_splits option.splits prod.splits sum.splits)

lemma split1_append_pieces:
  "split1 c (s @ t) = butlast (split1 c s) @ (last (split1 c s) @ hd (split1 c t)) # tl (split1 c t)"
proof (induction s)
  case (Cons x s)
  obtain h r where hr: "split1 c s = h # r" by (cases "split1 c s") auto
  show ?case using Cons hr by (cases r) auto
qed simp

lemma pump_raises: "c \<noteq> [] \<Longrightarrow> pump parse (Chunk c) conn = (Inl e, d) \<Longrightarrow> e = CdpCrash"
proof -
  have "file_frames parse raws rest k = (Inl e, d) \<Longrightarrow> e = CdpCrash" for raws rest k
    by (induction raws arbitrary: k)
      (auto simp: Let_def file_message_def split: option.splits json.splits if_splits)
  then show "c \<noteq> [] \<Longrightarrow> pump parse (Chunk c) conn = (Inl e, d) \<Longrightarrow> e = CdpCrash" by (simp add: pump_def Let_def)
qed

text \<open>Two reads file what one read of both would.\<close>

lemma pump_append:
  assumes "s \<noteq> []" "t \<noteq> []"
  shows "case pump parse (Chunk s) conn of
      (Inl e, c) \<Rightarrow> \<exists>d. pump parse (Chunk (s @ t)) conn = (Inl e, d) \<and> same_filed c d
    | (Inr _, c) \<Rightarrow> pump parse (Chunk (s @ t)) conn = pump parse (Chunk t) c"
proof -
  let ?buf = "cn_buf conn @ s"
  let ?p = "split1 0 ?buf"
  have free: "0 \<notin> set (last ?p)" by (rule split1_free [of _ 0 ?buf]) simp
  define q where "q = split1 0 (last ?p @ t)"
  have q: "q = (last ?p @ hd (split1 0 t)) # tl (split1 0 t)"
    using free by (simp add: q_def split1_append_pieces [of 0 "last ?p" t] split1_notin)
  have all: "split1 0 (?buf @ t) = butlast ?p @ q" unfolding q split1_append_pieces [of 0 ?buf t] ..
  have "q \<noteq> []" by (simp add: q)
  then have whole: "pump parse (Chunk (s @ t)) conn = file_frames parse (butlast ?p @ butlast q) (last q) conn"
    using assms all by (simp add: pump_def Let_def file_frames_buf butlast_append)
  have part: "pump parse (Chunk s) conn = file_frames parse (butlast ?p) (last ?p) conn"
    using assms by (simp add: pump_def Let_def file_frames_buf)
  obtain out c where f: "file_frames parse (butlast ?p) (last ?p) conn = (out, c)"
    by (cases "file_frames parse (butlast ?p) (last ?p) conn") auto
  note app = file_frames_append [where parse = parse and xs = "butlast ?p" and r = "last ?p" and conn = conn and ys = "butlast q" and rest = "last q"]
  show ?thesis
  proof (cases out)
    case (Inl e)
    then show ?thesis using app unfolding part whole f by simp
  next
    case (Inr v)
    have "cn_buf c = last ?p" using file_frames_rest f Inr by blast
    then have "pump parse (Chunk t) c = file_frames parse (butlast q) (last q) c"
      using assms by (simp add: pump_def Let_def q_def file_frames_buf)
    then show ?thesis using app unfolding part whole f by (simp add: Inr)
  qed
qed

text \<open>However the pipe cuts what the browser writes into reads, the connection files the same replies and the same events in the same
  order, up to the first frame that is no message; what is left over is the same too when there is none.\<close>

theorem frames_any_chunking:
  assumes "cs \<noteq> []" "[] \<notin> set cs"
  shows "fst (drain_reads parse (map Chunk cs) conn) = fst (pump parse (Chunk (concat cs)) conn)" (is "fst ?many = fst ?one")
    and "same_filed (snd (drain_reads parse (map Chunk cs) conn)) (snd (pump parse (Chunk (concat cs)) conn))"
    and "isl (fst (pump parse (Chunk (concat cs)) conn))
      \<or> snd (drain_reads parse (map Chunk cs) conn) = snd (pump parse (Chunk (concat cs)) conn)"
proof -
  have "fst ?many = fst ?one \<and> same_filed (snd ?many) (snd ?one) \<and> (isl (fst ?one) \<or> snd ?many = snd ?one)"
    using assms
  proof (induction cs arbitrary: conn)
    case (Cons c cs)
    show ?case
    proof (cases "cs = []")
      case True
      then show ?thesis using Cons.prems pump_raises [of c parse conn]
        by (auto split: prod.splits sum.splits cdp_exc.splits)
    next
      case False
      obtain out d where p: "pump parse (Chunk c) conn = (out, d)" by (cases "pump parse (Chunk c) conn") auto
      have "concat cs \<noteq> []" "c \<noteq> []" using Cons.prems False by (cases cs; auto)+
      then show ?thesis using p pump_append [of c "concat cs" parse conn] pump_raises [of c parse conn] Cons.IH [of d] Cons.prems False
        by (cases out) auto
    qed
  qed simp
  then show "fst ?many = fst ?one" "same_filed (snd ?many) (snd ?one)" "isl (fst ?one) \<or> snd ?many = snd ?one" by blast+
qed

section \<open>Links\<close>

text \<open>The addresses a document's start tags point at, in order, and the base they are read against: that of the last \<open>base\<close> tag that
  gives one.\<close>

definition page_links :: "tag list \<Rightarrow> pystr list" where
  "page_links ts = List.map_filter (\<lambda>(name, attrs). Option.bind (map_of LINK_ATTRS name) (attr_of attrs)) ts"

definition page_base :: "tag list \<Rightarrow> pystr option" where
  "page_base ts = (case rev (List.map_filter (\<lambda>(name, attrs). if name = u ''base'' then attr_of attrs (u ''href'') else None) ts) of
     [] \<Rightarrow> None | h # _ \<Rightarrow> Some h)"

definition joined_base :: "(pystr \<Rightarrow> pystr \<Rightarrow> pystr option) \<Rightarrow> pystr \<Rightarrow> tag list \<Rightarrow> pystr option" where
  "joined_base urljoin url ts = (case page_base ts of None \<Rightarrow> Some url | Some h \<Rightarrow> urljoin url h)"

lemma base_no_link: "map_of LINK_ATTRS (u ''base'') = None"
  by (simp add: LINK_ATTRS_def literals)

lemma links_collected: "fold handle_starttag ts (None, []) = (page_base ts, page_links ts)"
proof (induction ts rule: rev_induct)
  case (snoc t ts)
  obtain name attrs where t: "t = (name, attrs)" by (cases t)
  show ?case using snoc base_no_link
    by (auto simp: t handle_starttag_def page_base_def page_links_def List.map_filter_def split: option.splits list.splits)
qed (simp add: page_base_def page_links_def List.map_filter_simps)

lemma keep_first: "fold (\<lambda>a out. if a \<in> set out then out else out @ [a]) xs [] = rev (remdups (rev xs))"
  by (induction xs rule: rev_induct) auto

lemma rmap_option:
  "rmap (\<lambda>raw. case f raw of None \<Rightarrow> Inl e | Some a \<Rightarrow> Inr a) xs
    = (if \<exists>x \<in> set xs. f x = None then Inl e else Inr (map (the \<circ> f) xs))"
  by (induction xs) (auto split: option.split)

lemma harvest_by_links:
  "harvest tags urljoin html url =
     (case joined_base urljoin url (tags html) of
        None \<Rightarrow> Inl BadUrl
      | Some base \<Rightarrow>
          if \<exists>raw \<in> set (page_links (tags html)). urljoin base (strip raw) = None then Inl BadUrl
          else Inr (rev (remdups (rev (map (\<lambda>raw. the (urljoin base (strip raw))) (page_links (tags html)))))))"
  by (simp add: harvest_def links_collected joined_base_def rmap_option keep_first comp_def split: option.split) auto

text \<open>A page's links are harvested whole or not at all. When \<open>urljoin\<close> takes its base and each of its addresses, the harvest is
  each address once, and when it refuses a single one, the \<open>ValueError\<close> leaves the harvest and the judgement of the page, and no
  report of the page is left.\<close>

theorem links_all_or_nothing:
  assumes "h \<noteq> []"
  shows "(\<forall>out. harvest (pe_tags env) (pe_urljoin env) h url = Inr out \<longrightarrow>
        distinct out \<and> (\<exists>base. joined_base (pe_urljoin env) url (pe_tags env h) = Some base
          \<and> Some ` set out = (\<lambda>raw. pe_urljoin env base (strip raw)) ` set (page_links (pe_tags env h))))
    \<and> (\<forall>base raw. joined_base (pe_urljoin env) url (pe_tags env h) = Some base \<longrightarrow> raw \<in> set (page_links (pe_tags env h))
        \<longrightarrow> pe_urljoin env base (strip raw) = None \<longrightarrow> judge_page env origins url (JStr h) capped events = Inl BadUrl)"
proof (cases "joined_base (pe_urljoin env) url (pe_tags env h)")
  case (Some base)
  have "harvest (pe_tags env) (pe_urljoin env) h url = Inl BadUrl \<Longrightarrow> judge_page env origins url (JStr h) capped events = Inl BadUrl"
    using assms by (simp add: judge_page_def truthy_def)
  then show ?thesis using Some by (auto simp: harvest_by_links image_image intro!: image_eqI)
qed (simp add: harvest_by_links)

definition bracket_page :: page_env where
  "bracket_page =
     \<lparr>pe_parse = (\<lambda>_. None),
      pe_tags = (\<lambda>_. [(u ''a'', [(u ''href'', Some (u ''/login''))]), (u ''a'', [(u ''href'', Some (u ''http://[''))])]),
      pe_urljoin = (\<lambda>base raw. if raw = u ''http://['' then None else Some (base @ raw)), pe_netloc_ok = (\<lambda>_. True), pe_enable = [],
      pe_navigate = None, pe_turns = [], pe_settle = 0, pe_document = None, pe_outer = None\<rparr>"

section \<open>The judgement\<close>

lemma rmap_Inr_each: "rmap f xs = Inr ys \<Longrightarrow> \<forall>x \<in> set xs. \<exists>y \<in> set ys. f x = Inr y"
  by (induction xs arbitrary: ys) (fastforce simp: rbind_Inr_iff)+

lemma set_hosts:
  assumes "rmap (dropped_host netloc_ok) urls = Inr hosts"
  shows "host \<in> set (concat hosts)
    \<longleftrightarrow> host \<noteq> [] \<and> (\<exists>url \<in> set urls. \<exists>parts. urlsplit netloc_ok url = Inr parts \<and> us_hostname parts = Some host)"
proof
  assume listed: "host \<in> set (concat hosts)"
  obtain hs where hs: "hs \<in> set hosts" "host \<in> set hs" using listed unfolding set_concat by blast
  then obtain url where url: "url \<in> set urls" "dropped_host netloc_ok url = Inr hs" using rmap_Inr_all [OF assms] by blast
  then obtain parts where "urlsplit netloc_ok url = Inr parts" "us_hostname parts = Some host" "host \<noteq> []"
    using hs(2) by (auto simp: dropped_host_def split: sum.splits option.splits if_splits)
  with url(1) show "host \<noteq> [] \<and> (\<exists>url \<in> set urls. \<exists>parts. urlsplit netloc_ok url = Inr parts \<and> us_hostname parts = Some host)"
    by blast
next
  assume "host \<noteq> [] \<and> (\<exists>url \<in> set urls. \<exists>parts. urlsplit netloc_ok url = Inr parts \<and> us_hostname parts = Some host)"
  then obtain url where "url \<in> set urls" "dropped_host netloc_ok url = Inr [host]" by (auto simp: dropped_host_def)
  then have "[host] \<in> set hosts" using rmap_Inr_each [OF assms] by fastforce
  then show "host \<in> set (concat hosts)" by force
qed

lemma state_rendered:
  "state_of netloc_ok origins harvested t dropped failures = u ''rendered''
    \<longleftrightarrow> (\<exists>doc. document_of t = Some doc \<and> doc \<notin> set (dropped_ids t) \<and> failures = []
      \<and> (0 < harvested \<or> (\<exists>(rid, url) \<in> set (tf_urls t). rid \<noteq> doc \<and> own_url netloc_ok origins url) \<or> dropped = []))"
proof -
  have "u ''failed'' \<noteq> u ''rendered''" "u ''degraded'' \<noteq> u ''rendered''" by (simp_all add: literals)
  then show ?thesis by (auto simp: state_of_def Let_def filter_empty_conv split: option.splits)
qed

text \<open>C14. A page is reported as rendered exactly when its document was asked for and not dropped, the page itself reported no code or
  style it could not load, and it gave something, a link or a request of its own, or nothing outside the seeds was dropped. The list an
  operator would paste into \<open>render_allow\<close> is the hosts of the requests that failed with no answer and are not of a seed's origin; the
  failures called the target's own are those of a seed's origin.\<close>

theorem rendered_is_earned:
  assumes "classify_page netloc_ok origins harvested capped events = Inr r" "note_events events no_traffic = Inr t"
  shows "(pr_state r = u ''rendered'' \<longleftrightarrow>
      (\<exists>doc. document_of t = Some doc \<and> \<not> (doc \<in> set (tf_failed t) \<and> doc \<notin> set (tf_answered t)) \<and> pr_load_errors r = []
        \<and> (0 < harvested \<or> (\<exists>(rid, url) \<in> set (tf_urls t). rid \<noteq> doc \<and> own_url netloc_ok origins url) \<or> pr_dropped_hosts r = [])))
    \<and> set (pr_dropped_hosts r) = {host. host \<noteq> [] \<and> (\<exists>rid \<in> set (tf_failed t) - set (tf_answered t). \<exists>parts.
        \<not> own_url netloc_ok origins (url_of_id t rid) \<and> urlsplit netloc_ok (url_of_id t rid) = Inr parts
        \<and> us_hostname parts = Some host)}
    \<and> set (pr_in_scope_failures r)
      = {url. own_url netloc_ok origins url \<and> (\<exists>rid \<in> set (tf_failed t) - set (tf_answered t). url = url_of_id t rid)}"
proof -
  define own others where "own = filter (own_url netloc_ok origins) (map (url_of_id t) (dropped_ids t))"
    and "others = filter (Not \<circ> own_url netloc_ok origins) (map (url_of_id t) (dropped_ids t))"
  obtain hosts failures where h: "rmap (dropped_host netloc_ok) others = Inr hosts"
    and r: "r = \<lparr>pr_state = state_of netloc_ok origins harvested t (sort (remdups (concat hosts))) failures, pr_requests = length (tf_urls t),
              pr_dropped_hosts = sort (remdups (concat hosts)), pr_in_scope_failures = sort own, pr_capped = capped, pr_load_errors = failures\<rparr>"
    using assms by (auto simp: classify_page_def rbind_Inr_iff partition_filter_conv own_def others_def Let_def)
  have dropped: "set (dropped_ids t) = set (tf_failed t) - set (tf_answered t)" by (auto simp: dropped_ids_def)
  have hosts: "set (pr_dropped_hosts r) = {host. host \<noteq> [] \<and> (\<exists>rid \<in> set (tf_failed t) - set (tf_answered t). \<exists>parts.
        \<not> own_url netloc_ok origins (url_of_id t rid) \<and> urlsplit netloc_ok (url_of_id t rid) = Inr parts
        \<and> us_hostname parts = Some host)}"
    unfolding set_eq_iff by (auto simp: r set_hosts [OF h] others_def dropped simp del: set_concat)
  have own: "set (pr_in_scope_failures r)
      = {url. own_url netloc_ok origins url \<and> (\<exists>rid \<in> set (tf_failed t) - set (tf_answered t). url = url_of_id t rid)}"
    by (auto simp: r own_def dropped)
  have "pr_state r = u ''rendered'' \<longleftrightarrow>
      (\<exists>doc. document_of t = Some doc \<and> \<not> (doc \<in> set (tf_failed t) \<and> doc \<notin> set (tf_answered t)) \<and> pr_load_errors r = []
        \<and> (0 < harvested \<or> (\<exists>(rid, url) \<in> set (tf_urls t). rid \<noteq> doc \<and> own_url netloc_ok origins url) \<or> pr_dropped_hosts r = []))"
    by (simp only: r page_report.simps state_rendered dropped Diff_iff)
  with hosts own show ?thesis by blast
qed

text \<open>A document that arrived and a bundle that did not: nothing of the page was seen.\<close>

definition event_of :: "string \<Rightarrow> (string \<times> json) list \<Rightarrow> json" where
  "event_of meth params = JObj [(u ''method'', JStr (u meth)), (u ''params'', JObj (map (\<lambda>(k, v). (u k, v)) params))]"

definition lost_bundle :: "json list" where
  "lost_bundle =
     [event_of ''Network.requestWillBeSent'' [(''requestId'', JStr (u ''1'')), (''request'', JObj [(u ''url'', JStr (u ''http://app.test/''))])],
      event_of ''Network.responseReceived'' [(''requestId'', JStr (u ''1''))],
      event_of ''Network.requestWillBeSent'' [(''requestId'', JStr (u ''2'')), (''request'', JObj [(u ''url'', JStr (u ''http://cdn.test/app.js''))])],
      event_of ''Network.loadingFailed'' [(''requestId'', JStr (u ''2''))]]"

definition lost_page :: page_report where
  "lost_page =
     \<lparr>pr_state = u ''degraded'', pr_requests = 2, pr_dropped_hosts = [u ''cdn.test''], pr_in_scope_failures = [], pr_capped = False,
      pr_load_errors = []\<rparr>"

lemma lost_bundle_classified: "classify_page (\<lambda>_. True) [u ''http://app.test''] 0 False lost_bundle = Inr lost_page"
  by code_simp

definition lost_traffic :: traffic where
  "lost_traffic =
     \<lparr>tf_urls = [(JStr (u ''1''), u ''http://app.test/''), (JStr (u ''2''), u ''http://cdn.test/app.js'')], tf_failed = [JStr (u ''2'')],
      tf_answered = [JStr (u ''1'')], tf_first = Some (JStr (u ''1'')), tf_typed = None\<rparr>"

lemma lost_bundle_traffic: "note_events lost_bundle no_traffic = Inr lost_traffic"
  by code_simp

theorem rendered_is_earned_witness:
  "pr_state lost_page = u ''degraded''
    \<and> (\<exists>rid \<in> set (tf_failed lost_traffic) - set (tf_answered lost_traffic). \<exists>parts.
        urlsplit (\<lambda>_. True) (url_of_id lost_traffic rid) = Inr parts \<and> us_hostname parts = Some (u ''cdn.test''))"
proof -
  have "u ''cdn.test'' \<in> set (pr_dropped_hosts lost_page)" by (simp add: lost_page_def)
  moreover have "pr_state lost_page = u ''degraded''" by (simp add: lost_page_def)
  moreover note rendered_is_earned [OF lost_bundle_classified lost_bundle_traffic, THEN conjunct2, THEN conjunct1]
  ultimately show ?thesis by blast
qed

end
