(* ===== verification/Engagement.thy ===== *)
theory Engagement
  imports Config
begin

text \<open>
  The engagement directory, \<open>src/hx/engagement.py\<close>: creating one, opening it, and recording a new version of its scope; and the two
  commands of \<open>src/hx/cli.py\<close> that do it, \<open>hx new\<close> and \<open>hx amend\<close>. The state is the directory: the text of \<open>config.yaml\<close>, the
  temporary file of a write in progress, the database's three tables that matter here, and the two subdirectories. The YAML reader
  and writer and SHA-256 are arguments. An open connection that is closed again leaves nothing, so connections are left out; so are
  the modes of files.
\<close>

section \<open>The directory\<close>

record scope_version_row =
  sc_id :: pystr
  sc_engagement :: pystr
  sc_yaml :: pystr
  sc_sha :: pystr
  sc_from_us :: int
  sc_author :: pystr
  sc_reason :: pystr

record engagement_table_row =
  eg_id :: pystr
  eg_name :: pystr
  eg_client :: pystr
  eg_created_us :: int
  eg_status :: pystr
  eg_config_path :: pystr

record hx_db =
  db_version :: int
  db_engagements :: "engagement_table_row list"
  db_scopes :: "scope_version_row list"

text \<open>\<open>gd_config\<close> is nothing when there is no file or none that is UTF-8.\<close>

record engagement_files =
  gd_config :: "pystr option"
  gd_tmp :: "pystr option"
  gd_db :: "hx_db option"
  gd_exports :: bool
  gd_blobs :: bool

definition no_files :: engagement_files where
  "no_files = \<lparr>gd_config = None, gd_tmp = None, gd_db = None, gd_exports = False, gd_blobs = False\<rparr>"

record opened =
  og_id :: pystr
  og_config :: config

datatype eg_exc = EngagementError | BadConfig config_exc | DiskError | DbError | Unwritable | ClickException

definition DB_VERSION :: int where
  "DB_VERSION = 9"

text \<open>\<open>secure_mkdir\<close> of \<open>src/hx/store/paths.py\<close>, over the directories there are and their modes. A path is its components from the
  root of the file system; the directories that are missing are made from the top, each at its mode.\<close>

definition ancestors :: "pystr list \<Rightarrow> pystr list list" where
  "ancestors path = map (\<lambda>n. take n path) (rev [0..<Suc (length path)])"

definition missing_dirs :: "(pystr list \<rightharpoonup> int) \<Rightarrow> pystr list \<Rightarrow> pystr list list" where
  "missing_dirs dirs path = takeWhile (\<lambda>p. dirs p = None) (ancestors path)"

definition OWNER_ONLY :: int where
  "OWNER_ONLY = 448"

definition secure_mkdir :: "(pystr list \<Rightarrow> bool) \<Rightarrow> pystr list \<Rightarrow> (pystr list \<rightharpoonup> int, eg_exc, unit) prog" where
  "secure_mkdir fails path dirs =
     sfor (\<lambda>p ds. if fails p then (Inl DiskError, ds) else (Inr (), ds(p \<mapsto> OWNER_ONLY))) (rev (missing_dirs dirs path)) dirs"

section \<open>Writing\<close>

text \<open>Where \<open>_write_config_secure\<close> fails: at the exclusive create, at \<open>fdopen\<close>, while writing, or at the rename.\<close>

datatype config_write = Written | CreateFails | FdopenFails | WriteFails | ReplaceFails

definition write_config :: "config_write \<Rightarrow> pystr \<Rightarrow> (engagement_files, eg_exc, unit) prog" where
  "write_config outc text d =
     (if outc = CreateFails then (Inl DiskError, d)
      else
        let d1 = d\<lparr>gd_tmp := Some []\<rparr> in
        if outc = FdopenFails then (Inl DiskError, d1\<lparr>gd_tmp := None\<rparr>)
        else if utf8_encode text = None then (Inl Unwritable, d1\<lparr>gd_tmp := None\<rparr>)
        else if outc = WriteFails then (Inl DiskError, d1\<lparr>gd_tmp := None\<rparr>)
        else
          let d2 = d1\<lparr>gd_tmp := Some text\<rparr> in
          if outc = ReplaceFails then (Inl DiskError, d2\<lparr>gd_tmp := None\<rparr>)
          else (Inr (), d2\<lparr>gd_config := gd_tmp d2, gd_tmp := None\<rparr>))"

text \<open>What a version of the scope is stamped with.\<close>

record version_stamp =
  sm_id :: pystr
  sm_now_us :: int
  sm_author :: pystr
  sm_reason :: pystr

record yaml_lib =
  yl_load :: "pystr \<Rightarrow> yaml_exc + yaml"
  yl_dump :: "yaml \<Rightarrow> pystr"
  yl_sha :: "pystr \<Rightarrow> pystr"

definition record_scope :: "yaml_lib \<Rightarrow> pystr \<Rightarrow> config \<Rightarrow> version_stamp \<Rightarrow> (hx_db, eg_exc, pystr) prog" where
  "record_scope lib eid cfg sm db =
     (let yaml_text = config_dumps (yl_dump lib) cfg in
      if \<exists>t \<in> set [yaml_text, sm_author sm, sm_reason sm]. utf8_encode t = None then (Inl Unwritable, db)
      else if sm_id sm \<in> set (map sc_id (db_scopes db)) \<or> eid \<notin> set (map eg_id (db_engagements db)) then (Inl DbError, db)
      else (Inr (sm_id sm), db\<lparr>db_scopes := db_scopes db @
        [\<lparr>sc_id = sm_id sm, sc_engagement = eid, sc_yaml = yaml_text, sc_sha = yl_sha lib yaml_text, sc_from_us = sm_now_us sm,
          sc_author = sm_author sm, sc_reason = sm_reason sm\<rparr>]\<rparr>))"

text \<open>\<open>record_scope_version\<close>: the row is committed before the file is written.\<close>

definition record_scope_version :: "yaml_lib \<Rightarrow> config_write \<Rightarrow> opened \<Rightarrow> version_stamp \<Rightarrow> (engagement_files, eg_exc, pystr) prog" where
  "record_scope_version lib outc eng sm d =
     (case gd_db d of
        None \<Rightarrow> (Inl DbError, d)
      | Some db \<Rightarrow>
          (case record_scope lib (og_id eng) (og_config eng) sm db of
             (Inl e, _) \<Rightarrow> (Inl e, d)
           | (Inr sv, db') \<Rightarrow>
               (case write_config outc (config_dumps (yl_dump lib) (og_config eng)) (d\<lparr>gd_db := Some db'\<rparr>) of
                  (Inl e, d') \<Rightarrow> (Inl e, d')
                | (Inr _, d') \<Rightarrow> (Inr sv, d'))))"

section \<open>Creating\<close>

datatype create_fault =
  AtMkdir | AtExports | AtConfig config_write | AtConnect | AtSchema | AtInsert | AtBlobs

definition disk_step :: "bool \<Rightarrow> eg_exc \<Rightarrow> (engagement_files \<Rightarrow> engagement_files) \<Rightarrow> (engagement_files, eg_exc, unit) prog" where
  "disk_step fails e f d = (if fails then (Inl e, d) else (Inr (), f d))"

text \<open>\<open>_create_engagement_and_scope\<close>: both rows or neither; a trigger admits one engagement to a database.\<close>

definition create_rows :: "yaml_lib \<Rightarrow> create_fault option \<Rightarrow> pystr \<Rightarrow> int \<Rightarrow> pystr \<Rightarrow> config \<Rightarrow> version_stamp \<Rightarrow> (engagement_files, eg_exc, unit) prog" where
  "create_rows lib fault eid created path cfg sm d =
     (case gd_db d of
        None \<Rightarrow> (Inl DbError, d)
      | Some db \<Rightarrow>
          if fault = Some AtInsert \<or> db_engagements db \<noteq> [] then (Inl DbError, d)
          else if \<exists>t \<in> set [cf_name cfg, cf_client cfg, path]. utf8_encode t = None then (Inl Unwritable, d)
          else
            let db1 = db\<lparr>db_engagements := db_engagements db @
              [\<lparr>eg_id = eid, eg_name = cf_name cfg, eg_client = cf_client cfg, eg_created_us = created, eg_status = u ''active'',
                eg_config_path = path\<rparr>]\<rparr> in
            (case record_scope lib eid cfg sm db1 of (Inl e, _) \<Rightarrow> (Inl e, d) | (Inr _, db2) \<Rightarrow> (Inr (), d\<lparr>gd_db := Some db2\<rparr>)))"

definition fill_directory :: "yaml_lib \<Rightarrow> create_fault option \<Rightarrow> pystr \<Rightarrow> int \<Rightarrow> pystr \<Rightarrow> config \<Rightarrow> version_stamp \<Rightarrow> (engagement_files, eg_exc, opened) prog" where
  "fill_directory lib fault eid created path cfg sm =
     sbind (disk_step (fault = Some AtExports) DiskError (\<lambda>d. d\<lparr>gd_exports := True\<rparr>)) (\<lambda>_.
     sbind (write_config (case fault of Some (AtConfig w) \<Rightarrow> w | _ \<Rightarrow> Written) (config_dumps (yl_dump lib) cfg)) (\<lambda>_.
     sbind (disk_step (fault = Some AtConnect) DbError
       (\<lambda>d. d\<lparr>gd_db := Some \<lparr>db_version = 0, db_engagements = [], db_scopes = []\<rparr>\<rparr>)) (\<lambda>_.
     sbind (disk_step (fault = Some AtSchema) DbError (\<lambda>d. d\<lparr>gd_db := map_option (\<lambda>db. db\<lparr>db_version := DB_VERSION\<rparr>) (gd_db d)\<rparr>)) (\<lambda>_.
     sbind (create_rows lib fault eid created path cfg sm) (\<lambda>_.
     sbind (disk_step (fault = Some AtBlobs) DiskError (\<lambda>d. d\<lparr>gd_blobs := True\<rparr>)) (\<lambda>_.
       sret \<lparr>og_id = eid, og_config = cfg\<rparr>))))))"

text \<open>\<open>create\<close>: the directory is nothing when the path is free. \<open>rmtree\<close> ignores its own errors: \<open>removed\<close> says whether it worked.\<close>

definition create_engagement :: "yaml_lib \<Rightarrow> create_fault option \<Rightarrow> bool \<Rightarrow> pystr \<Rightarrow> int \<Rightarrow> pystr \<Rightarrow> config \<Rightarrow> version_stamp
    \<Rightarrow> (engagement_files option, eg_exc, opened) prog" where
  "create_engagement lib fault removed eid created path cfg sm root =
     (if root \<noteq> None then (Inl EngagementError, root)
      else if fault = Some AtMkdir then (Inl DiskError, None)
      else case fill_directory lib fault eid created path cfg sm no_files of
        (Inl e, d) \<Rightarrow> (Inl e, if removed then None else Some d)
      | (Inr eng, d) \<Rightarrow> (Inr eng, Some d))"

section \<open>Opening\<close>

text \<open>\<open>ORDER BY effective_from_us DESC, rowid DESC LIMIT 1\<close>; the list is in rowid order.\<close>

fun latest_scope :: "scope_version_row option \<Rightarrow> scope_version_row list \<Rightarrow> scope_version_row option" where
  "latest_scope best [] = best"
| "latest_scope best (x # xs) =
     latest_scope (case best of None \<Rightarrow> Some x | Some y \<Rightarrow> if sc_from_us y \<le> sc_from_us x then Some x else best) xs"

text \<open>\<open>read_text\<close> of \<open>config.yaml\<close>.\<close>

definition read_config :: "engagement_files \<Rightarrow> eg_exc + pystr" where
  "read_config d = (case gd_config d of None \<Rightarrow> Inl DiskError | Some text \<Rightarrow> Inr (universal_newlines text))"

definition load_config :: "yaml_lib \<Rightarrow> pystr \<Rightarrow> eg_exc + config" where
  "load_config lib text = (case load_text (yl_load lib) text of Inl e \<Rightarrow> Inl (BadConfig e) | Inr c \<Rightarrow> Inr c)"

text \<open>The guards \<open>open_\<close> and \<open>open_diverged\<close> share: the schema's version and the single engagement.\<close>

definition the_engagement :: "hx_db \<Rightarrow> eg_exc + pystr" where
  "the_engagement db =
     (if db_version db \<noteq> DB_VERSION then Inl EngagementError
      else case db_engagements db of [row] \<Rightarrow> Inr (eg_id row) | _ \<Rightarrow> Inl EngagementError)"

definition open_blobs :: "bool \<Rightarrow> (engagement_files, eg_exc, unit) prog" where
  "open_blobs ok d = (if ok then (Inr (), d\<lparr>gd_blobs := True\<rparr>) else (Inl DiskError, d))"

definition open_engagement :: "yaml_lib \<Rightarrow> bool \<Rightarrow> (engagement_files, eg_exc, opened) prog" where
  "open_engagement lib blobs_ok d =
     (case gd_db d of
        None \<Rightarrow> (Inl EngagementError, d)
      | Some db \<Rightarrow>
          (case rbind (the_engagement db) (\<lambda>eid.
                 rbind (read_config d) (\<lambda>text.
                 rbind (load_config lib text) (\<lambda>cfg.
                 rbind (read_config d) (\<lambda>on_disk.
                   case latest_scope None (db_scopes db) of
                     None \<Rightarrow> Inr \<lparr>og_id = eid, og_config = cfg\<rparr>
                   | Some row \<Rightarrow> if on_disk \<noteq> sc_yaml row then Inl EngagementError else Inr \<lparr>og_id = eid, og_config = cfg\<rparr>)))) of
             Inl e \<Rightarrow> (Inl e, d)
           | Inr eng \<Rightarrow> sbind (open_blobs blobs_ok) (\<lambda>_. sret eng) d))"

definition open_diverged :: "yaml_lib \<Rightarrow> bool \<Rightarrow> (engagement_files, eg_exc, opened \<times> pystr) prog" where
  "open_diverged lib blobs_ok d =
     (case gd_db d of
        None \<Rightarrow> (Inl EngagementError, d)
      | Some db \<Rightarrow>
          (case rbind (the_engagement db) (\<lambda>eid.
                 rbind (read_config d) (\<lambda>text.
                 rbind (load_config lib text) (\<lambda>cfg.
                   Inr (\<lparr>og_id = eid, og_config = cfg\<rparr>,
                     case latest_scope None (db_scopes db) of None \<Rightarrow> [] | Some row \<Rightarrow> sc_yaml row)))) of
             Inl e \<Rightarrow> (Inl e, d)
           | Inr found \<Rightarrow> sbind (open_blobs blobs_ok) (\<lambda>_. sret found) d))"

section \<open>The commands\<close>

text \<open>\<open>hx amend\<close>. What it prints is left out; the wrapper around \<open>open_diverged\<close> turns its exceptions into other words.\<close>

definition amend :: "yaml_lib \<Rightarrow> bool \<Rightarrow> config_write \<Rightarrow> version_stamp \<Rightarrow> (engagement_files, eg_exc, pystr) prog" where
  "amend lib blobs_ok outc sm =
     sbind (open_diverged lib blobs_ok) (\<lambda>(eng, recorded).
       if config_dumps (yl_dump lib) (og_config eng) = recorded then sraise ClickException
       else record_scope_version lib outc eng sm)"

text \<open>\<open>_NAME_RE.fullmatch\<close>: ASCII letters and digits, then also dot, underscore and hyphen, 64 characters in all.\<close>

definition name_start :: "nat \<Rightarrow> bool" where
  "name_start c \<longleftrightarrow> is_digit c \<or> (65 \<le> c \<and> c \<le> 90) \<or> (97 \<le> c \<and> c \<le> 122)"

definition name_ok :: "pystr \<Rightarrow> bool" where
  "name_ok name \<longleftrightarrow>
     (case name of [] \<Rightarrow> False | c # rest \<Rightarrow> name_start c \<and> length rest \<le> 63 \<and> (\<forall>d \<in> set rest. name_start d \<or> d \<in> {46, 95, 45}))
     \<and> name \<noteq> u ''.'' \<and> name \<noteq> u ''..''"

text \<open>\<open>hx new\<close>: the fields \<open>Config\<close> is given, the rest its defaults. The directory is \<open>base / name\<close>, and \<open>click\<close> has
  asked for a scope and one of the profiles.\<close>

definition new_config :: "pystr \<Rightarrow> pystr \<Rightarrow> pystr \<Rightarrow> pystr list \<Rightarrow> pystr list \<Rightarrow> config" where
  "new_config name client profile scope exclude =
     \<lparr>cf_name = name, cf_client = client, cf_safety_profile = profile, cf_scope_include = scope, cf_scope_exclude = exclude,
      cf_render_allow = [], cf_dangerous_paths = DEFAULT_DANGEROUS_PATHS, cf_checks = DEFAULT_CHECKS, cf_rate_limit_rps = 5,
      cf_rate_burst = None, cf_max_requests = 2000, cf_max_concurrency = 2, cf_identities = [], cf_scan_identity = None,
      cf_preserve_segments = map u [''api'', ''v1'', ''v2'', ''v3''], cf_slug_threshold = 12\<rparr>"

definition new_engagement :: "yaml_lib \<Rightarrow> create_fault option \<Rightarrow> bool \<Rightarrow> pystr \<Rightarrow> int \<Rightarrow> pystr \<Rightarrow> pystr \<Rightarrow> pystr \<Rightarrow> pystr \<Rightarrow> pystr list \<Rightarrow> pystr list
    \<Rightarrow> version_stamp \<Rightarrow> (engagement_files option, eg_exc, opened) prog" where
  "new_engagement lib fault removed eid created base name client profile scope exclude sm root =
     (if strip name = [] \<or> strip client = [] then (Inl ClickException, root)
      else if isl (check_entries scope) \<or> isl (check_entries exclude) then (Inl ClickException, root)
      else if \<not> name_ok name then (Inl ClickException, root)
      else create_engagement lib fault removed eid created (base @ u ''/'' @ name @ u ''/config.yaml'') (new_config name client profile scope exclude) sm root)"

end
