(* ===== verification/Engagement_Laws.thy ===== *)
theory Engagement_Laws
  imports Engagement Config_Laws
begin

text \<open>
  What opens is what was recorded, and what the commands do with a file that says otherwise.
\<close>

section \<open>Texts\<close>

lemma universal_newlines_id: "13 \<notin> set s \<Longrightarrow> universal_newlines s = s"
  by (induction s rule: universal_newlines.induct) auto

text \<open>What the code relies on of PyYAML: the document \<open>safe_dump\<close> writes is read as itself, and its line breaks are newlines.\<close>

definition faithful :: "yaml_lib \<Rightarrow> config \<Rightarrow> bool" where
  "faithful lib c \<longleftrightarrow> yl_load lib (yl_dump lib (config_yaml c)) = Inr (config_yaml c) \<and> 13 \<notin> set (yl_dump lib (config_yaml c))"

lemma load_dumped:
  assumes "faithful lib c" "config_ok c"
  shows "universal_newlines (config_dumps (yl_dump lib) c) = config_dumps (yl_dump lib) c"
    and "load_config lib (config_dumps (yl_dump lib) c) = Inr c"
proof -
  have "yl_load lib (yl_dump lib (config_yaml c)) = Inr (config_yaml c)" "13 \<notin> set (yl_dump lib (config_yaml c))"
    using assms by (auto simp: faithful_def)
  moreover have "load_value (config_yaml c) = Inr c" using load_value_written assms(2) by blast
  ultimately show "universal_newlines (config_dumps (yl_dump lib) c) = config_dumps (yl_dump lib) c"
    "load_config lib (config_dumps (yl_dump lib) c) = Inr c"
    by (simp_all add: config_dumps_def load_config_def load_text_def universal_newlines_id)
qed

section \<open>Directories\<close>

lemma mkdirs_own:
  assumes "sfor (\<lambda>p ds. if fails p then (Inl DiskError, ds) else (Inr (), ds(p \<mapsto> OWNER_ONLY))) ps dirs = (r, dirs')"
  shows "(p \<notin> set ps \<longrightarrow> dirs' p = dirs p) \<and> (p \<in> set ps \<longrightarrow> dirs' p \<in> {dirs p, Some OWNER_ONLY})
    \<and> (p \<in> set ps \<longrightarrow> r = Inr () \<longrightarrow> dirs' p = Some OWNER_ONLY)"
  using assms
proof (induction ps arbitrary: dirs)
  case (Cons q ps)
  show ?case
  proof (cases "fails q")
    case False
    then have "sfor (\<lambda>p ds. if fails p then (Inl DiskError, ds) else (Inr (), ds(p \<mapsto> OWNER_ONLY))) ps (dirs(q \<mapsto> OWNER_ONLY)) = (r, dirs')"
      using Cons.prems by (simp add: sbind_def)
    from Cons.IH [OF this] show ?thesis by (auto split: if_splits)
  qed (use Cons.prems in \<open>auto simp: sbind_def\<close>)
qed (simp add: sret_def)

text \<open>A directory that was there keeps its mode, whatever fails; one that is made is its owner's alone; and when nothing failed the path
  is there.\<close>

theorem secure_mkdir_own:
  assumes "secure_mkdir fails path dirs = (r, dirs')"
  shows "dirs p \<noteq> None \<Longrightarrow> dirs' p = dirs p"
    and "dirs p = None \<Longrightarrow> dirs' p \<in> {None, Some OWNER_ONLY}"
    and "r = Inr () \<Longrightarrow> dirs' path \<noteq> None"
proof -
  have m: "p \<in> set (missing_dirs dirs path) \<Longrightarrow> dirs p = None" for p by (auto simp: missing_dirs_def dest: set_takeWhileD)
  note own = mkdirs_own [OF assms [unfolded secure_mkdir_def]]
  show "dirs p \<noteq> None \<Longrightarrow> dirs' p = dirs p" "dirs p = None \<Longrightarrow> dirs' p \<in> {None, Some OWNER_ONLY}"
    using own [of p] m [of p] by auto
  have "dirs path = None \<Longrightarrow> path \<in> set (missing_dirs dirs path)" by (simp add: missing_dirs_def ancestors_def)
  then show "r = Inr () \<Longrightarrow> dirs' path \<noteq> None" using own [of path] m [of path] by fastforce
qed

section \<open>The latest version\<close>

lemma latest_scope_append: "latest_scope best (xs @ [x])
    = (case latest_scope best xs of None \<Rightarrow> Some x | Some y \<Rightarrow> if sc_from_us y \<le> sc_from_us x then Some x else Some y)"
  by (induction best xs rule: latest_scope.induct) (auto split: option.split)

section \<open>Opening\<close>

text \<open>What both ways of opening read.\<close>

definition opens_as :: "yaml_lib \<Rightarrow> engagement_files \<Rightarrow> hx_db \<Rightarrow> pystr \<Rightarrow> pystr \<Rightarrow> config \<Rightarrow> bool" where
  "opens_as lib d db eid text cfg \<longleftrightarrow>
     gd_db d = Some db \<and> the_engagement db = Inr eid \<and> read_config d = Inr text \<and> load_config lib text = Inr cfg"

lemma open_readable:
  assumes "opens_as lib d db eid text cfg"
  shows "fst (open_engagement lib True d) =
    (case latest_scope None (db_scopes db) of
       None \<Rightarrow> Inr \<lparr>og_id = eid, og_config = cfg\<rparr>
     | Some row \<Rightarrow> if text \<noteq> sc_yaml row then Inl EngagementError else Inr \<lparr>og_id = eid, og_config = cfg\<rparr>)"
  using assms by (simp add: opens_as_def open_engagement_def sbind_def open_blobs_def sret_def split: option.split)

lemma open_only_readable:
  assumes "open_engagement lib ok d = (Inr eng, d')"
  shows "\<exists>db text. opens_as lib d db (og_id eng) text (og_config eng)
    \<and> (\<forall>row. latest_scope None (db_scopes db) = Some row \<longrightarrow> text = sc_yaml row)"
  using assms
  by (auto simp: opens_as_def open_engagement_def sbind_def open_blobs_def sret_def rbind_Inr_iff
      split: option.splits sum.splits if_splits prod.splits)

lemma the_engagement_scopes [simp]: "the_engagement (db\<lparr>db_scopes := x\<rparr>) = the_engagement db"
  by (simp add: the_engagement_def)

lemma amend_readable:
  assumes "opens_as lib d db eid text cfg"
  shows "amend lib True outc sm d =
    (if config_dumps (yl_dump lib) cfg = (case latest_scope None (db_scopes db) of None \<Rightarrow> [] | Some row \<Rightarrow> sc_yaml row)
     then (Inl ClickException, d\<lparr>gd_blobs := True\<rparr>)
     else record_scope_version lib outc \<lparr>og_id = eid, og_config = cfg\<rparr> sm (d\<lparr>gd_blobs := True\<rparr>))"
  using assms by (simp add: opens_as_def amend_def open_diverged_def sbind_def open_blobs_def sret_def sraise_def)

section \<open>Recording\<close>

lemma write_config_cases:
  "write_config outc text d = (r, d') \<Longrightarrow>
     r = Inr () \<and> outc = Written \<and> d' = d\<lparr>gd_config := Some text, gd_tmp := None\<rparr>
   \<or> (r = Inl DiskError \<and> outc \<noteq> Written \<or> r = Inl Unwritable) \<and> (d' = d \<or> d' = d\<lparr>gd_tmp := None\<rparr>)"
  by (cases outc) (auto simp: write_config_def Let_def split: if_splits)

lemma record_scope_Inr:
  assumes "record_scope lib eid cfg sm db = (Inr sv, db')"
  shows "sv = sm_id sm \<and> (\<exists>row. db' = db\<lparr>db_scopes := db_scopes db @ [row]\<rparr> \<and> sc_yaml row = config_dumps (yl_dump lib) cfg
    \<and> sc_from_us row = sm_now_us sm)"
  using assms by (auto simp: record_scope_def Let_def split: if_splits)

text \<open>The version is in the table before the file is written.\<close>

lemma record_scope_version_cases:
  assumes "record_scope_version lib outc eng sm d = (r, d')" "gd_db d = Some db"
  shows "d' = d \<and> r \<in> {Inl Unwritable, Inl DbError}
    \<or> (\<exists>row. gd_db d' = Some (db\<lparr>db_scopes := db_scopes db @ [row]\<rparr>) \<and> sc_yaml row = config_dumps (yl_dump lib) (og_config eng)
        \<and> sc_from_us row = sm_now_us sm
        \<and> (r = Inr (sm_id sm) \<and> gd_config d' = Some (config_dumps (yl_dump lib) (og_config eng))
          \<or> isl r \<and> gd_config d' = gd_config d))"
proof -
  obtain x db' where s: "record_scope lib (og_id eng) (og_config eng) sm db = (x, db')" by (cases "record_scope lib (og_id eng) (og_config eng) sm db") auto
  show ?thesis
  proof (cases x)
    case (Inl e)
    then have "e \<in> {Unwritable, DbError}" using s by (auto simp: record_scope_def Let_def split: if_splits)
    then show ?thesis using assms s Inl by (auto simp: record_scope_version_def)
  next
    case (Inr sv)
    obtain y d2 where w: "write_config outc (config_dumps (yl_dump lib) (og_config eng)) (d\<lparr>gd_db := Some db'\<rparr>) = (y, d2)"
      by (cases "write_config outc (config_dumps (yl_dump lib) (og_config eng)) (d\<lparr>gd_db := Some db'\<rparr>)") auto
    have "d' = d2" "r = (case y of Inl e \<Rightarrow> Inl e | Inr _ \<Rightarrow> Inr sv)"
      using assms s w Inr by (auto simp: record_scope_version_def split: sum.splits)
    then show ?thesis using record_scope_Inr s Inr write_config_cases [OF w] by fastforce
  qed
qed

text \<open>C33. A version of the scope that was recorded is what opens next: the file, the latest row and the configuration handed back are
  the same. This holds exactly when the clock that stamps the new version is not behind the version_stamp of the version of record: the latest
  version is found by its time, so with a clock that was set back the recording succeeds and the engagement no longer opens.\<close>

theorem recorded_version_opens:
  assumes "faithful lib (og_config eng)" "config_ok (og_config eng)" "gd_db d = Some db" "the_engagement db = Inr (og_id eng)"
    and "record_scope_version lib outc eng sm d = (Inr sv, d')"
  shows "fst (open_engagement lib True d') =
    (if \<forall>row. latest_scope None (db_scopes db) = Some row \<longrightarrow>
         sc_from_us row \<le> sm_now_us sm \<or> sc_yaml row = config_dumps (yl_dump lib) (og_config eng)
     then Inr eng else Inl EngagementError)"
proof -
  obtain row where row: "gd_db d' = Some (db\<lparr>db_scopes := db_scopes db @ [row]\<rparr>)" "sc_yaml row = config_dumps (yl_dump lib) (og_config eng)"
      "sc_from_us row = sm_now_us sm" "gd_config d' = Some (config_dumps (yl_dump lib) (og_config eng))"
    using record_scope_version_cases [OF assms(5) assms(3)] by auto
  have r: "opens_as lib d' (db\<lparr>db_scopes := db_scopes db @ [row]\<rparr>) (og_id eng) (config_dumps (yl_dump lib) (og_config eng)) (og_config eng)"
    using row load_dumped [OF assms(1,2)] assms(4) by (simp add: opens_as_def read_config_def)
  show ?thesis unfolding open_readable [OF r] using row by (auto simp: latest_scope_append split: option.splits)
qed

text \<open>A library that knows one document, and an engagement whose version of record is stamped 100.\<close>

definition one_document :: yaml_lib where
  "one_document = \<lparr>yl_load = (\<lambda>_. Inr (config_yaml small_config)), yl_dump = (\<lambda>_. u ''c''), yl_sha = (\<lambda>t. t)\<rparr>"

definition a_scope :: "string \<Rightarrow> scope_version_row" where
  "a_scope txt1 =
     \<lparr>sc_id = u ''s0'', sc_engagement = u ''e'', sc_yaml = u txt1, sc_sha = [], sc_from_us = 100, sc_author = [], sc_reason = []\<rparr>"

definition some_files :: "string \<Rightarrow> string \<Rightarrow> engagement_files" where
  "some_files on_disk recorded = no_files\<lparr>gd_config := Some (u on_disk), gd_db := Some
     \<lparr>db_version = DB_VERSION, db_engagements =
        [\<lparr>eg_id = u ''e'', eg_name = [], eg_client = [], eg_created_us = 0, eg_status = [], eg_config_path = []\<rparr>],
      db_scopes = [a_scope recorded]\<rparr>\<rparr>"

definition a_stamp :: "int \<Rightarrow> version_stamp" where
  "a_stamp now = \<lparr>sm_id = u ''s1'', sm_now_us = now, sm_author = [], sm_reason = []\<rparr>"

lemma one_document_faithful: "faithful one_document small_config"
  by (simp add: faithful_def one_document_def literals)

lemma small_dumps: "config_dumps (yl_dump one_document) small_config = u ''c''"
  by (simp add: config_dumps_def one_document_def)

lemma small_names: "cf_name small_config = u ''n''" "cf_client small_config = u ''c''"
  by (simp_all add: small_config_def)

lemma record_some_files:
  "fst (record_scope_version one_document Written \<lparr>og_id = u ''e'', og_config = small_config\<rparr> (a_stamp 50) (some_files ''old'' ''old''))
    = Inr (u ''s1'')"
  by (simp add: record_scope_version_def record_scope_def small_dumps some_files_def a_stamp_def a_scope_def write_config_def Let_def
      utf8_char_def literals)

text \<open>The clock was set back from 100 to 50.\<close>

theorem recorded_version_opens_witness:
  "\<exists>d'. record_scope_version one_document Written \<lparr>og_id = u ''e'', og_config = small_config\<rparr> (a_stamp 50) (some_files ''old'' ''old'')
      = (Inr (u ''s1''), d') \<and> fst (open_engagement one_document True d') = Inl EngagementError"
proof -
  obtain d' where d: "record_scope_version one_document Written \<lparr>og_id = u ''e'', og_config = small_config\<rparr> (a_stamp 50) (some_files ''old'' ''old'')
      = (Inr (u ''s1''), d')"
    using record_some_files by (metis prod.collapse)
  have "gd_db (some_files ''old'' ''old'') = Some (the (gd_db (some_files ''old'' ''old'')))" by (simp add: some_files_def)
  from recorded_version_opens [OF _ _ this _ d] show ?thesis using d
    by (simp add: one_document_faithful small_config_ok small_dumps)
      (simp add: some_files_def a_stamp_def a_scope_def the_engagement_def literals)
qed

section \<open>Creating\<close>

text \<open>C34. Creating an engagement gives all of it or nothing. If it raises, the path is as it was: a directory that was there before is not
  touched, one that the call made is gone, so that a retry finds the path free. If it returns, what it returned is what opens.\<close>

theorem create_all_or_nothing:
  assumes "faithful lib cfg" "config_ok cfg" "create_engagement lib fault True eid created path cfg sm root = (r, root')"
  shows "case r of Inl _ \<Rightarrow> root' = root
    | Inr eng \<Rightarrow> root = None \<and> eng = \<lparr>og_id = eid, og_config = cfg\<rparr> \<and> (\<exists>d. root' = Some d \<and> fst (open_engagement lib True d) = Inr eng
        \<and> (\<exists>db. gd_db d = Some db \<and> map eg_id (db_engagements db) = [eid] \<and> map sc_yaml (db_scopes db) = [config_dumps (yl_dump lib) cfg]))"
proof (cases r)
  case (Inl e)
  then show ?thesis using assms(3) by (auto simp: create_engagement_def split: if_splits prod.splits sum.splits)
next
  case (Inr eng)
  obtain d where f: "fill_directory lib fault eid created path cfg sm no_files = (Inr eng, d)" "root = None" "root' = Some d"
    using assms(3) Inr by (auto simp: create_engagement_def split: if_splits prod.splits sum.splits)
  then obtain row where d: "eng = \<lparr>og_id = eid, og_config = cfg\<rparr>" "gd_config d = Some (config_dumps (yl_dump lib) cfg)"
      "gd_db d = Some \<lparr>db_version = DB_VERSION, db_engagements = [row], db_scopes =
        [\<lparr>sc_id = sm_id sm, sc_engagement = eid, sc_yaml = config_dumps (yl_dump lib) cfg, sc_sha = yl_sha lib (config_dumps (yl_dump lib) cfg),
          sc_from_us = sm_now_us sm, sc_author = sm_author sm, sc_reason = sm_reason sm\<rparr>]\<rparr>" "eg_id row = eid"
    by (auto simp: fill_directory_def sbind_def disk_step_def create_rows_def record_scope_def sret_def no_files_def Let_def
        split: if_splits prod.splits sum.splits dest!: write_config_cases)
  have "opens_as lib d \<lparr>db_version = DB_VERSION, db_engagements = [row], db_scopes =
        [\<lparr>sc_id = sm_id sm, sc_engagement = eid, sc_yaml = config_dumps (yl_dump lib) cfg, sc_sha = yl_sha lib (config_dumps (yl_dump lib) cfg),
          sc_from_us = sm_now_us sm, sc_author = sm_author sm, sc_reason = sm_reason sm\<rparr>]\<rparr> eid (config_dumps (yl_dump lib) cfg) cfg"
    using d load_dumped [OF assms(1,2)] by (simp add: opens_as_def read_config_def the_engagement_def)
  then show ?thesis using Inr f(2,3) d by (simp add: open_readable)
qed

theorem create_all_or_nothing_witness:
  "\<exists>d. create_engagement one_document None True (u ''e'') 1 [] small_config (a_stamp 50) None
      = (Inr \<lparr>og_id = u ''e'', og_config = small_config\<rparr>, Some d)
    \<and> fst (open_engagement one_document True d) = Inr \<lparr>og_id = u ''e'', og_config = small_config\<rparr>"
proof -
  obtain r root' where c: "create_engagement one_document None True (u ''e'') 1 [] small_config (a_stamp 50) None = (r, root')"
    by (cases "create_engagement one_document None True (u ''e'') 1 [] small_config (a_stamp 50) None") auto
  have "\<not> isl r"
    using c by (auto simp: create_engagement_def fill_directory_def sbind_def disk_step_def create_rows_def record_scope_def sret_def no_files_def
        small_dumps small_names a_stamp_def write_config_def Let_def utf8_char_def literals)
  then show ?thesis using create_all_or_nothing [OF one_document_faithful small_config_ok c] c by (cases r) auto
qed

text \<open>What \<open>hx new\<close> accepts is one component of a path, and a configuration that opens.\<close>

lemma name_stays_inside: "name_ok name \<Longrightarrow> name \<noteq> [] \<and> 47 \<notin> set name \<and> name \<noteq> u ''.'' \<and> name \<noteq> u ''..''"
  by (auto simp: name_ok_def name_start_def is_digit_def split: list.splits)

lemma new_config_ok:
  assumes "new_engagement lib fault rm eid created base name client profile scope exclude sm root = (Inr eng, root')"
    and "scope \<noteq> []" "profile \<in> set VALID_PROFILES"
  shows "config_ok (new_config name client profile scope exclude)"
  using assms
  by (auto simp: new_engagement_def new_config_def config_ok_def no_blank_def check_entries_def strip_Nil_iff defaults_ok
      DEFAULT_DANGEROUS_PATHS_def literals is_space_def split: if_splits)

section \<open>Amending\<close>



text \<open>An amendment whose row was written and whose file was not.\<close>

theorem interrupted_amend_locks:
  assumes "opens_as lib d db eid text cfg" "text \<noteq> config_dumps (yl_dump lib) cfg"
    and "\<forall>row. latest_scope None (db_scopes db) = Some row \<longrightarrow> sc_from_us row \<le> sm_now_us sm"
    and "amend lib True outc sm d = (Inl DiskError, d')"
  shows "fst (open_engagement lib True d') = Inl EngagementError \<and> fst (amend lib True outc' sm' d') = Inl ClickException"
proof -
  let ?d = "d\<lparr>gd_blobs := True\<rparr>" and ?eng = "\<lparr>og_id = eid, og_config = cfg\<rparr>"
  have rec: "record_scope_version lib outc ?eng sm ?d = (Inl DiskError, d')"
    using assms(4) unfolding amend_readable [OF assms(1)] by (auto split: if_splits)
  have db: "gd_db ?d = Some db" using assms(1) by (simp add: opens_as_def)
  obtain row where row: "gd_db d' = Some (db\<lparr>db_scopes := db_scopes db @ [row]\<rparr>)" "sc_yaml row = config_dumps (yl_dump lib) cfg"
      "sc_from_us row = sm_now_us sm" "gd_config d' = gd_config d"
    using record_scope_version_cases [OF rec db] by auto
  have r: "opens_as lib d' (db\<lparr>db_scopes := db_scopes db @ [row]\<rparr>) eid text cfg"
    using assms(1) row by (simp add: opens_as_def read_config_def)
  have "latest_scope None (db_scopes (db\<lparr>db_scopes := db_scopes db @ [row]\<rparr>)) = Some row"
    using assms(3) row(3) by (auto simp: latest_scope_append split: option.splits)
  then show ?thesis using row(2) assms(2) by (simp add: open_readable [OF r] amend_readable [OF r])
qed

end
