(* ===== verification/Mcp.thy ===== *)
theory Mcp
  imports Tools
begin

text \<open>
  The two adapters that reach \<open>dispatch\<close> from outside: \<open>hx mcp\<close>, the tools over standard input and output as JSON-RPC
  (\<open>src/hx/tools/adapters/mcp.py\<close>), and \<open>hx tool\<close>, one call from a shell (\<open>adapters/cli.py\<close>). Standard input is the lines a
  text stream gives; writing to standard output does not fail. The texts of exceptions and \<open>repr\<close> are arguments, and so is whether a
  line nests deeper than the interpreter's recursion limit.
\<close>

section \<open>Writing JSON\<close>

text \<open>\<open>json.dumps\<close> as it is called here: ASCII only, with a space after a comma and a colon.\<close>

definition hex4_text :: "nat \<Rightarrow> pystr" where
  "hex4_text c = [92, 117, hex_digit (c div 4096 mod 16), hex_digit (c div 256 mod 16), hex_digit (c div 16 mod 16), hex_digit (c mod 16)]"

definition esc_ascii :: "nat \<Rightarrow> pystr" where
  "esc_ascii c =
     (if c < 127 then esc1 c
      else if c < 0x10000 then hex4_text c
      else hex4_text (0xD800 + (c - 0x10000) div 1024) @ hex4_text (0xDC00 + (c - 0x10000) mod 1024))"

definition ascii_str :: "pystr \<Rightarrow> pystr" where
  "ascii_str s = 34 # concat (map esc_ascii s) @ [34]"

fun ascii_dumps :: "json \<Rightarrow> pystr" where
  "ascii_dumps JNull = u ''null''"
| "ascii_dumps (JBool x) = (if x then u ''true'' else u ''false'')"
| "ascii_dumps (JInt i) = dump_int i"
| "ascii_dumps (JFloat t) = t"
| "ascii_dumps (JStr s) = ascii_str s"
| "ascii_dumps (JArr xs) = 91 # join [44, 32] (map ascii_dumps xs) @ [93]"
| "ascii_dumps (JObj kvs) = 123 # join [44, 32] (map (\<lambda>(k, v). ascii_str k @ [58, 32] @ ascii_dumps v) kvs) @ [125]"

definition as_dict :: "envelope \<Rightarrow> json" where
  "as_dict e =
     (let text = (\<lambda>x. case x of None \<Rightarrow> JNull | Some t \<Rightarrow> JStr t) in
      JObj [(u ''tool'', JStr (en_tool e)), (u ''outcome'', JStr (outcome_text (en_outcome e))), (u ''reason'', text (en_reason e)),
            (u ''detail'', text (en_detail e)), (u ''result'', en_result e)])"

section \<open>Messages\<close>

record 'w mcp_env =
  mc_tools :: "(pystr \<times> 'w tool) list"
  mc_summary :: "pystr \<Rightarrow> pystr"
  mc_repr :: "json \<Rightarrow> pystr"
  mc_explain :: "problem list \<Rightarrow> pystr"
  mc_parse_text :: "pystr \<Rightarrow> pystr"
  mc_exc_text :: "store_exc \<Rightarrow> pystr"
  mc_too_deep :: "pystr \<Rightarrow> bool"

definition MCP_VERSION :: pystr where
  "MCP_VERSION = u ''2025-06-18''"

definition SERVER_INFO :: json where
  "SERVER_INFO = JObj [(u ''name'', JStr (u ''hx'')), (u ''version'', JStr (u ''0.1.0''))]"

definition PARSE_ERROR :: int where "PARSE_ERROR = -32700"
definition INVALID_REQUEST :: int where "INVALID_REQUEST = -32600"
definition METHOD_NOT_FOUND :: int where "METHOD_NOT_FOUND = -32601"
definition INTERNAL_ERROR :: int where "INTERNAL_ERROR = -32603"

definition WHY_DESCRIPTION :: pystr where
  "WHY_DESCRIPTION = u ''Why you are doing this, in a sentence. It is reply_lines to agent_action and read by whoever asks what this run did.''"

text \<open>\<open>set(...)\<close> of a value, where its members are strings.\<close>

definition names_of :: "json \<Rightarrow> pystr list option" where
  "names_of v =
     (case v of
        JArr xs \<Rightarrow> those (map (\<lambda>x. case x of JStr s \<Rightarrow> Some s | _ \<Rightarrow> None) xs)
      | JStr s \<Rightarrow> Some (map (\<lambda>c. [c]) s)
      | JObj kvs \<Rightarrow> Some (map fst kvs)
      | _ \<Rightarrow> None)"

definition why_schema :: json where
  "why_schema =
     JObj [(u ''type'', JStr (u ''string'')), (u ''minLength'', JInt 1), (u ''maxLength'', JInt 500), (u ''description'', JStr WHY_DESCRIPTION)]"

text \<open>The parameters as they are published: with a \<open>why\<close> for a tool that needs one.\<close>

definition published :: "'w tool \<Rightarrow> store_exc + json" where
  "published tool =
     (if \<not> ts_mutates tool then Inr (ts_params tool)
      else case ts_params tool of
        JObj kvs \<Rightarrow>
          (case (case map_of kvs (u ''properties'') of None \<Rightarrow> JObj [] | Some v \<Rightarrow> v) of
             JObj ps \<Rightarrow>
               (let kvs1 = dict_set (u ''properties'') (JObj (dict_set (u ''why'') why_schema ps)) kvs in
                case names_of (case map_of kvs1 (u ''required'') of None \<Rightarrow> JArr [] | Some v \<Rightarrow> v) of
                  None \<Rightarrow> Inl TypeError
                | Some names \<Rightarrow> Inr (JObj (dict_set (u ''required'') (JArr (map JStr (sort (remdups (u ''why'' # names))))) kvs1)))
           | _ \<Rightarrow> Inl TypeError)
      | _ \<Rightarrow> Inl TypeError)"

definition tool_schema :: "'w mcp_env \<Rightarrow> 'w tool \<Rightarrow> store_exc + json" where
  "tool_schema env tool =
     rbind (published tool) (\<lambda>params.
       Inr (JObj [(u ''name'', JStr (ts_name tool)), (u ''description'', JStr (mc_summary env (ts_name tool))), (u ''inputSchema'', params)]))"

definition ok_reply :: "json \<Rightarrow> json \<Rightarrow> json" where
  "ok_reply i result = JObj [(u ''jsonrpc'', JStr (u ''2.0'')), (u ''id'', i), (u ''result'', result)]"

definition err_reply :: "json \<Rightarrow> int \<Rightarrow> pystr \<Rightarrow> json" where
  "err_reply i code message =
     JObj [(u ''jsonrpc'', JStr (u ''2.0'')), (u ''id'', i), (u ''error'', JObj [(u ''code'', JInt code), (u ''message'', JStr message)])]"

text \<open>The name, the arguments and the \<open>why\<close> of a \<open>tools/call\<close>, as \<open>dispatch\<close> is given them.\<close>

definition call_args :: "(pystr \<times> json) list \<Rightarrow> json \<times> json \<times> json" where
  "call_args msg =
     (let params = (case get msg ''params'' of JObj kvs \<Rightarrow> kvs | _ \<Rightarrow> []) in
      case get params ''arguments'' of
        JObj kvs \<Rightarrow> (get params ''name'', JObj (filter (\<lambda>(k, _). k \<noteq> u ''why'') kvs), get kvs ''why'')
      | args \<Rightarrow> (get params ''name'', args, JNull))"

definition call_result :: "envelope \<Rightarrow> json" where
  "call_result e =
     JObj [(u ''content'', JArr [JObj [(u ''type'', JStr (u ''text'')), (u ''text'', JStr (ascii_dumps (sort_keys (as_dict e))))]]),
           (u ''isError'', JBool (\<not> ran (en_outcome e)))]"

definition mcp_handle :: "'w mcp_env \<Rightarrow> journal_env \<Rightarrow> json \<Rightarrow> ('w tool_ctx, store_exc, json option) prog" where
  "mcp_handle env je msg ctx =
     (case msg of
        JObj kvs \<Rightarrow>
          (let i = get kvs ''id''; meth = get kvs ''method'' in
           if get kvs ''jsonrpc'' \<noteq> JStr (u ''2.0'') then (Inr (Some (err_reply JNull INVALID_REQUEST (u ''not a JSON-RPC 2.0 message''))), ctx)
           else if i = JNull then (Inr None, ctx)
           else if meth = JStr (u ''initialize'') then
             (Inr (Some (ok_reply i (JObj [(u ''protocolVersion'', JStr MCP_VERSION), (u ''capabilities'', JObj [(u ''tools'', JObj [])]),
                (u ''serverInfo'', SERVER_INFO)]))), ctx)
           else if meth = JStr (u ''tools/list'') then
             (rbind (rmap (\<lambda>n. tool_schema env (the (map_of (mc_tools env) n))) (sort (map fst (mc_tools env)))) (\<lambda>listed.
                Inr (Some (ok_reply i (JObj [(u ''tools'', JArr listed)])))), ctx)
           else if meth = JStr (u ''tools/call'') then
             (case call_args kvs of (name, args, why) \<Rightarrow>
                case dispatch (mc_repr env) (mc_explain env) je (mc_tools env) name args why ctx of
                  (Inl e, ctx') \<Rightarrow> (Inl e, ctx')
                | (Inr e, ctx') \<Rightarrow> (Inr (Some (ok_reply i (call_result e))), ctx'))
           else (Inr (Some (err_reply i METHOD_NOT_FOUND (u ''unknown method '' @ mc_repr env meth))), ctx))
      | _ \<Rightarrow> (Inr (Some (err_reply JNull INVALID_REQUEST (u ''not a JSON-RPC 2.0 message''))), ctx))"

section \<open>The loop\<close>

text \<open>What iterating over standard input gives: a line, or the exception of decoding it. \<open>RecursionError\<close> is no \<open>ValueError\<close>, and the
  line is read outside the \<open>try\<close>: both leave the loop.\<close>

datatype stdin_item = Line pystr | Undecodable

datatype mcp_exc = RecursionError | UnicodeDecodeError

definition reply_to :: "'w mcp_env \<Rightarrow> journal_env \<Rightarrow> pystr \<Rightarrow> 'w tool_ctx \<Rightarrow> json option \<times> 'w tool_ctx" where
  "reply_to env je line ctx =
     (if line = [] then (None, ctx)
      else case loads line of
        Inl _ \<Rightarrow> (Some (err_reply JNull PARSE_ERROR (u ''could not parse: '' @ mc_parse_text env line)), ctx)
      | Inr msg \<Rightarrow>
          (case mcp_handle env je msg ctx of
             (Inl e, ctx') \<Rightarrow>
               (Some (err_reply (case msg of JObj kvs \<Rightarrow> get kvs ''id'' | _ \<Rightarrow> JNull) INTERNAL_ERROR (mc_exc_text env e)), ctx')
           | (Inr reply, ctx') \<Rightarrow> (reply, ctx')))"

definition reply_lines :: "json option \<Rightarrow> pystr list" where
  "reply_lines reply = (case reply of None \<Rightarrow> [] | Some r \<Rightarrow> [ascii_dumps r @ [10]])"

fun serve_streams :: "'w mcp_env \<Rightarrow> (stdin_item \<times> journal_env) list \<Rightarrow> 'w tool_ctx \<Rightarrow> mcp_exc option \<times> pystr list \<times> 'w tool_ctx" where
  "serve_streams env [] ctx = (None, [], ctx)"
| "serve_streams env ((item, je) # rest) ctx =
     (case item of
        Undecodable \<Rightarrow> (Some UnicodeDecodeError, [], ctx)
      | Line raw \<Rightarrow>
          if mc_too_deep env (strip raw) then (Some RecursionError, [], ctx)
          else
            (case reply_to env je (strip raw) ctx of (reply, ctx1) \<Rightarrow>
               case serve_streams env rest ctx1 of (e, out, ctx2) \<Rightarrow> (e, reply_lines reply @ out, ctx2)))"

section \<open>One call from a shell\<close>

text \<open>\<open>run_tool\<close>, up to the indentation of what it prints: the envelope and the exit status. Nothing is printed when the arguments are
  not an object; an integer of too many digits is a \<open>ValueError\<close> that is no \<open>JSONDecodeError\<close>, here the same.\<close>

definition run_tool :: "'w mcp_env \<Rightarrow> journal_env \<Rightarrow> pystr \<Rightarrow> pystr option \<Rightarrow> pystr option \<Rightarrow> ('w tool_ctx, store_exc option, json \<times> int) prog" where
  "run_tool env je name args_json why ctx =
     (case (case args_json of None \<Rightarrow> Inr (JObj []) | Some t \<Rightarrow> if t = [] then Inr (JObj []) else loads t) of
        Inr (JObj kvs) \<Rightarrow>
          (case dispatch (mc_repr env) (mc_explain env) je (mc_tools env) (JStr name) (JObj kvs) (case why of None \<Rightarrow> JNull | Some w \<Rightarrow> JStr w) ctx of
             (Inl e, ctx') \<Rightarrow> (Inl (Some e), ctx')
           | (Inr e, ctx') \<Rightarrow> (Inr (sort_keys (as_dict e), if ran (en_outcome e) then 0 else 1), ctx'))
      | _ \<Rightarrow> (Inl None, ctx))"

definition pad20 :: "pystr \<Rightarrow> pystr" where
  "pad20 s = s @ replicate (20 - length s) 32"

definition render_listing :: "'w mcp_env \<Rightarrow> pystr" where
  "render_listing env =
     join [10] (map (\<lambda>n. case map_of (mc_tools env) n of
          None \<Rightarrow> []
        | Some tool \<Rightarrow> [if ts_mutates tool then 33 else 32, if ts_needs_egress tool then 42 else 32, 32] @ pad20 n @ [32] @ mc_summary env n)
        (sort (map fst (mc_tools env)))
      @ [[], u ''! changes state and needs --why    * needs a live session''])"

end
