(* ===== verification/Mcp_Laws.thy ===== *)
theory Mcp_Laws
  imports Mcp
begin

text \<open>
  A conversation over \<open>hx mcp\<close>: what comes back for each line, what a line can change, and which lines end it.
\<close>

section \<open>One line of ASCII\<close>

definition printable :: "pystr \<Rightarrow> bool" where
  "printable t \<longleftrightarrow> (\<forall>c \<in> set t. 32 \<le> c \<and> c < 127)"

lemma printable_simps [simp]:
  "printable []" "printable (c # t) \<longleftrightarrow> 32 \<le> c \<and> c < 127 \<and> printable t" "printable (s @ t) \<longleftrightarrow> printable s \<and> printable t"
  by (auto simp: printable_def)

text \<open>The floats of a value are written as a float is.\<close>

fun plain_json :: "json \<Rightarrow> bool" where
  "plain_json (JFloat t) = printable t"
| "plain_json (JArr xs) = (\<forall>x \<in> set xs. plain_json x)"
| "plain_json (JObj kvs) = (\<forall>p \<in> set kvs. plain_json (snd p))"
| "plain_json v = True"

lemma printable_join: "printable sep \<Longrightarrow> \<forall>x \<in> set xs. printable x \<Longrightarrow> printable (join sep xs)"
  by (auto simp: printable_def dest: join_chars)

lemma hex_digit_printable: "n < 16 \<Longrightarrow> 32 \<le> hex_digit n \<and> hex_digit n < 127"
  by (auto simp: hex_digit_def)

lemma printable_hex4: "printable (hex4_text c)"
  by (simp add: hex4_text_def hex_digit_printable)

lemma printable_esc: "printable (esc_ascii c)"
  by (auto simp: esc_ascii_def esc1_def printable_hex4 hex_digit_printable)

lemma printable_concat: "\<forall>x \<in> set xs. printable x \<Longrightarrow> printable (concat xs)"
  by (induction xs) auto

lemma printable_str: "printable (ascii_str s)"
  by (simp add: ascii_str_def printable_concat printable_esc)

lemma printable_int: "printable (dump_int i)"
proof -
  have "printable (dec_nat n)" for n using is_digit_dec_nat by (fastforce simp: printable_def is_digit_def)
  then show ?thesis by (simp add: dump_int_def)
qed

lemma printable_dumps: "plain_json v \<Longrightarrow> printable (ascii_dumps v)"
proof (induction v)
  case (JArr xs)
  then show ?case by (auto intro!: printable_join)
next
  case (JObj kvs)
  then show ?case by (fastforce intro!: printable_join simp: printable_str snds.simps)
qed (simp_all add: printable_int printable_str literals)

section \<open>What is read\<close>

lemma printable_digits: "\<forall>c \<in> set t. is_digit c \<Longrightarrow> printable t"
  by (auto simp: printable_def is_digit_def)

lemma plain_number: "scan_number s = Some (v, r) \<Longrightarrow> plain_json v"
proof -
  have ds: "printable (takeWhile is_digit t)" for t by (rule printable_digits) (auto dest: set_takeWhileD)
  have "printable (num_sign t)" "printable (int_digits t)" "printable (fst (scan_frac t))" "printable (fst (scan_exp t))" for t
    by (auto simp: num_sign_def int_digits_def scan_frac_def scan_exp_def ds Let_def split: list.split)
  then show "scan_number s = Some (v, r) \<Longrightarrow> plain_json v" by (auto simp: scan_number_def Let_def split: if_splits)
qed

lemma plain_word: "scan_word s = Some (v, r) \<Longrightarrow> plain_json v"
  by (auto simp: scan_word_def literals split: if_splits)

lemma plain_dict_set: "plain_json v \<Longrightarrow> plain_json (JObj kvs) \<Longrightarrow> plain_json (JObj (dict_set k v kvs))"
  by (induction k v kvs rule: dict_set.induct) auto

lemma plain_parse:
  "parse_value n s = Inr (v, r) \<Longrightarrow> plain_json v"
  "parse_members n s acc = Inr (v, r) \<Longrightarrow> plain_json (JObj acc) \<Longrightarrow> plain_json v"
  "parse_elems n s acc' = Inr (v, r) \<Longrightarrow> plain_json (JArr acc') \<Longrightarrow> plain_json v"
proof (induction n arbitrary: s v r acc acc')
  case (Suc n)
  { case 1 then show ?case using Suc.IH(2) [of _ "[]"] Suc.IH(3) [of _ "[]"]
      by (auto split: if_splits option.splits dest: plain_number plain_word) }
  { case 2
    then obtain k q w q' e t where "member_key s = Some (k, q)" "parse_value n q = Inr (w, q')" "next_tok q' = Some (e, t)"
      "v = JObj (dict_set k w acc) \<or> parse_members n (skip_ws t) (dict_set k w acc) = Inr (v, r)"
      by (auto split: rbind_split_asm option.split_asm if_split_asm)
    then show ?case using Suc.IH(1,2) plain_dict_set [of w acc k] 2 by blast }
  { case 3
    then obtain q w e t where "parse_value n s = Inr (w, q)" "next_tok q = Some (e, t)"
      "v = JArr (acc' @ [w]) \<or> parse_elems n (skip_ws t) (acc' @ [w]) = Inr (v, r)"
      by (auto split: rbind_split_asm option.split_asm if_split_asm)
    then show ?case using Suc.IH(1,3) 3 by fastforce }
qed auto

lemma plain_loads: "loads s = Inr v \<Longrightarrow> plain_json v"
  by (auto simp: loads_def rbind_Inr_iff simp del: parse_value.simps split: if_splits dest: plain_parse(1))

lemma plain_json_get: "plain_json (JObj kvs) \<Longrightarrow> plain_json (get kvs k)"
  by (auto simp: get_def split: option.split dest!: map_of_SomeD)

section \<open>Replies\<close>

definition tools_plain :: "'w mcp_env \<Rightarrow> bool" where
  "tools_plain env \<longleftrightarrow> (\<forall>(n, t) \<in> set (mc_tools env). plain_json (ts_params t))"

lemma plain_member: "plain_json (JObj kvs) \<Longrightarrow> map_of kvs k = Some v \<Longrightarrow> plain_json v"
  by (auto dest!: map_of_SomeD)

lemma plain_published:
  assumes "plain_json (ts_params tool)" "published tool = Inr params"
  shows "plain_json params"
proof (cases "ts_mutates tool")
  case True
  then obtain kvs props ps names where p: "ts_params tool = JObj kvs"
      "props = (case map_of kvs (u ''properties'') of None \<Rightarrow> JObj [] | Some w \<Rightarrow> w)" "props = JObj ps"
      "params = JObj (dict_set (u ''required'') (JArr (map JStr names)) (dict_set (u ''properties'') (JObj (dict_set (u ''why'') why_schema ps)) kvs))"
    using assms(2) by (auto simp: published_def Let_def simp del: map_of_eq_None_iff split: json.splits option.splits)
  have kvs: "plain_json (JObj kvs)" using assms(1) p(1) by metis
  have "plain_json why_schema" by (simp add: why_schema_def)
  moreover have "plain_json props" using p(2) plain_member [OF kvs] by (auto split: option.splits)
  ultimately have "plain_json (JObj (dict_set (u ''why'') why_schema ps))" unfolding p(3) by (rule plain_dict_set)
  then have "plain_json (JObj (dict_set (u ''properties'') (JObj (dict_set (u ''why'') why_schema ps)) kvs))" using kvs by (rule plain_dict_set)
  then show ?thesis unfolding p(4) by (rule plain_dict_set [rotated]) auto
qed (use assms in \<open>simp add: published_def\<close>)

lemma plain_schema: "plain_json (ts_params tool) \<Longrightarrow> tool_schema env tool = Inr v \<Longrightarrow> plain_json v"
  by (auto simp: tool_schema_def rbind_Inr_iff dest: plain_published)

lemma plain_listed:
  assumes "tools_plain env" "rmap (\<lambda>n. tool_schema env (the (map_of (mc_tools env) n))) (sort (map fst (mc_tools env))) = Inr listed"
  shows "\<forall>v \<in> set listed. plain_json v"
proof
  fix v
  assume "v \<in> set listed"
  then obtain n where n: "n \<in> fst ` set (mc_tools env)" "tool_schema env (the (map_of (mc_tools env) n)) = Inr v"
    using rmap_Inr_all [OF assms(2)] by fastforce
  then obtain t where "map_of (mc_tools env) n = Some t" by (metis map_of_eq_None_iff not_None_eq)
  moreover from this have "plain_json (ts_params t)" using assms(1) by (auto simp: tools_plain_def dest!: map_of_SomeD)
  ultimately show "plain_json v" using n(2) plain_schema by fastforce
qed

text \<open>A call: a message with an id whose method is \<open>tools/call\<close>. Nothing else is given to \<open>dispatch\<close>.\<close>

definition call_in :: "pystr \<Rightarrow> (json \<times> json \<times> json) option" where
  "call_in line =
     (case loads line of
        Inr (JObj kvs) \<Rightarrow>
          (if line \<noteq> [] \<and> get kvs ''jsonrpc'' = JStr (u ''2.0'') \<and> get kvs ''id'' \<noteq> JNull \<and> get kvs ''method'' = JStr (u ''tools/call'')
           then Some (call_args kvs) else None)
      | _ \<Rightarrow> None)"

definition act :: "'w mcp_env \<Rightarrow> journal_env \<Rightarrow> pystr \<Rightarrow> 'w tool_ctx \<Rightarrow> 'w tool_ctx" where
  "act env je line ctx =
     (case call_in line of
        None \<Rightarrow> ctx
      | Some (name, args, why) \<Rightarrow> snd (dispatch (mc_repr env) (mc_explain env) je (mc_tools env) name args why ctx))"

text \<open>A line that is owed a reply: it is not blank, and not a notification.\<close>

definition owed :: "pystr \<Rightarrow> bool" where
  "owed line \<longleftrightarrow> line \<noteq> [] \<and>
     (case loads line of Inr (JObj kvs) \<Rightarrow> get kvs ''jsonrpc'' \<noteq> JStr (u ''2.0'') \<or> get kvs ''id'' \<noteq> JNull | _ \<Rightarrow> True)"

lemma literal_methods: "u ''tools/call'' \<noteq> u ''initialize''" "u ''tools/call'' \<noteq> u ''tools/list''"
  by (simp_all add: literals)

lemma reply_owed: "fst (reply_to env je line ctx) = None \<longleftrightarrow> \<not> owed line"
  by (auto simp: reply_to_def owed_def mcp_handle_def Let_def literal_methods rbind_Inr_iff split: sum.splits json.splits prod.splits)

lemma handle_state:
  "snd (mcp_handle env je msg ctx) =
     (case msg of
        JObj kvs \<Rightarrow>
          if get kvs ''jsonrpc'' = JStr (u ''2.0'') \<and> get kvs ''id'' \<noteq> JNull \<and> get kvs ''method'' = JStr (u ''tools/call'')
          then (case call_args kvs of (name, args, why) \<Rightarrow> snd (dispatch (mc_repr env) (mc_explain env) je (mc_tools env) name args why ctx))
          else ctx
      | _ \<Rightarrow> ctx)"
proof (cases msg)
  case (JObj kvs)
  obtain name args why where c: "call_args kvs = (name, args, why)" by (cases "call_args kvs")
  show ?thesis using literal_methods
    by (auto simp: JObj c mcp_handle_def Let_def split: sum.split prod.split)
qed (simp_all add: mcp_handle_def)

lemma reply_acts: "snd (reply_to env je line ctx) = act env je line ctx"
proof (cases "line = [] \<or> isl (loads line)")
  case True
  then show ?thesis by (auto simp: reply_to_def act_def call_in_def split: sum.splits json.splits)
next
  case False
  then obtain msg where m: "line \<noteq> []" "loads line = Inr msg" by (cases "loads line") auto
  have "snd (reply_to env je line ctx) = snd (mcp_handle env je msg ctx)"
    using m by (auto simp: reply_to_def split: sum.split prod.split)
  then show ?thesis using m by (auto simp: act_def call_in_def handle_state split: json.split)
qed

lemma reply_plain:
  assumes "tools_plain env" "reply_to env je line ctx = (Some r, ctx')"
  shows "plain_json r"
proof -
  have i: "plain_json (get kvs ''id'')" if "loads line = Inr (JObj kvs)" for kvs by (rule plain_json_get [OF plain_loads [OF that]])
  show ?thesis
    using assms(2) i plain_listed [OF assms(1)]
    by (auto simp: reply_to_def mcp_handle_def Let_def rbind_Inr_iff err_reply_def ok_reply_def call_result_def SERVER_INFO_def
        split: sum.splits json.splits prod.splits if_splits)
qed

section \<open>The conversation\<close>

definition survived :: "'w mcp_env \<Rightarrow> stdin_item \<Rightarrow> bool" where
  "survived env item = (case item of Line raw \<Rightarrow> \<not> mc_too_deep env (strip raw) | Undecodable \<Rightarrow> False)"

definition line_of :: "stdin_item \<Rightarrow> pystr" where
  "line_of item = (case item of Line raw \<Rightarrow> strip raw | Undecodable \<Rightarrow> [])"

text \<open>C18. Every line is answered once, in a line of printable ASCII, unless it is blank or a notification; a line that is no JSON, no
  request or an unknown method is answered too. The calls among the lines, and nothing else, reach \<open>dispatch\<close>, each once and in order.
  All this ends at the first line that is not UTF-8 or nests too deep, which ends the conversation: what follows it is never read.\<close>

theorem lines_answered:
  assumes "tools_plain env"
  shows "case serve_streams env inputs ctx of (e, out, ctx') \<Rightarrow>
      (e = None \<longleftrightarrow> (\<forall>x \<in> set inputs. survived env (fst x)))
    \<and> length out = length (filter (\<lambda>x. owed (line_of (fst x))) (takeWhile (\<lambda>x. survived env (fst x)) inputs))
    \<and> (\<forall>line \<in> set out. \<exists>t. line = t @ [10] \<and> (\<forall>c \<in> set t. 32 \<le> c \<and> c < 127))
    \<and> ctx' = fold (\<lambda>(item, je). act env je (line_of item)) (takeWhile (\<lambda>x. survived env (fst x)) inputs) ctx"
proof (induction inputs arbitrary: ctx)
  case (Cons x rest)
  obtain item je where x: "x = (item, je)" by (cases x)
  show ?case
  proof (cases "survived env item")
    case True
    then obtain raw where raw: "item = Line raw" "\<not> mc_too_deep env (strip raw)" by (auto simp: survived_def split: stdin_item.splits)
    obtain reply ctx1 where r: "reply_to env je (strip raw) ctx = (reply, ctx1)" by (cases "reply_to env je (strip raw) ctx")
    obtain e out ctx2 where s: "serve_streams env rest ctx1 = (e, out, ctx2)" by (cases "serve_streams env rest ctx1") auto
    have owed: "reply = None \<longleftrightarrow> \<not> owed (line_of item)" "ctx1 = act env je (line_of item) ctx"
      using reply_owed [of env je "strip raw" ctx] reply_acts [of env je "strip raw" ctx] r by (simp_all add: raw(1) line_of_def)
    have ctx1: "act env je (line_of (Line raw)) ctx = ctx1" using owed(2) raw(1) by simp
    have "\<forall>line \<in> set (reply_lines reply). \<exists>t. line = t @ [10] \<and> (\<forall>c \<in> set t. 32 \<le> c \<and> c < 127)"
      using reply_plain [OF assms] r printable_dumps by (fastforce simp: reply_lines_def printable_def split: option.split)
    moreover have "length (reply_lines reply) = (if owed (line_of item) then 1 else 0)" using owed(1) by (auto simp: reply_lines_def split: option.split)
    ultimately show ?thesis using Cons [of ctx1] True raw r s by (simp add: x ctx1 ball_Un)
  next
    case False
    then show ?thesis by (auto simp: x survived_def split: stdin_item.splits)
  qed
qed simp

text \<open>A line that nests too deep, between two that do not: the third is never read.\<close>

definition deaf_env :: "unit mcp_env" where
  "deaf_env =
     \<lparr>mc_tools = [], mc_summary = (\<lambda>_. []), mc_repr = (\<lambda>_. []), mc_explain = (\<lambda>_. []), mc_parse_text = (\<lambda>_. []), mc_exc_text = (\<lambda>_. []),
      mc_too_deep = (\<lambda>line. line = u ''[['')\<rparr>"

lemma deaf_facts: "tools_plain deaf_env" "owed (u ''null'')" "strip (u ''null'') = u ''null''" "strip (u ''[['') = u ''[[''" "u ''null'' \<noteq> u ''[[''"
proof -
  show "tools_plain deaf_env" by (simp add: tools_plain_def deaf_env_def)
  show "strip (u ''null'') = u ''null''" "strip (u ''[['') = u ''[[''" "u ''null'' \<noteq> u ''[[''"
    by (simp_all add: strip_def lstrip_def rstrip_def is_space_def literals)
  have "loads (u ''null'') = Inr JNull" using loads_dumps [of JNull] by simp
  moreover have "u ''null'' \<noteq> []" by (simp add: literals)
  ultimately show "owed (u ''null'')" by (simp add: owed_def)
qed

theorem lines_answered_witness:
  "\<forall>je ctx. case serve_streams deaf_env [(Line (u ''null''), je), (Line (u ''[[''), je), (Line (u ''null''), je)] ctx of
      (e, out, ctx') \<Rightarrow> e \<noteq> None \<and> length out = 1"
proof (intro allI)
  fix je :: journal_env and ctx :: "unit tool_ctx"
  let ?inputs = "[(Line (u ''null''), je), (Line (u ''[[''), je), (Line (u ''null''), je)]"
  obtain e out ctx' where s: "serve_streams deaf_env ?inputs ctx = (e, out, ctx')" by (cases "serve_streams deaf_env ?inputs ctx")
  have "survived deaf_env (Line (u ''null''))" "\<not> survived deaf_env (Line (u ''[[''))"
    by (simp_all add: survived_def deaf_env_def deaf_facts)
  moreover have "line_of (Line (u ''null'')) = u ''null''" by (simp add: line_of_def deaf_facts)
  ultimately show "case serve_streams deaf_env ?inputs ctx of (e, out, ctx') \<Rightarrow> e \<noteq> None \<and> length out = 1"
    using lines_answered [OF deaf_facts(1), of ?inputs ctx] s deaf_facts(2) by (simp del: serve_streams.simps)
qed

end
