(* ===== verification/Spec2Isabelle.thy ===== *)
theory Spec2Isabelle
  imports Wire_Props Bridge_Safety Store_Laws Surface_Laws Frontier_Laws Recording Tools_Laws Issue_Laws Scan_Identity
    Passive_Laws Active_Laws Config_Laws Tool_Http_Laws Web_Laws Page_Laws
    Engagement_Laws Mcp_Laws
begin

text \<open>
  hx drives a web-application security test. A Burp extension (Java) holds the network; the Python program models here
  talks to it over a Unix socket, records what it sees in a SQLite file and a directory of blobs, crawls, scans, and
  offers all of it to an agent as tools. Everything below is a model of the Python code under \<open>src/src/hx\<close>; file
  names are relative to that directory.

  \<^bold>\<open>Parts and how they interact.\<close>

  \<^item> The bridge (\<open>bridge/codec.py\<close>, \<open>bridge/server.py\<close>): frames on the socket, and one server object that a read
    thread and the callers share. It owns the send gate. Theories \<open>Codec\<close>, \<open>Codec_Bodies\<close>, \<open>Bridge\<close>; properties
    in \<open>Wire_Props\<close> and \<open>Bridge_Safety\<close>.
  \<^item> The operator halt (\<open>halt.py\<close>): a sentinel file and rows of the store that keep the bridge shut over restarts.
    Theory \<open>Halt\<close>; the bridge, the crawl and the tools ask it.
  \<^item> The store (\<open>store/records.py\<close>, \<open>store/db.py\<close>, \<open>run.py\<close>, \<open>store/blobs.py\<close>): the rows as HOL records, one list per table, the
    statements as functions on them. Theories \<open>Redact\<close> (URLs are redacted before they are stored), \<open>Store\<close>,
    \<open>Blobs\<close>; laws in \<open>Store_Laws\<close>.
  \<^item> Surfaces (\<open>surface.py\<close>): the key a request is filed under. Theories \<open>Surface\<close>, \<open>Surface_Laws\<close>.
  \<^item> Recording (\<open>capture.py\<close>, \<open>triage.py\<close>, \<open>ExchangeSink\<close> of \<open>session.py\<close>): a capture frame of the bridge becomes rows,
    blobs and a surface. Theories \<open>Capture\<close>, \<open>Capture_Laws\<close>; \<open>Recording\<close> composes it with the bridge.
  \<^item> The crawl (\<open>crawl/frontier.py\<close>, \<open>crawl/run.py\<close>): a frontier with budgets. Theories \<open>Frontier\<close>, \<open>Frontier_Laws\<close>.
    One page of it (\<open>crawl/cdp.py\<close>, \<open>crawl/page.py\<close>): the connection to the browser, the visit, and the judgement of what was seen.
    Theories \<open>Page\<close>, \<open>Page_Laws\<close>.
  \<^item> Tools (\<open>tools/schema.py\<close>, \<open>envelope.py\<close>, \<open>errors.py\<close>, \<open>journal.py\<close>, \<open>spec.py\<close>, \<open>registry.py\<close>, \<open>dispatch.py\<close>): what an
    agent may call, and what is written down of it. Theories \<open>Tool_Schema\<close>, \<open>Tools\<close>, \<open>Tools_Laws\<close>. The adapters that call it
    from outside (\<open>tools/adapters/\<close>): theories \<open>Mcp\<close>, \<open>Mcp_Laws\<close>.
  \<^item> Requests (\<open>http_text.py\<close>, \<open>insertion.py\<close>, \<open>issue.py\<close>): reading a message, finding where a probe can go, building a
    request and issuing it through the bridge into the store. Theories \<open>Http_Text\<close>, \<open>Issue\<close>, \<open>Issue_Laws\<close>.
  \<^item> Scanning (\<open>checks/base.py\<close>, \<open>checks/registry.py\<close>, \<open>checks/probe.py\<close>, \<open>identity.py\<close>, \<open>scan.py\<close>): checks over surfaces,
    bracketed by proofs that an identity is live. Theories \<open>Checks\<close>, \<open>Identity\<close>, \<open>Scan\<close>; laws in \<open>Scan_Laws\<close>,
    \<open>Scan_Safety\<close>, \<open>Scan_Identity\<close>.
  \<^item> The shipped checks (\<open>checks/passive/\<close>, \<open>checks/active/\<close>, \<open>delta.py\<close>): four that read what is stored of a surface, six
    that probe it. Theories \<open>Passive\<close>, \<open>Active\<close>; laws in \<open>Passive_Laws\<close>, \<open>Active_Laws\<close>.
  \<^item> Configuration (\<open>config.py\<close>, \<open>config_body\<close> of \<open>session.py\<close>): the file an operator writes, from the parsed document
    to the frame that authorises the extension. Theories \<open>Config\<close>, \<open>Config_Laws\<close>.
  \<^item> The engagement directory (\<open>engagement.py\<close>, \<open>store/paths.py\<close>, \<open>hx new\<close> and \<open>hx amend\<close> of \<open>cli.py\<close>): the file and the recorded
    versions of the scope, which must agree. Theories \<open>Engagement\<close>, \<open>Engagement_Laws\<close>.
  \<^item> The tools' handlers (\<open>tools/impl/\<close>, \<open>tools/live.py\<close>): what each tool does to the store, the bridge and the live session
    it holds. Theories \<open>Tool_Run\<close>, \<open>Tool_Finding\<close>, \<open>Tool_Http\<close>; laws in \<open>Tool_Run_Laws\<close>, \<open>Tool_Finding_Laws\<close>,
    \<open>Tool_Http_Laws\<close>.
  \<^item> The report (\<open>coverage.py\<close>, \<open>report.py\<close>): what was covered, and the document a client reads. Theories \<open>Coverage\<close>,
    \<open>Report\<close>, \<open>Report_Limits\<close>; laws in \<open>Report_Lines\<close> and \<open>Report_Laws\<close>.
  \<^item> The web app (\<open>web/\<close>): an operator's screens, and two buttons that write. Theories \<open>Web\<close>, \<open>Web_Laws\<close>.
  \<^item> Below all of them: \<open>Prelude\<close> (Python values, exceptions as sums, state-passing programs), \<open>Py_Text\<close> and \<open>Py_Num\<close> (the
    string, bytes and number operations the code calls), \<open>Json\<close> (its dumps and loads).

  \<^bold>\<open>How code is rendered.\<close> A \<open>str\<close> is a list of code points, \<open>bytes\<close> a list of 8-bit words, an \<open>int\<close> a HOL \<open>int\<close>; a
  dict whose order matters is an association list. An operation that raises returns a sum with the
  exception on the left. An operation on a state is a \<open>prog\<close> (state to result and state), composed by \<open>sbind\<close>; what it
  had changed before it raised stays changed unless the code rolls back (\<open>transaction\<close>). The names of definitions are
  the code's; a name in several parts of the code carries a prefix or suffix (\<open>br_send\<close>, \<open>oh_halt\<close>, \<open>put_blob\<close>).

  \<^item> The bridge is a step relation on \<open>system\<close>: each event is one critical section of the code, so every interleaving
    of the read thread and the callers is a path. \<open>reachable\<close> is the set of states a bridge can be in.
  \<^item> SQLite is a record \<open>store\<close> of row lists. A statement checks the constraints the schema declares on the rows the code
    writes, and raises \<open>IntegrityError\<close>; \<open>transaction\<close> restores the store. A failing disk is left out there,
    but not in \<open>Blobs\<close> and \<open>Halt\<close>, where each file-system call may fail.
  \<^item> Clocks, fresh ids, environment variables, and the answers of a peer are arguments: functions of a counter kept in the
    state, or lists. SHA-256 is a parameter of the blob store, with the hypothesis that it gives 64 hex digits.
  \<^item> A check's own code is an argument of the scan: a passive check is a function of a surface and its exchanges, an active
    one a tree of the requests it makes, because its sender is all it can reach. The shipped checks are such functions and trees;
    their random markers, \<open>repr\<close> and the Unicode checks of an authority are arguments. A regular expression is a list of
    \<open>atom\<close>s searched with backtracking.

  \<^bold>\<open>Interfaces.\<close> \<open>chunked_reader\<close> (Codec): a front that cuts one item from a buffer gives a reader that does not depend
  on chunking; interpreted on \<open>FrameReader\<close>. \<open>content_store\<close> (Blobs): put and get over content addresses; interpreted on
  the blob store. \<open>keyed_table\<close> (Store_Laws): an upsert under a key that its refresh keeps; interpreted on findings,
  observations and surfaces. \<open>scan_invariant\<close> (Scan_Safety): what every statement and request of a scan keeps, the
  scan keeps; interpreted on the status of runs, on the observations and on the log of the bridge. \<open>point_check\<close> (Active_Laws): what one step of a
  check's loop over insertion points owes, and from it the verdict and the requests of the whole check; interpreted on the five
  shipped checks that have such a loop.

  \<^bold>\<open>What is shown.\<close>

  \<^item> Wire: encoding and decoding are inverse, the reader is independent of chunking, two-body payloads and identity bodies
    have one reading, redaction cuts exactly the credentials.
  \<^item> Bridge: a disconnected bridge denies everything, nothing is sent after a halt, the gate is exactly its four conditions, a
    reconnect re-asserts the halt, commits do not cross connections, halting and resuming fail closed, frames are
    recorded or counted.
  \<^item> Configuration: a document is accepted exactly when it describes a valid configuration, a valid one written reads back, and
    the frame that is sent says what the file says.
  \<^item> Engagement: creating one gives all of it or nothing, a recorded version is what opens unless the clock went back, and a file that
    says the same in other words can be neither opened nor amended.
  \<^item> Store: findings merge under their key and keep a human's status, evidence chains are gapless, an exchange
    row is coherent, an ended run stays ended, an exchange is filed whole or not at all, triage is audited; the blob
    store refines a map.
  \<^item> Surfaces and crawl: no path forges a placeholder; a crawl stays on its origins and in its budgets, and is complete when it
    reports no truncation. A page is called rendered only when it was; the connection files the same frames however they arrive; one
    address that cannot be joined ends the visit of its page.
  \<^item> Tools: validation never crashes on an accepted schema, a mutating tool runs only past every gate, the journal hides
    credentials; a conversation over \<open>hx mcp\<close> answers every line once, and two kinds of line end it.
  \<^item> Handlers: a live session belongs to an open run of a kind that sends, but a scan strands it; an agent's finding is written
    whole; following cursors gives every row once; no credential header goes out; the search of stored bodies is exact.
  \<^item> Requests: what is built reads back as given, and issuing files what was sent.
  \<^item> Scans: one closed row per surface and check, every request accounted for, the run closed however the scan ends, no
    finding retired without cause, and no probe before the identity is proved.
  \<^item> Checks: none claims more than it read or was answered, each sends a bounded number of requests of a known shape, and the
    issue type of a cookie names one cookie.
  \<^item> Report: its text breaks into lines only where the renderer put them, code spans read back, the figures count what they say,
    every finding is listed in order, a clean result is said only when it was earned, and one kind of captured request makes it fail.
  \<^item> Web app: nothing is written but by a form of the app's own pages, and the screens agree with the report.

  \<^bold>\<open>Recursion and bounds.\<close> Most loops are structural recursion over the input. \<open>crawl_loop\<close>, \<open>check_schema\<close>, \<open>validate_at\<close>
  and the decoders that look ahead are \<open>function\<close>s with a termination proof: the crawl's measure is the page budget left, the
  others shrink their input. Only the JSON reader has fuel, twice the length of the text and two more, and
  \<open>loads_never_out_of_fuel\<close> shows that it is never used up. The probe sender's retries count down the attempts the code
  allows. So every definition is total, and what is said of a scan or a crawl includes that it ends.

  \<^bold>\<open>Not modelled.\<close> Processes, sockets, timeouts and file modes (\<open>session.py\<close> but for its sink and the frame it sends,
  \<open>crawl/browser.py\<close>); the commands of \<open>cli.py\<close> but for \<open>new\<close> and \<open>amend\<close>, which read arguments and print what the parts above
  answer, and the HTML of the web app; the declarations of the tools (names and
  parameter schemas), which dispatch takes as data; the texts of error messages, except where they are stored. The Java
  extension is the peer: its frames are arbitrary.
\<close>

end
